(* ===== verification/XNC_Prelude.thy ===== *)
theory XNC_Prelude
  imports Main "HOL-Library.Word" "HOL-Library.AList"
begin

text \<open>
  Shared material of the development: the Go types the components use (bytes, time, durations,
  maps), the REST error value, the little-endian integer codec of \<open>encoding/binary\<close>, and the two
  interfaces every component is written against:
  \<^item> \<open>go_map\<close>: what a Go map promises (lookup after store and after delete, one entry per key),
    interpreted on association lists with the operations of \<open>HOL-Library.AList\<close>;
  \<^item> \<open>inv_machine\<close>: an operation alphabet with preconditions, a step function and an invariant that
    every admissible step keeps; the run lemmas are proved once here and each component interprets the locale.
  A Go map is an association list because several operations iterate over it. The position in the
  list stands for the order in which \<open>range\<close> visits the entries, which Go leaves unspecified;
  statements about iterating operations are made for every list.
\<close>

named_theorems xnc_simps "unfolding rules of the model's operations"
named_theorems codec_simps "little-endian encoders and decoders"

subsection \<open>Go scalar types\<close>

type_synonym byte = "8 word"
type_synonym bytes = "8 word list"

text \<open>\<open>time.Time\<close> and \<open>time.Duration\<close> are counted in nanoseconds; an instant is counted from the
  Unix epoch. The zero value of \<open>time.Time\<close> is 1 January of the year 1.\<close>

type_synonym go_time = int
type_synonym duration = int

abbreviation Second :: duration where "Second \<equiv> 1000000000"
abbreviation Minute :: duration where "Minute \<equiv> 60 * Second"
abbreviation Hour :: duration where "Hour \<equiv> 60 * Minute"

definition zeroTime :: go_time where
  "zeroTime = - 62135596800 * Second"

text \<open>\<open>t.Sub(u)\<close> saturates at the bounds of a 64-bit duration.\<close>

definition maxDuration :: duration where "maxDuration = 9223372036854775807"
definition minDuration :: duration where "minDuration = - 9223372036854775808"

definition time_Sub :: "go_time \<Rightarrow> go_time \<Rightarrow> duration" where
  "time_Sub t u = max minDuration (min maxDuration (t - u))"

text \<open>\<open>t.Unix()\<close>: whole seconds since the epoch, rounded towards minus infinity.\<close>

definition time_Unix :: "go_time \<Rightarrow> int" where
  "time_Unix t = t div Second"

definition time_of_Unix :: "int \<Rightarrow> go_time" where
  "time_of_Unix s = s * Second"

lemma time_Sub_le: "d \<le> maxDuration \<Longrightarrow> minDuration \<le> d \<Longrightarrow> d < maxDuration \<Longrightarrow>
    time_Sub t u \<le> d \<longleftrightarrow> t - u \<le> d"
  by (auto simp: time_Sub_def max_def min_def maxDuration_def minDuration_def)

lemma time_Sub_less: "0 < d \<Longrightarrow> d \<le> maxDuration \<Longrightarrow> time_Sub t u < d \<longleftrightarrow> t - u < d"
  by (auto simp: time_Sub_def max_def min_def maxDuration_def minDuration_def)

lemma time_Sub_zero [simp]: "time_Sub t t = 0"
  by (simp add: time_Sub_def maxDuration_def minDuration_def)

lemma time_Unix_mono: "t \<le> u \<Longrightarrow> time_Unix t \<le> time_Unix u"
  by (simp add: time_Unix_def zdiv_mono1)

subsection \<open>The REST error envelope\<close>

record api_error =
  err_status :: int
  err_code :: string
  err_message :: string

definition proto_Err :: "int \<Rightarrow> string \<Rightarrow> string \<Rightarrow> api_error" where
  "proto_Err status code msg = \<lparr>err_status = status, err_code = code, err_message = msg\<rparr>"

lemma proto_Err_sel [simp]:
  "err_status (proto_Err s c m) = s" "err_code (proto_Err s c m) = c"
  "err_message (proto_Err s c m) = m"
  by (simp_all add: proto_Err_def)

lemma proto_Err_eq [simp]: "proto_Err s c m = proto_Err s' c' m' \<longleftrightarrow> s = s' \<and> c = c' \<and> m = m'"
  by (simp add: proto_Err_def)

subsection \<open>Go maps\<close>

type_synonym ('k, 'v) table = "('k \<times> 'v) list"

locale go_map =
  fixes mget :: "'m \<Rightarrow> 'k \<Rightarrow> 'v option"
    and mput :: "'k \<Rightarrow> 'v \<Rightarrow> 'm \<Rightarrow> 'm"
    and mdel :: "'k \<Rightarrow> 'm \<Rightarrow> 'm"
    and mkeys :: "'m \<Rightarrow> 'k list"
    and mok :: "'m \<Rightarrow> bool"
  assumes get_put: "mget (mput k v m) j = (if j = k then Some v else mget m j)"
    and get_del: "mget (mdel k m) j = (if j = k then None else mget m j)"
    and keys_get: "k \<in> set (mkeys m) \<longleftrightarrow> mget m k \<noteq> None"
    and ok_distinct: "mok m \<Longrightarrow> distinct (mkeys m)"
    and ok_put: "mok m \<Longrightarrow> mok (mput k v m)"
    and ok_del: "mok m \<Longrightarrow> mok (mdel k m)"
begin

lemma get_put_same: "mget (mput k v m) k = Some v"
  by (simp add: get_put)

lemma get_put_other: "j \<noteq> k \<Longrightarrow> mget (mput k v m) j = mget m j"
  by (simp add: get_put)

lemma get_del_same: "mget (mdel k m) k = None"
  by (simp add: get_del)

lemma put_put_get: "mget (mput k v (mput k u m)) = mget (mput k v m)"
  by (rule ext) (simp add: get_put)

lemma del_put_get: "mget m k = None \<Longrightarrow> mget (mdel k (mput k v m)) = mget m"
  by (rule ext) (simp add: get_put get_del)

lemma keys_put: "set (mkeys (mput k v m)) = insert k (set (mkeys m))"
  by (auto simp: keys_get get_put split: if_splits)

lemma keys_del: "set (mkeys (mdel k m)) = set (mkeys m) - {k}"
  by (auto simp: keys_get get_del split: if_splits)

lemma size_put:
  assumes "mok m"
  shows "length (mkeys (mput k v m)) = (if mget m k = None then Suc (length (mkeys m))
     else length (mkeys m))"
proof -
  have "length (mkeys (mput k v m)) = card (insert k (set (mkeys m)))"
    using ok_distinct [OF ok_put [OF assms]] by (metis distinct_card keys_put)
  also have "\<dots> = (if k \<in> set (mkeys m) then card (set (mkeys m)) else Suc (card (set (mkeys m))))"
    by (simp add: insert_absorb)
  finally show ?thesis
    using distinct_card [OF ok_distinct [OF assms]] by (simp add: keys_get)
qed

end

definition tget :: "('k, 'v) table \<Rightarrow> 'k \<Rightarrow> 'v option" where
  "tget t k = map_of t k"

definition tput :: "'k \<Rightarrow> 'v \<Rightarrow> ('k, 'v) table \<Rightarrow> ('k, 'v) table" where
  "tput k v t = AList.update k v t"

definition tdel :: "'k \<Rightarrow> ('k, 'v) table \<Rightarrow> ('k, 'v) table" where
  "tdel k t = AList.delete k t"

definition tkeys :: "('k, 'v) table \<Rightarrow> 'k list" where
  "tkeys t = map fst t"

definition tok :: "('k, 'v) table \<Rightarrow> bool" where
  "tok t \<longleftrightarrow> distinct (map fst t)"

interpretation tbl: go_map tget tput tdel tkeys tok
proof unfold_locales
  show "tget (tput k v m) j = (if j = k then Some v else tget m j)"
    for k j :: 'a and v :: 'b and m by (simp add: tget_def tput_def update_conv')
  show "tget (tdel k m) j = (if j = k then None else tget m j)"
    for k j :: 'a and m :: "('a, 'b) table" by (simp add: tget_def tdel_def delete_conv')
  show "k \<in> set (tkeys m) \<longleftrightarrow> tget m k \<noteq> None" for k :: 'a and m :: "('a, 'b) table"
    by (simp add: tget_def tkeys_def map_of_eq_None_iff)
  show "tok m \<Longrightarrow> distinct (tkeys m)" for m :: "('a, 'b) table"
    by (simp add: tok_def tkeys_def)
  show "tok m \<Longrightarrow> tok (tput k v m)" for k :: 'a and v :: 'b and m
    by (simp add: tok_def tput_def distinct_update)
  show "tok m \<Longrightarrow> tok (tdel k m)" for k :: 'a and m :: "('a, 'b) table"
    by (simp add: tok_def tdel_def distinct_delete)
qed

lemmas tbl_get [simp] = tbl.get_put tbl.get_del
lemmas tbl_ok [simp] = tbl.ok_put tbl.ok_del

lemma tget_Nil [simp]: "tget [] k = None"
  by (simp add: tget_def)

lemma tget_Cons [simp]: "tget ((j, v) # t) k = (if k = j then Some v else tget t k)"
  by (simp add: tget_def)

lemma tok_Nil [simp]: "tok []"
  by (simp add: tok_def)

lemma tok_Cons [simp]: "tok ((k, v) # t) \<longleftrightarrow> k \<notin> set (tkeys t) \<and> tok t"
  by (simp add: tok_def tkeys_def)

lemma tput_Nil [simp]: "tput k v [] = [(k, v)]"
  by (simp add: tput_def)

lemma tput_Cons [simp]:
  "tput k v ((j, u) # t) = (if j = k then (j, v) # t else (j, u) # tput k v t)"
  by (simp add: tput_def)

lemma tdel_Nil [simp]: "tdel k [] = []"
  by (simp add: tdel_def)

lemma tdel_Cons [simp]: "tdel k ((j, u) # t) = (if j = k then tdel k t else (j, u) # tdel k t)"
  by (simp add: tdel_def AList.delete_eq)

lemma tget_in_set: "tok t \<Longrightarrow> tget t k = Some v \<longleftrightarrow> (k, v) \<in> set t"
  by (simp add: tget_def tok_def)

lemma tget_SomeD: "tget t k = Some v \<Longrightarrow> (k, v) \<in> set t"
  by (simp add: tget_def map_of_SomeD)

lemma tget_absent: "k \<notin> set (tkeys t) \<Longrightarrow> tget t k = None"
  by (simp add: tget_def tkeys_def map_of_eq_None_iff)

lemma tkeys_simps [simp]: "tkeys [] = []" "tkeys ((k, v) # t) = k # tkeys t"
  by (simp_all add: tkeys_def)

text \<open>Deleting entries while iterating (\<open>for k, v := range m \{ if p \{ delete(m, k) \} \}\<close>).\<close>

definition tfilter :: "('k \<Rightarrow> 'v \<Rightarrow> bool) \<Rightarrow> ('k, 'v) table \<Rightarrow> ('k, 'v) table" where
  "tfilter p t = filter (\<lambda>(k, v). p k v) t"

lemma tok_tfilter [simp]: "tok t \<Longrightarrow> tok (tfilter p t)"
  by (simp add: tok_def tfilter_def distinct_map_filter)

lemma tget_tfilter:
  "tok t \<Longrightarrow> tget (tfilter p t) k = (case tget t k of None \<Rightarrow> None | Some v \<Rightarrow> if p k v then Some v else None)"
proof (induction t)
  case Nil
  then show ?case by (simp add: tfilter_def)
next
  case (Cons e t)
  obtain j v where e: "e = (j, v)" by (cases e)
  have absent: "tget t j = None"
    using Cons.prems e by (simp add: tget_absent)
  show ?case
    using Cons e absent by (auto simp: tfilter_def split: option.splits)
qed

lemma tcount_card:
  "tok t \<Longrightarrow> length (filter (\<lambda>(k, v). P k v) t) = card {k. \<exists>v. tget t k = Some v \<and> P k v}"
proof -
  assume t: "tok t"
  have "distinct (map fst (filter (\<lambda>(k, v). P k v) t))"
    using t by (simp add: tok_def distinct_map_filter)
  then have "length (filter (\<lambda>(k, v). P k v) t) = card (fst ` set (filter (\<lambda>(k, v). P k v) t))"
    using distinct_card by fastforce
  also have "fst ` set (filter (\<lambda>(k, v). P k v) t) = {k. \<exists>v. tget t k = Some v \<and> P k v}"
    using t by (force simp: tget_in_set)
  finally show ?thesis .
qed

lemma tget_finite: "finite {k. \<exists>v. tget t k = Some v \<and> P k v}"
  by (rule finite_subset [of _ "fst ` set t"]) (force dest: tget_SomeD)+


subsection \<open>Operations with an invariant\<close>

text \<open>\<open>run_ok pre step es s\<close>: in the run of the events \<open>es\<close> from \<open>s\<close> each event meets its
  precondition in the state where it happens. A component without preconditions takes
  \<open>pre = (\<lambda>_ _. True)\<close>.\<close>

fun run_ok :: "('e \<Rightarrow> 's \<Rightarrow> bool) \<Rightarrow> ('e \<Rightarrow> 's \<Rightarrow> 's) \<Rightarrow> 'e list \<Rightarrow> 's \<Rightarrow> bool" where
  "run_ok pre step [] s \<longleftrightarrow> True"
| "run_ok pre step (e # es) s \<longleftrightarrow> pre e s \<and> run_ok pre step es (step e s)"

lemma run_ok_trivial [simp]: "run_ok (\<lambda>_ _. True) step es s"
  by (induction es arbitrary: s) simp_all

lemma run_ok_list_all: "run_ok (\<lambda>e _. P e) step es s \<longleftrightarrow> list_all P es"
  by (induction es arbitrary: s) simp_all

lemma run_okI: "(\<And>e s. e \<in> set es \<Longrightarrow> pre e s) \<Longrightarrow> run_ok pre step es s"
  by (induction es arbitrary: s) simp_all

lemma run_ok_append:
  "run_ok pre step (es @ fs) s \<longleftrightarrow> run_ok pre step es s \<and> run_ok pre step fs (fold step es s)"
  by (induction es arbitrary: s) auto

locale inv_machine =
  fixes pre :: "'e \<Rightarrow> 's \<Rightarrow> bool"
    and step :: "'e \<Rightarrow> 's \<Rightarrow> 's"
    and inv :: "'s \<Rightarrow> bool"
  assumes step_inv: "inv s \<Longrightarrow> pre e s \<Longrightarrow> inv (step e s)"
begin

lemma run_inv: "inv s \<Longrightarrow> run_ok pre step es s \<Longrightarrow> inv (fold step es s)"
  by (induction es arbitrary: s) (simp_all add: step_inv)

lemma run_prefix_inv:
  "inv s \<Longrightarrow> run_ok pre step es s \<Longrightarrow> inv (fold step (take n es) s)"
  using run_inv [of s "take n es"] run_ok_append [of pre step "take n es" "drop n es" s] by simp

end

subsection \<open>Little-endian integers (\<open>encoding/binary\<close>)\<close>

definition PutUint16 :: "16 word \<Rightarrow> bytes" where
  "PutUint16 w = [ucast w, ucast (drop_bit 8 w)]"

definition PutUint32 :: "32 word \<Rightarrow> bytes" where
  "PutUint32 w = [ucast w, ucast (drop_bit 8 w), ucast (drop_bit 16 w), ucast (drop_bit 24 w)]"

definition Uint16 :: "bytes \<Rightarrow> 16 word" where
  "Uint16 b = or (ucast (b ! 0)) (push_bit 8 (ucast (b ! 1)))"

definition Uint32 :: "bytes \<Rightarrow> 32 word" where
  "Uint32 b = or (or (or (ucast (b ! 0)) (push_bit 8 (ucast (b ! 1))))
     (push_bit 16 (ucast (b ! 2)))) (push_bit 24 (ucast (b ! 3)))"

lemma length_PutUint [simp]: "length (PutUint16 w) = 2" "length (PutUint32 v) = 4"
  by (simp_all add: PutUint16_def PutUint32_def)

lemma Uint16_Put [simp]: "Uint16 (PutUint16 w @ r) = w"
  unfolding Uint16_def PutUint16_def
  by (rule bit_word_eqI)
    (auto simp: bit_or_iff bit_push_bit_iff bit_ucast_iff bit_drop_bit_eq)

lemma Uint32_Put [simp]: "Uint32 (PutUint32 w @ r) = w"
proof (rule bit_word_eqI)
  fix n assume "n < LENGTH(32)"
  then consider "n < 8" | "8 \<le> n" "n < 16" | "16 \<le> n" "n < 24" | "24 \<le> n" "n < 32"
    by fastforce
  then show "bit (Uint32 (PutUint32 w @ r)) n = bit w n"
    unfolding Uint32_def PutUint32_def
    by cases (auto simp: bit_or_iff bit_push_bit_iff bit_ucast_iff bit_drop_bit_eq)
qed

lemma Uint16_Put0 [simp]: "Uint16 (PutUint16 w) = w"
  using Uint16_Put [of w "[]"] by simp

lemma Uint32_Put0 [simp]: "Uint32 (PutUint32 w) = w"
  using Uint32_Put [of w "[]"] by simp

end
