(* ===== verification/Ipc_Frame.thy ===== *)
theory Ipc_Frame
  imports XNC_Prelude
begin

text \<open>
  The node-local IPC layer: the XNIP frame codec (\<open>src/proto/ipc/frame.go\<close>), the payloads of the
  mutual HMAC handshake (\<open>src/proto/ipc/handshake.go\<close>), the two halves of the handshake as the
  shell host and the agent run them (\<open>src/shellhost/server.go\<close>, \<open>src/agent/shellpipe/client.go\<close>)
  and the fixed-layout shell messages (\<open>src/shellhost/message.go\<close>).
  A byte stream is the list of the bytes that arrive before the connection ends. \<open>crypto/hmac\<close>
  is the parameter \<open>hmac\<close> of the definitions that use it.
\<close>

subsection \<open>Frames\<close>

definition Magic :: bytes where "Magic = [88, 78, 73, 80]"
definition ProtocolVersion :: byte where "ProtocolVersion = 1"
definition HeaderSize :: nat where "HeaderSize = 16"
definition MaxFrameBytes :: nat where "MaxFrameBytes = 9 * 2 ^ 20"

definition MsgHello :: "16 word" where "MsgHello = 0x0001"
definition MsgHelloProof :: "16 word" where "MsgHelloProof = 0x0002"
definition MsgProof :: "16 word" where "MsgProof = 0x0003"

record frame =
  Flags :: byte
  MessageType :: "16 word"
  RequestID :: "32 word"
  Payload :: bytes

datatype ipc_error =
    Panic string
  | ErrTruncated
  | ErrBadMagic
  | ErrBadVersion byte
  | ErrTooLarge "32 word"
  | EOF
  | ErrUnexpectedEOF
  | ErrSize string nat nat
  | ErrMessageType "16 word" "16 word"
  | ErrProofRejected

definition Encode :: "frame \<Rightarrow> ipc_error + bytes" where
  "Encode f =
     (if length (Payload f) > MaxFrameBytes then Inl (Panic ''ipc: payload exceeds MaxFrameBytes'')
      else Inr (Magic @ [ProtocolVersion, Flags f] @ PutUint16 (MessageType f)
        @ PutUint32 (RequestID f) @ PutUint32 (of_nat (length (Payload f))) @ Payload f))"

definition DecodeHeader :: "bytes \<Rightarrow> ipc_error + (16 word \<times> nat)" where
  "DecodeHeader h =
     (if length h < HeaderSize then Inl ErrTruncated
      else if take 4 h \<noteq> Magic then Inl ErrBadMagic
      else if h ! 4 \<noteq> ProtocolVersion then Inl (ErrBadVersion (h ! 4))
      else let n = Uint32 (drop 12 h) in
        if unat n > MaxFrameBytes then Inl (ErrTooLarge n)
        else Inr (Uint16 (drop 6 h), unat n))"

definition Decode :: "bytes \<Rightarrow> ipc_error + frame" where
  "Decode data =
     (case DecodeHeader data of
        Inl e \<Rightarrow> Inl e
      | Inr (mt, n) \<Rightarrow>
          if length data < HeaderSize + n then Inl ErrTruncated
          else Inr \<lparr>Flags = data ! 5, MessageType = mt, RequestID = Uint32 (drop 8 data),
                    Payload = take n (drop HeaderSize data)\<rparr>)"

text \<open>\<open>io.ReadFull\<close> on a stream: \<open>io.EOF\<close> when nothing could be read, \<open>io.ErrUnexpectedEOF\<close>
  after a partial read.\<close>

definition io_ReadFull :: "nat \<Rightarrow> bytes \<Rightarrow> ipc_error + (bytes \<times> bytes)" where
  "io_ReadFull n r =
     (if length r \<ge> n then Inr (take n r, drop n r)
      else Inl (if r = [] then EOF else ErrUnexpectedEOF))"

definition ReadFrame :: "bytes \<Rightarrow> ipc_error + (frame \<times> bytes)" where
  "ReadFrame r =
     (case io_ReadFull HeaderSize r of
        Inl e \<Rightarrow> Inl e
      | Inr (h, r1) \<Rightarrow>
          (case DecodeHeader h of
             Inl e \<Rightarrow> Inl e
           | Inr (mt, n) \<Rightarrow>
               let f = \<lparr>Flags = h ! 5, MessageType = mt, RequestID = Uint32 (drop 8 h),
                        Payload = []\<rparr> in
               if n > 0 then
                 (case io_ReadFull n r1 of
                    Inl e \<Rightarrow> Inl e
                  | Inr (p, r2) \<Rightarrow> Inr (f\<lparr>Payload := p\<rparr>, r2))
               else Inr (f, r1)))"

definition WriteFrame :: "bytes \<Rightarrow> frame \<Rightarrow> ipc_error + bytes" where
  "WriteFrame w f = (case Encode f of Inl e \<Rightarrow> Inl e | Inr b \<Rightarrow> Inr (w @ b))"

text \<open>A peer that reads the next \<open>n\<close> frames of a stream.\<close>

fun ReadFrames :: "nat \<Rightarrow> bytes \<Rightarrow> ipc_error + (frame list \<times> bytes)" where
  "ReadFrames 0 r = Inr ([], r)"
| "ReadFrames (Suc n) r =
     (case ReadFrame r of
        Inl e \<Rightarrow> Inl e
      | Inr (f, r1) \<Rightarrow>
          (case ReadFrames n r1 of
             Inl e \<Rightarrow> Inl e
           | Inr (fs, r2) \<Rightarrow> Inr (f # fs, r2)))"

subsection \<open>Handshake payloads\<close>

definition NonceSize :: nat where "NonceSize = 16"
definition ProofSize :: nat where "ProofSize = 32"

definition Proof :: "(bytes \<Rightarrow> bytes \<Rightarrow> bytes) \<Rightarrow> bytes \<Rightarrow> bytes \<Rightarrow> bytes" where
  "Proof hmac secret nonce = hmac secret nonce"

definition VerifyProof :: "(bytes \<Rightarrow> bytes \<Rightarrow> bytes) \<Rightarrow> bytes \<Rightarrow> bytes \<Rightarrow> bytes \<Rightarrow> bool" where
  "VerifyProof hmac secret nonce got \<longleftrightarrow> Proof hmac secret nonce = got"

definition EncodeHello :: "32 word \<Rightarrow> bytes \<Rightarrow> ipc_error + bytes" where
  "EncodeHello pid nonce =
     (if length nonce \<noteq> NonceSize then Inl (Panic ''ipc: nonce size'')
      else Inr (PutUint32 pid @ nonce))"

definition DecodeHello :: "bytes \<Rightarrow> ipc_error + (32 word \<times> bytes)" where
  "DecodeHello p =
     (if length p \<noteq> 4 + NonceSize then Inl (ErrSize ''hello'' (length p) (4 + NonceSize))
      else Inr (Uint32 p, drop 4 p))"

definition EncodeHelloProof :: "32 word \<Rightarrow> bytes \<Rightarrow> bytes \<Rightarrow> ipc_error + bytes" where
  "EncodeHelloProof pid nonce prf =
     (if length nonce \<noteq> NonceSize \<or> length prf \<noteq> ProofSize then Inl (Panic ''ipc: hello_proof size'')
      else Inr (PutUint32 pid @ nonce @ prf))"

definition DecodeHelloProof :: "bytes \<Rightarrow> ipc_error + (32 word \<times> bytes \<times> bytes)" where
  "DecodeHelloProof p =
     (if length p \<noteq> 4 + NonceSize + ProofSize
      then Inl (ErrSize ''hello_proof'' (length p) (4 + NonceSize + ProofSize))
      else Inr (Uint32 p, take NonceSize (drop 4 p), drop (4 + NonceSize) p))"

definition EncodeProof :: "bytes \<Rightarrow> ipc_error + bytes" where
  "EncodeProof prf = (if length prf \<noteq> ProofSize then Inl (Panic ''ipc: proof size'') else Inr prf)"

definition DecodeProof :: "bytes \<Rightarrow> ipc_error + bytes" where
  "DecodeProof p = (if length p \<noteq> ProofSize then Inl (ErrSize ''proof'' (length p) ProofSize) else Inr p)"

subsection \<open>The two halves of the handshake\<close>

text \<open>A frame sent with only a message type and a payload.\<close>

definition msg_frame :: "16 word \<Rightarrow> bytes \<Rightarrow> frame" where
  "msg_frame mt p = \<lparr>Flags = 0, MessageType = mt, RequestID = 0, Payload = p\<rparr>"

definition send :: "16 word \<Rightarrow> ipc_error + bytes \<Rightarrow> ipc_error + bytes" where
  "send mt enc = (case enc of Inl e \<Rightarrow> Inl e | Inr p \<Rightarrow> WriteFrame [] (msg_frame mt p))"

text \<open>Each half is split where it blocks on the peer. The initiator sends HELLO, then answers the
  HELLO_PROOF it reads; the responder answers HELLO, then checks PROOF. A half returns what it
  writes on the connection and what is left of its input.\<close>

definition clientHello :: "32 word \<Rightarrow> bytes \<Rightarrow> ipc_error + bytes" where
  "clientHello pid myNonce = send MsgHello (EncodeHello pid myNonce)"

definition clientProve ::
  "(bytes \<Rightarrow> bytes \<Rightarrow> bytes) \<Rightarrow> bytes \<Rightarrow> bytes \<Rightarrow> bytes \<Rightarrow> ipc_error + (bytes \<times> bytes)" where
  "clientProve hmac secret myNonce input =
     (case ReadFrame input of
        Inl e \<Rightarrow> Inl e
      | Inr (f, rest) \<Rightarrow>
          if MessageType f \<noteq> MsgHelloProof then Inl (ErrMessageType (MessageType f) MsgHelloProof)
          else (case DecodeHelloProof (Payload f) of
              Inl e \<Rightarrow> Inl e
            | Inr (_, peerNonce, proofC) \<Rightarrow>
                if \<not> VerifyProof hmac secret myNonce proofC then Inl ErrProofRejected
                else (case send MsgProof (EncodeProof (Proof hmac secret peerNonce)) of
                    Inl e \<Rightarrow> Inl e
                  | Inr out \<Rightarrow> Inr (out, rest))))"

definition serverHelloProof ::
  "(bytes \<Rightarrow> bytes \<Rightarrow> bytes) \<Rightarrow> bytes \<Rightarrow> 32 word \<Rightarrow> bytes \<Rightarrow> bytes \<Rightarrow> ipc_error + (bytes \<times> bytes)" where
  "serverHelloProof hmac secret pid myNonce input =
     (case ReadFrame input of
        Inl e \<Rightarrow> Inl e
      | Inr (f, rest) \<Rightarrow>
          if MessageType f \<noteq> MsgHello then Inl (ErrMessageType (MessageType f) MsgHello)
          else (case DecodeHello (Payload f) of
              Inl e \<Rightarrow> Inl e
            | Inr (_, clientNonce) \<Rightarrow>
                (case send MsgHelloProof
                    (EncodeHelloProof pid myNonce (Proof hmac secret clientNonce)) of
                    Inl e \<Rightarrow> Inl e
                  | Inr out \<Rightarrow> Inr (out, rest))))"

definition serverVerify ::
  "(bytes \<Rightarrow> bytes \<Rightarrow> bytes) \<Rightarrow> bytes \<Rightarrow> bytes \<Rightarrow> bytes \<Rightarrow> ipc_error + bytes" where
  "serverVerify hmac secret myNonce input =
     (case ReadFrame input of
        Inl e \<Rightarrow> Inl e
      | Inr (f, rest) \<Rightarrow>
          if MessageType f \<noteq> MsgProof then Inl (ErrMessageType (MessageType f) MsgProof)
          else (case DecodeProof (Payload f) of
              Inl e \<Rightarrow> Inl e
            | Inr prf \<Rightarrow>
                if \<not> VerifyProof hmac secret myNonce prf then Inl ErrProofRejected else Inr rest))"

subsection \<open>Shell messages\<close>

definition profileFieldLen :: nat where "profileFieldLen = 16"
definition stateFieldLen :: nat where "stateFieldLen = 24"

text \<open>\<open>copy\<close> into a zeroed field of fixed width: longer input is cut, shorter input NUL padded.\<close>

definition nul_field :: "nat \<Rightarrow> bytes \<Rightarrow> bytes" where
  "nul_field n b = take n b @ replicate (n - length b) 0"

definition nulString :: "bytes \<Rightarrow> bytes" where
  "nulString b = takeWhile (\<lambda>c. c \<noteq> 0) b"

definition encodeBegin :: "16 word \<Rightarrow> 16 word \<Rightarrow> bytes \<Rightarrow> bytes" where
  "encodeBegin cols rows profile = PutUint16 cols @ PutUint16 rows @ nul_field profileFieldLen profile"

definition decodeBegin :: "bytes \<Rightarrow> ipc_error + (16 word \<times> 16 word \<times> bytes)" where
  "decodeBegin p =
     (if length p \<noteq> 4 + profileFieldLen then Inl (ErrSize ''begin'' (length p) (4 + profileFieldLen))
      else Inr (Uint16 p, Uint16 (drop 2 p), nulString (drop 4 p)))"

definition encodeData :: "byte \<Rightarrow> bytes \<Rightarrow> bytes" where
  "encodeData stream data = [stream] @ PutUint32 (of_nat (length data)) @ data"

definition decodeData :: "bytes \<Rightarrow> ipc_error + (byte \<times> bytes)" where
  "decodeData p =
     (if length p < 5 then Inl (ErrSize ''data'' (length p) 5)
      else let n = Uint32 (drop 1 p) in
        if length p \<noteq> 5 + unat n then Inl (ErrSize ''data length'' (length p) (5 + unat n))
        else Inr (p ! 0, drop 5 p))"

definition encodeResize :: "16 word \<Rightarrow> 16 word \<Rightarrow> bytes" where
  "encodeResize cols rows = PutUint16 cols @ PutUint16 rows"

definition decodeResize :: "bytes \<Rightarrow> ipc_error + (16 word \<times> 16 word)" where
  "decodeResize p =
     (if length p \<noteq> 4 then Inl (ErrSize ''resize'' (length p) 4)
      else Inr (Uint16 p, Uint16 (drop 2 p)))"

definition encodeExit :: "32 word \<Rightarrow> bytes" where
  "encodeExit code = PutUint32 code"

definition decodeExit :: "bytes \<Rightarrow> ipc_error + 32 word" where
  "decodeExit p = (if length p \<noteq> 4 then Inl (ErrSize ''exit'' (length p) 4) else Inr (Uint32 p))"

definition encodeState :: "bytes \<Rightarrow> bytes" where
  "encodeState code = nul_field stateFieldLen code"

definition decodeState :: "bytes \<Rightarrow> ipc_error + bytes" where
  "decodeState p =
     (if length p \<noteq> stateFieldLen then Inl (ErrSize ''state'' (length p) stateFieldLen)
      else Inr (nulString p))"

subsection \<open>Codec lemmas\<close>

lemma HeaderSize_eq [simp]: "HeaderSize = 16"
  by (simp add: HeaderSize_def)

lemma length_Magic [simp]: "length Magic = 4"
  by (simp add: Magic_def)

lemma payload_word:
  "length p \<le> MaxFrameBytes \<Longrightarrow> unat (of_nat (length p) :: 32 word) = length p"
  by (simp add: unat_of_nat MaxFrameBytes_def)

definition frame_ok :: "frame \<Rightarrow> bool" where
  "frame_ok f \<longleftrightarrow> length (Payload f) \<le> MaxFrameBytes"

definition wire :: "frame \<Rightarrow> bytes" where
  "wire f = Magic @ [ProtocolVersion, Flags f] @ PutUint16 (MessageType f)
     @ PutUint32 (RequestID f) @ PutUint32 (of_nat (length (Payload f))) @ Payload f"

lemma Encode_wire: "Encode f = (if frame_ok f then Inr (wire f) else Inl (Panic ''ipc: payload exceeds MaxFrameBytes''))"
  by (simp add: Encode_def wire_def frame_ok_def)

lemma Encode_Inr: "Encode f = Inr b \<longleftrightarrow> frame_ok f \<and> b = wire f"
  by (auto simp: Encode_wire)

lemma length_wire [simp]: "length (wire f) = 16 + length (Payload f)"
  by (simp add: wire_def)

lemma wire_parts:
  "take 4 (wire f) = Magic"
  "wire f ! 4 = ProtocolVersion"
  "wire f ! 5 = Flags f"
  "drop 6 (wire f) = PutUint16 (MessageType f) @ PutUint32 (RequestID f)
     @ PutUint32 (of_nat (length (Payload f))) @ Payload f"
  "drop 8 (wire f) = PutUint32 (RequestID f) @ PutUint32 (of_nat (length (Payload f))) @ Payload f"
  "drop 12 (wire f) = PutUint32 (of_nat (length (Payload f))) @ Payload f"
  "drop 16 (wire f) = Payload f"
  by (simp_all add: wire_def Magic_def PutUint16_def PutUint32_def)

lemma DecodeHeader_wire:
  "frame_ok f \<Longrightarrow> DecodeHeader (wire f @ r) = Inr (MessageType f, length (Payload f))"
  by (simp add: DecodeHeader_def wire_parts nth_append payload_word frame_ok_def Let_def)

lemma Decode_wire: "frame_ok f \<Longrightarrow> Decode (wire f @ r) = Inr f"
  by (simp add: Decode_def DecodeHeader_wire wire_parts nth_append)

lemma DecodeHeader_take: "length h \<ge> 16 \<Longrightarrow> DecodeHeader (take 16 h) = DecodeHeader h"
proof -
  assume l: "length h \<ge> 16"
  then obtain a r where h: "h = a @ r" and a: "length a = 16"
    by (metis append_take_drop_id length_take min.absorb2)
  have "Uint32 (drop 12 a @ r) = Uint32 (drop 12 a)" "Uint16 (drop 6 a @ r) = Uint16 (drop 6 a)"
    using a by (simp_all add: Uint32_def Uint16_def nth_append)
  then show ?thesis
    using a h by (simp add: DecodeHeader_def nth_append Let_def)
qed

lemma ReadFrame_wire: "frame_ok f \<Longrightarrow> ReadFrame (wire f @ r) = Inr (f, r)"
proof -
  assume ok: "frame_ok f"
  let ?h = "take 16 (wire f @ r)"
  have h: "DecodeHeader ?h = Inr (MessageType f, length (Payload f))"
    by (subst DecodeHeader_take) (simp_all add: DecodeHeader_wire ok del: take_append)
  have "drop 8 ?h = PutUint32 (RequestID f) @ PutUint32 (of_nat (length (Payload f)))"
    by (simp add: wire_def Magic_def PutUint16_def PutUint32_def)
  then have parts: "?h ! 5 = Flags f" "Uint32 (drop 8 ?h) = RequestID f"
    by (simp_all add: wire_def Magic_def nth_append del: drop_take)
  show ?thesis
    unfolding ReadFrame_def io_ReadFull_def HeaderSize_eq
    using h parts by (auto simp: Let_def wire_parts)
qed

lemma list16:
  "length h \<ge> 16 \<Longrightarrow> \<exists>a0 a1 a2 a3 a4 a5 a6 a7 a8 a9 a10 a11 a12 a13 a14 a15 t.
     h = a0 # a1 # a2 # a3 # a4 # a5 # a6 # a7 # a8 # a9 # a10 # a11 # a12 # a13 # a14 # a15 # t"
  by (simp add: Suc_le_length_iff numeral_eq_Suc) blast

lemma byte_high_bit: "8 \<le> n \<Longrightarrow> \<not> bit (w :: byte) n"
  by (auto dest: bit_imp_le_length)

lemma PutUint16_Uint16: "PutUint16 (Uint16 (a # b # r)) = [a, b]"
  unfolding PutUint16_def Uint16_def
  by (auto intro!: bit_word_eqI simp: bit_or_iff bit_push_bit_iff bit_ucast_iff bit_drop_bit_eq byte_high_bit)

lemma PutUint32_Uint32: "PutUint32 (Uint32 (a # b # c # d # r)) = [a, b, c, d]"
  unfolding PutUint32_def Uint32_def
  by (auto intro!: bit_word_eqI simp: bit_or_iff bit_push_bit_iff bit_ucast_iff bit_drop_bit_eq byte_high_bit)

lemma DecodeHeader_InrD:
  assumes "DecodeHeader d = Inr (mt, n)"
  shows "16 \<le> length d" "take 4 d = Magic" "d ! 4 = ProtocolVersion"
    "mt = Uint16 (drop 6 d)" "n = unat (Uint32 (drop 12 d))" "n \<le> MaxFrameBytes"
  using assms by (auto simp: DecodeHeader_def Let_def split: if_splits)

lemma Decode_canonical:
  assumes "Decode d = Inr f"
  shows "frame_ok f \<and> (\<exists>r. d = wire f @ r)"
proof -
  from assms obtain mt n where hd: "DecodeHeader d = Inr (mt, n)"
    and f: "f = \<lparr>Flags = d ! 5, MessageType = mt, RequestID = Uint32 (drop 8 d), Payload = take n (drop 16 d)\<rparr>"
    and len: "16 + n \<le> length d"
    by (auto simp: Decode_def split: sum.splits if_splits)
  note H = DecodeHeader_InrD [OF hd]
  from list16 [OF H(1)] obtain a0 a1 a2 a3 a4 a5 a6 a7 a8 a9 a10 a11 a12 a13 a14 a15 t where
    d: "d = a0 # a1 # a2 # a3 # a4 # a5 # a6 # a7 # a8 # a9 # a10 # a11 # a12 # a13 # a14 # a15 # t"
    by blast
  have "wire f = take (16 + n) d"
    using len H unfolding d f wire_def
    by (simp add: PutUint16_Uint16 PutUint32_Uint32 min_absorb2 Magic_def eval_nat_numeral)
  then have "d = wire f @ drop (16 + n) d" by simp
  moreover have "frame_ok f" using H(6) f len by (simp add: frame_ok_def)
  ultimately show ?thesis by blast
qed

lemma Decode_iff: "Decode d = Inr f \<longleftrightarrow> (\<exists>b r. Encode f = Inr b \<and> d = b @ r)"
  by (auto simp: Encode_Inr Decode_wire dest: Decode_canonical)

lemma ReadFrame_Decode: "ReadFrame d = Inr (f, r) \<Longrightarrow> Decode d = Inr f \<and> d = wire f @ r"
proof -
  assume rf: "ReadFrame d = Inr (f, r)"
  then have len: "16 \<le> length d"
    by (auto simp: ReadFrame_def io_ReadFull_def split: if_splits)
  from rf obtain mt n where hd: "DecodeHeader d = Inr (mt, n)"
    using len DecodeHeader_take [OF len]
    by (auto simp: ReadFrame_def io_ReadFull_def split: if_splits sum.splits)
  then have rest: "16 + n \<le> length d"
    using rf len DecodeHeader_take [OF len]
    by (auto simp: ReadFrame_def io_ReadFull_def Let_def split: if_splits)
  then obtain g where g: "Decode d = Inr g"
    using hd by (simp add: Decode_def)
  from Decode_canonical [OF g] obtain r' where ok: "frame_ok g" and d: "d = wire g @ r'"
    by blast
  have "ReadFrame d = Inr (g, r')"
    unfolding d by (rule ReadFrame_wire [OF ok])
  with rf g d show ?thesis by simp
qed

lemma ReadFrame_iff: "ReadFrame d = Inr (f, r) \<longleftrightarrow> frame_ok f \<and> d = wire f @ r"
  by (metis Decode_canonical ReadFrame_Decode ReadFrame_wire)

lemma ReadFrames_wires:
  "\<forall>f \<in> set fs. frame_ok f \<Longrightarrow> ReadFrames (length fs) (concat (map wire fs) @ r) = Inr (fs, r)"
  by (induction fs) (simp_all add: ReadFrame_wire)

lemma list_all2_Encode: "list_all2 (\<lambda>f b. Encode f = Inr b) fs bs \<Longrightarrow>
    (\<forall>f \<in> set fs. frame_ok f) \<and> bs = map wire fs"
  by (induction rule: list_all2_induct) (auto simp: Encode_Inr)

subsection \<open>Handshake lemmas\<close>

lemma sizes [simp]: "NonceSize = 16" "ProofSize = 32" "profileFieldLen = 16" "stateFieldLen = 24"
  by (simp_all add: NonceSize_def ProofSize_def profileFieldLen_def stateFieldLen_def)

lemma msg_ok: "length p \<le> 100 \<Longrightarrow> frame_ok (msg_frame mt p)"
  by (simp add: frame_ok_def msg_frame_def MaxFrameBytes_def)

lemma msg_frame_sel [simp]: "MessageType (msg_frame mt p) = mt" "Payload (msg_frame mt p) = p"
  by (simp_all add: msg_frame_def)

lemma send_small: "length p \<le> 100 \<Longrightarrow> send mt (Inr p) = Inr (wire (msg_frame mt p))"
  by (simp add: send_def WriteFrame_def Encode_wire msg_ok)

lemma read_msg: "length p \<le> 100 \<Longrightarrow> ReadFrame (wire (msg_frame mt p) @ r) = Inr (msg_frame mt p, r)"
  by (rule ReadFrame_wire) (rule msg_ok)

lemma hello_roundtrip: "length n = 16 \<Longrightarrow> DecodeHello (PutUint32 pid @ n) = Inr (pid, n)"
  by (simp add: DecodeHello_def)

lemma hello_proof_roundtrip:
  "length n = 16 \<Longrightarrow> length q = 32 \<Longrightarrow> DecodeHelloProof (PutUint32 pid @ n @ q) = Inr (pid, n, q)"
  by (simp add: DecodeHelloProof_def)

lemma clientHello_out:
  "length n = 16 \<Longrightarrow> clientHello pid n = Inr (wire (msg_frame MsgHello (PutUint32 pid @ n)))"
  by (simp add: clientHello_def EncodeHello_def send_small)

lemma serverHelloProof_out:
  assumes "length n = 16" "length m = 16" "\<And>k x. length (hmac k x) = 32"
  shows "serverHelloProof hmac s pid m (wire (msg_frame MsgHello (PutUint32 cp @ n)) @ r) =
    Inr (wire (msg_frame MsgHelloProof (PutUint32 pid @ m @ hmac s n)), r)"
  using assms
  by (simp add: serverHelloProof_def read_msg hello_roundtrip EncodeHelloProof_def send_small Proof_def)

lemma clientProve_out:
  assumes "length n = 16" "length m = 16" "\<And>k x. length (hmac k x) = 32"
  shows "clientProve hmac s n (wire (msg_frame MsgHelloProof (PutUint32 sp @ m @ hmac s n)) @ r) =
    Inr (wire (msg_frame MsgProof (hmac s m)), r)"
  using assms
  by (simp add: clientProve_def read_msg hello_proof_roundtrip VerifyProof_def Proof_def
      EncodeProof_def send_small)

lemma serverVerify_iff:
  "serverVerify hmac s m d = Inr rest \<longleftrightarrow>
     (\<exists>f. frame_ok f \<and> d = wire f @ rest \<and> MessageType f = MsgProof
        \<and> length (Payload f) = 32 \<and> Payload f = hmac s m)"
proof
  assume a: "serverVerify hmac s m d = Inr rest"
  then obtain f r where rf: "ReadFrame d = Inr (f, r)"
    by (auto simp: serverVerify_def split: sum.splits)
  then show "\<exists>f. frame_ok f \<and> d = wire f @ rest \<and> MessageType f = MsgProof
        \<and> length (Payload f) = 32 \<and> Payload f = hmac s m"
    using a ReadFrame_iff [of d f r]
    by (auto simp: serverVerify_def DecodeProof_def VerifyProof_def Proof_def split: if_splits)
next
  assume "\<exists>f. frame_ok f \<and> d = wire f @ rest \<and> MessageType f = MsgProof
        \<and> length (Payload f) = 32 \<and> Payload f = hmac s m"
  then show "serverVerify hmac s m d = Inr rest"
    by (auto simp: serverVerify_def ReadFrame_wire DecodeProof_def VerifyProof_def Proof_def)
qed

subsection \<open>Shell message lemmas\<close>

lemma length_nul_field [simp]: "length (nul_field n b) = n"
  by (simp add: nul_field_def)

lemma nulString_field: "nulString (nul_field n b) = take n (nulString b)"
proof (induction b arbitrary: n)
  case Nil
  then show ?case by (simp add: nulString_def nul_field_def takeWhile_eq_Nil_iff)
next
  case (Cons c b)
  then show ?case
    by (cases n) (auto simp: nulString_def nul_field_def)
qed

lemma nulString_id: "0 \<notin> set b \<Longrightarrow> nulString b = b"
  by (auto simp: nulString_def takeWhile_eq_all_conv)

lemma data_word: "length d < 2 ^ 32 \<Longrightarrow> unat (of_nat (length d) :: 32 word) = length d"
  by (simp add: unat_of_nat)

lemma serverVerify_out:
  "length (hmac s m) = 32 \<Longrightarrow> serverVerify hmac s m (wire (msg_frame MsgProof (hmac s m)) @ r) = Inr r"
  by (simp add: serverVerify_def read_msg DecodeProof_def VerifyProof_def Proof_def)

lemma clientProve_accepts:
  "clientProve hmac s n d = Inr (out, rest) \<Longrightarrow>
     \<exists>f pid m. frame_ok f \<and> d = wire f @ rest \<and> MessageType f = MsgHelloProof
        \<and> DecodeHelloProof (Payload f) = Inr (pid, m, hmac s n)
        \<and> Encode (msg_frame MsgProof (hmac s m)) = Inr out"
proof -
  assume a: "clientProve hmac s n d = Inr (out, rest)"
  then obtain f r where rf: "ReadFrame d = Inr (f, r)"
    by (auto simp: clientProve_def split: sum.splits)
  then have f: "frame_ok f" "d = wire f @ r" by (simp_all add: ReadFrame_iff)
  from a rf obtain pid m where
    "DecodeHelloProof (Payload f) = Inr (pid, m, hmac s n)" "MessageType f = MsgHelloProof"
    "send MsgProof (EncodeProof (hmac s m)) = Inr out" "r = rest"
    by (auto simp: clientProve_def VerifyProof_def Proof_def split: sum.splits if_splits)
  moreover from this(3) have "Encode (msg_frame MsgProof (hmac s m)) = Inr out"
    by (auto simp: send_def EncodeProof_def WriteFrame_def Encode_wire split: if_splits)
  ultimately show ?thesis using f by blast
qed

subsection \<open>Properties\<close>

text \<open>C31. The frame decoder accepts exactly the encoder's image: a byte string decodes to a frame
  iff it starts with the encoding of that frame. Every frame the encoder writes is read back
  unchanged whatever follows it, and no second byte representation of a frame (other magic, other
  version, inconsistent length, oversized payload) is accepted.\<close>

theorem Decode_exact:
  "Decode d = Inr f \<longleftrightarrow> (\<exists>b r. Encode f = Inr b \<and> d = b @ r)"
  by (auto simp: Encode_Inr Decode_wire dest: Decode_canonical)

text \<open>Stream framing: when a writer puts the encodings of any number of frames back to back on
  a connection, a reader that calls \<open>ReadFrame\<close> once per frame gets the same frames in the same
  order and is left exactly at the bytes behind the last one.\<close>

theorem ReadFrames_stream:
  assumes "list_all2 (\<lambda>f b. Encode f = Inr b) fs bs"
  shows "ReadFrames (length fs) (concat bs @ r) = Inr (fs, r)"
  using list_all2_Encode [OF assms] ReadFrames_wires [of fs r] by simp

theorem ReadFrames_stream_witness:
  "ReadFrames 2 (concat [wire (msg_frame 1 [7]), wire (msg_frame 2 [])] @ [9])
     = Inr ([msg_frame 1 [7], msg_frame 2 []], [9])"
  using ReadFrames_stream
    [of "[msg_frame 1 [7], msg_frame 2 []]" "[wire (msg_frame 1 [7]), wire (msg_frame 2 [])]" "[9]"]
  by (simp add: Encode_Inr frame_ok_def MaxFrameBytes_def numeral_2_eq_2 del: ReadFrames.simps)

text \<open>Handshake completeness: when agent and shell host hold the same secret, the four stages
  (HELLO, HELLO_PROOF, PROOF, verification) all succeed for every pair of 16-byte nonces, and
  neither side consumes a byte beyond the handshake. The hypothesis on \<open>hmac\<close> is the output size of
  HMAC-SHA256.\<close>

theorem handshake_completes:
  assumes "length n = NonceSize" "length m = NonceSize"
    and "\<And>k x. length (hmac k x) = ProofSize"
  shows "\<exists>hello hp prf. clientHello cpid n = Inr hello
     \<and> serverHelloProof hmac s spid m (hello @ r1) = Inr (hp, r1)
     \<and> clientProve hmac s n (hp @ r2) = Inr (prf, r2)
     \<and> serverVerify hmac s m (prf @ r3) = Inr r3"
  using assms
  by (simp add: clientHello_out serverHelloProof_out clientProve_out serverVerify_out)

theorem handshake_completes_witness:
  "\<exists>hello hp prf. clientHello 7 (replicate 16 1) = Inr hello
     \<and> serverHelloProof (\<lambda>k x. take 32 (k @ x @ replicate 32 0)) [3] 8 (replicate 16 2) (hello @ [])
         = Inr (hp, [])
     \<and> clientProve (\<lambda>k x. take 32 (k @ x @ replicate 32 0)) [3] (replicate 16 1) (hp @ [])
         = Inr (prf, [])
     \<and> serverVerify (\<lambda>k x. take 32 (k @ x @ replicate 32 0)) [3] (replicate 16 2) (prf @ [5]) = Inr [5]"
  by (rule handshake_completes) simp_all

text \<open>C33. Handshake authentication: the shell host lets a connection through iff the bytes it reads
  after its HELLO_PROOF are one PROOF frame that carries the MAC of the nonce it chose itself under
  its own secret; nothing else (another message type, another length, a MAC of another nonce) passes.
  The agent answers only a HELLO_PROOF whose MAC is that of the agent's own nonce, and what it sends
  is the MAC of the nonce in that message.\<close>

theorem handshake_authenticates:
  "(serverVerify hmac s m d = Inr rest) =
     (\<exists>f b. Encode f = Inr b \<and> d = b @ rest \<and> MessageType f = MsgProof
        \<and> length (Payload f) = ProofSize \<and> Payload f = hmac s m)
   \<and> (clientProve hmac s n d' = Inr (out, rest') \<longrightarrow>
     (\<exists>f b pid m'. Encode f = Inr b \<and> d' = b @ rest' \<and> MessageType f = MsgHelloProof
        \<and> DecodeHelloProof (Payload f) = Inr (pid, m', hmac s n)
        \<and> Encode (msg_frame MsgProof (hmac s m')) = Inr out))"
  using clientProve_accepts [of hmac s n d' out rest']
  by (auto simp: serverVerify_iff Encode_Inr)

theorem handshake_authenticates_witness:
  "\<exists>f b pid m'. Encode f = Inr b
     \<and> wire (msg_frame MsgHelloProof (PutUint32 8 @ replicate 16 2 @ replicate 32 4)) @ [] = b @ []
     \<and> MessageType f = MsgHelloProof
     \<and> DecodeHelloProof (Payload f) = Inr (pid, m', replicate 32 4)
     \<and> Encode (msg_frame MsgProof (replicate 32 4)) = Inr (wire (msg_frame MsgProof (replicate 32 4)))"
  by (rule mp [OF conjunct2 [OF handshake_authenticates
      [of "\<lambda>k x. replicate 32 4" "[]" _ _ _ "replicate 16 1" _ "wire (msg_frame MsgProof (replicate 32 4))" "[]"]]])
    (rule clientProve_out [of "replicate 16 1" "replicate 16 2" "\<lambda>k x. replicate 32 4" "[]" 8 "[]"]; simp)

text \<open>Shell messages survive the pipe: BEGIN (profile without NUL bytes, at most 16 bytes), DATA
  (payload below 4 GiB), RESIZE and EXIT decode to what was encoded.\<close>

theorem shell_messages_roundtrip:
  assumes "length profile \<le> profileFieldLen" "0 \<notin> set profile" "length data < 2 ^ 32"
  shows "decodeBegin (encodeBegin cols rows profile) = Inr (cols, rows, profile)
     \<and> decodeData (encodeData stream data) = Inr (stream, data)
     \<and> decodeResize (encodeResize cols rows) = Inr (cols, rows)
     \<and> decodeExit (encodeExit code) = Inr code"
  using assms
  by (simp add: decodeBegin_def encodeBegin_def nulString_field nulString_id decodeData_def
      encodeData_def data_word decodeResize_def encodeResize_def decodeExit_def encodeExit_def)

theorem shell_messages_roundtrip_witness:
  "decodeBegin (encodeBegin 80 24 [99, 109, 100]) = Inr (80, 24, [99, 109, 100])
   \<and> decodeData (encodeData 1 [104, 105]) = Inr (1, [104, 105])"
  using shell_messages_roundtrip [of "[99, 109, 100]" "[104, 105]" 80 24 1] by simp

text \<open>The STATE message keeps the code up to its first NUL byte, cut to the 24 bytes of the field
  (a 24-byte code is not shortened to 23).\<close>

theorem state_message_truncates:
  "decodeState (encodeState code) = Inr (take 24 (nulString code))"
  by (simp add: decodeState_def encodeState_def nulString_field)

end
