(* ===== verification/Registry.thy ===== *)
theory Registry
  imports XNC_Prelude
begin

text \<open>
  The table of live agent control connections (\<open>src/server/internal/registry/registry.go\<close>). A
  \<open>*NodeConn\<close> is its identity \<open>conn_ptr\<close> together with the fields the code reads; pointer equality
  in \<open>RemoveIf\<close> is equality of identities. \<open>cancelled\<close> records the \<open>Cancel\<close> calls in order.
\<close>

record NodeConn =
  conn_ptr :: nat
  conn_NodeID :: string
  conn_Cancel :: bool
  conn_LastBeat :: go_time
  conn_Beats :: int

record Registry =
  conns :: "(string, NodeConn) table"
  cancelled :: "nat list"

definition registry_New :: Registry where
  "registry_New = \<lparr>conns = [], cancelled = []\<rparr>"

definition Add :: "NodeConn \<Rightarrow> Registry \<Rightarrow> Registry" where
  "Add c r =
     (let r' = (case tget (conns r) (conn_NodeID c) of
                  Some old \<Rightarrow> if conn_Cancel old then r\<lparr>cancelled := cancelled r @ [conn_ptr old]\<rparr> else r
                | None \<Rightarrow> r)
      in r'\<lparr>conns := tput (conn_NodeID c) c (conns r')\<rparr>)"

definition Remove :: "string \<Rightarrow> Registry \<Rightarrow> Registry" where
  "Remove n r = r\<lparr>conns := tdel n (conns r)\<rparr>"

definition RemoveIf :: "string \<Rightarrow> nat \<Rightarrow> Registry \<Rightarrow> bool \<times> Registry" where
  "RemoveIf n c r =
     (case tget (conns r) n of
        Some cur \<Rightarrow> if conn_ptr cur = c then (True, r\<lparr>conns := tdel n (conns r)\<rparr>) else (False, r)
      | None \<Rightarrow> (False, r))"

definition registry_Get :: "string \<Rightarrow> Registry \<Rightarrow> NodeConn option" where
  "registry_Get n r = tget (conns r) n"

definition Online :: "string \<Rightarrow> Registry \<Rightarrow> bool" where
  "Online n r \<longleftrightarrow> tget (conns r) n \<noteq> None"

definition registry_Count :: "Registry \<Rightarrow> nat" where
  "registry_Count r = length (conns r)"

text \<open>The life of agent connections: a connection registers when its socket is accepted and runs
  its deferred \<open>RemoveIf\<close> when its read loop ends, in any interleaving.\<close>

datatype reg_event = RegAdd NodeConn | RegRemove string | RegRemoveIf string nat

fun reg_step :: "reg_event \<Rightarrow> Registry \<Rightarrow> Registry" where
  "reg_step (RegAdd c) r = Add c r"
| "reg_step (RegRemove n) r = Remove n r"
| "reg_step (RegRemoveIf n c) r = snd (RemoveIf n c r)"

definition reg_inv :: "Registry \<Rightarrow> bool" where
  "reg_inv r \<longleftrightarrow> tok (conns r) \<and> (\<forall>n c. tget (conns r) n = Some c \<longrightarrow> conn_NodeID c = n)"

lemma Add_conns [simp]: "conns (Add c r) = tput (conn_NodeID c) c (conns r)"
  by (simp add: Add_def Let_def split: option.splits)

lemma RemoveIf_conns:
  "conns (snd (RemoveIf n c r)) = (if fst (RemoveIf n c r) then tdel n (conns r) else conns r)"
  by (simp add: RemoveIf_def split: option.splits)

lemma RemoveIf_iff:
  "fst (RemoveIf n c r) \<longleftrightarrow> (\<exists>cur. tget (conns r) n = Some cur \<and> conn_ptr cur = c)"
  by (auto simp: RemoveIf_def split: option.splits)

lemma reg_inv_step: "reg_inv r \<Longrightarrow> reg_inv (reg_step e r)"
  by (cases e) (auto simp: reg_inv_def Remove_def RemoveIf_conns)

interpretation reg: inv_machine "\<lambda>_ _. True" reg_step reg_inv
  by unfold_locales (rule reg_inv_step)

text \<open>The connection \<open>c\<close> stays current as long as nobody else registers for its node, nobody removes
  the node and \<open>c\<close> itself does not end.\<close>

definition current :: "NodeConn \<Rightarrow> Registry \<Rightarrow> bool" where
  "current c r \<longleftrightarrow> tget (conns r) (conn_NodeID c) = Some c"

fun spares :: "NodeConn \<Rightarrow> reg_event \<Rightarrow> bool" where
  "spares c (RegAdd d) \<longleftrightarrow> conn_NodeID d \<noteq> conn_NodeID c"
| "spares c (RegRemove n) \<longleftrightarrow> n \<noteq> conn_NodeID c"
| "spares c (RegRemoveIf n p) \<longleftrightarrow> n \<noteq> conn_NodeID c \<or> p \<noteq> conn_ptr c"

interpretation cur: inv_machine "\<lambda>e _. spares c e" reg_step "current c" for c
proof unfold_locales
  show "current c (reg_step e r)" if "current c r" "spares c e" for r e
    using that by (cases e) (auto simp: current_def Remove_def RemoveIf_conns RemoveIf_iff)
qed

text \<open>Take-over of an agent connection: when a node reconnects, the previous connection is
  cancelled and the new one stays the node's current connection through every later run in which
  nobody else registers for the node; in particular the deferred clean-up of the previous connection
  (\<open>RemoveIf\<close> with the old pointer) finds nothing to remove, whenever it runs.\<close>

theorem registry_takeover:
  assumes "registry_Get n r = Some old" "conn_Cancel old"
    and "conn_NodeID new = n" "conn_ptr new \<noteq> conn_ptr old"
    and "list_all (spares new) es"
  shows "let r' = fold reg_step es (Add new r) in
     cancelled (Add new r) = cancelled r @ [conn_ptr old]
     \<and> registry_Get n r' = Some new \<and> Online n r' \<and> RemoveIf n (conn_ptr old) r' = (False, r')"
proof -
  have "current new (fold reg_step es (Add new r))"
    using assms cur.run_inv [of new "Add new r" es] by (simp add: current_def run_ok_list_all)
  then show ?thesis
    using assms by (simp add: Let_def current_def registry_Get_def Online_def RemoveIf_def Add_def)
qed

theorem registry_takeover_witness:
  "let c1 = \<lparr>conn_ptr = 1, conn_NodeID = ''n'', conn_Cancel = True, conn_LastBeat = 0, conn_Beats = 0\<rparr>;
       c2 = \<lparr>conn_ptr = 2, conn_NodeID = ''n'', conn_Cancel = True, conn_LastBeat = 5, conn_Beats = 0\<rparr>;
       r = Add c1 registry_New;
       r' = fold reg_step [RegRemoveIf ''n'' 1] (Add c2 r)
   in cancelled (Add c2 r) = cancelled r @ [1] \<and> registry_Get ''n'' r' = Some c2
     \<and> Online ''n'' r' \<and> RemoveIf ''n'' 1 r' = (False, r')"
  using registry_takeover
    [of "''n''" "Add \<lparr>conn_ptr = 1, conn_NodeID = ''n'', conn_Cancel = True, conn_LastBeat = 0, conn_Beats = 0\<rparr> registry_New"
      "\<lparr>conn_ptr = 1, conn_NodeID = ''n'', conn_Cancel = True, conn_LastBeat = 0, conn_Beats = 0\<rparr>"
      "\<lparr>conn_ptr = 2, conn_NodeID = ''n'', conn_Cancel = True, conn_LastBeat = 5, conn_Beats = 0\<rparr>"
      "[RegRemoveIf ''n'' 1]"]
  by (simp add: registry_Get_def registry_New_def Let_def)

end
