(* ===== verification/Control_Lease.thy ===== *)
theory Control_Lease
  imports XNC_Prelude
begin

text \<open>
  The contract of a per-node control lease, shared by the relay-side arbiter (\<open>src/rtv/arbiter.go\<close>)
  and the server-side session manager (\<open>src/server/internal/session/manager.go\<close>), whose comments
  promise the same semantics: a free or abandoned lease goes to whoever asks, the holder's own
  request always succeeds, a live lease of somebody else can be taken over, but not within the
  cool-down after the last such take-over, and only the holder can release.
  \<open>owner\<close> is the table entry, \<open>alive\<close> whether that entry counts at an instant, \<open>lastSteal\<close> when
  the entry was last taken over, \<open>may\<close> the admission test of the component.
\<close>

locale control_lease =
  fixes owner :: "'s \<Rightarrow> 'n \<Rightarrow> 'i option"
    and alive :: "'s \<Rightarrow> 'n \<Rightarrow> go_time \<Rightarrow> bool"
    and lastSteal :: "'s \<Rightarrow> 'n \<Rightarrow> go_time"
    and cooldown :: "'s \<Rightarrow> duration"
    and may :: "'s \<Rightarrow> 'i \<Rightarrow> bool"
    and take_lease :: "'n \<Rightarrow> 'i \<Rightarrow> go_time \<Rightarrow> 's \<Rightarrow> bool \<times> 's"
    and release_lease :: "'n \<Rightarrow> 'i \<Rightarrow> 's \<Rightarrow> 's"
  assumes take_iff: "fst (take_lease n i now s) \<longleftrightarrow> may s i \<and>
      (owner s n = None \<or> owner s n = Some i \<or> \<not> alive s n now
       \<or> \<not> time_Sub now (lastSteal s n) < cooldown s)"
    and take_owner: "owner (snd (take_lease n i now s)) m =
      (if m = n \<and> fst (take_lease n i now s) then Some i else owner s m)"
    and take_steal: "fst (take_lease n i now s) \<Longrightarrow> owner s n = Some j \<Longrightarrow> j \<noteq> i \<Longrightarrow>
      alive s n now \<Longrightarrow> lastSteal (snd (take_lease n i now s)) n = now"
    and take_cooldown: "cooldown (snd (take_lease n i now s)) = cooldown s"
    and take_may: "may (snd (take_lease n i now s)) = may s"
    and release_owner: "owner (release_lease n i s) m =
      (if m = n \<and> owner s n = Some i then None else owner s m)"
begin

lemma take_self: "owner s n = Some i \<Longrightarrow> may s i \<Longrightarrow> fst (take_lease n i now s)"
  by (simp add: take_iff)

lemma take_again:
  "fst (take_lease n i now s) \<Longrightarrow> fst (take_lease n i t (snd (take_lease n i now s)))"
  by (rule take_self) (use take_iff in \<open>auto simp: take_owner take_may\<close>)

lemma take_denied: "\<not> fst (take_lease n i now s) \<Longrightarrow> owner (snd (take_lease n i now s)) = owner s"
  by (rule ext) (simp add: take_owner)

lemma release_other: "owner s n \<noteq> Some i \<Longrightarrow> owner (release_lease n i s) = owner s"
  by (rule ext) (simp add: release_owner)

lemma take_release:
  "fst (take_lease n i now s) \<Longrightarrow> owner (release_lease n i (snd (take_lease n i now s))) n = None"
  by (simp add: release_owner take_owner)

text \<open>Nobody takes a lease over during the cool-down after it was taken over, as long as its new
  holder counts as alive.\<close>

lemma no_ping_pong:
  assumes "fst (take_lease n i now s)" "owner s n = Some j" "j \<noteq> i" "alive s n now"
    and "k \<noteq> i" "now \<le> t" "t < now + cooldown s" "cooldown s \<le> maxDuration"
    and "alive (snd (take_lease n i now s)) n t"
  shows "\<not> fst (take_lease n k t (snd (take_lease n i now s)))"
    and "owner (snd (take_lease n k t (snd (take_lease n i now s)))) n = Some i"
proof -
  have "time_Sub t now < cooldown s"
    using assms by (simp add: time_Sub_less)
  then show "\<not> fst (take_lease n k t (snd (take_lease n i now s)))"
    using assms take_iff [of n k t] by (auto simp: take_owner take_steal take_cooldown)
  then show "owner (snd (take_lease n k t (snd (take_lease n i now s)))) n = Some i"
    using assms by (simp add: take_denied) (simp add: take_owner)
qed

end

end
