(* ===== verification/Arbiter.thy ===== *)
theory Arbiter
  imports Control_Lease
begin

text \<open>
  The relay's control arbiter (\<open>src/rtv/arbiter.go\<close>): one lease per node, held by a viewer session,
  kept alive by activity within \<open>TTL\<close>, taken over by the last one who asks except during \<open>Cooldown\<close>.
  \<open>time.Now()\<close> is the argument \<open>now\<close> of each operation.
\<close>

record ctrlLease =
  cl_SessionID :: string
  cl_Name :: string
  cl_TakenAt :: go_time
  cl_LastActivity :: go_time
  cl_LastStealAt :: go_time

record Arbiter =
  leases :: "(string, ctrlLease) table"
  arb_TTL :: duration
  arb_Cooldown :: duration

definition NewArbiter :: Arbiter where
  "NewArbiter = \<lparr>leases = [], arb_TTL = 60 * Second, arb_Cooldown = 3 * Second\<rparr>"

definition newLease :: "string \<Rightarrow> string \<Rightarrow> go_time \<Rightarrow> ctrlLease" where
  "newLease session name now = \<lparr>cl_SessionID = session, cl_Name = name, cl_TakenAt = now,
     cl_LastActivity = now, cl_LastStealAt = zeroTime\<rparr>"

definition aliveLocked :: "Arbiter \<Rightarrow> string \<Rightarrow> go_time \<Rightarrow> bool" where
  "aliveLocked a node now =
     (case tget (leases a) node of
        None \<Rightarrow> False
      | Some l \<Rightarrow> time_Sub now (cl_LastActivity l) \<le> arb_TTL a)"

definition arb_Grant :: "string \<Rightarrow> string \<Rightarrow> string \<Rightarrow> go_time \<Rightarrow> Arbiter \<Rightarrow> bool \<times> Arbiter" where
  "arb_Grant node session name now a =
     (if tget (leases a) node \<noteq> None \<and> aliveLocked a node now then (False, a)
      else (True, a\<lparr>leases := tput node (newLease session name now) (leases a)\<rparr>))"

definition arb_Take ::
  "string \<Rightarrow> string \<Rightarrow> string \<Rightarrow> bool \<Rightarrow> go_time \<Rightarrow> Arbiter \<Rightarrow> bool \<times> string \<times> Arbiter" where
  "arb_Take node session name canControl now a =
     (if \<not> canControl then (False, ''capability'', a)
      else case tget (leases a) node of
        None \<Rightarrow> (True, ''granted'', a\<lparr>leases := tput node (newLease session name now) (leases a)\<rparr>)
      | Some l \<Rightarrow>
          if cl_SessionID l = session then
            (True, ''held'', a\<lparr>leases := tput node (l\<lparr>cl_LastActivity := now\<rparr>) (leases a)\<rparr>)
          else if aliveLocked a node now \<and> time_Sub now (cl_LastStealAt l) < arb_Cooldown a then
            (False, ''cooldown'', a)
          else
            let l1 = (if aliveLocked a node now then l\<lparr>cl_LastStealAt := now\<rparr> else l);
                l2 = l1\<lparr>cl_SessionID := session, cl_Name := name, cl_TakenAt := now,
                        cl_LastActivity := now\<rparr>
            in (True, ''taken'', a\<lparr>leases := tput node l2 (leases a)\<rparr>))"

definition arb_Release :: "string \<Rightarrow> string \<Rightarrow> Arbiter \<Rightarrow> Arbiter" where
  "arb_Release node session a =
     (case tget (leases a) node of
        Some l \<Rightarrow> if cl_SessionID l = session then a\<lparr>leases := tdel node (leases a)\<rparr> else a
      | None \<Rightarrow> a)"

definition arb_Holder :: "string \<Rightarrow> go_time \<Rightarrow> Arbiter \<Rightarrow> string \<times> string" where
  "arb_Holder node now a =
     (case tget (leases a) node of
        Some l \<Rightarrow> if aliveLocked a node now then (cl_SessionID l, cl_Name l) else ([], [])
      | None \<Rightarrow> ([], []))"

definition arb_Touch :: "string \<Rightarrow> string \<Rightarrow> go_time \<Rightarrow> Arbiter \<Rightarrow> Arbiter" where
  "arb_Touch node session now a =
     (case tget (leases a) node of
        Some l \<Rightarrow>
          if cl_SessionID l = session
          then a\<lparr>leases := tput node (l\<lparr>cl_LastActivity := now\<rparr>) (leases a)\<rparr> else a
      | None \<Rightarrow> a)"

definition arb_DropSession :: "string \<Rightarrow> string \<Rightarrow> Arbiter \<Rightarrow> Arbiter" where
  "arb_DropSession node session a =
     (case tget (leases a) node of
        Some l \<Rightarrow> if cl_SessionID l = session then a\<lparr>leases := tdel node (leases a)\<rparr> else a
      | None \<Rightarrow> a)"

subsection \<open>The lease contract\<close>

definition arb_owner :: "Arbiter \<Rightarrow> string \<Rightarrow> string option" where
  "arb_owner a node = map_option cl_SessionID (tget (leases a) node)"

definition arb_lastSteal :: "Arbiter \<Rightarrow> string \<Rightarrow> go_time" where
  "arb_lastSteal a node = (case tget (leases a) node of None \<Rightarrow> zeroTime | Some l \<Rightarrow> cl_LastStealAt l)"

definition take_result :: "'a \<times> 'r \<times> 's \<Rightarrow> 'a \<times> 's" where
  "take_result r = (fst r, snd (snd r))"

lemmas arb_defs = arb_Take_def arb_Grant_def arb_Release_def arb_Touch_def arb_DropSession_def
  aliveLocked_def newLease_def Let_def

interpretation arb: control_lease arb_owner aliveLocked arb_lastSteal arb_Cooldown
  "\<lambda>_ _. can" "\<lambda>node session now a. take_result (arb_Take node session name can now a)" arb_Release
  for can name
proof unfold_locales
  show "fst (take_result (arb_Take n i name can now s)) \<longleftrightarrow> can \<and> (arb_owner s n = None
      \<or> arb_owner s n = Some i \<or> \<not> aliveLocked s n now
      \<or> \<not> time_Sub now (arb_lastSteal s n) < arb_Cooldown s)" for n i now s
    by (auto simp: take_result_def arb_defs arb_owner_def arb_lastSteal_def split: option.splits)
  show "arb_owner (snd (take_result (arb_Take n i name can now s))) m =
      (if m = n \<and> fst (take_result (arb_Take n i name can now s)) then Some i else arb_owner s m)"
    for n i now s m
    by (auto simp: take_result_def arb_defs arb_owner_def split: option.splits)
  show "arb_lastSteal (snd (take_result (arb_Take n i name can now s))) n = now"
    if "fst (take_result (arb_Take n i name can now s))" "arb_owner s n = Some j" "j \<noteq> i"
      "aliveLocked s n now" for n i now s j
    using that
    by (auto simp: take_result_def arb_defs arb_owner_def arb_lastSteal_def split: option.splits if_splits)
  show "arb_Cooldown (snd (take_result (arb_Take n i name can now s))) = arb_Cooldown s" for n i now s
    by (simp add: take_result_def arb_defs split: option.splits)
  show "arb_owner (arb_Release n i s) m = (if m = n \<and> arb_owner s n = Some i then None else arb_owner s m)"
    for n i s m
    by (auto simp: arb_defs arb_owner_def split: option.splits)
qed simp_all

subsection \<open>Runs\<close>

datatype arb_event =
    ArbGrant string string string go_time
  | ArbTake string string string bool go_time
  | ArbRelease string string
  | ArbTouch string string go_time
  | ArbDrop string string

fun arb_step :: "arb_event \<Rightarrow> Arbiter \<Rightarrow> Arbiter" where
  "arb_step (ArbGrant n s nm t) a = snd (arb_Grant n s nm t a)"
| "arb_step (ArbTake n s nm c t) a = snd (snd (arb_Take n s nm c t a))"
| "arb_step (ArbRelease n s) a = arb_Release n s a"
| "arb_step (ArbTouch n s t) a = arb_Touch n s t a"
| "arb_step (ArbDrop n s) a = arb_DropSession n s a"

fun arb_event_time :: "arb_event \<Rightarrow> go_time option" where
  "arb_event_time (ArbGrant n s nm t) = Some t"
| "arb_event_time (ArbTake n s nm c t) = Some t"
| "arb_event_time (ArbTouch n s t) = Some t"
| "arb_event_time _ = None"

text \<open>Events of the window \<open>[now, now + d)\<close> in which session \<open>i\<close> does not give node \<open>n\<close> up.\<close>

fun keeps :: "string \<Rightarrow> string \<Rightarrow> go_time \<Rightarrow> duration \<Rightarrow> arb_event \<Rightarrow> bool" where
  "keeps n i now d (ArbRelease m s) \<longleftrightarrow> m \<noteq> n \<or> s \<noteq> i"
| "keeps n i now d (ArbDrop m s) \<longleftrightarrow> m \<noteq> n \<or> s \<noteq> i"
| "keeps n i now d e \<longleftrightarrow> (\<forall>t. arb_event_time e = Some t \<longrightarrow> now \<le> t \<and> t < now + d)"

definition guarded :: "string \<Rightarrow> string \<Rightarrow> string \<Rightarrow> go_time \<Rightarrow> duration \<Rightarrow> Arbiter \<Rightarrow> bool" where
  "guarded n i name now d a \<longleftrightarrow> arb_Cooldown a = d \<and> d \<le> arb_TTL a \<and> arb_TTL a < maxDuration \<and>
     (\<exists>l. tget (leases a) n = Some l \<and> cl_SessionID l = i \<and> cl_Name l = name
        \<and> cl_LastStealAt l = now \<and> now \<le> cl_LastActivity l \<and> cl_LastActivity l < now + d)"

lemma window_alive:
  "guarded n i name now d a \<Longrightarrow> now \<le> t \<Longrightarrow> t < now + d \<Longrightarrow> aliveLocked a n t"
  by (auto simp: guarded_def aliveLocked_def time_Sub_le minDuration_def)

lemma window_cooldown:
  "guarded n i name now d a \<Longrightarrow> now \<le> t \<Longrightarrow> t < now + d \<Longrightarrow> time_Sub t now < d"
  by (auto simp: guarded_def intro!: iffD2 [OF time_Sub_less])

lemma guarded_step:
  assumes g: "guarded n i name now d a" and k: "keeps n i now d e"
  shows "guarded n i name now d (arb_step e a)"
proof (cases e)
  case (ArbGrant m s nm t)
  then have "aliveLocked a n t" using window_alive [OF g] k by simp
  then show ?thesis using ArbGrant g by (auto simp: arb_Grant_def guarded_def)
next
  case (ArbTake m s nm c t)
  then have "aliveLocked a n t" "time_Sub t now < d" "now \<le> t" "t < now + d"
    using window_alive [OF g] window_cooldown [OF g] k by simp_all
  then show ?thesis
    using ArbTake g by (auto simp: arb_Take_def guarded_def Let_def split: option.splits)
qed (use g k in \<open>auto simp: guarded_def arb_Release_def arb_Touch_def arb_DropSession_def split: option.splits\<close>)

interpretation win: inv_machine "\<lambda>e _. keeps n i now d e" arb_step "guarded n i name now d"
  for n i name now d
  by unfold_locales (rule guarded_step)

lemma take_over_guarded:
  assumes "arb_Take n i name True now a = (True, reason, a')"
    and "arb_owner a n = Some j" "j \<noteq> i" "aliveLocked a n now"
    and "0 < arb_Cooldown a" "arb_Cooldown a \<le> arb_TTL a" "arb_TTL a < maxDuration"
  shows "guarded n i name now (arb_Cooldown a) a'"
  using assms
  by (auto simp: arb_Take_def arb_owner_def guarded_def Let_def split: option.splits if_splits)

text \<open>C27. Take-over protection: when session \<open>i\<close> takes a node over from a live holder, it stays the
  holder for the whole cool-down window, whatever grants, takes, touches and releases by whichever
  sessions happen in that window in any order, unless \<open>i\<close> itself releases or disconnects; \<open>Holder\<close>
  reports \<open>i\<close> at every instant of the window.\<close>

theorem arbiter_takeover_protected:
  assumes "arb_Take n i name True now a = (True, reason, a')"
    and "arb_owner a n = Some j" "j \<noteq> i" "aliveLocked a n now"
    and "0 < arb_Cooldown a" "arb_Cooldown a \<le> arb_TTL a" "arb_TTL a < maxDuration"
    and "list_all (keeps n i now (arb_Cooldown a)) es" "now \<le> t" "t < now + arb_Cooldown a"
  shows "arb_Holder n t (fold arb_step es a') = (i, name)"
proof -
  have g: "guarded n i name now (arb_Cooldown a) (fold arb_step es a')"
    using take_over_guarded [OF assms(1-7)] assms(8) by (simp add: win.run_inv run_ok_list_all)
  have "aliveLocked (fold arb_step es a') n t"
    using assms(9,10) by (rule window_alive [OF g])
  then show ?thesis
    using g by (auto simp: arb_Holder_def guarded_def)
qed

theorem arbiter_takeover_protected_witness:
  "arb_Holder ''n'' (2 * Second)
     (fold arb_step [ArbTake ''n'' ''C'' ''carl'' True (1 * Second), ArbRelease ''n'' ''C'']
       (snd (snd (arb_Take ''n'' ''B'' ''bob'' True 0 (snd (arb_Grant ''n'' ''A'' ''ann'' 0 NewArbiter))))))
   = (''B'', ''bob'')"
  by (rule arbiter_takeover_protected
      [of "''n''" "''B''" "''bob''" 0 "snd (arb_Grant ''n'' ''A'' ''ann'' 0 NewArbiter)" "''taken''" _ "''A''"])
    (simp_all add: arb_Grant_def NewArbiter_def arb_Take_def newLease_def aliveLocked_def zeroTime_def
      time_Sub_def maxDuration_def minDuration_def arb_owner_def)

text \<open>Decision table of \<open>Take\<close>: it succeeds exactly for an admitted session when the node has no
  lease, the session already holds it, the holder went silent for longer than the TTL, or the last
  take-over lies at least the cool-down back; on success the session owns the node and no other
  node changes, on failure no node changes owner; a repeated take of the winner succeeds.\<close>

theorem arbiter_take_decision:
  "let (ok, reason, a') = arb_Take n i name can now a in
     ok = (can \<and> (arb_owner a n = None \<or> arb_owner a n = Some i \<or> \<not> aliveLocked a n now
             \<or> \<not> time_Sub now (arb_lastSteal a n) < arb_Cooldown a))
     \<and> (\<forall>m. arb_owner a' m = (if ok \<and> m = n then Some i else arb_owner a m))
     \<and> (\<not> ok \<longrightarrow> reason = (if can then ''cooldown'' else ''capability'') \<and> a' = a)
     \<and> (ok \<longrightarrow> reason = (if arb_owner a n = None then ''granted''
                 else if arb_owner a n = Some i then ''held'' else ''taken''))
     \<and> (ok \<longrightarrow> fst (arb_Take n i name can t a'))"
proof -
  obtain ok reason a' where r: "arb_Take n i name can now a = (ok, reason, a')"
    by (cases "arb_Take n i name can now a") auto
  have tr: "take_result (arb_Take n i name can now a) = (ok, a')"
    by (simp add: r take_result_def)
  have f: "fst (take_result x) = fst x" for x :: "bool \<times> string \<times> Arbiter"
    by (simp add: take_result_def)
  have reasons: "(\<not> ok \<longrightarrow> reason = (if can then ''cooldown'' else ''capability'') \<and> a' = a)
     \<and> (ok \<longrightarrow> reason = (if arb_owner a n = None then ''granted''
                 else if arb_owner a n = Some i then ''held'' else ''taken''))"
    using r by (auto simp: arb_Take_def arb_owner_def Let_def split: option.splits if_splits)
  have "ok = (can \<and> (arb_owner a n = None \<or> arb_owner a n = Some i \<or> \<not> aliveLocked a n now
             \<or> \<not> time_Sub now (arb_lastSteal a n) < arb_Cooldown a))"
    using arb.take_iff [of n i name can now a] unfolding tr by simp
  moreover have "\<forall>m. arb_owner a' m = (if ok \<and> m = n then Some i else arb_owner a m)"
    using arb.take_owner [of n i name can now a] unfolding tr by simp
  moreover have "ok \<longrightarrow> fst (arb_Take n i name can t a')"
    using arb.take_again [of n i name can now a t] unfolding tr f by simp
  ultimately show ?thesis
    using reasons unfolding r Let_def prod.case by blast
qed

theorem arbiter_take_decision_witness:
  "let (ok, reason, a') = arb_Take ''n'' ''B'' ''bob'' True 0 NewArbiter in
     ok \<and> reason = ''granted'' \<and> fst (arb_Take ''n'' ''B'' ''bob'' True 5 a')"
  using arbiter_take_decision [of "''n''" "''B''" "''bob''" True 0 NewArbiter 5]
  by (simp add: arb_owner_def NewArbiter_def split: prod.splits)

end
