(* ===== verification/Session_Manager.thy ===== *)
theory Session_Manager
  imports Control_Lease Registry
begin

text \<open>
  The server's session manager (\<open>src/server/internal/session/manager.go\<close>, the activity updates of
  \<open>pump.go\<close>): creation with per-node limits and single-use tokens, attachment of the two sides,
  opening time-out, idempotent close, the desktop control lease and the janitor.
  A \<open>*session\<close> is identified with its id. Once a session has left the table, every operation that
  still holds its pointer (timers, pump goroutines) only touches fields nobody reads any more, so an
  operation on an absent id is the identity. \<open>closeOnce\<close> is the flag \<open>s_closed\<close>, the opening timer
  the flag \<open>s_ttl\<close> (armed), a delayed table removal the list \<open>m_reaps\<close>. \<open>m_fx\<close> logs, in order,
  what the manager does to the outside: sockets it closes, agents it notifies, \<open>finish\<close> callbacks
  it runs, pumps it starts. Random values and \<open>time.Now()\<close> are arguments. A \<open>uuid.UUID\<close> is its
  canonical text.
\<close>

subsection \<open>State\<close>

definition KindExec :: string where "KindExec = ''exec''"
definition KindShell :: string where "KindShell = ''shell''"
definition KindDesktop :: string where "KindDesktop = ''desktop''"

type_synonym uuid = string

definition uuid_Nil :: uuid where
  "uuid_Nil = ''00000000-0000-0000-0000-000000000000''"

record session =
  s_ID :: string
  s_Kind :: string
  s_NodeID :: uuid
  s_UserID :: uuid
  s_Params :: string
  s_agentToken :: string
  s_clientToken :: string
  s_usedAgentToken :: string
  s_usedClientToken :: string
  s_expiresAt :: go_time
  s_agentWS :: "nat option"
  s_clientWS :: "nat option"
  s_glued :: bool
  s_ttl :: bool
  s_relayRouted :: bool
  s_finish :: bool
  s_notifyAgent :: bool
  s_closed :: bool
  s_startedAt :: go_time
  s_lastActivity :: go_time
  s_idleTimeout :: duration
  s_maxLifetime :: duration

record desktopLease =
  dl_SessionID :: string
  dl_LeaseID :: string
  dl_UserID :: uuid
  dl_TakenAt :: go_time
  dl_LastStealAt :: go_time

datatype mgr_effect =
    CloseNow nat
  | NotifyAgent string string
  | Finish string string
  | StartPump string

record Manager =
  m_sessions :: "(string, session) table"
  m_leases :: "(uuid, desktopLease) table"
  m_reaps :: "string list"
  m_fx :: "mgr_effect list"
  ShellPerNode :: int
  ShellIdleTimeout :: duration
  ShellMaxLifetime :: duration
  DesktopPerNode :: int
  DesktopIdleTimeout :: duration
  DesktopLeaseTTL :: duration
  DesktopStealCooldown :: duration

record CreateResult =
  cr_Session :: string
  cr_AgentToken :: string
  cr_ClientToken :: string
  cr_ExpiresAt :: go_time
  cr_ClientPath :: string
  cr_LeaseGranted :: bool
  cr_LeaseID :: string

definition openingTTL :: duration where "openingTTL = 60 * Second"
definition expiredRetention :: duration where "expiredRetention = 5 * Minute"

definition manager_New :: Manager where
  "manager_New = \<lparr>m_sessions = [], m_leases = [], m_reaps = [], m_fx = [],
     ShellPerNode = 10, ShellIdleTimeout = 30 * Minute, ShellMaxLifetime = 8 * Hour,
     DesktopPerNode = 8, DesktopIdleTimeout = 5 * Minute, DesktopLeaseTTL = 60 * Second,
     DesktopStealCooldown = 3 * Second\<rparr>"

definition upd_session :: "string \<Rightarrow> (session \<Rightarrow> session) \<Rightarrow> Manager \<Rightarrow> Manager" where
  "upd_session sid f m =
     (case tget (m_sessions m) sid of
        None \<Rightarrow> m
      | Some s \<Rightarrow> m\<lparr>m_sessions := tput sid (f s) (m_sessions m)\<rparr>)"

subsection \<open>Counting\<close>

definition countByNodeLocked :: "(string, session) table \<Rightarrow> uuid \<Rightarrow> string \<Rightarrow> nat" where
  "countByNodeLocked ss nodeID kind =
     length (filter (\<lambda>(_, s). s_NodeID s = nodeID \<and> s_Kind s = kind) ss)"

definition CountByNode :: "uuid \<Rightarrow> string \<Rightarrow> Manager \<Rightarrow> nat" where
  "CountByNode nodeID kind m = countByNodeLocked (m_sessions m) nodeID kind"

definition CountActive :: "string \<Rightarrow> Manager \<Rightarrow> nat" where
  "CountActive kind m = length (filter (\<lambda>(_, s). s_Kind s = kind) (m_sessions m))"

definition SessionsOf :: "uuid \<Rightarrow> string \<Rightarrow> Manager \<Rightarrow> session list" where
  "SessionsOf nodeID kind m =
     map snd (filter (\<lambda>(_, s). s_NodeID s = nodeID \<and> s_Kind s = kind) (m_sessions m))"

subsection \<open>Desktop control leases\<close>

definition lease_holder_alive :: "Manager \<Rightarrow> desktopLease \<Rightarrow> go_time \<Rightarrow> bool" where
  "lease_holder_alive m l now =
     (case tget (m_sessions m) (dl_SessionID l) of
        None \<Rightarrow> False
      | Some holder \<Rightarrow> s_ID holder = dl_SessionID l
          \<and> time_Sub now (s_lastActivity holder) \<le> DesktopLeaseTTL m)"

definition grantDesktopLeaseLocked ::
  "session \<Rightarrow> string \<Rightarrow> go_time \<Rightarrow> Manager \<Rightarrow> string option \<times> Manager" where
  "grantDesktopLeaseLocked s token now m =
     (let give = (\<lambda>m. (Some (take 16 token),
            m\<lparr>m_leases := tput (s_NodeID s) \<lparr>dl_SessionID = s_ID s, dl_LeaseID = take 16 token,
               dl_UserID = s_UserID s, dl_TakenAt = now, dl_LastStealAt = zeroTime\<rparr> (m_leases m)\<rparr>))
      in case tget (m_leases m) (s_NodeID s) of
           Some old \<Rightarrow>
             if lease_holder_alive m old now then (None, m)
             else give (m\<lparr>m_leases := tdel (s_NodeID s) (m_leases m)\<rparr>)
         | None \<Rightarrow> give m)"

definition holderAliveLocked :: "Manager \<Rightarrow> uuid \<Rightarrow> go_time \<Rightarrow> bool" where
  "holderAliveLocked m nodeID now =
     (case tget (m_leases m) nodeID of
        None \<Rightarrow> False
      | Some l \<Rightarrow> lease_holder_alive m l now)"

definition TakeDesktopControl ::
  "uuid \<Rightarrow> string \<Rightarrow> string \<Rightarrow> go_time \<Rightarrow> Manager \<Rightarrow> bool \<times> string \<times> Manager" where
  "TakeDesktopControl nodeID sessionID token now m =
     (case tget (m_sessions m) sessionID of
        None \<Rightarrow> (False, ''no-session'', m)
      | Some s \<Rightarrow>
          if s_ID s \<noteq> sessionID then (False, ''no-session'', m)
          else case tget (m_leases m) nodeID of
            None \<Rightarrow> (True, ''granted'',
              m\<lparr>m_leases := tput nodeID \<lparr>dl_SessionID = sessionID, dl_LeaseID = take 16 token,
                 dl_UserID = s_UserID s, dl_TakenAt = now, dl_LastStealAt = zeroTime\<rparr> (m_leases m)\<rparr>)
          | Some l \<Rightarrow>
              if dl_SessionID l = sessionID then (True, ''held'', m)
              else if holderAliveLocked m nodeID now
                  \<and> time_Sub now (dl_LastStealAt l) < DesktopStealCooldown m
              then (False, ''cooldown'', m)
              else
                let l1 = (if holderAliveLocked m nodeID now then l\<lparr>dl_LastStealAt := now\<rparr> else l);
                    l2 = l1\<lparr>dl_SessionID := sessionID, dl_UserID := s_UserID s, dl_TakenAt := now\<rparr>
                in (True, ''taken'', m\<lparr>m_leases := tput nodeID l2 (m_leases m)\<rparr>))"

definition ReleaseDesktopControl :: "uuid \<Rightarrow> string \<Rightarrow> Manager \<Rightarrow> Manager" where
  "ReleaseDesktopControl nodeID sessionID m =
     (case tget (m_leases m) nodeID of
        Some l \<Rightarrow> if dl_SessionID l = sessionID then m\<lparr>m_leases := tdel nodeID (m_leases m)\<rparr> else m
      | None \<Rightarrow> m)"

definition DesktopControlOf :: "uuid \<Rightarrow> Manager \<Rightarrow> string \<times> uuid" where
  "DesktopControlOf nodeID m =
     (case tget (m_leases m) nodeID of
        Some l \<Rightarrow> (dl_SessionID l, dl_UserID l)
      | None \<Rightarrow> ([], uuid_Nil))"

definition DesktopLeaseOf :: "uuid \<Rightarrow> Manager \<Rightarrow> string \<times> string" where
  "DesktopLeaseOf nodeID m =
     (case tget (m_leases m) nodeID of
        Some l \<Rightarrow> (dl_SessionID l, dl_LeaseID l)
      | None \<Rightarrow> ([], []))"

subsection \<open>Creation\<close>

definition new_session ::
  "string \<Rightarrow> uuid \<Rightarrow> uuid \<Rightarrow> string \<Rightarrow> string \<Rightarrow> string \<Rightarrow> string \<Rightarrow> go_time \<Rightarrow> Manager \<Rightarrow> session" where
  "new_session sid nodeID userID kind params atok ctok now m =
     (let s = \<lparr>s_ID = sid, s_Kind = kind, s_NodeID = nodeID, s_UserID = userID, s_Params = params,
            s_agentToken = atok, s_clientToken = ctok, s_usedAgentToken = [], s_usedClientToken = [],
            s_expiresAt = now + openingTTL, s_agentWS = None, s_clientWS = None, s_glued = False,
            s_ttl = False, s_relayRouted = False, s_finish = False, s_notifyAgent = False,
            s_closed = False, s_startedAt = zeroTime, s_lastActivity = 0, s_idleTimeout = 0,
            s_maxLifetime = 0\<rparr>
      in if kind = KindShell then
           s\<lparr>s_startedAt := now, s_lastActivity := now, s_idleTimeout := ShellIdleTimeout m,
             s_maxLifetime := ShellMaxLifetime m\<rparr>
         else if kind = KindDesktop then
           s\<lparr>s_startedAt := now, s_lastActivity := now, s_idleTimeout := DesktopIdleTimeout m\<rparr>
         else s)"

definition mgr_Create ::
  "Registry \<Rightarrow> uuid \<Rightarrow> uuid \<Rightarrow> string \<Rightarrow> string \<Rightarrow> string \<Rightarrow> string \<Rightarrow> string \<Rightarrow> string \<Rightarrow> go_time \<Rightarrow>
   Manager \<Rightarrow> (api_error + CreateResult) \<times> Manager" where
  "mgr_Create reg nodeID userID kind params sid atok ctok ltok now m =
     (if \<not> Online nodeID reg then (Inl (proto_Err 409 ''NODE_OFFLINE'' ''node is offline''), m)
      else
        let s = new_session sid nodeID userID kind params atok ctok now m in
        if kind = KindShell \<and> ShellPerNode m > 0
           \<and> int (countByNodeLocked (m_sessions m) nodeID KindShell) \<ge> ShellPerNode m
        then (Inl (proto_Err 409 ''SESSION_LIMIT_EXCEEDED'' ''shell session limit reached''), m)
        else if kind = KindDesktop \<and> DesktopPerNode m > 0
           \<and> int (countByNodeLocked (m_sessions m) nodeID KindDesktop) \<ge> DesktopPerNode m
        then (Inl (proto_Err 409 ''SESSION_LIMIT_EXCEEDED'' ''desktop session limit reached''), m)
        else
          let m1 = m\<lparr>m_sessions := tput sid s (m_sessions m)\<rparr>;
              (lease, m2) = (if kind = KindDesktop then grantDesktopLeaseLocked s ltok now m1
                             else (None, m1));
              m3 = upd_session sid (\<lambda>s. s\<lparr>s_ttl := True\<rparr>) m2
          in (Inr \<lparr>cr_Session = sid, cr_AgentToken = atok, cr_ClientToken = ctok,
                   cr_ExpiresAt = s_expiresAt s, cr_ClientPath = ''/api/session/'' @ sid,
                   cr_LeaseGranted = (lease \<noteq> None),
                   cr_LeaseID = (case lease of None \<Rightarrow> [] | Some l \<Rightarrow> l)\<rparr>, m3))"

subsection \<open>Close and expiry\<close>

definition close_effects :: "session \<Rightarrow> string \<Rightarrow> mgr_effect list" where
  "close_effects s reason =
     (case s_agentWS s of None \<Rightarrow> [] | Some c \<Rightarrow> [CloseNow c])
     @ (case s_clientWS s of None \<Rightarrow> [] | Some c \<Rightarrow> [CloseNow c])
     @ (if s_notifyAgent s then [NotifyAgent (s_ID s) reason] else [])
     @ (if s_finish s then [Finish (s_ID s) reason] else [])"

definition mgr_close :: "string \<Rightarrow> string \<Rightarrow> bool \<Rightarrow> Manager \<Rightarrow> Manager" where
  "mgr_close sid reason remove m =
     (case tget (m_sessions m) sid of
        None \<Rightarrow> m
      | Some s \<Rightarrow>
          if s_closed s then m
          else
            let m1 = m\<lparr>m_sessions := (if remove then tdel sid (m_sessions m)
                         else tput sid (s\<lparr>s_closed := True, s_ttl := False\<rparr>) (m_sessions m))\<rparr>;
                m2 = (case tget (m_leases m1) (s_NodeID s) of
                        Some l \<Rightarrow> if dl_SessionID l = s_ID s
                                 then m1\<lparr>m_leases := tdel (s_NodeID s) (m_leases m1)\<rparr> else m1
                      | None \<Rightarrow> m1)
            in m2\<lparr>m_fx := m_fx m2 @ close_effects s reason\<rparr>)"

definition NotifyClose :: "string \<Rightarrow> string \<Rightarrow> Manager \<Rightarrow> Manager" where
  "NotifyClose sid reason m = mgr_close sid reason True m"

definition expire :: "string \<Rightarrow> go_time \<Rightarrow> Manager \<Rightarrow> Manager" where
  "expire sid now m =
     (case tget (m_sessions m) sid of
        None \<Rightarrow> m
      | Some s \<Rightarrow>
          if s_glued s then m
          else
            let m1 = upd_session sid (\<lambda>s. s\<lparr>s_expiresAt := now\<rparr>) m;
                m2 = mgr_close sid ''opening-timeout'' False m1
            in m2\<lparr>m_reaps := m_reaps m2 @ [sid]\<rparr>)"

text \<open>The delayed removal that \<open>expire\<close> schedules \<open>expiredRetention\<close> later.\<close>

definition expire_reap :: "string \<Rightarrow> Manager \<Rightarrow> Manager" where
  "expire_reap sid m = m\<lparr>m_sessions := tdel sid (m_sessions m)\<rparr>"

subsection \<open>Attachment\<close>

definition sessionByAgentToken :: "string \<Rightarrow> Manager \<Rightarrow> string" where
  "sessionByAgentToken token m =
     (case find (\<lambda>(_, s). s_agentToken s \<noteq> [] \<and> token = s_agentToken s) (m_sessions m) of
        Some (sid, _) \<Rightarrow> sid
      | None \<Rightarrow> [])"

text \<open>Burning the token of one side, storing its socket, and gluing once both sides are there.\<close>

definition attach_session :: "string \<Rightarrow> string \<Rightarrow> nat \<Rightarrow> session \<Rightarrow> session" where
  "attach_session side want ws s =
     (let s1 = (if side = ''agent''
                then s\<lparr>s_usedAgentToken := want, s_agentToken := [], s_agentWS := Some ws\<rparr>
                else s\<lparr>s_usedClientToken := want, s_clientToken := [], s_clientWS := Some ws\<rparr>)
      in if s_agentWS s1 \<noteq> None \<and> s_clientWS s1 \<noteq> None \<and> \<not> s_glued s1
         then s1\<lparr>s_glued := True, s_ttl := False\<rparr> else s1)"

definition attach_found ::
  "string \<Rightarrow> string \<Rightarrow> string \<Rightarrow> nat \<Rightarrow> go_time \<Rightarrow> Manager \<Rightarrow> api_error option \<times> Manager" where
  "attach_found side sid token ws now m =
     (case tget (m_sessions m) sid of
        None \<Rightarrow> (Some (proto_Err 404 ''SESSION_NOT_FOUND'' ''session not found''), m)
      | Some s \<Rightarrow>
          if now > s_expiresAt s then (Some (proto_Err 410 ''SESSION_EXPIRED'' ''session expired''), m)
          else if side \<noteq> ''agent'' \<and> side \<noteq> ''client''
          then (Some (proto_Err 500 ''INTERNAL'' ''unknown attach side''), m)
          else
            let want = (if side = ''agent'' then s_agentToken s else s_clientToken s);
                used = (if side = ''agent'' then s_usedAgentToken s else s_usedClientToken s)
            in if want = [] then
                 (if token \<noteq> [] \<and> token = used
                  then (Some (proto_Err 401 ''UNAUTHORIZED'' ''session token already used''), m)
                  else (Some (proto_Err 404 ''SESSION_NOT_FOUND'' ''session side already attached''), m))
               else if token \<noteq> want
               then (Some (proto_Err 401 ''UNAUTHORIZED'' ''invalid session token''), m)
               else
                 let s1 = attach_session side want ws s;
                     both = (s_agentWS s1 \<noteq> None \<and> s_clientWS s1 \<noteq> None);
                     m1 = m\<lparr>m_sessions := tput sid s1 (m_sessions m)\<rparr>
                 in (None, if both then m1\<lparr>m_fx := m_fx m1 @ [StartPump sid]\<rparr> else m1))"

definition mgr_attach ::
  "string \<Rightarrow> string \<Rightarrow> string \<Rightarrow> nat \<Rightarrow> go_time \<Rightarrow> Manager \<Rightarrow> api_error option \<times> Manager" where
  "mgr_attach side sessionID token ws now m =
     (if sessionID = [] then
        (let sid = sessionByAgentToken token m in
         if sid = [] then (Some (proto_Err 404 ''SESSION_NOT_FOUND'' ''session not found''), m)
         else attach_found side sid token ws now m)
      else attach_found side sessionID token ws now m)"

definition AttachAgent :: "string \<Rightarrow> string \<Rightarrow> nat \<Rightarrow> go_time \<Rightarrow> Manager \<Rightarrow> api_error option \<times> Manager" where
  "AttachAgent sessionID token ws now m = mgr_attach ''agent'' sessionID token ws now m"

definition AttachClient :: "string \<Rightarrow> string \<Rightarrow> nat \<Rightarrow> go_time \<Rightarrow> Manager \<Rightarrow> api_error option \<times> Manager" where
  "AttachClient sessionID token ws now m = mgr_attach ''client'' sessionID token ws now m"

definition sessionByClientToken :: "string \<Rightarrow> Manager \<Rightarrow> session option" where
  "sessionByClientToken token m =
     (case find (\<lambda>(_, s). s_clientToken s \<noteq> [] \<and> token = s_clientToken s) (m_sessions m) of
        Some (_, s) \<Rightarrow> Some s
      | None \<Rightarrow>
          if token \<noteq> [] then
            map_option snd (find (\<lambda>(_, s). s_clientToken s = [] \<and> s_usedClientToken s = token) (m_sessions m))
          else None)"

definition AttachClientRTV ::
  "string \<Rightarrow> go_time \<Rightarrow> Manager \<Rightarrow> (api_error + (uuid \<times> string)) \<times> Manager" where
  "AttachClientRTV token now m =
     (if token = [] then (Inl (proto_Err 401 ''UNAUTHORIZED'' ''missing session token''), m)
      else case sessionByClientToken token m of
        None \<Rightarrow> (Inl (proto_Err 404 ''SESSION_NOT_FOUND'' ''session not found''), m)
      | Some s \<Rightarrow>
          if now > s_expiresAt s
          then (Inl (proto_Err 410 ''SESSION_EXPIRED'' ''session expired''), m)
          else (Inr (s_NodeID s, s_ID s),
                upd_session (s_ID s)
                  (\<lambda>s. (if s_glued s then s else s\<lparr>s_glued := True, s_ttl := False\<rparr>)\<lparr>s_lastActivity := now\<rparr>) m))"

definition TouchActivity :: "string \<Rightarrow> go_time \<Rightarrow> Manager \<Rightarrow> Manager" where
  "TouchActivity sid now m =
     upd_session sid
       (\<lambda>s. (if \<not> s_glued s \<and> s_Kind s = KindDesktop then s\<lparr>s_glued := True\<rparr> else s)\<lparr>s_lastActivity := now\<rparr>) m"

definition MarkRelayRouted :: "string \<Rightarrow> Manager \<Rightarrow> Manager" where
  "MarkRelayRouted sid m =
     upd_session sid (\<lambda>s. s\<lparr>s_relayRouted := True, s_glued := True, s_ttl := False\<rparr>) m"

definition SetFinishFn :: "string \<Rightarrow> Manager \<Rightarrow> Manager" where
  "SetFinishFn sid m = upd_session sid (\<lambda>s. s\<lparr>s_finish := True\<rparr>) m"

definition SetNotifyFn :: "string \<Rightarrow> Manager \<Rightarrow> Manager" where
  "SetNotifyFn sid m = upd_session sid (\<lambda>s. s\<lparr>s_notifyAgent := True\<rparr>) m"

text \<open>One frame forwarded by a pump goroutine refreshes the activity time.\<close>

definition relay_frame :: "string \<Rightarrow> go_time \<Rightarrow> Manager \<Rightarrow> Manager" where
  "relay_frame sid now m = upd_session sid (\<lambda>s. s\<lparr>s_lastActivity := now\<rparr>) m"

subsection \<open>Janitor\<close>

definition sweep_reason :: "go_time \<Rightarrow> session \<Rightarrow> string option" where
  "sweep_reason now s =
     (if s_Kind s = KindShell then
        (if s_maxLifetime s > 0 \<and> time_Sub now (s_startedAt s) > s_maxLifetime s
         then Some ''max-lifetime''
         else if s_idleTimeout s > 0 \<and> time_Sub now (s_lastActivity s) > s_idleTimeout s
         then Some ''idle-timeout'' else None)
      else if s_Kind s = KindDesktop then
        (if s_idleTimeout s > 0 \<and> time_Sub now (s_lastActivity s) > s_idleTimeout s
         then Some ''idle-timeout'' else None)
      else None)"

definition lease_stale :: "go_time \<Rightarrow> Manager \<Rightarrow> desktopLease \<Rightarrow> bool" where
  "lease_stale now m l =
     (case tget (m_sessions m) (dl_SessionID l) of
        None \<Rightarrow> True
      | Some holder \<Rightarrow> time_Sub now (s_lastActivity holder) > DesktopLeaseTTL m)"

definition sweep :: "go_time \<Rightarrow> Manager \<Rightarrow> Manager" where
  "sweep now m =
     (let m1 = m\<lparr>m_leases := tfilter (\<lambda>_ l. \<not> lease_stale now m l) (m_leases m)\<rparr>;
          expired = List.map_filter (\<lambda>(sid, s). map_option (Pair sid) (sweep_reason now s)) (m_sessions m1)
      in fold (\<lambda>(sid, reason). NotifyClose sid reason) expired m1)"

subsection \<open>The lease contract\<close>

definition mgr_owner :: "Manager \<Rightarrow> uuid \<Rightarrow> string option" where
  "mgr_owner m n = map_option dl_SessionID (tget (m_leases m) n)"

definition mgr_lastSteal :: "Manager \<Rightarrow> uuid \<Rightarrow> go_time" where
  "mgr_lastSteal m n = (case tget (m_leases m) n of None \<Rightarrow> zeroTime | Some l \<Rightarrow> dl_LastStealAt l)"

definition has_session :: "Manager \<Rightarrow> string \<Rightarrow> bool" where
  "has_session m sid = (case tget (m_sessions m) sid of None \<Rightarrow> False | Some s \<Rightarrow> s_ID s = sid)"

definition take_outcome :: "bool \<times> string \<times> Manager \<Rightarrow> bool \<times> Manager" where
  "take_outcome r = (fst r, snd (snd r))"

interpretation mgr_lease: control_lease mgr_owner holderAliveLocked mgr_lastSteal
  DesktopStealCooldown has_session "\<lambda>n i now m. take_outcome (TakeDesktopControl n i token now m)"
  ReleaseDesktopControl for token
proof unfold_locales
  show "fst (take_outcome (TakeDesktopControl n i token now s)) \<longleftrightarrow> has_session s i \<and>
     (mgr_owner s n = None \<or> mgr_owner s n = Some i \<or> \<not> holderAliveLocked s n now
      \<or> \<not> time_Sub now (mgr_lastSteal s n) < DesktopStealCooldown s)" for n i now s
    by (auto simp: take_outcome_def TakeDesktopControl_def mgr_owner_def mgr_lastSteal_def has_session_def
        holderAliveLocked_def Let_def split: option.splits)
  show "mgr_owner (snd (take_outcome (TakeDesktopControl n i token now s))) m =
      (if m = n \<and> fst (take_outcome (TakeDesktopControl n i token now s)) then Some i else mgr_owner s m)"
    for n i now s m
    by (auto simp: take_outcome_def TakeDesktopControl_def mgr_owner_def Let_def split: option.splits)
  show "mgr_lastSteal (snd (take_outcome (TakeDesktopControl n i token now s))) n = now"
    if "fst (take_outcome (TakeDesktopControl n i token now s))" "mgr_owner s n = Some j" "j \<noteq> i"
      "holderAliveLocked s n now" for n i now s j
    using that
    by (auto simp: take_outcome_def TakeDesktopControl_def mgr_owner_def mgr_lastSteal_def Let_def
        split: option.splits if_splits)
  show "DesktopStealCooldown (snd (take_outcome (TakeDesktopControl n i token now s)))
      = DesktopStealCooldown s" for n i now s
    by (simp add: take_outcome_def TakeDesktopControl_def Let_def split: option.splits)
  show "has_session (snd (take_outcome (TakeDesktopControl n i token now s))) = has_session s" for n i now s
    by (auto simp: take_outcome_def TakeDesktopControl_def Let_def has_session_def split: option.splits)
  show "mgr_owner (ReleaseDesktopControl n i s) m
      = (if m = n \<and> mgr_owner s n = Some i then None else mgr_owner s m)" for n i s m
    by (auto simp: ReleaseDesktopControl_def mgr_owner_def split: option.splits)
qed

subsection \<open>Runs\<close>

datatype mgr_event =
    ECreate Registry uuid uuid string string string string string string go_time
  | EAttach string string string nat go_time
  | EAttachRTV string go_time
  | ETouch string go_time
  | EFrame string go_time
  | ERelayRouted string
  | ESetFinish string
  | ESetNotify string
  | ENotifyClose string string
  | EExpire string go_time
  | EReap string
  | ETake uuid string string go_time
  | ERelease uuid string
  | ESweep go_time

fun mgr_step :: "mgr_event \<Rightarrow> Manager \<Rightarrow> Manager" where
  "mgr_step (ECreate reg n u k p sid a c l t) m = snd (mgr_Create reg n u k p sid a c l t m)"
| "mgr_step (EAttach side sid tk ws t) m = snd (mgr_attach side sid tk ws t m)"
| "mgr_step (EAttachRTV tk t) m = snd (AttachClientRTV tk t m)"
| "mgr_step (ETouch sid t) m = TouchActivity sid t m"
| "mgr_step (EFrame sid t) m = relay_frame sid t m"
| "mgr_step (ERelayRouted sid) m = MarkRelayRouted sid m"
| "mgr_step (ESetFinish sid) m = SetFinishFn sid m"
| "mgr_step (ESetNotify sid) m = SetNotifyFn sid m"
| "mgr_step (ENotifyClose sid r) m = NotifyClose sid r m"
| "mgr_step (EExpire sid t) m = expire sid t m"
| "mgr_step (EReap sid) m = expire_reap sid m"
| "mgr_step (ETake n sid tk t) m = snd (snd (TakeDesktopControl n sid tk t m))"
| "mgr_step (ERelease n sid) m = ReleaseDesktopControl n sid m"
| "mgr_step (ESweep t) m = sweep t m"

fun is_finish :: "string \<Rightarrow> mgr_effect \<Rightarrow> bool" where
  "is_finish sid (Finish i r) \<longleftrightarrow> i = sid"
| "is_finish sid _ \<longleftrightarrow> False"

definition finishes :: "string \<Rightarrow> Manager \<Rightarrow> nat" where
  "finishes sid m = length (filter (is_finish sid) (m_fx m))"

text \<open>Session ids come from \<open>uuid.NewString\<close> and are not used twice; a delayed removal runs only
  after \<open>expire\<close> scheduled it.\<close>

fun mgr_pre :: "mgr_event \<Rightarrow> Manager \<Rightarrow> bool" where
  "mgr_pre (ECreate reg n u k p sid a c l t) m \<longleftrightarrow>
     tget (m_sessions m) sid = None \<and> finishes sid m = 0 \<and> sid \<notin> set (m_reaps m)"
| "mgr_pre (EReap sid) m \<longleftrightarrow> sid \<in> set (m_reaps m)"
| "mgr_pre _ m \<longleftrightarrow> True"

definition mgr_inv :: "Manager \<Rightarrow> bool" where
  "mgr_inv m \<longleftrightarrow> tok (m_sessions m) \<and> tok (m_leases m)
     \<and> (\<forall>sid s. tget (m_sessions m) sid = Some s \<longrightarrow> s_ID s = sid)
     \<and> (ShellPerNode m > 0 \<longrightarrow> (\<forall>n. int (CountByNode n KindShell m) \<le> ShellPerNode m))
     \<and> (DesktopPerNode m > 0 \<longrightarrow> (\<forall>n. int (CountByNode n KindDesktop m) \<le> DesktopPerNode m))
     \<and> (\<forall>sid. finishes sid m \<le> 1)
     \<and> (\<forall>sid s. tget (m_sessions m) sid = Some s \<and> \<not> s_closed s \<longrightarrow> finishes sid m = 0)
     \<and> (\<forall>sid s. sid \<in> set (m_reaps m) \<and> tget (m_sessions m) sid = Some s \<longrightarrow> s_closed s)"

subsection \<open>How an operation may change the table\<close>

text \<open>\<open>evolves m m'\<close>: no session appears, identity, kind and node of a session never change, a closed
  session stays closed and a consumed token stays consumed.\<close>

definition descends :: "session \<Rightarrow> session \<Rightarrow> bool" where
  "descends s s' \<longleftrightarrow> s_ID s' = s_ID s \<and> s_Kind s' = s_Kind s \<and> s_NodeID s' = s_NodeID s
     \<and> (s_closed s \<longrightarrow> s_closed s') \<and> (s_finish s \<longrightarrow> s_finish s')
     \<and> (s_agentToken s = [] \<longrightarrow> s_agentToken s' = [])
     \<and> (s_clientToken s = [] \<longrightarrow> s_clientToken s' = [])"

definition evolves :: "Manager \<Rightarrow> Manager \<Rightarrow> bool" where
  "evolves m m' \<longleftrightarrow> (tok (m_sessions m) \<longrightarrow> tok (m_sessions m'))
     \<and> (tok (m_leases m) \<longrightarrow> tok (m_leases m'))
     \<and> ShellPerNode m' = ShellPerNode m \<and> DesktopPerNode m' = DesktopPerNode m
     \<and> (\<forall>sid s'. tget (m_sessions m') sid = Some s' \<longrightarrow>
          (\<exists>s. tget (m_sessions m) sid = Some s \<and> descends s s'))"

text \<open>\<open>quiet\<close>: moreover nothing is closed, removed or scheduled.\<close>

definition quiet :: "Manager \<Rightarrow> Manager \<Rightarrow> bool" where
  "quiet m m' \<longleftrightarrow> evolves m m' \<and> (\<forall>sid. finishes sid m' = finishes sid m) \<and> m_reaps m' = m_reaps m
     \<and> (\<forall>sid s. tget (m_sessions m) sid = Some s \<longrightarrow>
          (\<exists>s'. tget (m_sessions m') sid = Some s' \<and> s_closed s' = s_closed s))"

lemma descends_refl [simp]: "descends s s"
  by (simp add: descends_def)

lemma descends_trans: "descends s t \<Longrightarrow> descends t u \<Longrightarrow> descends s u"
  by (auto simp: descends_def)

lemma evolves_refl [simp]: "evolves m m"
  by (simp add: evolves_def)

lemma evolves_trans: "evolves m m' \<Longrightarrow> evolves m' m'' \<Longrightarrow> evolves m m''"
  unfolding evolves_def by (intro conjI) (simp, simp, simp, simp, meson descends_trans)

lemma quiet_refl [simp]: "quiet m m"
  by (simp add: quiet_def)

lemma quiet_evolves: "quiet m m' \<Longrightarrow> evolves m m'"
  by (simp add: quiet_def)

lemma upd_session_get:
  "tget (m_sessions (upd_session sid f m)) i =
     (if i = sid then map_option f (tget (m_sessions m) sid) else tget (m_sessions m) i)"
  by (simp add: upd_session_def split: option.splits)

lemma upd_session_sel [simp]:
  "m_leases (upd_session sid f m) = m_leases m" "m_fx (upd_session sid f m) = m_fx m"
  "m_reaps (upd_session sid f m) = m_reaps m" "ShellPerNode (upd_session sid f m) = ShellPerNode m"
  "DesktopPerNode (upd_session sid f m) = DesktopPerNode m"
  "tok (m_sessions m) \<Longrightarrow> tok (m_sessions (upd_session sid f m))"
  by (simp_all add: upd_session_def split: option.splits)

lemma upd_quiet:
  "(\<And>s. descends s (f s) \<and> s_closed (f s) = s_closed s) \<Longrightarrow> quiet m (upd_session sid f m)"
  by (auto simp: quiet_def evolves_def finishes_def upd_session_get split: if_splits)

lemma put_quiet:
  "tget (m_sessions m) sid = Some s \<Longrightarrow> descends s s' \<Longrightarrow> s_closed s' = s_closed s \<Longrightarrow>
     \<forall>i. \<not> list_ex (is_finish i) fx \<Longrightarrow>
     quiet m (m\<lparr>m_sessions := tput sid s' (m_sessions m), m_fx := m_fx m @ fx\<rparr>)"
  by (auto simp: quiet_def evolves_def finishes_def filter_empty_conv list_ex_iff split: if_splits)

lemma leases_quiet: "(tok (m_leases m) \<Longrightarrow> tok ls) \<Longrightarrow> quiet m (m\<lparr>m_leases := ls\<rparr>)"
  by (auto simp: quiet_def evolves_def finishes_def)

lemma put_quiet0:
  "tget (m_sessions m) sid = Some s \<Longrightarrow> descends s s' \<Longrightarrow> s_closed s' = s_closed s \<Longrightarrow>
     quiet m (m\<lparr>m_sessions := tput sid s' (m_sessions m)\<rparr>)"
  using put_quiet [of m sid s s' "[]"] by simp

lemma attach_session_descends:
  "descends s (attach_session side want ws s)" "s_closed (attach_session side want ws s) = s_closed s"
  by (simp_all add: attach_session_def descends_def Let_def)

lemma quiet_if: "quiet m (snd x) \<Longrightarrow> quiet m (snd y) \<Longrightarrow> quiet m (snd (if c then x else y))"
  by simp

lemma attach_found_quiet: "quiet m (snd (attach_found side i tk ws t m))"
proof (cases "tget (m_sessions m) i")
  case None
  then show ?thesis by (simp add: attach_found_def)
next
  case (Some s)
  show ?thesis
    unfolding attach_found_def Some option.case Let_def
    by (intro quiet_if) (simp_all add: put_quiet [OF Some] put_quiet0 [OF Some] attach_session_descends)
qed

lemma attach_quiet: "quiet m (snd (mgr_attach side sid tk ws t m))"
  by (simp add: mgr_attach_def Let_def attach_found_quiet)

lemma quiet_ops:
  "quiet m (snd (AttachClientRTV tk t m))" "quiet m (TouchActivity sid t m)"
  "quiet m (relay_frame sid t m)" "quiet m (MarkRelayRouted sid m)"
  "quiet m (SetFinishFn sid m)" "quiet m (SetNotifyFn sid m)"
  "quiet m (snd (snd (TakeDesktopControl n sid tk t m)))" "quiet m (ReleaseDesktopControl n sid m)"
  by (auto simp: AttachClientRTV_def TouchActivity_def relay_frame_def MarkRelayRouted_def SetFinishFn_def
      SetNotifyFn_def TakeDesktopControl_def ReleaseDesktopControl_def descends_def Let_def
      intro!: upd_quiet leases_quiet split: option.splits if_splits)

subsection \<open>Closing\<close>

lemma close_effects_finish:
  "filter (is_finish i) (close_effects s r) = (if s_finish s \<and> s_ID s = i then [Finish i r] else [])"
  by (auto simp: close_effects_def split: option.splits)

lemma close_absent: "tget (m_sessions m) sid = None \<Longrightarrow> mgr_close sid r rm m = m"
  by (simp add: mgr_close_def)

lemma close_done: "tget (m_sessions m) sid = Some s \<Longrightarrow> s_closed s \<Longrightarrow> mgr_close sid r rm m = m"
  by (simp add: mgr_close_def)

lemma close_open:
  assumes "tget (m_sessions m) sid = Some s" "\<not> s_closed s"
  shows "m_sessions (mgr_close sid r rm m) = (if rm then tdel sid (m_sessions m)
           else tput sid (s\<lparr>s_closed := True, s_ttl := False\<rparr>) (m_sessions m))"
    and "m_leases (mgr_close sid r rm m) = (if mgr_owner m (s_NodeID s) = Some (s_ID s)
           then tdel (s_NodeID s) (m_leases m) else m_leases m)"
    and "m_fx (mgr_close sid r rm m) = m_fx m @ close_effects s r"
    and "m_reaps (mgr_close sid r rm m) = m_reaps m"
    and "ShellPerNode (mgr_close sid r rm m) = ShellPerNode m"
    and "DesktopPerNode (mgr_close sid r rm m) = DesktopPerNode m"
  using assms by (auto simp: mgr_close_def mgr_owner_def Let_def split: option.splits)

lemma close_evolves: "evolves m (mgr_close sid r rm m)"
proof (cases "\<exists>s. tget (m_sessions m) sid = Some s \<and> \<not> s_closed s")
  case True
  then obtain s where s: "tget (m_sessions m) sid = Some s" "\<not> s_closed s" by blast
  then show ?thesis
    by (auto simp: evolves_def close_open [OF s] descends_def split: if_splits)
next
  case False
  then have "mgr_close sid r rm m = m"
    by (cases "tget (m_sessions m) sid") (simp_all add: mgr_close_def)
  then show ?thesis by simp
qed

lemma close_finishes:
  assumes "tget (m_sessions m) sid = Some s" "\<not> s_closed s" "s_ID s = sid"
  shows "finishes i (mgr_close sid r rm m) = finishes i m + (if s_finish s \<and> i = sid then 1 else 0)"
  using assms by (simp add: finishes_def close_open(3) close_effects_finish)

text \<open>The part of the invariant that closing has to re-establish.\<close>

definition close_inv :: "Manager \<Rightarrow> bool" where
  "close_inv m \<longleftrightarrow> (\<forall>sid s. tget (m_sessions m) sid = Some s \<longrightarrow> s_ID s = sid)
     \<and> (\<forall>sid. finishes sid m \<le> 1)
     \<and> (\<forall>sid s. tget (m_sessions m) sid = Some s \<and> \<not> s_closed s \<longrightarrow> finishes sid m = 0)
     \<and> (\<forall>sid s. sid \<in> set (m_reaps m) \<and> tget (m_sessions m) sid = Some s \<longrightarrow> s_closed s)"

lemma close_invD:
  "close_inv m \<Longrightarrow> tget (m_sessions m) sid = Some s \<Longrightarrow> s_ID s = sid"
  "close_inv m \<Longrightarrow> finishes sid m \<le> 1"
  "close_inv m \<Longrightarrow> tget (m_sessions m) sid = Some s \<Longrightarrow> \<not> s_closed s \<Longrightarrow> finishes sid m = 0"
  "close_inv m \<Longrightarrow> tget (m_sessions m) sid = Some s \<Longrightarrow> sid \<in> set (m_reaps m) \<Longrightarrow> s_closed s"
  by (auto simp: close_inv_def)

lemma close_inv_quiet: "close_inv m \<Longrightarrow> quiet m m' \<Longrightarrow> close_inv m'"
  unfolding close_inv_def quiet_def evolves_def descends_def
  by (intro conjI allI impI; elim conjE) (metis option.inject)+

lemma close_inv_close:
  assumes "close_inv m"
  shows "close_inv (mgr_close sid r rm m)"
proof (cases "\<exists>s. tget (m_sessions m) sid = Some s \<and> \<not> s_closed s")
  case True
  then obtain s where s: "tget (m_sessions m) sid = Some s" "\<not> s_closed s" by blast
  have sid: "s_ID s = sid" by (rule close_invD(1) [OF assms s(1)])
  have z: "finishes sid m = 0" by (rule close_invD(3) [OF assms s])
  show ?thesis
    unfolding close_inv_def close_open(1,4) [OF s] close_finishes [OF s sid]
    using z sid close_invD [OF assms] by (auto split: if_splits)
next
  case False
  then have "mgr_close sid r rm m = m"
    by (cases "tget (m_sessions m) sid") (simp_all add: mgr_close_def)
  then show ?thesis using assms by simp
qed

lemma expire_cases:
  obtains "expire sid t m = m"
  | s where "tget (m_sessions m) sid = Some s" "\<not> s_glued s"
    "expire sid t m = (let m2 = mgr_close sid ''opening-timeout'' False
        (upd_session sid (\<lambda>s. s\<lparr>s_expiresAt := t\<rparr>) m) in m2\<lparr>m_reaps := m_reaps m2 @ [sid]\<rparr>)"
proof (cases "\<exists>s. tget (m_sessions m) sid = Some s \<and> \<not> s_glued s")
  case True
  then obtain s where "tget (m_sessions m) sid = Some s" "\<not> s_glued s" by blast
  then show thesis by (intro that(2)) (simp_all add: expire_def)
next
  case False
  then have "expire sid t m = m" by (auto simp: expire_def split: option.splits)
  then show thesis by (rule that(1))
qed

lemma expires_quiet: "quiet m (upd_session sid (\<lambda>s. s\<lparr>s_expiresAt := t\<rparr>) m)"
  by (rule upd_quiet) (simp add: descends_def)

lemma close_closes:
  "tget (m_sessions (mgr_close sid r False m)) sid = Some s' \<Longrightarrow> s_closed s'"
  by (cases "tget (m_sessions m) sid") (auto simp: mgr_close_def Let_def split: if_splits option.splits)

lemma expire_evolves: "evolves m (expire sid t m)"
proof (cases rule: expire_cases [of sid t m])
  case (2 s)
  let ?u = "upd_session sid (\<lambda>s. s\<lparr>s_expiresAt := t\<rparr>) m"
  have "evolves m (mgr_close sid ''opening-timeout'' False ?u)"
    by (rule evolves_trans [OF quiet_evolves [OF expires_quiet] close_evolves])
  then show ?thesis by (simp add: 2 Let_def evolves_def)
qed simp

lemma expire_close_inv: "close_inv m \<Longrightarrow> close_inv (expire sid t m)"
proof (cases rule: expire_cases [of sid t m])
  case (2 s)
  assume i: "close_inv m"
  let ?u = "upd_session sid (\<lambda>s. s\<lparr>s_expiresAt := t\<rparr>) m"
  let ?m = "mgr_close sid ''opening-timeout'' False ?u"
  have "close_inv ?m"
    by (rule close_inv_close [OF close_inv_quiet [OF i expires_quiet]])
  then have "close_inv (?m\<lparr>m_reaps := m_reaps ?m @ [sid]\<rparr>)"
    using close_closes [of sid "''opening-timeout''" ?u] by (auto simp: close_inv_def finishes_def)
  then show ?thesis by (simp add: 2 Let_def)
qed simp

lemma notify_fold_evolves: "evolves m (fold (\<lambda>(sid, r). NotifyClose sid r) es m)"
proof (induction es arbitrary: m)
  case (Cons e es)
  show ?case
    using evolves_trans [OF close_evolves Cons.IH, of m "fst e" "snd e" True]
    by (simp add: NotifyClose_def split_def)
qed simp

lemma notify_fold_inv: "close_inv m \<Longrightarrow> close_inv (fold (\<lambda>(sid, r). NotifyClose sid r) es m)"
  by (induction es arbitrary: m) (auto simp: NotifyClose_def close_inv_close)

lemma sweep_leases_quiet: "quiet m (m\<lparr>m_leases := tfilter p (m_leases m)\<rparr>)"
  by (rule leases_quiet) simp

lemma sweep_evolves: "evolves m (sweep t m)"
  unfolding sweep_def Let_def
  by (rule evolves_trans [OF quiet_evolves [OF sweep_leases_quiet] notify_fold_evolves])

lemma sweep_close_inv: "close_inv m \<Longrightarrow> close_inv (sweep t m)"
  unfolding sweep_def Let_def
  by (rule notify_fold_inv) (rule close_inv_quiet [OF _ sweep_leases_quiet])

lemma reap_evolves: "evolves m (expire_reap sid m)"
  by (auto simp: evolves_def expire_reap_def)

lemma reap_close_inv: "close_inv m \<Longrightarrow> close_inv (expire_reap sid m)"
  by (auto simp: close_inv_def expire_reap_def finishes_def split: if_splits)

subsection \<open>Limits\<close>

definition node_sids :: "(string, session) table \<Rightarrow> uuid \<Rightarrow> string \<Rightarrow> string set" where
  "node_sids ss n k = {sid. \<exists>s. tget ss sid = Some s \<and> s_NodeID s = n \<and> s_Kind s = k}"

lemma node_sids_keys: "node_sids ss n k \<subseteq> set (tkeys ss)"
  by (auto simp: node_sids_def tbl.keys_get)

lemma finite_node_sids [simp]: "finite (node_sids ss n k)"
  by (rule finite_subset [OF node_sids_keys]) simp

lemma count_card:
  assumes "tok ss"
  shows "countByNodeLocked ss n k = card (node_sids ss n k)"
proof -
  let ?p = "\<lambda>(_, s). s_NodeID s = n \<and> s_Kind s = k"
  have d: "distinct (map fst (filter ?p ss))"
    using assms by (simp add: tok_def distinct_map_filter)
  have "set (map fst (filter ?p ss)) = node_sids ss n k"
    by (auto simp: node_sids_def tget_in_set [OF assms] intro: rev_image_eqI)
  with distinct_card [OF d] show ?thesis
    unfolding countByNodeLocked_def by simp
qed

lemma count_evolves:
  assumes "evolves m m'" "tok (m_sessions m)"
  shows "CountByNode n k m' \<le> CountByNode n k m"
proof -
  have "node_sids (m_sessions m') n k \<subseteq> node_sids (m_sessions m) n k"
    using assms(1) by (fastforce simp: evolves_def node_sids_def descends_def)
  then show ?thesis
    using assms by (simp add: CountByNode_def count_card evolves_def card_mono)
qed

lemma count_insert:
  assumes "tok ss" "tok ss'" "\<And>i. tget ss' i = (if i = sid then Some s else tget ss i)"
    and "tget ss sid = None"
  shows "countByNodeLocked ss' n k =
     countByNodeLocked ss n k + (if s_NodeID s = n \<and> s_Kind s = k then 1 else 0)"
proof -
  have "node_sids ss' n k = (if s_NodeID s = n \<and> s_Kind s = k then insert sid (node_sids ss n k)
      else node_sids ss n k)"
    using assms(3,4) by (auto simp: node_sids_def)
  moreover have "sid \<notin> node_sids ss n k"
    using assms(4) by (simp add: node_sids_def)
  ultimately show ?thesis
    using assms(1,2) by (simp add: count_card)
qed

lemma mgr_inv_iff:
  "mgr_inv m \<longleftrightarrow> tok (m_sessions m) \<and> tok (m_leases m) \<and> close_inv m
     \<and> (ShellPerNode m > 0 \<longrightarrow> (\<forall>n. int (CountByNode n KindShell m) \<le> ShellPerNode m))
     \<and> (DesktopPerNode m > 0 \<longrightarrow> (\<forall>n. int (CountByNode n KindDesktop m) \<le> DesktopPerNode m))"
  by (auto simp: mgr_inv_def close_inv_def)

lemma mgr_inv_evolves:
  assumes "mgr_inv m" "evolves m m'" "close_inv m'"
  shows "mgr_inv m'"
proof -
  have c: "CountByNode n k m' \<le> CountByNode n k m" for n k
    using assms(1) by (intro count_evolves [OF assms(2)]) (simp add: mgr_inv_iff)
  have "int (CountByNode n k m') \<le> b" if "int (CountByNode n k m) \<le> b" for n k b
    using c [of n k] that by linarith
  then show ?thesis
    using assms by (auto simp: mgr_inv_iff evolves_def)
qed

subsection \<open>Creation\<close>

lemma new_session_sel [simp]:
  "s_ID (new_session sid n u k p a c t m) = sid" "s_Kind (new_session sid n u k p a c t m) = k"
  "s_NodeID (new_session sid n u k p a c t m) = n" "s_UserID (new_session sid n u k p a c t m) = u"
  "s_agentToken (new_session sid n u k p a c t m) = a"
  "s_clientToken (new_session sid n u k p a c t m) = c"
  "s_closed (new_session sid n u k p a c t m) = False"
  "s_glued (new_session sid n u k p a c t m) = False"
  "s_expiresAt (new_session sid n u k p a c t m) = t + openingTTL"
  by (simp_all add: new_session_def Let_def)

lemma grant_sel [simp]:
  "m_sessions (snd (grantDesktopLeaseLocked s tk t m)) = m_sessions m"
  "m_fx (snd (grantDesktopLeaseLocked s tk t m)) = m_fx m"
  "m_reaps (snd (grantDesktopLeaseLocked s tk t m)) = m_reaps m"
  "ShellPerNode (snd (grantDesktopLeaseLocked s tk t m)) = ShellPerNode m"
  "DesktopPerNode (snd (grantDesktopLeaseLocked s tk t m)) = DesktopPerNode m"
  "tok (m_leases m) \<Longrightarrow> tok (m_leases (snd (grantDesktopLeaseLocked s tk t m)))"
  by (simp_all add: grantDesktopLeaseLocked_def Let_def split: option.splits)

definition under_limit :: "uuid \<Rightarrow> string \<Rightarrow> Manager \<Rightarrow> bool" where
  "under_limit n k m \<longleftrightarrow>
     (k = KindShell \<and> ShellPerNode m > 0 \<longrightarrow> int (CountByNode n k m) < ShellPerNode m)
     \<and> (k = KindDesktop \<and> DesktopPerNode m > 0 \<longrightarrow> int (CountByNode n k m) < DesktopPerNode m)"

lemma create_outcome:
  "(\<exists>r. fst (mgr_Create reg n u k p sid a c l t m) = Inr r) \<longleftrightarrow> Online n reg \<and> under_limit n k m"
  by (auto simp: mgr_Create_def Let_def under_limit_def CountByNode_def split: prod.splits)

lemma create_denied:
  "\<not> (Online n reg \<and> under_limit n k m) \<Longrightarrow> snd (mgr_Create reg n u k p sid a c l t m) = m"
  by (auto simp: mgr_Create_def Let_def under_limit_def CountByNode_def split: prod.splits)

definition opened :: "string \<Rightarrow> uuid \<Rightarrow> uuid \<Rightarrow> string \<Rightarrow> string \<Rightarrow> string \<Rightarrow> string \<Rightarrow> go_time \<Rightarrow> Manager \<Rightarrow> session" where
  "opened sid n u k p a c t m = (new_session sid n u k p a c t m)\<lparr>s_ttl := True\<rparr>"

lemma create_form:
  assumes "Online n reg" "under_limit n k m"
  shows "snd (mgr_Create reg n u k p sid a c l t m) =
     (let s = new_session sid n u k p a c t m; m1 = m\<lparr>m_sessions := tput sid s (m_sessions m)\<rparr>
      in upd_session sid (\<lambda>s. s\<lparr>s_ttl := True\<rparr>)
           (if k = KindDesktop then snd (grantDesktopLeaseLocked s l t m1) else m1))"
  using assms by (auto simp: mgr_Create_def Let_def under_limit_def CountByNode_def split: prod.splits)

lemma create_sessions:
  assumes "Online n reg" "under_limit n k m" and m': "m' = snd (mgr_Create reg n u k p sid a c l t m)"
  shows "tget (m_sessions m') i = (if i = sid then Some (opened sid n u k p a c t m) else tget (m_sessions m) i)"
    and "tok (m_sessions m) \<Longrightarrow> tok (m_sessions m')" and "tok (m_leases m) \<Longrightarrow> tok (m_leases m')"
    and "m_fx m' = m_fx m" "m_reaps m' = m_reaps m" "ShellPerNode m' = ShellPerNode m"
    "DesktopPerNode m' = DesktopPerNode m"
  unfolding m' create_form [OF assms(1,2)]
  by (simp_all add: Let_def upd_session_get opened_def)

lemma KindShell_Desktop [simp]: "KindShell \<noteq> KindDesktop"
  by (simp add: KindShell_def KindDesktop_def)

lemma create_mgr_inv:
  assumes "mgr_inv m" "mgr_pre (ECreate reg n u k p sid a c l t) m"
  shows "mgr_inv (snd (mgr_Create reg n u k p sid a c l t m))"
proof (cases "Online n reg \<and> under_limit n k m")
  case True
  let ?m = "snd (mgr_Create reg n u k p sid a c l t m)"
  note C = create_sessions [OF _ _ refl, of n reg k m u p sid a c l t]
  have fresh: "tget (m_sessions m) sid = None" "finishes sid m = 0" "sid \<notin> set (m_reaps m)"
    using assms(2) by simp_all
  have inv: "tok (m_sessions m)" "tok (m_leases m)" "close_inv m"
    using assms(1) by (simp_all add: mgr_inv_iff)
  have fin: "finishes i ?m = finishes i m" for i
    using True C(4) by (simp add: finishes_def)
  have ci: "close_inv ?m"
    unfolding close_inv_def fin using True inv(3) fresh C(1,5)
    by (auto simp: close_inv_def opened_def)
  have cnt: "CountByNode n' k' ?m = CountByNode n' k' m + (if n' = n \<and> k' = k then 1 else 0)" for n' k'
    unfolding CountByNode_def using True inv fresh C(1,2)
    by (subst count_insert [where ss = "m_sessions m" and sid = sid]) (auto simp: opened_def)
  show ?thesis
    using True assms(1) ci C(2,3,6,7) cnt
    by (auto simp: mgr_inv_iff under_limit_def)
next
  case False
  then show ?thesis using assms(1) by (simp add: create_denied)
qed

fun creates :: "mgr_event \<Rightarrow> string option" where
  "creates (ECreate reg n u k p sid a c l t) = Some sid"
| "creates _ = None"

lemma step_evolves: "creates e = None \<Longrightarrow> evolves m (mgr_step e m)"
  by (cases e) (simp_all add: NotifyClose_def attach_quiet quiet_ops quiet_evolves close_evolves
      expire_evolves sweep_evolves reap_evolves)

lemma step_close_inv: "creates e = None \<Longrightarrow> close_inv m \<Longrightarrow> close_inv (mgr_step e m)"
  by (cases e) (simp_all add: NotifyClose_def close_inv_close expire_close_inv sweep_close_inv
      reap_close_inv close_inv_quiet [OF _ attach_quiet] close_inv_quiet [OF _ quiet_ops(1)]
      close_inv_quiet [OF _ quiet_ops(2)] close_inv_quiet [OF _ quiet_ops(3)]
      close_inv_quiet [OF _ quiet_ops(4)] close_inv_quiet [OF _ quiet_ops(5)]
      close_inv_quiet [OF _ quiet_ops(6)] close_inv_quiet [OF _ quiet_ops(7)]
      close_inv_quiet [OF _ quiet_ops(8)])

lemma mgr_inv_step:
  assumes "mgr_inv m" "mgr_pre e m"
  shows "mgr_inv (mgr_step e m)"
proof (cases "creates e")
  case None
  then show ?thesis
    using assms(1) by (intro mgr_inv_evolves [OF assms(1)] step_evolves step_close_inv) (simp_all add: mgr_inv_iff)
next
  case (Some sid)
  then show ?thesis
    using assms create_mgr_inv by (cases e) simp_all
qed

interpretation mgr: inv_machine mgr_pre mgr_step mgr_inv
  by unfold_locales (rule mgr_inv_step)

subsection \<open>Tokens and callbacks over runs\<close>

definition token_burnt :: "string \<Rightarrow> string \<Rightarrow> Manager \<Rightarrow> bool" where
  "token_burnt side sid m \<longleftrightarrow> (\<forall>s. tget (m_sessions m) sid = Some s \<longrightarrow>
     (if side = ''agent'' then s_agentToken s else s_clientToken s) = [])"

lemma create_other:
  assumes "creates e = Some sid" "i \<noteq> sid"
  shows "tget (m_sessions (mgr_step e m)) i = tget (m_sessions m) i"
proof (cases e)
  case (ECreate reg n u k p j a c l t)
  then show ?thesis
    using assms create_sessions(1) [OF _ _ refl, of n reg k m u p j a c l t] create_denied [of n reg k m]
    by (cases "Online n reg \<and> under_limit n k m") auto
qed (use assms in simp_all)

interpretation burnt: inv_machine "\<lambda>e _. creates e \<noteq> Some sid" mgr_step "token_burnt side sid"
  for side sid
proof unfold_locales
  show "token_burnt side sid (mgr_step e m)" if b: "token_burnt side sid m" and c: "creates e \<noteq> Some sid" for m e
  proof (cases "creates e")
    case None
    then show ?thesis
      using step_evolves [OF None, of m] b
      by (fastforce simp: token_burnt_def evolves_def descends_def)
  next
    case (Some j)
    then show ?thesis using b c create_other [OF Some, of sid m] by (simp add: token_burnt_def)
  qed
qed

lemma attach_ok_burns:
  assumes "mgr_attach side sid token ws t m = (None, m1)" "sid \<noteq> []"
  shows "token_burnt side sid m1"
proof -
  have a: "attach_found side sid token ws t m = (None, m1)"
    using assms by (simp add: mgr_attach_def)
  then obtain s where s: "tget (m_sessions m) sid = Some s"
    by (cases "tget (m_sessions m) sid") (simp_all add: attach_found_def)
  with a obtain want where
    "tget (m_sessions m1) sid = Some (attach_session side want ws s)" "side = ''agent'' \<or> side = ''client''"
    by (auto simp: attach_found_def Let_def split: if_splits)
  then show ?thesis by (auto simp: token_burnt_def attach_session_def Let_def)
qed

lemma burnt_denied: "token_burnt side sid m \<Longrightarrow> sid \<noteq> [] \<Longrightarrow> fst (mgr_attach side sid token ws t m) \<noteq> None"
  by (auto simp: token_burnt_def mgr_attach_def attach_found_def Let_def split: option.splits)

definition awaiting :: "string \<Rightarrow> Manager \<Rightarrow> bool" where
  "awaiting sid m \<longleftrightarrow> finishes sid m = 0
     \<and> (\<exists>s. tget (m_sessions m) sid = Some s \<and> s_finish s \<and> \<not> s_closed s)"

definition settled :: "string \<Rightarrow> Manager \<Rightarrow> bool" where
  "settled sid m \<longleftrightarrow> finishes sid m = 1 \<and> (\<forall>s. tget (m_sessions m) sid = Some s \<longrightarrow> s_closed s)"

definition callback_inv :: "string \<Rightarrow> Manager \<Rightarrow> bool" where
  "callback_inv sid m \<longleftrightarrow> close_inv m \<and> (awaiting sid m \<or> settled sid m)"

lemma evolves_get:
  "evolves m m' \<Longrightarrow> tget (m_sessions m') sid = Some s' \<Longrightarrow>
     \<exists>s. tget (m_sessions m) sid = Some s \<and> descends s s'"
  by (simp add: evolves_def)

lemma quiet_get:
  assumes "quiet m m'" "tget (m_sessions m) sid = Some s"
  shows "\<exists>s'. tget (m_sessions m') sid = Some s' \<and> s_closed s' = s_closed s \<and> descends s s'"
proof -
  obtain s' where s': "tget (m_sessions m') sid = Some s'" "s_closed s' = s_closed s"
    using assms unfolding quiet_def by blast
  moreover have "descends s s'"
    using evolves_get [OF quiet_evolves [OF assms(1)] s'(1)] assms(2) by simp
  ultimately show ?thesis by blast
qed

lemma quiet_get_back:
  assumes "quiet m m'" "tget (m_sessions m') sid = Some s'"
  shows "\<exists>s. tget (m_sessions m) sid = Some s \<and> s_closed s' = s_closed s"
proof -
  obtain s where s: "tget (m_sessions m) sid = Some s"
    using evolves_get [OF quiet_evolves [OF assms(1)] assms(2)] by blast
  with quiet_get [OF assms(1) s] assms(2) show ?thesis by simp
qed

lemma callback_quiet:
  assumes c: "callback_inv sid m" and q: "quiet m m'"
  shows "callback_inv sid m'"
proof -
  have f: "finishes sid m' = finishes sid m" using q by (simp add: quiet_def)
  have "awaiting sid m'" if a: "awaiting sid m"
  proof -
    from a obtain s where s: "tget (m_sessions m) sid = Some s" "s_finish s" "\<not> s_closed s"
      by (auto simp: awaiting_def)
    from quiet_get [OF q s(1)] s a f show ?thesis
      by (auto simp: awaiting_def descends_def)
  qed
  moreover have "settled sid m'" if a: "settled sid m"
    using a f quiet_get_back [OF q] by (fastforce simp: settled_def)
  ultimately show ?thesis
    using c close_inv_quiet [OF _ q] by (auto simp: callback_inv_def)
qed

lemma callback_close:
  assumes c: "callback_inv sid m"
  shows "callback_inv sid (mgr_close i r rm m)"
proof (cases "\<exists>s. tget (m_sessions m) i = Some s \<and> \<not> s_closed s")
  case True
  then obtain s where s: "tget (m_sessions m) i = Some s" "\<not> s_closed s" by blast
  have ci: "close_inv m" using c by (simp add: callback_inv_def)
  note F = close_finishes [OF s close_invD(1) [OF ci s(1)]]
  have "awaiting sid (mgr_close i r rm m) \<or> settled sid (mgr_close i r rm m)"
    using c s unfolding callback_inv_def awaiting_def settled_def close_open(1) [OF s] F
    by (cases "i = sid") (auto split: if_splits)
  then show ?thesis
    using close_inv_close [OF ci] by (simp add: callback_inv_def)
next
  case False
  then have "mgr_close i r rm m = m"
    by (cases "tget (m_sessions m) i") (simp_all add: mgr_close_def)
  then show ?thesis using c by simp
qed

lemma callback_expire:
  assumes c: "callback_inv sid m"
  shows "callback_inv sid (expire i t m)"
proof (cases rule: expire_cases [of i t m])
  case (2 s)
  let ?m = "mgr_close i ''opening-timeout'' False (upd_session i (\<lambda>s. s\<lparr>s_expiresAt := t\<rparr>) m)"
  have "callback_inv sid ?m"
    by (rule callback_close [OF callback_quiet [OF c expires_quiet]])
  moreover have "close_inv (expire i t m)"
    using c by (intro expire_close_inv) (simp add: callback_inv_def)
  ultimately show ?thesis
    by (simp add: 2 Let_def callback_inv_def awaiting_def settled_def finishes_def)
qed (use c in simp)

lemma callback_fold: "callback_inv sid m \<Longrightarrow> callback_inv sid (fold (\<lambda>(i, r). NotifyClose i r) es m)"
  by (induction es arbitrary: m) (auto simp: NotifyClose_def callback_close)

lemma callback_sweep: "callback_inv sid m \<Longrightarrow> callback_inv sid (sweep t m)"
  unfolding sweep_def Let_def
  by (rule callback_fold) (rule callback_quiet [OF _ sweep_leases_quiet])

lemma callback_reap:
  "callback_inv sid m \<Longrightarrow> i \<in> set (m_reaps m) \<Longrightarrow> callback_inv sid (expire_reap i m)"
  using close_invD(4) [of m sid] reap_close_inv [of m i]
  by (auto simp: callback_inv_def awaiting_def settled_def expire_reap_def finishes_def)

lemma callback_create:
  assumes "callback_inv sid m" "mgr_pre (ECreate reg n u k p i a c l t) m"
  shows "callback_inv sid (snd (mgr_Create reg n u k p i a c l t m))"
proof (cases "Online n reg \<and> under_limit n k m")
  case True
  let ?m = "snd (mgr_Create reg n u k p i a c l t m)"
  note C = create_sessions [OF _ _ refl, of n reg k m u p i a c l t]
  have i: "i \<noteq> sid"
    using assms by (auto simp: callback_inv_def awaiting_def settled_def)
  have fin: "finishes j ?m = finishes j m" for j
    using True C(4) by (simp add: finishes_def)
  have "close_inv ?m"
    unfolding close_inv_def fin using True assms C(1,5)
    by (auto simp: callback_inv_def close_inv_def opened_def)
  then show ?thesis
    using True assms(1) i C(1) fin by (simp add: callback_inv_def awaiting_def settled_def)
next
  case False
  then show ?thesis using assms(1) by (simp add: create_denied)
qed

interpretation callback: inv_machine mgr_pre mgr_step "callback_inv sid" for sid
proof unfold_locales
  show "callback_inv sid (mgr_step e m)" if "callback_inv sid m" "mgr_pre e m" for m e
    using that callback_create
    by (cases e) (simp_all add: NotifyClose_def callback_close callback_expire callback_sweep callback_reap
        callback_quiet [OF _ attach_quiet] callback_quiet [OF _ quiet_ops(1)] callback_quiet [OF _ quiet_ops(2)]
        callback_quiet [OF _ quiet_ops(3)] callback_quiet [OF _ quiet_ops(4)] callback_quiet [OF _ quiet_ops(5)]
        callback_quiet [OF _ quiet_ops(6)] callback_quiet [OF _ quiet_ops(7)] callback_quiet [OF _ quiet_ops(8)])
qed

subsection \<open>What a sweep does\<close>

lemma notify_sessions:
  "tget (m_sessions (NotifyClose i r m)) sid =
     (case tget (m_sessions m) sid of None \<Rightarrow> None
      | Some s \<Rightarrow> if i = sid \<and> \<not> s_closed s then None else Some s)"
  by (auto simp: NotifyClose_def mgr_close_def Let_def split: option.splits)

lemma notify_leases:
  assumes "\<And>j s. tget (m_sessions m) j = Some s \<Longrightarrow> s_ID s = j"
  shows "tget (m_leases (NotifyClose i r m)) n =
     (case tget (m_leases m) n of None \<Rightarrow> None
      | Some l \<Rightarrow> if dl_SessionID l = i \<and> (\<exists>s. tget (m_sessions m) i = Some s \<and> \<not> s_closed s \<and> s_NodeID s = n)
                 then None else Some l)"
  using assms [of i] by (auto simp: NotifyClose_def mgr_close_def Let_def split: option.splits)

lemma notify_fx:
  "m_fx (NotifyClose i r m) = m_fx m @ (case tget (m_sessions m) i of None \<Rightarrow> []
     | Some s \<Rightarrow> if s_closed s then [] else close_effects s r)"
  by (auto simp: NotifyClose_def mgr_close_def Let_def split: option.splits)

abbreviation notify_all :: "(string \<times> string) list \<Rightarrow> Manager \<Rightarrow> Manager" where
  "notify_all es m \<equiv> fold (\<lambda>(sid, r). NotifyClose sid r) es m"

lemma notify_all_sessions:
  "tget (m_sessions (notify_all es m)) sid =
     (case tget (m_sessions m) sid of None \<Rightarrow> None
      | Some s \<Rightarrow> if sid \<in> fst ` set es \<and> \<not> s_closed s then None else Some s)"
  by (induction es arbitrary: m) (auto simp: notify_sessions split: option.splits if_splits)

lemma notify_all_leases:
  assumes "\<And>j s. tget (m_sessions m) j = Some s \<Longrightarrow> s_ID s = j"
  shows "tget (m_leases (notify_all es m)) n =
     (case tget (m_leases m) n of None \<Rightarrow> None
      | Some l \<Rightarrow> if dl_SessionID l \<in> fst ` set es
                    \<and> (\<exists>s. tget (m_sessions m) (dl_SessionID l) = Some s \<and> \<not> s_closed s \<and> s_NodeID s = n)
                 then None else Some l)"
  using assms
proof (induction es arbitrary: m)
  case (Cons e es)
  obtain i r where e: "e = (i, r)" by (cases e)
  have ids: "s_ID s = j" if "tget (m_sessions (NotifyClose i r m)) j = Some s" for j s
    using that Cons.prems by (auto simp: notify_sessions split: option.splits if_splits)
  have IH: "tget (m_leases (notify_all es (NotifyClose i r m))) n =
     (case tget (m_leases (NotifyClose i r m)) n of None \<Rightarrow> None
      | Some l \<Rightarrow> if dl_SessionID l \<in> fst ` set es \<and> (\<exists>s. tget (m_sessions (NotifyClose i r m)) (dl_SessionID l)
            = Some s \<and> \<not> s_closed s \<and> s_NodeID s = n) then None else Some l)"
    by (rule Cons.IH) (rule ids)
  show ?case
    using e
    by (cases "tget (m_leases m) n"; cases "tget (m_sessions m) (dl_SessionID (the (tget (m_leases m) n)))")
      (auto simp: IH notify_leases [OF Cons.prems] notify_sessions)
qed (simp split: option.splits)

lemma notify_all_fx:
  "distinct (map fst es) \<Longrightarrow> m_fx (notify_all es m) = m_fx m @ concat (map (\<lambda>(i, r).
     case tget (m_sessions m) i of None \<Rightarrow> [] | Some s \<Rightarrow> if s_closed s then [] else close_effects s r) es)"
proof (induction es arbitrary: m)
  case (Cons e es)
  obtain i r where e: "e = (i, r)" by (cases e)
  let ?g = "\<lambda>m (j, r). case tget (m_sessions m) j of None \<Rightarrow> []
        | Some s \<Rightarrow> if s_closed s then [] else close_effects s r"
  have "i \<notin> fst ` set es" using Cons.prems e by simp
  then have "map (?g (NotifyClose i r m)) es = map (?g m) es"
    by (intro map_cong refl) (auto simp: notify_sessions rev_image_eqI split: option.splits)
  then show ?case
    using Cons e by (simp add: notify_fx del: map_eq_conv)
qed simp

definition overdue :: "go_time \<Rightarrow> (string, session) table \<Rightarrow> (string \<times> string) list" where
  "overdue t ss = List.map_filter (\<lambda>(sid, s). map_option (Pair sid) (sweep_reason t s)) ss"

lemma overdue_Nil [simp]: "overdue t [] = []"
  by (simp add: overdue_def)

lemma overdue_Cons [simp]:
  "overdue t ((sid, s) # ss) = (case sweep_reason t s of None \<Rightarrow> overdue t ss | Some r \<Rightarrow> (sid, r) # overdue t ss)"
  by (simp add: overdue_def split: option.splits)

lemma overdue_keys: "set (map fst (overdue t ss)) \<subseteq> set (tkeys ss)"
  by (induction ss) (auto 0 3 split: option.splits)

lemma overdue_distinct: "tok ss \<Longrightarrow> distinct (map fst (overdue t ss))"
proof (induction ss)
  case (Cons e ss)
  then show ?case
    using overdue_keys [of t ss] by (cases e) (auto split: option.splits)
qed simp

lemma overdue_mem:
  "tok ss \<Longrightarrow> sid \<in> fst ` set (overdue t ss) \<longleftrightarrow> (\<exists>s. tget ss sid = Some s \<and> sweep_reason t s \<noteq> None)"
proof (induction ss)
  case (Cons e ss)
  obtain j s where e: "e = (j, s)" by (cases e)
  have "j \<notin> fst ` set (overdue t ss)"
    using Cons.prems e overdue_keys [of t ss] by auto
  moreover have "tget ss j = None" using Cons.prems e by (simp add: tget_absent)
  ultimately show ?case
    using Cons e by (auto split: option.splits)
qed simp

lemma sweep_notify: "sweep t m =
   notify_all (overdue t (m_sessions m)) (m\<lparr>m_leases := tfilter (\<lambda>_ l. \<not> lease_stale t m l) (m_leases m)\<rparr>)"
  by (simp add: sweep_def overdue_def Let_def)

subsection \<open>Properties\<close>

text \<open>C4. Session limits and callbacks over every run: from an empty manager with any configuration,
  after any sequence of creations (with fresh ids), attachments, touches, relay frames, lease
  operations, closes, expiries, delayed removals and sweeps, no node has more shell or desktop
  sessions than its configured limit (0 = unlimited) and no session's \<open>finish\<close> callback has run
  twice.\<close>

theorem manager_limits:
  assumes "m_sessions m0 = []" "m_leases m0 = []" "m_reaps m0 = []" "m_fx m0 = []"
    and "run_ok mgr_pre mgr_step es m0"
  shows "let m = fold mgr_step es m0 in
     (ShellPerNode m > 0 \<longrightarrow> (\<forall>n. int (CountByNode n KindShell m) \<le> ShellPerNode m))
     \<and> (DesktopPerNode m > 0 \<longrightarrow> (\<forall>n. int (CountByNode n KindDesktop m) \<le> DesktopPerNode m))
     \<and> (\<forall>sid. finishes sid m \<le> 1)"
proof -
  have "mgr_inv m0"
    using assms(1-4) by (simp add: mgr_inv_def CountByNode_def countByNodeLocked_def finishes_def)
  then have "mgr_inv (fold mgr_step es m0)"
    by (rule mgr.run_inv) (rule assms(5))
  then show ?thesis by (simp add: mgr_inv_def Let_def)
qed

definition demo_reg :: Registry where
  "demo_reg = Add \<lparr>conn_ptr = 1, conn_NodeID = ''n'', conn_Cancel = True, conn_LastBeat = 0, conn_Beats = 0\<rparr>
     registry_New"

lemma demo_online: "Online ''n'' demo_reg"
  by (simp add: demo_reg_def Online_def registry_New_def)

theorem manager_limits_witness:
  "let m = fold mgr_step [ECreate demo_reg ''n'' ''u'' KindShell [] ''s1'' ''a'' ''c'' [] 0,
        ECreate demo_reg ''n'' ''u'' KindShell [] ''s2'' ''a'' ''c'' [] 1] (manager_New\<lparr>ShellPerNode := 1\<rparr>) in
     (ShellPerNode m > 0 \<longrightarrow> (\<forall>n. int (CountByNode n KindShell m) \<le> ShellPerNode m))
     \<and> (DesktopPerNode m > 0 \<longrightarrow> (\<forall>n. int (CountByNode n KindDesktop m) \<le> DesktopPerNode m))
     \<and> (\<forall>sid. finishes sid m \<le> 1)"
  by (rule manager_limits)
    (simp_all add: manager_New_def finishes_def create_form demo_online under_limit_def CountByNode_def
      countByNodeLocked_def upd_session_def Let_def)

text \<open>C1. The \<open>finish\<close> callback (audit record, agent clean-up) of a session runs exactly once: from a
  state in which an open session has its callback registered, every run leads to a state in which
  either the session is still open and the callback has not run, or the callback has run once and
  the session is closed or gone, whichever mixture of peer disconnects, API closes, idle sweeps,
  opening time-outs and delayed removals happens.\<close>

theorem finish_exactly_once:
  assumes "mgr_inv m" "tget (m_sessions m) sid = Some s" "s_finish s" "\<not> s_closed s"
    and "run_ok mgr_pre mgr_step es m"
  shows "let m' = fold mgr_step es m in
     (finishes sid m' = 0 \<and> (\<exists>s'. tget (m_sessions m') sid = Some s' \<and> s_finish s' \<and> \<not> s_closed s'))
     \<or> (finishes sid m' = 1 \<and> (case tget (m_sessions m') sid of None \<Rightarrow> True | Some s' \<Rightarrow> s_closed s'))"
proof -
  have "callback_inv sid m"
    using assms(1-4) close_invD(3) [of m sid s] by (simp add: callback_inv_def awaiting_def mgr_inv_iff)
  then have "callback_inv sid (fold mgr_step es m)"
    by (rule callback.run_inv) (rule assms(5))
  then show ?thesis
    by (auto simp: callback_inv_def awaiting_def settled_def Let_def split: option.split)
qed

definition demo_mgr :: Manager where
  "demo_mgr = fold mgr_step [ECreate demo_reg ''n'' ''u'' KindExec [] ''s'' ''a'' ''c'' [] 0, ESetFinish ''s'']
     manager_New"

lemma demo_mgr_eq:
  "demo_mgr = manager_New\<lparr>m_sessions :=
     [(''s'', (opened ''s'' ''n'' ''u'' KindExec [] ''a'' ''c'' 0 manager_New)\<lparr>s_finish := True\<rparr>)]\<rparr>"
  by (simp add: demo_mgr_def create_form demo_online under_limit_def KindExec_def KindShell_def KindDesktop_def
      manager_New_def upd_session_def SetFinishFn_def opened_def new_session_def Let_def)

lemma demo_mgr_inv: "mgr_inv demo_mgr"
  by (simp add: demo_mgr_eq mgr_inv_def manager_New_def CountByNode_def countByNodeLocked_def finishes_def
      opened_def KindExec_def KindShell_def KindDesktop_def)

lemma demo_mgr_get: "tget (m_sessions demo_mgr) ''s'' =
    Some ((opened ''s'' ''n'' ''u'' KindExec [] ''a'' ''c'' 0 manager_New)\<lparr>s_finish := True\<rparr>)"
  by (simp add: demo_mgr_eq)

theorem finish_exactly_once_witness:
  "let m' = fold mgr_step [ENotifyClose ''s'' ''peer-disconnect'', ENotifyClose ''s'' ''again''] demo_mgr in
     (finishes ''s'' m' = 0 \<and> (\<exists>s'. tget (m_sessions m') ''s'' = Some s' \<and> s_finish s' \<and> \<not> s_closed s'))
     \<or> (finishes ''s'' m' = 1 \<and> (case tget (m_sessions m') ''s'' of None \<Rightarrow> True | Some s' \<Rightarrow> s_closed s'))"
  by (rule finish_exactly_once [OF demo_mgr_inv demo_mgr_get]) (simp_all add: opened_def)

text \<open>A session token admits one connection: once a side of a session has attached with its
  token, no later attach of that side to that session succeeds, with that token or any other, over
  every run that does not create a session of the same id.\<close>

theorem token_single_use:
  assumes "mgr_attach side sid token ws t m = (None, m1)" "sid \<noteq> []"
    and "list_all (\<lambda>e. creates e \<noteq> Some sid) es"
  shows "fst (mgr_attach side sid token' ws' t' (fold mgr_step es m1)) \<noteq> None"
proof -
  have "token_burnt side sid (fold mgr_step es m1)"
    using attach_ok_burns [OF assms(1,2)] assms(3) by (simp add: burnt.run_inv run_ok_list_all)
  then show ?thesis using assms(2) by (rule burnt_denied)
qed

theorem token_single_use_witness:
  "fst (mgr_attach ''agent'' ''s'' ''a'' 8 2
      (fold mgr_step [EFrame ''s'' 1] (snd (mgr_attach ''agent'' ''s'' ''a'' 7 1 demo_mgr)))) \<noteq> None"
  by (rule token_single_use [of "''agent''" "''s''" "''a''" 7 1 demo_mgr])
    (simp_all add: demo_mgr_eq mgr_attach_def attach_found_def attach_session_def opened_def Let_def
      openingTTL_def new_session_def KindExec_def KindShell_def KindDesktop_def manager_New_def)

text \<open>Creation: \<open>Create\<close> succeeds iff the node is online and under the limit of its kind, and a
  refusal changes nothing. On success the session is in the table, open, not glued, with the given
  tokens and 60 seconds to attach, and no other session changes. A desktop session gets the node's
  control lease iff there is none or its holder is gone or silent for longer than the TTL: creation
  never takes a live lease away.\<close>

theorem create_decision:
  "let (res, m') = mgr_Create reg n u k p sid a c l t m in
     (\<exists>r. res = Inr r) = (Online n reg \<and> under_limit n k m)
     \<and> (\<forall>e. res = Inl e \<longrightarrow> m' = m)
     \<and> (\<forall>r. res = Inr r \<longrightarrow>
          (\<forall>i. tget (m_sessions m') i =
             (if i = sid then Some (opened sid n u k p a c t m) else tget (m_sessions m) i))
          \<and> cr_LeaseGranted r =
              (k = KindDesktop \<and> \<not> holderAliveLocked (m\<lparr>m_sessions := tput sid (new_session sid n u k p a c t m) (m_sessions m)\<rparr>) n t)
          \<and> (\<forall>n'. mgr_owner m' n' = (if cr_LeaseGranted r \<and> n' = n then Some sid else mgr_owner m n')))"
proof -
  obtain res m' where r: "mgr_Create reg n u k p sid a c l t m = (res, m')"
    by (cases "mgr_Create reg n u k p sid a c l t m")
  let ?s = "new_session sid n u k p a c t m"
  let ?m1 = "m\<lparr>m_sessions := tput sid ?s (m_sessions m)\<rparr>"
  have ok: "(\<exists>x. res = Inr x) = (Online n reg \<and> under_limit n k m)"
    using create_outcome [of reg n u k p sid a c l t m] by (simp add: r)
  have den: "m' = m" if "res = Inl e" for e
    using that ok create_denied [of n reg k m u p sid a c l t] by (auto simp: r)
  have lease: "cr_LeaseGranted x = (k = KindDesktop \<and> \<not> holderAliveLocked ?m1 n t)"
    "mgr_owner m' n' = (if cr_LeaseGranted x \<and> n' = n then Some sid else mgr_owner m n')"
    if "res = Inr x" for x n'
  proof -
    have g: "fst (grantDesktopLeaseLocked ?s l t ?m1) \<noteq> None \<longleftrightarrow> \<not> holderAliveLocked ?m1 n t"
      by (auto simp: grantDesktopLeaseLocked_def holderAliveLocked_def Let_def split: option.splits)
    have o: "mgr_owner (snd (grantDesktopLeaseLocked ?s l t ?m1)) n' =
        (if n' = n \<and> \<not> holderAliveLocked ?m1 n t then Some sid else mgr_owner m n')"
      by (auto simp: grantDesktopLeaseLocked_def holderAliveLocked_def mgr_owner_def Let_def split: option.splits)
    have on: "Online n reg" "under_limit n k m" using that ok by auto
    have lg: "cr_LeaseGranted x = (k = KindDesktop \<and> fst (grantDesktopLeaseLocked ?s l t ?m1) \<noteq> None)"
      using r that by (auto simp: mgr_Create_def Let_def split: prod.splits if_splits)
    show "cr_LeaseGranted x = (k = KindDesktop \<and> \<not> holderAliveLocked ?m1 n t)"
      using lg g by simp
    moreover have "mgr_owner m' n' = (if k = KindDesktop then mgr_owner (snd (grantDesktopLeaseLocked ?s l t ?m1)) n'
        else mgr_owner m n')"
      using create_form [OF on, of u p sid a c l t] by (simp add: r Let_def mgr_owner_def)
    ultimately show "mgr_owner m' n' = (if cr_LeaseGranted x \<and> n' = n then Some sid else mgr_owner m n')"
      using o by auto
  qed
  have sess: "tget (m_sessions m') i = (if i = sid then Some (opened sid n u k p a c t m) else tget (m_sessions m) i)"
    if "res = Inr x" for x i
    using that ok create_sessions(1) [OF _ _ refl, of n reg k m u p sid a c l t i] by (auto simp: r)
  show ?thesis
    unfolding r Let_def prod.case using ok den lease sess by blast
qed

theorem create_decision_witness:
  "let (res, m') = mgr_Create demo_reg ''n'' ''u'' KindDesktop [] ''s'' ''a'' ''c'' (replicate 43 CHR ''x'') 0 manager_New
   in (\<exists>r. res = Inr r) \<and> mgr_owner m' ''n'' = Some ''s''"
  using create_decision [of demo_reg "''n''" "''u''" KindDesktop "[]" "''s''" "''a''" "''c''" "replicate 43 CHR ''x''" 0 manager_New]
  by (auto simp: demo_online under_limit_def CountByNode_def countByNodeLocked_def manager_New_def
      holderAliveLocked_def split: prod.splits)

text \<open>The janitor: after \<open>sweep\<close> a session is gone iff it was open and over its policy (a shell
  session past its lifetime or idle limit, a desktop session past its idle limit; other kinds are
  never swept), every other session is untouched, and a node's lease is gone iff its holder was
  absent, silent for longer than the lease TTL, or swept on that node. The log gains exactly the
  close effects of the swept sessions with their reasons.\<close>

theorem sweep_exact:
  assumes "mgr_inv m"
  shows "tget (m_sessions (sweep t m)) sid =
       (case tget (m_sessions m) sid of None \<Rightarrow> None
        | Some s \<Rightarrow> if \<not> s_closed s \<and> sweep_reason t s \<noteq> None then None else Some s)
     \<and> tget (m_leases (sweep t m)) n =
       (case tget (m_leases m) n of None \<Rightarrow> None
        | Some l \<Rightarrow>
            if lease_stale t m l \<or> (\<exists>s. tget (m_sessions m) (dl_SessionID l) = Some s
                \<and> \<not> s_closed s \<and> sweep_reason t s \<noteq> None \<and> s_NodeID s = n)
            then None else Some l)
     \<and> m_fx (sweep t m) = m_fx m @ concat (map (\<lambda>(sid, r).
         case tget (m_sessions m) sid of None \<Rightarrow> [] | Some s \<Rightarrow> if s_closed s then [] else close_effects s r)
         (overdue t (m_sessions m)))"
proof -
  have ok: "tok (m_sessions m)" "tok (m_leases m)" "\<And>j s. tget (m_sessions m) j = Some s \<Longrightarrow> s_ID s = j"
    using assms by (simp_all add: mgr_inv_def)
  let ?m1 = "m\<lparr>m_leases := tfilter (\<lambda>_ l. \<not> lease_stale t m l) (m_leases m)\<rparr>"
  have 1: "tget (m_sessions (sweep t m)) sid =
       (case tget (m_sessions m) sid of None \<Rightarrow> None
        | Some s \<Rightarrow> if \<not> s_closed s \<and> sweep_reason t s \<noteq> None then None else Some s)"
    by (auto simp: sweep_notify notify_all_sessions overdue_mem [OF ok(1)] split: option.splits)
  have ids: "\<And>j s. tget (m_sessions ?m1) j = Some s \<Longrightarrow> s_ID s = j" using ok(3) by simp
  have 2: "tget (m_leases (sweep t m)) n =
       (case tget (m_leases m) n of None \<Rightarrow> None
        | Some l \<Rightarrow>
            if lease_stale t m l \<or> (\<exists>s. tget (m_sessions m) (dl_SessionID l) = Some s
                \<and> \<not> s_closed s \<and> sweep_reason t s \<noteq> None \<and> s_NodeID s = n)
            then None else Some l)"
    unfolding sweep_notify
    by (subst notify_all_leases, erule ids, cases "tget (m_leases m) n")
      (auto simp: tget_tfilter [OF ok(2)] overdue_mem [OF ok(1)])
  have 3: "m_fx (sweep t m) = m_fx m @ concat (map (\<lambda>(sid, r).
         case tget (m_sessions m) sid of None \<Rightarrow> [] | Some s \<Rightarrow> if s_closed s then [] else close_effects s r)
         (overdue t (m_sessions m)))"
    unfolding sweep_notify notify_all_fx [OF overdue_distinct [OF ok(1)]] by simp
  from 1 2 3 show ?thesis by blast
qed

theorem sweep_exact_witness:
  "tget (m_sessions (sweep (10 * Hour) demo_mgr)) ''s'' = tget (m_sessions demo_mgr) ''s''"
  using sweep_exact [OF demo_mgr_inv, of "10 * Hour" "''s''" "''n''"]
  by (simp add: demo_mgr_get sweep_reason_def opened_def KindExec_def KindShell_def KindDesktop_def)

text \<open>The server-side control lease: \<open>TakeDesktopControl\<close> succeeds exactly for a session in the
  table when the node has no lease, the session holds it, the holder is gone or silent, or the last
  take-over lies at least the cool-down back. After a take-over from a live holder, every other
  session is refused during the cool-down as long as the new holder counts as alive, and the owner
  does not change; a release by anybody but the owner changes no owner.\<close>

theorem manager_lease:
  "fst (TakeDesktopControl n i tk now m) = (has_session m i \<and>
      (mgr_owner m n = None \<or> mgr_owner m n = Some i \<or> \<not> holderAliveLocked m n now
       \<or> \<not> time_Sub now (mgr_lastSteal m n) < DesktopStealCooldown m))
   \<and> (\<forall>m' reason j h t. TakeDesktopControl n i tk now m = (True, reason, m') \<and> mgr_owner m n = Some j \<and> j \<noteq> i
        \<and> holderAliveLocked m n now \<and> h \<noteq> i \<and> now \<le> t \<and> t < now + DesktopStealCooldown m
        \<and> DesktopStealCooldown m \<le> maxDuration \<and> holderAliveLocked m' n t \<longrightarrow>
        \<not> fst (TakeDesktopControl n h tk t m')
        \<and> mgr_owner (snd (snd (TakeDesktopControl n h tk t m'))) n = Some i
        \<and> mgr_owner (ReleaseDesktopControl n h m') n = Some i)"
proof -
  have f: "fst (take_outcome x) = fst x" "snd (take_outcome x) = snd (snd x)" for x
    by (simp_all add: take_outcome_def)
  have 1: "fst (TakeDesktopControl n i tk now m) = (has_session m i \<and>
      (mgr_owner m n = None \<or> mgr_owner m n = Some i \<or> \<not> holderAliveLocked m n now
       \<or> \<not> time_Sub now (mgr_lastSteal m n) < DesktopStealCooldown m))"
    using mgr_lease.take_iff [of n i tk now m] unfolding f .
  show ?thesis
  proof (intro conjI 1 allI impI; elim conjE)
    fix m' reason j h t
    assume a: "TakeDesktopControl n i tk now m = (True, reason, m')" "mgr_owner m n = Some j" "j \<noteq> i"
      "holderAliveLocked m n now" "h \<noteq> i" "now \<le> t" "t < now + DesktopStealCooldown m"
      "DesktopStealCooldown m \<le> maxDuration" "holderAliveLocked m' n t"
    note np = mgr_lease.no_ping_pong [of n i tk now m j h t, unfolded f, OF _ a(2-8)]
    show "\<not> fst (TakeDesktopControl n h tk t m')" "mgr_owner (snd (snd (TakeDesktopControl n h tk t m'))) n = Some i"
      using np a by simp_all
    have "mgr_owner m' n = Some i"
      using mgr_lease.take_owner [of n i tk now m n] a(1) unfolding f by simp
    then show "mgr_owner (ReleaseDesktopControl n h m') n = Some i"
      using mgr_lease.release_owner [of n h m' n] a(5) by simp
  qed
qed

theorem manager_lease_witness:
  "\<not> fst (TakeDesktopControl ''n'' ''s9'' ''tok'' 0 demo_mgr) \<and> fst (TakeDesktopControl ''n'' ''s'' ''tok'' 0 demo_mgr)"
  using manager_lease [of "''n''" "''s9''" "''tok''" 0 demo_mgr] manager_lease [of "''n''" "''s''" "''tok''" 0 demo_mgr]
  by (simp add: has_session_def demo_mgr_eq mgr_owner_def manager_New_def opened_def)

end
