(* ===== verification/Database.thy ===== *)
theory Database
  imports Registry
begin

text \<open>
  The server's database as the API handlers see it (\<open>src/server/internal/db/sqlc\<close>): the tables of the
  schema, one definition per query with the effect of its SQL statement, and the constraints of the
  schema (primary keys, unique indexes, checks, foreign keys) as the errors a statement can raise. The
  main result is that every writing statement keeps every constraint (\<open>db_wf\<close>).

  A UUID is its canonical text, a nullable column an option. A reading query gives \<open>None\<close> where the Go
  code sees an error: no row, or a statement that fails in this request (\<open>rq_fails\<close>, by query name). A
  writing query gives the PostgreSQL error or the new database; a failed statement changes nothing.
  The \<open>created_at\<close> columns are read by the audit query only and are kept there. What PostgreSQL
  and third-party packages decide (collation, UUID syntax, bcrypt, SHA-256, JSON web tokens) are fields of \<open>request\<close>.
\<close>

type_synonym uuid = string

record User =
  usr_Email :: string
  usr_DisplayName :: string
  usr_PasswordHash :: string
  usr_IsAdmin :: bool
  usr_LastLoginAt :: "go_time option"

record Cluster =
  cl_Name :: string
  cl_OwnerID :: uuid
  cl_DeletedAt :: "go_time option"
  cl_Personal :: bool

record Node =
  nd_ClusterID :: uuid
  nd_Name :: string
  nd_MachineID :: string
  nd_Hostname :: string
  nd_OsVersion :: string
  nd_AgentVersion :: string
  nd_ShellType :: string
  nd_PublicKey :: string
  nd_Status :: string
  nd_LastSeenAt :: "go_time option"
  nd_TargetRelease :: "string option"
  nd_Channel :: string
  nd_Platform :: string

record EnrollmentToken =
  et_ClusterID :: uuid
  et_TokenHash :: string
  et_ExpiresAt :: go_time
  et_MaxUses :: int
  et_UsedCount :: int
  et_CreatedBy :: uuid

record AuditLog =
  au_UserID :: "uuid option"
  au_ClusterID :: "uuid option"
  au_NodeID :: "uuid option"
  au_Action :: string
  au_Metadata :: "(string \<times> string) list"
  au_CreatedAt :: go_time

record db =
  db_users :: "(uuid, User) table"
  db_clusters :: "(uuid, Cluster) table"
  db_members :: "(uuid \<times> uuid, string) table"
  db_nodes :: "(uuid, Node) table"
  db_tokens :: "(uuid, EnrollmentToken) table"
  db_audit :: "AuditLog list"

definition db_empty :: db where
  "db_empty = \<lparr>db_users = [], db_clusters = [], db_members = [], db_nodes = [], db_tokens = [], db_audit = []\<rparr>"

record request =
  rq_now :: go_time
  rq_fails :: "string \<Rightarrow> bool"
  rq_parse :: "string \<Rightarrow> uuid option"
  rq_new :: "nat \<Rightarrow> uuid"
  rq_collate :: "string \<Rightarrow> int"
  rq_bcrypt :: "string \<Rightarrow> string option"
  rq_verify :: "string \<Rightarrow> string \<Rightarrow> bool"
  rq_sha256 :: "string \<Rightarrow> bytes"
  rq_rand :: "bytes option"
  rq_jwt :: "string \<Rightarrow> string option"
  rq_mkjwt :: "string \<Rightarrow> go_time \<Rightarrow> string option"

datatype db_error = NoRows | PgError string string | Unavailable

abbreviation unique_violation :: "string \<Rightarrow> db_error" where
  "unique_violation \<equiv> PgError ''23505''"

abbreviation foreign_key_violation :: "string \<Rightarrow> db_error" where
  "foreign_key_violation \<equiv> PgError ''23503''"

abbreviation check_violation :: "string \<Rightarrow> db_error" where
  "check_violation \<equiv> PgError ''23514''"

text \<open>How a request sees a query: \<open>rd\<close> for reading statements, \<open>wr\<close> for writing ones.\<close>

definition rd :: "request \<Rightarrow> string \<Rightarrow> 'a option \<Rightarrow> 'a option" where
  "rd q name r = (if rq_fails q name then None else r)"

definition wr :: "request \<Rightarrow> string \<Rightarrow> db_error + 'a \<Rightarrow> db_error + 'a" where
  "wr q name r = (if rq_fails q name then Inl Unavailable else r)"

lemma rd_Some: "rd q name r = Some x \<longleftrightarrow> \<not> rq_fails q name \<and> r = Some x"
  by (simp add: rd_def)

lemma rd_SomeD: "rd q name r = Some x \<Longrightarrow> r = Some x"
  by (simp add: rd_def split: if_splits)

lemma rd_None: "rd q name r = None \<longleftrightarrow> rq_fails q name \<or> r = None"
  by (simp add: rd_def)

lemma wr_InrD: "wr q name r = Inr x \<Longrightarrow> r = Inr x"
  by (simp add: wr_def split: if_splits)

subsection \<open>Unique indexes\<close>

text \<open>A unique index is given by its key, \<open>None\<close> for rows outside a partial index. \<open>clash f k v t\<close>: the row \<open>v\<close>
  stored under the primary key \<open>k\<close> would collide in the index with another row of the table.\<close>

definition clash :: "('v \<Rightarrow> 'b option) \<Rightarrow> 'k \<Rightarrow> 'v \<Rightarrow> ('k, 'v) table \<Rightarrow> bool" where
  "clash f k v t \<longleftrightarrow> f v \<noteq> None \<and> list_ex (\<lambda>(j, b). j \<noteq> k \<and> f b = f v) t"

definition uniq :: "('v \<Rightarrow> 'b option) \<Rightarrow> ('k, 'v) table \<Rightarrow> bool" where
  "uniq f t \<longleftrightarrow> (\<forall>i j a b x. tget t i = Some a \<and> tget t j = Some b \<and> f a = Some x \<and> f b = Some x \<longrightarrow> i = j)"

lemma clash_iff:
  "tok t \<Longrightarrow> clash f k v t \<longleftrightarrow> f v \<noteq> None \<and> (\<exists>j b. j \<noteq> k \<and> tget t j = Some b \<and> f b = f v)"
  by (auto simp: clash_def list_ex_iff tget_in_set)

lemma uniq_empty [simp]: "uniq f []"
  by (simp add: uniq_def)

lemma uniq_tput: "tok t \<Longrightarrow> uniq f t \<Longrightarrow> \<not> clash f k v t \<Longrightarrow> uniq f (tput k v t)"
  unfolding uniq_def by (auto simp: clash_iff split: if_splits)

lemma uniq_tput_same:
  "uniq f t \<Longrightarrow> tget t k = Some u \<Longrightarrow> f v = f u \<Longrightarrow> uniq f (tput k v t)"
  unfolding uniq_def by (auto split: if_splits)

lemma uniq_tput_None: "uniq f t \<Longrightarrow> f v = None \<Longrightarrow> uniq f (tput k v t)"
  unfolding uniq_def by (auto split: if_splits)

lemma uniq_tdel: "uniq f t \<Longrightarrow> uniq f (tdel k t)"
  unfolding uniq_def by (auto split: if_splits)

lemma uniq_tfilter: "tok t \<Longrightarrow> uniq f t \<Longrightarrow> uniq f (tfilter p t)"
  unfolding uniq_def by (auto simp: tget_tfilter split: option.splits if_splits)

definition email_key :: "User \<Rightarrow> string option" where
  "email_key u = Some (usr_Email u)"

definition live_name_key :: "Cluster \<Rightarrow> string option" where
  "live_name_key c = (if cl_DeletedAt c = None then Some (cl_Name c) else None)"

definition node_name_key :: "Node \<Rightarrow> (uuid \<times> string) option" where
  "node_name_key n = Some (nd_ClusterID n, nd_Name n)"

definition machine_key :: "Node \<Rightarrow> string option" where
  "machine_key n = Some (nd_MachineID n)"

definition hash_key :: "EnrollmentToken \<Rightarrow> string option" where
  "hash_key t = Some (et_TokenHash t)"

definition validRoles :: "string list" where
  "validRoles = [''owner'', ''operator'', ''viewer'']"

definition validStatuses :: "string list" where
  "validStatuses = [''online'', ''offline'', ''disabled'']"

subsection \<open>Users\<close>

definition CountUsers :: "db \<Rightarrow> nat" where
  "CountUsers d = length (db_users d)"

definition GetUserByID :: "uuid \<Rightarrow> db \<Rightarrow> User option" where
  "GetUserByID i d = tget (db_users d) i"

definition GetUserByEmail :: "string \<Rightarrow> db \<Rightarrow> (uuid \<times> User) option" where
  "GetUserByEmail em d = List.find (\<lambda>(i, u). usr_Email u = em) (db_users d)"

definition CountUsersByEmail :: "string \<Rightarrow> db \<Rightarrow> nat" where
  "CountUsersByEmail em d = length (filter (\<lambda>(i, u). usr_Email u = em) (db_users d))"

definition CountAdmins :: "db \<Rightarrow> nat" where
  "CountAdmins d = length (filter (\<lambda>(i, u). usr_IsAdmin u) (db_users d))"

definition ListUsers :: "request \<Rightarrow> db \<Rightarrow> (uuid \<times> User) list" where
  "ListUsers q d = sort_key (\<lambda>(i, u). rq_collate q (usr_Email u)) (db_users d)"

definition CreateUser :: "uuid \<Rightarrow> string \<Rightarrow> string \<Rightarrow> string \<Rightarrow> bool \<Rightarrow> db \<Rightarrow> db_error + db" where
  "CreateUser i em name h adm d =
     (let u = \<lparr>usr_Email = em, usr_DisplayName = name, usr_PasswordHash = h, usr_IsAdmin = adm, usr_LastLoginAt = None\<rparr> in
      if tget (db_users d) i \<noteq> None then Inl (unique_violation ''users_pkey'')
      else if clash email_key i u (db_users d) then Inl (unique_violation ''users_email_key'')
      else Inr (d\<lparr>db_users := tput i u (db_users d)\<rparr>))"

text \<open>\<open>CreateUserByEmail\<close> leaves the key to \<open>gen_random_uuid()\<close> and the admin flag to its default.\<close>

definition CreateUserByEmail :: "uuid \<Rightarrow> string \<Rightarrow> string \<Rightarrow> string \<Rightarrow> db \<Rightarrow> db_error + db" where
  "CreateUserByEmail gen em name h d = CreateUser gen em name h False d"

definition upd_user :: "uuid \<Rightarrow> (User \<Rightarrow> User) \<Rightarrow> db \<Rightarrow> db" where
  "upd_user i f d = (case tget (db_users d) i of None \<Rightarrow> d | Some u \<Rightarrow> d\<lparr>db_users := tput i (f u) (db_users d)\<rparr>)"

definition UpdateUserDisplayName :: "uuid \<Rightarrow> string \<Rightarrow> db \<Rightarrow> db" where
  "UpdateUserDisplayName i name = upd_user i (\<lambda>u. u\<lparr>usr_DisplayName := name\<rparr>)"

definition UpdateUserPassword :: "uuid \<Rightarrow> string \<Rightarrow> db \<Rightarrow> db" where
  "UpdateUserPassword i h = upd_user i (\<lambda>u. u\<lparr>usr_PasswordHash := h\<rparr>)"

definition TouchUserLogin :: "uuid \<Rightarrow> go_time \<Rightarrow> db \<Rightarrow> db" where
  "TouchUserLogin i t = upd_user i (\<lambda>u. u\<lparr>usr_LastLoginAt := Some t\<rparr>)"

definition UpdateUserIsAdmin :: "uuid \<Rightarrow> bool \<Rightarrow> db \<Rightarrow> nat \<times> db" where
  "UpdateUserIsAdmin i b d =
     (if tget (db_users d) i \<noteq> None \<and> (b \<or> CountAdmins d > 1)
      then (1, upd_user i (\<lambda>u. u\<lparr>usr_IsAdmin := b\<rparr>) d) else (0, d))"

definition CountNodesInOwnedClusters :: "uuid \<Rightarrow> db \<Rightarrow> nat" where
  "CountNodesInOwnedClusters i d = length (filter (\<lambda>(k, n).
     case tget (db_clusters d) (nd_ClusterID n) of None \<Rightarrow> False | Some c \<Rightarrow> cl_OwnerID c = i) (db_nodes d))"

text \<open>Deleting cluster rows: members and tokens cascade, a remaining node blocks the statement.\<close>

definition DeleteOwnedClusters :: "uuid \<Rightarrow> db \<Rightarrow> db_error + db" where
  "DeleteOwnedClusters i d =
     (let keep = (\<lambda>c. case tget (db_clusters d) c of None \<Rightarrow> True | Some r \<Rightarrow> cl_OwnerID r \<noteq> i) in
      if list_ex (\<lambda>(k, n). \<not> keep (nd_ClusterID n)) (db_nodes d)
      then Inl (foreign_key_violation ''nodes_cluster_id_fkey'')
      else Inr (d\<lparr>db_clusters := tfilter (\<lambda>c _. keep c) (db_clusters d),
                  db_members := tfilter (\<lambda>(c, u) _. keep c) (db_members d),
                  db_tokens := tfilter (\<lambda>_ t. keep (et_ClusterID t)) (db_tokens d)\<rparr>))"

text \<open>Deleting a user row: memberships cascade, audit rows keep an empty actor; a cluster that names
  the user as its owner and an enrollment token that names the user as its creator block the statement.\<close>

definition DeleteUser :: "uuid \<Rightarrow> db \<Rightarrow> db_error + db" where
  "DeleteUser i d =
     (if list_ex (\<lambda>(c, r). cl_OwnerID r = i) (db_clusters d) then Inl (foreign_key_violation ''clusters_owner_id_fkey'')
      else if list_ex (\<lambda>(k, t). et_CreatedBy t = i) (db_tokens d)
      then Inl (foreign_key_violation ''enrollment_tokens_created_by_fkey'')
      else Inr (d\<lparr>db_users := tdel i (db_users d),
                  db_members := tfilter (\<lambda>(c, u) _. u \<noteq> i) (db_members d),
                  db_audit := map (\<lambda>a. if au_UserID a = Some i then a\<lparr>au_UserID := None\<rparr> else a) (db_audit d)\<rparr>))"

subsection \<open>Clusters and members\<close>

definition live :: "Cluster \<Rightarrow> bool" where
  "live c \<longleftrightarrow> cl_DeletedAt c = None"

definition GetClusterByID :: "uuid \<Rightarrow> db \<Rightarrow> (uuid \<times> Cluster) option" where
  "GetClusterByID i d = (case tget (db_clusters d) i of None \<Rightarrow> None | Some c \<Rightarrow> if live c then Some (i, c) else None)"

definition GetClusterByName :: "string \<Rightarrow> db \<Rightarrow> (uuid \<times> Cluster) option" where
  "GetClusterByName name d = List.find (\<lambda>(i, c). cl_Name c = name \<and> live c) (db_clusters d)"

definition CreateCluster :: "uuid \<Rightarrow> string \<Rightarrow> uuid \<Rightarrow> bool \<Rightarrow> db \<Rightarrow> db_error + db" where
  "CreateCluster i name owner pers d =
     (let c = \<lparr>cl_Name = name, cl_OwnerID = owner, cl_DeletedAt = None, cl_Personal = pers\<rparr> in
      if tget (db_clusters d) i \<noteq> None then Inl (unique_violation ''clusters_pkey'')
      else if clash live_name_key i c (db_clusters d) then Inl (unique_violation ''clusters_name_live_key'')
      else if tget (db_users d) owner = None then Inl (foreign_key_violation ''clusters_owner_id_fkey'')
      else Inr (d\<lparr>db_clusters := tput i c (db_clusters d)\<rparr>))"

definition RenameCluster :: "uuid \<Rightarrow> string \<Rightarrow> db \<Rightarrow> db_error + db" where
  "RenameCluster i name d =
     (case GetClusterByID i d of
        None \<Rightarrow> Inl NoRows
      | Some (_, c) \<Rightarrow>
          if clash live_name_key i (c\<lparr>cl_Name := name\<rparr>) (db_clusters d)
          then Inl (unique_violation ''clusters_name_live_key'')
          else Inr (d\<lparr>db_clusters := tput i (c\<lparr>cl_Name := name\<rparr>) (db_clusters d)\<rparr>))"

definition SoftDeleteCluster :: "uuid \<Rightarrow> go_time \<Rightarrow> db \<Rightarrow> nat \<times> db" where
  "SoftDeleteCluster i now d =
     (case GetClusterByID i d of
        None \<Rightarrow> (0, d)
      | Some (_, c) \<Rightarrow> (1, d\<lparr>db_clusters := tput i (c\<lparr>cl_DeletedAt := Some now\<rparr>) (db_clusters d)\<rparr>))"

definition CountNodesInCluster :: "uuid \<Rightarrow> db \<Rightarrow> nat" where
  "CountNodesInCluster c d = length (filter (\<lambda>(k, n). nd_ClusterID n = c) (db_nodes d))"

definition GetMemberRole :: "uuid \<Rightarrow> uuid \<Rightarrow> db \<Rightarrow> string option" where
  "GetMemberRole c u d = tget (db_members d) (c, u)"

definition CountClusterOwners :: "uuid \<Rightarrow> db \<Rightarrow> nat" where
  "CountClusterOwners c d = length (filter (\<lambda>((c', u), r). c' = c \<and> r = ''owner'') (db_members d))"

definition CountOwnedLiveClusters :: "uuid \<Rightarrow> db \<Rightarrow> nat" where
  "CountOwnedLiveClusters u d = length (filter (\<lambda>((c, u'), r).
     u' = u \<and> r = ''owner'' \<and> GetClusterByID c d \<noteq> None) (db_members d))"

definition AddMember :: "uuid \<Rightarrow> uuid \<Rightarrow> string \<Rightarrow> db \<Rightarrow> db_error + db" where
  "AddMember c u r d =
     (if r \<notin> set validRoles then Inl (check_violation ''cluster_members_role_check'')
      else if tget (db_members d) (c, u) \<noteq> None then Inl (unique_violation ''cluster_members_pkey'')
      else if tget (db_clusters d) c = None then Inl (foreign_key_violation ''cluster_members_cluster_id_fkey'')
      else if tget (db_users d) u = None then Inl (foreign_key_violation ''cluster_members_user_id_fkey'')
      else Inr (d\<lparr>db_members := tput (c, u) r (db_members d)\<rparr>))"

text \<open>\<open>AddMembership\<close>: \<open>ON CONFLICT DO NOTHING\<close>.\<close>

definition AddMembership :: "uuid \<Rightarrow> uuid \<Rightarrow> string \<Rightarrow> db \<Rightarrow> db_error + db" where
  "AddMembership c u r d =
     (if r \<in> set validRoles \<and> tget (db_members d) (c, u) \<noteq> None then Inr d else AddMember c u r d)"

definition RemoveMemberGuarded :: "uuid \<Rightarrow> uuid \<Rightarrow> db \<Rightarrow> nat \<times> db" where
  "RemoveMemberGuarded c u d =
     (case tget (db_members d) (c, u) of
        None \<Rightarrow> (0, d)
      | Some r \<Rightarrow> if r \<noteq> ''owner'' \<or> CountClusterOwners c d > 1
                  then (1, d\<lparr>db_members := tdel (c, u) (db_members d)\<rparr>) else (0, d))"

definition UpdateMemberRole :: "uuid \<Rightarrow> uuid \<Rightarrow> string \<Rightarrow> db \<Rightarrow> db_error + nat \<times> db" where
  "UpdateMemberRole c u new d =
     (case tget (db_members d) (c, u) of
        None \<Rightarrow> Inr (0, d)
      | Some r \<Rightarrow>
          if r \<noteq> ''owner'' \<or> new = ''owner'' \<or> CountClusterOwners c d > 1
          then (if new \<notin> set validRoles then Inl (check_violation ''cluster_members_role_check'')
                else Inr (1, d\<lparr>db_members := tput (c, u) new (db_members d)\<rparr>))
          else Inr (0, d))"

definition ListMembers :: "request \<Rightarrow> uuid \<Rightarrow> db \<Rightarrow> (uuid \<times> string \<times> string \<times> string) list" where
  "ListMembers q c d = sort_key (\<lambda>(u, em, _). rq_collate q em)
     (concat (map (\<lambda>((c', u), r). if c' = c then
        (case tget (db_users d) u of None \<Rightarrow> [] | Some w \<Rightarrow> [(u, usr_Email w, usr_DisplayName w, r)]) else [])
        (db_members d)))"

record ClusterRow =
  clr_ID :: uuid
  clr_Name :: string
  clr_Personal :: bool
  clr_Role :: string
  clr_MemberCount :: nat
  clr_NodeCount :: nat

definition ListClustersForUser :: "request \<Rightarrow> uuid \<Rightarrow> db \<Rightarrow> ClusterRow list" where
  "ListClustersForUser q u d = sort_key (\<lambda>r. rq_collate q (clr_Name r))
     (concat (map (\<lambda>((c, u'), r). if u' = u then
        (case GetClusterByID c d of None \<Rightarrow> []
         | Some (_, w) \<Rightarrow> [\<lparr>clr_ID = c, clr_Name = cl_Name w, clr_Personal = cl_Personal w, clr_Role = r,
             clr_MemberCount = length (filter (\<lambda>((c', _), _). c' = c) (db_members d)),
             clr_NodeCount = CountNodesInCluster c d\<rparr>]) else [])
        (db_members d)))"

subsection \<open>Nodes and enrollment tokens\<close>

definition GetNodeByID :: "uuid \<Rightarrow> db \<Rightarrow> Node option" where
  "GetNodeByID i d = tget (db_nodes d) i"

definition GetNodeByIdentity :: "uuid \<Rightarrow> string \<Rightarrow> db \<Rightarrow> (uuid \<times> Node) option" where
  "GetNodeByIdentity c m d = List.find (\<lambda>(i, n). nd_ClusterID n = c \<and> nd_MachineID n = m) (db_nodes d)"

definition GetNodeByNameInCluster :: "uuid \<Rightarrow> string \<Rightarrow> db \<Rightarrow> (uuid \<times> Node) option" where
  "GetNodeByNameInCluster c name d = List.find (\<lambda>(i, n). nd_ClusterID n = c \<and> nd_Name n = name) (db_nodes d)"

text \<open>\<open>LIMIT 1\<close> without an order: the first match in table order.\<close>

definition GetMachineIDConflictCluster :: "string \<Rightarrow> uuid \<Rightarrow> db \<Rightarrow> string option" where
  "GetMachineIDConflictCluster m c d =
     (case List.find (\<lambda>(i, n). nd_MachineID n = m \<and> nd_ClusterID n \<noteq> c \<and> GetClusterByID (nd_ClusterID n) d \<noteq> None)
        (db_nodes d) of
        None \<Rightarrow> None
      | Some (i, n) \<Rightarrow> map_option (\<lambda>(_, w). cl_Name w) (GetClusterByID (nd_ClusterID n) d))"

text \<open>The constraints PostgreSQL checks when a node row is written.\<close>

definition node_conflict :: "uuid \<Rightarrow> Node \<Rightarrow> db \<Rightarrow> db_error option" where
  "node_conflict i n d =
     (if nd_Status n \<notin> set validStatuses then Some (check_violation ''nodes_status_check'')
      else if clash node_name_key i n (db_nodes d) then Some (unique_violation ''nodes_cluster_id_name_key'')
      else if clash machine_key i n (db_nodes d) then Some (unique_violation ''nodes_machine_id_key'')
      else if tget (db_clusters d) (nd_ClusterID n) = None then Some (foreign_key_violation ''nodes_cluster_id_fkey'')
      else None)"

definition put_node :: "uuid \<Rightarrow> Node \<Rightarrow> db \<Rightarrow> db_error + db" where
  "put_node i n d = (case node_conflict i n d of Some e \<Rightarrow> Inl e
     | None \<Rightarrow> Inr (d\<lparr>db_nodes := tput i n (db_nodes d)\<rparr>))"

definition CreateNode :: "uuid \<Rightarrow> Node \<Rightarrow> db \<Rightarrow> db_error + db" where
  "CreateNode i n d =
     (if tget (db_nodes d) i \<noteq> None then Inl (unique_violation ''nodes_pkey'') else put_node i n d)"

definition AdoptNodeIdentity :: "string \<Rightarrow> string \<Rightarrow> string \<Rightarrow> string \<Rightarrow> string \<Rightarrow> uuid \<Rightarrow> db \<Rightarrow> db_error + Node \<times> db" where
  "AdoptNodeIdentity key host osv agentv plat i d =
     (case tget (db_nodes d) i of
        None \<Rightarrow> Inl NoRows
      | Some n \<Rightarrow>
          let n' = n\<lparr>nd_PublicKey := key, nd_Hostname := host, nd_OsVersion := osv, nd_AgentVersion := agentv,
                     nd_ShellType := '''', nd_LastSeenAt := None, nd_Platform := plat\<rparr>
          in Inr (n', d\<lparr>db_nodes := tput i n' (db_nodes d)\<rparr>))"

definition DeleteNode :: "uuid \<Rightarrow> db \<Rightarrow> nat \<times> db" where
  "DeleteNode i d = (if tget (db_nodes d) i = None then (0, d) else (1, d\<lparr>db_nodes := tdel i (db_nodes d)\<rparr>))"

definition MoveNodeCluster :: "uuid \<Rightarrow> uuid \<Rightarrow> string \<Rightarrow> uuid \<Rightarrow> db \<Rightarrow> db_error + nat \<times> db" where
  "MoveNodeCluster i c name src d =
     (case tget (db_nodes d) i of
        None \<Rightarrow> Inr (0, d)
      | Some n \<Rightarrow>
          if nd_ClusterID n \<noteq> src then Inr (0, d)
          else (case put_node i (n\<lparr>nd_ClusterID := c, nd_Name := name\<rparr>) d of
                  Inl e \<Rightarrow> Inl e | Inr d' \<Rightarrow> Inr (1, d')))"

definition RenameNode :: "uuid \<Rightarrow> string \<Rightarrow> db \<Rightarrow> db_error + db" where
  "RenameNode i name d =
     (case tget (db_nodes d) i of None \<Rightarrow> Inl NoRows | Some n \<Rightarrow> put_node i (n\<lparr>nd_Name := name\<rparr>) d)"

definition upd_node :: "uuid \<Rightarrow> (Node \<Rightarrow> Node) \<Rightarrow> db \<Rightarrow> db" where
  "upd_node i f d = (case tget (db_nodes d) i of None \<Rightarrow> d | Some n \<Rightarrow> d\<lparr>db_nodes := tput i (f n) (db_nodes d)\<rparr>)"

definition SetNodeStatus :: "uuid \<Rightarrow> string \<Rightarrow> db \<Rightarrow> db_error + db" where
  "SetNodeStatus i st d =
     (if tget (db_nodes d) i \<noteq> None \<and> st \<notin> set validStatuses then Inl (check_violation ''nodes_status_check'')
      else Inr (upd_node i (\<lambda>n. n\<lparr>nd_Status := st\<rparr>) d))"

definition TouchNode :: "uuid \<Rightarrow> go_time \<Rightarrow> db \<Rightarrow> db" where
  "TouchNode i now = upd_node i (\<lambda>n. n\<lparr>nd_LastSeenAt := Some now\<rparr>)"

definition UpdateNodeMeta :: "uuid \<Rightarrow> string \<Rightarrow> string \<Rightarrow> string \<Rightarrow> db \<Rightarrow> db" where
  "UpdateNodeMeta i host shell agentv =
     upd_node i (\<lambda>n. n\<lparr>nd_Hostname := host, nd_ShellType := shell, nd_AgentVersion := agentv\<rparr>)"

definition UpdateNodePlatform :: "uuid \<Rightarrow> string \<Rightarrow> string \<Rightarrow> db \<Rightarrow> db" where
  "UpdateNodePlatform i plat osv = upd_node i (\<lambda>n. n\<lparr>nd_Platform := plat, nd_OsVersion := osv\<rparr>)"

definition ListNodesForUser :: "request \<Rightarrow> uuid \<Rightarrow> db \<Rightarrow> (uuid \<times> Node \<times> string) list" where
  "ListNodesForUser q u d = sort_key (\<lambda>(i, n, cn). rq_collate q cn)
     (sort_key (\<lambda>(i, n, cn). rq_collate q (nd_Name n))
       (concat (map (\<lambda>(i, n).
          case (tget (db_members d) (nd_ClusterID n, u), tget (db_clusters d) (nd_ClusterID n)) of
            (Some _, Some c) \<Rightarrow> [(i, n, cl_Name c)] | _ \<Rightarrow> []) (db_nodes d))))"

definition GetNodeForUser :: "uuid \<Rightarrow> uuid \<Rightarrow> db \<Rightarrow> (Node \<times> string) option" where
  "GetNodeForUser u i d =
     (case tget (db_nodes d) i of None \<Rightarrow> None
      | Some n \<Rightarrow> (case (tget (db_members d) (nd_ClusterID n, u), tget (db_clusters d) (nd_ClusterID n)) of
            (Some _, Some c) \<Rightarrow> Some (n, cl_Name c) | _ \<Rightarrow> None))"

definition CreateEnrollmentToken :: "uuid \<Rightarrow> EnrollmentToken \<Rightarrow> db \<Rightarrow> db_error + db" where
  "CreateEnrollmentToken i t d =
     (if tget (db_tokens d) i \<noteq> None then Inl (unique_violation ''enrollment_tokens_pkey'')
      else if clash hash_key i t (db_tokens d) then Inl (unique_violation ''enrollment_tokens_token_hash_key'')
      else if tget (db_clusters d) (et_ClusterID t) = None then Inl (foreign_key_violation ''enrollment_tokens_cluster_id_fkey'')
      else if tget (db_users d) (et_CreatedBy t) = None then Inl (foreign_key_violation ''enrollment_tokens_created_by_fkey'')
      else Inr (d\<lparr>db_tokens := tput i t (db_tokens d)\<rparr>))"

definition GetEnrollmentTokenByHash :: "string \<Rightarrow> db \<Rightarrow> (uuid \<times> EnrollmentToken) option" where
  "GetEnrollmentTokenByHash h d = List.find (\<lambda>(i, t). et_TokenHash t = h) (db_tokens d)"

definition ConsumeEnrollmentToken :: "uuid \<Rightarrow> db \<Rightarrow> db_error + db" where
  "ConsumeEnrollmentToken i d =
     (case tget (db_tokens d) i of
        None \<Rightarrow> Inl NoRows
      | Some t \<Rightarrow> if et_UsedCount t < et_MaxUses t
          then Inr (d\<lparr>db_tokens := tput i (t\<lparr>et_UsedCount := et_UsedCount t + 1\<rparr>) (db_tokens d)\<rparr>) else Inl NoRows)"

subsection \<open>Audit rows\<close>

definition InsertAuditLog :: "AuditLog \<Rightarrow> db \<Rightarrow> db_error + db" where
  "InsertAuditLog a d =
     (case au_UserID a of
        Some u \<Rightarrow> if tget (db_users d) u = None then Inl (foreign_key_violation ''audit_logs_user_id_fkey'')
                  else Inr (d\<lparr>db_audit := db_audit d @ [a]\<rparr>)
      | None \<Rightarrow> Inr (d\<lparr>db_audit := db_audit d @ [a]\<rparr>))"

subsection \<open>The schema's constraints\<close>

definition db_keys :: "db \<Rightarrow> bool" where
  "db_keys d \<longleftrightarrow> tok (db_users d) \<and> tok (db_clusters d) \<and> tok (db_members d) \<and> tok (db_nodes d) \<and> tok (db_tokens d)"

definition db_unique :: "db \<Rightarrow> bool" where
  "db_unique d \<longleftrightarrow> uniq email_key (db_users d) \<and> uniq live_name_key (db_clusters d)
     \<and> uniq node_name_key (db_nodes d) \<and> uniq machine_key (db_nodes d) \<and> uniq hash_key (db_tokens d)"

definition member_ok :: "db \<Rightarrow> uuid \<times> uuid \<Rightarrow> string \<Rightarrow> bool" where
  "member_ok d k r \<longleftrightarrow> r \<in> set validRoles \<and> tget (db_clusters d) (fst k) \<noteq> None \<and> tget (db_users d) (snd k) \<noteq> None"

definition node_ok :: "db \<Rightarrow> Node \<Rightarrow> bool" where
  "node_ok d n \<longleftrightarrow> nd_Status n \<in> set validStatuses \<and> tget (db_clusters d) (nd_ClusterID n) \<noteq> None"

definition token_ok :: "db \<Rightarrow> EnrollmentToken \<Rightarrow> bool" where
  "token_ok d t \<longleftrightarrow> tget (db_clusters d) (et_ClusterID t) \<noteq> None \<and> tget (db_users d) (et_CreatedBy t) \<noteq> None
     \<and> 0 \<le> et_UsedCount t \<and> et_UsedCount t \<le> et_MaxUses t"

definition audit_ok :: "db \<Rightarrow> AuditLog \<Rightarrow> bool" where
  "audit_ok d a \<longleftrightarrow> (case au_UserID a of None \<Rightarrow> True | Some u \<Rightarrow> tget (db_users d) u \<noteq> None)"

definition db_refs :: "db \<Rightarrow> bool" where
  "db_refs d \<longleftrightarrow> (\<forall>k r. tget (db_members d) k = Some r \<longrightarrow> member_ok d k r)
     \<and> (\<forall>i c. tget (db_clusters d) i = Some c \<longrightarrow> tget (db_users d) (cl_OwnerID c) \<noteq> None)
     \<and> (\<forall>i n. tget (db_nodes d) i = Some n \<longrightarrow> node_ok d n)
     \<and> (\<forall>i t. tget (db_tokens d) i = Some t \<longrightarrow> token_ok d t)
     \<and> (\<forall>a \<in> set (db_audit d). audit_ok d a)"

definition db_wf :: "db \<Rightarrow> bool" where
  "db_wf d \<longleftrightarrow> db_keys d \<and> db_unique d \<and> db_refs d"

lemmas db_wf_defs = db_wf_def db_keys_def db_unique_def db_refs_def
lemmas row_ok_defs = member_ok_def node_ok_def token_ok_def audit_ok_def

lemma db_wf_keys [simp]: "db_wf d \<Longrightarrow> tok (db_users d)" "db_wf d \<Longrightarrow> tok (db_clusters d)"
    "db_wf d \<Longrightarrow> tok (db_members d)" "db_wf d \<Longrightarrow> tok (db_nodes d)" "db_wf d \<Longrightarrow> tok (db_tokens d)"
  by (simp_all add: db_wf_def db_keys_def)

lemma db_wf_empty: "db_wf db_empty"
  by (simp add: db_wf_defs db_empty_def)

lemma db_wf_uniq: "db_wf d \<Longrightarrow> uniq email_key (db_users d)" "db_wf d \<Longrightarrow> uniq live_name_key (db_clusters d)"
    "db_wf d \<Longrightarrow> uniq node_name_key (db_nodes d)" "db_wf d \<Longrightarrow> uniq machine_key (db_nodes d)"
    "db_wf d \<Longrightarrow> uniq hash_key (db_tokens d)"
  by (simp_all add: db_wf_def db_unique_def)

lemma db_wf_refs: "db_wf d \<Longrightarrow> tget (db_members d) k = Some r \<Longrightarrow> member_ok d k r"
    "db_wf d \<Longrightarrow> tget (db_clusters d) i = Some c \<Longrightarrow> tget (db_users d) (cl_OwnerID c) \<noteq> None"
    "db_wf d \<Longrightarrow> tget (db_nodes d) i = Some n \<Longrightarrow> node_ok d n"
    "db_wf d \<Longrightarrow> tget (db_tokens d) i = Some t \<Longrightarrow> token_ok d t"
    "db_wf d \<Longrightarrow> a \<in> set (db_audit d) \<Longrightarrow> audit_ok d a"
  unfolding db_wf_def db_refs_def by blast+

lemma db_wfI:
  assumes "db_keys d" "db_unique d"
    and "\<And>k r. tget (db_members d) k = Some r \<Longrightarrow> member_ok d k r"
    and "\<And>i c. tget (db_clusters d) i = Some c \<Longrightarrow> tget (db_users d) (cl_OwnerID c) \<noteq> None"
    and "\<And>i n. tget (db_nodes d) i = Some n \<Longrightarrow> node_ok d n"
    and "\<And>i t. tget (db_tokens d) i = Some t \<Longrightarrow> token_ok d t"
    and "\<And>a. a \<in> set (db_audit d) \<Longrightarrow> audit_ok d a"
  shows "db_wf d"
  using assms unfolding db_wf_def db_refs_def by blast

text \<open>Row constraints depend on which users and clusters exist only.\<close>

definition keeps_keys :: "db \<Rightarrow> db \<Rightarrow> bool" where
  "keeps_keys d d' \<longleftrightarrow> (\<forall>i. tget (db_users d) i \<noteq> None \<longrightarrow> tget (db_users d') i \<noteq> None)
     \<and> (\<forall>i. tget (db_clusters d) i \<noteq> None \<longrightarrow> tget (db_clusters d') i \<noteq> None)"

lemma keeps_keysD:
  "keeps_keys d d' \<Longrightarrow> tget (db_users d) i \<noteq> None \<Longrightarrow> tget (db_users d') i \<noteq> None"
  "keeps_keys d d' \<Longrightarrow> tget (db_clusters d) i \<noteq> None \<Longrightarrow> tget (db_clusters d') i \<noteq> None"
  unfolding keeps_keys_def by blast+

lemma row_ok_mono:
  assumes "keeps_keys d d'"
  shows "member_ok d k r \<Longrightarrow> member_ok d' k r" "node_ok d n \<Longrightarrow> node_ok d' n"
    "token_ok d t \<Longrightarrow> token_ok d' t" "audit_ok d a \<Longrightarrow> audit_ok d' a"
  using keeps_keysD [OF assms] unfolding row_ok_defs by (blast, blast, blast, cases "au_UserID a", simp, simp)

lemma wf_step:
  assumes wf: "db_wf d" and kk: "keeps_keys d d'" and "db_keys d'" "db_unique d'"
    and "\<And>k r. tget (db_members d') k = Some r \<Longrightarrow> tget (db_members d) k = Some r \<or> member_ok d' k r"
    and "\<And>i c. tget (db_clusters d') i = Some c \<Longrightarrow> tget (db_users d) (cl_OwnerID c) \<noteq> None"
    and "\<And>i n. tget (db_nodes d') i = Some n \<Longrightarrow> tget (db_nodes d) i = Some n \<or> node_ok d' n"
    and "\<And>i t. tget (db_tokens d') i = Some t \<Longrightarrow> tget (db_tokens d) i = Some t \<or> token_ok d' t"
    and "\<And>a. a \<in> set (db_audit d') \<Longrightarrow> a \<in> set (db_audit d) \<or> audit_ok d' a"
  shows "db_wf d'"
proof (rule db_wfI)
  show "member_ok d' k r" if "tget (db_members d') k = Some r" for k r
    using assms(5) [OF that] db_wf_refs(1) [OF wf] row_ok_mono(1) [OF kk] by blast
  show "tget (db_users d') (cl_OwnerID c) \<noteq> None" if "tget (db_clusters d') i = Some c" for i c
    using assms(6) [OF that] keeps_keysD(1) [OF kk] by blast
  show "node_ok d' n" if "tget (db_nodes d') i = Some n" for i n
    using assms(7) [OF that] db_wf_refs(3) [OF wf] row_ok_mono(2) [OF kk] by blast
  show "token_ok d' t" if "tget (db_tokens d') i = Some t" for i t
    using assms(8) [OF that] db_wf_refs(4) [OF wf] row_ok_mono(3) [OF kk] by blast
  show "audit_ok d' a" if "a \<in> set (db_audit d')" for a
    using assms(9) [OF that] db_wf_refs(5) [OF wf] row_ok_mono(4) [OF kk] by blast
qed (use assms in simp_all)

lemma wf_users:
  assumes "db_wf d" "tok t" "uniq email_key t" "\<And>i. tget (db_users d) i \<noteq> None \<Longrightarrow> tget t i \<noteq> None"
  shows "db_wf (d\<lparr>db_users := t\<rparr>)"
  by (rule wf_step [OF assms(1)])
    (use assms in \<open>simp_all add: keeps_keys_def db_keys_def db_unique_def db_wf_uniq db_wf_refs\<close>)

lemma wf_clusters:
  assumes "db_wf d" "tok t" "uniq live_name_key t"
    "\<And>i. tget (db_clusters d) i \<noteq> None \<Longrightarrow> tget t i \<noteq> None"
    "\<And>i c. tget t i = Some c \<Longrightarrow> tget (db_users d) (cl_OwnerID c) \<noteq> None"
  shows "db_wf (d\<lparr>db_clusters := t\<rparr>)"
  by (rule wf_step [OF assms(1)])
    (use assms in \<open>simp_all add: keeps_keys_def db_keys_def db_unique_def db_wf_uniq\<close>)

lemma wf_members:
  assumes "db_wf d" "tok t" "\<And>k r. tget t k = Some r \<Longrightarrow> tget (db_members d) k = Some r \<or> member_ok d k r"
  shows "db_wf (d\<lparr>db_members := t\<rparr>)"
  by (rule wf_step [OF assms(1)])
    (use assms in \<open>simp_all add: keeps_keys_def db_keys_def db_unique_def db_wf_uniq db_wf_refs member_ok_def\<close>)

lemma wf_nodes:
  assumes "db_wf d" "tok t" "uniq node_name_key t" "uniq machine_key t"
    "\<And>i n. tget t i = Some n \<Longrightarrow> tget (db_nodes d) i = Some n \<or> node_ok d n"
  shows "db_wf (d\<lparr>db_nodes := t\<rparr>)"
  by (rule wf_step [OF assms(1)])
    (use assms in \<open>simp_all add: keeps_keys_def db_keys_def db_unique_def db_wf_uniq db_wf_refs node_ok_def\<close>)

lemma wf_tokens:
  assumes "db_wf d" "tok t" "uniq hash_key t" "\<And>i n. tget t i = Some n \<Longrightarrow> tget (db_tokens d) i = Some n \<or> token_ok d n"
  shows "db_wf (d\<lparr>db_tokens := t\<rparr>)"
  by (rule wf_step [OF assms(1)])
    (use assms in \<open>simp_all add: keeps_keys_def db_keys_def db_unique_def db_wf_uniq db_wf_refs token_ok_def\<close>)

lemma wf_put_user:
  "db_wf d \<Longrightarrow> uniq email_key (tput i u (db_users d)) \<Longrightarrow> db_wf (d\<lparr>db_users := tput i u (db_users d)\<rparr>)"
  by (rule wf_users) simp_all

lemma wf_put_cluster:
  "db_wf d \<Longrightarrow> uniq live_name_key (tput i c (db_clusters d)) \<Longrightarrow> tget (db_users d) (cl_OwnerID c) \<noteq> None
    \<Longrightarrow> db_wf (d\<lparr>db_clusters := tput i c (db_clusters d)\<rparr>)"
  by (rule wf_clusters) (auto dest: db_wf_refs(2) split: if_splits)

lemma wf_put_member:
  "db_wf d \<Longrightarrow> member_ok d k r \<Longrightarrow> db_wf (d\<lparr>db_members := tput k r (db_members d)\<rparr>)"
  by (rule wf_members) (auto split: if_splits)

lemma wf_put_node:
  "db_wf d \<Longrightarrow> uniq node_name_key (tput i n (db_nodes d)) \<Longrightarrow> uniq machine_key (tput i n (db_nodes d)) \<Longrightarrow> node_ok d n
    \<Longrightarrow> db_wf (d\<lparr>db_nodes := tput i n (db_nodes d)\<rparr>)"
  by (rule wf_nodes) (auto split: if_splits)

lemma wf_put_token:
  "db_wf d \<Longrightarrow> uniq hash_key (tput i t (db_tokens d)) \<Longrightarrow> token_ok d t
    \<Longrightarrow> db_wf (d\<lparr>db_tokens := tput i t (db_tokens d)\<rparr>)"
  by (rule wf_tokens) (auto split: if_splits)


lemma wf_upd_user:
  assumes "db_wf d" "\<And>u. usr_Email (f u) = usr_Email u"
  shows "db_wf (upd_user i f d)"
proof (cases "tget (db_users d) i")
  case None
  then show ?thesis using assms by (simp add: upd_user_def)
next
  case (Some u)
  have "uniq email_key (tput i (f u) (db_users d))"
    by (rule uniq_tput_same [OF db_wf_uniq(1) [OF assms(1)] Some]) (simp add: email_key_def assms(2))
  then show ?thesis using assms(1) Some by (simp add: upd_user_def wf_put_user)
qed

lemma wf_upd_node:
  assumes "db_wf d" "\<And>n. nd_Name (f n) = nd_Name n" "\<And>n. nd_MachineID (f n) = nd_MachineID n"
    "\<And>n. nd_ClusterID (f n) = nd_ClusterID n" "\<And>n. nd_Status n \<in> set validStatuses \<Longrightarrow> nd_Status (f n) \<in> set validStatuses"
  shows "db_wf (upd_node i f d)"
proof (cases "tget (db_nodes d) i")
  case None
  then show ?thesis using assms by (simp add: upd_node_def)
next
  case (Some n)
  have "uniq node_name_key (tput i (f n) (db_nodes d))" "uniq machine_key (tput i (f n) (db_nodes d))"
    using uniq_tput_same [OF db_wf_uniq(3) [OF assms(1)] Some] uniq_tput_same [OF db_wf_uniq(4) [OF assms(1)] Some]
    by (simp_all add: node_name_key_def machine_key_def assms)
  moreover have "node_ok d (f n)"
    using db_wf_refs(3) [OF assms(1) Some] assms by (simp add: node_ok_def)
  ultimately show ?thesis
    using assms(1) Some by (simp add: upd_node_def wf_put_node)
qed

subsection \<open>Every statement keeps the constraints\<close>

lemma wf_CreateUser: "CreateUser i em name h adm d = Inr d' \<Longrightarrow> db_wf d \<Longrightarrow> db_wf d'"
  by (auto simp: CreateUser_def Let_def db_wf_uniq(1) intro!: wf_put_user uniq_tput split: if_splits)

lemma wf_user_updates:
  assumes "db_wf d"
  shows "db_wf (UpdateUserDisplayName i s d)" "db_wf (UpdateUserPassword i s d)" "db_wf (TouchUserLogin i t d)"
    "db_wf (snd (UpdateUserIsAdmin i b d))"
  by (simp_all add: UpdateUserDisplayName_def UpdateUserPassword_def TouchUserLogin_def UpdateUserIsAdmin_def
      wf_upd_user assms)

lemma wf_DeleteOwnedClusters:
  assumes del: "DeleteOwnedClusters i d = Inr d'" and wf: "db_wf d"
  shows "db_wf d'"
proof -
  define keep where "keep = (\<lambda>c. case tget (db_clusters d) c of None \<Rightarrow> True | Some r \<Rightarrow> cl_OwnerID r \<noteq> i)"
  have nodes: "\<not> list_ex (\<lambda>(k, n). \<not> keep (nd_ClusterID n)) (db_nodes d)"
    and d': "d' = d\<lparr>db_clusters := tfilter (\<lambda>c _. keep c) (db_clusters d),
        db_members := tfilter (\<lambda>(c, u) _. keep c) (db_members d),
        db_tokens := tfilter (\<lambda>_ t. keep (et_ClusterID t)) (db_tokens d)\<rparr>"
    using del unfolding DeleteOwnedClusters_def Let_def keep_def [symmetric] by (auto split: if_splits)
  have cl: "tget (db_clusters d') c = (if keep c then tget (db_clusters d) c else None)" for c
    using wf by (simp add: d' tget_tfilter split: option.splits)
  show ?thesis
  proof (rule db_wfI)
    show "db_keys d'" using wf by (simp add: d' db_keys_def)
    show "db_unique d'" using wf by (simp add: d' db_unique_def db_wf_uniq uniq_tfilter)
    show "member_ok d' k r" if "tget (db_members d') k = Some r" for k r
      using that db_wf_refs(1) [OF wf, of k r] wf
      by (cases k) (auto simp: member_ok_def cl d' tget_tfilter split: option.splits if_splits)
    show "tget (db_users d') (cl_OwnerID c) \<noteq> None" if "tget (db_clusters d') j = Some c" for j c
      using that db_wf_refs(2) [OF wf, of j c] unfolding cl by (simp add: d' split: if_splits)
    show "node_ok d' n" if "tget (db_nodes d') j = Some n" for j n
      using that db_wf_refs(3) [OF wf, of j n] nodes tget_SomeD [of "db_nodes d" j n]
      unfolding node_ok_def cl by (auto simp: d' list_ex_iff)
    show "token_ok d' t" if "tget (db_tokens d') j = Some t" for j t
      using that db_wf_refs(4) [OF wf, of j t] wf
      by (auto simp: token_ok_def cl d' tget_tfilter split: option.splits if_splits)
    show "audit_ok d' a" if "a \<in> set (db_audit d')" for a
      using that db_wf_refs(5) [OF wf, of a] by (simp add: audit_ok_def d' split: option.splits)
  qed
qed

lemma wf_DeleteUser:
  assumes del: "DeleteUser i d = Inr d'" and wf: "db_wf d"
  shows "db_wf d'"
proof -
  have free: "\<not> list_ex (\<lambda>(c, r). cl_OwnerID r = i) (db_clusters d)" "\<not> list_ex (\<lambda>(k, t). et_CreatedBy t = i) (db_tokens d)"
    and d': "d' = d\<lparr>db_users := tdel i (db_users d), db_members := tfilter (\<lambda>(c, u) _. u \<noteq> i) (db_members d),
       db_audit := map (\<lambda>a. if au_UserID a = Some i then a\<lparr>au_UserID := None\<rparr> else a) (db_audit d)\<rparr>"
    using del unfolding DeleteUser_def by (simp_all split: if_splits)
  show ?thesis
  proof (rule db_wfI)
    show "db_keys d'" using wf by (simp add: d' db_keys_def)
    show "db_unique d'" using wf by (simp add: d' db_unique_def db_wf_uniq uniq_tdel)
    show "member_ok d' k r" if "tget (db_members d') k = Some r" for k r
      using that db_wf_refs(1) [OF wf, of k r] wf
      by (cases k) (auto simp: member_ok_def d' tget_tfilter split: option.splits if_splits)
    show "tget (db_users d') (cl_OwnerID c) \<noteq> None" if "tget (db_clusters d') j = Some c" for j c
      using that db_wf_refs(2) [OF wf, of j c] free(1) tget_SomeD [of "db_clusters d" j c]
      by (auto simp: d' list_ex_iff)
    show "node_ok d' n" if "tget (db_nodes d') j = Some n" for j n
      using that db_wf_refs(3) [OF wf, of j n] by (simp add: node_ok_def d')
    show "token_ok d' t" if "tget (db_tokens d') j = Some t" for j t
      using that db_wf_refs(4) [OF wf, of j t] free(2) tget_SomeD [of "db_tokens d" j t]
      by (auto simp: token_ok_def d' list_ex_iff)
    show "audit_ok d' a" if "a \<in> set (db_audit d')" for a
      using that db_wf_refs(5) [OF wf] unfolding d' audit_ok_def by (force split: option.splits if_splits)
  qed
qed

lemma GetClusterByID_Some: "GetClusterByID i d = Some (j, c) \<longleftrightarrow> j = i \<and> tget (db_clusters d) i = Some c \<and> live c"
  by (auto simp: GetClusterByID_def split: option.splits)

lemma wf_CreateCluster: "CreateCluster i name own pers d = Inr d' \<Longrightarrow> db_wf d \<Longrightarrow> db_wf d'"
  by (auto simp: CreateCluster_def Let_def db_wf_uniq(2) intro!: wf_put_cluster uniq_tput split: if_splits)

lemma wf_RenameCluster:
  assumes "RenameCluster i name d = Inr d'" "db_wf d"
  shows "db_wf d'"
  using assms db_wf_refs(2) [of d i]
  by (auto simp: RenameCluster_def GetClusterByID_Some db_wf_uniq(2) intro!: wf_put_cluster uniq_tput
      split: option.splits if_splits)

lemma wf_SoftDeleteCluster: "db_wf d \<Longrightarrow> db_wf (snd (SoftDeleteCluster i now d))"
  using db_wf_refs(2) [of d i]
  by (auto simp: SoftDeleteCluster_def GetClusterByID_Some db_wf_uniq(2) live_name_key_def intro!: wf_put_cluster uniq_tput_None
      split: option.splits)

lemma wf_AddMember: "AddMember c u r d = Inr d' \<Longrightarrow> db_wf d \<Longrightarrow> db_wf d'"
  by (auto simp: AddMember_def member_ok_def intro!: wf_put_member split: if_splits)

lemma wf_AddMembership: "AddMembership c u r d = Inr d' \<Longrightarrow> db_wf d \<Longrightarrow> db_wf d'"
  by (auto simp: AddMembership_def wf_AddMember split: if_splits)

lemma wf_RemoveMemberGuarded: "db_wf d \<Longrightarrow> db_wf (snd (RemoveMemberGuarded c u d))"
  by (auto simp: RemoveMemberGuarded_def intro!: wf_members split: option.splits if_splits)

lemma wf_UpdateMemberRole: "UpdateMemberRole c u r d = Inr (n, d') \<Longrightarrow> db_wf d \<Longrightarrow> db_wf d'"
  using db_wf_refs(1) [of d "(c, u)"]
  by (auto simp: UpdateMemberRole_def member_ok_def intro!: wf_put_member split: option.splits if_splits)

lemma wf_put_node_stmt: "put_node i n d = Inr d' \<Longrightarrow> db_wf d \<Longrightarrow> db_wf d'"
  by (auto simp: put_node_def node_conflict_def node_ok_def db_wf_uniq intro!: wf_put_node uniq_tput
      split: option.splits if_splits)

lemma wf_CreateNode: "CreateNode i n d = Inr d' \<Longrightarrow> db_wf d \<Longrightarrow> db_wf d'"
  by (simp add: CreateNode_def wf_put_node_stmt split: if_splits)

lemma wf_RenameNode: "RenameNode i name d = Inr d' \<Longrightarrow> db_wf d \<Longrightarrow> db_wf d'"
  by (simp add: RenameNode_def wf_put_node_stmt split: option.splits)

lemma wf_MoveNodeCluster: "MoveNodeCluster i c name src d = Inr (n, d') \<Longrightarrow> db_wf d \<Longrightarrow> db_wf d'"
  by (auto simp: MoveNodeCluster_def wf_put_node_stmt split: option.splits if_splits sum.splits)

lemma AdoptNodeIdentity_upd: "AdoptNodeIdentity key host osv agentv plat i d = Inr (n, d') \<Longrightarrow>
    d' = upd_node i (\<lambda>n. n\<lparr>nd_PublicKey := key, nd_Hostname := host, nd_OsVersion := osv, nd_AgentVersion := agentv,
       nd_ShellType := '''', nd_LastSeenAt := None, nd_Platform := plat\<rparr>) d"
  by (auto simp: AdoptNodeIdentity_def upd_node_def Let_def split: option.splits)

lemma wf_AdoptNodeIdentity: "AdoptNodeIdentity key host osv agentv plat i d = Inr (n, d') \<Longrightarrow> db_wf d \<Longrightarrow> db_wf d'"
  by (drule AdoptNodeIdentity_upd) (simp add: wf_upd_node)

lemma wf_DeleteNode: "db_wf d \<Longrightarrow> db_wf (snd (DeleteNode i d))"
  by (auto simp: DeleteNode_def db_wf_uniq uniq_tdel intro!: wf_nodes split: if_splits)

lemma wf_SetNodeStatus:
  assumes "SetNodeStatus i st d = Inr d'" "db_wf d"
  shows "db_wf d'"
proof (cases "st \<in> set validStatuses")
  case True
  then show ?thesis using assms by (auto simp: SetNodeStatus_def wf_upd_node split: if_splits)
next
  case False
  then show ?thesis using assms by (auto simp: SetNodeStatus_def upd_node_def split: if_splits option.splits)
qed

lemma wf_node_updates:
  assumes "db_wf d"
  shows "db_wf (TouchNode i now d)" "db_wf (UpdateNodeMeta i host shell agentv d)" "db_wf (UpdateNodePlatform i plat osv d)"
  by (simp_all add: TouchNode_def UpdateNodeMeta_def UpdateNodePlatform_def wf_upd_node assms)

lemma wf_CreateEnrollmentToken:
  "CreateEnrollmentToken i t d = Inr d' \<Longrightarrow> 0 \<le> et_UsedCount t \<Longrightarrow> et_UsedCount t \<le> et_MaxUses t \<Longrightarrow> db_wf d \<Longrightarrow> db_wf d'"
  by (auto simp: CreateEnrollmentToken_def token_ok_def db_wf_uniq(5) intro!: wf_put_token uniq_tput split: if_splits)

lemma wf_ConsumeEnrollmentToken:
  assumes "ConsumeEnrollmentToken i d = Inr d'" "db_wf d"
  shows "db_wf d'"
proof -
  obtain t where t: "tget (db_tokens d) i = Some t" "et_UsedCount t < et_MaxUses t"
    and d': "d' = d\<lparr>db_tokens := tput i (t\<lparr>et_UsedCount := et_UsedCount t + 1\<rparr>) (db_tokens d)\<rparr>"
    using assms(1) by (auto simp: ConsumeEnrollmentToken_def split: option.splits if_splits)
  show ?thesis unfolding d'
  proof (rule wf_put_token [OF assms(2)])
    show "uniq hash_key (tput i (t\<lparr>et_UsedCount := et_UsedCount t + 1\<rparr>) (db_tokens d))"
      by (rule uniq_tput_same [OF db_wf_uniq(5) [OF assms(2)] t(1)]) (simp add: hash_key_def)
    show "token_ok d (t\<lparr>et_UsedCount := et_UsedCount t + 1\<rparr>)"
      using db_wf_refs(4) [OF assms(2) t(1)] t(2) by (simp add: token_ok_def)
  qed
qed

lemma wf_InsertAuditLog:
  assumes "InsertAuditLog a d = Inr d'" "db_wf d"
  shows "db_wf d'"
proof -
  have d': "d' = d\<lparr>db_audit := db_audit d @ [a]\<rparr>" and a: "audit_ok d a"
    using assms(1) by (auto simp: InsertAuditLog_def audit_ok_def split: option.splits if_splits)
  show ?thesis unfolding d'
    by (rule wf_step [OF assms(2)])
      (use assms(2) a in \<open>auto simp: keeps_keys_def db_keys_def db_unique_def db_wf_uniq db_wf_refs(2) audit_ok_def
          split: option.splits\<close>)
qed


subsection \<open>A concrete database\<close>

text \<open>Two users, two clusters, three nodes and a token, with a request that never fails, takes every text
  that starts with a hash sign as an identifier, and has transparent cryptography; it serves as concrete input.\<close>

definition demo_rq :: request where
  "demo_rq = \<lparr>rq_now = 50, rq_fails = (\<lambda>_. False), rq_parse = (\<lambda>s. if take 1 s = ''#'' then Some s else None),
     rq_new = (\<lambda>n. ''#9'' @ replicate n (CHR ''9'')), rq_collate = (\<lambda>s. int (length s)), rq_bcrypt = (\<lambda>p. Some p),
     rq_verify = (\<lambda>h p. h = p), rq_sha256 = (\<lambda>s. if s = ''k'' then [107] else [0]), rq_rand = Some [1, 2, 3],
     rq_jwt = (\<lambda>t. Some t), rq_mkjwt = (\<lambda>u t. Some u)\<rparr>"

definition demo_user :: "string \<Rightarrow> bool \<Rightarrow> User" where
  "demo_user em adm = \<lparr>usr_Email = em, usr_DisplayName = em, usr_PasswordHash = ''pw'', usr_IsAdmin = adm, usr_LastLoginAt = None\<rparr>"

definition demo_cluster :: "string \<Rightarrow> uuid \<Rightarrow> Cluster" where
  "demo_cluster name own = \<lparr>cl_Name = name, cl_OwnerID = own, cl_DeletedAt = None, cl_Personal = False\<rparr>"

definition demo_node :: "uuid \<Rightarrow> string \<Rightarrow> string \<Rightarrow> string \<Rightarrow> Node" where
  "demo_node c name mid st = \<lparr>nd_ClusterID = c, nd_Name = name, nd_MachineID = mid, nd_Hostname = name, nd_OsVersion = ''10'',
     nd_AgentVersion = ''1.0.0'', nd_ShellType = ''pwsh'', nd_PublicKey = ''AAAAAAAAAAAAAAAAAAAAAAAAAAAAAAAAAAAAAAAAAAA='',
     nd_Status = st, nd_LastSeenAt = None, nd_TargetRelease = None, nd_Channel = ''stable'', nd_Platform = ''windows''\<rparr>"

definition demo_db :: db where
  "demo_db = \<lparr>db_users = [(''#1'', demo_user ''a@x'' True), (''#2'', demo_user ''b@x'' False)],
     db_clusters = [(''#10'', demo_cluster ''alpha'' ''#1''), (''#11'', demo_cluster ''beta'' ''#1'')],
     db_members = [((''#10'', ''#1''), ''owner''), ((''#10'', ''#2''), ''operator''), ((''#11'', ''#1''), ''owner'')],
     db_nodes = [(''#20'', demo_node ''#10'' ''web'' ''m1'' ''disabled''), (''#21'', demo_node ''#11'' ''web'' ''m2'' ''online''),
       (''#22'', demo_node ''#10'' ''web-2'' ''m3'' ''offline'')],
     db_tokens = [(''#30'', \<lparr>et_ClusterID = ''#10'', et_TokenHash = ''6b'', et_ExpiresAt = 100, et_MaxUses = 1, et_UsedCount = 0,
       et_CreatedBy = ''#1''\<rparr>)],
     db_audit = []\<rparr>"

lemmas demo_rows = demo_db_def demo_user_def demo_cluster_def demo_node_def

lemma demo_wf: "db_wf demo_db"
proof (rule db_wfI)
  show "db_keys demo_db" by (simp add: db_keys_def demo_db_def)
  show "db_unique demo_db"
    by (auto simp: db_unique_def uniq_def demo_rows email_key_def live_name_key_def node_name_key_def machine_key_def hash_key_def
        split: if_splits)
  show "member_ok demo_db k r" if "tget (db_members demo_db) k = Some r" for k r
    using that by (auto simp: member_ok_def demo_db_def validRoles_def split: if_splits)
  show "tget (db_users demo_db) (cl_OwnerID c) \<noteq> None" if "tget (db_clusters demo_db) i = Some c" for i c
    using that by (auto simp: demo_rows split: if_splits)
  show "node_ok demo_db n" if "tget (db_nodes demo_db) i = Some n" for i n
    using that by (auto simp: node_ok_def demo_rows validStatuses_def split: if_splits)
  show "token_ok demo_db t" if "tget (db_tokens demo_db) i = Some t" for i t
    using that by (auto simp: token_ok_def demo_db_def split: if_splits)
  show "audit_ok demo_db a" if "a \<in> set (db_audit demo_db)" for a
    using that by (simp add: demo_db_def)
qed


end
