(* ===== verification/Go_Strings.thy ===== *)
theory Go_Strings
  imports XNC_Prelude
begin

text \<open>
  The parts of Go's \<open>strings\<close>, \<open>strconv\<close>, \<open>encoding/hex\<close> and \<open>encoding/base64\<close> that the components
  call. A Go \<open>string\<close> is its list of bytes, written as a list of characters; \<open>[]byte\<close> values that are
  decoded from text are lists of 8-bit words.
\<close>

subsection \<open>\<open>strings\<close>\<close>

text \<open>\<open>strings.Index\<close>: position of the first occurrence.\<close>

fun strings_Index :: "string \<Rightarrow> string \<Rightarrow> nat option" where
  "strings_Index s sub =
     (if take (length sub) s = sub then Some 0
      else case s of [] \<Rightarrow> None | c # cs \<Rightarrow> map_option Suc (strings_Index cs sub))"

declare strings_Index.simps [simp del]

lemma strings_Index_skip:
  "CHR ''.'' \<notin> set p \<Longrightarrow> strings_Index (p @ ''..'' @ r) ''..'' = Some (length p)"
proof (induction p)
  case Nil
  then show ?case by (subst strings_Index.simps) simp
next
  case (Cons c p)
  then show ?case by (subst strings_Index.simps) (cases p; auto)
qed

text \<open>\<open>strings.TrimSpace\<close> removes leading and trailing Unicode white space; these are the UTF-8
  encodings of the white space code points.\<close>

definition go_spaces :: "string list" where
  "go_spaces = map (map char_of) [[9::nat], [10], [11], [12], [13], [32], [194, 133], [194, 160],
     [225, 154, 128], [226, 128, 128], [226, 128, 129], [226, 128, 130], [226, 128, 131],
     [226, 128, 132], [226, 128, 133], [226, 128, 134], [226, 128, 135], [226, 128, 136],
     [226, 128, 137], [226, 128, 138], [226, 128, 168], [226, 128, 169], [226, 128, 175],
     [226, 129, 159], [227, 128, 128]]"

text \<open>Each round removes one white space rune, so \<open>length s\<close> rounds are enough.\<close>

fun trim_left :: "string list \<Rightarrow> nat \<Rightarrow> string \<Rightarrow> string" where
  "trim_left ws 0 s = s"
| "trim_left ws (Suc n) s =
     (case find (\<lambda>w. take (length w) s = w) ws of
        Some w \<Rightarrow> trim_left ws n (drop (length w) s)
      | None \<Rightarrow> s)"

definition TrimSpace :: "string \<Rightarrow> string" where
  "TrimSpace s =
     (let l = trim_left go_spaces (length s) s
      in rev (trim_left (map rev go_spaces) (length l) (rev l)))"

subsection \<open>Decimal digits\<close>

definition digit_char :: "nat \<Rightarrow> char" where
  "digit_char d = char_of (48 + d)"

definition char_digit :: "char \<Rightarrow> nat option" where
  "char_digit c = (let n = of_char c :: nat in if 48 \<le> n \<and> n \<le> 57 then Some (n - 48) else None)"

lemma char_digit_inv: "d < 10 \<Longrightarrow> char_digit (digit_char d) = Some d"
  by (simp add: char_digit_def digit_char_def Let_def)

text \<open>Decimal numeral of a natural number, most significant digit first.\<close>

fun nat_decimal :: "nat \<Rightarrow> string" where
  "nat_decimal n = (if n < 10 then [digit_char n] else nat_decimal (n div 10) @ [digit_char (n mod 10)])"

declare nat_decimal.simps [simp del]

definition decimal_val :: "string \<Rightarrow> nat option" where
  "decimal_val s = (if s = [] then None else
     foldl (\<lambda>acc c. case acc of None \<Rightarrow> None | Some v \<Rightarrow>
        map_option (\<lambda>d. v * 10 + d) (char_digit c)) (Some 0) s)"

lemma decimal_val_snoc:
  "s \<noteq> [] \<Longrightarrow> decimal_val (s @ [c]) =
     (case decimal_val s of None \<Rightarrow> None | Some v \<Rightarrow> map_option (\<lambda>d. v * 10 + d) (char_digit c))"
  by (simp add: decimal_val_def)

lemma nat_decimal_nonempty [simp]: "nat_decimal n \<noteq> []"
  by (subst nat_decimal.simps) simp

lemma nat_decimal_val: "decimal_val (nat_decimal n) = Some n"
proof (induction n rule: nat_decimal.induct)
  case (1 n)
  show ?case
  proof (cases "n < 10")
    case True
    then show ?thesis
      by (subst nat_decimal.simps) (simp add: decimal_val_def char_digit_inv)
  next
    case False
    then show ?thesis
      using 1 by (subst nat_decimal.simps) (simp add: decimal_val_snoc char_digit_inv)
  qed
qed

lemma nat_decimal_length: "length (nat_decimal n) \<le> k \<longleftrightarrow> n < 10 ^ k" if "0 < k"
  using that
proof (induction n arbitrary: k rule: nat_decimal.induct)
  case (1 n)
  show ?case
  proof (cases "n < 10")
    case True
    have "(10::nat) \<le> 10 ^ k" using 1(2) self_le_power [of "10::nat" k] by simp
    with True show ?thesis using 1(2) by (subst nat_decimal.simps) auto
  next
    case False
    then have len: "length (nat_decimal n) = Suc (length (nat_decimal (n div 10)))"
      by (subst nat_decimal.simps) simp
    obtain j where k: "k = Suc j" using 1(2) by (cases k) auto
    show ?thesis
    proof (cases j)
      case 0
      then show ?thesis using len k False by (simp add: nat_decimal_nonempty)
    next
      case (Suc i)
      have "length (nat_decimal (n div 10)) \<le> j \<longleftrightarrow> n div 10 < 10 ^ j"
        using 1(1) [OF False, of j] Suc by simp
      also have "\<dots> \<longleftrightarrow> n < 10 ^ k"
        using k by (simp add: div_less_iff_less_mult mult.commute)
      finally show ?thesis using len k by simp
    qed
  qed
qed

subsection \<open>\<open>encoding/hex\<close>\<close>

definition hex_digit :: "char \<Rightarrow> nat option" where
  "hex_digit c =
     (let n = of_char c :: nat in
      if 48 \<le> n \<and> n \<le> 57 then Some (n - 48)
      else if 97 \<le> n \<and> n \<le> 102 then Some (n - 87)
      else if 65 \<le> n \<and> n \<le> 70 then Some (n - 55)
      else None)"

fun hex_DecodeString :: "string \<Rightarrow> bytes option" where
  "hex_DecodeString [] = Some []"
| "hex_DecodeString [_] = None"
| "hex_DecodeString (a # b # s) =
     (case (hex_digit a, hex_digit b, hex_DecodeString s) of
        (Some x, Some y, Some r) \<Rightarrow> Some (of_nat (16 * x + y) # r)
      | _ \<Rightarrow> None)"

definition hex_char :: "nat \<Rightarrow> char" where
  "hex_char d = (if d < 10 then char_of (48 + d) else char_of (87 + d))"

definition hex_EncodeToString :: "bytes \<Rightarrow> string" where
  "hex_EncodeToString bs = concat (map (\<lambda>b. [hex_char (unat b div 16), hex_char (unat b mod 16)]) bs)"

lemma hex_digit_char: "d < 16 \<Longrightarrow> hex_digit (hex_char d) = Some d"
  by (auto simp: hex_digit_def hex_char_def Let_def)

lemma unat_byte_less: "unat (b :: byte) < 256"
  using unsigned_less [of b] by simp

lemma hex_roundtrip: "hex_DecodeString (hex_EncodeToString bs) = Some bs"
proof (induction bs)
  case Nil
  then show ?case by (simp add: hex_EncodeToString_def)
next
  case (Cons b bs)
  have "unat b div 16 < 16" using unat_byte_less [of b] by simp
  moreover have "16 * (unat b div 16) + unat b mod 16 = unat b" by simp
  ultimately show ?case
    using Cons by (simp add: hex_EncodeToString_def hex_digit_char)
qed

subsection \<open>\<open>base64.RawURLEncoding\<close>\<close>

definition b64_alphabet :: string where
  "b64_alphabet = ''ABCDEFGHIJKLMNOPQRSTUVWXYZabcdefghijklmnopqrstuvwxyz0123456789-_''"

definition b64_char :: "nat \<Rightarrow> char" where
  "b64_char n = b64_alphabet ! n"

definition b64_val :: "char \<Rightarrow> nat option" where
  "b64_val c = map_of (zip b64_alphabet [0..<64]) c"

fun b64_Encode :: "bytes \<Rightarrow> string" where
  "b64_Encode [] = []"
| "b64_Encode [a] = (let v = unat a * 65536 in [b64_char (v div 262144), b64_char (v div 4096 mod 64)])"
| "b64_Encode [a, b] =
     (let v = unat a * 65536 + unat b * 256
      in [b64_char (v div 262144), b64_char (v div 4096 mod 64), b64_char (v div 64 mod 64)])"
| "b64_Encode (a # b # c # r) =
     (let v = unat a * 65536 + unat b * 256 + unat c
      in [b64_char (v div 262144), b64_char (v div 4096 mod 64), b64_char (v div 64 mod 64),
          b64_char (v mod 64)] @ b64_Encode r)"

text \<open>The decoder skips line breaks, rejects every other character outside the alphabet, and does
  not insist on zero trailing bits.\<close>

fun b64_quanta :: "nat list \<Rightarrow> bytes option" where
  "b64_quanta [] = Some []"
| "b64_quanta [_] = None"
| "b64_quanta [a, b] = Some [of_nat ((a * 262144 + b * 4096) div 65536)]"
| "b64_quanta [a, b, c] =
     (let v = a * 262144 + b * 4096 + c * 64 in Some [of_nat (v div 65536), of_nat (v div 256)])"
| "b64_quanta (a # b # c # d # r) =
     (let v = a * 262144 + b * 4096 + c * 64 + d
      in map_option (\<lambda>bs. [of_nat (v div 65536), of_nat (v div 256), of_nat v] @ bs) (b64_quanta r))"

definition b64_Decode :: "string \<Rightarrow> bytes option" where
  "b64_Decode s =
     (let cs = filter (\<lambda>c. c \<noteq> CHR 0x0A \<and> c \<noteq> CHR 0x0D) s; vs = map b64_val cs
      in if None \<in> set vs then None else b64_quanta (map the vs))"

lemma b64_val_all: "list_all (\<lambda>n. b64_val (b64_char n) = Some n) [0..<64]"
  unfolding b64_val_def b64_char_def b64_alphabet_def by code_simp

lemma b64_val_char: "n < 64 \<Longrightarrow> b64_val (b64_char n) = Some n"
  using b64_val_all by (simp add: list_all_iff)

lemma b64_set: "set b64_alphabet \<inter> {CHR ''.'', CHR 0x0A, CHR 0x0D} = {}"
  by (simp add: b64_alphabet_def)

lemma b64_char_set: "n < 64 \<Longrightarrow> b64_char n \<in> set b64_alphabet"
  by (simp add: b64_char_def b64_alphabet_def del: list.set)

fun b64_digits :: "bytes \<Rightarrow> nat list" where
  "b64_digits [] = []"
| "b64_digits [a] = (let v = unat a * 65536 in [v div 262144, v div 4096 mod 64])"
| "b64_digits [a, b] =
     (let v = unat a * 65536 + unat b * 256 in [v div 262144, v div 4096 mod 64, v div 64 mod 64])"
| "b64_digits (a # b # c # r) =
     (let v = unat a * 65536 + unat b * 256 + unat c
      in [v div 262144, v div 4096 mod 64, v div 64 mod 64, v mod 64] @ b64_digits r)"

lemma b64_Encode_digits: "b64_Encode bs = map b64_char (b64_digits bs)"
  by (induction bs rule: b64_digits.induct) (simp_all add: Let_def)

lemma b64_digits_less: "n \<in> set (b64_digits bs) \<Longrightarrow> n < 64"
proof (induction bs rule: b64_digits.induct)
  case (2 a)
  then show ?case using unat_byte_less [of a] by (auto simp: Let_def)
next
  case (3 a b)
  then show ?case using unat_byte_less [of a] unat_byte_less [of b] by (auto simp: Let_def)
next
  case (4 a b c r)
  then show ?case
    using unat_byte_less [of a] unat_byte_less [of b] unat_byte_less [of c] by (auto simp: Let_def)
qed simp

lemma digits_value:
  "v = q1 * 64 + r0 \<Longrightarrow> q1 = q2 * 64 + r1 \<Longrightarrow> q2 = q3 * 64 + r2 \<Longrightarrow>
     q3 * 262144 + r2 * 4096 + r1 * 64 + r0 = v" for v q1 q2 q3 r0 r1 r2 :: nat
  by simp

lemma four_digits: "v div 262144 * 262144 + v div 4096 mod 64 * 4096 + v div 64 mod 64 * 64 + v mod 64 = v" for v :: nat
proof (rule digits_value [of v "v div 64" _ "v div 4096"])
  have d: "v div 4096 = v div 64 div 64" "v div 262144 = v div 4096 div 64"
    by (simp_all add: div_mult2_eq [symmetric])
  show "v = v div 64 * 64 + v mod 64" by simp
  show "v div 64 = v div 4096 * 64 + v div 64 mod 64" unfolding d(1) by simp
  show "v div 4096 = v div 262144 * 64 + v div 4096 mod 64" unfolding d(2) by simp
qed

lemma three_digits:
  "v mod 64 = 0 \<Longrightarrow> v div 262144 * 262144 + v div 4096 mod 64 * 4096 + v div 64 mod 64 * 64 = v" for v :: nat
  using four_digits [of v] by simp

lemma two_digits:
  "v mod 4096 = 0 \<Longrightarrow> v div 262144 * 262144 + v div 4096 mod 64 * 4096 = v" for v :: nat
proof -
  assume "v mod 4096 = 0"
  then obtain k where v: "v = 64 * (64 * k)" by (auto simp: mod_eq_0_iff_dvd elim!: dvdE)
  have "v mod 64 = 0" "v div 64 mod 64 = 0" unfolding v by simp_all
  then show ?thesis using four_digits [of v] by simp
qed

lemma of_nat_mod256: "(of_nat n :: byte) = of_nat (n mod 256)"
  by (simp add: word_of_nat_eq_iff take_bit_eq_mod)

lemma byte_low: "n mod 256 = unat b \<Longrightarrow> of_nat n = (b :: byte)"
  by (subst of_nat_mod256) simp

lemma b64_quanta_digits: "b64_quanta (b64_digits bs) = Some bs"
proof (induction bs rule: b64_digits.induct)
  case (2 a)
  have "unat a * 65536 mod 4096 = 0" by simp
  then show ?case
    unfolding b64_digits.simps Let_def b64_quanta.simps by (subst two_digits) simp_all
next
  case (3 a b)
  let ?v = "unat a * 65536 + unat b * 256"
  have "?v mod 64 = 0" by presburger
  moreover have "?v div 65536 = unat a" using unat_byte_less [of b] by simp
  moreover have "?v div 256 = unat a * 256 + unat b" by simp
  ultimately show ?case
    unfolding b64_digits.simps Let_def b64_quanta.simps
    by (simp only: three_digits) (simp only: byte_low unat_byte_less mod_less mod_mult_self3)
next
  case (4 a b c r)
  let ?v = "unat a * 65536 + unat b * 256 + unat c"
  have "?v = (unat a * 256 + unat b) * 256 + unat c" by simp
  then have "?v mod 256 = unat c" by (simp only: mod_mult_self3 mod_less unat_byte_less)
  moreover have "?v div 65536 = unat a" "?v div 256 = unat a * 256 + unat b"
    using unat_byte_less [of b] unat_byte_less [of c] by auto
  moreover have "b64_quanta (b64_digits r) = Some r" using 4 by simp
  ultimately show ?case
    unfolding b64_digits.simps Let_def append_Cons append_Nil b64_quanta.simps four_digits
    by (simp only: byte_low unat_byte_less mod_less mod_mult_self3) simp
qed simp

lemma b64_Encode_chars: "set (b64_Encode bs) \<subseteq> set b64_alphabet"
  using b64_digits_less [of _ bs] by (auto simp: b64_Encode_digits b64_char_set)

lemma b64_Encode_nodot: "CHR ''.'' \<notin> set (b64_Encode bs)"
  using b64_Encode_chars [of bs] b64_set by blast

lemma b64_Encode_nobreak: "filter (\<lambda>c. c \<noteq> CHR 0x0A \<and> c \<noteq> CHR 0x0D) (b64_Encode bs) = b64_Encode bs"
  using b64_Encode_chars [of bs] b64_set by (intro filter_True) blast

lemma b64_roundtrip: "b64_Decode (b64_Encode bs) = Some bs"
proof -
  have v: "map b64_val (b64_Encode bs) = map Some (b64_digits bs)"
    using b64_digits_less [of _ bs] by (simp add: b64_Encode_digits b64_val_char)
  show ?thesis
    unfolding b64_Decode_def Let_def b64_Encode_nobreak v
    by (auto simp: comp_def b64_quanta_digits)
qed

lemma b64_Encode_empty [simp]: "b64_Encode bs = [] \<longleftrightarrow> bs = []"
  by (cases bs rule: b64_Encode.cases) (simp_all add: Let_def)

subsection \<open>\<open>base64.StdEncoding\<close>\<close>

definition b64std_val :: "char \<Rightarrow> nat option" where
  "b64std_val c = map_of (zip ''ABCDEFGHIJKLMNOPQRSTUVWXYZabcdefghijklmnopqrstuvwxyz0123456789+/'' [0..<64]) c"

text \<open>The standard decoder skips line breaks too, and insists on the padding of the last quantum.\<close>

definition b64std_Decode :: "string \<Rightarrow> bytes option" where
  "b64std_Decode s =
     (let cs = filter (\<lambda>c. c \<noteq> CHR 0x0A \<and> c \<noteq> CHR 0x0D) s;
          body = takeWhile (\<lambda>c. c \<noteq> CHR ''='') cs;
          pad = length cs - length body;
          vs = map b64std_val body
      in if length cs mod 4 \<noteq> 0 \<or> pad > 2 \<or> drop (length body) cs \<noteq> replicate pad (CHR ''='') \<or> None \<in> set vs
         then None else b64_quanta (map the vs))"


subsection \<open>Hexadecimal text has no white space\<close>


definition hex_chars :: string where
  "hex_chars = map hex_char [0..<16]"

lemma hex_chars_eq: "hex_chars = ''0123456789abcdef''"
  by code_simp

lemma hex_Encode_chars: "set (hex_EncodeToString bs) \<subseteq> set hex_chars"
proof -
  have "hex_char d \<in> set hex_chars" if "d < 16" for d
    using that by (simp add: hex_chars_def)
  moreover have "unat b div 16 < 16" "unat b mod 16 < 16" for b :: byte
    using unat_byte_less [of b] by simp_all
  ultimately show ?thesis by (auto simp: hex_EncodeToString_def)
qed

lemma trim_left_id: "(\<And>w. w \<in> set ws \<Longrightarrow> w \<noteq> [] \<and> hd w \<notin> S) \<Longrightarrow> set s \<subseteq> S \<Longrightarrow> trim_left ws n s = s"
proof (cases n)
  case (Suc m)
  assume w: "\<And>w. w \<in> set ws \<Longrightarrow> w \<noteq> [] \<and> hd w \<notin> S" and s: "set s \<subseteq> S"
  have "take (length v) s \<noteq> v" if "v \<in> set ws" for v
    using w [OF that] s by (cases v; cases s) auto
  then have "find (\<lambda>v. take (length v) s = v) ws = None" by (simp add: find_None_iff)
  then show ?thesis using Suc by simp
qed simp

lemma TrimSpace_hex [simp]: "TrimSpace (hex_EncodeToString bs) = hex_EncodeToString bs"
proof -
  let ?code = "\<lambda>c. of_char c \<in> {48 :: nat..57} \<union> {97..102}"
  have hex: "?code c" if "c \<in> set hex_chars" for c
    using that unfolding hex_chars_eq by auto
  have "\<forall>w \<in> set go_spaces. w \<noteq> [] \<and> \<not> ?code (hd w) \<and> \<not> ?code (hd (rev w))"
    by (simp add: go_spaces_def)
  then have sp: "\<forall>w \<in> set go_spaces. w \<noteq> [] \<and> hd w \<notin> set hex_chars \<and> hd (rev w) \<notin> set hex_chars"
    using hex by blast
  have l: "trim_left go_spaces n (hex_EncodeToString bs) = hex_EncodeToString bs" for n
    using sp hex_Encode_chars by (intro trim_left_id [of _ "set hex_chars"]) blast+
  have r: "trim_left (map rev go_spaces) n (rev (hex_EncodeToString bs)) = rev (hex_EncodeToString bs)" for n
    using sp hex_Encode_chars [of bs] by (intro trim_left_id [of _ "set hex_chars"]) auto
  show ?thesis unfolding TrimSpace_def Let_def l r by simp
qed

end
