(* ===== verification/Access.thy ===== *)
theory Access
  imports Database Go_Strings
begin

text \<open>
  Users, clusters and members of the REST API: authentication (\<open>src/server/internal/auth\<close>,
  \<open>api/auth_handlers.go\<close>), role checks (\<open>api/rbac.go\<close>, \<open>authorizeClusterOwner\<close>), the cluster, member and
  user handlers (\<open>api/cluster_handlers.go\<close>, \<open>api/member_handlers.go\<close>, \<open>api/user_handlers.go\<close>,
  \<open>deleteCluster\<close>) and the personal cluster of a new user (\<open>bootstrap\<close>).

  A handler takes the request, the authenticated user where there is one, its path and body
  parameters (\<open>None\<close> for a body that does not decode) and the database; it gives the new database and
  an API error or the response. A transaction that does not commit gives the database of its start.
\<close>

type_synonym actor = "uuid \<times> User"

subsection \<open>Authentication\<close>

definition ParseToken :: "request \<Rightarrow> string \<Rightarrow> string option" where
  "ParseToken q t = (case rq_jwt q t of None \<Rightarrow> None | Some s \<Rightarrow> if s = '''' then None else Some s)"

definition Middleware :: "request \<Rightarrow> string \<Rightarrow> db \<Rightarrow> actor option" where
  "Middleware q h d =
     (if take 7 h \<noteq> ''Bearer '' then None
      else case ParseToken q (drop 7 h) of
        None \<Rightarrow> None
      | Some uid \<Rightarrow> (case rq_parse q uid of
          None \<Rightarrow> None
        | Some i \<Rightarrow> (case rd q ''GetUserByID'' (GetUserByID i d) of None \<Rightarrow> None | Some u \<Rightarrow> Some (i, u))))"

definition authErr :: api_error where
  "authErr = proto_Err 401 ''UNAUTHORIZED'' ''invalid token''"

definition authed :: "request \<Rightarrow> string \<Rightarrow> (actor \<Rightarrow> db \<Rightarrow> db \<times> (api_error + 'a)) \<Rightarrow> db \<Rightarrow> db \<times> (api_error + 'a)" where
  "authed q h f d = (case Middleware q h d of None \<Rightarrow> (d, Inl authErr) | Some a \<Rightarrow> f a d)"

record userDTO =
  dto_ID :: uuid
  dto_Email :: string
  dto_DisplayName :: string
  dto_IsAdmin :: bool
  dto_LastLoginAt :: "go_time option"

definition newUserDTO :: "uuid \<Rightarrow> string \<Rightarrow> string \<Rightarrow> userDTO" where
  "newUserDTO i em name = \<lparr>dto_ID = i, dto_Email = em, dto_DisplayName = name, dto_IsAdmin = False, dto_LastLoginAt = None\<rparr>"

text \<open>Writing an audit row is best effort everywhere outside transactions.\<close>

definition audit :: "request \<Rightarrow> uuid option \<Rightarrow> uuid option \<Rightarrow> uuid option \<Rightarrow> string \<Rightarrow> (string \<times> string) list \<Rightarrow> db \<Rightarrow> db" where
  "audit q u c n act meta d =
     (case wr q ''InsertAuditLog'' (InsertAuditLog \<lparr>au_UserID = u, au_ClusterID = c, au_NodeID = n, au_Action = act,
         au_Metadata = meta, au_CreatedAt = rq_now q\<rparr> d) of Inl _ \<Rightarrow> d | Inr d' \<Rightarrow> d')"

definition auditUser :: "request \<Rightarrow> uuid \<Rightarrow> string \<Rightarrow> (string \<times> string) list \<Rightarrow> db \<Rightarrow> db" where
  "auditUser q u act meta = audit q (Some u) None None act meta"

definition auditMember :: "request \<Rightarrow> uuid \<Rightarrow> uuid \<Rightarrow> string \<Rightarrow> (string \<times> string) list \<Rightarrow> db \<Rightarrow> db" where
  "auditMember q u c act meta = audit q (Some u) (Some c) None act meta"

definition auditNode :: "request \<Rightarrow> uuid \<Rightarrow> uuid \<Rightarrow> uuid \<Rightarrow> string \<Rightarrow> (string \<times> string) list \<Rightarrow> db \<Rightarrow> db" where
  "auditNode q u c n act meta = audit q (Some u) (Some c) (Some n) act meta"

definition login :: "request \<Rightarrow> (string \<times> string) option \<Rightarrow> db \<Rightarrow> db \<times> (api_error + string \<times> userDTO)" where
  "login q body d =
     (case body of
        None \<Rightarrow> (d, Inl (proto_Err 400 ''INTERNAL'' ''bad request''))
      | Some (em, pw) \<Rightarrow> (case rd q ''GetUserByEmail'' (GetUserByEmail em d) of
          None \<Rightarrow> (d, Inl (proto_Err 401 ''UNAUTHORIZED'' ''invalid credentials''))
        | Some (i, u) \<Rightarrow>
            if \<not> rq_verify q (usr_PasswordHash u) pw then (d, Inl (proto_Err 401 ''UNAUTHORIZED'' ''invalid credentials''))
            else (case rq_mkjwt q i (rq_now q + 24 * Hour) of
              None \<Rightarrow> (d, Inl (proto_Err 500 ''INTERNAL'' ''token''))
            | Some t \<Rightarrow> (if rq_fails q ''TouchUserLogin'' then d else TouchUserLogin i (rq_now q) d,
                         Inr (t, newUserDTO i (usr_Email u) (usr_DisplayName u))))))"

definition me :: "request \<Rightarrow> actor \<Rightarrow> db \<Rightarrow> db \<times> (api_error + userDTO)" where
  "me q a d = (d, Inr ((newUserDTO (fst a) (usr_Email (snd a)) (usr_DisplayName (snd a)))\<lparr>dto_IsAdmin := usr_IsAdmin (snd a)\<rparr>))"

text \<open>\<open>utf8.RuneCountInString\<close>: a byte that starts no valid encoding counts as one rune.\<close>

definition byte_in :: "nat \<Rightarrow> nat \<Rightarrow> char \<Rightarrow> bool" where
  "byte_in lo hi c \<longleftrightarrow> lo \<le> of_char c \<and> of_char c \<le> hi"

definition utf8_width :: "string \<Rightarrow> nat" where
  "utf8_width s = (case s of [] \<Rightarrow> 0 | c # r \<Rightarrow>
     (let b = (of_char c :: nat);
          lo = (if b = 224 then 160 else if b = 240 then 144 else 128);
          hi = (if b = 237 then 159 else if b = 244 then 143 else 191);
          len = (if 194 \<le> b \<and> b \<le> 223 then 2 else if 224 \<le> b \<and> b \<le> 239 then 3 else if 240 \<le> b \<and> b \<le> 244 then 4 else 1)
      in if len \<noteq> 1 \<and> len \<le> length s \<and> byte_in lo hi (hd r) \<and> list_all (byte_in 128 191) (take (len - 2) (tl r))
         then len else 1))"

function RuneCountInString :: "string \<Rightarrow> nat" where
  "RuneCountInString s = (if s = [] then 0 else Suc (RuneCountInString (drop (utf8_width s) s)))"
  by pat_completeness auto
termination
  by (relation "measure length") (auto simp: utf8_width_def Let_def split: list.splits)

declare RuneCountInString.simps [simp del]

definition updateMe :: "request \<Rightarrow> actor \<Rightarrow> string option \<Rightarrow> db \<Rightarrow> db \<times> (api_error + userDTO)" where
  "updateMe q a body d =
     (case body of
        None \<Rightarrow> (d, Inl (proto_Err 400 ''INTERNAL'' ''bad request''))
      | Some s \<Rightarrow>
          let name = TrimSpace s in
          if RuneCountInString name > 64 then (d, Inl (proto_Err 400 ''INTERNAL'' ''display_name too long (max 64)''))
          else if rq_fails q ''UpdateUserDisplayName'' then (d, Inl (proto_Err 500 ''INTERNAL'' ''update profile''))
          else (UpdateUserDisplayName (fst a) name d, Inr (newUserDTO (fst a) (usr_Email (snd a)) name)))"

definition changePassword :: "request \<Rightarrow> actor \<Rightarrow> (string \<times> string) option \<Rightarrow> db \<Rightarrow> db \<times> (api_error + unit)" where
  "changePassword q a body d =
     (case body of
        None \<Rightarrow> (d, Inl (proto_Err 400 ''INTERNAL'' ''current_password and new_password required''))
      | Some (cur, new) \<Rightarrow>
          if cur = '''' \<or> new = '''' then (d, Inl (proto_Err 400 ''INTERNAL'' ''current_password and new_password required''))
          else if \<not> rq_verify q (usr_PasswordHash (snd a)) cur then (d, Inl (proto_Err 401 ''UNAUTHORIZED'' ''invalid credentials''))
          else if length new < 8 then (d, Inl (proto_Err 400 ''INTERNAL'' ''new password must be at least 8 characters''))
          else (case rq_bcrypt q new of
            None \<Rightarrow> (d, Inl (proto_Err 500 ''INTERNAL'' ''hash password''))
          | Some h \<Rightarrow>
              if rq_fails q ''UpdateUserPassword'' then (d, Inl (proto_Err 500 ''INTERNAL'' ''update password''))
              else (auditUser q (fst a) ''user.password_change'' [] (UpdateUserPassword (fst a) h d), Inr ())))"

subsection \<open>Role checks\<close>

definition roleRank :: "string \<Rightarrow> nat" where
  "roleRank r = (if r = ''operator'' then 1 else if r = ''owner'' then 2 else 0)"

definition authorizeNodeRole :: "request \<Rightarrow> actor \<Rightarrow> uuid \<Rightarrow> string \<Rightarrow> bool \<Rightarrow> db \<Rightarrow> api_error + Node" where
  "authorizeNodeRole q a i minRole ignoreDisabled d =
     (case rd q ''GetNodeByID'' (GetNodeByID i d) of
        None \<Rightarrow> Inl (proto_Err 404 ''NODE_NOT_FOUND'' ''node not found'')
      | Some n \<Rightarrow> (case rd q ''GetMemberRole'' (GetMemberRole (nd_ClusterID n) (fst a) d) of
          None \<Rightarrow> Inl (proto_Err 404 ''NODE_NOT_FOUND'' ''node not found'')
        | Some r \<Rightarrow>
            if roleRank r < roleRank minRole then Inl (proto_Err 403 ''FORBIDDEN'' ''insufficient role'')
            else if \<not> ignoreDisabled \<and> nd_Status n = ''disabled'' then Inl (proto_Err 403 ''NODE_DISABLED'' ''node is disabled'')
            else Inr n))"

definition requireMinRole :: "request \<Rightarrow> actor \<Rightarrow> uuid \<Rightarrow> string \<Rightarrow> db \<Rightarrow> api_error + Node" where
  "requireMinRole q a i minRole d = authorizeNodeRole q a i minRole False d"

definition requireMinRoleIgnoreDisabled :: "request \<Rightarrow> actor \<Rightarrow> uuid \<Rightarrow> string \<Rightarrow> db \<Rightarrow> api_error + Node" where
  "requireMinRoleIgnoreDisabled q a i minRole d = authorizeNodeRole q a i minRole True d"

definition resolveCluster :: "request \<Rightarrow> string \<Rightarrow> db \<Rightarrow> api_error + uuid \<times> Cluster" where
  "resolveCluster q s d =
     (case (case rq_parse q s of Some i \<Rightarrow> rd q ''GetClusterByID'' (GetClusterByID i d)
            | None \<Rightarrow> rd q ''GetClusterByName'' (GetClusterByName s d)) of
        None \<Rightarrow> Inl (proto_Err 404 ''CLUSTER_NOT_FOUND'' ''cluster not found'')
      | Some c \<Rightarrow> Inr c)"

definition authorizeClusterOwner :: "request \<Rightarrow> actor \<Rightarrow> string \<Rightarrow> db \<Rightarrow> api_error + uuid \<times> Cluster" where
  "authorizeClusterOwner q a s d =
     (case (case rq_parse q s of Some i \<Rightarrow> rd q ''GetClusterByID'' (GetClusterByID i d)
            | None \<Rightarrow> rd q ''GetClusterByName'' (GetClusterByName s d)) of
        None \<Rightarrow> Inl (proto_Err 404 ''CLUSTER_NOT_FOUND'' ''cluster not found'')
      | Some c \<Rightarrow>
          if rq_fails q ''owner check'' \<or> GetMemberRole (fst c) (fst a) d \<noteq> Some ''owner''
          then Inl (proto_Err 403 ''FORBIDDEN'' ''owner role required'') else Inr c)"

subsection \<open>Clusters\<close>

definition listClusters :: "request \<Rightarrow> actor \<Rightarrow> db \<Rightarrow> db \<times> (api_error + ClusterRow list)" where
  "listClusters q a d =
     (if rq_fails q ''ListClustersForUser'' then (d, Inl (proto_Err 500 ''INTERNAL'' ''list clusters''))
      else (d, Inr (ListClustersForUser q (fst a) d)))"

definition getCluster :: "request \<Rightarrow> actor \<Rightarrow> string \<Rightarrow> db \<Rightarrow> db \<times> (api_error + uuid \<times> string \<times> bool \<times> nat \<times> nat)" where
  "getCluster q a s d =
     (case resolveCluster q s d of
        Inl e \<Rightarrow> (d, Inl e)
      | Inr (c, r) \<Rightarrow> (case rd q ''GetMemberRole'' (GetMemberRole c (fst a) d) of
          None \<Rightarrow> (d, Inl (proto_Err 404 ''CLUSTER_NOT_FOUND'' ''cluster not found''))
        | Some _ \<Rightarrow>
            if rq_fails q ''ListMembers'' then (d, Inl (proto_Err 500 ''INTERNAL'' ''list members''))
            else if rq_fails q ''CountNodesInCluster'' then (d, Inl (proto_Err 500 ''INTERNAL'' ''count nodes''))
            else (d, Inr (c, cl_Name r, cl_Personal r, length (ListMembers q c d), CountNodesInCluster c d))))"

definition renameCluster :: "request \<Rightarrow> actor \<Rightarrow> string \<Rightarrow> string option \<Rightarrow> db \<Rightarrow> db \<times> (api_error + uuid \<times> string)" where
  "renameCluster q a s body d =
     (case authorizeClusterOwner q a s d of
        Inl e \<Rightarrow> (d, Inl e)
      | Inr (c, r) \<Rightarrow>
          if body = None \<or> body = Some '''' then (d, Inl (proto_Err 400 ''INTERNAL'' ''name required''))
          else (case wr q ''RenameCluster'' (RenameCluster c (the body) d) of
            Inl (PgError code _) \<Rightarrow>
              if code = ''23505'' then (d, Inl (proto_Err 400 ''INTERNAL'' ''cluster name exists''))
              else (d, Inl (proto_Err 500 ''INTERNAL'' ''rename cluster''))
          | Inl _ \<Rightarrow> (d, Inl (proto_Err 500 ''INTERNAL'' ''rename cluster''))
          | Inr d' \<Rightarrow> (auditMember q (fst a) c ''cluster.rename'' [(''from'', cl_Name r), (''to'', the body)] d',
                       Inr (c, the body))))"

definition clusterLimit :: "int \<Rightarrow> int" where
  "clusterLimit cfg = (if cfg > 0 then cfg else 20)"

definition createCluster :: "int \<Rightarrow> request \<Rightarrow> actor \<Rightarrow> string option \<Rightarrow> db \<Rightarrow> db \<times> (api_error + uuid \<times> string)" where
  "createCluster cfg q a body d =
     (if body = None \<or> body = Some '''' then (d, Inl (proto_Err 400 ''INTERNAL'' ''name required''))
      else if \<not> rq_fails q ''CountOwnedLiveClusters'' \<and> int (CountOwnedLiveClusters (fst a) d) \<ge> clusterLimit cfg
      then (d, Inl (proto_Err 400 ''INTERNAL'' ''cluster limit reached''))
      else (case wr q ''CreateCluster'' (CreateCluster (rq_new q 0) (the body) (fst a) False d) of
          Inl (PgError code _) \<Rightarrow>
            if code = ''23505'' then (d, Inl (proto_Err 400 ''INTERNAL'' ''cluster name exists''))
            else (d, Inl (proto_Err 500 ''INTERNAL'' ''create cluster''))
        | Inl _ \<Rightarrow> (d, Inl (proto_Err 500 ''INTERNAL'' ''create cluster''))
        | Inr d1 \<Rightarrow> (case wr q ''AddMembership'' (AddMembership (rq_new q 0) (fst a) ''owner'' d1) of
              Inl _ \<Rightarrow> (d1, Inl (proto_Err 500 ''INTERNAL'' ''membership''))
            | Inr d2 \<Rightarrow> (d2, Inr (rq_new q 0, the body)))))"

definition deleteCluster :: "request \<Rightarrow> actor \<Rightarrow> string \<Rightarrow> db \<Rightarrow> db \<times> (api_error + unit)" where
  "deleteCluster q a s d =
     (case authorizeClusterOwner q a s d of
        Inl e \<Rightarrow> (d, Inl e)
      | Inr (c, r) \<Rightarrow>
          if rq_fails q ''CountNodesInCluster'' then (d, Inl (proto_Err 500 ''INTERNAL'' ''count nodes''))
          else if CountNodesInCluster c d > 0
          then (d, Inl (proto_Err 409 ''CLUSTER_NOT_EMPTY'' ''cluster still has nodes; disable or remove them first''))
          else if rq_fails q ''SoftDeleteCluster'' then (d, Inl (proto_Err 500 ''INTERNAL'' ''delete cluster''))
          else (auditMember q (fst a) c ''cluster.delete'' [(''name'', cl_Name r)] (snd (SoftDeleteCluster c (rq_now q) d)), Inr ()))"

subsection \<open>Members\<close>

definition listMembers :: "request \<Rightarrow> actor \<Rightarrow> string \<Rightarrow> db \<Rightarrow> db \<times> (api_error + (uuid \<times> string \<times> string \<times> string) list)" where
  "listMembers q a s d =
     (case resolveCluster q s d of
        Inl e \<Rightarrow> (d, Inl e)
      | Inr (c, r) \<Rightarrow> (case rd q ''GetMemberRole'' (GetMemberRole c (fst a) d) of
          None \<Rightarrow> (d, Inl (proto_Err 404 ''CLUSTER_NOT_FOUND'' ''cluster not found''))
        | Some _ \<Rightarrow>
            if rq_fails q ''ListMembers'' then (d, Inl (proto_Err 500 ''INTERNAL'' ''list members''))
            else (d, Inr (ListMembers q c d))))"

record addMemberReq =
  am_Email :: string
  am_UserID :: string
  am_Role :: string

text \<open>Which user an \<open>addMember\<close> body means: the e-mail address wins over the id.\<close>

definition addMember_target :: "request \<Rightarrow> addMemberReq \<Rightarrow> db \<Rightarrow> api_error + uuid" where
  "addMember_target q b d =
     (if am_Email b \<noteq> '''' then
        (case rd q ''GetUserByEmail'' (GetUserByEmail (am_Email b) d) of
           None \<Rightarrow> Inl (proto_Err 404 ''USER_NOT_FOUND'' ''user not found'')
         | Some (i, _) \<Rightarrow> Inr i)
      else (case rq_parse q (am_UserID b) of
           None \<Rightarrow> Inl (proto_Err 400 ''INTERNAL'' ''invalid user_id'')
         | Some i \<Rightarrow> (case rd q ''GetUserByID'' (GetUserByID i d) of
             None \<Rightarrow> Inl (proto_Err 404 ''USER_NOT_FOUND'' ''user not found'')
           | Some _ \<Rightarrow> Inr i)))"

definition addMember :: "request \<Rightarrow> actor \<Rightarrow> string \<Rightarrow> addMemberReq option \<Rightarrow> db \<Rightarrow> db \<times> (api_error + uuid \<times> string)" where
  "addMember q a s body d =
     (case authorizeClusterOwner q a s d of
        Inl e \<Rightarrow> (d, Inl e)
      | Inr (c, _) \<Rightarrow> (case body of
          None \<Rightarrow> (d, Inl (proto_Err 400 ''INTERNAL'' ''email (or user_id) and role required''))
        | Some b \<Rightarrow>
            if am_Email b = '''' \<and> am_UserID b = ''''
            then (d, Inl (proto_Err 400 ''INTERNAL'' ''email (or user_id) and role required''))
            else if am_Role b \<notin> set validRoles
            then (d, Inl (proto_Err 400 ''INTERNAL'' ''role must be owner, operator or viewer''))
            else (case addMember_target q b d of
              Inl e \<Rightarrow> (d, Inl e)
            | Inr u \<Rightarrow> (case wr q ''AddMember'' (AddMember c u (am_Role b) d) of
                Inl (PgError code _) \<Rightarrow>
                  if code = ''23505'' then (d, Inl (proto_Err 409 ''INTERNAL'' ''already a member''))
                  else (d, Inl (proto_Err 500 ''INTERNAL'' ''add member''))
              | Inl _ \<Rightarrow> (d, Inl (proto_Err 500 ''INTERNAL'' ''add member''))
              | Inr d' \<Rightarrow> (auditMember q (fst a) c ''cluster.member.add'' [(''user_id'', u), (''role'', am_Role b)] d',
                           Inr (u, am_Role b))))))"

text \<open>\<open>withMembershipLock\<close>: the statement runs in a transaction of its own under the cluster's advisory
  lock; when taking the lock or committing fails nothing changes.\<close>

definition withMembershipLock :: "request \<Rightarrow> (db \<Rightarrow> db_error + nat \<times> db) \<Rightarrow> db \<Rightarrow> db_error + nat \<times> db" where
  "withMembershipLock q f d =
     (if rq_fails q ''Begin'' \<or> rq_fails q ''pg_advisory_xact_lock'' then Inl Unavailable
      else case f d of Inl e \<Rightarrow> Inl e | Inr r \<Rightarrow> if rq_fails q ''Commit'' then Inl Unavailable else Inr r)"

definition removeMember :: "request \<Rightarrow> actor \<Rightarrow> string \<Rightarrow> string \<Rightarrow> db \<Rightarrow> db \<times> (api_error + unit)" where
  "removeMember q a s uid d =
     (case authorizeClusterOwner q a s d of
        Inl e \<Rightarrow> (d, Inl e)
      | Inr (c, _) \<Rightarrow> (case rq_parse q uid of
          None \<Rightarrow> (d, Inl (proto_Err 400 ''INTERNAL'' ''invalid user id''))
        | Some u \<Rightarrow> (case withMembershipLock q (\<lambda>d. wr q ''RemoveMemberGuarded'' (Inr (RemoveMemberGuarded c u d))) d of
            Inl _ \<Rightarrow> (d, Inl (proto_Err 500 ''INTERNAL'' ''remove member''))
          | Inr (n, d') \<Rightarrow>
              if n = 0 then
                (if rd q ''GetMemberRole'' (GetMemberRole c u d') = Some ''owner''
                 then (d', Inl (proto_Err 400 ''INTERNAL'' ''cannot remove the last owner''))
                 else (d', Inr ()))
              else (auditMember q (fst a) c ''cluster.member.remove'' [(''user_id'', u)] d', Inr ()))))"

definition updateMemberRole :: "request \<Rightarrow> actor \<Rightarrow> string \<Rightarrow> string \<Rightarrow> string option \<Rightarrow> db \<Rightarrow> db \<times> (api_error + uuid \<times> string)" where
  "updateMemberRole q a s uid body d =
     (case authorizeClusterOwner q a s d of
        Inl e \<Rightarrow> (d, Inl e)
      | Inr (c, _) \<Rightarrow> (case rq_parse q uid of
          None \<Rightarrow> (d, Inl (proto_Err 400 ''INTERNAL'' ''invalid user id''))
        | Some u \<Rightarrow> (case body of
            None \<Rightarrow> (d, Inl (proto_Err 400 ''INTERNAL'' ''role must be owner, operator or viewer''))
          | Some r \<Rightarrow>
              if r \<notin> set validRoles then (d, Inl (proto_Err 400 ''INTERNAL'' ''role must be owner, operator or viewer''))
              else (case rd q ''GetMemberRole'' (GetMemberRole c u d) of
                None \<Rightarrow> (d, Inl (proto_Err 404 ''CLUSTER_NOT_FOUND'' ''not a member''))
              | Some old \<Rightarrow> (case withMembershipLock q (\<lambda>d. wr q ''UpdateMemberRole'' (UpdateMemberRole c u r d)) d of
                  Inl _ \<Rightarrow> (d, Inl (proto_Err 500 ''INTERNAL'' ''update member role''))
                | Inr (n, d') \<Rightarrow>
                    if n = 0 then (d', Inl (proto_Err 400 ''INTERNAL'' ''cannot demote the last owner''))
                    else (auditMember q (fst a) c ''cluster.member.role'' [(''user_id'', u), (''from'', old), (''to'', r)] d',
                          Inr (u, r)))))))"

subsection \<open>Users\<close>

text \<open>\<open>strings.ToLower\<close> on the bytes that survive the filter \<open>[a-z0-9._-]\<close>: ASCII letters, and the two other
  code points whose lower case is an ASCII letter (U+212A KELVIN SIGN and U+0130).\<close>

fun lower_local :: "string \<Rightarrow> string" where
  "lower_local [] = []"
| "lower_local (c # r) =
     (if take 3 (c # r) = map char_of [226 :: nat, 132, 170] then CHR ''k'' # lower_local (drop 2 r)
      else if take 2 (c # r) = map char_of [196 :: nat, 176] then CHR ''i'' # lower_local (drop 1 r)
      else if byte_in 65 90 c then char_of (of_char c + 32 :: nat) # lower_local r
      else c # lower_local r)"

definition local_char :: "char \<Rightarrow> bool" where
  "local_char c \<longleftrightarrow> byte_in 97 122 c \<or> byte_in 48 57 c \<or> c \<in> set ''._-''"

definition PersonalClusterName :: "string \<Rightarrow> string" where
  "PersonalClusterName em =
     (let low = lower_local em;
          loc = filter local_char (case strings_Index low ''@'' of Some n \<Rightarrow> take n low | None \<Rightarrow> low)
      in if loc = '''' then ''user-default'' else take 40 loc @ ''-default'')"

text \<open>The savepoint loop: attempt \<open>i - 2\<close> uses a fresh id; a unique violation rolls back to the savepoint and
  tries the next suffix, at most until \<open>i\<close> exceeds 5.\<close>

function personal_loop :: "request \<Rightarrow> uuid \<Rightarrow> string \<Rightarrow> string \<Rightarrow> nat \<Rightarrow> db \<Rightarrow> db_error + uuid \<times> db" where
  "personal_loop q u base name i d =
     (if rq_fails q ''SAVEPOINT'' then Inl Unavailable
      else case wr q ''CreateCluster'' (CreateCluster (rq_new q (i - 1)) name u True d) of
        Inr d1 \<Rightarrow>
          if rq_fails q ''RELEASE SAVEPOINT'' then Inl Unavailable
          else (case wr q ''AddMembership'' (AddMembership (rq_new q (i - 1)) u ''owner'' d1) of
                  Inl e \<Rightarrow> Inl e | Inr d2 \<Rightarrow> Inr (rq_new q (i - 1), d2))
      | Inl e \<Rightarrow>
          if (case e of PgError code _ \<Rightarrow> code \<noteq> ''23505'' | _ \<Rightarrow> True) \<or> i > 5 then Inl e
          else if rq_fails q ''ROLLBACK TO SAVEPOINT'' then Inl Unavailable
          else personal_loop q u (take 40 base) (take 40 base @ ''-'' @ nat_decimal i) (Suc i) d)"
  by pat_completeness auto
termination
  by (relation "measure (\<lambda>(q, u, base, name, i, d). 6 - i)") auto

declare personal_loop.simps [simp del]

definition EnsurePersonalCluster :: "request \<Rightarrow> uuid \<Rightarrow> string \<Rightarrow> db \<Rightarrow> db_error + uuid \<times> db" where
  "EnsurePersonalCluster q u em d =
     (let base = PersonalClusterName em in personal_loop q u base base 2 d)"

record createUserReq =
  cu_Email :: string
  cu_DisplayName :: string
  cu_Password :: string

definition createUser :: "request \<Rightarrow> actor \<Rightarrow> createUserReq option \<Rightarrow> db \<Rightarrow> db \<times> (api_error + userDTO)" where
  "createUser q a body d =
     (if \<not> usr_IsAdmin (snd a) then (d, Inl (proto_Err 403 ''FORBIDDEN'' ''admin required''))
      else case body of
        None \<Rightarrow> (d, Inl (proto_Err 400 ''INTERNAL'' ''email and password required''))
      | Some b \<Rightarrow>
          if cu_Email b = '''' \<or> cu_Password b = '''' then (d, Inl (proto_Err 400 ''INTERNAL'' ''email and password required''))
          else (case rq_bcrypt q (cu_Password b) of
            None \<Rightarrow> (d, Inl (proto_Err 500 ''INTERNAL'' ''hash password''))
          | Some h \<Rightarrow>
              if \<not> rq_fails q ''CountUsersByEmail'' \<and> CountUsersByEmail (cu_Email b) d > 0
              then (d, Inl (proto_Err 409 ''INTERNAL'' ''email already exists''))
              else if rq_fails q ''Begin'' then (d, Inl (proto_Err 500 ''INTERNAL'' ''tx''))
              else (case wr q ''CreateUserByEmail'' (CreateUserByEmail (rq_new q 0) (cu_Email b) (cu_DisplayName b) h d) of
                Inl (PgError code _) \<Rightarrow>
                  if code = ''23505'' then (d, Inl (proto_Err 409 ''INTERNAL'' ''email already exists''))
                  else (d, Inl (proto_Err 500 ''INTERNAL'' ''create user''))
              | Inl _ \<Rightarrow> (d, Inl (proto_Err 500 ''INTERNAL'' ''create user''))
              | Inr d1 \<Rightarrow> (case EnsurePersonalCluster q (rq_new q 0) (cu_Email b) d1 of
                  Inl _ \<Rightarrow> (d, Inl (proto_Err 500 ''INTERNAL'' ''default cluster''))
                | Inr (c, d2) \<Rightarrow>
                    if rq_fails q ''Commit'' then (d, Inl (proto_Err 500 ''INTERNAL'' ''commit''))
                    else (auditUser q (fst a) ''user.create'' [(''email'', cu_Email b), (''default_cluster_id'', c)] d2,
                          Inr (newUserDTO (rq_new q 0) (cu_Email b) (cu_DisplayName b)))))))"

definition listUsers :: "request \<Rightarrow> actor \<Rightarrow> db \<Rightarrow> db \<times> (api_error + userDTO list)" where
  "listUsers q a d =
     (if \<not> usr_IsAdmin (snd a) then (d, Inl (proto_Err 403 ''FORBIDDEN'' ''admin required''))
      else if rq_fails q ''ListUsers'' then (d, Inl (proto_Err 500 ''INTERNAL'' ''list users''))
      else (d, Inr (map (\<lambda>(i, u). (newUserDTO i (usr_Email u) (usr_DisplayName u))
             \<lparr>dto_IsAdmin := usr_IsAdmin u, dto_LastLoginAt := usr_LastLoginAt u\<rparr>) (ListUsers q d))))"

record updateUserReq =
  uu_DisplayName :: "string option"
  uu_IsAdmin :: "bool option"
  uu_Password :: "string option"

text \<open>The three parts of \<open>updateUser\<close>, run in this order; an error in a later part leaves the effects of the
  earlier ones in place.\<close>

definition updateUser_name :: "request \<Rightarrow> actor \<Rightarrow> uuid \<Rightarrow> User \<Rightarrow> string option \<Rightarrow> db \<Rightarrow> db \<times> (api_error + User)" where
  "updateUser_name q a i t req d =
     (case req of
        Some s \<Rightarrow>
          if s = usr_DisplayName t then (d, Inr t)
          else if rq_fails q ''UpdateUserDisplayName'' then (d, Inl (proto_Err 500 ''INTERNAL'' ''update display name''))
          else (auditUser q (fst a) ''user.update'' [(''user_id'', i)] (UpdateUserDisplayName i s d),
                Inr (t\<lparr>usr_DisplayName := s\<rparr>))
      | None \<Rightarrow> (d, Inr t))"

definition updateUser_password :: "request \<Rightarrow> actor \<Rightarrow> uuid \<Rightarrow> User \<Rightarrow> string option \<Rightarrow> db \<Rightarrow> db \<times> (api_error + User)" where
  "updateUser_password q a i t req d =
     (case req of
        Some pw \<Rightarrow>
          if pw = '''' then (d, Inl (proto_Err 400 ''INTERNAL'' ''password must not be empty''))
          else (case rq_bcrypt q pw of
            None \<Rightarrow> (d, Inl (proto_Err 500 ''INTERNAL'' ''hash password''))
          | Some h \<Rightarrow>
              if rq_fails q ''UpdateUserPassword'' then (d, Inl (proto_Err 500 ''INTERNAL'' ''update password''))
              else (auditUser q (fst a) ''user.password.reset'' [(''user_id'', i)] (UpdateUserPassword i h d), Inr t))
      | None \<Rightarrow> (d, Inr t))"

definition updateUser_admin :: "request \<Rightarrow> actor \<Rightarrow> uuid \<Rightarrow> User \<Rightarrow> bool option \<Rightarrow> db \<Rightarrow> db \<times> (api_error + User)" where
  "updateUser_admin q a i t req d =
     (case req of
        Some b \<Rightarrow>
          if b = usr_IsAdmin t then (d, Inr t)
          else if rq_fails q ''Begin'' \<or> rq_fails q ''pg_advisory_xact_lock'' \<or> rq_fails q ''UpdateUserIsAdmin''
          then (d, Inl (proto_Err 500 ''INTERNAL'' ''update is_admin''))
          else (case UpdateUserIsAdmin i b d of (n, d') \<Rightarrow>
            if n = 0 then (d, Inl (proto_Err 400 ''LAST_ADMIN'' ''cannot demote the last admin''))
            else if rq_fails q ''Commit'' then (d, Inl (proto_Err 500 ''INTERNAL'' ''update is_admin''))
            else (auditUser q (fst a) ''user.admin.toggle'' [(''user_id'', i), (''is_admin'', if b then ''true'' else ''false'')] d',
                  Inr (t\<lparr>usr_IsAdmin := b\<rparr>)))
      | None \<Rightarrow> (d, Inr t))"

definition and_then :: "db \<times> (api_error + 'a) \<Rightarrow> ('a \<Rightarrow> db \<Rightarrow> db \<times> (api_error + 'b)) \<Rightarrow> db \<times> (api_error + 'b)" where
  "and_then r f = (case snd r of Inl e \<Rightarrow> (fst r, Inl e) | Inr x \<Rightarrow> f x (fst r))"

definition updateUser :: "request \<Rightarrow> actor \<Rightarrow> string \<Rightarrow> updateUserReq option \<Rightarrow> db \<Rightarrow> db \<times> (api_error + userDTO)" where
  "updateUser q a uid body d =
     (if \<not> usr_IsAdmin (snd a) then (d, Inl (proto_Err 403 ''FORBIDDEN'' ''admin required''))
      else case rq_parse q uid of
        None \<Rightarrow> (d, Inl (proto_Err 404 ''USER_NOT_FOUND'' ''user not found''))
      | Some i \<Rightarrow> (case rd q ''GetUserByID'' (GetUserByID i d) of
          None \<Rightarrow> (d, Inl (proto_Err 404 ''USER_NOT_FOUND'' ''user not found''))
        | Some t \<Rightarrow> (case body of
            None \<Rightarrow> (d, Inl (proto_Err 400 ''INTERNAL'' ''nothing to update''))
          | Some b \<Rightarrow>
              if uu_DisplayName b = None \<and> uu_IsAdmin b = None \<and> uu_Password b = None
              then (d, Inl (proto_Err 400 ''INTERNAL'' ''nothing to update''))
              else and_then (updateUser_name q a i t (uu_DisplayName b) d) (\<lambda>t d.
                   and_then (updateUser_password q a i t (uu_Password b) d) (\<lambda>t d.
                   and_then (updateUser_admin q a i t (uu_IsAdmin b) d) (\<lambda>t d.
                     (d, Inr ((newUserDTO i (usr_Email t) (usr_DisplayName t))
                        \<lparr>dto_IsAdmin := usr_IsAdmin t, dto_LastLoginAt := usr_LastLoginAt t\<rparr>)))))))) "

text \<open>\<open>deleteUser\<close> reads its target before it takes the lock (\<open>deleteUser_read\<close>) and works in a transaction
  under the lock (\<open>deleteUser_tx\<close>); other requests can run between the two.\<close>

definition deleteUser_read :: "request \<Rightarrow> actor \<Rightarrow> string \<Rightarrow> db \<Rightarrow> api_error + uuid \<times> User" where
  "deleteUser_read q a uid d =
     (if \<not> usr_IsAdmin (snd a) then Inl (proto_Err 403 ''FORBIDDEN'' ''admin required'')
      else case rq_parse q uid of
        None \<Rightarrow> Inl (proto_Err 404 ''USER_NOT_FOUND'' ''user not found'')
      | Some i \<Rightarrow> (case rd q ''GetUserByID'' (GetUserByID i d) of
          None \<Rightarrow> Inl (proto_Err 404 ''USER_NOT_FOUND'' ''user not found'')
        | Some t \<Rightarrow> Inr (i, t)))"

definition deleteUser_tx :: "request \<Rightarrow> actor \<Rightarrow> uuid \<Rightarrow> User \<Rightarrow> db \<Rightarrow> db \<times> (api_error + unit)" where
  "deleteUser_tx q a i t d =
     (let failed = (d, Inl (proto_Err 500 ''INTERNAL'' ''delete user'')) in
      if rq_fails q ''Begin'' \<or> rq_fails q ''pg_advisory_xact_lock'' then failed
      else if usr_IsAdmin t \<and> rq_fails q ''count admins'' then failed
      else if usr_IsAdmin t \<and> CountAdmins d \<le> 1 then (d, Inl (proto_Err 400 ''LAST_ADMIN'' ''cannot delete the last admin''))
      else if rq_fails q ''CountNodesInOwnedClusters'' then failed
      else if CountNodesInOwnedClusters i d > 0
      then (d, Inl (proto_Err 409 ''USER_OWNS_NODES'' ''user still owns clusters containing nodes; move or remove those nodes first''))
      else (case wr q ''DeleteOwnedClusters'' (DeleteOwnedClusters i d) of
          Inl _ \<Rightarrow> failed
        | Inr d1 \<Rightarrow> (case wr q ''DeleteUser'' (DeleteUser i d1) of
            Inl _ \<Rightarrow> failed
          | Inr d2 \<Rightarrow>
              if rq_fails q ''Commit'' then failed
              else (auditUser q (fst a) ''user.delete'' [(''email'', usr_Email t)] d2, Inr ()))))"

definition deleteUser :: "request \<Rightarrow> actor \<Rightarrow> string \<Rightarrow> db \<Rightarrow> db \<times> (api_error + unit)" where
  "deleteUser q a uid d =
     (case deleteUser_read q a uid d of Inl e \<Rightarrow> (d, Inl e) | Inr (i, t) \<Rightarrow> deleteUser_tx q a i t d)"


subsection \<open>The access specification\<close>

text \<open>What an authenticated user may do to the database, as a step relation over SQL statements: \<open>act\<close> holds
  the steps that respect ownership, \<open>act_any\<close> adds the two that do not look at it (deleting a user, and
  a cluster whose owner row could not be written).\<close>

definition owns :: "actor \<Rightarrow> uuid \<Rightarrow> db \<Rightarrow> bool" where
  "owns a c d \<longleftrightarrow> GetMemberRole c (fst a) d = Some ''owner'' \<and> GetClusterByID c d \<noteq> None"

inductive act :: "actor \<Rightarrow> db \<Rightarrow> db \<Rightarrow> bool" where
  audit_row: "InsertAuditLog al d = Inr d' \<Longrightarrow> act a d d'"
| own_profile: "act a d (UpdateUserDisplayName (fst a) s d)"
| own_password: "rq_verify (q :: request) (usr_PasswordHash (snd a)) cur \<Longrightarrow> act a d (UpdateUserPassword (fst a) h d)"
| rename_cluster: "owns a c d \<Longrightarrow> RenameCluster c name d = Inr d' \<Longrightarrow> act a d d'"
| soft_delete: "owns a c d \<Longrightarrow> CountNodesInCluster c d = 0 \<Longrightarrow> act a d (snd (SoftDeleteCluster c now d))"
| add_member: "owns a c d \<Longrightarrow> AddMember c u r d = Inr d' \<Longrightarrow> act a d d'"
| remove_member: "owns a c d \<Longrightarrow> act a d (snd (RemoveMemberGuarded c u d))"
| change_role: "owns a c d \<Longrightarrow> UpdateMemberRole c u r d = Inr (n, d') \<Longrightarrow> act a d d'"
| create_cluster: "CreateCluster c name (fst a) False d = Inr d1 \<Longrightarrow> AddMembership c (fst a) ''owner'' d1 = Inr d' \<Longrightarrow> act a d d'"
| create_user: "usr_IsAdmin (snd a) \<Longrightarrow> CreateUser u em name h False d = Inr d1 \<Longrightarrow> CreateCluster c cn u True d1 = Inr d2
    \<Longrightarrow> AddMembership c u ''owner'' d2 = Inr d' \<Longrightarrow> act a d d'"
| admin_profile: "usr_IsAdmin (snd a) \<Longrightarrow> act a d (UpdateUserDisplayName i s d)"
| admin_password: "usr_IsAdmin (snd a) \<Longrightarrow> act a d (UpdateUserPassword i h d)"
| admin_flag: "usr_IsAdmin (snd a) \<Longrightarrow> act a d (snd (UpdateUserIsAdmin i b d))"

inductive act_any :: "actor \<Rightarrow> db \<Rightarrow> db \<Rightarrow> bool" where
  sound: "act a d d' \<Longrightarrow> act_any a d d'"
| half_cluster: "CreateCluster c name (fst a) False d = Inr d' \<Longrightarrow> act_any a d d'"
| delete_user: "usr_IsAdmin (snd a) \<Longrightarrow> (\<forall>t. tget (db_users d) i = Some t \<and> usr_IsAdmin t \<longrightarrow> CountAdmins d > 1) \<Longrightarrow>
    CountNodesInOwnedClusters i d = 0 \<Longrightarrow> DeleteOwnedClusters i d = Inr d1 \<Longrightarrow> DeleteUser i d1 = Inr d' \<Longrightarrow> act_any a d d'"

lemma act_audit:
  assumes "(act a)\<^sup>*\<^sup>* d d'"
  shows "(act a)\<^sup>*\<^sup>* d (audit q u c n ac m d')"
proof (cases "wr q ''InsertAuditLog'' (InsertAuditLog \<lparr>au_UserID = u, au_ClusterID = c, au_NodeID = n, au_Action = ac,
         au_Metadata = m, au_CreatedAt = rq_now q\<rparr> d')")
  case (Inl e)
  then show ?thesis using assms by (simp add: audit_def)
next
  case (Inr d2)
  then have "act a d' d2" by (auto intro: act.audit_row dest!: wr_InrD)
  then show ?thesis using Inr assms by (simp add: audit_def)
qed

lemma act_audits:
  assumes "(act a)\<^sup>*\<^sup>* d d'"
  shows "(act a)\<^sup>*\<^sup>* d (auditUser q u ac m d')" "(act a)\<^sup>*\<^sup>* d (auditMember q u c ac m d')"
    "(act a)\<^sup>*\<^sup>* d (auditNode q u c n ac m d')"
  by (simp_all add: auditUser_def auditMember_def auditNode_def act_audit assms)

lemma act_one: "act a d d' \<Longrightarrow> (act a)\<^sup>*\<^sup>* d d'"
  by (rule r_into_rtranclp)

lemma authorizeClusterOwner_owns:
  assumes "authorizeClusterOwner q a s d = Inr (c, r)" "db_wf d"
  shows "owns a c d" "GetClusterByID c d = Some (c, r)"
proof -
  have g: "GetClusterByID c d = Some (c, r)"
    using assms tget_in_set [of "db_clusters d" c r]
    by (auto simp: authorizeClusterOwner_def GetClusterByID_def GetClusterByName_def live_def find_Some_iff rd_def
        split: option.splits if_splits dest!: nth_mem)
  then show "GetClusterByID c d = Some (c, r)" .
  show "owns a c d"
    using assms g by (auto simp: authorizeClusterOwner_def owns_def split: option.splits if_splits)
qed


subsection \<open>The handlers refine the access specification\<close>

lemmas act_rt = act.own_profile [THEN act_one] act.own_password [THEN act_one] act.rename_cluster [THEN act_one]
  act.soft_delete [THEN act_one] act.add_member [THEN act_one] act.change_role [THEN act_one]

lemma updateMe_acts: "(act a)\<^sup>*\<^sup>* d (fst (updateMe q a body d))"
  by (auto simp: updateMe_def Let_def intro!: act_audits act_rt(1) split: option.splits)

lemma changePassword_acts: "(act a)\<^sup>*\<^sup>* d (fst (changePassword q a body d))"
  by (auto simp: changePassword_def intro!: act_audits intro: act_rt(2) split: option.splits)

lemma renameCluster_acts: "db_wf d \<Longrightarrow> (act a)\<^sup>*\<^sup>* d (fst (renameCluster q a s body d))"
  by (auto simp: renameCluster_def intro!: act_audits intro: act_rt(3) dest!: wr_InrD dest: authorizeClusterOwner_owns
      split: sum.splits db_error.splits)

lemma deleteCluster_acts: "db_wf d \<Longrightarrow> (act a)\<^sup>*\<^sup>* d (fst (deleteCluster q a s d))"
  by (auto simp: deleteCluster_def intro!: act_audits intro: act_rt(4) dest: authorizeClusterOwner_owns
      split: sum.splits)

lemma addMember_acts: "db_wf d \<Longrightarrow> (act a)\<^sup>*\<^sup>* d (fst (addMember q a s body d))"
  by (auto simp: addMember_def intro!: act_audits intro: act_rt(5) dest!: wr_InrD dest: authorizeClusterOwner_owns
      split: sum.splits db_error.splits option.splits)

lemma withMembershipLock_Inr: "withMembershipLock q f d = Inr r \<Longrightarrow> f d = Inr r"
  by (simp add: withMembershipLock_def split: if_splits sum.splits)

lemma removeMember_acts:
  assumes "db_wf d"
  shows "(act a)\<^sup>*\<^sup>* d (fst (removeMember q a s uid d))"
proof -
  have "(act a)\<^sup>*\<^sup>* d d'" if "authorizeClusterOwner q a s d = Inr (c, r)"
    "withMembershipLock q (\<lambda>d. wr q ''RemoveMemberGuarded'' (Inr (RemoveMemberGuarded c u d))) d = Inr (n, d')" for c r u n d'
    using withMembershipLock_Inr [OF that(2)] act.remove_member [OF authorizeClusterOwner_owns(1) [OF that(1) assms], of u]
    by (auto intro: act_one dest!: wr_InrD)
  then show ?thesis
    by (auto simp: removeMember_def intro!: act_audits split: sum.splits option.splits)
qed

lemma updateMemberRole_acts:
  assumes "db_wf d"
  shows "(act a)\<^sup>*\<^sup>* d (fst (updateMemberRole q a s uid body d))"
proof -
  have "(act a)\<^sup>*\<^sup>* d d'" if "authorizeClusterOwner q a s d = Inr (c, r)"
    "withMembershipLock q (\<lambda>d. wr q ''UpdateMemberRole'' (UpdateMemberRole c u new d)) d = Inr (n, d')" for c r u n d' new
    using withMembershipLock_Inr [OF that(2)] act.change_role [OF authorizeClusterOwner_owns(1) [OF that(1) assms], of u new]
    by (auto intro: act_one dest!: wr_InrD)
  then show ?thesis
    by (auto simp: updateMemberRole_def intro!: act_audits split: sum.splits option.splits)
qed


lemma AddMembership_new_cluster:
  assumes "CreateCluster c name u pers d = Inr d1" "db_wf d"
  shows "AddMembership c u ''owner'' d1 = Inr (d1\<lparr>db_members := tput (c, u) ''owner'' (db_members d)\<rparr>)"
proof -
  have "tget (db_members d) (c, u) = None"
    using assms db_wf_refs(1) [OF assms(2), of "(c, u)"]
    by (cases "tget (db_members d) (c, u)") (auto simp: CreateCluster_def Let_def member_ok_def split: if_splits)
  then show ?thesis
    using assms(1) by (auto simp: CreateCluster_def Let_def AddMembership_def AddMember_def validRoles_def split: if_splits)
qed

lemma createCluster_result:
  obtains (same) "fst (createCluster cfg q a body d) = d"
  | (half) c name d1 e where "fst (createCluster cfg q a body d) = d1" "CreateCluster c name (fst a) False d = Inr d1"
      "wr q ''AddMembership'' (AddMembership c (fst a) ''owner'' d1) = Inl e"
  | (full) c name d1 d2 where "fst (createCluster cfg q a body d) = d2" "CreateCluster c name (fst a) False d = Inr d1"
      "AddMembership c (fst a) ''owner'' d1 = Inr d2"
proof (cases "body = None \<or> body = Some [] \<or>
    (\<not> rq_fails q ''CountOwnedLiveClusters'' \<and> int (CountOwnedLiveClusters (fst a) d) \<ge> clusterLimit cfg)")
  case True
  then show thesis by (auto simp: createCluster_def intro: same)
next
  case go: False
  show thesis
  proof (cases "wr q ''CreateCluster'' (CreateCluster (rq_new q 0) (the body) (fst a) False d)")
    case (Inl e)
    then show thesis using go by (auto simp: createCluster_def intro!: same split: db_error.splits)
  next
    case (Inr d1)
    have cr: "createCluster cfg q a body d =
        (case wr q ''AddMembership'' (AddMembership (rq_new q 0) (fst a) ''owner'' d1) of
           Inl _ \<Rightarrow> (d1, Inl (proto_Err 500 ''INTERNAL'' ''membership''))
         | Inr d2 \<Rightarrow> (d2, Inr (rq_new q 0, the body)))"
    proof -
      have "\<not> (body = None \<or> body = Some [])"
        "\<not> (\<not> rq_fails q ''CountOwnedLiveClusters'' \<and> int (CountOwnedLiveClusters (fst a) d) \<ge> clusterLimit cfg)"
        using go by blast+
      then show ?thesis unfolding createCluster_def by (simp only: if_False Inr sum.case)
    qed
    show thesis
    proof (cases "wr q ''AddMembership'' (AddMembership (rq_new q 0) (fst a) ''owner'' d1)")
      case (Inl e)
      show thesis by (rule half [OF _ wr_InrD [OF Inr] Inl]) (simp add: cr Inl)
    next
      case (Inr d2)
      show thesis by (rule full [OF _ wr_InrD [OF \<open>wr q ''CreateCluster'' _ = _\<close>] wr_InrD [OF Inr]]) (simp add: cr Inr)
    qed
  qed
qed

lemma createCluster_acts:
  assumes "db_wf d" "\<not> rq_fails q ''AddMembership''"
  shows "(act a)\<^sup>*\<^sup>* d (fst (createCluster cfg q a body d))"
proof (cases rule: createCluster_result [of cfg q a body d])
  case (half c name d1)
  then show ?thesis using AddMembership_new_cluster [OF half(2) assms(1)] assms(2) by (simp add: wr_def)
next
  case (full c name d1 d2)
  then show ?thesis using act.create_cluster by (blast intro: act_one)
qed simp

lemma createCluster_any: "db_wf d \<Longrightarrow> (act_any a)\<^sup>*\<^sup>* d (fst (createCluster cfg q a body d))"
proof (cases rule: createCluster_result [of cfg q a body d])
  case (half c name d1)
  then show ?thesis using act_any.half_cluster by blast
next
  case (full c name d1 d2)
  then show ?thesis using act_any.sound [OF act.create_cluster] by blast
qed simp

lemma personal_loop_Inr:
  "personal_loop q u base name i d = Inr (c, d2) \<Longrightarrow>
    \<exists>cn d1. CreateCluster c cn u True d = Inr d1 \<and> AddMembership c u ''owner'' d1 = Inr d2"
proof (induction q u base name i d rule: personal_loop.induct)
  case (1 q u base name i d)
  note prem = 1(2) [unfolded personal_loop.simps [of q u base name i d]]
  show ?case
  proof (cases "wr q ''CreateCluster'' (CreateCluster (rq_new q (i - 1)) name u True d)")
    case (Inr d1)
    then show ?thesis using prem by (auto split: if_splits sum.splits dest!: wr_InrD)
  next
    case (Inl e)
    then show ?thesis using prem 1(1) [OF _ Inl] by (simp split: if_splits)
  qed
qed

lemma createUser_acts: "(act a)\<^sup>*\<^sup>* d (fst (createUser q a body d))"
proof -
  have "(act a)\<^sup>*\<^sup>* d d2" if "usr_IsAdmin (snd a)" "CreateUserByEmail u em name h d = Inr d1"
    "EnsurePersonalCluster q u em' d1 = Inr (c, d2)" for u em em' name h d1 c d2
    using that personal_loop_Inr [of q u _ _ 2 d1 c d2] act.create_user [of a]
    unfolding EnsurePersonalCluster_def Let_def CreateUserByEmail_def by (blast intro: act_one)
  then show ?thesis
    by (auto simp: createUser_def intro!: act_audits dest!: wr_InrD split: option.splits sum.splits db_error.splits)
qed

lemma and_then_acts:
  assumes "(act a)\<^sup>*\<^sup>* d (fst r)" "\<And>x d. (act a)\<^sup>*\<^sup>* d (fst (f x d))"
  shows "(act a)\<^sup>*\<^sup>* d (fst (and_then r f))"
  using assms by (auto simp: and_then_def split: sum.splits intro: rtranclp_trans)

lemma updateUser_acts: "(act a)\<^sup>*\<^sup>* d (fst (updateUser q a uid body d))"
proof (cases "usr_IsAdmin (snd a)")
  case True
  have "(act a)\<^sup>*\<^sup>* d (fst (updateUser_name q a i t r d))" for i t r d
    by (auto simp: updateUser_name_def intro!: act_audits intro: act_one act.admin_profile True split: option.splits)
  moreover have "(act a)\<^sup>*\<^sup>* d (fst (updateUser_password q a i t r d))" for i t r d
    by (auto simp: updateUser_password_def intro!: act_audits intro: act_one act.admin_password True split: option.splits)
  moreover have "(act a)\<^sup>*\<^sup>* d (fst (updateUser_admin q a i t r d))" for i t r d
    using act_one [OF act.admin_flag [OF True], of d i]
    by (auto simp: updateUser_admin_def intro!: act_audits split: option.splits prod.splits) (metis snd_conv)+
  ultimately show ?thesis
    by (auto simp: updateUser_def intro!: and_then_acts split: option.splits)
qed (simp add: updateUser_def)

lemma act_any_acts: "(act a)\<^sup>*\<^sup>* d d' \<Longrightarrow> (act_any a)\<^sup>*\<^sup>* d d'"
  by (rule rtranclp_mono [THEN predicate2D, of "act a"]) (auto intro: act_any.sound)

lemma deleteUser_any: "(act_any a)\<^sup>*\<^sup>* d (fst (deleteUser q a uid d))"
proof -
  have main: "(act_any a)\<^sup>*\<^sup>* d d2" if "usr_IsAdmin (snd a)" "tget (db_users d) i = Some t"
    "\<not> (usr_IsAdmin t \<and> CountAdmins d \<le> 1)" "\<not> CountNodesInOwnedClusters i d > 0"
    "DeleteOwnedClusters i d = Inr d1" "DeleteUser i d1 = Inr d2" for i t d1 d2
    using that act_any.delete_user [of a d i d1 d2] by auto
  have audited: "(act_any a)\<^sup>*\<^sup>* d (auditUser q u ac m d2)" if "(act_any a)\<^sup>*\<^sup>* d d2" for u ac m d2
    using that act_any_acts [OF act_audits(1) [OF rtranclp.rtrancl_refl]] rtranclp_trans by metis
  show ?thesis
    unfolding deleteUser_def deleteUser_read_def deleteUser_tx_def Let_def
    by (auto simp: GetUserByID_def intro!: audited intro: main dest!: wr_InrD rd_SomeD split: option.splits sum.splits)
qed


subsection \<open>Invariants of the access specification\<close>

lemma act_wf: "act a d d' \<Longrightarrow> db_wf d \<Longrightarrow> db_wf d'"
proof (induction rule: act.induct)
  case (create_cluster c name a d d1 d')
  then show ?case by (blast intro: wf_CreateCluster wf_AddMembership)
next
  case (create_user a u em name h d d1 c cn d2 d')
  then show ?case by (blast intro: wf_CreateUser wf_CreateCluster wf_AddMembership)
qed (blast intro: wf_InsertAuditLog wf_user_updates wf_RenameCluster wf_SoftDeleteCluster wf_AddMember
    wf_RemoveMemberGuarded wf_UpdateMemberRole)+

lemma act_any_wf: "act_any a d d' \<Longrightarrow> db_wf d \<Longrightarrow> db_wf d'"
  by (induction rule: act_any.induct)
    (blast intro: act_wf wf_CreateCluster wf_DeleteOwnedClusters wf_DeleteUser)+

lemma acts_wf: "(act_any a)\<^sup>*\<^sup>* d d' \<Longrightarrow> db_wf d \<Longrightarrow> db_wf d'"
  by (induction rule: rtranclp_induct) (simp_all add: act_any_wf)

definition is_admin :: "uuid \<Rightarrow> db \<Rightarrow> bool" where
  "is_admin i d \<longleftrightarrow> (\<exists>u. tget (db_users d) i = Some u \<and> usr_IsAdmin u)"

definition has_admin :: "db \<Rightarrow> bool" where
  "has_admin d \<longleftrightarrow> (\<exists>i. is_admin i d)"

lemma CountAdmins_card: "db_wf d \<Longrightarrow> CountAdmins d = card {i. is_admin i d}"
  unfolding CountAdmins_def is_admin_def by (rule tcount_card) simp

lemma other_admin:
  assumes "db_wf d" "CountAdmins d > 1"
  obtains j where "j \<noteq> i" "is_admin j d"
proof -
  have "1 < card {i. is_admin i d}" using assms by (simp add: CountAdmins_card)
  then have "\<not> {i. is_admin i d} \<subseteq> {i}"
    using card_mono [of "{i}" "{i. is_admin i d}"] by auto
  then show thesis using that by blast
qed

lemma is_admin_upd:
  "is_admin j (upd_user i f d) \<longleftrightarrow> (if j = i then (\<exists>u. tget (db_users d) i = Some u \<and> usr_IsAdmin (f u)) else is_admin j d)"
  by (auto simp: is_admin_def upd_user_def split: option.splits)

lemma is_admin_upd_same: "(\<And>u. usr_IsAdmin (f u) = usr_IsAdmin u) \<Longrightarrow> is_admin j (upd_user i f d) = is_admin j d"
  by (simp add: is_admin_upd) (auto simp: is_admin_def)

lemma is_admin_users: "db_users d' = db_users d \<Longrightarrow> is_admin i d' = is_admin i d"
  by (simp add: is_admin_def)

lemma member_stmt_frames:
  "RenameCluster c name d = Inr d' \<Longrightarrow> db_users d' = db_users d"
  "db_users (snd (SoftDeleteCluster c now d)) = db_users d"
  "AddMember c u r d = Inr d' \<Longrightarrow> db_users d' = db_users d"
  "AddMembership c u r d = Inr d' \<Longrightarrow> db_users d' = db_users d"
  "db_users (snd (RemoveMemberGuarded c u d)) = db_users d"
  "UpdateMemberRole c u r d = Inr (n, d') \<Longrightarrow> db_users d' = db_users d"
  "CreateCluster c name own p d = Inr d' \<Longrightarrow> db_users d' = db_users d"
  "InsertAuditLog al d = Inr d' \<Longrightarrow> db_users d' = db_users d"
  "DeleteOwnedClusters u d = Inr d' \<Longrightarrow> db_users d' = db_users d"
  by (auto simp: RenameCluster_def SoftDeleteCluster_def AddMember_def AddMembership_def RemoveMemberGuarded_def
      UpdateMemberRole_def CreateCluster_def InsertAuditLog_def DeleteOwnedClusters_def Let_def
      split: option.splits if_splits)

lemma is_admin_CreateUser: "CreateUser u em name h adm d = Inr d' \<Longrightarrow> is_admin i d \<Longrightarrow> is_admin i d'"
  by (auto simp: CreateUser_def Let_def is_admin_def split: if_splits)

lemma is_admin_flag:
  assumes "db_wf d" "has_admin d"
  shows "has_admin (snd (UpdateUserIsAdmin i b d))"
proof (cases "tget (db_users d) i \<noteq> None \<and> (b \<or> CountAdmins d > 1)")
  case True
  show ?thesis
  proof (cases b)
    case False
    then obtain j where "j \<noteq> i" "is_admin j d" using True other_admin [OF assms(1)] by blast
    then show ?thesis using True by (auto simp: UpdateUserIsAdmin_def has_admin_def is_admin_upd)
  next
    case True
    then show ?thesis using \<open>tget (db_users d) i \<noteq> None \<and> _\<close>
      by (auto simp: UpdateUserIsAdmin_def has_admin_def is_admin_upd)
  qed
next
  case False
  then show ?thesis using assms(2) by (auto simp: UpdateUserIsAdmin_def)
qed

lemma act_any_has_admin: "act_any a d d' \<Longrightarrow> db_wf d \<Longrightarrow> has_admin d \<Longrightarrow> has_admin d'"
proof (induction rule: act_any.induct)
  case (sound a d d')
  have upd: "has_admin (UpdateUserDisplayName i s d)" "has_admin (UpdateUserPassword i s d)" for i s
    using sound.prems(2) by (simp_all add: has_admin_def UpdateUserDisplayName_def UpdateUserPassword_def is_admin_upd_same)
  have frame: "has_admin d'" if "db_users d' = db_users d" for d'
    using that sound.prems(2) by (simp add: has_admin_def is_admin_def)
  show ?case using sound.hyps
  proof cases
    case (create_user u em name h d1 c cn d2)
    then show ?thesis using sound.prems(2)
      by (metis has_admin_def is_admin_CreateUser is_admin_users member_stmt_frames(4,7))
  next
    case (create_cluster c name d1)
    then show ?thesis using frame member_stmt_frames(4,7) by metis
  next
    case (admin_flag i b)
    then show ?thesis using is_admin_flag [OF sound.prems] by blast
  qed (auto simp: member_stmt_frames(2,5) upd intro: frame dest: member_stmt_frames(1,3,6,8))
next
  case (half_cluster c name a d d')
  then show ?case using member_stmt_frames(7) by (auto simp: has_admin_def is_admin_def)
next
  case (delete_user a d i d1 d')
  have users: "db_users d' = tdel i (db_users d)"
    using delete_user member_stmt_frames(9) by (auto simp: DeleteUser_def split: if_splits)
  obtain j where j: "j \<noteq> i" "is_admin j d"
  proof (cases "is_admin i d")
    case True
    then show thesis using that delete_user other_admin [OF delete_user.prems(1)] by (auto simp: is_admin_def)
  next
    case False
    obtain k where k: "is_admin k d" using delete_user.prems(2) by (auto simp: has_admin_def)
    show thesis by (rule that [of k]) (use k False in auto)
  qed
  then show ?case by (auto simp: has_admin_def is_admin_def users)
qed


text \<open>Every live cluster has an owner.\<close>

definition owned :: "db \<Rightarrow> bool" where
  "owned d \<longleftrightarrow> (\<forall>c r. tget (db_clusters d) c = Some r \<and> live r \<longrightarrow> (\<exists>u. tget (db_members d) (c, u) = Some ''owner''))"

lemma CountClusterOwners_card:
  assumes "db_wf d"
  shows "CountClusterOwners c d = card {u. tget (db_members d) (c, u) = Some ''owner''}"
proof -
  have "CountClusterOwners c d = card {k. \<exists>r. tget (db_members d) k = Some r \<and> (fst k = c \<and> r = ''owner'')}"
    unfolding CountClusterOwners_def
    using tcount_card [of "db_members d" "\<lambda>k r. fst k = c \<and> r = ''owner''"] assms by (simp add: case_prod_unfold)
  also have "{k. \<exists>r. tget (db_members d) k = Some r \<and> (fst k = c \<and> r = ''owner'')}
     = Pair c ` {u. tget (db_members d) (c, u) = Some ''owner''}" by auto
  finally show ?thesis by (simp add: card_image inj_on_def)
qed

lemma other_owner:
  assumes "db_wf d" "CountClusterOwners c d > 1"
  shows "\<exists>u. u \<noteq> v \<and> tget (db_members d) (c, u) = Some ''owner''"
proof -
  have "1 < card {u. tget (db_members d) (c, u) = Some ''owner''}" using assms by (simp add: CountClusterOwners_card)
  then have "\<not> {u. tget (db_members d) (c, u) = Some ''owner''} \<subseteq> {v}"
    using card_mono [of "{v}" "{u. tget (db_members d) (c, u) = Some ''owner''}"] by auto
  then show ?thesis by blast
qed

lemma owned_frame: "db_clusters d' = db_clusters d \<Longrightarrow> db_members d' = db_members d \<Longrightarrow> owned d \<Longrightarrow> owned d'"
  by (simp add: owned_def)

lemma ownedD: "owned d \<Longrightarrow> tget (db_clusters d) c = Some r \<Longrightarrow> live r \<Longrightarrow> \<exists>u. tget (db_members d) (c, u) = Some ''owner''"
  unfolding owned_def by blast

lemma owned_upd_user: "owned d \<Longrightarrow> owned (upd_user i f d)"
  by (auto simp: upd_user_def owned_def split: option.splits)

lemma owned_RenameCluster:
  assumes "RenameCluster c name d = Inr d'" "owned d"
  shows "owned d'"
proof -
  obtain r where r: "tget (db_clusters d) c = Some r" "live r" "d' = d\<lparr>db_clusters := tput c (r\<lparr>cl_Name := name\<rparr>) (db_clusters d)\<rparr>"
    using assms(1) by (auto simp: RenameCluster_def GetClusterByID_Some split: option.splits if_splits)
  show ?thesis using ownedD [OF assms(2) r(1,2)] assms(2) unfolding owned_def r(3) by auto
qed

lemma owned_SoftDeleteCluster: "owned d \<Longrightarrow> owned (snd (SoftDeleteCluster c now d))"
  unfolding owned_def SoftDeleteCluster_def by (auto simp: live_def split: option.splits if_splits)

lemma owned_put_member:
  assumes "owned d" "tget (db_members d) (c, u) = Some ''owner'' \<Longrightarrow> r = ''owner'' \<or> (\<exists>v. v \<noteq> u \<and> tget (db_members d) (c, v) = Some ''owner'')"
  shows "owned (d\<lparr>db_members := tput (c, u) r (db_members d)\<rparr>)"
  unfolding owned_def
proof (intro allI impI)
  fix c' r' assume "tget (db_clusters (d\<lparr>db_members := tput (c, u) r (db_members d)\<rparr>)) c' = Some r' \<and> live r'"
  then obtain w where "tget (db_members d) (c', w) = Some ''owner''" using ownedD [OF assms(1)] by auto
  then show "\<exists>w. tget (db_members (d\<lparr>db_members := tput (c, u) r (db_members d)\<rparr>)) (c', w) = Some ''owner''"
    using assms(2) by (cases "c' = c \<and> w = u") auto
qed

lemma owned_del_member:
  assumes "owned d" "tget (db_members d) (c, u) = Some ''owner'' \<Longrightarrow> \<exists>v. v \<noteq> u \<and> tget (db_members d) (c, v) = Some ''owner''"
  shows "owned (d\<lparr>db_members := tdel (c, u) (db_members d)\<rparr>)"
  unfolding owned_def
proof (intro allI impI)
  fix c' r' assume "tget (db_clusters (d\<lparr>db_members := tdel (c, u) (db_members d)\<rparr>)) c' = Some r' \<and> live r'"
  then obtain w where w: "tget (db_members d) (c', w) = Some ''owner''" using ownedD [OF assms(1)] by auto
  obtain v where "(c', v) \<noteq> (c, u)" "tget (db_members d) (c', v) = Some ''owner''"
    using assms(2) w by (cases "(c', w) = (c, u)") auto
  then show "\<exists>w. tget (db_members (d\<lparr>db_members := tdel (c, u) (db_members d)\<rparr>)) (c', w) = Some ''owner''"
    by (intro exI [of _ v]) simp
qed

lemma owned_AddMember: "AddMember c u r d = Inr d' \<Longrightarrow> owned d \<Longrightarrow> owned d'"
  by (auto simp: AddMember_def intro!: owned_put_member split: if_splits)

lemma owned_RemoveMemberGuarded:
  assumes "db_wf d" "owned d"
  shows "owned (snd (RemoveMemberGuarded c u d))"
proof (cases "tget (db_members d) (c, u)")
  case (Some r)
  have "owned (d\<lparr>db_members := tdel (c, u) (db_members d)\<rparr>)" if "r \<noteq> ''owner'' \<or> CountClusterOwners c d > 1"
  proof (rule owned_del_member [OF assms(2)])
    assume "tget (db_members d) (c, u) = Some ''owner''"
    then show "\<exists>v. v \<noteq> u \<and> tget (db_members d) (c, v) = Some ''owner''"
      using Some that by (intro other_owner [OF assms(1)]) auto
  qed
  then show ?thesis using Some assms(2) by (simp add: RemoveMemberGuarded_def)
qed (simp add: RemoveMemberGuarded_def assms(2))

lemma owned_UpdateMemberRole:
  assumes "db_wf d" "owned d" "UpdateMemberRole c u r d = Inr (n, d')"
  shows "owned d'"
proof (cases "d' = d")
  case False
  then obtain old where old: "tget (db_members d) (c, u) = Some old"
    and ok: "old \<noteq> ''owner'' \<or> r = ''owner'' \<or> CountClusterOwners c d > 1"
    and d': "d' = d\<lparr>db_members := tput (c, u) r (db_members d)\<rparr>"
    using assms(3) by (auto simp: UpdateMemberRole_def split: option.splits if_splits)
  show ?thesis unfolding d'
  proof (rule owned_put_member [OF assms(2)])
    assume "tget (db_members d) (c, u) = Some ''owner''"
    then show "r = ''owner'' \<or> (\<exists>v. v \<noteq> u \<and> tget (db_members d) (c, v) = Some ''owner'')"
      using old ok other_owner [OF assms(1), of c u] by auto
  qed
qed (use assms in simp)

lemma owned_new_cluster:
  assumes "CreateCluster c name u p d = Inr d1" "AddMembership c u ''owner'' d1 = Inr d2" "db_wf d" "owned d"
  shows "owned d2"
proof -
  have "d2 = d1\<lparr>db_members := tput (c, u) ''owner'' (db_members d)\<rparr>"
    using AddMembership_new_cluster [OF assms(1,3)] assms(2) by simp
  moreover obtain r where "d1 = d\<lparr>db_clusters := tput c r (db_clusters d)\<rparr>"
    using assms(1) by (auto simp: CreateCluster_def Let_def split: if_splits)
  ultimately show ?thesis using assms(4) unfolding owned_def by auto
qed

lemma act_owned: "act a d d' \<Longrightarrow> db_wf d \<Longrightarrow> owned d \<Longrightarrow> owned d'"
proof (induction rule: act.induct)
  case (audit_row al d d' a)
  then show ?case by (auto simp: InsertAuditLog_def intro: owned_frame split: option.splits if_splits)
next
  case (create_user a u em name h d d1 c cn d2 d')
  have "owned d1" using create_user by (auto simp: CreateUser_def Let_def intro: owned_frame split: if_splits)
  then show ?case using create_user owned_new_cluster wf_CreateUser by blast
next
  case (create_cluster c name a d d1 d')
  then show ?case using owned_new_cluster by blast
next
  case (change_role a c d u r n d')
  then show ?case using owned_UpdateMemberRole by blast
qed (auto simp: UpdateUserDisplayName_def UpdateUserPassword_def UpdateUserIsAdmin_def owned_upd_user
    owned_SoftDeleteCluster owned_RemoveMemberGuarded intro: owned_RenameCluster owned_AddMember)


end
