(* ===== verification/Nodes.thy ===== *)
theory Nodes
  imports Access
begin

text \<open>
  Nodes on the server: enrollment by token and registration by a user (\<open>api/enroll_handlers.go\<close>,
  \<open>api/node_register_handlers.go\<close>, \<open>tokens\<close>), moving, renaming, disabling, deleting and listing
  (\<open>api/node_move_handlers.go\<close>, \<open>api/node_rename_handlers.go\<close>, \<open>api/admin_handlers.go\<close>, \<open>api/node_handlers.go\<close>),
  and the agent's control connection (\<open>api/agentws.go\<close>): challenge, greeting, heartbeat, deregistration and
  the clean-up when it ends. The state is the database with the registry of live connections.
\<close>

record server =
  sv_db :: db
  sv_reg :: Registry

definition evictNodeConn :: "uuid \<Rightarrow> Registry \<Rightarrow> Registry" where
  "evictNodeConn i r =
     (case registry_Get i r of
        None \<Rightarrow> r
      | Some c \<Rightarrow> if conn_Cancel c then (Remove i r)\<lparr>cancelled := cancelled (Remove i r) @ [conn_ptr c]\<rparr> else r)"

subsection \<open>Enrollment tokens\<close>

definition tokens_Hash :: "request \<Rightarrow> string \<Rightarrow> string" where
  "tokens_Hash q p = hex_EncodeToString (rq_sha256 q p)"

definition tokens_Generate :: "request \<Rightarrow> (string \<times> string) option" where
  "tokens_Generate q = (case rq_rand q of None \<Rightarrow> None
     | Some b \<Rightarrow> let p = ''xnc_enroll_'' @ b64_Encode b in Some (p, tokens_Hash q p))"

record enrollTokenReq =
  tr_TTL :: "duration option"
  tr_MaxUses :: int

text \<open>The body is optional: one that does not decode counts as empty. \<open>tr_TTL\<close> is what \<open>time.ParseDuration\<close> makes
  of a non-empty text.\<close>

definition createEnrollToken :: "duration \<Rightarrow> request \<Rightarrow> actor \<Rightarrow> string \<Rightarrow> enrollTokenReq option \<Rightarrow> db
    \<Rightarrow> db \<times> (api_error + uuid \<times> string \<times> go_time)" where
  "createEnrollToken cfgTTL q a s body d =
     (case authorizeClusterOwner q a s d of
        Inl e \<Rightarrow> (d, Inl e)
      | Inr (c, _) \<Rightarrow>
          let ttl = (case body of Some b \<Rightarrow> (case tr_TTL b of Some t \<Rightarrow> t | None \<Rightarrow> cfgTTL) | None \<Rightarrow> cfgTTL);
              maxUses = (case body of Some b \<Rightarrow> if tr_MaxUses b > 0 then tr_MaxUses b else 1 | None \<Rightarrow> 1)
          in (case tokens_Generate q of
                None \<Rightarrow> (d, Inl (proto_Err 500 ''INTERNAL'' ''token gen''))
              | Some (p, h) \<Rightarrow>
                  (case wr q ''CreateEnrollmentToken'' (CreateEnrollmentToken (rq_new q 0)
                        \<lparr>et_ClusterID = c, et_TokenHash = h, et_ExpiresAt = rq_now q + ttl, et_MaxUses = maxUses,
                         et_UsedCount = 0, et_CreatedBy = fst a\<rparr> d) of
                     Inl _ \<Rightarrow> (d, Inl (proto_Err 500 ''INTERNAL'' ''token save''))
                   | Inr d' \<Rightarrow> (d', Inr (rq_new q 0, p, rq_now q + ttl)))))"

subsection \<open>Enrollment\<close>

record enrollReq =
  er_Token :: string
  er_Hostname :: string
  er_MachineID :: string
  er_OSVersion :: string
  er_AgentVersion :: string
  er_PublicKey :: string
  er_Platform :: string

definition normalizePlatform :: "string \<Rightarrow> string" where
  "normalizePlatform p = (if p = ''linux'' then ''linux'' else ''windows'')"

text \<open>The candidates of the name search: the host name, then host name with suffix 2, 3, \<dots>. The loop asks the
  database for each until the query gives no row (or fails).\<close>

definition name_cand :: "string \<Rightarrow> nat \<Rightarrow> string" where
  "name_cand host k = (if k = 0 then host else host @ ''-'' @ nat_decimal (Suc k))"

definition name_taken :: "uuid \<Rightarrow> string \<Rightarrow> db \<Rightarrow> bool" where
  "name_taken c name d \<longleftrightarrow> GetNodeByNameInCluster c name d \<noteq> None"

lemma nat_decimal_inj: "nat_decimal m = nat_decimal n \<Longrightarrow> m = n"
  by (metis nat_decimal_val option.inject)

lemma name_taken_iff: "name_taken c name d \<longleftrightarrow> (\<exists>(i, n) \<in> set (db_nodes d). nd_ClusterID n = c \<and> nd_Name n = name)"
  by (auto simp: name_taken_def GetNodeByNameInCluster_def find_None_iff)

definition taken_suffixes :: "uuid \<Rightarrow> string \<Rightarrow> nat \<Rightarrow> db \<Rightarrow> nat set" where
  "taken_suffixes c host i d = {j. i \<le> j \<and> name_taken c (host @ ''-'' @ nat_decimal j) d}"

lemma finite_taken_suffixes: "finite (taken_suffixes c host i d)"
proof (rule finite_imageD)
  show "finite ((\<lambda>j. host @ ''-'' @ nat_decimal j) ` taken_suffixes c host i d)"
    by (rule finite_subset [of _ "(\<lambda>(i, n). nd_Name n) ` set (db_nodes d)"])
      (force simp: taken_suffixes_def name_taken_iff)+
  show "inj_on (\<lambda>j. host @ ''-'' @ nat_decimal j) (taken_suffixes c host i d)"
    by (auto intro: inj_onI dest: nat_decimal_inj)
qed

lemma taken_suffixes_Suc:
  "taken_suffixes c host i d = (if name_taken c (host @ ''-'' @ nat_decimal i) d
     then insert i (taken_suffixes c host (Suc i) d) else taken_suffixes c host (Suc i) d)"
  by (auto simp: taken_suffixes_def le_eq_less_or_eq Suc_le_eq)

lemma card_taken_Suc:
  "card (taken_suffixes c host i d) =
     card (taken_suffixes c host (Suc i) d) + (if name_taken c (host @ ''-'' @ nat_decimal i) d then 1 else 0)"
proof -
  have "i \<notin> taken_suffixes c host (Suc i) d" by (simp add: taken_suffixes_def)
  then show ?thesis
    by (subst taken_suffixes_Suc) (simp add: finite_taken_suffixes)
qed

text \<open>The loop ends because every round that finds its name taken either uses up one of the finitely many
  taken suffixes or has the next name free.\<close>

function name_loop :: "request \<Rightarrow> uuid \<Rightarrow> string \<Rightarrow> string \<Rightarrow> nat \<Rightarrow> db \<Rightarrow> string" where
  "name_loop q c host name i d =
     (case rd q ''GetNodeByNameInCluster'' (GetNodeByNameInCluster c name d) of
        None \<Rightarrow> name
      | Some _ \<Rightarrow> name_loop q c host (host @ ''-'' @ nat_decimal i) (Suc i) d)"
  by pat_completeness auto
termination
proof (relation "measure (\<lambda>(q, c, host, name, i, d).
    2 * card (taken_suffixes c host i d) + (if name_taken c name d then 1 else 0))")
  fix q :: request and c host name i d x
  assume "rd q ''GetNodeByNameInCluster'' (GetNodeByNameInCluster c name d) = Some x"
  then have "name_taken c name d" by (auto simp: name_taken_def dest: rd_SomeD)
  then show "((q, c, host, host @ ''-'' @ nat_decimal i, Suc i, d), q, c, host, name, i, d)
      \<in> measure (\<lambda>(q, c, host, name, i, d). 2 * card (taken_suffixes c host i d) + (if name_taken c name d then 1 else 0))"
    using card_taken_Suc [of c host i d] by simp
qed simp

declare name_loop.simps [simp del]

definition free_name :: "request \<Rightarrow> uuid \<Rightarrow> string \<Rightarrow> db \<Rightarrow> string" where
  "free_name q c host d = name_loop q c host host 2 d"

text \<open>The transaction of \<open>enrollNode\<close>. A node row that already has the machine is reused when the key is the
  same, re-bound (\<open>adopt_node\<close>) or refused when it is not; otherwise a token is consumed and a row created.\<close>

definition enroll_audit :: "request \<Rightarrow> uuid \<Rightarrow> uuid \<Rightarrow> uuid \<Rightarrow> string \<Rightarrow> db \<Rightarrow> db_error + db" where
  "enroll_audit q u c n ac d = wr q ''InsertAuditLog'' (InsertAuditLog \<lparr>au_UserID = Some u, au_ClusterID = Some c,
     au_NodeID = Some n, au_Action = ac, au_Metadata = [], au_CreatedAt = rq_now q\<rparr> d)"

definition adopt_node :: "request \<Rightarrow> uuid \<Rightarrow> enrollReq \<Rightarrow> uuid \<Rightarrow> string \<Rightarrow> uuid \<Rightarrow> server
    \<Rightarrow> server \<times> (api_error + uuid \<times> Node)" where
  "adopt_node q c req i ac actor s =
     (case wr q ''AdoptNodeIdentity'' (AdoptNodeIdentity (er_PublicKey req) (er_Hostname req) (er_OSVersion req)
          (er_AgentVersion req) (normalizePlatform (er_Platform req)) i (sv_db s)) of
        Inl _ \<Rightarrow> (s, Inl (proto_Err 500 ''INTERNAL'' ''adopt node''))
      | Inr (n, d1) \<Rightarrow> (case enroll_audit q actor c i ac d1 of
          Inl _ \<Rightarrow> (s, Inl (proto_Err 500 ''INTERNAL'' ''audit''))
        | Inr d2 \<Rightarrow> (case enroll_audit q actor c i ''node_adopt'' d2 of
            Inl _ \<Rightarrow> (s, Inl (proto_Err 500 ''INTERNAL'' ''audit''))
          | Inr d3 \<Rightarrow>
              if rq_fails q ''Commit'' then (s, Inl (proto_Err 500 ''INTERNAL'' ''commit''))
              else (\<lparr>sv_db = d3, sv_reg = evictNodeConn i (sv_reg s)\<rparr>, Inr (i, n)))))"

definition new_node :: "uuid \<Rightarrow> string \<Rightarrow> enrollReq \<Rightarrow> Node" where
  "new_node c name req = \<lparr>nd_ClusterID = c, nd_Name = name, nd_MachineID = er_MachineID req,
     nd_Hostname = er_Hostname req, nd_OsVersion = er_OSVersion req, nd_AgentVersion = er_AgentVersion req,
     nd_ShellType = '''', nd_PublicKey = er_PublicKey req, nd_Status = ''offline'', nd_LastSeenAt = None,
     nd_TargetRelease = None, nd_Channel = ''stable'', nd_Platform = normalizePlatform (er_Platform req)\<rparr>"

definition create_node :: "request \<Rightarrow> uuid \<Rightarrow> enrollReq \<Rightarrow> string \<Rightarrow> uuid \<Rightarrow> db \<Rightarrow> api_error + (uuid \<times> Node) \<times> db" where
  "create_node q c req ac actor d =
     (let name = free_name q c (er_Hostname req) d; i = rq_new q 0; n = new_node c name req in
      case wr q ''CreateNode'' (CreateNode i n d) of
        Inl (PgError code con) \<Rightarrow>
          if code = ''23505'' \<and> con = ''nodes_machine_id_key''
          then Inl (proto_Err 409 ''MACHINE_ID_CONFLICT'' ''machineId already registered in another cluster'')
          else if code = ''23505'' \<and> con = ''nodes_cluster_id_name_key''
          then Inl (proto_Err 409 ''INTERNAL'' ''node name conflict; retry'')
          else Inl (proto_Err 500 ''INTERNAL'' ''create node'')
      | Inl _ \<Rightarrow> Inl (proto_Err 500 ''INTERNAL'' ''create node'')
      | Inr d1 \<Rightarrow> (case enroll_audit q actor c i ac d1 of
          Inl _ \<Rightarrow> Inl (proto_Err 500 ''INTERNAL'' ''audit'')
        | Inr d2 \<Rightarrow> if rq_fails q ''Commit'' then Inl (proto_Err 500 ''INTERNAL'' ''commit'') else Inr ((i, n), d2)))"

definition enrollNode :: "request \<Rightarrow> uuid \<Rightarrow> enrollReq \<Rightarrow> uuid option \<Rightarrow> bool \<Rightarrow> string \<Rightarrow> uuid \<Rightarrow> server
    \<Rightarrow> server \<times> (api_error + uuid \<times> Node)" where
  "enrollNode q c req tokenID allowAdopt ac actor s =
     (let d = sv_db s in
      if rq_fails q ''Begin'' then (s, Inl (proto_Err 500 ''INTERNAL'' ''tx''))
      else if rd q ''GetClusterByID'' (GetClusterByID c d) = None
      then (s, Inl (proto_Err 404 ''CLUSTER_NOT_FOUND'' ''cluster not found''))
      else case rd q ''GetNodeByIdentity'' (GetNodeByIdentity c (er_MachineID req) d) of
        Some (i, n) \<Rightarrow>
          if nd_PublicKey n = er_PublicKey req then (s, Inr (i, n))
          else if \<not> allowAdopt
          then (s, Inl (proto_Err 409 ''NODE_ALREADY_ENROLLED'' ''machine already enrolled with a different key''))
          else adopt_node q c req i ac actor s
      | None \<Rightarrow>
          (case (case tokenID of None \<Rightarrow> Inr d
                 | Some t \<Rightarrow> wr q ''ConsumeEnrollmentToken'' (ConsumeEnrollmentToken t d)) of
             Inl _ \<Rightarrow> (s, Inl (proto_Err 401 ''ENROLLMENT_TOKEN_INVALID'' ''token exhausted''))
           | Inr d1 \<Rightarrow> (case create_node q c req ac actor d1 of
               Inl e \<Rightarrow> (s, Inl e)
             | Inr (r, d2) \<Rightarrow> (s\<lparr>sv_db := d2\<rparr>, Inr r))))"

definition bad_key :: "string \<Rightarrow> bool" where
  "bad_key k \<longleftrightarrow> (case b64std_Decode k of None \<Rightarrow> True | Some b \<Rightarrow> length b \<noteq> 32)"

definition agentEnroll :: "request \<Rightarrow> enrollReq option \<Rightarrow> server \<Rightarrow> server \<times> (api_error + uuid \<times> Node)" where
  "agentEnroll q body s =
     (case body of
        None \<Rightarrow> (s, Inl (proto_Err 400 ''INTERNAL'' ''bad request''))
      | Some req \<Rightarrow> (case rd q ''GetEnrollmentTokenByHash'' (GetEnrollmentTokenByHash (tokens_Hash q (er_Token req)) (sv_db s)) of
          None \<Rightarrow> (s, Inl (proto_Err 401 ''ENROLLMENT_TOKEN_INVALID'' ''invalid token''))
        | Some (ti, t) \<Rightarrow>
            if rq_now q > et_ExpiresAt t then (s, Inl (proto_Err 410 ''ENROLLMENT_TOKEN_EXPIRED'' ''token expired''))
            else if rd q ''GetClusterByID'' (GetClusterByID (et_ClusterID t) (sv_db s)) = None
            then (s, Inl (proto_Err 410 ''ENROLLMENT_TOKEN_INVALID'' ''cluster no longer exists''))
            else if bad_key (er_PublicKey req) then (s, Inl (proto_Err 400 ''INTERNAL'' ''bad public key''))
            else enrollNode q (et_ClusterID t) req (Some ti) False ''node.enroll'' (et_CreatedBy t) s))"

text \<open>\<open>registerReq\<close> is \<open>enrollReq\<close> with an optional token field, which must be absent.\<close>

definition userRegisterNode :: "(string \<Rightarrow> string) \<Rightarrow> request \<Rightarrow> actor \<Rightarrow> string \<Rightarrow> (bool \<times> enrollReq) option \<Rightarrow> server
    \<Rightarrow> server \<times> (api_error + uuid \<times> Node)" where
  "userRegisterNode quote q a cid body s =
     (case resolveCluster q cid (sv_db s) of
        Inl e \<Rightarrow> (s, Inl e)
      | Inr (c, _) \<Rightarrow>
          if rd q ''GetMemberRole'' (GetMemberRole c (fst a) (sv_db s)) = None
          then (s, Inl (proto_Err 403 ''FORBIDDEN'' ''cluster membership required''))
          else (case body of
            None \<Rightarrow> (s, Inl (proto_Err 400 ''INTERNAL'' ''bad request''))
          | Some (has_token, req) \<Rightarrow>
              if has_token then (s, Inl (proto_Err 400 ''INTERNAL'' ''token field not accepted''))
              else if er_Hostname req = '''' \<or> er_MachineID req = ''''
              then (s, Inl (proto_Err 400 ''INTERNAL'' ''hostname and machineId required''))
              else if bad_key (er_PublicKey req) then (s, Inl (proto_Err 400 ''INTERNAL'' ''bad public key''))
              else (case rd q ''GetMachineIDConflictCluster'' (GetMachineIDConflictCluster (er_MachineID req) c (sv_db s)) of
                Some name \<Rightarrow> (s, Inl (proto_Err 409 ''MACHINE_ID_CONFLICT''
                  (''machineId already registered in cluster '' @ quote name)))
              | None \<Rightarrow> enrollNode q c req None True ''register'' (fst a) s)))"

subsection \<open>Managing nodes\<close>

definition setNodeStatus :: "request \<Rightarrow> actor \<Rightarrow> string \<Rightarrow> string \<Rightarrow> string \<Rightarrow> db \<Rightarrow> db \<times> (api_error + unit)" where
  "setNodeStatus q a nid status ac d =
     (case rq_parse q nid of
        None \<Rightarrow> (d, Inl (proto_Err 404 ''NODE_NOT_FOUND'' ''node not found''))
      | Some i \<Rightarrow> (case requireMinRoleIgnoreDisabled q a i ''owner'' d of
          Inl e \<Rightarrow> (d, Inl e)
        | Inr n \<Rightarrow> (case wr q ''SetNodeStatus'' (SetNodeStatus i status d) of
            Inl _ \<Rightarrow> (d, Inl (proto_Err 500 ''INTERNAL'' ''update node status''))
          | Inr d' \<Rightarrow> (auditNode q (fst a) (nd_ClusterID n) i ac [(''name'', nd_Name n)] d', Inr ()))))"

definition nodeDisable :: "request \<Rightarrow> actor \<Rightarrow> string \<Rightarrow> db \<Rightarrow> db \<times> (api_error + unit)" where
  "nodeDisable q a nid d = setNodeStatus q a nid ''disabled'' ''node.disable'' d"

definition nodeEnable :: "request \<Rightarrow> actor \<Rightarrow> string \<Rightarrow> db \<Rightarrow> db \<times> (api_error + unit)" where
  "nodeEnable q a nid d = setNodeStatus q a nid ''offline'' ''node.enable'' d"

definition renameNode :: "request \<Rightarrow> actor \<Rightarrow> string \<Rightarrow> string option \<Rightarrow> db \<Rightarrow> db \<times> (api_error + uuid \<times> string)" where
  "renameNode q a nid body d =
     (case rq_parse q nid of
        None \<Rightarrow> (d, Inl (proto_Err 404 ''NODE_NOT_FOUND'' ''node not found''))
      | Some i \<Rightarrow> (case requireMinRoleIgnoreDisabled q a i ''owner'' d of
          Inl e \<Rightarrow> (d, Inl e)
        | Inr n \<Rightarrow>
            if body = None \<or> body = Some '''' then (d, Inl (proto_Err 400 ''INTERNAL'' ''name required''))
            else (case wr q ''RenameNode'' (RenameNode i (the body) d) of
              Inl (PgError code _) \<Rightarrow>
                if code = ''23505'' then (d, Inl (proto_Err 409 ''INTERNAL'' ''node name already taken in this cluster''))
                else (d, Inl (proto_Err 500 ''INTERNAL'' ''rename node''))
            | Inl _ \<Rightarrow> (d, Inl (proto_Err 500 ''INTERNAL'' ''rename node''))
            | Inr d' \<Rightarrow> (auditNode q (fst a) (nd_ClusterID n) i ''node.rename'' [(''from'', nd_Name n), (''to'', the body)] d',
                         Inr (i, the body)))))"

definition adminDeleteNode :: "request \<Rightarrow> actor \<Rightarrow> string \<Rightarrow> server \<Rightarrow> server \<times> (api_error + unit)" where
  "adminDeleteNode q a nid s =
     (if \<not> usr_IsAdmin (snd a) then (s, Inl (proto_Err 403 ''FORBIDDEN'' ''admin required''))
      else case rq_parse q nid of
        None \<Rightarrow> (s, Inl (proto_Err 404 ''NODE_NOT_FOUND'' ''node not found''))
      | Some i \<Rightarrow> (case rd q ''GetNodeByID'' (GetNodeByID i (sv_db s)) of
          None \<Rightarrow> (s, Inl (proto_Err 404 ''NODE_NOT_FOUND'' ''node not found''))
        | Some n \<Rightarrow>
            if rq_fails q ''DeleteNode'' then (s, Inl (proto_Err 500 ''INTERNAL'' ''delete node''))
            else (\<lparr>sv_db = auditNode q (fst a) (nd_ClusterID n) i ''node_delete'' [(''name'', nd_Name n)] (snd (DeleteNode i (sv_db s))),
                   sv_reg = evictNodeConn i (sv_reg s)\<rparr>, Inr ())))"

text \<open>The update loop of \<open>moveNode\<close>: a name collision at the unique index rolls back to the savepoint and tries
  the next suffix, up to the fourth attempt.\<close>

function move_loop :: "request \<Rightarrow> actor \<Rightarrow> uuid \<Rightarrow> Node \<Rightarrow> uuid \<Rightarrow> string \<Rightarrow> nat \<Rightarrow> db
    \<Rightarrow> db \<times> (api_error + uuid \<times> uuid \<times> string)" where
  "move_loop q a i n target name attempt d =
     (if rq_fails q ''SAVEPOINT'' then (d, Inl (proto_Err 500 ''INTERNAL'' ''savepoint''))
      else case wr q ''MoveNodeCluster'' (MoveNodeCluster i target name (nd_ClusterID n) d) of
        Inr (rows, d1) \<Rightarrow>
          if rq_fails q ''RELEASE SAVEPOINT'' then (d, Inl (proto_Err 500 ''INTERNAL'' ''release savepoint''))
          else if rows = 0 then (d, Inl (proto_Err 409 ''INTERNAL'' ''node changed concurrently; retry''))
          else (case wr q ''InsertAuditLog'' (InsertAuditLog \<lparr>au_UserID = Some (fst a), au_ClusterID = Some target, au_NodeID = Some i,
                  au_Action = ''node.move'', au_Metadata = [(''from_cluster'', nd_ClusterID n), (''to_cluster'', target),
                    (''old_name'', nd_Name n), (''new_name'', name)], au_CreatedAt = rq_now q\<rparr> d1) of
              Inl _ \<Rightarrow> (d, Inl (proto_Err 500 ''INTERNAL'' ''audit''))
            | Inr d2 \<Rightarrow> if rq_fails q ''Commit'' then (d, Inl (proto_Err 500 ''INTERNAL'' ''commit''))
                        else (d2, Inr (i, target, name)))
      | Inl e \<Rightarrow>
          (case e of PgError code con \<Rightarrow>
             if code \<noteq> ''23505'' then (d, Inl (proto_Err 500 ''INTERNAL'' ''move node''))
             else if rq_fails q ''ROLLBACK TO SAVEPOINT'' then (d, Inl (proto_Err 500 ''INTERNAL'' ''rollback savepoint''))
             else if con = ''nodes_machine_id_key''
             then (d, Inl (proto_Err 409 ''MACHINE_ID_CONFLICT'' ''machineId already registered in another cluster''))
             else if con = ''nodes_cluster_id_name_key''
             then (if attempt \<ge> 3 then (d, Inl (proto_Err 500 ''INTERNAL'' ''move node name conflict''))
                   else move_loop q a i n target (nd_Name n @ ''-'' @ nat_decimal (attempt + 2)) (Suc attempt) d)
             else (d, Inl (proto_Err 500 ''INTERNAL'' ''move node''))
           | _ \<Rightarrow> (d, Inl (proto_Err 500 ''INTERNAL'' ''move node''))))"
  by pat_completeness auto
termination
  by (relation "measure (\<lambda>(q, a, i, n, target, name, attempt, d). 3 - attempt)") auto

declare move_loop.simps [simp del]

definition moveNode :: "(string \<Rightarrow> string) \<Rightarrow> request \<Rightarrow> actor \<Rightarrow> string \<Rightarrow> string option \<Rightarrow> db
    \<Rightarrow> db \<times> (api_error + uuid \<times> uuid \<times> string)" where
  "moveNode quote q a nid body d =
     (case rq_parse q nid of
        None \<Rightarrow> (d, Inl (proto_Err 404 ''NODE_NOT_FOUND'' ''node not found''))
      | Some i \<Rightarrow> (case rd q ''GetNodeByID'' (GetNodeByID i d) of
          None \<Rightarrow> (d, Inl (proto_Err 404 ''NODE_NOT_FOUND'' ''node not found''))
        | Some n \<Rightarrow>
            if body = None \<or> body = Some '''' then (d, Inl (proto_Err 400 ''INTERNAL'' ''target required''))
            else (case resolveCluster q (the body) d of
              Inl e \<Rightarrow> (d, Inl e)
            | Inr (t, _) \<Rightarrow>
                if t = nd_ClusterID n then (d, Inl (proto_Err 400 ''INTERNAL'' ''node already in target cluster''))
                else if \<not> list_all (\<lambda>c. rd q ''GetMemberRole'' (GetMemberRole c (fst a) d) = Some ''owner'') [nd_ClusterID n, t]
                then (d, Inl (proto_Err 403 ''FORBIDDEN'' ''owner role required in both clusters''))
                else (case rd q ''GetMachineIDConflictCluster'' (GetMachineIDConflictCluster (nd_MachineID n) (nd_ClusterID n) d) of
                  Some name \<Rightarrow> (d, Inl (proto_Err 409 ''MACHINE_ID_CONFLICT''
                    (''machineId already registered in cluster '' @ quote name)))
                | None \<Rightarrow>
                    if rq_fails q ''Begin'' then (d, Inl (proto_Err 500 ''INTERNAL'' ''tx''))
                    else move_loop q a i n t (name_loop q t (nd_Name n) (nd_Name n) 2 d) 0 d))))"


text \<open>Listing: a node counts as online only while its control connection is registered.\<close>

record nodeDTO =
  no_ID :: uuid
  no_Name :: string
  no_Cluster :: string
  no_Hostname :: string
  no_OSVersion :: string
  no_AgentVersion :: string
  no_ShellType :: string
  no_Status :: string
  no_LastSeenAt :: "go_time option"
  no_Platform :: string

definition shown_status :: "uuid \<Rightarrow> Node \<Rightarrow> Registry \<Rightarrow> string" where
  "shown_status i n r = (if nd_Status n = ''online'' \<and> \<not> Online i r then ''offline'' else nd_Status n)"

definition node_dto :: "uuid \<Rightarrow> Node \<Rightarrow> string \<Rightarrow> Registry \<Rightarrow> nodeDTO" where
  "node_dto i n cn r = \<lparr>no_ID = i, no_Name = nd_Name n, no_Cluster = cn, no_Hostname = nd_Hostname n,
     no_OSVersion = nd_OsVersion n, no_AgentVersion = nd_AgentVersion n, no_ShellType = nd_ShellType n,
     no_Status = shown_status i n r, no_LastSeenAt = nd_LastSeenAt n, no_Platform = nd_Platform n\<rparr>"

definition listNodes :: "request \<Rightarrow> actor \<Rightarrow> string \<Rightarrow> string \<Rightarrow> server \<Rightarrow> server \<times> (api_error + nodeDTO list)" where
  "listNodes q a clusterFilter statusFilter s =
     (if rq_fails q ''ListNodesForUser'' then (s, Inl (proto_Err 500 ''INTERNAL'' ''list nodes''))
      else (s, Inr (map (\<lambda>(i, n, cn). node_dto i n cn (sv_reg s))
        (filter (\<lambda>(i, n, cn). \<not> (clusterFilter \<noteq> '''' \<and> clusterFilter \<noteq> cn \<and> clusterFilter \<noteq> nd_ClusterID n)
             \<and> \<not> (statusFilter \<noteq> '''' \<and> statusFilter \<noteq> shown_status i n (sv_reg s)))
          (ListNodesForUser q (fst a) (sv_db s))))))"

definition getNode :: "request \<Rightarrow> actor \<Rightarrow> string \<Rightarrow> server \<Rightarrow> server \<times> (api_error + nodeDTO)" where
  "getNode q a nid s =
     (case rq_parse q nid of
        None \<Rightarrow> (s, Inl (proto_Err 404 ''NODE_NOT_FOUND'' ''node not found''))
      | Some i \<Rightarrow> (case rd q ''GetNodeForUser'' (GetNodeForUser (fst a) i (sv_db s)) of
          None \<Rightarrow> (s, Inl (proto_Err 404 ''NODE_NOT_FOUND'' ''node not found''))
        | Some (n, cn) \<Rightarrow> (s, Inr (node_dto i n cn (sv_reg s)))))"

subsection \<open>The agent's control connection\<close>

record ChallengeResponse =
  cr_NodeID :: string
  cr_Signature :: bytes

record Hello =
  he_NodeID :: string
  he_Hostname :: string
  he_ShellType :: string
  he_AgentVersion :: string
  he_OS :: string
  he_OSVersion :: string

text \<open>Step 2: the answer to the challenge (\<open>None\<close>: none in time, another type, or not decodable). \<open>vfy\<close> is
  \<open>ed25519.Verify\<close>.\<close>

definition agent_challenge :: "(bytes \<Rightarrow> string \<Rightarrow> bytes \<Rightarrow> bool) \<Rightarrow> request \<Rightarrow> string \<Rightarrow> ChallengeResponse option \<Rightarrow> db
    \<Rightarrow> (uuid \<times> Node) option" where
  "agent_challenge vfy q nonce resp d =
     (case resp of
        None \<Rightarrow> None
      | Some cr \<Rightarrow> (case rq_parse q (cr_NodeID cr) of
          None \<Rightarrow> None
        | Some i \<Rightarrow> (case rd q ''GetNodeByID'' (GetNodeByID i d) of
            None \<Rightarrow> None
          | Some n \<Rightarrow> (case b64std_Decode (nd_PublicKey n) of
              None \<Rightarrow> None
            | Some pub \<Rightarrow> if length pub \<noteq> 32 \<or> \<not> vfy pub nonce (cr_Signature cr) then None else Some (i, n)))))"

text \<open>Step 3: the greeting; the four statements are best effort. \<open>p\<close> is the identity of the new connection.\<close>

definition best_effort :: "request \<Rightarrow> string \<Rightarrow> (db \<Rightarrow> db) \<Rightarrow> db \<Rightarrow> db" where
  "best_effort q name f d = (if rq_fails q name then d else f d)"

definition try_status :: "request \<Rightarrow> uuid \<Rightarrow> string \<Rightarrow> db \<Rightarrow> db" where
  "try_status q i st d = (case wr q ''SetNodeStatus'' (SetNodeStatus i st d) of Inl _ \<Rightarrow> d | Inr d' \<Rightarrow> d')"

definition agent_hello :: "request \<Rightarrow> uuid \<Rightarrow> Hello option \<Rightarrow> nat \<Rightarrow> server \<Rightarrow> (server \<times> NodeConn) option" where
  "agent_hello q i hello p s =
     (case hello of
        None \<Rightarrow> None
      | Some h \<Rightarrow>
          if he_NodeID h \<noteq> i then None
          else
            let d1 = best_effort q ''UpdateNodeMeta'' (UpdateNodeMeta i (he_Hostname h) (he_ShellType h) (he_AgentVersion h)) (sv_db s);
                d2 = (if he_OS h \<noteq> '''' then best_effort q ''UpdateNodePlatform''
                        (UpdateNodePlatform i (normalizePlatform (he_OS h)) (he_OSVersion h)) d1 else d1);
                d3 = try_status q i ''online'' d2;
                d4 = best_effort q ''TouchNode'' (TouchNode i (rq_now q)) d3;
                c = \<lparr>conn_ptr = p, conn_NodeID = i, conn_Cancel = True, conn_LastBeat = rq_now q, conn_Beats = 0\<rparr>
            in Some (\<lparr>sv_db = d4, sv_reg = Add c (sv_reg s)\<rparr>, c))"

text \<open>A heartbeat: every tenth touches the row. The connection object is shared with the registry.\<close>

definition agent_heartbeat :: "request \<Rightarrow> NodeConn \<Rightarrow> server \<Rightarrow> server \<times> NodeConn" where
  "agent_heartbeat q c s =
     (let c' = c\<lparr>conn_LastBeat := rq_now q, conn_Beats := conn_Beats c + 1\<rparr>;
          d = (if conn_Beats c mod 10 = 0 then best_effort q ''TouchNode'' (TouchNode (conn_NodeID c) (rq_now q)) (sv_db s) else sv_db s);
          r = (case registry_Get (conn_NodeID c) (sv_reg s) of
                 Some cur \<Rightarrow> if conn_ptr cur = conn_ptr c then (sv_reg s)\<lparr>conns := tput (conn_NodeID c) c' (conns (sv_reg s))\<rparr> else sv_reg s
               | None \<Rightarrow> sv_reg s)
      in (\<lparr>sv_db = d, sv_reg = r\<rparr>, c'))"

definition nodeDelete :: "request \<Rightarrow> uuid \<Rightarrow> Node \<Rightarrow> server \<Rightarrow> server \<times> bool" where
  "nodeDelete q i n s =
     (if rq_fails q ''DeleteNode'' then (s, False)
      else (\<lparr>sv_db = audit q None (Some (nd_ClusterID n)) (Some i) ''node.deregister'' [] (snd (DeleteNode i (sv_db s))),
             sv_reg = evictNodeConn i (sv_reg s)\<rparr>, True))"

text \<open>The deferred clean-up of a connection.\<close>

definition agent_cleanup :: "request \<Rightarrow> NodeConn \<Rightarrow> server \<Rightarrow> server" where
  "agent_cleanup q c s =
     (case RemoveIf (conn_NodeID c) (conn_ptr c) (sv_reg s) of (b, r) \<Rightarrow>
        if \<not> b then s\<lparr>sv_reg := r\<rparr>
        else \<lparr>sv_db = best_effort q ''TouchNode'' (TouchNode (conn_NodeID c) (rq_now q)) (try_status q (conn_NodeID c) ''offline'' (sv_db s)),
              sv_reg = r\<rparr>)"


subsection \<open>The name search\<close>

lemma name_cand_0 [simp]: "name_cand host 0 = host"
  by (simp add: name_cand_def)

lemma name_cand_inj: "inj (name_cand host)"
  by (auto intro!: injI simp: name_cand_def dest: nat_decimal_inj split: if_splits)

lemma name_loop_first:
  assumes "\<not> rq_fails q ''GetNodeByNameInCluster''"
  shows "\<exists>m. name_loop q c host (name_cand host k) (k + 2) d = name_cand host (k + m)
     \<and> \<not> name_taken c (name_cand host (k + m)) d \<and> (\<forall>j < m. name_taken c (name_cand host (k + j)) d)"
  using assms
proof (induction "2 * card (taken_suffixes c host (k + 2) d) + (if name_taken c (name_cand host k) d then 1 else 0)"
    arbitrary: k rule: less_induct)
  case less
  show ?case
  proof (cases "name_taken c (name_cand host k) d")
    case False
    then have "GetNodeByNameInCluster c (name_cand host k) d = None" unfolding name_taken_def by blast
    then show ?thesis using False by (intro exI [of _ 0]) (simp add: name_loop.simps rd_def)
  next
    case True
    then obtain x where x: "GetNodeByNameInCluster c (name_cand host k) d = Some x" by (auto simp: name_taken_def)
    have nxt: "host @ ''-'' @ nat_decimal (k + 2) = name_cand host (Suc k)" by (simp add: name_cand_def)
    have step: "name_loop q c host (name_cand host k) (k + 2) d = name_loop q c host (name_cand host (Suc k)) (Suc k + 2) d"
      using x less.prems nxt by (subst name_loop.simps) (simp add: rd_def)
    have "2 * card (taken_suffixes c host (Suc k + 2) d) + (if name_taken c (name_cand host (Suc k)) d then 1 else 0)
        < 2 * card (taken_suffixes c host (k + 2) d) + (if name_taken c (name_cand host k) d then 1 else (0::nat))"
      using card_taken_Suc [of c host "k + 2" d] True by (simp add: nxt [simplified])
    then obtain m where m: "name_loop q c host (name_cand host (Suc k)) (Suc k + 2) d = name_cand host (Suc k + m)"
      "\<not> name_taken c (name_cand host (Suc k + m)) d" "\<forall>j < m. name_taken c (name_cand host (Suc k + j)) d"
      using less by blast
    then show ?thesis
      using step True by (intro exI [of _ "Suc m"]) (auto simp: less_Suc_eq_0_disj)
  qed
qed

lemma taken_names_bound:
  assumes "\<forall>j < k. name_taken c (name_cand host j) d"
  shows "k \<le> CountNodesInCluster c d"
proof -
  let ?rows = "filter (\<lambda>(i, n). nd_ClusterID n = c) (db_nodes d)"
  have "name_cand host ` {..<k} \<subseteq> set (map (\<lambda>(i, n). nd_Name n) ?rows)"
  proof
    fix x assume "x \<in> name_cand host ` {..<k}"
    then have "name_taken c x d" using assms by auto
    then obtain i n where "(i, n) \<in> set (db_nodes d)" "nd_ClusterID n = c" "nd_Name n = x"
      unfolding name_taken_iff by blast
    then show "x \<in> set (map (\<lambda>(i, n). nd_Name n) ?rows)" by force
  qed
  then have "card (name_cand host ` {..<k}) \<le> length (map (\<lambda>(i, n). nd_Name n) ?rows)"
    by (rule order_trans [OF card_mono [OF finite_set] card_length])
  moreover have "card (name_cand host ` {..<k}) = k"
    using card_image [OF inj_on_subset [OF name_cand_inj [of host]], of "{..<k}"] by simp
  ultimately show ?thesis by (simp add: CountNodesInCluster_def)
qed

lemma free_name_free:
  assumes "\<not> rq_fails q ''GetNodeByNameInCluster''"
  shows "\<not> name_taken c (free_name q c host d) d"
  using name_loop_first [OF assms, of c host 0 d] unfolding free_name_def by (auto simp: numeral_2_eq_2)

text \<open>Choosing the name of a node (enrollment and move): the unbounded search ends. When lookups work it
  returns the first candidate of the sequence host, host-2, host-3, \<open>\<dots>\<close> that no node of the cluster has,
  after at most as many failed candidates as the cluster has nodes; when the lookup fails, the code takes the
  current candidate unchecked.\<close>

theorem node_name_search:
  "(rq_fails q ''GetNodeByNameInCluster'' \<longrightarrow> free_name q c host d = host) \<and>
   (\<not> rq_fails q ''GetNodeByNameInCluster'' \<longrightarrow>
      (\<exists>k \<le> CountNodesInCluster c d. free_name q c host d = name_cand host k
         \<and> \<not> name_taken c (name_cand host k) d \<and> (\<forall>j < k. name_taken c (name_cand host j) d)))"
proof (intro conjI impI)
  show "free_name q c host d = host" if "rq_fails q ''GetNodeByNameInCluster''"
    using that by (simp add: free_name_def name_loop.simps rd_def)
next
  assume "\<not> rq_fails q ''GetNodeByNameInCluster''"
  then obtain k where "name_loop q c host (name_cand host 0) (0 + 2) d = name_cand host (0 + k)"
    "\<not> name_taken c (name_cand host (0 + k)) d" "\<forall>j < k. name_taken c (name_cand host (0 + j)) d"
    using name_loop_first by blast
  then have "free_name q c host d = name_cand host k" "\<not> name_taken c (name_cand host k) d"
    "\<forall>j < k. name_taken c (name_cand host j) d"
    by (simp_all add: free_name_def numeral_2_eq_2)
  then show "\<exists>k \<le> CountNodesInCluster c d. free_name q c host d = name_cand host k
         \<and> \<not> name_taken c (name_cand host k) d \<and> (\<forall>j < k. name_taken c (name_cand host j) d)"
    using taken_names_bound by blast
qed

theorem node_name_search_witness:
  "free_name (demo_rq\<lparr>rq_fails := (\<lambda>_. True)\<rparr>) ''#10'' ''web'' demo_db = ''web'' \<and>
   (\<exists>k \<le> CountNodesInCluster ''#10'' demo_db. free_name demo_rq ''#10'' ''web'' demo_db = name_cand ''web'' k
      \<and> \<not> name_taken ''#10'' (name_cand ''web'' k) demo_db \<and> (\<forall>j < k. name_taken ''#10'' (name_cand ''web'' j) demo_db))"
  using node_name_search [of demo_rq "''#10''" "''web''" demo_db]
    node_name_search [of "demo_rq\<lparr>rq_fails := (\<lambda>_. True)\<rparr>" "''#10''" "''web''" demo_db]
  by (simp add: demo_rq_def)


subsection \<open>What users may do to nodes\<close>

inductive nact :: "actor \<Rightarrow> db \<Rightarrow> db \<Rightarrow> bool" where
  node_audit: "InsertAuditLog al d = Inr d' \<Longrightarrow> nact a d d'"
| new_token: "owns a (et_ClusterID t) d \<Longrightarrow> et_CreatedBy t = fst a \<Longrightarrow> et_UsedCount t = 0 \<Longrightarrow> 0 < et_MaxUses t
    \<Longrightarrow> CreateEnrollmentToken i t d = Inr d' \<Longrightarrow> nact a d d'"
| node_status: "GetNodeByID i d = Some n \<Longrightarrow> GetMemberRole (nd_ClusterID n) (fst a) d = Some ''owner''
    \<Longrightarrow> SetNodeStatus i st d = Inr d' \<Longrightarrow> nact a d d'"
| node_rename: "GetNodeByID i d = Some n \<Longrightarrow> GetMemberRole (nd_ClusterID n) (fst a) d = Some ''owner''
    \<Longrightarrow> RenameNode i name d = Inr d' \<Longrightarrow> nact a d d'"
| node_move: "GetNodeByID i d = Some n \<Longrightarrow> GetMemberRole (nd_ClusterID n) (fst a) d = Some ''owner''
    \<Longrightarrow> owns a t d \<Longrightarrow> MoveNodeCluster i t name (nd_ClusterID n) d = Inr (r, d') \<Longrightarrow> nact a d d'"
| node_register: "GetMemberRole c (fst a) d \<noteq> None \<Longrightarrow> GetClusterByID c d \<noteq> None
    \<Longrightarrow> CreateNode i (new_node c name req) d = Inr d' \<Longrightarrow> nact a d d'"
| node_adopt: "GetMemberRole c (fst a) d \<noteq> None \<Longrightarrow> tget (db_nodes d) i = Some n \<Longrightarrow> nd_ClusterID n = c
    \<Longrightarrow> AdoptNodeIdentity key host osv agentv plat i d = Inr (m, d') \<Longrightarrow> nact a d d'"
| node_delete: "usr_IsAdmin (snd a) \<Longrightarrow> nact a d (snd (DeleteNode i d))"

lemma nact_one: "nact a d d' \<Longrightarrow> (nact a)\<^sup>*\<^sup>* d d'"
  by (rule r_into_rtranclp)

lemma nact_audit:
  assumes "(nact a)\<^sup>*\<^sup>* d d'"
  shows "(nact a)\<^sup>*\<^sup>* d (auditNode q u c n ac m d')"
proof (cases "wr q ''InsertAuditLog'' (InsertAuditLog \<lparr>au_UserID = Some u, au_ClusterID = Some c, au_NodeID = Some n, au_Action = ac,
         au_Metadata = m, au_CreatedAt = rq_now q\<rparr> d')")
  case (Inl e)
  then show ?thesis using assms by (simp add: auditNode_def audit_def)
next
  case (Inr d2)
  then have "nact a d' d2" by (auto intro: nact.node_audit dest!: wr_InrD)
  then show ?thesis using Inr assms by (simp add: auditNode_def audit_def)
qed

lemma owner_rank: "\<not> roleRank r < roleRank ''owner'' \<longleftrightarrow> r = ''owner''"
  by (simp add: roleRank_def)

lemma requireOwner:
  assumes "requireMinRoleIgnoreDisabled q a i ''owner'' d = Inr n"
  shows "GetNodeByID i d = Some n" "GetMemberRole (nd_ClusterID n) (fst a) d = Some ''owner''"
  using assms by (auto simp: requireMinRoleIgnoreDisabled_def authorizeNodeRole_def owner_rank dest!: rd_SomeD
      split: option.splits if_splits)

lemma setNodeStatus_nacts: "(nact a)\<^sup>*\<^sup>* d (fst (setNodeStatus q a nid st ac d))"
proof -
  have "(nact a)\<^sup>*\<^sup>* d d'" if "requireMinRoleIgnoreDisabled q a i ''owner'' d = Inr n"
    "wr q ''SetNodeStatus'' (SetNodeStatus i st d) = Inr d'" for i n d'
    using nact_one [OF nact.node_status [OF requireOwner [OF that(1)] wr_InrD [OF that(2)]]] .
  then show ?thesis
    by (auto simp: setNodeStatus_def intro!: nact_audit split: option.splits sum.splits)
qed

lemma renameNode_nacts: "(nact a)\<^sup>*\<^sup>* d (fst (renameNode q a nid body d))"
proof -
  have "(nact a)\<^sup>*\<^sup>* d d'" if "requireMinRoleIgnoreDisabled q a i ''owner'' d = Inr n"
    "wr q ''RenameNode'' (RenameNode i name d) = Inr d'" for i n name d'
    using nact_one [OF nact.node_rename [OF requireOwner [OF that(1)] wr_InrD [OF that(2)]]] .
  then show ?thesis
    by (auto simp: renameNode_def intro!: nact_audit split: option.splits sum.splits db_error.splits)
qed

lemma adminDeleteNode_nacts: "(nact a)\<^sup>*\<^sup>* (sv_db s) (sv_db (fst (adminDeleteNode q a nid s)))"
  by (auto simp: adminDeleteNode_def intro!: nact_audit intro: nact_one nact.node_delete split: option.splits)

lemma createEnrollToken_nacts:
  assumes "db_wf d"
  shows "(nact a)\<^sup>*\<^sup>* d (fst (createEnrollToken cfg q a s body d))"
proof -
  have main: "(nact a)\<^sup>*\<^sup>* d d'" if "authorizeClusterOwner q a s d = Inr (c, r)" "0 < m"
    "wr q ''CreateEnrollmentToken'' (CreateEnrollmentToken i \<lparr>et_ClusterID = c, et_TokenHash = h, et_ExpiresAt = e,
       et_MaxUses = m, et_UsedCount = 0, et_CreatedBy = fst a\<rparr> d) = Inr d'" for c r m i h e d'
    by (rule nact_one, rule nact.new_token [OF _ _ _ _ wr_InrD [OF that(3)]])
      (use that authorizeClusterOwner_owns(1) [OF that(1) assms] in simp_all)
  show ?thesis
    by (auto simp: createEnrollToken_def Let_def intro: main main [OF _ zero_less_one] split: sum.splits option.splits)
qed

lemma resolveCluster_live:
  assumes "resolveCluster q s d = Inr (c, r)" "db_wf d"
  shows "GetClusterByID c d = Some (c, r)"
  using assms tget_in_set [of "db_clusters d" c r]
  by (auto simp: resolveCluster_def GetClusterByID_def GetClusterByName_def live_def find_Some_iff rd_def
      split: option.splits if_splits dest!: nth_mem)

lemma move_loop_nacts:
  assumes "GetNodeByID i d = Some n" "GetMemberRole (nd_ClusterID n) (fst a) d = Some ''owner''" "owns a t d"
  shows "(nact a)\<^sup>*\<^sup>* d (fst (move_loop q a i n t name k d))"
  using assms
proof (induction q a i n t name k d rule: move_loop.induct)
  case (1 q a i n t name k d)
  show ?case
  proof (cases "wr q ''MoveNodeCluster'' (MoveNodeCluster i t name (nd_ClusterID n) d)")
    case (Inr r)
    obtain rows d1 where r: "r = (rows, d1)" by (cases r)
    have m: "(nact a)\<^sup>*\<^sup>* d d1"
      using nact_one [OF nact.node_move [OF 1(2,3,4)]] wr_InrD [OF Inr] r by blast
    have "(nact a)\<^sup>*\<^sup>* d d2" if "wr q ''InsertAuditLog'' (InsertAuditLog al d1) = Inr d2" for al d2
      using rtranclp.rtrancl_into_rtrancl [OF m nact.node_audit [OF wr_InrD [OF that]]] .
    then show ?thesis using Inr r by (subst move_loop.simps) (auto split: sum.splits)
  next
    case (Inl e)
    then show ?thesis using 1(1) [OF _ Inl] 1(2-4)
      by (subst move_loop.simps) (auto split: db_error.splits)
  qed
qed

lemma moveNode_nacts:
  assumes "db_wf d"
  shows "(nact a)\<^sup>*\<^sup>* d (fst (moveNode quote q a nid body d))"
proof -
  have "(nact a)\<^sup>*\<^sup>* d (fst (move_loop q a i n t name k d))"
    if "GetNodeByID i d = Some n" "resolveCluster q x d = Inr (t, r)" "GetMemberRole (nd_ClusterID n) (fst a) d = Some ''owner''"
      "GetMemberRole t (fst a) d = Some ''owner''" for i n x t r name k
    using that resolveCluster_live [OF that(2) assms] by (intro move_loop_nacts) (auto simp: owns_def)
  then show ?thesis
    by (auto simp: moveNode_def dest!: rd_SomeD split: option.splits sum.splits)
qed

lemma adopt_node_result:
  "fst (adopt_node q c req i ac u s) = s \<or>
   (\<exists>m d1 d2 d3 al al2. AdoptNodeIdentity (er_PublicKey req) (er_Hostname req) (er_OSVersion req)
          (er_AgentVersion req) (normalizePlatform (er_Platform req)) i (sv_db s) = Inr (m, d1)
      \<and> InsertAuditLog al d1 = Inr d2 \<and> InsertAuditLog al2 d2 = Inr d3
      \<and> fst (adopt_node q c req i ac u s) = \<lparr>sv_db = d3, sv_reg = evictNodeConn i (sv_reg s)\<rparr>)"
proof (cases "wr q ''AdoptNodeIdentity'' (AdoptNodeIdentity (er_PublicKey req) (er_Hostname req) (er_OSVersion req)
          (er_AgentVersion req) (normalizePlatform (er_Platform req)) i (sv_db s))")
  case (Inl e)
  then show ?thesis by (simp add: adopt_node_def)
next
  case (Inr r)
  obtain m d1 where r: "r = (m, d1)" by (cases r)
  note a1 = wr_InrD [OF Inr, unfolded r]
  show ?thesis
  proof (cases "enroll_audit q u c i ac d1")
    case (Inl e)
    then show ?thesis using Inr r by (simp add: adopt_node_def)
  next
    case i2: (Inr d2)
    note a2 = wr_InrD [OF i2 [unfolded enroll_audit_def]]
    show ?thesis
    proof (cases "enroll_audit q u c i ''node_adopt'' d2")
      case (Inl e)
      then show ?thesis using Inr r i2 by (simp add: adopt_node_def)
    next
      case i3: (Inr d3)
      note a3 = wr_InrD [OF i3 [unfolded enroll_audit_def]]
      show ?thesis
      proof (cases "rq_fails q ''Commit''")
        case True
        then show ?thesis using Inr r i2 i3 by (simp add: adopt_node_def)
      next
        case False
        then have "fst (adopt_node q c req i ac u s) = \<lparr>sv_db = d3, sv_reg = evictNodeConn i (sv_reg s)\<rparr>"
          using Inr r i2 i3 by (simp add: adopt_node_def)
        then show ?thesis using a1 a2 a3 by blast
      qed
    qed
  qed
qed

lemma enrollNode_result:
  obtains (same) "sv_db (fst (enrollNode q c req t ad ac u s)) = sv_db s"
  | (adopt) i n m d1 d2 d3 al al2 where "ad" "GetClusterByID c (sv_db s) \<noteq> None"
      "GetNodeByIdentity c (er_MachineID req) (sv_db s) = Some (i, n)"
      "AdoptNodeIdentity (er_PublicKey req) (er_Hostname req) (er_OSVersion req)
          (er_AgentVersion req) (normalizePlatform (er_Platform req)) i (sv_db s) = Inr (m, d1)"
      "InsertAuditLog al d1 = Inr d2" "InsertAuditLog al2 d2 = Inr d3"
      "fst (enrollNode q c req t ad ac u s) = \<lparr>sv_db = d3, sv_reg = evictNodeConn i (sv_reg s)\<rparr>"
  | (create) i name d1 d2 d3 al where "GetClusterByID c (sv_db s) \<noteq> None"
      "case t of None \<Rightarrow> d1 = sv_db s | Some ti \<Rightarrow> ConsumeEnrollmentToken ti (sv_db s) = Inr d1"
      "CreateNode i (new_node c name req) d1 = Inr d2" "InsertAuditLog al d2 = Inr d3"
      "fst (enrollNode q c req t ad ac u s) = s\<lparr>sv_db := d3\<rparr>"
proof (cases "rq_fails q ''Begin'' \<or> rd q ''GetClusterByID'' (GetClusterByID c (sv_db s)) = None")
  case True
  then show thesis by (intro same) (auto simp: enrollNode_def Let_def)
next
  case go: False
  then have live: "GetClusterByID c (sv_db s) \<noteq> None" by (auto simp: rd_def split: if_splits)
  show thesis
  proof (cases "rd q ''GetNodeByIdentity'' (GetNodeByIdentity c (er_MachineID req) (sv_db s))")
    case (Some r)
    obtain i n where r: "r = (i, n)" by (cases r)
    show thesis
    proof (cases "nd_PublicKey n = er_PublicKey req \<or> \<not> ad")
      case True
      then show thesis using go Some r by (intro same) (auto simp: enrollNode_def Let_def)
    next
      case False
      then have e: "fst (enrollNode q c req t ad ac u s) = fst (adopt_node q c req i ac u s)"
        using go Some r by (auto simp: enrollNode_def Let_def)
      show thesis
        using adopt_node_result [of q c req i ac u s]
      proof (elim disjE exE conjE)
        assume "fst (adopt_node q c req i ac u s) = s"
        then show thesis using e by (intro same) simp
      next
        fix m d1 d2 d3 al al2
        assume a: "AdoptNodeIdentity (er_PublicKey req) (er_Hostname req) (er_OSVersion req)
            (er_AgentVersion req) (normalizePlatform (er_Platform req)) i (sv_db s) = Inr (m, d1)"
          "InsertAuditLog al d1 = Inr d2" "InsertAuditLog al2 d2 = Inr d3"
          "fst (adopt_node q c req i ac u s) = \<lparr>sv_db = d3, sv_reg = evictNodeConn i (sv_reg s)\<rparr>"
        have g: "GetNodeByIdentity c (er_MachineID req) (sv_db s) = Some (i, n)" using Some r by (auto dest: rd_SomeD)
        show thesis by (rule adopt [OF _ live g a(1-3)]) (use False e a(4) in simp_all)
      qed
    qed
  next
    case None
    let ?tk = "case t of None \<Rightarrow> Inr (sv_db s) | Some ti \<Rightarrow> wr q ''ConsumeEnrollmentToken'' (ConsumeEnrollmentToken ti (sv_db s))"
    show thesis
    proof (cases ?tk)
      case (Inl x)
      then show thesis using go None by (intro same) (auto simp: enrollNode_def Let_def)
    next
      case (Inr d1)
      have t: "case t of None \<Rightarrow> d1 = sv_db s | Some ti \<Rightarrow> ConsumeEnrollmentToken ti (sv_db s) = Inr d1"
        using Inr by (auto split: option.splits dest: wr_InrD)
      show thesis
      proof (cases "create_node q c req ac u d1")
        case (Inl x)
        then show thesis using go None Inr by (intro same) (auto simp: enrollNode_def Let_def)
      next
        case (Inr r)
        obtain n d3 where r: "r = (n, d3)" by (cases r)
        obtain d2 al where "CreateNode (rq_new q 0) (new_node c (free_name q c (er_Hostname req) d1) req) d1 = Inr d2"
            "InsertAuditLog al d2 = Inr d3"
          using Inr r unfolding create_node_def enroll_audit_def Let_def
          by (auto split: sum.splits if_splits db_error.splits dest!: wr_InrD)
        then show thesis
          by (rule create [OF live t]) (use go None \<open>?tk = Inr d1\<close> Inr r in \<open>auto simp: enrollNode_def Let_def\<close>)
      qed
    qed
  qed
qed


lemma GetNodeByIdentity_Some:
  "db_wf d \<Longrightarrow> GetNodeByIdentity c m d = Some (i, n) \<Longrightarrow> tget (db_nodes d) i = Some n \<and> nd_ClusterID n = c \<and> nd_MachineID n = m"
  using tget_in_set [of "db_nodes d" i n]
  by (auto simp: GetNodeByIdentity_def find_Some_iff dest!: nth_mem)

lemma userRegisterNode_nacts:
  assumes "db_wf (sv_db s)"
  shows "(nact a)\<^sup>*\<^sup>* (sv_db s) (sv_db (fst (userRegisterNode quote q a cid body s)))"
proof -
  have main: "(nact a)\<^sup>*\<^sup>* (sv_db s) (sv_db (fst (enrollNode q c req None True ac u s)))"
    if m: "GetMemberRole c (fst a) (sv_db s) \<noteq> None" for c req ac u
  proof (cases rule: enrollNode_result [of q c req None True ac u s])
    case same
    then show ?thesis by simp
  next
    case (adopt i n m d1 d2 d3 al al2)
    then have "nact a (sv_db s) d1" "nact a d1 d2" "nact a d2 d3"
      using nact.node_adopt [OF that] GetNodeByIdentity_Some [OF assms adopt(3)] by (blast intro: nact.node_audit)+
    then show ?thesis using adopt by (auto intro: rtranclp.rtrancl_into_rtrancl)
  next
    case (create i name d1 d2 d3 al)
    then have "nact a (sv_db s) d2" "nact a d2 d3"
      using nact.node_register [OF m] by (auto intro: nact.node_audit)
    then show ?thesis using create by (auto intro: rtranclp.rtrancl_into_rtrancl)
  qed
  have "GetMemberRole c u d \<noteq> None" if "rd q ''GetMemberRole'' (GetMemberRole c u d) \<noteq> None" for c u d
    using that by (auto simp: rd_def split: if_splits)
  then show ?thesis using main
    by (auto simp: userRegisterNode_def split: option.splits sum.splits)
qed

lemma nact_wf: "nact a d d' \<Longrightarrow> db_wf d \<Longrightarrow> db_wf d'"
proof (induction rule: nact.induct)
  case (new_token a t d i d')
  then show ?case by (intro wf_CreateEnrollmentToken [of i t d d']) simp_all
qed (blast intro: wf_InsertAuditLog wf_SetNodeStatus wf_RenameNode wf_MoveNodeCluster wf_CreateNode wf_AdoptNodeIdentity wf_DeleteNode)+

lemma nacts_wf: "(nact a)\<^sup>*\<^sup>* d d' \<Longrightarrow> db_wf d \<Longrightarrow> db_wf d'"
  by (induction rule: rtranclp_induct) (simp_all add: nact_wf)

lemma node_stmt_frames:
  "put_node i n d = Inr d' \<Longrightarrow> db_users d' = db_users d \<and> db_clusters d' = db_clusters d \<and> db_members d' = db_members d \<and> db_tokens d' = db_tokens d"
  by (auto simp: put_node_def split: option.splits)

lemma node_stmts_frame:
  assumes "SetNodeStatus i st d = Inr d' \<or> RenameNode i name d = Inr d' \<or> MoveNodeCluster i t name src d = Inr (k, d')
     \<or> CreateNode i nn d = Inr d' \<or> AdoptNodeIdentity key host osv agentv plat i d = Inr (m, d') \<or> d' = snd (DeleteNode i d)
     \<or> d' = upd_node i f d"
  shows "db_users d' = db_users d \<and> db_clusters d' = db_clusters d \<and> db_members d' = db_members d \<and> db_tokens d' = db_tokens d"
  using assms
  by (elim disjE) (auto simp: SetNodeStatus_def upd_node_def RenameNode_def MoveNodeCluster_def CreateNode_def
      AdoptNodeIdentity_def DeleteNode_def Let_def dest!: node_stmt_frames split: option.splits if_splits sum.splits)

lemma InsertAuditLog_frame: "InsertAuditLog al d = Inr d' \<Longrightarrow> db_users d' = db_users d \<and> db_clusters d' = db_clusters d
    \<and> db_members d' = db_members d \<and> db_tokens d' = db_tokens d \<and> db_nodes d' = db_nodes d"
  by (auto simp: InsertAuditLog_def split: option.splits if_splits)

lemma token_stmts_frame:
  assumes "CreateEnrollmentToken i t d = Inr d' \<or> ConsumeEnrollmentToken i d = Inr d'"
  shows "db_users d' = db_users d \<and> db_clusters d' = db_clusters d \<and> db_members d' = db_members d \<and> db_nodes d' = db_nodes d"
  using assms by (auto simp: CreateEnrollmentToken_def ConsumeEnrollmentToken_def split: option.splits if_splits)

lemma nact_access: "nact a d d' \<Longrightarrow> db_users d' = db_users d \<and> db_clusters d' = db_clusters d \<and> db_members d' = db_members d"
proof (induction rule: nact.induct)
  case (node_audit al d d' a)
  then show ?case using InsertAuditLog_frame by blast
next
  case (new_token a t d i d')
  then show ?case using token_stmts_frame by blast
qed (use node_stmts_frame in blast)+

lemma nacts_access: "(nact a)\<^sup>*\<^sup>* d d' \<Longrightarrow> db_users d' = db_users d \<and> db_clusters d' = db_clusters d \<and> db_members d' = db_members d"
  by (induction rule: rtranclp_induct) (auto dest: nact_access)

subsection \<open>Enrollment and connections without a user\<close>

text \<open>Steps of machines: nobody but the holder of a token or of a node key takes part.\<close>

lemma machine_enroll:
  assumes "db_wf (sv_db s)"
  shows "db_wf (sv_db (fst (enrollNode q c req t ad ac u s)))
     \<and> db_users (sv_db (fst (enrollNode q c req t ad ac u s))) = db_users (sv_db s)
     \<and> db_clusters (sv_db (fst (enrollNode q c req t ad ac u s))) = db_clusters (sv_db s)
     \<and> db_members (sv_db (fst (enrollNode q c req t ad ac u s))) = db_members (sv_db s)"
proof (cases rule: enrollNode_result [of q c req t ad ac u s])
  case same
  then show ?thesis using assms by simp
next
  case (adopt i n m d1 d2 d3 al al2)
  have "db_wf d3" using adopt assms by (blast intro: wf_InsertAuditLog wf_AdoptNodeIdentity)
  moreover have "db_users d1 = db_users (sv_db s) \<and> db_clusters d1 = db_clusters (sv_db s) \<and> db_members d1 = db_members (sv_db s)"
    using node_stmts_frame adopt(4) by blast
  ultimately show ?thesis using adopt InsertAuditLog_frame [OF adopt(5)] InsertAuditLog_frame [OF adopt(6)] by simp
next
  case (create i name d1 d2 d3 al)
  have d1: "db_wf d1 \<and> db_users d1 = db_users (sv_db s) \<and> db_clusters d1 = db_clusters (sv_db s) \<and> db_members d1 = db_members (sv_db s)"
  proof (cases t)
    case (Some ti)
    then have "ConsumeEnrollmentToken ti (sv_db s) = Inr d1" using create(2) by simp
    then show ?thesis using wf_ConsumeEnrollmentToken assms token_stmts_frame by blast
  qed (use create(2) assms in simp)
  have "db_wf d3" using create d1 by (blast intro: wf_InsertAuditLog wf_CreateNode)
  moreover have "db_users d2 = db_users d1 \<and> db_clusters d2 = db_clusters d1 \<and> db_members d2 = db_members d1"
    using node_stmts_frame create(3) by blast
  ultimately show ?thesis using create d1 InsertAuditLog_frame [OF create(4)] by simp
qed

lemma agentEnroll_cases:
  obtains (same) e where "agentEnroll q body s = (s, Inl e)"
  | (enrolls) req ti t where "body = Some req" "GetEnrollmentTokenByHash (tokens_Hash q (er_Token req)) (sv_db s) = Some (ti, t)"
      "rq_now q \<le> et_ExpiresAt t" "\<not> bad_key (er_PublicKey req)"
      "agentEnroll q body s = enrollNode q (et_ClusterID t) req (Some ti) False ''node.enroll'' (et_CreatedBy t) s"
proof (cases body)
  case None
  then show thesis by (intro same) (simp add: agentEnroll_def)
next
  case (Some req)
  show thesis
  proof (cases "rd q ''GetEnrollmentTokenByHash'' (GetEnrollmentTokenByHash (tokens_Hash q (er_Token req)) (sv_db s))")
    case None
    then show thesis using Some by (intro same) (simp add: agentEnroll_def)
  next
    case (Some r)
    obtain ti t where r: "r = (ti, t)" by (cases r)
    consider "rq_now q > et_ExpiresAt t" | "rq_now q \<le> et_ExpiresAt t" "rd q ''GetClusterByID'' (GetClusterByID (et_ClusterID t) (sv_db s)) = None"
      | cl where "rq_now q \<le> et_ExpiresAt t" "rd q ''GetClusterByID'' (GetClusterByID (et_ClusterID t) (sv_db s)) = Some cl" "bad_key (er_PublicKey req)"
      | cl where "rq_now q \<le> et_ExpiresAt t" "rd q ''GetClusterByID'' (GetClusterByID (et_ClusterID t) (sv_db s)) = Some cl" "\<not> bad_key (er_PublicKey req)"
      by (meson not_le_imp_less not_None_eq)
    then show thesis
    proof cases
      case 4
      show thesis by (rule enrolls [OF \<open>body = Some req\<close> rd_SomeD [OF Some [unfolded r]] 4(1) 4(3)])
          (use 4 Some r \<open>body = Some req\<close> in \<open>simp add: agentEnroll_def\<close>)
    qed (use Some r \<open>body = Some req\<close> in \<open>auto simp: agentEnroll_def intro: same\<close>)
  qed
qed

lemma enrollNode_token_cases:
  obtains (err) e where "enrollNode q c req (Some ti) False ac u s = (s, Inl e)"
  | (old) i n where "enrollNode q c req (Some ti) False ac u s = (s, Inr (i, n))"
      "GetNodeByIdentity c (er_MachineID req) (sv_db s) = Some (i, n)" "nd_PublicKey n = er_PublicKey req"
  | (new) name d1 d2 d3 al where
      "enrollNode q c req (Some ti) False ac u s = (s\<lparr>sv_db := d3\<rparr>, Inr (rq_new q 0, new_node c name req))"
      "ConsumeEnrollmentToken ti (sv_db s) = Inr d1" "CreateNode (rq_new q 0) (new_node c name req) d1 = Inr d2"
      "InsertAuditLog al d2 = Inr d3"
proof (cases "rq_fails q ''Begin'' \<or> rd q ''GetClusterByID'' (GetClusterByID c (sv_db s)) = None")
  case True
  then show thesis by (cases "rq_fails q ''Begin''") (auto simp: enrollNode_def Let_def intro: err)
next
  case False
  then obtain cl where go: "\<not> rq_fails q ''Begin''" "rd q ''GetClusterByID'' (GetClusterByID c (sv_db s)) = Some cl"
    by blast
  show thesis
  proof (cases "rd q ''GetNodeByIdentity'' (GetNodeByIdentity c (er_MachineID req) (sv_db s))")
    case (Some r)
    obtain i n where r: "r = (i, n)" by (cases r)
    show thesis
    proof (cases "nd_PublicKey n = er_PublicKey req")
      case True
      show thesis by (rule old [OF _ rd_SomeD [OF Some [unfolded r]] True]) (use go Some r True in \<open>simp add: enrollNode_def Let_def\<close>)
    next
      case False
      show thesis by (rule err) (use go Some r False in \<open>simp add: enrollNode_def Let_def\<close>)
    qed
  next
    case None
    show thesis
    proof (cases "wr q ''ConsumeEnrollmentToken'' (ConsumeEnrollmentToken ti (sv_db s))")
      case (Inl x)
      show thesis by (rule err) (use go None Inl in \<open>simp add: enrollNode_def Let_def\<close>)
    next
      case c1: (Inr d1)
      show thesis
      proof (cases "create_node q c req ac u d1")
        case (Inl x)
        show thesis by (rule err) (use go None c1 Inl in \<open>simp add: enrollNode_def Let_def\<close>)
      next
        case (Inr r)
        let ?name = "free_name q c (er_Hostname req) d1"
        obtain n d3 where r: "r = (n, d3)" by (cases r)
        obtain d2 al where c: "CreateNode (rq_new q 0) (new_node c ?name req) d1 = Inr d2"
            "InsertAuditLog al d2 = Inr d3" "n = (rq_new q 0, new_node c ?name req)"
          using Inr r unfolding create_node_def enroll_audit_def Let_def
          by (auto split: sum.splits if_splits db_error.splits dest!: wr_InrD)
        show thesis by (rule new [OF _ wr_InrD [OF c1] c(1,2)]) (use go None c1 Inr r c(3) in \<open>simp add: enrollNode_def Let_def\<close>)
      qed
    qed
  qed
qed

lemma CreateNode_Inr:
  assumes "CreateNode i n d = Inr d'" "db_wf d"
  shows "tget (db_nodes d) i = None" "d' = d\<lparr>db_nodes := tput i n (db_nodes d)\<rparr>"
    "\<And>j m. tget (db_nodes d) j = Some m \<Longrightarrow> nd_MachineID m \<noteq> nd_MachineID n"
    "\<And>j m. tget (db_nodes d) j = Some m \<Longrightarrow> nd_ClusterID m = nd_ClusterID n \<Longrightarrow> nd_Name m \<noteq> nd_Name n"
proof -
  have free: "tget (db_nodes d) i = None" and nc: "node_conflict i n d = None" and d': "d' = d\<lparr>db_nodes := tput i n (db_nodes d)\<rparr>"
    using assms(1) by (auto simp: CreateNode_def put_node_def split: if_splits option.splits)
  then show "tget (db_nodes d) i = None" "d' = d\<lparr>db_nodes := tput i n (db_nodes d)\<rparr>" by simp_all
  have ncl: "\<not> clash node_name_key i n (db_nodes d)" "\<not> clash machine_key i n (db_nodes d)"
    using nc by (auto simp: node_conflict_def split: if_splits)
  show "nd_MachineID m \<noteq> nd_MachineID n" if m: "tget (db_nodes d) j = Some m" for j m
  proof
    assume "nd_MachineID m = nd_MachineID n"
    moreover have "j \<noteq> i" using m free by auto
    ultimately have "clash machine_key i n (db_nodes d)"
      using m assms(2) unfolding clash_iff [OF db_wf_keys(4) [OF assms(2)]] machine_key_def by auto
    then show False using ncl(2) by simp
  qed
  show "nd_Name m \<noteq> nd_Name n" if m: "tget (db_nodes d) j = Some m" "nd_ClusterID m = nd_ClusterID n" for j m
  proof
    assume "nd_Name m = nd_Name n"
    moreover have "j \<noteq> i" using m free by auto
    ultimately have "clash node_name_key i n (db_nodes d)"
      using m assms(2) unfolding clash_iff [OF db_wf_keys(4) [OF assms(2)]] node_name_key_def by auto
    then show False using ncl(1) by simp
  qed
qed

lemma find_token: "GetEnrollmentTokenByHash h d = Some (ti, t) \<Longrightarrow> db_wf d \<Longrightarrow> tget (db_tokens d) ti = Some t \<and> et_TokenHash t = h"
  using tget_in_set [of "db_tokens d" ti t]
  by (auto simp: GetEnrollmentTokenByHash_def find_Some_iff dest!: nth_mem)

definition demo_enroll :: enrollReq where
  "demo_enroll = \<lparr>er_Token = ''k'', er_Hostname = ''db'', er_MachineID = ''m9'', er_OSVersion = ''11'', er_AgentVersion = ''1.0.0'',
     er_PublicKey = ''AAAAAAAAAAAAAAAAAAAAAAAAAAAAAAAAAAAAAAAAAAA='', er_Platform = ''linux''\<rparr>"

lemma demo_hash: "tokens_Hash demo_rq ''k'' = ''6b''"
  by (simp add: tokens_Hash_def demo_rq_def hex_EncodeToString_def hex_char_def) code_simp

lemma demo_key: "\<not> bad_key ''AAAAAAAAAAAAAAAAAAAAAAAAAAAAAAAAAAAAAAAAAAA=''"
proof -
  have "b64std_val (CHR ''A'') = Some 0" by code_simp
  then show ?thesis by (simp add: bad_key_def b64std_Decode_def Let_def)
qed

lemma demo_enroll_new:
  "snd (agentEnroll demo_rq (Some demo_enroll) \<lparr>sv_db = demo_db, sv_reg = registry_New\<rparr>) = Inr (''#9'', new_node ''#10'' ''db'' demo_enroll)"
proof -
  have "GetEnrollmentTokenByHash ''6b'' demo_db = Some (''#30'', \<lparr>et_ClusterID = ''#10'', et_TokenHash = ''6b'', et_ExpiresAt = 100, et_MaxUses = 1,
      et_UsedCount = 0, et_CreatedBy = ''#1''\<rparr>)" "GetClusterByID ''#10'' demo_db = Some (''#10'', demo_cluster ''alpha'' ''#1'')"
      "rq_now demo_rq = 50" "rq_fails demo_rq x = False" for x
    by (simp_all add: demo_rows GetEnrollmentTokenByHash_def GetClusterByID_def live_def demo_rq_def)
  moreover have "er_Token demo_enroll = ''k''" "er_PublicKey demo_enroll = ''AAAAAAAAAAAAAAAAAAAAAAAAAAAAAAAAAAAAAAAAAAA=''"
    by (simp_all add: demo_enroll_def)
  ultimately have "agentEnroll demo_rq (Some demo_enroll) \<lparr>sv_db = demo_db, sv_reg = registry_New\<rparr>
      = enrollNode demo_rq ''#10'' demo_enroll (Some ''#30'') False ''node.enroll'' ''#1'' \<lparr>sv_db = demo_db, sv_reg = registry_New\<rparr>"
    using demo_hash demo_key by (simp add: agentEnroll_def rd_def)
  moreover have "snd (enrollNode demo_rq ''#10'' demo_enroll (Some ''#30'') False ''node.enroll'' ''#1'' \<lparr>sv_db = demo_db, sv_reg = registry_New\<rparr>)
      = Inr (''#9'', new_node ''#10'' ''db'' demo_enroll)" by code_simp
  ultimately show ?thesis by simp
qed

text \<open>Enrollment by token: a refused request changes nothing, so it burns no use of the token. An accepted
  one presents a token that exists and has not expired, and either finds the same machine with the same key
  already enrolled in the token's cluster (same answer, nothing changes, the token is not used), or uses the
  token once, within its limit, and adds exactly one node: in the token's cluster, with a machine id no node
  has and a name no node of the cluster has, offline until it connects.\<close>

theorem enroll_outcome:
  assumes "db_wf (sv_db s)"
  shows "(\<forall>e. snd (agentEnroll q body s) = Inl e \<longrightarrow> fst (agentEnroll q body s) = s) \<and>
    (\<forall>i n. snd (agentEnroll q body s) = Inr (i, n) \<longrightarrow> (\<exists>req ti t. body = Some req
       \<and> tget (db_tokens (sv_db s)) ti = Some t \<and> et_TokenHash t = tokens_Hash q (er_Token req)
       \<and> rq_now q \<le> et_ExpiresAt t
       \<and> nd_ClusterID n = et_ClusterID t \<and> nd_MachineID n = er_MachineID req \<and> nd_PublicKey n = er_PublicKey req
       \<and> ((fst (agentEnroll q body s) = s \<and> tget (db_nodes (sv_db s)) i = Some n) \<or>
          (tget (db_nodes (sv_db s)) i = None
           \<and> db_nodes (sv_db (fst (agentEnroll q body s))) = tput i n (db_nodes (sv_db s))
           \<and> (\<forall>j m. tget (db_nodes (sv_db s)) j = Some m \<longrightarrow> nd_MachineID m \<noteq> nd_MachineID n
                \<and> (nd_ClusterID m = nd_ClusterID n \<longrightarrow> nd_Name m \<noteq> nd_Name n))
           \<and> nd_Status n = ''offline'' \<and> et_UsedCount t < et_MaxUses t
           \<and> db_tokens (sv_db (fst (agentEnroll q body s))) =
               tput ti (t\<lparr>et_UsedCount := et_UsedCount t + 1\<rparr>) (db_tokens (sv_db s))
           \<and> sv_reg (fst (agentEnroll q body s)) = sv_reg s))))"
proof (cases rule: agentEnroll_cases [of q body s])
  case (same e)
  then show ?thesis by simp
next
  case (enrolls req ti t)
  note tk = find_token [OF enrolls(2) assms]
  show ?thesis
  proof (cases rule: enrollNode_token_cases [of q "et_ClusterID t" req ti "''node.enroll''" "et_CreatedBy t" s])
    case (err e)
    then show ?thesis using enrolls(5) by simp
  next
    case (old i n)
    show ?thesis using enrolls tk old GetNodeByIdentity_Some [OF assms old(2)] by auto
  next
    case (new name d1 d2 d3 al)
    let ?n = "new_node (et_ClusterID t) name req"
    have used: "et_UsedCount t < et_MaxUses t" and d1: "d1 = (sv_db s)\<lparr>db_tokens := tput ti (t\<lparr>et_UsedCount := et_UsedCount t + 1\<rparr>) (db_tokens (sv_db s))\<rparr>"
      using new(2) tk by (auto simp: ConsumeEnrollmentToken_def split: if_splits)
    have cn: "tget (db_nodes (sv_db s)) (rq_new q 0) = None" "db_nodes d2 = tput (rq_new q 0) ?n (db_nodes (sv_db s))"
      "db_tokens d2 = db_tokens d1" "\<And>j m. tget (db_nodes (sv_db s)) j = Some m \<Longrightarrow> nd_MachineID m \<noteq> nd_MachineID ?n"
      "\<And>j m. tget (db_nodes (sv_db s)) j = Some m \<Longrightarrow> nd_ClusterID m = nd_ClusterID ?n \<Longrightarrow> nd_Name m \<noteq> nd_Name ?n"
      using CreateNode_Inr [OF new(3) wf_ConsumeEnrollmentToken [OF new(2) assms]] d1 by auto
    have "db_nodes d3 = db_nodes d2 \<and> db_tokens d3 = db_tokens d2" using InsertAuditLog_frame [OF new(4)] by simp
    then show ?thesis
      using enrolls new(1) tk used d1 cn by (auto simp: new_node_def)
  qed
qed

theorem enroll_outcome_witness:
  "snd (agentEnroll demo_rq (Some demo_enroll) \<lparr>sv_db = demo_db, sv_reg = registry_New\<rparr>) = Inr (''#9'', new_node ''#10'' ''db'' demo_enroll)
   \<and> (\<exists>t. tget (db_tokens demo_db) ''#30'' = Some t \<and> et_UsedCount t < et_MaxUses t
      \<and> tget (db_tokens (sv_db (fst (agentEnroll demo_rq (Some demo_enroll) \<lparr>sv_db = demo_db, sv_reg = registry_New\<rparr>)))) ''#30''
          = Some (t\<lparr>et_UsedCount := et_UsedCount t + 1\<rparr>))"
proof -
  let ?s = "\<lparr>sv_db = demo_db, sv_reg = registry_New\<rparr>"
  have acc: "snd (agentEnroll demo_rq (Some demo_enroll) ?s) = Inr (''#9'', new_node ''#10'' ''db'' demo_enroll)"
    by (simp add: demo_enroll_new)
  have "tget (db_nodes demo_db) ''#9'' \<noteq> Some n" for n by (simp add: demo_db_def)
  moreover have "ti = ''#30''" if "tget (db_tokens demo_db) ti = Some t" for ti t
    using that by (simp add: demo_db_def split: if_splits)
  ultimately show ?thesis
    using enroll_outcome [of ?s demo_rq "Some demo_enroll"] acc demo_wf by auto
qed

subsection \<open>Moving a node\<close>

lemma put_node_Inr:
  assumes "put_node i n d = Inr d'" "db_wf d"
  shows "d' = d\<lparr>db_nodes := tput i n (db_nodes d)\<rparr>"
    "\<And>j m. tget (db_nodes d) j = Some m \<Longrightarrow> j \<noteq> i \<Longrightarrow> nd_ClusterID m = nd_ClusterID n \<Longrightarrow> nd_Name m \<noteq> nd_Name n"
proof -
  have nc: "node_conflict i n d = None" and d': "d' = d\<lparr>db_nodes := tput i n (db_nodes d)\<rparr>"
    using assms(1) by (auto simp: put_node_def split: option.splits)
  then show "d' = d\<lparr>db_nodes := tput i n (db_nodes d)\<rparr>" by simp
  have ncl: "\<not> clash node_name_key i n (db_nodes d)" using nc by (auto simp: node_conflict_def split: if_splits)
  show "nd_Name m \<noteq> nd_Name n" if m: "tget (db_nodes d) j = Some m" "j \<noteq> i" "nd_ClusterID m = nd_ClusterID n" for j m
  proof
    assume "nd_Name m = nd_Name n"
    then have "clash node_name_key i n (db_nodes d)"
      using m assms(2) unfolding clash_iff [OF db_wf_keys(4) [OF assms(2)]] node_name_key_def by auto
    then show False using ncl by simp
  qed
qed

lemma move_loop_cases:
  obtains (err) e where "move_loop q a i n t name k d = (d, Inl e)"
  | (moved) name' d1 d2 al rows where "move_loop q a i n t name k d = (d2, Inr (i, t, name'))" "rows \<noteq> 0"
      "MoveNodeCluster i t name' (nd_ClusterID n) d = Inr (rows, d1)" "InsertAuditLog al d1 = Inr d2"
proof (induction q a i n t name k d arbitrary: thesis rule: move_loop.induct)
  case (1 q a i n t name k d)
  show ?case
  proof (cases "rq_fails q ''SAVEPOINT''")
    case True
    then show ?thesis by (intro 1(2)) (subst move_loop.simps, simp)
  next
    case sp: False
    show ?thesis
    proof (cases "wr q ''MoveNodeCluster'' (MoveNodeCluster i t name (nd_ClusterID n) d)")
      case (Inr r)
      obtain rows d1 where r: "r = (rows, d1)" by (cases r)
      let ?al = "\<lparr>au_UserID = Some (fst a), au_ClusterID = Some t, au_NodeID = Some i,
                  au_Action = ''node.move'', au_Metadata = [(''from_cluster'', nd_ClusterID n), (''to_cluster'', t),
                    (''old_name'', nd_Name n), (''new_name'', name)], au_CreatedAt = rq_now q\<rparr>"
      show ?thesis
      proof (cases "rq_fails q ''RELEASE SAVEPOINT'' \<or> rows = 0 \<or> (\<exists>e. wr q ''InsertAuditLog'' (InsertAuditLog ?al d1) = Inl e) \<or> rq_fails q ''Commit''")
        case True
        then have "\<exists>e. move_loop q a i n t name k d = (d, Inl e)"
          using sp Inr r by (subst move_loop.simps) (auto split: sum.splits)
        then show ?thesis using 1(2) by blast
      next
        case False
        then obtain d2 where d2: "wr q ''InsertAuditLog'' (InsertAuditLog ?al d1) = Inr d2"
          by (cases "wr q ''InsertAuditLog'' (InsertAuditLog ?al d1)") auto
        show ?thesis
          by (rule 1(3) [OF _ _ _ wr_InrD [OF d2]])
            (use sp Inr r False d2 wr_InrD [OF Inr] in \<open>subst move_loop.simps, simp\<close>, use False wr_InrD [OF Inr] r in auto)
      qed
    next
      case (Inl e)
      show ?thesis
      proof (cases "\<exists>con. e = PgError ''23505'' con \<and> \<not> rq_fails q ''ROLLBACK TO SAVEPOINT'' \<and> con = ''nodes_cluster_id_name_key'' \<and> k < 3")
        case True
        then have e: "e = PgError ''23505'' ''nodes_cluster_id_name_key''" and g: "\<not> rq_fails q ''ROLLBACK TO SAVEPOINT''" "k < 3" by auto
        let ?nm = "nd_Name n @ ''-'' @ nat_decimal (k + 2)"
        have rec: "move_loop q a i n t name k d = move_loop q a i n t ?nm (Suc k) d"
          using sp Inl e g by (subst move_loop.simps) simp
        show ?thesis
        proof (rule 1(1) [OF sp Inl e])
          show "thesis" if "move_loop q a i n t ?nm (Suc k) d = (d, Inl e)" for e
            using 1(2) that rec by simp
          show "thesis" if "move_loop q a i n t ?nm (Suc k) d = (d2, Inr (i, t, name'))" "rows \<noteq> 0"
            "MoveNodeCluster i t name' (nd_ClusterID n) d = Inr (rows, d1)" "InsertAuditLog al d1 = Inr d2" for name' d1 d2 al rows
            using 1(3) [OF _ that(2-4)] that(1) rec by simp
        qed (use g in simp_all)
      next
        case False
        then have "\<exists>e. move_loop q a i n t name k d = (d, Inl e)"
          using sp Inl by (subst move_loop.simps) (auto split: db_error.splits)
        then show ?thesis using 1(2) by blast
      qed
    qed
  qed
qed


lemma moveNode_cases:
  assumes "db_wf d"
  obtains (err) e where "moveNode quote q a nid body d = (d, Inl e)"
  | (moved) i n t name d1 d2 al rows where "moveNode quote q a nid body d = (d2, Inr (i, t, name))" "rq_parse q nid = Some i"
      "tget (db_nodes d) i = Some n" "t \<noteq> nd_ClusterID n" "GetMemberRole (nd_ClusterID n) (fst a) d = Some ''owner''" "owns a t d"
      "rows \<noteq> 0" "MoveNodeCluster i t name (nd_ClusterID n) d = Inr (rows, d1)" "InsertAuditLog al d1 = Inr d2"
proof (cases "rq_parse q nid")
  case None
  then show thesis by (intro err) (simp add: moveNode_def)
next
  case pi: (Some i)
  show thesis
  proof (cases "rd q ''GetNodeByID'' (GetNodeByID i d)")
    case None
    then show thesis using pi by (intro err) (simp add: moveNode_def)
  next
    case pn: (Some n)
    have n: "tget (db_nodes d) i = Some n" using rd_SomeD [OF pn] by (simp add: GetNodeByID_def)
    show thesis
    proof (cases "body = None \<or> body = Some []")
      case True
      then show thesis using pi pn by (intro err) (auto simp: moveNode_def)
    next
      case False
      then obtain x where x: "body = Some x" "x \<noteq> []" by auto
      show thesis
      proof (cases "resolveCluster q x d")
        case (Inl e)
        then show thesis using pi pn x by (intro err) (simp add: moveNode_def)
      next
        case (Inr r)
        obtain t c where r: "r = (t, c)" by (cases r)
        let ?own = "\<lambda>c. rd q ''GetMemberRole'' (GetMemberRole c (fst a) d) = Some ''owner''"
        let ?conf = "rd q ''GetMachineIDConflictCluster'' (GetMachineIDConflictCluster (nd_MachineID n) (nd_ClusterID n) d)"
        let ?nm = "name_loop q t (nd_Name n) (nd_Name n) 2 d"
        show thesis
        proof (cases "t \<noteq> nd_ClusterID n \<and> ?own (nd_ClusterID n) \<and> ?own t \<and> ?conf = None \<and> \<not> rq_fails q ''Begin''")
          case False
          then have "\<exists>e. moveNode quote q a nid body d = (d, Inl e)"
            using pi pn x Inr r by (auto simp: moveNode_def split: option.splits)
          then show thesis using err by blast
        next
          case True
          have mv: "moveNode quote q a nid body d = move_loop q a i n t ?nm 0 d"
            using True pi pn x Inr r by (simp add: moveNode_def)
          have o: "GetMemberRole (nd_ClusterID n) (fst a) d = Some ''owner''" "owns a t d"
            using True resolveCluster_live [OF Inr [unfolded r] assms] by (auto simp: owns_def dest!: rd_SomeD)
          show thesis
          proof (cases rule: move_loop_cases [of q a i n t ?nm 0 d])
            case (err e)
            then show thesis using mv \<open>\<And>e. moveNode quote q a nid body d = (d, Inl e) \<Longrightarrow> thesis\<close> by simp
          next
            case (moved name' d1 d2 al rows)
            then show thesis using mv pi n o True that(2) by simp
          qed
        qed
      qed
    qed
  qed
qed

text \<open>Moving a node to another cluster: a refused request changes nothing. An accepted one is made by a user
  who owns the node's cluster and the target cluster, and changes the node's cluster and possibly its name,
  and nothing else: identity, key, status and every other node, member, cluster and token stay, and the new
  name is unique in the target cluster.\<close>

theorem move_outcome:
  assumes "db_wf d"
  shows "(\<forall>e. snd (moveNode quote q a nid body d) = Inl e \<longrightarrow> fst (moveNode quote q a nid body d) = d) \<and>
    (\<forall>i t name. snd (moveNode quote q a nid body d) = Inr (i, t, name) \<longrightarrow>
      (\<exists>n. tget (db_nodes d) i = Some n \<and> t \<noteq> nd_ClusterID n
         \<and> GetMemberRole (nd_ClusterID n) (fst a) d = Some ''owner'' \<and> owns a t d
         \<and> db_nodes (fst (moveNode quote q a nid body d)) =
             tput i (n\<lparr>nd_ClusterID := t, nd_Name := name\<rparr>) (db_nodes d)
         \<and> db_users (fst (moveNode quote q a nid body d)) = db_users d
         \<and> db_clusters (fst (moveNode quote q a nid body d)) = db_clusters d
         \<and> db_members (fst (moveNode quote q a nid body d)) = db_members d
         \<and> db_tokens (fst (moveNode quote q a nid body d)) = db_tokens d
         \<and> (\<forall>j m. tget (db_nodes d) j = Some m \<and> nd_ClusterID m = t \<longrightarrow> nd_Name m \<noteq> name)))"
  using assms
proof (cases rule: moveNode_cases [of d quote q a nid body])
  case (err e)
  then show ?thesis by simp
next
  case (moved i n t name d1 d2 al rows)
  have p: "put_node i (n\<lparr>nd_ClusterID := t, nd_Name := name\<rparr>) d = Inr d1"
    using moved(3,7,8) by (auto simp: MoveNodeCluster_def split: if_splits sum.splits)
  note f = put_node_Inr [OF p assms]
  have "nd_Name m \<noteq> name" if "tget (db_nodes d) j = Some m" "nd_ClusterID m = t" for j m
    using f(2) [OF that(1)] that moved(3,4) by (cases "j = i") auto
  then have "\<forall>j m. tget (db_nodes d) j = Some m \<and> nd_ClusterID m = t \<longrightarrow> nd_Name m \<noteq> name" by blast
  then show ?thesis using moved f(1) InsertAuditLog_frame [OF moved(9)] by simp
qed

theorem move_outcome_witness:
  "owns (''#1'', demo_user ''a@x'' True) ''#10'' demo_db \<and>
   db_nodes (fst (moveNode (\<lambda>n. n) demo_rq (''#1'', demo_user ''a@x'' True) ''#21'' (Some ''alpha'') demo_db)) =
     tput ''#21'' (demo_node ''#10'' ''web-3'' ''m2'' ''online''\<lparr>nd_Hostname := ''web''\<rparr>) (db_nodes demo_db)"
proof -
  have "snd (moveNode (\<lambda>n. n) demo_rq (''#1'', demo_user ''a@x'' True) ''#21'' (Some ''alpha'') demo_db) = Inr (''#21'', ''#10'', ''web-3'')"
    by code_simp
  then obtain n where n: "tget (db_nodes demo_db) ''#21'' = Some n" "owns (''#1'', demo_user ''a@x'' True) ''#10'' demo_db"
      "db_nodes (fst (moveNode (\<lambda>n. n) demo_rq (''#1'', demo_user ''a@x'' True) ''#21'' (Some ''alpha'') demo_db)) =
        tput ''#21'' (n\<lparr>nd_ClusterID := ''#10'', nd_Name := ''web-3''\<rparr>) (db_nodes demo_db)"
    using move_outcome [OF demo_wf, of "\<lambda>n. n" demo_rq "(''#1'', demo_user ''a@x'' True)" "''#21''" "Some ''alpha''"] by blast
  have "n = demo_node ''#11'' ''web'' ''m2'' ''online''" using n(1) by (simp add: demo_db_def)
  then show ?thesis using n(2,3) by (simp add: demo_node_def)
qed


subsection \<open>Who sees which node\<close>

text \<open>The two views of nodes agree: for a working database and identifiers whose text parses to
  themselves, the list of a user contains exactly the nodes that the user can fetch one by one, in the same
  rendering; these are the nodes of the clusters the user is a member of, and a node is shown online only
  while its control connection is registered.\<close>

theorem node_views_agree:
  assumes "db_wf (sv_db s)" "\<And>i. rq_parse q i = Some i" "\<not> rq_fails q ''ListNodesForUser''" "\<not> rq_fails q ''GetNodeForUser''"
  shows "\<exists>l. listNodes q a [] [] s = (s, Inr l)
     \<and> set l = {v. \<exists>i. getNode q a i s = (s, Inr v)}
     \<and> (\<forall>i v. getNode q a i s = (s, Inr v) \<longrightarrow> no_ID v = i \<and>
          (\<exists>n. tget (db_nodes (sv_db s)) i = Some n \<and> GetMemberRole (nd_ClusterID n) (fst a) (sv_db s) \<noteq> None
             \<and> (no_Status v = ''online'' \<longleftrightarrow> nd_Status n = ''online'' \<and> Online i (sv_reg s))))"
proof -
  let ?rows = "ListNodesForUser q (fst a) (sv_db s)"
  let ?row = "\<lambda>i n c. tget (db_nodes (sv_db s)) i = Some n \<and> tget (db_members (sv_db s)) (nd_ClusterID n, fst a) \<noteq> None
     \<and> tget (db_clusters (sv_db s)) (nd_ClusterID n) = Some c"
  have rows: "(i, n, cn) \<in> set ?rows \<longleftrightarrow> (\<exists>c. ?row i n c \<and> cn = cl_Name c)" for i n cn
    using tget_in_set [OF db_wf_keys(4) [OF assms(1)], of i n]
    by (cases "tget (db_members (sv_db s)) (nd_ClusterID n, fst a)"; cases "tget (db_clusters (sv_db s)) (nd_ClusterID n)")
      (auto simp: ListNodesForUser_def split: option.splits)
  have get: "getNode q a i s = (s, Inr v) \<longleftrightarrow> (\<exists>n c. ?row i n c \<and> v = node_dto i n (cl_Name c) (sv_reg s))" for i v
    using assms(2,4) by (auto simp: getNode_def GetNodeForUser_def rd_def split: option.splits)
  have "listNodes q a [] [] s = (s, Inr (map (\<lambda>(i, n, cn). node_dto i n cn (sv_reg s)) ?rows))"
    using assms(3) by (simp add: listNodes_def)
  moreover have "set (map (\<lambda>(i, n, cn). node_dto i n cn (sv_reg s)) ?rows) = {v. \<exists>i. getNode q a i s = (s, Inr v)}"
  proof (rule set_eqI)
    fix v
    have "v \<in> set (map (\<lambda>(i, n, cn). node_dto i n cn (sv_reg s)) ?rows)
        \<longleftrightarrow> (\<exists>i n cn. (i, n, cn) \<in> set ?rows \<and> v = node_dto i n cn (sv_reg s))" by force
    then show "v \<in> set (map (\<lambda>(i, n, cn). node_dto i n cn (sv_reg s)) ?rows) \<longleftrightarrow> v \<in> {v. \<exists>i. getNode q a i s = (s, Inr v)}"
      unfolding rows get mem_Collect_eq by blast
  qed
  moreover have "no_ID v = i \<and> (\<exists>n. tget (db_nodes (sv_db s)) i = Some n \<and> GetMemberRole (nd_ClusterID n) (fst a) (sv_db s) \<noteq> None
             \<and> (no_Status v = ''online'' \<longleftrightarrow> nd_Status n = ''online'' \<and> Online i (sv_reg s)))"
    if "getNode q a i s = (s, Inr v)" for i v
    using that unfolding get by (auto simp: node_dto_def shown_status_def GetMemberRole_def)
  ultimately show ?thesis by blast
qed

theorem node_views_agree_witness:
  "\<exists>l. listNodes (demo_rq\<lparr>rq_parse := Some\<rparr>) (''#2'', demo_user ''b@x'' False) [] [] \<lparr>sv_db = demo_db, sv_reg = registry_New\<rparr>
       = (\<lparr>sv_db = demo_db, sv_reg = registry_New\<rparr>, Inr l)
     \<and> set l = {v. \<exists>i. getNode (demo_rq\<lparr>rq_parse := Some\<rparr>) (''#2'', demo_user ''b@x'' False) i \<lparr>sv_db = demo_db, sv_reg = registry_New\<rparr>
         = (\<lparr>sv_db = demo_db, sv_reg = registry_New\<rparr>, Inr v)}"
  using node_views_agree [of "\<lparr>sv_db = demo_db, sv_reg = registry_New\<rparr>" "demo_rq\<lparr>rq_parse := Some\<rparr>" "(''#2'', demo_user ''b@x'' False)"] demo_wf
  by (simp add: demo_rq_def) blast

subsection \<open>Disabling a node and the control connection\<close>

lemma upd_node_get: "tget (db_nodes (upd_node i f d)) j = (if j = i then map_option f (tget (db_nodes d) i) else tget (db_nodes d) j)"
  by (auto simp: upd_node_def split: option.splits)

lemma agent_hello_online:
  assumes "tget (db_nodes (sv_db s)) i = Some n" "he_NodeID h = i" "\<not> rq_fails q ''SetNodeStatus''"
    "agent_hello q i (Some h) p s = Some (s', c)"
  shows "\<exists>n'. tget (db_nodes (sv_db s')) i = Some n' \<and> nd_ClusterID n' = nd_ClusterID n \<and> nd_Status n' = ''online''"
    "db_members (sv_db s') = db_members (sv_db s)"
proof -
  let ?d1 = "best_effort q ''UpdateNodeMeta'' (UpdateNodeMeta i (he_Hostname h) (he_ShellType h) (he_AgentVersion h)) (sv_db s)"
  let ?d2 = "if he_OS h \<noteq> '''' then best_effort q ''UpdateNodePlatform''
                        (UpdateNodePlatform i (normalizePlatform (he_OS h)) (he_OSVersion h)) ?d1 else ?d1"
  let ?d3 = "try_status q i ''online'' ?d2"
  have s': "sv_db s' = best_effort q ''TouchNode'' (TouchNode i (rq_now q)) ?d3"
    using assms(2,4) by (auto simp: agent_hello_def Let_def split: if_splits)
  obtain n1 where n1: "tget (db_nodes ?d1) i = Some n1" "nd_ClusterID n1 = nd_ClusterID n"
    using assms(1)
    by (cases "rq_fails q ''UpdateNodeMeta''") (simp_all add: best_effort_def UpdateNodeMeta_def upd_node_get)
  obtain n2 where n2: "tget (db_nodes ?d2) i = Some n2" "nd_ClusterID n2 = nd_ClusterID n"
    using n1 by (cases "rq_fails q ''UpdateNodePlatform''"; cases "he_OS h = []")
      (simp_all add: best_effort_def [of q "''UpdateNodePlatform''"] UpdateNodePlatform_def upd_node_get)
  have n3: "tget (db_nodes ?d3) i = Some (n2\<lparr>nd_Status := ''online''\<rparr>)"
    using n2 assms(3) by (simp add: try_status_def wr_def SetNodeStatus_def validStatuses_def upd_node_get)
  show "\<exists>n'. tget (db_nodes (sv_db s')) i = Some n' \<and> nd_ClusterID n' = nd_ClusterID n \<and> nd_Status n' = ''online''"
    using n2 n3 by (auto simp: s' best_effort_def TouchNode_def upd_node_get)
  have m: "db_members (upd_node i f d) = db_members d" for f d
    by (simp add: upd_node_def split: option.splits)
  have "db_members ?d2 = db_members (sv_db s)"
    by (simp add: best_effort_def UpdateNodeMeta_def UpdateNodePlatform_def m)
  moreover have "db_members ?d3 = db_members ?d2"
    by (simp add: try_status_def wr_def SetNodeStatus_def m split: sum.splits if_splits)
  ultimately show "db_members (sv_db s') = db_members (sv_db s)"
    by (simp add: s' best_effort_def TouchNode_def m)
qed

text \<open>Disabling a node does not last. An operator gets NODE_DISABLED while the row says disabled; but the
  greeting of the node's agent, which may connect at any time, sets the row to online whatever it said before,
  and from then on the same operator is let through.\<close>

theorem disable_does_not_last:
  assumes "tget (db_nodes (sv_db s)) i = Some n" "nd_Status n = ''disabled''"
    "GetMemberRole (nd_ClusterID n) (fst a) (sv_db s) = Some ''operator''"
    "he_NodeID h = i" "\<And>x. \<not> rq_fails q x"
  shows "requireMinRole q a i ''operator'' (sv_db s) = Inl (proto_Err 403 ''NODE_DISABLED'' ''node is disabled'')
     \<and> (\<exists>s' c n'. agent_hello q i (Some h) p s = Some (s', c)
          \<and> requireMinRole q a i ''operator'' (sv_db s') = Inr n' \<and> nd_Status n' = ''online'')"
proof -
  obtain s' c where h: "agent_hello q i (Some h) p s = Some (s', c)"
    using assms(4) by (simp add: agent_hello_def Let_def)
  obtain n' where n': "tget (db_nodes (sv_db s')) i = Some n'" "nd_ClusterID n' = nd_ClusterID n" "nd_Status n' = ''online''"
    "db_members (sv_db s') = db_members (sv_db s)"
    using agent_hello_online [OF assms(1,4) assms(5) h] by blast
  show ?thesis
    using assms h n' by (simp add: requireMinRole_def authorizeNodeRole_def GetNodeByID_def GetMemberRole_def rd_def)
qed

theorem disable_does_not_last_witness:
  "requireMinRole demo_rq (''#2'', demo_user ''b@x'' False) ''#20'' ''operator'' demo_db
      = Inl (proto_Err 403 ''NODE_DISABLED'' ''node is disabled'')
   \<and> (\<exists>s' c n'. agent_hello demo_rq ''#20'' (Some \<lparr>he_NodeID = ''#20'', he_Hostname = ''web'', he_ShellType = [], he_AgentVersion = ''1.0.0'',
        he_OS = [], he_OSVersion = []\<rparr>) 7 \<lparr>sv_db = demo_db, sv_reg = registry_New\<rparr> = Some (s', c)
      \<and> requireMinRole demo_rq (''#2'', demo_user ''b@x'' False) ''#20'' ''operator'' (sv_db s') = Inr n' \<and> nd_Status n' = ''online'')"
  using disable_does_not_last [of "\<lparr>sv_db = demo_db, sv_reg = registry_New\<rparr>" "''#20''" "demo_node ''#10'' ''web'' ''m1'' ''disabled''"
      "(''#2'', demo_user ''b@x'' False)" "\<lparr>he_NodeID = ''#20'', he_Hostname = ''web'', he_ShellType = [], he_AgentVersion = ''1.0.0'',
        he_OS = [], he_OSVersion = []\<rparr>" demo_rq 7]
  by (simp add: demo_rq_def demo_rows GetMemberRole_def)


end
