(* ===== verification/Ticket.thy ===== *)
theory Ticket
  imports Go_Strings
begin

text \<open>
  Relay tickets (\<open>src/rtv/ticket.go\<close>): minting, the host-ticket cache of the signer, offline
  verification with tombstones, the admission checks of the relay legs (\<open>validateHostHello\<close>,
  \<open>authViewer\<close> of \<open>src/rtv/rtv.go\<close>), and the host-leg address helpers of \<open>src/rtv/probe.go\<close>.
  Ed25519 and \<open>encoding/json\<close> on \<open>ticketClaims\<close> are the fields of the parameter record \<open>ticket_lib\<close>.
  What is relied on is stated per theorem: \<open>signature_correct\<close> (a signature made with a private key
  verifies under its public key) and \<open>json_roundtrips\<close> (unmarshalling the marshalled claims gives
  the claims; marshalled claims are not empty).
\<close>

subsection \<open>Claims and tickets\<close>

record ticketCap =
  cap_Control :: bool
  cap_Input :: bool

record ticketClaims =
  c_V :: int
  c_Typ :: string
  c_NID :: string
  c_SID :: string
  c_RID :: string
  c_Gen :: int
  c_Cap :: "ticketCap option"
  c_NM :: string
  c_Iat :: int
  c_Exp :: int

record Ticket =
  tk_Typ :: string
  tk_NodeID :: string
  tk_SessionID :: string
  tk_RelayID :: string
  tk_Gen :: int
  tk_Control :: bool
  tk_Input :: bool
  tk_Name :: string
  tk_ExpiresAt :: go_time

record ticket_lib =
  json_Marshal :: "ticketClaims \<Rightarrow> bytes"
  json_Unmarshal :: "bytes \<Rightarrow> ticketClaims option"
  ed25519_Sign :: "bytes \<Rightarrow> bytes \<Rightarrow> bytes"
  ed25519_Verify :: "bytes \<Rightarrow> bytes \<Rightarrow> bytes \<Rightarrow> bool"
  ed25519_Public :: "bytes \<Rightarrow> bytes"

definition ticketV1 :: int where "ticketV1 = 1"
definition TicketHost :: string where "TicketHost = ''host''"
definition TicketViewer :: string where "TicketViewer = ''viewer''"
definition TicketSessionData :: string where "TicketSessionData = ''sdata''"
definition ticketLeeway :: duration where "ticketLeeway = 120 * Second"
definition tombstoneHorizon :: duration where "tombstoneHorizon = 25 * Hour"

datatype ticket_error = ErrBadToken | ErrExpired | ErrKilled | ErrBadKey

subsection \<open>Issuing\<close>

record hostTicket =
  ht_tok :: string
  ht_expUnix :: int

record Signer =
  sg_priv :: bytes
  sg_hostCache :: "(string, hostTicket) table"

definition NewSignerFromHex :: "string \<Rightarrow> ticket_error + Signer" where
  "NewSignerFromHex privHex =
     (case hex_DecodeString (TrimSpace privHex) of
        None \<Rightarrow> Inl ErrBadKey
      | Some b \<Rightarrow> if length b \<noteq> 64 then Inl ErrBadKey else Inr \<lparr>sg_priv = b, sg_hostCache = []\<rparr>)"

definition NewSignerFromKey :: "bytes \<Rightarrow> Signer" where
  "NewSignerFromKey priv = \<lparr>sg_priv = priv, sg_hostCache = []\<rparr>"

definition PublicKeyHex :: "ticket_lib \<Rightarrow> Signer \<Rightarrow> string" where
  "PublicKeyHex L s = hex_EncodeToString (ed25519_Public L (sg_priv s))"

definition mint :: "ticket_lib \<Rightarrow> ticketClaims \<Rightarrow> bytes \<Rightarrow> string" where
  "mint L c priv =
     (let payload = json_Marshal L c; sig = ed25519_Sign L priv payload
      in b64_Encode payload @ ''..'' @ b64_Encode sig)"

definition hostKey :: "string \<Rightarrow> string \<Rightarrow> string" where
  "hostKey nodeID relayID = nodeID @ [CHR 0x00] @ relayID"

definition host_claims :: "string \<Rightarrow> string \<Rightarrow> go_time \<Rightarrow> ticketClaims" where
  "host_claims nodeID relayID now =
     \<lparr>c_V = ticketV1, c_Typ = TicketHost, c_NID = nodeID, c_SID = [], c_RID = relayID, c_Gen = 1,
      c_Cap = None, c_NM = [], c_Iat = time_Unix now, c_Exp = time_Unix (now + 24 * Hour)\<rparr>"

definition HostTicketFor ::
  "ticket_lib \<Rightarrow> string \<Rightarrow> string \<Rightarrow> go_time \<Rightarrow> Signer \<Rightarrow> string \<times> Signer" where
  "HostTicketFor L nodeID relayID now s =
     (let key = hostKey nodeID relayID;
          tok = mint L (host_claims nodeID relayID now) (sg_priv s);
          fresh = (tok, s\<lparr>sg_hostCache := tput key
             \<lparr>ht_tok = tok, ht_expUnix = time_Unix (now + 24 * Hour)\<rparr> (sg_hostCache s)\<rparr>)
      in case tget (sg_hostCache s) key of
           Some t \<Rightarrow> if time_Unix now < ht_expUnix t - ticketLeeway div Second then (ht_tok t, s) else fresh
         | None \<Rightarrow> fresh)"

definition viewer_claims ::
  "string \<Rightarrow> string \<Rightarrow> string \<Rightarrow> string \<Rightarrow> bool \<Rightarrow> bool \<Rightarrow> duration \<Rightarrow> go_time \<Rightarrow> ticketClaims" where
  "viewer_claims sessionID nodeID relayID name ctl inp ttl now =
     \<lparr>c_V = ticketV1, c_Typ = TicketViewer, c_NID = nodeID, c_SID = sessionID, c_RID = relayID, c_Gen = 1,
      c_Cap = Some \<lparr>cap_Control = ctl, cap_Input = inp\<rparr>, c_NM = name,
      c_Iat = time_Unix now, c_Exp = time_Unix (now + ttl)\<rparr>"

definition ViewerTicket ::
  "ticket_lib \<Rightarrow> string \<Rightarrow> string \<Rightarrow> string \<Rightarrow> string \<Rightarrow> bool \<Rightarrow> bool \<Rightarrow> duration \<Rightarrow> go_time \<Rightarrow> Signer \<Rightarrow> string" where
  "ViewerTicket L sessionID nodeID relayID name ctl inp ttl now s =
     mint L (viewer_claims sessionID nodeID relayID name ctl inp ttl now) (sg_priv s)"

definition sdata_claims ::
  "string \<Rightarrow> string \<Rightarrow> string \<Rightarrow> string \<Rightarrow> duration \<Rightarrow> go_time \<Rightarrow> ticketClaims" where
  "sdata_claims sessionID nodeID relayID sub ttl now =
     \<lparr>c_V = ticketV1, c_Typ = TicketSessionData, c_NID = nodeID, c_SID = sessionID, c_RID = relayID, c_Gen = 1,
      c_Cap = None, c_NM = sub, c_Iat = time_Unix now, c_Exp = time_Unix (now + ttl)\<rparr>"

definition SessionDataTicket ::
  "ticket_lib \<Rightarrow> string \<Rightarrow> string \<Rightarrow> string \<Rightarrow> string \<Rightarrow> duration \<Rightarrow> go_time \<Rightarrow> Signer \<Rightarrow> string" where
  "SessionDataTicket L sessionID nodeID relayID sub ttl now s =
     mint L (sdata_claims sessionID nodeID relayID sub ttl now) (sg_priv s)"

subsection \<open>Verification\<close>

record Verifier =
  v_keys :: "bytes list"
  v_tomb :: "(string, go_time) table"

fun parse_keys :: "string list \<Rightarrow> bytes list option" where
  "parse_keys [] = Some []"
| "parse_keys (h # hs) =
     (case hex_DecodeString (TrimSpace h) of
        None \<Rightarrow> None
      | Some b \<Rightarrow> if length b \<noteq> 32 then None else map_option ((#) b) (parse_keys hs))"

definition NewVerifier :: "string list \<Rightarrow> ticket_error + Verifier" where
  "NewVerifier pubHexes =
     (case parse_keys pubHexes of None \<Rightarrow> Inl ErrBadKey | Some ks \<Rightarrow> Inr \<lparr>v_keys = ks, v_tomb = []\<rparr>)"

definition SetKeys :: "string list \<Rightarrow> Verifier \<Rightarrow> ticket_error option \<times> Verifier" where
  "SetKeys pubHexes v =
     (case NewVerifier pubHexes of
        Inl e \<Rightarrow> (Some e, v)
      | Inr nv \<Rightarrow> (None, v\<lparr>v_keys := v_keys nv\<rparr>))"

definition tombKey :: "ticketClaims \<Rightarrow> string" where
  "tombKey c = (if c_Typ c = TicketHost then ''n:'' @ c_NID c else ''s:'' @ c_SID c)"

definition checkTomb :: "string \<Rightarrow> go_time \<Rightarrow> Verifier \<Rightarrow> bool \<times> Verifier" where
  "checkTomb key now v =
     (case tget (v_tomb v) key of
        None \<Rightarrow> (False, v)
      | Some until \<Rightarrow>
          if now > until then (False, v\<lparr>v_tomb := tdel key (v_tomb v)\<rparr>) else (True, v))"

definition ticket_Kill :: "string \<Rightarrow> string \<Rightarrow> go_time \<Rightarrow> Verifier \<Rightarrow> Verifier" where
  "ticket_Kill nodeID sessionID now v =
     (if sessionID \<noteq> [] then v\<lparr>v_tomb := tput (''s:'' @ sessionID) (now + tombstoneHorizon) (v_tomb v)\<rparr>
      else if nodeID \<noteq> [] then v\<lparr>v_tomb := tput (''n:'' @ nodeID) (now + tombstoneHorizon) (v_tomb v)\<rparr>
      else v)"

definition ticket_of :: "ticketClaims \<Rightarrow> Ticket" where
  "ticket_of c =
     \<lparr>tk_Typ = c_Typ c, tk_NodeID = c_NID c, tk_SessionID = c_SID c, tk_RelayID = c_RID c, tk_Gen = c_Gen c,
      tk_Control = (case c_Cap c of None \<Rightarrow> False | Some k \<Rightarrow> cap_Control k),
      tk_Input = (case c_Cap c of None \<Rightarrow> False | Some k \<Rightarrow> cap_Input k),
      tk_Name = c_NM c, tk_ExpiresAt = time_of_Unix (c_Exp c)\<rparr>"

text \<open>Splitting, decoding and signature check of a token; what is left is time and tombstones.\<close>

definition open_token :: "ticket_lib \<Rightarrow> bytes list \<Rightarrow> string \<Rightarrow> ticketClaims option" where
  "open_token L keys token =
     (case strings_Index token ''..'' of
        None \<Rightarrow> None
      | Some dot \<Rightarrow>
          if token = [] \<or> dot = 0 then None
          else case b64_Decode (take dot token) of
            None \<Rightarrow> None
          | Some payload \<Rightarrow>
              (case b64_Decode (drop (dot + 2) token) of
                 None \<Rightarrow> None
               | Some sig \<Rightarrow>
                   (case json_Unmarshal L payload of
                      None \<Rightarrow> None
                    | Some c \<Rightarrow>
                        if c_V c \<noteq> ticketV1 then None
                        else if list_ex (\<lambda>k. ed25519_Verify L k payload sig) keys then Some c else None)))"

definition Verify ::
  "ticket_lib \<Rightarrow> go_time \<Rightarrow> string \<Rightarrow> Verifier \<Rightarrow> (ticket_error + Ticket) \<times> Verifier" where
  "Verify L now token v =
     (case open_token L (v_keys v) token of
        None \<Rightarrow> (Inl ErrBadToken, v)
      | Some c \<Rightarrow>
          if now > time_of_Unix (c_Exp c) + ticketLeeway then (Inl ErrExpired, v)
          else case checkTomb (tombKey c) now v of
            (killed, v') \<Rightarrow> if killed then (Inl ErrKilled, v') else (Inr (ticket_of c), v'))"

subsection \<open>Admission at the relay legs\<close>

record ViewerBinding =
  vb_Node :: string
  vb_Session :: string
  vb_Name :: string
  vb_Control :: bool
  vb_Input :: bool

record AuthError =
  ae_Status :: int
  ae_Message :: string

definition validateHostHello ::
  "ticket_lib \<Rightarrow> string \<Rightarrow> go_time \<Rightarrow> string \<Rightarrow> string \<Rightarrow> Verifier \<Rightarrow> bool \<times> Verifier" where
  "validateHostHello L relayID now nodeID token v =
     (if nodeID = [] \<or> token = [] then (False, v)
      else case Verify L now token v of
        (Inr tk, v') \<Rightarrow> (tk_Typ tk = TicketHost \<and> tk_NodeID tk = nodeID \<and> tk_RelayID tk = relayID, v')
      | (Inl _, v') \<Rightarrow> (False, v'))"

definition authViewer ::
  "ticket_lib \<Rightarrow> string \<Rightarrow> go_time \<Rightarrow> string \<Rightarrow> Verifier \<Rightarrow> (AuthError + ViewerBinding) \<times> Verifier" where
  "authViewer L relayID now token v =
     (let deny = Inl \<lparr>ae_Status = 401, ae_Message = ''invalid viewer ticket''\<rparr>
      in case Verify L now token v of
           (Inl _, v') \<Rightarrow> (deny, v')
         | (Inr tk, v') \<Rightarrow>
             if tk_Typ tk \<noteq> TicketViewer \<or> tk_RelayID tk \<noteq> relayID then (deny, v')
             else (Inr \<lparr>vb_Node = tk_NodeID tk, vb_Session = tk_SessionID tk, vb_Name = tk_Name tk,
                        vb_Control = tk_Control tk, vb_Input = tk_Input tk\<rparr>, v'))"

subsection \<open>Host-leg addresses\<close>

record EndpointDescView =
  ev_Transport :: string
  ev_Host :: string
  ev_Port :: int

text \<open>The digit loop writes from the end of an 8-byte buffer; an index below 0 is a run-time panic,
  the result \<open>None\<close>.\<close>

function itoa_loop :: "nat \<Rightarrow> int \<Rightarrow> string \<Rightarrow> string option" where
  "itoa_loop i n acc =
     (if n > 0 then
        (if i = 0 then None else itoa_loop (i - 1) (n div 10) (digit_char (nat (n mod 10)) # acc))
      else Some acc)"
  by auto
termination
  by (relation "measure (\<lambda>(i, _, _). i)") auto

declare itoa_loop.simps [simp del]

definition rtv_itoa :: "int \<Rightarrow> string option" where
  "rtv_itoa n = (if n = 0 then Some ''0'' else itoa_loop 8 n [])"

definition JoinHostPort :: "string \<Rightarrow> string \<Rightarrow> string" where
  "JoinHostPort h p = (if CHR '':'' \<in> set h then ''['' @ h @ '']:'' @ p else h @ '':'' @ p)"

fun HostLegEndpoint :: "EndpointDescView list \<Rightarrow> string option" where
  "HostLegEndpoint [] = Some []"
| "HostLegEndpoint (e # es) =
     (if ev_Transport e = ''quic'' \<and> ev_Host e \<noteq> [] then
        (if ev_Port e > 0 then map_option (JoinHostPort (ev_Host e)) (rtv_itoa (ev_Port e))
         else Some (ev_Host e))
      else HostLegEndpoint es)"

subsection \<open>Opening a minted token\<close>

definition signature_correct :: "ticket_lib \<Rightarrow> bool" where
  "signature_correct L \<longleftrightarrow> (\<forall>k m. ed25519_Verify L (ed25519_Public L k) m (ed25519_Sign L k m))"

definition json_roundtrips :: "ticket_lib \<Rightarrow> ticketClaims \<Rightarrow> bool" where
  "json_roundtrips L c \<longleftrightarrow> json_Unmarshal L (json_Marshal L c) = Some c \<and> json_Marshal L c \<noteq> []"

lemma mint_nonempty: "mint L c p \<noteq> []"
  by (simp add: mint_def Let_def)

lemma open_mint:
  assumes "signature_correct L" "json_roundtrips L c" "c_V c = ticketV1"
    and "ed25519_Public L priv \<in> set keys"
  shows "open_token L keys (mint L c priv) = Some c"
proof -
  let ?p = "b64_Encode (json_Marshal L c)"
  let ?s = "b64_Encode (ed25519_Sign L priv (json_Marshal L c))"
  have "strings_Index (mint L c priv) ''..'' = Some (length ?p)"
    using strings_Index_skip [OF b64_Encode_nodot] by (simp add: mint_def Let_def)
  moreover have "take (length ?p) (mint L c priv) = ?p" "drop (length ?p + 2) (mint L c priv) = ?s"
    by (simp_all add: mint_def Let_def)
  moreover have "length ?p \<noteq> 0"
    using assms(2) by (simp add: json_roundtrips_def)
  ultimately show ?thesis
    using assms by (auto simp: open_token_def b64_roundtrip json_roundtrips_def signature_correct_def
        mint_nonempty list_ex_iff)
qed

lemma Verify_Inr_iff:
  "(\<exists>v'. Verify L now token v = (Inr tk, v')) \<longleftrightarrow>
     (\<exists>c. open_token L (v_keys v) token = Some c \<and> now \<le> time_of_Unix (c_Exp c) + ticketLeeway
        \<and> (\<forall>u. tget (v_tomb v) (tombKey c) = Some u \<longrightarrow> now > u) \<and> tk = ticket_of c)"
  by (auto simp: Verify_def checkTomb_def split: option.splits if_splits)

lemma Verify_fst:
  "fst (Verify L now token v) = Inr tk \<longleftrightarrow>
     (\<exists>c. open_token L (v_keys v) token = Some c \<and> now \<le> time_of_Unix (c_Exp c) + ticketLeeway
        \<and> (\<forall>u. tget (v_tomb v) (tombKey c) = Some u \<longrightarrow> now > u) \<and> tk = ticket_of c)"
  unfolding Verify_Inr_iff [symmetric] by (cases "Verify L now token v") auto

lemma hello_iff:
  "fst (validateHostHello L rid now node token v) \<longleftrightarrow> node \<noteq> [] \<and> token \<noteq> []
     \<and> (\<exists>tk. fst (Verify L now token v) = Inr tk \<and> tk_Typ tk = TicketHost \<and> tk_NodeID tk = node
          \<and> tk_RelayID tk = rid)"
  by (auto simp: validateHostHello_def split: prod.splits sum.splits)

lemma viewer_iff:
  "fst (authViewer L rid now token v) = Inr b \<longleftrightarrow>
     (\<exists>tk. fst (Verify L now token v) = Inr tk \<and> tk_Typ tk = TicketViewer \<and> tk_RelayID tk = rid
        \<and> b = \<lparr>vb_Node = tk_NodeID tk, vb_Session = tk_SessionID tk, vb_Name = tk_Name tk,
               vb_Control = tk_Control tk, vb_Input = tk_Input tk\<rparr>)"
  by (auto simp: authViewer_def Let_def split: prod.splits sum.splits)

lemma ticket_of_sel [simp]:
  "tk_Typ (ticket_of c) = c_Typ c" "tk_NodeID (ticket_of c) = c_NID c"
  "tk_SessionID (ticket_of c) = c_SID c" "tk_RelayID (ticket_of c) = c_RID c"
  "tk_Name (ticket_of c) = c_NM c" "tk_ExpiresAt (ticket_of c) = time_of_Unix (c_Exp c)"
  by (simp_all add: ticket_of_def)

subsection \<open>The host-ticket cache\<close>

text \<open>Every cache entry under \<open>hostKey node relay\<close> is a ticket minted for that pair.\<close>

definition cache_ok :: "ticket_lib \<Rightarrow> Signer \<Rightarrow> bool" where
  "cache_ok L s \<longleftrightarrow> (\<forall>node relay e. CHR 0x00 \<notin> set node \<longrightarrow>
     tget (sg_hostCache s) (hostKey node relay) = Some e \<longrightarrow>
       (\<exists>t. ht_tok e = mint L (host_claims node relay t) (sg_priv s) \<and> ht_expUnix e = time_Unix (t + 24 * Hour)))"

text \<open>A call of \<open>HostTicketFor\<close> for a node, a relay and an instant; node ids are UUID texts without NUL.\<close>

type_synonym host_call = "string \<times> string \<times> go_time"

definition host_call_step :: "ticket_lib \<Rightarrow> host_call \<Rightarrow> Signer \<Rightarrow> Signer" where
  "host_call_step L c s = (case c of (node, relay, now) \<Rightarrow> snd (HostTicketFor L node relay now s))"

definition nul_free :: "host_call \<Rightarrow> bool" where
  "nul_free c \<longleftrightarrow> CHR 0x00 \<notin> set (fst c)"

lemma hostKey_inj:
  "CHR 0x00 \<notin> set n \<Longrightarrow> CHR 0x00 \<notin> set n' \<Longrightarrow> hostKey n r = hostKey n' r' \<longleftrightarrow> n = n' \<and> r = r'"
proof (induction n arbitrary: n')
  case Nil
  then show ?case by (cases n') (auto simp: hostKey_def)
next
  case (Cons c n)
  then show ?case by (cases n') (auto simp: hostKey_def)
qed

lemma HostTicketFor_priv [simp]: "sg_priv (snd (HostTicketFor L n r now s)) = sg_priv s"
  by (simp add: HostTicketFor_def Let_def split: option.splits)

lemma HostTicketFor_cache:
  assumes "cache_ok L s" "CHR 0x00 \<notin> set node"
  shows "cache_ok L (snd (HostTicketFor L node relay now s))"
proof -
  let ?e = "\<lparr>ht_tok = mint L (host_claims node relay now) (sg_priv s), ht_expUnix = time_Unix (now + 24 * Hour)\<rparr>"
  have "sg_hostCache (snd (HostTicketFor L node relay now s)) = sg_hostCache s
     \<or> sg_hostCache (snd (HostTicketFor L node relay now s)) = tput (hostKey node relay) ?e (sg_hostCache s)"
    by (simp add: HostTicketFor_def Let_def split: option.splits)
  then show ?thesis
    using assms hostKey_inj [of _ node] by (fastforce simp: cache_ok_def)
qed

interpretation cache: inv_machine "\<lambda>c _. nul_free c" "host_call_step L" "cache_ok L" for L
  by unfold_locales (auto simp: host_call_step_def nul_free_def HostTicketFor_cache)

lemma cache_ok_New: "cache_ok L (NewSignerFromKey priv)"
  by (simp add: cache_ok_def NewSignerFromKey_def)

lemma leeway_seconds [simp]: "ticketLeeway div Second = 120"
  by (simp add: ticketLeeway_def)

lemma HostTicketFor_claims:
  assumes "cache_ok L s" "CHR 0x00 \<notin> set node"
  shows "\<exists>t. fst (HostTicketFor L node relay now s) = mint L (host_claims node relay t) (sg_priv s)
     \<and> time_Unix now + 120 < time_Unix (t + 24 * Hour)"
proof (cases "\<exists>e. tget (sg_hostCache s) (hostKey node relay) = Some e \<and> time_Unix now < ht_expUnix e - 120")
  case True
  then obtain e where e: "tget (sg_hostCache s) (hostKey node relay) = Some e" "time_Unix now < ht_expUnix e - 120"
    by blast
  then have "fst (HostTicketFor L node relay now s) = ht_tok e"
    by (simp add: HostTicketFor_def Let_def)
  moreover obtain t where "ht_tok e = mint L (host_claims node relay t) (sg_priv s)"
    "ht_expUnix e = time_Unix (t + 24 * Hour)"
    using assms e(1) unfolding cache_ok_def by blast
  ultimately show ?thesis using e(2) by (intro exI [of _ t]) simp
next
  case False
  then have "fst (HostTicketFor L node relay now s) = mint L (host_claims node relay now) (sg_priv s)"
    by (auto simp: HostTicketFor_def Let_def split: option.splits)
  moreover have "time_Unix now + 120 < time_Unix (now + 24 * Hour)"
    by (simp add: time_Unix_def)
  ultimately show ?thesis by blast
qed

subsection \<open>Tombstones over time\<close>

text \<open>The verifier with the latest instant it has seen; the clock does not go backwards.\<close>

datatype verifier_event =
    VVerify string go_time
  | VSetKeys "string list" go_time
  | VKill string string go_time

fun ve_time :: "verifier_event \<Rightarrow> go_time" where
  "ve_time (VVerify tkn t) = t"
| "ve_time (VSetKeys ks t) = t"
| "ve_time (VKill n s t) = t"

fun ve_step :: "ticket_lib \<Rightarrow> verifier_event \<Rightarrow> Verifier \<times> go_time \<Rightarrow> Verifier \<times> go_time" where
  "ve_step L (VVerify tkn t) (v, c) = (snd (Verify L t tkn v), t)"
| "ve_step L (VSetKeys ks t) (v, c) = (snd (SetKeys ks v), t)"
| "ve_step L (VKill n s t) (v, c) = (ticket_Kill n s t v, t)"

definition ve_pre :: "verifier_event \<Rightarrow> Verifier \<times> go_time \<Rightarrow> bool" where
  "ve_pre e s \<longleftrightarrow> snd s \<le> ve_time e"

definition entombed :: "string \<Rightarrow> go_time \<Rightarrow> Verifier \<times> go_time \<Rightarrow> bool" where
  "entombed key k s \<longleftrightarrow> k \<le> snd s \<and>
     ((\<exists>u. tget (v_tomb (fst s)) key = Some u \<and> k + tombstoneHorizon \<le> u) \<or> k + tombstoneHorizon < snd s)"

lemma Verify_tomb:
  "tget (v_tomb (snd (Verify L t tkn v))) key = tget (v_tomb v) key
   \<or> (\<exists>u. tget (v_tomb v) key = Some u \<and> t > u \<and> tget (v_tomb (snd (Verify L t tkn v))) key = None)"
  by (auto simp: Verify_def checkTomb_def split: option.splits)

lemma entombed_step:
  assumes "entombed key k s" "ve_pre e s"
  shows "entombed key k (ve_step L e s)"
proof (cases e)
  case (VVerify tkn t)
  then show ?thesis
    using assms Verify_tomb [of L t tkn "fst s" key]
    by (cases s) (auto simp: entombed_def ve_pre_def)
next
  case (VSetKeys ks t)
  then show ?thesis
    using assms by (cases s) (auto simp: entombed_def ve_pre_def SetKeys_def split: sum.splits)
next
  case (VKill n i t)
  then show ?thesis
    using assms by (cases s) (auto simp: entombed_def ve_pre_def ticket_Kill_def)
qed

interpretation tomb: inv_machine ve_pre "ve_step L" "entombed key k" for L key k
  by unfold_locales (rule entombed_step)

lemma entombed_rejects:
  assumes "entombed key k (v, c)" "c \<le> t" "open_token L (v_keys v) tkn = Some cl" "tombKey cl = key"
    and "time_of_Unix (c_Exp cl) + ticketLeeway \<le> k + tombstoneHorizon"
  shows "fst (Verify L t tkn v) = Inl ErrExpired \<or> fst (Verify L t tkn v) = Inl ErrKilled"
  using assms by (auto simp: entombed_def Verify_def checkTomb_def)

subsection \<open>Digits\<close>

lemma nat_decimal_app: "0 < n \<Longrightarrow>
   nat_decimal n = (if n div 10 = 0 then [] else nat_decimal (n div 10)) @ [digit_char (n mod 10)]"
  by (subst nat_decimal.simps) auto

lemma itoa_loop_exact:
  "itoa_loop i (int n) acc = (if n = 0 then Some acc
     else if length (nat_decimal n) \<le> i then Some (nat_decimal n @ acc) else None)"
proof (induction i arbitrary: n acc)
  case 0
  then show ?case by (subst itoa_loop.simps) simp
next
  case (Suc i)
  show ?case
  proof (cases "n = 0")
    case True
    then show ?thesis by (subst itoa_loop.simps) simp
  next
    case False
    have "int n div 10 = int (n div 10)" "nat (int n mod 10) = n mod 10"
      by (simp_all add: zdiv_int nat_mod_as_int)
    then have step: "itoa_loop (Suc i) (int n) acc = itoa_loop i (int (n div 10)) (digit_char (n mod 10) # acc)"
      using False by (subst itoa_loop.simps) simp
    have dec: "nat_decimal n = (if n div 10 = 0 then [] else nat_decimal (n div 10)) @ [digit_char (n mod 10)]"
      using False by (intro nat_decimal_app) simp
    show ?thesis
      unfolding step Suc.IH dec using False by simp
  qed
qed

lemma rtv_itoa_exact:
  "rtv_itoa n = (if n < 0 then Some [] else if n < 10 ^ 8 then Some (nat_decimal (nat n)) else None)"
proof (cases "0 \<le> n")
  case True
  then obtain k where k: "n = int k" using nonneg_int_cases by blast
  have "length (nat_decimal k) \<le> 8 \<longleftrightarrow> k < 10 ^ 8" by (rule nat_decimal_length) simp
  moreover have "int k < 10 ^ 8 \<longleftrightarrow> k < 10 ^ 8" by simp
  moreover have "nat_decimal 0 = ''0''"
    by code_simp
  ultimately show ?thesis
    by (simp add: k rtv_itoa_def itoa_loop_exact)
next
  case False
  then show ?thesis by (simp add: rtv_itoa_def) (subst itoa_loop.simps, simp)
qed

subsection \<open>Properties\<close>

text \<open>C5. A revoked ticket stays revoked: after a session is killed at instant \<open>k\<close>, no run of
  verifications, further kills and key rotations at later instants makes a ticket of that session
  (viewer or session data) valid again, provided its expiry is within the 24 hours that tickets live
  after the kill: the tombstone outlives every such ticket. The same holds for host tickets of a node
  killed as a whole.\<close>

theorem revocation_permanent:
  assumes "sid \<noteq> [] \<or> node \<noteq> []"
    and "run_ok ve_pre (ve_step L) es (ticket_Kill node sid k v0, k)"
    and "fold (ve_step L) es (ticket_Kill node sid k v0, k) = (v, c)" "c \<le> t"
    and "open_token L (v_keys v) token = Some cl"
    and "tombKey cl = (if sid \<noteq> [] then ''s:'' @ sid else ''n:'' @ node)"
    and "time_of_Unix (c_Exp cl) \<le> k + 24 * Hour"
  shows "fst (Verify L t token v) = Inl ErrExpired \<or> fst (Verify L t token v) = Inl ErrKilled"
proof -
  have "entombed (tombKey cl) k (ticket_Kill node sid k v0, k)"
    using assms(1,6) by (auto simp: entombed_def ticket_Kill_def)
  then have "entombed (tombKey cl) k (v, c)"
    using tomb.run_inv [OF _ assms(2)] assms(3) by metis
  moreover have "time_of_Unix (c_Exp cl) + ticketLeeway \<le> k + tombstoneHorizon"
    using assms(7) by (simp add: ticketLeeway_def tombstoneHorizon_def)
  ultimately show ?thesis
    using assms(4,5) by (intro entombed_rejects [of "tombKey cl" k v c]) simp_all
qed

text \<open>A concrete library instance: the claims of viewer tickets of one session, signed by copying.\<close>

definition demo_claims :: ticketClaims where
  "demo_claims = viewer_claims ''s1'' ''n1'' ''rl-0'' ''ann'' True False (10 * Minute) 0"

definition demo_lib :: ticket_lib where
  "demo_lib = \<lparr>json_Marshal = \<lambda>_. [7], json_Unmarshal = \<lambda>_. Some demo_claims,
     ed25519_Sign = \<lambda>k m. k @ m, ed25519_Verify = \<lambda>k m s. s = k @ m, ed25519_Public = \<lambda>k. k\<rparr>"

lemma demo_signature: "signature_correct demo_lib"
  by (simp add: signature_correct_def demo_lib_def)

lemma demo_json: "json_roundtrips demo_lib demo_claims"
  by (simp add: json_roundtrips_def demo_lib_def)

lemma demo_open: "open_token demo_lib [[1]] (mint demo_lib demo_claims [1]) = Some demo_claims"
  by (rule open_mint [OF demo_signature demo_json])
    (simp_all add: demo_claims_def viewer_claims_def demo_lib_def)

lemma demo_claims_sel: "tombKey demo_claims = ''s:s1''" "c_Exp demo_claims = 600"
  by (simp_all add: demo_claims_def viewer_claims_def tombKey_def TicketViewer_def TicketHost_def time_Unix_def)

theorem revocation_permanent_witness:
  "fst (Verify demo_lib (Hour) (mint demo_lib demo_claims [1])
      (ticket_Kill [] ''s1'' 0 \<lparr>v_keys = [[1]], v_tomb = []\<rparr>)) = Inl ErrExpired
   \<or> fst (Verify demo_lib (Hour) (mint demo_lib demo_claims [1])
      (ticket_Kill [] ''s1'' 0 \<lparr>v_keys = [[1]], v_tomb = []\<rparr>)) = Inl ErrKilled"
  by (rule revocation_permanent
      [of "''s1''" "[]" demo_lib "[]" 0 "\<lparr>v_keys = [[1]], v_tomb = []\<rparr>" _ 0 Hour _ demo_claims])
    (simp_all add: ticket_Kill_def demo_open demo_claims_sel time_of_Unix_def)

text \<open>Viewer admission end to end: a viewer ticket minted for a session, node and relay is
  accepted by that relay (whose key set contains the signer's public key) until two minutes after its
  expiry, unless the session was killed, and the resulting binding carries exactly the node, session,
  name and capabilities it was minted with; the same token never registers a host and is refused by
  every other relay.\<close>

theorem viewer_ticket_admitted:
  assumes "signature_correct L"
    and "json_roundtrips L (viewer_claims sid node rid name ctl inp ttl now)"
    and "ed25519_Public L (sg_priv s) \<in> set (v_keys v)"
    and "tget (v_tomb v) (''s:'' @ sid) = None"
    and "t \<le> time_of_Unix (time_Unix (now + ttl)) + ticketLeeway"
  shows "let tk = ViewerTicket L sid node rid name ctl inp ttl now s in
     fst (authViewer L rid t tk v) = Inr \<lparr>vb_Node = node, vb_Session = sid, vb_Name = name, vb_Control = ctl, vb_Input = inp\<rparr>
     \<and> (\<forall>rid'. rid' \<noteq> rid \<longrightarrow> (\<exists>e. fst (authViewer L rid' t tk v) = Inl e))
     \<and> (\<forall>rid' n. \<not> fst (validateHostHello L rid' t n tk v))"
proof -
  let ?c = "viewer_claims sid node rid name ctl inp ttl now"
  let ?t = "ViewerTicket L sid node rid name ctl inp ttl now s"
  have "open_token L (v_keys v) ?t = Some ?c"
    unfolding ViewerTicket_def
    using assms(1-3) by (intro open_mint) (simp_all add: viewer_claims_def)
  then have V: "fst (Verify L t ?t v) = Inr (ticket_of ?c)"
    using assms(4,5) by (simp add: Verify_fst tombKey_def viewer_claims_def TicketViewer_def TicketHost_def)
  have no: "fst (authViewer L rid' t ?t v) \<noteq> Inr b" if "rid' \<noteq> rid" for rid' b
    using V that unfolding viewer_iff by (simp add: viewer_claims_def)
  have "\<exists>e. fst (authViewer L rid' t ?t v) = Inl e" if "rid' \<noteq> rid" for rid'
    using no [OF that] by (cases "fst (authViewer L rid' t ?t v)") auto
  moreover have "fst (authViewer L rid t ?t v)
      = Inr \<lparr>vb_Node = node, vb_Session = sid, vb_Name = name, vb_Control = ctl, vb_Input = inp\<rparr>"
    using V unfolding viewer_iff by (simp add: viewer_claims_def ticket_of_def)
  moreover have "\<not> fst (validateHostHello L rid' t n ?t v)" for rid' n
    using V unfolding hello_iff by (simp add: viewer_claims_def TicketViewer_def TicketHost_def)
  ultimately show ?thesis by (simp add: Let_def)
qed

theorem viewer_ticket_admitted_witness:
  "fst (authViewer demo_lib ''rl-0'' Minute
      (ViewerTicket demo_lib ''s1'' ''n1'' ''rl-0'' ''ann'' True False (10 * Minute) 0 (NewSignerFromKey [1]))
      \<lparr>v_keys = [[1]], v_tomb = []\<rparr>)
   = Inr \<lparr>vb_Node = ''n1'', vb_Session = ''s1'', vb_Name = ''ann'', vb_Control = True, vb_Input = False\<rparr>"
  using viewer_ticket_admitted [OF demo_signature demo_json [unfolded demo_claims_def],
      of "NewSignerFromKey [1]" "\<lparr>v_keys = [[1]], v_tomb = []\<rparr>" Minute]
  by (simp add: NewSignerFromKey_def demo_lib_def Let_def time_Unix_def time_of_Unix_def ticketLeeway_def)

text \<open>The host-ticket cache never hands out a ticket that is about to expire: after any sequence
  of earlier calls, the ticket returned at instant \<open>now\<close> registers the host for its node at its relay
  at every instant up to four minutes later, and another call that finds it with more than the
  two-minute margin left returns the identical string.\<close>

theorem host_ticket_usable:
  assumes "signature_correct L" "\<forall>i. json_roundtrips L (host_claims node rid i)"
    and "list_all nul_free calls" "CHR 0x00 \<notin> set node" "node \<noteq> []"
    and "s = fold (host_call_step L) calls (NewSignerFromKey priv)"
    and "ed25519_Public L priv \<in> set (v_keys v)" "tget (v_tomb v) (''n:'' @ node) = None"
    and "now \<le> t" "time_Unix t \<le> time_Unix now + 240"
  shows "fst (validateHostHello L rid t node (fst (HostTicketFor L node rid now s)) v)
     \<and> (\<forall>now' e. tget (sg_hostCache (snd (HostTicketFor L node rid now s))) (hostKey node rid) = Some e
          \<and> time_Unix now' < ht_expUnix e - 120 \<longrightarrow>
          fst (HostTicketFor L node rid now' (snd (HostTicketFor L node rid now s))) = ht_tok e)"
proof -
  have c: "cache_ok L s"
    using assms(3,6) cache.run_inv [OF cache_ok_New, of L "calls" priv] by (simp add: run_ok_list_all)
  have p: "sg_priv s = priv"
  proof -
    have "sg_priv (fold (host_call_step L) cs s0) = sg_priv s0" for cs s0
      by (induction cs arbitrary: s0) (auto simp: host_call_step_def split: prod.splits)
    then show ?thesis by (simp add: assms(6) NewSignerFromKey_def)
  qed
  obtain i where i: "fst (HostTicketFor L node rid now s) = mint L (host_claims node rid i) priv"
    and e: "time_Unix now + 120 < time_Unix (i + 24 * Hour)"
    using HostTicketFor_claims [OF c assms(4), of rid now] p by auto
  have "open_token L (v_keys v) (mint L (host_claims node rid i) priv) = Some (host_claims node rid i)"
    using assms(1,2,7) by (intro open_mint) (simp_all add: host_claims_def)
  moreover have "t \<le> time_of_Unix (c_Exp (host_claims node rid i)) + ticketLeeway"
  proof -
    have "time_Unix t < time_Unix (i + 24 * Hour) + 120" using e assms(10) by linarith
    then have "time_Unix t + 1 \<le> time_Unix (i + 24 * Hour) + 120" by linarith
    moreover have "t < (time_Unix t + 1) * Second"
      unfolding time_Unix_def using pos_mod_bound [of Second t] by (simp add: minus_mod_eq_div_mult [symmetric] algebra_simps)
    ultimately show ?thesis by (simp add: host_claims_def time_of_Unix_def ticketLeeway_def)
  qed
  ultimately have "fst (Verify L t (mint L (host_claims node rid i) priv) v) = Inr (ticket_of (host_claims node rid i))"
    using assms(8) by (simp add: Verify_fst tombKey_def host_claims_def)
  then have "fst (validateHostHello L rid t node (fst (HostTicketFor L node rid now s)) v)"
    unfolding i hello_iff using assms(5) mint_nonempty by (simp add: host_claims_def)
  then show ?thesis
    by (auto simp: HostTicketFor_def Let_def)
qed

text \<open>An instance in which the claims of host tickets of node \<open>n1\<close> at relay \<open>rl-0\<close> are coded by their
  issue time.\<close>

definition host_lib :: ticket_lib where
  "host_lib = \<lparr>json_Marshal = \<lambda>c. (if c_Iat c \<ge> 0 then 1 else 2) # replicate (nat \<bar>c_Iat c\<bar>) 0,
     json_Unmarshal = \<lambda>b. Some (host_claims ''n1'' ''rl-0''
        ((if b ! 0 = 1 then int (length b - 1) else - int (length b - 1)) * Second)),
     ed25519_Sign = \<lambda>k m. k @ m, ed25519_Verify = \<lambda>k m s. s = k @ m, ed25519_Public = \<lambda>k. k\<rparr>"

lemma host_json: "json_roundtrips host_lib (host_claims ''n1'' ''rl-0'' i)"
  by (auto simp: json_roundtrips_def host_lib_def host_claims_def time_Unix_def)

lemma host_signature: "signature_correct host_lib"
  by (simp add: signature_correct_def host_lib_def)

theorem host_ticket_usable_witness:
  "fst (validateHostHello host_lib ''rl-0'' Minute ''n1'' (fst (HostTicketFor host_lib ''n1'' ''rl-0'' 0
      (fold (host_call_step host_lib) [(''n1'', ''rl-0'', - 5 * Hour)] (NewSignerFromKey [1]))))
      \<lparr>v_keys = [[1]], v_tomb = []\<rparr>)"
  using host_ticket_usable [OF host_signature allI [OF host_json], of "[(''n1'', ''rl-0'', - 5 * Hour)]"
      "fold (host_call_step host_lib) [(''n1'', ''rl-0'', - 5 * Hour)] (NewSignerFromKey [1])" "[1]"
      "\<lparr>v_keys = [[1]], v_tomb = []\<rparr>" 0 Minute]
  by (simp add: nul_free_def host_lib_def time_Unix_def)

text \<open>The decimal printer of ports: exact for \<open>0 \<le> n < 10^8\<close>, the empty string for negative
  numbers, and a run-time panic (index below the 8-byte buffer) for every larger number.\<close>

theorem itoa_bounds:
  "rtv_itoa n = (if n < 0 then Some [] else if n < 10 ^ 8 then Some (nat_decimal (nat n)) else None)
   \<and> (\<forall>h. h \<noteq> [] \<and> n \<ge> 10 ^ 8 \<longrightarrow>
        HostLegEndpoint [\<lparr>ev_Transport = ''quic'', ev_Host = h, ev_Port = n\<rparr>] = None)"
  by (auto simp: rtv_itoa_exact)

theorem itoa_bounds_witness:
  "HostLegEndpoint [\<lparr>ev_Transport = ''quic'', ev_Host = ''relay.example'', ev_Port = 100000000\<rparr>] = None"
  using itoa_bounds [of 100000000] by simp

end
