(* ===== verification/Hub.thy ===== *)
theory Hub
  imports Arbiter Ticket
begin

text \<open>
  The relay hub (\<open>src/rtv/relay.go\<close>), the text-frame loop of a WebSocket viewer
  (\<open>handleWSSession\<close> of \<open>src/rtv/legws.go\<close>) and \<open>KillSession\<close> (\<open>src/rtv/rtv.go\<close>). A
  \<open>*HostSession\<close> is a pointer into the heap \<open>g_heap\<close>, because a replaced or unregistered host object
  is still held by the goroutine of its connection; \<open>g_hosts\<close> maps a node to the pointer of its
  current host. What the hub sends is logged in \<open>g_fx\<close>. Whether a send to a viewer succeeds is the
  argument \<open>up\<close>; it only influences counters. Reading the type of a JSON message is the argument
  \<open>probeType\<close> (empty when the message is no JSON object with a string \<open>type\<close>).
\<close>

subsection \<open>State\<close>

record Viewer =
  vw_ID :: nat
  vw_Node :: string
  vw_Session :: string
  vw_CanControl :: bool
  vw_CanInput :: bool
  vw_DisplayName :: string

datatype ctrl_msg =
    MViewers nat
  | MFrameLoss string
  | MControlState string string
  | MControlResult string
  | MHostOffline string
  | MRaw string

record HostSession =
  hs_NodeID :: string
  hs_viewers :: "(nat, Viewer) table"
  hs_lastConfg :: "string option"
  hs_sendControl :: bool
  hs_rxPkgs :: "64 word"
  hs_rxBytes :: "64 word"
  hs_txPkgs :: "64 word"
  hs_txBytes :: "64 word"
  hs_ctrlTx :: "64 word"
  hs_framesSeen :: "64 word"
  hs_latEMAUs :: int
  hs_lastCaptureUnixUs :: int

datatype hub_fx =
    ToViewer nat ctrl_msg
  | ToViewerMedia nat bytes
  | ToHost nat ctrl_msg
  | CloseViewer nat
  | CloseHost nat
  | Emit string string string
  | TouchSession string

record Hub =
  g_hosts :: "(string, nat) table"
  g_heap :: "(nat, HostSession) table"
  g_nextID :: nat
  g_arbiter :: Arbiter
  g_fx :: "hub_fx list"

definition NewHub :: Hub where
  "NewHub = \<lparr>g_hosts = [], g_heap = [], g_nextID = 0, g_arbiter = NewArbiter, g_fx = []\<rparr>"

definition log_fx :: "hub_fx list \<Rightarrow> Hub \<Rightarrow> Hub" where
  "log_fx fx g = g\<lparr>g_fx := g_fx g @ fx\<rparr>"

definition upd_host :: "nat \<Rightarrow> (HostSession \<Rightarrow> HostSession) \<Rightarrow> Hub \<Rightarrow> Hub" where
  "upd_host p f g =
     (case tget (g_heap g) p of None \<Rightarrow> g | Some h \<Rightarrow> g\<lparr>g_heap := tput p (f h) (g_heap g)\<rparr>)"

definition viewers_of :: "nat \<Rightarrow> Hub \<Rightarrow> Viewer list" where
  "viewers_of p g = (case tget (g_heap g) p of None \<Rightarrow> [] | Some h \<Rightarrow> map snd (hs_viewers h))"

definition hub_Host :: "string \<Rightarrow> Hub \<Rightarrow> nat option" where
  "hub_Host node g = tget (g_hosts g) node"

definition NextViewerID :: "Hub \<Rightarrow> nat \<times> Hub" where
  "NextViewerID g = (g_nextID g + 1, g\<lparr>g_nextID := g_nextID g + 1\<rparr>)"

subsection \<open>Host sessions\<close>

definition viewerCount :: "nat \<Rightarrow> Hub \<Rightarrow> nat" where
  "viewerCount p g = length (viewers_of p g)"

definition broadcastControl :: "(nat \<Rightarrow> bool) \<Rightarrow> nat \<Rightarrow> ctrl_msg \<Rightarrow> Hub \<Rightarrow> Hub" where
  "broadcastControl up p v g =
     (let vs = viewers_of p g;
          g1 = log_fx (map (\<lambda>w. ToViewer (vw_ID w) v) vs) g
      in upd_host p (\<lambda>h. h\<lparr>hs_ctrlTx := hs_ctrlTx h + of_nat (length (filter (\<lambda>w. up (vw_ID w)) vs))\<rparr>) g1)"

definition Uint64 :: "bytes \<Rightarrow> 64 word" where
  "Uint64 b = or (ucast (Uint32 b)) (push_bit 32 (ucast (Uint32 (drop 4 b))))"

text \<open>Division of Go integers truncates towards zero.\<close>

definition go_div :: "int \<Rightarrow> int \<Rightarrow> int" where
  "go_div a b = (if a \<ge> 0 then a div b else - (- a div b))"

definition lat_update :: "bytes \<Rightarrow> int \<Rightarrow> HostSession \<Rightarrow> HostSession" where
  "lat_update data nowUs h =
     (if length data \<ge> 32 then
        (let capUs = sint (Uint64 (drop 24 data)) in
         if capUs > 0 then
           (let h1 = h\<lparr>hs_lastCaptureUnixUs := capUs\<rparr>; d = nowUs - capUs; old = hs_latEMAUs h1 in
            if d > 0 \<and> d < 60000000 then
              (if old = 0 then h1\<lparr>hs_latEMAUs := d\<rparr> else h1\<lparr>hs_latEMAUs := old + go_div (d - old) 8\<rparr>)
            else h1)
         else h)
      else h)"

definition fanoutMedia :: "(nat \<Rightarrow> bool) \<Rightarrow> int \<Rightarrow> nat \<Rightarrow> bytes \<Rightarrow> Hub \<Rightarrow> Hub" where
  "fanoutMedia up nowUs p data g =
     (let n = of_nat (length data);
          g1 = upd_host p (\<lambda>h. lat_update data nowUs
                 (h\<lparr>hs_rxPkgs := hs_rxPkgs h + 1, hs_rxBytes := hs_rxBytes h + n\<rparr>)) g;
          vs = viewers_of p g1
      in if vs = [] then g1
         else
           let okc = of_nat (length (filter (\<lambda>w. up (vw_ID w)) vs));
               g2 = log_fx (map (\<lambda>w. ToViewerMedia (vw_ID w) data) vs) g1
           in upd_host p (\<lambda>h. h\<lparr>hs_framesSeen := hs_framesSeen h + 1,
                hs_txPkgs := hs_txPkgs h + okc, hs_txBytes := hs_txBytes h + okc * n\<rparr>) g2)"

definition forwardToHostNoGate :: "nat \<Rightarrow> ctrl_msg \<Rightarrow> Hub \<Rightarrow> Hub" where
  "forwardToHostNoGate p v g =
     (case tget (g_heap g) p of
        None \<Rightarrow> g
      | Some h \<Rightarrow> if hs_sendControl h then log_fx [ToHost p v] g else g)"

definition notifyViewers :: "nat \<Rightarrow> Hub \<Rightarrow> Hub" where
  "notifyViewers p g = forwardToHostNoGate p (MViewers (viewerCount p g)) g"

definition cacheConfig :: "nat \<Rightarrow> string \<Rightarrow> Hub \<Rightarrow> Hub" where
  "cacheConfig p v g = upd_host p (\<lambda>h. h\<lparr>hs_lastConfg := Some v\<rparr>) g"

definition cachedConfig :: "nat \<Rightarrow> Hub \<Rightarrow> string option" where
  "cachedConfig p g = (case tget (g_heap g) p of None \<Rightarrow> None | Some h \<Rightarrow> hs_lastConfg h)"

subsection \<open>Control\<close>

definition TouchViewer :: "string \<Rightarrow> string \<Rightarrow> go_time \<Rightarrow> Hub \<Rightarrow> Hub" where
  "TouchViewer node session now g = g\<lparr>g_arbiter := arb_Touch node session now (g_arbiter g)\<rparr>"

definition gateInputFor :: "go_time \<Rightarrow> Viewer \<Rightarrow> Hub \<Rightarrow> bool" where
  "gateInputFor now v g =
     (let holder = fst (arb_Holder (vw_Node v) now (g_arbiter g))
      in holder \<noteq> [] \<and> holder = vw_Session v \<and> vw_CanInput v)"

definition controlStateMsg :: "string \<Rightarrow> go_time \<Rightarrow> Hub \<Rightarrow> ctrl_msg" where
  "controlStateMsg node now g =
     (case arb_Holder node now (g_arbiter g) of (holder, name) \<Rightarrow> MControlState holder name)"

definition broadcastControlState :: "(nat \<Rightarrow> bool) \<Rightarrow> string \<Rightarrow> go_time \<Rightarrow> Hub \<Rightarrow> Hub" where
  "broadcastControlState up node now g =
     (let msg = controlStateMsg node now g
      in case hub_Host node g of None \<Rightarrow> g | Some p \<Rightarrow> broadcastControl up p msg g)"

definition handleTakeControl :: "(nat \<Rightarrow> bool) \<Rightarrow> Viewer \<Rightarrow> go_time \<Rightarrow> Hub \<Rightarrow> Hub" where
  "handleTakeControl up from now g =
     (case arb_Take (vw_Node from) (vw_Session from) (vw_DisplayName from) (vw_CanControl from) now (g_arbiter g) of
        (ok, reason, a') \<Rightarrow>
          let g1 = g\<lparr>g_arbiter := a'\<rparr> in
          if \<not> ok then
            log_fx [ToViewer (vw_ID from) (MControlResult reason),
                    ToViewer (vw_ID from) (controlStateMsg (vw_Node from) now g1)] g1
          else broadcastControlState up (vw_Node from) now g1)"

definition handleReleaseControl :: "(nat \<Rightarrow> bool) \<Rightarrow> string \<Rightarrow> Viewer \<Rightarrow> go_time \<Rightarrow> Hub \<Rightarrow> Hub" where
  "handleReleaseControl up node from now g =
     broadcastControlState up node now (g\<lparr>g_arbiter := arb_Release node (vw_Session from) (g_arbiter g)\<rparr>)"

text \<open>\<open>h.hub\<close> is set when a host registers; a message is forwarded only through a registered host.\<close>

definition forwardToHost ::
  "(string \<Rightarrow> string) \<Rightarrow> (nat \<Rightarrow> bool) \<Rightarrow> nat \<Rightarrow> string \<Rightarrow> Viewer \<Rightarrow> go_time \<Rightarrow> Hub \<Rightarrow> Hub" where
  "forwardToHost probeType up p v from now g =
     (if probeType v = ''input'' \<and> \<not> gateInputFor now from g then g
      else if probeType v = ''takeControl'' then handleTakeControl up from now g
      else if probeType v = ''releaseControl'' then handleReleaseControl up (vw_Node from) from now g
      else forwardToHostNoGate p (MRaw v) g)"

subsection \<open>Registration\<close>

definition migrate :: "(nat, Viewer) table \<Rightarrow> (nat, Viewer) table \<Rightarrow> (nat, Viewer) table" where
  "migrate old new = fold (\<lambda>(_, w) vs. tput (vw_ID w) w vs) old new"

definition RegisterHost :: "string \<Rightarrow> nat \<Rightarrow> Hub \<Rightarrow> bool \<times> Hub" where
  "RegisterHost nodeID p g =
     (let moved = (case tget (g_hosts g) nodeID of
              None \<Rightarrow> []
            | Some q \<Rightarrow> (case tget (g_heap g) q of None \<Rightarrow> [] | Some old \<Rightarrow> hs_viewers old));
          replaced = (tget (g_hosts g) nodeID \<noteq> None);
          g1 = (case tget (g_hosts g) nodeID of
              None \<Rightarrow> g
            | Some q \<Rightarrow> log_fx [CloseHost q] (upd_host q (\<lambda>h. h\<lparr>hs_viewers := []\<rparr>) g));
          g2 = g1\<lparr>g_hosts := tput nodeID p (g_hosts g1)\<rparr>;
          g3 = (if moved \<noteq> [] then
                  forwardToHostNoGate p (MFrameLoss ''host-restart'')
                    (notifyViewers p (upd_host p (\<lambda>h. h\<lparr>hs_viewers := migrate moved (hs_viewers h)\<rparr>) g2))
                else g2)
      in (replaced, log_fx [Emit ''host.register'' nodeID []] g3))"

definition UnregisterHost :: "string \<Rightarrow> nat \<Rightarrow> Hub \<Rightarrow> Hub" where
  "UnregisterHost nodeID p g =
     (if tget (g_hosts g) nodeID \<noteq> Some p then g
      else
        let g1 = g\<lparr>g_hosts := tdel nodeID (g_hosts g)\<rparr>;
            g2 = log_fx (map (\<lambda>w. ToViewer (vw_ID w) (MHostOffline nodeID)) (viewers_of p g1)) g1
        in log_fx [Emit ''host.unregister'' nodeID []] g2)"

definition IsViewerBound :: "string \<Rightarrow> Viewer \<Rightarrow> Hub \<Rightarrow> bool" where
  "IsViewerBound nodeID w g =
     (case hub_Host nodeID g of
        None \<Rightarrow> False
      | Some p \<Rightarrow> (case tget (g_heap g) p of
            None \<Rightarrow> False
          | Some h \<Rightarrow> tget (hs_viewers h) (vw_ID w) \<noteq> None))"

definition AddViewer :: "string \<Rightarrow> Viewer \<Rightarrow> go_time \<Rightarrow> Hub \<Rightarrow> Hub" where
  "AddViewer nodeID w now g =
     (case hub_Host nodeID g of
        None \<Rightarrow> log_fx [ToViewer (vw_ID w) (MHostOffline nodeID)] g
      | Some p \<Rightarrow>
          let g1 = upd_host p (\<lambda>h. h\<lparr>hs_viewers := tput (vw_ID w) w (hs_viewers h)\<rparr>) g;
              g2 = (case cachedConfig p g1 of None \<Rightarrow> g1 | Some cfg \<Rightarrow> log_fx [ToViewer (vw_ID w) (MRaw cfg)] g1);
              g3 = log_fx [ToViewer (vw_ID w) (controlStateMsg nodeID now g2)] g2;
              g4 = forwardToHostNoGate p (MFrameLoss ''new-viewer'') (notifyViewers p g3)
          in log_fx [Emit ''viewer.joined'' nodeID (vw_Session w)] g4)"

definition RemoveViewer :: "string \<Rightarrow> Viewer \<Rightarrow> Hub \<Rightarrow> Hub" where
  "RemoveViewer nodeID w g =
     (case hub_Host nodeID g of
        None \<Rightarrow> g
      | Some p \<Rightarrow>
          let g1 = upd_host p (\<lambda>h. h\<lparr>hs_viewers := tdel (vw_ID w) (hs_viewers h)\<rparr>) g;
              g2 = g1\<lparr>g_arbiter := arb_DropSession nodeID (vw_Session w) (g_arbiter g1)\<rparr>
          in log_fx [Emit ''viewer.left'' nodeID (vw_Session w)] (notifyViewers p g2))"

definition dropForKill :: "string \<Rightarrow> string \<Rightarrow> Hub \<Rightarrow> Hub" where
  "dropForKill node session g =
     (case hub_Host node g of
        None \<Rightarrow> g
      | Some p \<Rightarrow>
          if session = [] then log_fx [CloseHost p] (UnregisterHost node p g)
          else
            let doomed = filter (\<lambda>w. vw_Session w = session) (viewers_of p g);
                g1 = upd_host p (\<lambda>h. h\<lparr>hs_viewers := tfilter (\<lambda>_ w. vw_Session w \<noteq> session) (hs_viewers h)\<rparr>) g;
                g2 = log_fx (map (\<lambda>w. CloseViewer (vw_ID w)) doomed) g1
            in if doomed \<noteq> [] then
                 notifyViewers p (g2\<lparr>g_arbiter := arb_DropSession node session (g_arbiter g2)\<rparr>)
               else g2)"

subsection \<open>Reports\<close>

definition bound_viewers :: "Hub \<Rightarrow> (string \<times> Viewer) list" where
  "bound_viewers g = concat (map (\<lambda>(node, p). case tget (g_heap g) p of
       None \<Rightarrow> [] | Some h \<Rightarrow> map (\<lambda>(_, w). (hs_NodeID h, w)) (hs_viewers h)) (g_hosts g))"

definition ActiveSessions :: "Hub \<Rightarrow> (string, nat) table" where
  "ActiveSessions g = fold (\<lambda>(_, w) out.
       tput (vw_Session w) (case tget out (vw_Session w) of None \<Rightarrow> 1 | Some n \<Rightarrow> n + 1) out) (bound_viewers g) []"

record LiveSession =
  ls_SessionID :: string
  ls_NodeID :: string
  ls_Viewers :: nat

definition LiveSessions :: "Hub \<Rightarrow> LiveSession list" where
  "LiveSessions g = map snd (fold (\<lambda>(node, w) counts.
       tput (vw_Session w) (case tget counts (vw_Session w) of
           Some e \<Rightarrow> e\<lparr>ls_Viewers := ls_Viewers e + 1\<rparr>
         | None \<Rightarrow> \<lparr>ls_SessionID = vw_Session w, ls_NodeID = node, ls_Viewers = 1\<rparr>) counts) (bound_viewers g) [])"

subsection \<open>The viewer frame loop\<close>

text \<open>Type and role decoded so far: \<open>json.Unmarshal\<close> leaves a field that is absent from the new frame
  as it was, because the struct lives outside the loop. \<open>decoded\<close> gives for a frame whether
  \<open>Unmarshal\<close> returned no error and which of the two fields it set (also when it returned one).\<close>

record ws_loop =
  wl_Type :: string
  wl_Role :: string

definition handleWSFrame ::
  "(string \<Rightarrow> bool \<times> string option \<times> string option) \<Rightarrow> (string \<Rightarrow> string) \<Rightarrow> (nat \<Rightarrow> bool) \<Rightarrow>
   Viewer \<Rightarrow> string \<Rightarrow> go_time \<Rightarrow> ws_loop \<Rightarrow> Hub \<Rightarrow> ws_loop \<times> Hub" where
  "handleWSFrame decoded probeType up v data now m g =
     (let g1 = TouchViewer (vw_Node v) (vw_Session v) now (log_fx [TouchSession (vw_Session v)] g)
      in case decoded data of (valid, ty, rl) \<Rightarrow>
           let m1 = \<lparr>wl_Type = (case ty of None \<Rightarrow> wl_Type m | Some t \<Rightarrow> t),
                     wl_Role = (case rl of None \<Rightarrow> wl_Role m | Some r \<Rightarrow> r)\<rparr>
           in (m1,
               if \<not> valid then g1
               else if wl_Type m1 = ''hello'' then
                 (if wl_Role m1 = ''viewer'' \<and> \<not> IsViewerBound (vw_Node v) v g1
                  then AddViewer (vw_Node v) v now g1 else g1)
               else case hub_Host (vw_Node v) g1 of
                      None \<Rightarrow> g1
                    | Some p \<Rightarrow> forwardToHost probeType up p data v now g1))"

definition KillSession :: "string \<Rightarrow> string \<Rightarrow> go_time \<Rightarrow> Verifier \<times> Hub \<Rightarrow> Verifier \<times> Hub" where
  "KillSession node session now s =
     (ticket_Kill node session now (fst s),
      log_fx [Emit ''session.kill'' node session] (dropForKill node session (snd s)))"

subsection \<open>Frame lemmas\<close>

lemma log_fx_sel [simp]:
  "g_hosts (log_fx fx g) = g_hosts g" "g_heap (log_fx fx g) = g_heap g"
  "g_arbiter (log_fx fx g) = g_arbiter g" "g_nextID (log_fx fx g) = g_nextID g"
  "g_fx (log_fx fx g) = g_fx g @ fx"
  by (simp_all add: log_fx_def)

lemma upd_host_sel [simp]:
  "g_hosts (upd_host p f g) = g_hosts g" "g_arbiter (upd_host p f g) = g_arbiter g"
  "g_nextID (upd_host p f g) = g_nextID g" "g_fx (upd_host p f g) = g_fx g"
  by (simp_all add: upd_host_def split: option.splits)

lemma upd_host_get:
  "tget (g_heap (upd_host p f g)) q = (if q = p then map_option f (tget (g_heap g) p) else tget (g_heap g) q)"
  by (simp add: upd_host_def split: option.splits)

lemma noGate_sel [simp]:
  "g_hosts (forwardToHostNoGate p v g) = g_hosts g" "g_heap (forwardToHostNoGate p v g) = g_heap g"
  "g_arbiter (forwardToHostNoGate p v g) = g_arbiter g"
  "g_fx (forwardToHostNoGate p v g) = g_fx g @
     (case tget (g_heap g) p of None \<Rightarrow> [] | Some h \<Rightarrow> if hs_sendControl h then [ToHost p v] else [])"
  by (simp_all add: forwardToHostNoGate_def split: option.splits)

lemma notify_sel [simp]:
  "g_hosts (notifyViewers p g) = g_hosts g" "g_heap (notifyViewers p g) = g_heap g"
  "g_arbiter (notifyViewers p g) = g_arbiter g"
  "g_fx (notifyViewers p g) = g_fx g @
     (case tget (g_heap g) p of None \<Rightarrow> [] | Some h \<Rightarrow> if hs_sendControl h then [ToHost p (MViewers (viewerCount p g))] else [])"
  by (simp_all add: notifyViewers_def)

text \<open>The viewer table of a host session is keyed by viewer id.\<close>

definition keyed :: "(nat, Viewer) table \<Rightarrow> bool" where
  "keyed vs \<longleftrightarrow> tok vs \<and> (\<forall>k w. (k, w) \<in> set vs \<longrightarrow> vw_ID w = k)"

lemma migrate_get:
  "keyed old \<Longrightarrow> tget (migrate old new) k = (case tget old k of None \<Rightarrow> tget new k | Some w \<Rightarrow> Some w)"
proof (induction old arbitrary: new)
  case (Cons e old)
  obtain j w where e: "e = (j, w)" by (cases e)
  have old: "keyed old" "tget old j = None" "vw_ID w = j"
    using Cons.prems e by (auto simp: keyed_def tget_absent)
  have "migrate (e # old) new = migrate old (tput j w new)"
    using e old(3) by (simp add: migrate_def)
  then show ?case
    using Cons.IH [OF old(1)] e old(2) by (auto split: option.splits)
qed (simp add: migrate_def)

lemma keyed_put: "keyed vs \<Longrightarrow> keyed (tput (vw_ID w) w vs)"
proof -
  assume k: "keyed vs"
  then have "tok (tput (vw_ID w) w vs)" by (simp add: keyed_def)
  moreover from this k have "vw_ID x = j" if "(j, x) \<in> set (tput (vw_ID w) w vs)" for j x
    using that by (auto simp: keyed_def tget_in_set [symmetric] split: if_splits)
  ultimately show ?thesis by (simp add: keyed_def)
qed

lemma keyed_migrate: "keyed new \<Longrightarrow> keyed (migrate old new)"
  unfolding migrate_def by (induction old arbitrary: new) (auto simp: keyed_put)

lemma keyed_length: "keyed vs \<Longrightarrow> length vs = card (dom (tget vs))"
proof -
  assume "keyed vs"
  then have "distinct (map fst vs)" by (simp add: keyed_def tok_def)
  moreover have "dom (tget vs) = set (map fst vs)"
    by (simp add: tget_def [abs_def] dom_map_of_conv_image_fst)
  ultimately show ?thesis using distinct_card by fastforce
qed

subsection \<open>Reports\<close>

definition session_count :: "(string \<times> Viewer) list \<Rightarrow> string \<Rightarrow> nat" where
  "session_count vs s = length (filter (\<lambda>(_, w). vw_Session w = s) vs)"

lemma active_fold:
  "tget (fold (\<lambda>(_, w) out. tput (vw_Session w)
      (case tget out (vw_Session w) of None \<Rightarrow> 1 | Some n \<Rightarrow> n + 1) out) vs out) s =
   (if session_count vs s = 0 then tget out s
    else Some (session_count vs s + (case tget out s of None \<Rightarrow> 0 | Some n \<Rightarrow> n)))"
  by (induction vs arbitrary: out) (auto simp: session_count_def split: option.splits)

lemma ActiveSessions_count:
  "tget (ActiveSessions g) s = (let n = session_count (bound_viewers g) s in if n = 0 then None else Some n)"
  by (simp add: ActiveSessions_def active_fold Let_def)

definition live_step :: "string \<times> Viewer \<Rightarrow> (string, LiveSession) table \<Rightarrow> (string, LiveSession) table" where
  "live_step = (\<lambda>(node, w) counts. tput (vw_Session w) (case tget counts (vw_Session w) of
           Some e \<Rightarrow> e\<lparr>ls_Viewers := ls_Viewers e + 1\<rparr>
         | None \<Rightarrow> \<lparr>ls_SessionID = vw_Session w, ls_NodeID = node, ls_Viewers = 1\<rparr>) counts)"

definition live_inv :: "(string, LiveSession) table \<Rightarrow> bool" where
  "live_inv counts \<longleftrightarrow> tok counts \<and> (\<forall>s e. tget counts s = Some e \<longrightarrow> ls_SessionID e = s)"

lemma live_step_inv: "live_inv c \<Longrightarrow> live_inv (live_step x c)"
  by (cases x) (auto simp: live_inv_def live_step_def split: option.splits)

lemma live_fold_inv: "live_inv c \<Longrightarrow> live_inv (fold live_step vs c)"
  by (induction vs arbitrary: c) (simp_all add: live_step_inv)

lemma live_fold_count:
  "map_option ls_Viewers (tget (fold live_step vs c) s) =
   (if session_count vs s = 0 then map_option ls_Viewers (tget c s)
    else Some (session_count vs s + (case tget c s of None \<Rightarrow> 0 | Some e \<Rightarrow> ls_Viewers e)))"
  by (induction vs arbitrary: c) (auto simp: session_count_def live_step_def split: option.splits)

lemma LiveSessions_fold: "LiveSessions g = map snd (fold live_step (bound_viewers g) [])"
  by (simp add: LiveSessions_def live_step_def)

lemma live_entries:
  assumes "live_inv c"
  shows "e \<in> set (map snd c) \<longleftrightarrow> tget c (ls_SessionID e) = Some e"
proof
  assume "e \<in> set (map snd c)"
  then obtain s where "(s, e) \<in> set c" by auto
  then have "tget c s = Some e" using assms by (simp add: live_inv_def tget_in_set)
  then show "tget c (ls_SessionID e) = Some e" using assms by (simp add: live_inv_def)
next
  assume "tget c (ls_SessionID e) = Some e"
  then show "e \<in> set (map snd c)" by (auto dest!: tget_SomeD intro: rev_image_eqI)
qed

subsection \<open>Latency average\<close>

lemma go_div_bounds:
  assumes "0 < b"
  shows "0 \<le> a \<Longrightarrow> 0 \<le> go_div a b \<and> go_div a b \<le> a" and "a \<le> 0 \<Longrightarrow> a \<le> go_div a b \<and> go_div a b \<le> 0"
proof -
  have *: "0 \<le> x div b \<and> x div b \<le> x" if "0 \<le> x" for x
    using that assms by (auto simp: pos_imp_zdiv_nonneg_iff intro: order_trans [OF zdiv_mono2 [of x 1 b]])
  show "0 \<le> a \<Longrightarrow> 0 \<le> go_div a b \<and> go_div a b \<le> a"
    using * [of a] by (simp add: go_div_def)
  show "a \<le> 0 \<Longrightarrow> a \<le> go_div a b \<and> go_div a b \<le> 0"
    using * [of "- a"] by (cases "a = 0") (auto simp: go_div_def)
qed

lemma ema_between:
  assumes "0 < (old::int)" "0 < d"
  shows "min old d \<le> old + go_div (d - old) 8 \<and> old + go_div (d - old) 8 \<le> max old d"
  using go_div_bounds [of 8 "d - old"] by (cases "d \<ge> old") auto

definition lat_inv :: "HostSession \<Rightarrow> bool" where
  "lat_inv h \<longleftrightarrow> 0 \<le> hs_latEMAUs h \<and> hs_latEMAUs h < 60000000"

lemma lat_update_inv: "lat_inv h \<Longrightarrow> lat_inv (lat_update data nowUs h)"
  using ema_between [of "hs_latEMAUs h" "nowUs - sint (Uint64 (drop 24 data))"]
  by (auto simp: lat_inv_def lat_update_def Let_def)

subsection \<open>Properties\<close>

text \<open>Host restart: when a host registers for a node that already has one, every viewer of the old
  host object is bound to the new one (together with the new object's own), the old object has no
  viewers left and its connection is closed, the new host is told the number of viewers and asked for
  a key frame, and the deferred unregistration of the old host changes nothing any more.\<close>

theorem host_restart_keeps_viewers:
  assumes "hub_Host node g = Some q" "tget (g_heap g) q = Some old" "tget (g_heap g) p = Some new" "p \<noteq> q"
    and "keyed (hs_viewers old)" "keyed (hs_viewers new)" "hs_viewers old \<noteq> []" "hs_sendControl new"
    and "RegisterHost node p g = (replaced, g')"
  shows "replaced
     \<and> (\<forall>w. IsViewerBound node w g' =
          (tget (hs_viewers old) (vw_ID w) \<noteq> None \<or> tget (hs_viewers new) (vw_ID w) \<noteq> None))
     \<and> viewers_of q g' = []
     \<and> (\<exists>n. g_fx g' = g_fx g @ [CloseHost q, ToHost p (MViewers n), ToHost p (MFrameLoss ''host-restart''),
            Emit ''host.register'' node []]
          \<and> n = card (dom (tget (hs_viewers old)) \<union> dom (tget (hs_viewers new))))
     \<and> UnregisterHost node q g' = g'"
proof -
  let ?vs = "migrate (hs_viewers old) (hs_viewers new)"
  have g': "replaced" "g_hosts g' = tput node p (g_hosts g)"
    "tget (g_heap g') p = Some (new\<lparr>hs_viewers := ?vs\<rparr>)" "tget (g_heap g') q = Some (old\<lparr>hs_viewers := []\<rparr>)"
    "g_fx g' = g_fx g @ [CloseHost q, ToHost p (MViewers (length ?vs)), ToHost p (MFrameLoss ''host-restart''),
            Emit ''host.register'' node []]"
    using assms
    by (auto simp: RegisterHost_def Let_def hub_Host_def upd_host_get viewerCount_def viewers_of_def)
  have "dom (tget ?vs) = dom (tget (hs_viewers old)) \<union> dom (tget (hs_viewers new))"
    using migrate_get [OF assms(5)] by (auto split: option.splits)
  then have "length ?vs = card (dom (tget (hs_viewers old)) \<union> dom (tget (hs_viewers new)))"
    using keyed_length [OF keyed_migrate [OF assms(6)]] by simp
  moreover have "IsViewerBound node w g' =
      (tget (hs_viewers old) (vw_ID w) \<noteq> None \<or> tget (hs_viewers new) (vw_ID w) \<noteq> None)" for w
    using g'(2,3) migrate_get [OF assms(5)] by (auto simp: IsViewerBound_def hub_Host_def split: option.splits)
  ultimately show ?thesis
    using g' assms(4) by (simp add: viewers_of_def UnregisterHost_def)
qed

definition demo_host :: "(nat, Viewer) table \<Rightarrow> HostSession" where
  "demo_host vs = \<lparr>hs_NodeID = ''n'', hs_viewers = vs, hs_lastConfg = None, hs_sendControl = True, hs_rxPkgs = 0,
     hs_rxBytes = 0, hs_txPkgs = 0, hs_txBytes = 0, hs_ctrlTx = 0, hs_framesSeen = 0, hs_latEMAUs = 0,
     hs_lastCaptureUnixUs = 0\<rparr>"

definition demo_viewer :: "nat \<Rightarrow> string \<Rightarrow> Viewer" where
  "demo_viewer i s = \<lparr>vw_ID = i, vw_Node = ''n'', vw_Session = s, vw_CanControl = True, vw_CanInput = True,
     vw_DisplayName = ''ann''\<rparr>"

definition demo_hub :: Hub where
  "demo_hub = NewHub\<lparr>g_hosts := [(''n'', 1)],
     g_heap := [(1, demo_host [(7, demo_viewer 7 ''A''), (8, demo_viewer 8 ''B'')]), (2, demo_host [])]\<rparr>"

theorem host_restart_keeps_viewers_witness:
  "IsViewerBound ''n'' (demo_viewer 7 ''A'') (snd (RegisterHost ''n'' 2 demo_hub))
   \<and> viewers_of 1 (snd (RegisterHost ''n'' 2 demo_hub)) = []"
  using host_restart_keeps_viewers [of "''n''" demo_hub 1 "demo_host [(7, demo_viewer 7 ''A''), (8, demo_viewer 8 ''B'')]"
      2 "demo_host []" "fst (RegisterHost ''n'' 2 demo_hub)" "snd (RegisterHost ''n'' 2 demo_hub)"]
  by (simp add: demo_hub_def demo_host_def demo_viewer_def keyed_def hub_Host_def)

text \<open>Control decides who can type: right after a successful take by viewer \<open>b\<close>, an input message of
  a viewer of any other session on that node is dropped without any effect, and an input message of
  \<open>b\<close> (with the input capability) reaches the host, as long as the lease is within its TTL. An input
  message never reaches the host of a node whose lease is free or expired.\<close>

theorem takeover_switches_input:
  assumes "arb_Take (vw_Node b) (vw_Session b) (vw_DisplayName b) (vw_CanControl b) now (g_arbiter g) = (True, reason, a')"
    and "vw_Session b \<noteq> []" "probeType msg = ''input''" "now \<le> t" "t - now \<le> arb_TTL a'" "arb_TTL a' < maxDuration"
    and "tget (g_heap g) p = Some h" "hs_sendControl h"
  shows "let g' = g\<lparr>g_arbiter := a'\<rparr> in
     (\<forall>a. vw_Node a = vw_Node b \<and> vw_Session a \<noteq> vw_Session b \<longrightarrow> forwardToHost probeType up p msg a t g' = g')
     \<and> (vw_CanInput b \<longrightarrow> g_fx (forwardToHost probeType up p msg b t g') = g_fx g' @ [ToHost p (MRaw msg)])
     \<and> (\<forall>a g0. arb_Holder (vw_Node a) t (g_arbiter g0) = ([], []) \<longrightarrow> forwardToHost probeType up p msg a t g0 = g0)"
proof -
  obtain l where l: "tget (leases a') (vw_Node b) = Some l" "cl_SessionID l = vw_Session b" "cl_LastActivity l = now"
    using assms(1) by (auto simp: arb_Take_def newLease_def Let_def split: option.splits if_splits)
  have "0 \<le> arb_TTL a'" using assms(4,5) by linarith
  then have "aliveLocked a' (vw_Node b) t"
    using l assms(5,6) by (simp add: aliveLocked_def time_Sub_le minDuration_def)
  then have H: "fst (arb_Holder (vw_Node b) t a') = vw_Session b"
    using l by (simp add: arb_Holder_def)
  show ?thesis
    using H assms(2,3,7,8)
    by (auto simp: Let_def forwardToHost_def gateInputFor_def)
qed

theorem takeover_switches_input_witness:
  "let g' = demo_hub\<lparr>g_arbiter := snd (snd (arb_Take ''n'' ''B'' ''ann'' True 0 NewArbiter))\<rparr> in
     forwardToHost (\<lambda>_. ''input'') (\<lambda>_. True) 1 ''m'' (demo_viewer 7 ''A'') Second g' = g'
     \<and> g_fx (forwardToHost (\<lambda>_. ''input'') (\<lambda>_. True) 1 ''m'' (demo_viewer 8 ''B'') Second g')
         = g_fx g' @ [ToHost 1 (MRaw ''m'')]"
  using takeover_switches_input [of "demo_viewer 8 ''B''" 0 demo_hub "''granted''"
      "snd (snd (arb_Take ''n'' ''B'' ''ann'' True 0 NewArbiter))" "\<lambda>_. ''input''" "''m''" Second 1
      "demo_host [(7, demo_viewer 7 ''A''), (8, demo_viewer 8 ''B'')]" "\<lambda>_. True"]
  by (simp add: demo_viewer_def demo_hub_def NewHub_def NewArbiter_def arb_Take_def demo_host_def maxDuration_def Let_def)

text \<open>Revoking a session disconnects it and keeps it out: after \<open>KillSession node sid\<close> no viewer of
  that session is bound to the node's host, every viewer of another session stays bound, each removed
  viewer's connection is closed and, if there was one, the session no longer owns the control lease;
  and as long as the tombstone lasts, no viewer ticket of that session is admitted again, whatever
  happens at the verifier meanwhile.\<close>

theorem killed_session_locked_out:
  assumes "hub_Host node g = Some p" "tget (g_heap g) p = Some h" "keyed (hs_viewers h)" "sid \<noteq> []"
    and "KillSession node sid k (v, g) = (v1, g1)"
    and "run_ok ve_pre (ve_step L) es (v1, k)" "fold (ve_step L) es (v1, k) = (v2, c)" "c \<le> t"
    and "open_token L (v_keys v2) token = Some cl" "c_Typ cl = TicketViewer" "c_SID cl = sid"
    and "time_of_Unix (c_Exp cl) \<le> k + 24 * Hour"
  shows "viewers_of p g1 = filter (\<lambda>w. vw_Session w \<noteq> sid) (viewers_of p g)
     \<and> (\<forall>w \<in> set (viewers_of p g). vw_Session w = sid \<longrightarrow>
          CloseViewer (vw_ID w) \<in> set (g_fx g1) \<and> arb_owner (g_arbiter g1) node \<noteq> Some sid)
     \<and> (\<exists>e. fst (authViewer L rid t token v2) = Inl e)"
proof -
  have v1: "v1 = ticket_Kill node sid k v" and g1: "g1 = log_fx [Emit ''session.kill'' node sid] (dropForKill node sid g)"
    using assms(5) by (auto simp: KillSession_def)
  have "map snd (tfilter (\<lambda>_ w. vw_Session w \<noteq> sid) vs) = filter (\<lambda>w. vw_Session w \<noteq> sid) (map snd vs)"
    for vs :: "(nat, Viewer) table"
    by (simp add: tfilter_def filter_map comp_def split_def)
  then have 1: "viewers_of p g1 = filter (\<lambda>w. vw_Session w \<noteq> sid) (viewers_of p g)"
    using assms(1,2,4) by (simp add: g1 dropForKill_def Let_def viewers_of_def upd_host_get)
  have 2: "CloseViewer (vw_ID w) \<in> set (g_fx g1) \<and> arb_owner (g_arbiter g1) node \<noteq> Some sid"
    if "w \<in> set (viewers_of p g)" "vw_Session w = sid" for w
  proof -
    have "filter (\<lambda>w. vw_Session w = sid) (viewers_of p g) \<noteq> []"
      using that by (auto simp: filter_empty_conv)
    then show ?thesis
      using that assms(1,4)
      by (auto simp: g1 dropForKill_def Let_def arb_DropSession_def arb_owner_def split: option.splits)
  qed
  have "entombed (tombKey cl) k (v1, k)"
    using assms(4,10,11)
    by (auto simp: v1 entombed_def ticket_Kill_def tombKey_def TicketViewer_def TicketHost_def)
  then have "entombed (tombKey cl) k (v2, c)"
    using tomb.run_inv [OF _ assms(6)] assms(7) by metis
  moreover have "time_of_Unix (c_Exp cl) + ticketLeeway \<le> k + tombstoneHorizon"
    using assms(12) by (simp add: ticketLeeway_def tombstoneHorizon_def)
  ultimately have "fst (Verify L t token v2) = Inl ErrExpired \<or> fst (Verify L t token v2) = Inl ErrKilled"
    using assms(8,9) by (intro entombed_rejects [of "tombKey cl" k v2 c]) simp_all
  then have "fst (authViewer L rid t token v2) \<noteq> Inr b" for b
    unfolding viewer_iff by auto
  then have 3: "\<exists>e. fst (authViewer L rid t token v2) = Inl e"
    by (cases "fst (authViewer L rid t token v2)") auto
  show ?thesis using 1 2 3 by blast
qed

theorem killed_session_locked_out_witness:
  "\<exists>e. fst (authViewer demo_lib ''rl-0'' Hour (mint demo_lib demo_claims [1])
      (fst (KillSession ''n'' ''s1'' 0 (\<lparr>v_keys = [[1]], v_tomb = []\<rparr>, demo_hub)))) = Inl e"
proof -
  let ?v = "\<lparr>v_keys = [[1]], v_tomb = []\<rparr>"
  have t: "c_Typ demo_claims = TicketViewer" "c_SID demo_claims = ''s1''"
    by (simp_all add: demo_claims_def viewer_claims_def)
  show ?thesis
    using killed_session_locked_out [of "''n''" demo_hub 1 "demo_host [(7, demo_viewer 7 ''A''), (8, demo_viewer 8 ''B'')]"
        "''s1''" 0 ?v "fst (KillSession ''n'' ''s1'' 0 (?v, demo_hub))" "snd (KillSession ''n'' ''s1'' 0 (?v, demo_hub))"
        demo_lib "[]" "fst (KillSession ''n'' ''s1'' 0 (?v, demo_hub))" 0 Hour "mint demo_lib demo_claims [1]" demo_claims "''rl-0''"]
    by (simp add: KillSession_def ticket_Kill_def demo_open t demo_claims_sel time_of_Unix_def demo_hub_def
        demo_host_def demo_viewer_def keyed_def hub_Host_def)
qed

text \<open>The two session reports agree with the viewer tables: \<open>ActiveSessions\<close> gives for every session
  the number of its viewers bound to registered hosts (no entry for none), and \<open>LiveSessions\<close> lists each
  such session exactly once with the same number.\<close>

theorem session_reports:
  "tget (ActiveSessions g) s =
       (let n = session_count (bound_viewers g) s in if n = 0 then None else Some n)
   \<and> distinct (map ls_SessionID (LiveSessions g))
   \<and> ((\<exists>e \<in> set (LiveSessions g). ls_SessionID e = s \<and> ls_Viewers e = n) = (tget (ActiveSessions g) s = Some n))"
proof -
  let ?c = "fold live_step (bound_viewers g) []"
  have inv: "live_inv ?c" by (rule live_fold_inv) (simp add: live_inv_def)
  have ids: "map ls_SessionID (map snd ?c) = map fst ?c"
    using inv by (auto simp: live_inv_def tget_in_set)
  have "distinct (map ls_SessionID (LiveSessions g))"
    unfolding LiveSessions_fold ids using inv by (simp add: live_inv_def tok_def)
  moreover have "(\<exists>e \<in> set (LiveSessions g). ls_SessionID e = s \<and> ls_Viewers e = n)
      \<longleftrightarrow> map_option ls_Viewers (tget ?c s) = Some n"
  proof -
    have sid: "ls_SessionID e = s" if "tget ?c s = Some e" for e
      using inv that by (simp add: live_inv_def)
    have "(\<exists>e \<in> set (LiveSessions g). ls_SessionID e = s \<and> ls_Viewers e = n)
      \<longleftrightarrow> (\<exists>e. tget ?c s = Some e \<and> ls_Viewers e = n)"
      unfolding LiveSessions_fold Bex_def live_entries [OF inv] using sid by blast
    then show ?thesis by simp
  qed
  ultimately show ?thesis
    by (simp add: live_fold_count ActiveSessions_count Let_def)
qed

theorem session_reports_witness:
  "tget (ActiveSessions demo_hub) ''A'' = Some 1"
  using session_reports [of demo_hub "''A''" 1]
  by (simp add: demo_hub_def demo_host_def demo_viewer_def NewHub_def bound_viewers_def session_count_def Let_def)

text \<open>Media fan-out: a packet is sent unchanged, once, to each viewer of the host in table order and
  to nobody else, no matter which sends fail; the bindings of all hosts stay as they are; and the
  latency average stays within \<open>[0, 60 s)\<close>.\<close>

theorem media_fanout:
  assumes "tget (g_heap g) p = Some h" "lat_inv h"
  shows "let g' = fanoutMedia up nowUs p data g in
     g_fx g' = g_fx g @ map (\<lambda>w. ToViewerMedia (vw_ID w) data) (viewers_of p g)
     \<and> g_hosts g' = g_hosts g \<and> (\<forall>q. viewers_of q g' = viewers_of q g)
     \<and> (\<exists>h'. tget (g_heap g') p = Some h' \<and> lat_inv h' \<and> hs_rxPkgs h' = hs_rxPkgs h + 1)"
proof -
  have vs: "hs_viewers (lat_update data nowUs x) = hs_viewers x" "hs_rxPkgs (lat_update data nowUs x) = hs_rxPkgs x" for x
    by (simp_all add: lat_update_def Let_def)
  have li: "lat_inv (lat_update data nowUs (h\<lparr>hs_rxPkgs := a, hs_rxBytes := b\<rparr>))" for a b
    using assms(2) by (intro lat_update_inv) (simp add: lat_inv_def)
  then have li2: "lat_inv ((lat_update data nowUs (h\<lparr>hs_rxPkgs := a, hs_rxBytes := b\<rparr>))\<lparr>hs_framesSeen := x, hs_txPkgs := y, hs_txBytes := z\<rparr>)"
    for a b x y z by (simp add: lat_inv_def)
  show ?thesis
    using assms(1) li li2
    by (auto simp: fanoutMedia_def Let_def viewers_of_def upd_host_get vs)
qed

theorem media_fanout_witness:
  "g_fx (fanoutMedia (\<lambda>_. False) 5 1 [1, 2, 3] demo_hub) = [ToViewerMedia 7 [1, 2, 3], ToViewerMedia 8 [1, 2, 3]]"
  using media_fanout [of demo_hub 1 "demo_host [(7, demo_viewer 7 ''A''), (8, demo_viewer 8 ''B'')]" "\<lambda>_. False" 5 "[1, 2, 3]"]
  by (simp add: demo_hub_def demo_host_def demo_viewer_def NewHub_def lat_inv_def viewers_of_def Let_def)

end
