(* ===== verification/Relay_Pool.thy ===== *)
theory Relay_Pool
  imports Complex_Main Ticket
begin

text \<open>
  The server's pool of external relays (\<open>src/server/internal/rtvpool/pool.go\<close>): registration and
  admission, the challenge, the message loop of a relay's control connection, node-sticky assignment,
  status changes by the administrator and the host-leg probe. The \<open>relays\<close> table is the list
  \<open>p_rows\<close> with the behaviour of the statements in \<open>queries/relays.sql\<close>. A \<open>*relayConn\<close> is its
  identity \<open>rc_ptr\<close> with its fields; a connection that is no longer in \<open>p_conns\<close> is only written to,
  never read, so an update through a stale pointer changes nothing. JSON decoding has happened before
  the model's messages; Ed25519 verification is the argument \<open>verify\<close>, the reachability of an address
  the argument \<open>probe\<close>. \<open>f64\<close> is the rounding of a rational number to a 64-bit float.
\<close>

subsection \<open>Data\<close>

record EndpointDesc =
  ep_Transport :: string
  ep_Host :: string
  ep_Port :: int
  ep_ALPN :: string
  ep_Path :: string
  ep_CertSHA256 :: string
  ep_RelayID :: string
  ep_Region :: string
  ep_DisplayHost :: string

record RelayRegister =
  rg_RelayID :: string
  rg_PublicKey :: string
  rg_Region :: string
  rg_Endpoints :: "EndpointDesc list"
  rg_MaxSessions :: int
  rg_MaxMbpsOut :: int
  rg_Version :: string
  rg_ClockUnix :: int

record RelayStats =
  st_Sessions :: int
  st_Viewers :: int
  st_ActiveSids :: "string list"

record relay_row =
  rr_ID :: string
  rr_Pubkey :: string
  rr_Region :: string
  rr_Endpoints :: "EndpointDesc list"
  rr_MaxSessions :: int
  rr_MaxMbpsOut :: int
  rr_Version :: string
  rr_Status :: string

record relayConn =
  rc_ptr :: nat
  rc_id :: string
  rc_status :: string
  rc_region :: string
  rc_maxSess :: int
  rc_maxMbps :: int
  rc_endpoints :: "EndpointDesc list"
  rc_lastBeat :: go_time
  rc_stats :: RelayStats
  rc_liveSess :: nat
  rc_probeFails :: int
  rc_drift :: duration

record Assignment =
  as_RelayID :: string
  as_Region :: string
  as_Endpoints :: "EndpointDesc list"

datatype pool_msg =
    PChallenge string string
  | PRelayConfig "string list"
  | PHeartbeatAck
  | PError string
  | PSessionKill string string string
  | PSessionGrant string string string

datatype pool_fx =
    PSend nat pool_msg
  | PTouch string
  | PNotifyClose string string
  | PTouchDB string

record Pool =
  p_allow :: "string list"
  p_pubkey :: string
  p_conns :: "(string, relayConn) table"
  p_sticky :: "(string, string) table"
  p_dataSticky :: "(string, string) table"
  p_rows :: "relay_row list"
  p_fx :: "pool_fx list"

definition heartbeatWait :: duration where "heartbeatWait = 90 * Second"
definition driftLimit :: duration where "driftLimit = 5 * Minute"

definition pool_log :: "pool_fx list \<Rightarrow> Pool \<Rightarrow> Pool" where
  "pool_log fx m = m\<lparr>p_fx := p_fx m @ fx\<rparr>"

subsection \<open>Keys\<close>

definition normalizeHex :: "string \<Rightarrow> string" where
  "normalizeHex s = concat (map (\<lambda>ch. let n = of_char ch :: nat in
      if (48 \<le> n \<and> n \<le> 57) \<or> (97 \<le> n \<and> n \<le> 102) then [ch]
      else if 65 \<le> n \<and> n \<le> 70 then [char_of (n - 65 + 97)]
      else []) s)"

definition decodePubkey :: "string \<Rightarrow> bytes option" where
  "decodePubkey hexStr =
     (case hex_DecodeString (normalizeHex hexStr) of
        None \<Rightarrow> None
      | Some b \<Rightarrow> if length b \<noteq> 32 then None else Some b)"

definition newRelayID :: "bytes \<Rightarrow> string" where
  "newRelayID b = ''rl-'' @ hex_EncodeToString b"

definition pool_New :: "string list \<Rightarrow> string \<Rightarrow> relay_row list \<Rightarrow> Pool" where
  "pool_New allowlist signingPubkey rows =
     \<lparr>p_allow = map normalizeHex allowlist, p_pubkey = signingPubkey, p_conns = [], p_sticky = [],
      p_dataSticky = [], p_rows = rows, p_fx = []\<rparr>"

subsection \<open>The relays table\<close>

definition GetRelay :: "string \<Rightarrow> Pool \<Rightarrow> relay_row option" where
  "GetRelay rid m = find (\<lambda>r. rr_ID r = rid) (p_rows m)"

definition GetRelayByPubkey :: "string \<Rightarrow> Pool \<Rightarrow> relay_row option" where
  "GetRelayByPubkey pk m = find (\<lambda>r. rr_Pubkey r = pk) (p_rows m)"

text \<open>Conversion of a Go \<open>int\<close> to \<open>int32\<close>.\<close>

definition to_int32 :: "int \<Rightarrow> int" where
  "to_int32 n = sint (word_of_int n :: 32 word)"

definition refresh_row :: "RelayRegister \<Rightarrow> relay_row \<Rightarrow> relay_row" where
  "refresh_row reg r = r\<lparr>rr_Region := rg_Region reg, rr_Endpoints := rg_Endpoints reg,
     rr_MaxSessions := to_int32 (rg_MaxSessions reg), rr_MaxMbpsOut := to_int32 (rg_MaxMbpsOut reg),
     rr_Version := rg_Version reg\<rparr>"

text \<open>\<open>INSERT ... ON CONFLICT (pubkey) DO UPDATE\<close>; a second row with the same primary key is an error.\<close>

definition upsertRow :: "string \<Rightarrow> RelayRegister \<Rightarrow> Pool \<Rightarrow> relay_row option \<times> Pool" where
  "upsertRow rid reg m =
     (let pk = normalizeHex (rg_PublicKey reg) in
      case GetRelayByPubkey pk m of
        Some r \<Rightarrow> (Some (refresh_row reg r),
          m\<lparr>p_rows := map (\<lambda>x. if rr_Pubkey x = pk then refresh_row reg x else x) (p_rows m)\<rparr>)
      | None \<Rightarrow>
          if GetRelay rid m \<noteq> None then (None, m)
          else
            let r = refresh_row reg \<lparr>rr_ID = rid, rr_Pubkey = pk, rr_Region = [], rr_Endpoints = [],
                      rr_MaxSessions = 0, rr_MaxMbpsOut = 0, rr_Version = [], rr_Status = ''pending''\<rparr>
            in (Some r, m\<lparr>p_rows := p_rows m @ [r]\<rparr>))"

definition SetRelayStatus :: "string \<Rightarrow> string \<Rightarrow> Pool \<Rightarrow> Pool" where
  "SetRelayStatus rid status m =
     m\<lparr>p_rows := map (\<lambda>x. if rr_ID x = rid then x\<lparr>rr_Status := status\<rparr> else x) (p_rows m)\<rparr>"

subsection \<open>Registration\<close>

datatype first_frame = FFReadError | FFNotRegister | FFBadPayload | FFRegister RelayRegister

definition pool_register ::
  "first_frame \<Rightarrow> bytes \<Rightarrow> Pool \<Rightarrow> (string + (RelayRegister \<times> bytes \<times> relay_row \<times> bool)) \<times> Pool" where
  "pool_register ff rnd m =
     (case ff of
        FFReadError \<Rightarrow> (Inl ''read'', m)
      | FFNotRegister \<Rightarrow> (Inl ''first frame must be RELAY_REGISTER'', m)
      | FFBadPayload \<Rightarrow> (Inl ''bad register payload'', m)
      | FFRegister reg \<Rightarrow>
          (case decodePubkey (rg_PublicKey reg) of
             None \<Rightarrow> (Inl ''bad ed25519 pubkey'', m)
           | Some pub \<Rightarrow>
               let pubHex = normalizeHex (rg_PublicKey reg);
                   finish = (\<lambda>rid fresh. case upsertRow rid reg m of
                       (None, m1) \<Rightarrow> (Inl ''db'', m1)
                     | (Some row, m1) \<Rightarrow> (Inr (reg, pub, row, fresh), m1))
               in case (if rg_RelayID reg \<noteq> [] then GetRelay (rg_RelayID reg) m else None) of
                    Some row \<Rightarrow>
                      if rr_Pubkey row \<noteq> pubHex then (Inl ''relay id bound to another pubkey'', m)
                      else finish (rr_ID row) False
                  | None \<Rightarrow>
                      (case GetRelayByPubkey pubHex m of
                         Some row \<Rightarrow> finish (rr_ID row) False
                       | None \<Rightarrow> finish (newRelayID rnd) True)))"

subsection \<open>Connections\<close>

definition pool_attach :: "relayConn \<Rightarrow> Pool \<Rightarrow> Pool" where
  "pool_attach c m =
     (let m1 = (case tget (p_conns m) (rc_id c) of
                  None \<Rightarrow> m
                | Some old \<Rightarrow> pool_log [PSend (rc_ptr old) (PError ''REPLACED'')] m)
      in m1\<lparr>p_conns := tput (rc_id c) c (p_conns m1)\<rparr>)"

definition pool_detach :: "string \<Rightarrow> nat \<Rightarrow> Pool \<Rightarrow> Pool" where
  "pool_detach rid p m =
     (case tget (p_conns m) rid of
        None \<Rightarrow> m
      | Some cur \<Rightarrow> if rc_ptr cur = p then m\<lparr>p_conns := tdel rid (p_conns m)\<rparr> else m)"

text \<open>The life of a control connection up to its message loop, cut where it waits for the relay: first
  registration, admission and the challenge; then the check of the answer (\<open>resp\<close>: relay id and
  signature, \<open>None\<close> when it does not arrive or decode), the configuration and \<open>attach\<close>. Other
  operations can happen in between.\<close>

record handshake =
  hk_reg :: RelayRegister
  hk_pub :: bytes
  hk_row :: relay_row
  hk_status :: string
  hk_nonce :: string

definition serveRelay_register ::
  "nat \<Rightarrow> first_frame \<Rightarrow> bytes \<Rightarrow> string \<Rightarrow> Pool \<Rightarrow> handshake option \<times> Pool" where
  "serveRelay_register p ff rnd nonceStr m =
     (case pool_register ff rnd m of
        (Inl _, m1) \<Rightarrow> (None, m1)
      | (Inr (reg, pub, row, fresh), m1) \<Rightarrow>
          let status = (if fresh then
                  (if normalizeHex (rg_PublicKey reg) \<in> set (p_allow m1) then ''active'' else ''pending'')
                else rr_Status row);
              m2 = (if fresh \<and> status \<noteq> rr_Status row then SetRelayStatus (rr_ID row) status m1 else m1)
          in (Some \<lparr>hk_reg = reg, hk_pub = pub, hk_row = row, hk_status = status, hk_nonce = nonceStr\<rparr>,
              pool_log [PSend p (PChallenge nonceStr (rr_ID row))] m2))"

definition challengeOK ::
  "(bytes \<Rightarrow> string \<Rightarrow> bytes \<Rightarrow> bool) \<Rightarrow> handshake \<Rightarrow> (string \<times> bytes) option \<Rightarrow> bool" where
  "challengeOK verify h resp =
     (case resp of None \<Rightarrow> False
      | Some (rid, sig) \<Rightarrow> rid = rr_ID (hk_row h) \<and> verify (hk_pub h) (hk_nonce h) sig)"

definition handshake_conn :: "nat \<Rightarrow> handshake \<Rightarrow> go_time \<Rightarrow> relayConn" where
  "handshake_conn p h now =
     \<lparr>rc_ptr = p, rc_id = rr_ID (hk_row h), rc_status = hk_status h, rc_region = rg_Region (hk_reg h),
      rc_maxSess = rg_MaxSessions (hk_reg h), rc_maxMbps = rg_MaxMbpsOut (hk_reg h),
      rc_endpoints = rg_Endpoints (hk_reg h), rc_lastBeat = now,
      rc_stats = \<lparr>st_Sessions = 0, st_Viewers = 0, st_ActiveSids = []\<rparr>, rc_liveSess = 0,
      rc_probeFails = 0, rc_drift = 0\<rparr>"

definition serveRelay_challenge ::
  "(bytes \<Rightarrow> string \<Rightarrow> bytes \<Rightarrow> bool) \<Rightarrow> nat \<Rightarrow> handshake \<Rightarrow> (string \<times> bytes) option \<Rightarrow> go_time \<Rightarrow> Pool \<Rightarrow> bool \<times> Pool" where
  "serveRelay_challenge verify p h resp now m =
     (if \<not> challengeOK verify h resp then (False, m)
      else
        let m1 = (if p_pubkey m \<noteq> [] then pool_log [PSend p (PRelayConfig [p_pubkey m])] m else m)
        in (True, pool_attach (handshake_conn p h now) m1))"

definition upd_conn :: "string \<Rightarrow> nat \<Rightarrow> (relayConn \<Rightarrow> relayConn) \<Rightarrow> Pool \<Rightarrow> Pool" where
  "upd_conn rid p f m =
     (case tget (p_conns m) rid of
        None \<Rightarrow> m
      | Some c \<Rightarrow> if rc_ptr c = p then m\<lparr>p_conns := tput rid (f c) (p_conns m)\<rparr> else m)"

text \<open>Messages of the service loop; \<open>None\<close> is a payload that does not decode.\<close>

datatype relay_msg =
    RHeartbeat "int option"
  | RStats "RelayStats option"
  | RReconcile "nat option"
  | RSessionClosed "(string \<times> string) option"
  | ROther

definition orDefault :: "string \<Rightarrow> string \<Rightarrow> string" where
  "orDefault s d = (if s = [] then d else s)"

fun serveRelay_msg :: "string \<Rightarrow> nat \<Rightarrow> relay_msg \<Rightarrow> go_time \<Rightarrow> Pool \<Rightarrow> Pool" where
  "serveRelay_msg rid p (RHeartbeat hb) now m =
     (let m1 = (case hb of None \<Rightarrow> m
          | Some clock \<Rightarrow> upd_conn rid p (\<lambda>c. c\<lparr>rc_drift := time_Sub now (time_of_Unix clock), rc_lastBeat := now\<rparr>) m)
      in pool_log [PTouchDB rid, PSend p PHeartbeatAck] m1)"
| "serveRelay_msg rid p (RStats st) now m =
     (case st of None \<Rightarrow> m
      | Some s \<Rightarrow> pool_log (map PTouch (st_ActiveSids s))
          (upd_conn rid p (\<lambda>c. c\<lparr>rc_stats := s, rc_lastBeat := now\<rparr>) m))"
| "serveRelay_msg rid p (RReconcile rc) now m =
     (case rc of None \<Rightarrow> m
      | Some n \<Rightarrow> upd_conn rid p (\<lambda>c. c\<lparr>rc_liveSess := n, rc_lastBeat := now\<rparr>) m)"
| "serveRelay_msg rid p (RSessionClosed cl) now m =
     (case cl of None \<Rightarrow> m
      | Some (sid, reason) \<Rightarrow>
          if sid = [] then m
          else pool_log [PNotifyClose sid (orDefault reason ''peer-disconnect'')]
                 (upd_conn rid p (\<lambda>c. c\<lparr>rc_lastBeat := now\<rparr>) m))"
| "serveRelay_msg rid p ROther now m = m"

definition RelayStatusChanged :: "string \<Rightarrow> string \<Rightarrow> Pool \<Rightarrow> Pool" where
  "RelayStatusChanged rid status m =
     (let m1 = (if status = ''retired'' then m\<lparr>p_sticky := tfilter (\<lambda>_ r. r \<noteq> rid) (p_sticky m)\<rparr> else m)
      in case tget (p_conns m) rid of
           None \<Rightarrow> m1
         | Some c \<Rightarrow>
             let m2 = m1\<lparr>p_conns := tput rid (c\<lparr>rc_status := status\<rparr>) (p_conns m1)\<rparr>
             in if status = ''retired'' then pool_log [PSend (rc_ptr c) (PError ''RETIRED'')] m2 else m2)"

definition SessionKill :: "string \<Rightarrow> string \<Rightarrow> string \<Rightarrow> string \<Rightarrow> Pool \<Rightarrow> Pool" where
  "SessionKill rid node sid reason m =
     (case tget (p_conns m) rid of
        None \<Rightarrow> m
      | Some c \<Rightarrow> pool_log [PSend (rc_ptr c) (PSessionKill sid node reason)] m)"

definition SessionGrant :: "string \<Rightarrow> string \<Rightarrow> string \<Rightarrow> string \<Rightarrow> Pool \<Rightarrow> Pool" where
  "SessionGrant rid node sid holder m =
     (case tget (p_conns m) rid of
        None \<Rightarrow> m
      | Some c \<Rightarrow> pool_log [PSend (rc_ptr c) (PSessionGrant sid node holder)] m)"

subsection \<open>Assignment\<close>

definition hasSdata :: "EndpointDesc list \<Rightarrow> bool" where
  "hasSdata eps = list_ex (\<lambda>e. ep_Transport e = ''sdata'' \<and> ep_Host e \<noteq> [] \<and> ep_Port e > 0) eps"

definition assignmentLocked :: "relayConn \<Rightarrow> Assignment" where
  "assignmentLocked c = \<lparr>as_RelayID = rc_id c, as_Region = rc_region c, as_Endpoints = rc_endpoints c\<rparr>"

definition eligibleLocked :: "go_time \<Rightarrow> relayConn \<Rightarrow> bool" where
  "eligibleLocked now c =
     (if rc_status c \<noteq> ''active'' \<or> rc_probeFails c \<ge> 2 then False
      else if rc_drift c > driftLimit \<or> rc_drift c < - driftLimit then False
      else time_Sub now (rc_lastBeat c) < heartbeatWait)"

definition loadNormLocked :: "(rat \<Rightarrow> rat) \<Rightarrow> relayConn \<Rightarrow> rat" where
  "loadNormLocked f64 c =
     (if rc_maxSess c > 0 then f64 (f64 (of_int (st_Sessions (rc_stats c))) / f64 (of_int (rc_maxSess c))) else 0)"

fun least_loaded :: "(rat \<Rightarrow> rat) \<Rightarrow> relayConn \<Rightarrow> relayConn list \<Rightarrow> relayConn" where
  "least_loaded f64 best [] = best"
| "least_loaded f64 best (c # cs) =
     (if loadNormLocked f64 c < loadNormLocked f64 best then least_loaded f64 c cs else least_loaded f64 best cs)"

text \<open>Both assignments run the same selection on their own candidate set and sticky table.\<close>

definition pick_relay :: "(rat \<Rightarrow> rat) \<Rightarrow> relayConn list \<Rightarrow> string option \<Rightarrow> relayConn option" where
  "pick_relay f64 eligible stuck =
     (case eligible of
        [] \<Rightarrow> None
      | c # cs \<Rightarrow>
          (case (case stuck of None \<Rightarrow> None | Some rid \<Rightarrow> find (\<lambda>x. rc_id x = rid) eligible) of
             Some x \<Rightarrow> Some x
           | None \<Rightarrow> Some (least_loaded f64 c cs)))"

definition Assign :: "(rat \<Rightarrow> rat) \<Rightarrow> string \<Rightarrow> go_time \<Rightarrow> Pool \<Rightarrow> Assignment option \<times> Pool" where
  "Assign f64 nodeID now m =
     (let eligible = filter (eligibleLocked now) (map snd (p_conns m))
      in case pick_relay f64 eligible (tget (p_sticky m) nodeID) of
           None \<Rightarrow> (None, m)
         | Some c \<Rightarrow> (Some (assignmentLocked c),
             if tget (p_sticky m) nodeID = Some (rc_id c) then m
             else m\<lparr>p_sticky := tput nodeID (rc_id c) (p_sticky m)\<rparr>))"

definition AssignData :: "(rat \<Rightarrow> rat) \<Rightarrow> string \<Rightarrow> go_time \<Rightarrow> Pool \<Rightarrow> Assignment option \<times> Pool" where
  "AssignData f64 nodeID now m =
     (let eligible = filter (\<lambda>c. eligibleLocked now c \<and> hasSdata (rc_endpoints c)) (map snd (p_conns m))
      in case pick_relay f64 eligible (tget (p_dataSticky m) nodeID) of
           None \<Rightarrow> (None, m)
         | Some c \<Rightarrow> (Some (assignmentLocked c),
             if tget (p_dataSticky m) nodeID = Some (rc_id c) then m
             else m\<lparr>p_dataSticky := tput nodeID (rc_id c) (p_dataSticky m)\<rparr>))"

subsection \<open>Host-leg probe\<close>

definition protoView :: "EndpointDesc list \<Rightarrow> EndpointDescView list" where
  "protoView eps = map (\<lambda>e. \<lparr>ev_Transport = ep_Transport e, ev_Host = ep_Host e, ev_Port = ep_Port e\<rparr>) eps"

text \<open>The address of one relay; \<open>None\<close> when computing it panics.\<close>

definition probe_target :: "relayConn \<Rightarrow> (string \<times> string) option" where
  "probe_target c = map_option (Pair (rc_id c)) (HostLegEndpoint (protoView (rc_endpoints c)))"

definition probe_result :: "(string \<Rightarrow> bool) \<Rightarrow> string \<times> string \<Rightarrow> Pool \<Rightarrow> Pool" where
  "probe_result probe t m =
     (case t of (rid, addr) \<Rightarrow>
        if addr = [] then m
        else case tget (p_conns m) rid of
          None \<Rightarrow> m
        | Some c \<Rightarrow> m\<lparr>p_conns := tput rid
              (c\<lparr>rc_probeFails := (if probe addr then 0 else rc_probeFails c + 1)\<rparr>) (p_conns m)\<rparr>)"

definition probeOnce :: "(string \<Rightarrow> bool) \<Rightarrow> Pool \<Rightarrow> Pool option" where
  "probeOnce probe m =
     (let targets = map (\<lambda>(_, c). probe_target c) (p_conns m)
      in if None \<in> set targets then None
         else Some (fold (probe_result probe) (map the targets) m))"

subsection \<open>Selection lemmas\<close>

lemma least_loaded_in: "least_loaded f64 b cs \<in> set (b # cs)"
  by (induction cs arbitrary: b) auto

lemma least_loaded_min: "c \<in> set (b # cs) \<Longrightarrow> loadNormLocked f64 (least_loaded f64 b cs) \<le> loadNormLocked f64 c"
proof (induction cs arbitrary: b c)
  case (Cons x cs)
  let ?l = "loadNormLocked f64"
  have b: "?l (least_loaded f64 b cs) \<le> ?l b" and x: "?l (least_loaded f64 x cs) \<le> ?l x"
    by (rule Cons.IH, simp)+
  consider "c = b" | "c = x" | "c \<in> set cs" using Cons.prems by auto
  then show ?case
  proof cases
    case 3
    then show ?thesis using Cons.IH [of c b] Cons.IH [of c x] by simp
  qed (use b x in \<open>auto intro: order_trans less_imp_le\<close>)
qed simp

lemma pick_None [simp]: "pick_relay f64 el st = None \<longleftrightarrow> el = []"
  by (auto simp: pick_relay_def split: list.splits option.splits)

lemma pick_in: "pick_relay f64 el st = Some c \<Longrightarrow> c \<in> set el"
  using least_loaded_in [of f64]
  by (fastforce simp: pick_relay_def find_Some_iff split: list.splits option.splits if_splits)

lemma pick_sticky:
  "x \<in> set el \<Longrightarrow> \<exists>c \<in> set el. pick_relay f64 el (Some (rc_id x)) = Some c \<and> rc_id c = rc_id x"
proof -
  assume x: "x \<in> set el"
  then obtain c where c: "find (\<lambda>y. rc_id y = rc_id x) el = Some c"
    by (metis (mono_tags) find_None_iff not_None_eq)
  then have "c \<in> set el" "rc_id c = rc_id x" by (auto simp: find_Some_iff)
  moreover have "pick_relay f64 el (Some (rc_id x)) = Some c"
    using c x by (cases el) (simp_all add: pick_relay_def)
  ultimately show ?thesis by blast
qed

lemma pick_min:
  assumes "pick_relay f64 el st = Some c" "\<And>rid x. st = Some rid \<Longrightarrow> x \<in> set el \<Longrightarrow> rc_id x \<noteq> rid" "x \<in> set el"
  shows "loadNormLocked f64 c \<le> loadNormLocked f64 x"
proof -
  obtain e es where el: "el = e # es" using assms(3) by (cases el) auto
  have "st = Some rid \<Longrightarrow> find (\<lambda>y. rc_id y = rid) el = None" for rid
    using assms(2) by (auto simp: find_None_iff)
  then have "c = least_loaded f64 e es"
    using assms(1) el by (cases st) (auto simp: pick_relay_def)
  then show ?thesis using least_loaded_min assms(3) el by blast
qed

subsection \<open>The system around the pool\<close>

text \<open>Handshakes in progress and the relays an administrator has ever set active.\<close>

record pool_sys =
  sy_pool :: Pool
  sy_pend :: "(nat, handshake) table"
  sy_approved :: "string list"

datatype pool_event =
    PoolRegister nat first_frame bytes string
  | PoolChallenge nat "(string \<times> bytes) option" go_time
  | PoolMsg string nat relay_msg go_time
  | PoolDetach string nat
  | PoolAdmin string string
  | PoolAssign string go_time
  | PoolAssignData string go_time
  | PoolProbe "string list"

definition pool_step ::
  "(bytes \<Rightarrow> string \<Rightarrow> bytes \<Rightarrow> bool) \<Rightarrow> (rat \<Rightarrow> rat) \<Rightarrow> pool_event \<Rightarrow> pool_sys \<Rightarrow> pool_sys" where
  "pool_step verify f64 e s =
     (let m = sy_pool s in
      case e of
        PoolRegister p ff rnd nonce \<Rightarrow>
          (case serveRelay_register p ff rnd nonce m of
             (None, m1) \<Rightarrow> s\<lparr>sy_pool := m1\<rparr>
           | (Some h, m1) \<Rightarrow> s\<lparr>sy_pool := m1, sy_pend := tput p h (sy_pend s)\<rparr>)
      | PoolChallenge p resp now \<Rightarrow>
          (case tget (sy_pend s) p of
             None \<Rightarrow> s
           | Some h \<Rightarrow> s\<lparr>sy_pool := snd (serveRelay_challenge verify p h resp now m), sy_pend := tdel p (sy_pend s)\<rparr>)
      | PoolMsg rid p msg now \<Rightarrow> s\<lparr>sy_pool := serveRelay_msg rid p msg now m\<rparr>
      | PoolDetach rid p \<Rightarrow> s\<lparr>sy_pool := pool_detach rid p m\<rparr>
      | PoolAdmin rid status \<Rightarrow>
          s\<lparr>sy_pool := RelayStatusChanged rid status (SetRelayStatus rid status m),
            sy_approved := (if status = ''active'' then rid # sy_approved s else sy_approved s)\<rparr>
      | PoolAssign node now \<Rightarrow> s\<lparr>sy_pool := snd (Assign f64 node now m)\<rparr>
      | PoolAssignData node now \<Rightarrow> s\<lparr>sy_pool := snd (AssignData f64 node now m)\<rparr>
      | PoolProbe up \<Rightarrow> (case probeOnce (\<lambda>a. a \<in> set up) m of None \<Rightarrow> s | Some m1 \<Rightarrow> s\<lparr>sy_pool := m1\<rparr>))"

type_synonym row_sig = "string \<times> string \<times> string"

definition sigs :: "Pool \<Rightarrow> row_sig list" where
  "sigs m = map (\<lambda>r. (rr_ID r, rr_Pubkey r, rr_Status r)) (p_rows m)"

text \<open>A relay is licensed when an administrator has set it active or its key is on the allow list.\<close>

definition licensed :: "pool_sys \<Rightarrow> string \<Rightarrow> bool" where
  "licensed s rid \<longleftrightarrow> rid \<in> set (sy_approved s)
     \<or> (\<exists>pk st. (rid, pk, st) \<in> set (sigs (sy_pool s)) \<and> pk \<in> set (p_allow (sy_pool s)))"

definition adm_inv :: "pool_sys \<Rightarrow> bool" where
  "adm_inv s \<longleftrightarrow> distinct (map fst (sigs (sy_pool s)))
     \<and> (\<forall>rid pk. (rid, pk, ''active'') \<in> set (sigs (sy_pool s)) \<longrightarrow> licensed s rid)
     \<and> (\<forall>rid c. tget (p_conns (sy_pool s)) rid = Some c \<longrightarrow> rc_id c = rid
          \<and> (rc_status c = ''active'' \<longrightarrow> licensed s rid))
     \<and> (\<forall>p h. tget (sy_pend s) p = Some h \<longrightarrow> hk_status h = ''active'' \<longrightarrow> licensed s (rr_ID (hk_row h)))
     \<and> tok (p_conns (sy_pool s))"

lemma pool_log_sel [simp]:
  "p_rows (pool_log fx m) = p_rows m" "p_conns (pool_log fx m) = p_conns m" "p_allow (pool_log fx m) = p_allow m"
  "p_sticky (pool_log fx m) = p_sticky m" "p_dataSticky (pool_log fx m) = p_dataSticky m"
  "p_fx (pool_log fx m) = p_fx m @ fx" "sigs (pool_log fx m) = sigs m"
  by (simp_all add: pool_log_def sigs_def)

lemma sigs_conns [simp]: "sigs (m\<lparr>p_conns := x\<rparr>) = sigs m" "sigs (m\<lparr>p_sticky := y\<rparr>) = sigs m" "sigs (m\<lparr>p_dataSticky := y\<rparr>) = sigs m"
  by (simp_all add: sigs_def)

text \<open>Operations that leave rows and admissions alone and keep identity and status of each connection.\<close>

definition calm :: "Pool \<Rightarrow> Pool \<Rightarrow> bool" where
  "calm m m' \<longleftrightarrow> sigs m' = sigs m \<and> p_allow m' = p_allow m \<and> (tok (p_conns m) \<longrightarrow> tok (p_conns m'))
     \<and> (\<forall>rid c'. tget (p_conns m') rid = Some c' \<longrightarrow>
          (\<exists>c. tget (p_conns m) rid = Some c \<and> rc_id c' = rc_id c \<and> rc_status c' = rc_status c))"

lemma calm_refl [simp]: "calm m m"
  by (simp add: calm_def)

lemma calm_trans: "calm m m' \<Longrightarrow> calm m' m'' \<Longrightarrow> calm m m''"
  unfolding calm_def by (intro conjI) (simp, simp, simp, metis)

lemma calm_adm: "adm_inv s \<Longrightarrow> calm (sy_pool s) m' \<Longrightarrow> adm_inv (s\<lparr>sy_pool := m'\<rparr>)"
  unfolding adm_inv_def calm_def licensed_def by (auto, metis, metis)

lemma upd_conn_calm:
  "(\<And>c. rc_id (f c) = rc_id c \<and> rc_status (f c) = rc_status c) \<Longrightarrow> calm m (upd_conn rid p f m)"
  by (auto simp: calm_def upd_conn_def split: option.splits if_splits)

lemma calm_log: "calm m m' \<Longrightarrow> calm m (pool_log fx m')"
  by (simp add: calm_def)

lemma msg_calm: "calm m (serveRelay_msg rid p msg now m)"
  by (cases msg) (auto simp: Let_def intro!: calm_log upd_conn_calm split: option.splits)

lemma detach_calm: "calm m (pool_detach rid p m)"
  by (auto simp: calm_def pool_detach_def split: option.splits if_splits)

lemma assign_calm: "calm m (snd (Assign f64 n t m))" "calm m (snd (AssignData f64 n t m))"
  by (simp_all add: Assign_def AssignData_def calm_def Let_def split: option.splits)

lemma probe_result_calm: "calm m (probe_result probe t m)"
  by (auto simp: calm_def probe_result_def split: option.splits prod.splits if_splits)

lemma probe_fold_calm: "calm m (fold (probe_result probe) ts m)"
proof (induction ts arbitrary: m)
  case (Cons t ts)
  show ?case using calm_trans [OF probe_result_calm Cons.IH] by simp
qed simp

lemma probeOnce_calm: "probeOnce probe m = Some m' \<Longrightarrow> calm m m'"
  by (auto simp: probeOnce_def Let_def probe_fold_calm split: if_splits)

subsection \<open>Registration lemmas\<close>

lemma refresh_row_sel [simp]:
  "rr_ID (refresh_row reg r) = rr_ID r" "rr_Pubkey (refresh_row reg r) = rr_Pubkey r"
  "rr_Status (refresh_row reg r) = rr_Status r"
  by (simp_all add: refresh_row_def)

lemma GetRelay_None: "GetRelay rid m = None \<longleftrightarrow> rid \<notin> fst ` set (sigs m)"
  by (force simp: GetRelay_def sigs_def find_None_iff)

lemma upsert_cases:
  assumes "upsertRow rid reg m = (res, m1)"
  obtains (refresh) r where "GetRelayByPubkey (normalizeHex (rg_PublicKey reg)) m = Some r"
      "res = Some (refresh_row reg r)" "sigs m1 = sigs m" "r \<in> set (p_rows m)"
      "p_conns m1 = p_conns m" "p_allow m1 = p_allow m"
  | (clash) "GetRelayByPubkey (normalizeHex (rg_PublicKey reg)) m = None" "res = None" "m1 = m"
  | (insert) r where "GetRelayByPubkey (normalizeHex (rg_PublicKey reg)) m = None"
      "res = Some r" "rr_ID r = rid" "rr_Pubkey r = normalizeHex (rg_PublicKey reg)"
      "rr_Status r = ''pending''" "sigs m1 = sigs m @ [(rid, normalizeHex (rg_PublicKey reg), ''pending'')]"
      "rid \<notin> fst ` set (sigs m)" "p_conns m1 = p_conns m" "p_allow m1 = p_allow m"
proof (cases "GetRelayByPubkey (normalizeHex (rg_PublicKey reg)) m")
  case (Some r)
  then have "r \<in> set (p_rows m)" by (auto simp: GetRelayByPubkey_def find_Some_iff)
  with Some assms show thesis
    by (intro refresh [of r]) (auto simp: upsertRow_def sigs_def Let_def)
next
  case None
  show thesis
  proof (cases "GetRelay rid m")
    case (Some x)
    with None assms show thesis by (intro clash) (auto simp: upsertRow_def Let_def)
  next
    case none2: None
    with None assms show thesis
      by (intro insert [of "the res"]) (auto simp: upsertRow_def Let_def sigs_def GetRelay_None [unfolded sigs_def])
  qed
qed

lemma register_cases:
  assumes "pool_register ff rnd m = (res, m1)"
  obtains (fail) e where "res = Inl e" "m1 = m"
  | (up) reg pub rid fresh row where "upsertRow rid reg m = (Some row, m1)" "res = Inr (reg, pub, row, fresh)"
      "decodePubkey (rg_PublicKey reg) = Some pub"
      "fresh \<longrightarrow> GetRelayByPubkey (normalizeHex (rg_PublicKey reg)) m = None"
      "\<not> fresh \<longrightarrow> GetRelayByPubkey (normalizeHex (rg_PublicKey reg)) m \<noteq> None"
proof (cases ff)
  case (FFRegister reg)
  show thesis
  proof (cases "decodePubkey (rg_PublicKey reg)")
    case None
    with FFRegister assms show thesis by (intro fail) (auto simp: pool_register_def)
  next
    case (Some pub)
    let ?pk = "normalizeHex (rg_PublicKey reg)"
    let ?o = "if rg_RelayID reg \<noteq> [] then GetRelay (rg_RelayID reg) m else None"
    have up': thesis
      if u: "(case upsertRow rid reg m of (None, m1) \<Rightarrow> (Inl ''db'', m1)
               | (Some row, m1) \<Rightarrow> (Inr (reg, pub, row, fresh), m1)) = (res, m1)"
        and k: "fresh \<longleftrightarrow> GetRelayByPubkey ?pk m = None" for rid fresh
    proof (cases "fst (upsertRow rid reg m)")
      case None
      then show thesis
        using u by (intro fail) (auto split: prod.splits elim!: upsert_cases [of rid reg m None])
    next
      case (Some row)
      then show thesis
        using u k \<open>decodePubkey (rg_PublicKey reg) = _\<close>
        by (intro up [of rid reg row pub fresh]) (auto split: prod.splits option.splits)
    qed
    show thesis
    proof (cases ?o)
      case none: None
      show thesis
        using assms up' FFRegister Some none
        by (cases "GetRelayByPubkey ?pk m") (auto simp: pool_register_def Let_def)
    next
      case (Some row)
      show thesis
      proof (cases "rr_Pubkey row = ?pk")
        case True
        have "row \<in> set (p_rows m)"
          using Some by (auto simp: GetRelay_def find_Some_iff split: if_splits)
        with True have "GetRelayByPubkey ?pk m \<noteq> None"
          by (auto simp: GetRelayByPubkey_def find_None_iff)
        then show thesis
          using assms up' [of False "rr_ID row"] FFRegister \<open>decodePubkey _ = Some pub\<close> Some True
          by (simp add: pool_register_def Let_def)
      next
        case False
        then show thesis
          using assms FFRegister \<open>decodePubkey _ = Some pub\<close> Some
          by (intro fail) (auto simp: pool_register_def Let_def)
      qed
    qed
  qed
qed (use assms fail in \<open>auto simp: pool_register_def\<close>)

lemma SetRelayStatus_sel [simp]:
  "p_conns (SetRelayStatus rid st m) = p_conns m" "p_allow (SetRelayStatus rid st m) = p_allow m"
  "sigs (SetRelayStatus rid st m) = map (\<lambda>(i, pk, x). (i, pk, if i = rid then st else x)) (sigs m)"
  by (simp_all add: SetRelayStatus_def sigs_def)

lemma serve_register_cases:
  assumes "serveRelay_register p ff rnd nonce m = (h, m1)"
  obtains (none) "h = None" "m1 = m"
  | (old) h' pk where "h = Some h'" "sigs m1 = sigs m" "p_conns m1 = p_conns m" "p_allow m1 = p_allow m"
      "(rr_ID (hk_row h'), pk, hk_status h') \<in> set (sigs m)"
  | (new) h' pk where "h = Some h'" "p_conns m1 = p_conns m" "p_allow m1 = p_allow m"
      "sigs m1 = sigs m @ [(rr_ID (hk_row h'), pk, hk_status h')]"
      "rr_ID (hk_row h') \<notin> fst ` set (sigs m)" "hk_status h' = ''active'' \<longrightarrow> pk \<in> set (p_allow m)"
proof -
  obtain res m0 where r: "pool_register ff rnd m = (res, m0)" by (cases "pool_register ff rnd m")
  from r show thesis
  proof (cases rule: register_cases)
    case (fail e)
    with assms r show thesis by (intro none) (auto simp: serveRelay_register_def)
  next
    case (up reg pub rid fresh row)
    let ?pk = "normalizeHex (rg_PublicKey reg)"
    from up(1) show thesis
    proof (cases rule: upsert_cases)
      case (refresh r)
      then have "\<not> fresh" "row = refresh_row reg r" using up(4) by auto
      moreover have "(rr_ID r, rr_Pubkey r, rr_Status r) \<in> set (sigs m)"
        using refresh(4) by (auto simp: sigs_def)
      ultimately show thesis
        using assms r up(2) refresh
        by (intro old [of "the h" "rr_Pubkey r"]) (auto simp: serveRelay_register_def Let_def)
    next
      case (insert r)
      then have fr: "fresh" "row = r" using up(5) by auto
      let ?st = "if ?pk \<in> set (p_allow m) then ''active'' else ''pending''"
      let ?h = "\<lparr>hk_reg = reg, hk_pub = pub, hk_row = r, hk_status = ?st, hk_nonce = nonce\<rparr>"
      have keep: "map (\<lambda>(i, pk, x). (i, pk, if i = rid then st else x)) (sigs m) = sigs m" for st
        by (rule map_idI) (use insert(7) in force)
      have h: "h = Some ?h" and m1: "m1 = pool_log [PSend p (PChallenge nonce rid)]
          (if ?st \<noteq> ''pending'' then SetRelayStatus rid ?st m0 else m0)"
        using assms r up(2) insert fr by (auto simp: serveRelay_register_def Let_def cong: if_cong)
      show thesis
      proof (rule new [of ?h ?pk])
        show "sigs m1 = sigs m @ [(rr_ID (hk_row ?h), ?pk, hk_status ?h)]"
          using insert by (simp add: m1 keep)
      qed (use insert h m1 in auto)
    qed simp
  qed
qed

lemma licensed_mono:
  "licensed s rid \<Longrightarrow> set (sy_approved s) \<subseteq> set (sy_approved s') \<Longrightarrow> p_allow (sy_pool s') = p_allow (sy_pool s) \<Longrightarrow>
   (\<And>i pk st. (i, pk, st) \<in> set (sigs (sy_pool s)) \<Longrightarrow> \<exists>st'. (i, pk, st') \<in> set (sigs (sy_pool s'))) \<Longrightarrow> licensed s' rid"
  unfolding licensed_def by (metis subsetD)

lemma adm_invD:
  "adm_inv s \<Longrightarrow> (rid, pk, ''active'') \<in> set (sigs (sy_pool s)) \<Longrightarrow> licensed s rid"
  "adm_inv s \<Longrightarrow> tget (p_conns (sy_pool s)) rid = Some c \<Longrightarrow> rc_id c = rid \<and> (rc_status c = ''active'' \<longrightarrow> licensed s rid)"
  "adm_inv s \<Longrightarrow> tget (sy_pend s) p = Some h \<Longrightarrow> hk_status h = ''active'' \<Longrightarrow> licensed s (rr_ID (hk_row h))"
  unfolding adm_inv_def by blast+

lemma register_adm:
  assumes i: "adm_inv s" and r: "serveRelay_register p ff rnd nonce (sy_pool s) = (h, m1)"
  shows "adm_inv (case h of None \<Rightarrow> s\<lparr>sy_pool := m1\<rparr> | Some h' \<Rightarrow> s\<lparr>sy_pool := m1, sy_pend := tput p h' (sy_pend s)\<rparr>)"
  using r
proof (cases rule: serve_register_cases)
  case none
  then show ?thesis using i by simp
next
  case (old h' pk)
  then have "licensed (s\<lparr>sy_pool := m1, sy_pend := x\<rparr>) rid \<longleftrightarrow> licensed s rid" for x rid
    by (simp add: licensed_def)
  moreover have "hk_status h' = ''active'' \<Longrightarrow> licensed s (rr_ID (hk_row h'))"
    using adm_invD(1) [OF i] old(5) by metis
  ultimately show ?thesis using i old by (auto simp: adm_inv_def)
next
  case (new h' pk)
  let ?s = "s\<lparr>sy_pool := m1, sy_pend := tput p h' (sy_pend s)\<rparr>"
  have mono: "licensed ?s rid" if "licensed s rid" for rid
    by (rule licensed_mono [OF that]) (use new in auto)
  have "licensed ?s (rr_ID (hk_row h'))" if "hk_status h' = ''active''"
    using that new by (auto simp: licensed_def)
  then show ?thesis
    using i new mono by (auto simp: adm_inv_def)
qed

lemma challenge_adm:
  assumes i: "adm_inv s" and h: "tget (sy_pend s) p = Some h"
  shows "adm_inv (s\<lparr>sy_pool := snd (serveRelay_challenge verify p h resp now (sy_pool s)), sy_pend := tdel p (sy_pend s)\<rparr>)"
proof -
  let ?m = "snd (serveRelay_challenge verify p h resp now (sy_pool s))"
  have m: "sigs ?m = sigs (sy_pool s)" "p_allow ?m = p_allow (sy_pool s)"
    "p_conns ?m = p_conns (sy_pool s) \<or> p_conns ?m = tput (rr_ID (hk_row h)) (handshake_conn p h now) (p_conns (sy_pool s))"
    by (auto simp: serveRelay_challenge_def pool_attach_def Let_def handshake_conn_def split: option.splits)
  have "licensed (s\<lparr>sy_pool := ?m, sy_pend := x\<rparr>) rid \<longleftrightarrow> licensed s rid" for x rid
    using m by (simp add: licensed_def)
  moreover have "hk_status h = ''active'' \<Longrightarrow> licensed s (rr_ID (hk_row h))"
    by (rule adm_invD(3) [OF i h])
  ultimately show ?thesis
    using i m by (auto simp: adm_inv_def handshake_conn_def split: if_splits)
qed

lemma admin_adm:
  assumes i: "adm_inv s"
  shows "adm_inv (s\<lparr>sy_pool := RelayStatusChanged rid st (SetRelayStatus rid st (sy_pool s)),
     sy_approved := (if st = ''active'' then rid # sy_approved s else sy_approved s)\<rparr>)" (is "adm_inv ?s")
proof -
  let ?m = "RelayStatusChanged rid st (SetRelayStatus rid st (sy_pool s))"
  have m: "sigs ?m = map (\<lambda>(j, pk, x). (j, pk, if j = rid then st else x)) (sigs (sy_pool s))"
    "p_allow ?m = p_allow (sy_pool s)" "tok (p_conns (sy_pool s)) \<Longrightarrow> tok (p_conns ?m)"
    "tget (p_conns ?m) j = map_option (\<lambda>c. if j = rid then c\<lparr>rc_status := st\<rparr> else c) (tget (p_conns (sy_pool s)) j)" for j
    by (cases "tget (p_conns (sy_pool s)) j"; auto simp: RelayStatusChanged_def Let_def split: option.splits)+
  have mono: "licensed ?s j" if "licensed s j" for j
    by (rule licensed_mono [OF that]) (auto simp: m(1,2) intro: rev_image_eqI)
  have new: "licensed ?s rid" if "st = ''active''"
    using that by (simp add: licensed_def)
  have "distinct (map fst (sigs ?m))"
    using i by (simp add: adm_inv_def m(1) comp_def split_def)
  moreover have "licensed ?s j" if a: "(j, pk, ''active'') \<in> set (sigs ?m)" for j pk
  proof (cases "j = rid")
    case True
    then show ?thesis using a new by (auto simp: m(1))
  next
    case False
    then have "(j, pk, ''active'') \<in> set (sigs (sy_pool s))" using a by (auto simp: m(1))
    then show ?thesis by (intro mono adm_invD(1) [OF i])
  qed
  moreover have "rc_id c = j \<and> (rc_status c = ''active'' \<longrightarrow> licensed ?s j)" if a: "tget (p_conns ?m) j = Some c" for j c
  proof -
    obtain c0 where c0: "tget (p_conns (sy_pool s)) j = Some c0" "c = (if j = rid then c0\<lparr>rc_status := st\<rparr> else c0)"
      using a by (auto simp: m(4))
    show ?thesis
      using c0(2) adm_invD(2) [OF i c0(1)] new mono by (cases "j = rid") auto
  qed
  ultimately show ?thesis
    using i mono m(3) by (auto simp: adm_inv_def)
qed

lemma pool_step_adm: "adm_inv s \<Longrightarrow> adm_inv (pool_step verify f64 e s)"
proof (cases e)
  case (PoolRegister p ff rnd nonce)
  then show "adm_inv s \<Longrightarrow> ?thesis"
    using register_adm [of s p ff rnd nonce]
    by (auto simp: pool_step_def Let_def split: prod.splits option.splits)
next
  case (PoolProbe up)
  then show "adm_inv s \<Longrightarrow> ?thesis"
    by (auto simp: pool_step_def Let_def split: option.splits dest: probeOnce_calm intro: calm_adm)
qed (auto simp: pool_step_def Let_def challenge_adm admin_adm [simplified] msg_calm detach_calm assign_calm
    intro!: calm_adm split: option.splits)

interpretation pool: inv_machine "\<lambda>_ _. True" "pool_step verify f64" adm_inv for verify f64
  by unfold_locales (rule pool_step_adm)

subsection \<open>Properties\<close>

text \<open>Assignment: \<open>Assign\<close> finds a relay iff some connected relay is eligible. The chosen relay is
  eligible; it is the node's sticky relay whenever that one is still eligible, and otherwise no
  eligible relay has a smaller load; the choice becomes the node's sticky relay and no other node's
  changes. \<open>AssignData\<close> chooses only relays with a usable session-data endpoint.\<close>

theorem assign_correct:
  "let el = filter (eligibleLocked now) (map snd (p_conns m)); (res, m') = Assign f64 node now m in
     (res = None) = (el = []) \<and> (res = None \<longrightarrow> m' = m)
     \<and> (\<forall>a. res = Some a \<longrightarrow> (\<exists>c \<in> set el. a = assignmentLocked c \<and> tget (p_sticky m') node = Some (rc_id c)
          \<and> (if \<exists>x \<in> set el. tget (p_sticky m) node = Some (rc_id x)
             then tget (p_sticky m) node = Some (rc_id c)
             else \<forall>x \<in> set el. loadNormLocked f64 c \<le> loadNormLocked f64 x)))
     \<and> (\<forall>n. n \<noteq> node \<longrightarrow> tget (p_sticky m') n = tget (p_sticky m) n) \<and> p_conns m' = p_conns m
     \<and> (\<forall>a. fst (AssignData f64 node now m) = Some a \<longrightarrow> hasSdata (as_Endpoints a))"
proof -
  let ?el = "filter (eligibleLocked now) (map snd (p_conns m))"
  let ?st = "tget (p_sticky m) node"
  have data: "hasSdata (as_Endpoints a)" if "fst (AssignData f64 node now m) = Some a" for a
    using that by (auto simp: AssignData_def Let_def assignmentLocked_def dest: pick_in split: option.splits)
  show ?thesis
  proof (cases "pick_relay f64 ?el ?st")
    case None
    then have "Assign f64 node now m = (None, m)" unfolding Assign_def Let_def by (simp only: option.case)
    moreover have "?el = []" using None by (simp only: pick_None)
    ultimately show ?thesis using data by (simp add: Let_def)
  next
    case (Some c)
    have c: "c \<in> set ?el" by (rule pick_in [OF Some])
    have "?st = Some (rc_id c)" if "x \<in> set ?el" "?st = Some (rc_id x)" for x
      using pick_sticky [OF that(1), of f64] that(2) Some by auto
    moreover have "loadNormLocked f64 c \<le> loadNormLocked f64 x"
      if "\<not> (\<exists>x \<in> set ?el. ?st = Some (rc_id x))" "x \<in> set ?el" for x
      by (rule pick_min [OF Some _ that(2)]) (use that(1) in auto)
    ultimately have best: "if \<exists>x \<in> set ?el. ?st = Some (rc_id x) then ?st = Some (rc_id c)
        else \<forall>x \<in> set ?el. loadNormLocked f64 c \<le> loadNormLocked f64 x"
      unfolding if_bool_eq_conj by blast
    have A: "Assign f64 node now m = (Some (assignmentLocked c),
        if ?st = Some (rc_id c) then m else m\<lparr>p_sticky := tput node (rc_id c) (p_sticky m)\<rparr>)"
      using Some by (simp add: Assign_def Let_def)
    have ne: "?el \<noteq> []" using c by (intro notI) (simp only: list.set empty_iff)
    let ?m' = "if ?st = Some (rc_id c) then m else m\<lparr>p_sticky := tput node (rc_id c) (p_sticky m)\<rparr>"
    have m': "tget (p_sticky ?m') node = Some (rc_id c)" "p_conns ?m' = p_conns m"
      "n \<noteq> node \<Longrightarrow> tget (p_sticky ?m') n = tget (p_sticky m) n" for n by simp_all
    have "\<exists>d \<in> set ?el. a = assignmentLocked d \<and> tget (p_sticky ?m') node = Some (rc_id d)
          \<and> (if \<exists>x \<in> set ?el. ?st = Some (rc_id x) then ?st = Some (rc_id d)
             else \<forall>x \<in> set ?el. loadNormLocked f64 d \<le> loadNormLocked f64 x)" if "Some (assignmentLocked c) = Some a" for a
      using that m'(1) best by (intro bexI [OF _ c]) (simp only: option.inject simp_thms)
    then show ?thesis
      unfolding A Let_def prod.case using ne data m'(2,3) by (intro conjI allI impI) (blast | simp only: option.distinct)+
  qed
qed

definition demo_conn :: "string \<Rightarrow> int \<Rightarrow> relayConn" where
  "demo_conn rid load = \<lparr>rc_ptr = 1, rc_id = rid, rc_status = ''active'', rc_region = [], rc_maxSess = 10, rc_maxMbps = 0,
     rc_endpoints = [], rc_lastBeat = 0, rc_stats = \<lparr>st_Sessions = load, st_Viewers = 0, st_ActiveSids = []\<rparr>,
     rc_liveSess = 0, rc_probeFails = 0, rc_drift = 0\<rparr>"

theorem assign_correct_witness:
  "let m = (pool_New [] [] [])\<lparr>p_conns := [(''a'', demo_conn ''a'' 7), (''b'', demo_conn ''b'' 2)]\<rparr>
   in \<exists>c \<in> set (map snd (p_conns m)). fst (Assign (\<lambda>x. x) ''n'' 5 m) = Some (assignmentLocked c)
        \<and> loadNormLocked (\<lambda>x. x) c \<le> loadNormLocked (\<lambda>x. x) (demo_conn ''b'' 2)"
  using assign_correct [of 5 "(pool_New [] [] [])\<lparr>p_conns := [(''a'', demo_conn ''a'' 7), (''b'', demo_conn ''b'' 2)]\<rparr>"
      "\<lambda>x. x" "''n''"]
  by (auto simp: pool_New_def demo_conn_def eligibleLocked_def driftLimit_def heartbeatWait_def time_Sub_def
      maxDuration_def minDuration_def Let_def split: prod.splits)

text \<open>C7. Admission: a relay is never given a session unless its key is on the allow list or an
  administrator has set it active. Over every interleaving of registrations, challenge answers,
  messages, disconnects, status changes, assignments and probes, from a server start with a relays
  table in which only such relays are active, every relay returned by \<open>Assign\<close> or \<open>AssignData\<close> is
  licensed.\<close>

theorem pool_admission:
  assumes "distinct (map rr_ID rows)"
    and "\<forall>r \<in> set rows. rr_Status r = ''active'' \<longrightarrow> rr_ID r \<in> set approved \<or> rr_Pubkey r \<in> set (map normalizeHex allowlist)"
    and "s = fold (pool_step verify f64) es
        \<lparr>sy_pool = pool_New allowlist pubkey rows, sy_pend = [], sy_approved = approved\<rparr>"
    and "fst (Assign f64 node now (sy_pool s)) = Some a \<or> fst (AssignData f64 node now (sy_pool s)) = Some a"
  shows "licensed s (as_RelayID a)"
proof -
  let ?s0 = "\<lparr>sy_pool = pool_New allowlist pubkey rows, sy_pend = [], sy_approved = approved\<rparr>"
  have "licensed ?s0 (rr_ID r)" if "r \<in> set rows" "rr_Status r = ''active''" for r
  proof -
    have "(rr_ID r, rr_Pubkey r, rr_Status r) \<in> set (sigs (sy_pool ?s0))"
      using that(1) by (auto simp: sigs_def pool_New_def)
    moreover have "rr_ID r \<in> set approved \<or> rr_Pubkey r \<in> set (p_allow (sy_pool ?s0))"
      using assms(2) that by (auto simp: pool_New_def)
    ultimately show ?thesis unfolding licensed_def by auto
  qed
  then have "adm_inv ?s0"
    using assms(1) by (auto simp: adm_inv_def sigs_def pool_New_def comp_def)
  then have i: "adm_inv s"
    unfolding assms(3) by (rule pool.run_inv) simp
  obtain rid c where c: "(rid, c) \<in> set (p_conns (sy_pool s))" "eligibleLocked now c" "a = assignmentLocked c"
    using assms(4)
    by (auto simp: Assign_def AssignData_def Let_def dest!: pick_in split: option.splits)
  then have "tget (p_conns (sy_pool s)) rid = Some c"
    using i by (simp add: adm_inv_def tget_in_set)
  then show ?thesis
    using adm_invD(2) [OF i] c(2,3) by (auto simp: eligibleLocked_def assignmentLocked_def split: if_splits)
qed

definition zero_key :: string where "zero_key = replicate 64 CHR ''0''"

definition demo_reg_msg :: "string \<Rightarrow> int \<Rightarrow> RelayRegister" where
  "demo_reg_msg rid port = \<lparr>rg_RelayID = rid, rg_PublicKey = zero_key, rg_Region = [],
     rg_Endpoints = [\<lparr>ep_Transport = ''quic'', ep_Host = ''h'', ep_Port = port, ep_ALPN = [], ep_Path = [],
       ep_CertSHA256 = [], ep_RelayID = [], ep_Region = [], ep_DisplayHost = []\<rparr>],
     rg_MaxSessions = 0, rg_MaxMbpsOut = 0, rg_Version = [], rg_ClockUnix = 0\<rparr>"

definition demo_row :: "string \<Rightarrow> relay_row" where
  "demo_row st = \<lparr>rr_ID = ''rl-1'', rr_Pubkey = zero_key, rr_Region = [], rr_Endpoints = [], rr_MaxSessions = 0,
     rr_MaxMbpsOut = 0, rr_Version = [], rr_Status = st\<rparr>"

definition demo_sys :: "pool_event list \<Rightarrow> pool_sys" where
  "demo_sys es = fold (pool_step (\<lambda>_ _ _. True) (\<lambda>x. x)) es
     \<lparr>sy_pool = pool_New [] [] [demo_row ''active''], sy_pend = [], sy_approved = [''rl-1'']\<rparr>"

definition demo_join :: "pool_event list" where
  "demo_join = [PoolRegister 1 (FFRegister (demo_reg_msg ''rl-1'' 4433)) [] ''nonce'',
     PoolChallenge 1 (Some (''rl-1'', [])) 0]"

lemma demo_join_assigned:
  "fst (Assign (\<lambda>x. x) ''n'' 1 (sy_pool (demo_sys demo_join))) \<noteq> None"
  by code_simp

theorem pool_admission_witness:
  "licensed (demo_sys demo_join) (as_RelayID (the (fst (Assign (\<lambda>x. x) ''n'' 1 (sy_pool (demo_sys demo_join))))))"
  by (rule pool_admission [of "[demo_row ''active'']" "[''rl-1'']" "[]" "demo_sys demo_join"
        "\<lambda>_ _ _. True" "\<lambda>x. x" demo_join "[]" "''n''" 1])
    (use demo_join_assigned in \<open>auto simp: demo_sys_def demo_row_def\<close>)

text \<open>A status change between registration and the answered challenge is lost: the connection keeps
  the status that was read at registration. A relay that is retired while it reconnects is attached as
  active and gets sessions, although its row says retired.\<close>

theorem retired_relay_assigned:
  "let s = demo_sys [PoolRegister 1 (FFRegister (demo_reg_msg ''rl-1'' 4433)) [] ''nonce'',
        PoolAdmin ''rl-1'' ''retired'', PoolChallenge 1 (Some (''rl-1'', [])) 0]
   in map_option rr_Status (GetRelay ''rl-1'' (sy_pool s)) = Some ''retired''
     \<and> map_option as_RelayID (fst (Assign (\<lambda>x. x) ''n'' 1 (sy_pool s))) = Some ''rl-1''"
  by code_simp

text \<open>The host-leg probe: one round changes only failure counters (a success clears, a failure
  increments), and it panics iff the first usable \<open>quic\<close> endpoint of some connected relay, approved or
  not, has a port of \<open>10^8\<close> or more.\<close>

theorem probe_panics:
  "(probeOnce probe m = None) = (\<exists>(rid, c) \<in> set (p_conns m). \<exists>e.
      find (\<lambda>e. ep_Transport e = ''quic'' \<and> ep_Host e \<noteq> []) (rc_endpoints c) = Some e \<and> ep_Port e \<ge> 10 ^ 8)
   \<and> (\<forall>m'. probeOnce probe m = Some m' \<longrightarrow> sigs m' = sigs m \<and> p_sticky m' = p_sticky m)"
proof -
  have ep: "HostLegEndpoint (protoView eps) = None \<longleftrightarrow>
      (\<exists>e. find (\<lambda>e. ep_Transport e = ''quic'' \<and> ep_Host e \<noteq> []) eps = Some e \<and> ep_Port e \<ge> 10 ^ 8)" for eps
    by (induction eps) (auto simp: protoView_def rtv_itoa_exact)
  have t: "probe_target c = None \<longleftrightarrow> HostLegEndpoint (protoView (rc_endpoints c)) = None" for c
    by (simp add: probe_target_def)
  have st: "p_sticky (fold (probe_result probe) ts x) = p_sticky x" for ts x
    by (induction ts arbitrary: x) (auto simp: probe_result_def split: option.splits)
  have "(probeOnce probe m = None) = (\<exists>(rid, c) \<in> set (p_conns m). probe_target c = None)"
    by (simp add: probeOnce_def Let_def image_iff split_beta eq_commute [of None])
  moreover have "sigs m' = sigs m \<and> p_sticky m' = p_sticky m" if "probeOnce probe m = Some m'" for m'
    using probeOnce_calm [OF that] that st by (auto simp: calm_def probeOnce_def Let_def split: if_splits)
  ultimately show ?thesis unfolding t ep by blast
qed

theorem probe_panics_witness:
  "probeOnce (\<lambda>_. True) ((pool_New [] [] [])\<lparr>p_conns := [(''a'', (demo_conn ''a'' 0)\<lparr>rc_endpoints := rg_Endpoints (demo_reg_msg [] 4294967296)\<rparr>)]\<rparr>) = None"
  using probe_panics [of "\<lambda>_. True" "(pool_New [] [] [])\<lparr>p_conns := [(''a'', (demo_conn ''a'' 0)\<lparr>rc_endpoints := rg_Endpoints (demo_reg_msg [] 4294967296)\<rparr>)]\<rparr>"]
  by (simp add: pool_New_def demo_reg_msg_def)

end
