(* ===== verification/Session_Router.thy ===== *)
theory Session_Router
  imports Hub Relay_Pool
begin

text \<open>
  The stand-alone relay process: the session-data router (\<open>src/relay/cmd/xnc-relay/sessions.go\<close>) that
  glues the agent leg and the client leg of exec, shell, file and tunnel sessions, and from
  \<open>main.go\<close> the control messages of the server, the reconnect back-off, the statistics tick, the
  registered endpoints and the certificate rotation. A WebSocket is its number. A \<open>*dataSession\<close> that
  has left the table was closed when it left (\<open>closeOnce\<close>), so what its pump goroutines still do has no
  effect; \<open>ds_ptr\<close> tells two sessions with the same id apart. \<open>sr_fx\<close> logs what the router does.
\<close>

subsection \<open>Router\<close>

record dataSession =
  ds_ptr :: nat
  ds_sid :: string
  ds_nodeID :: string
  ds_agent :: "nat option"
  ds_clnt :: "nat option"
  ds_glued :: bool

datatype router_fx =
    RCloseNow nat
  | RRefuse nat
  | RPump string nat
  | RReport string string string

record sessionRouter =
  sr_sessions :: "(string, dataSession) table"
  sr_next :: nat
  sr_closed :: bool
  sr_fx :: "router_fx list"

definition newSessionRouter :: sessionRouter where
  "newSessionRouter = \<lparr>sr_sessions = [], sr_next = 0, sr_closed = False, sr_fx = []\<rparr>"

definition router_log :: "router_fx list \<Rightarrow> sessionRouter \<Rightarrow> sessionRouter" where
  "router_log fx r = r\<lparr>sr_fx := sr_fx r @ fx\<rparr>"

definition verifyLeg ::
  "ticket_lib \<Rightarrow> string \<Rightarrow> string \<Rightarrow> string \<Rightarrow> string \<Rightarrow> go_time \<Rightarrow> Verifier \<Rightarrow> (api_error + Ticket) \<times> Verifier" where
  "verifyLeg L rid token pathSID sub now v =
     (if rid = [] then (Inl (proto_Err 503 ''INTERNAL'' ''relay not registered yet''), v)
      else case Verify L now token v of
        (Inl _, v') \<Rightarrow> (Inl (proto_Err 401 ''UNAUTHORIZED'' ''invalid session ticket''), v')
      | (Inr tk, v') \<Rightarrow>
          if tk_Typ tk \<noteq> TicketSessionData \<or> tk_RelayID tk \<noteq> rid \<or> tk_SessionID tk = [] \<or> tk_NodeID tk = []
          then (Inl (proto_Err 401 ''UNAUTHORIZED'' ''invalid session ticket''), v')
          else if tk_Name tk \<noteq> sub then (Inl (proto_Err 401 ''UNAUTHORIZED'' ''ticket side mismatch''), v')
          else if pathSID \<noteq> [] \<and> pathSID \<noteq> tk_SessionID tk
          then (Inl (proto_Err 401 ''UNAUTHORIZED'' ''session mismatch''), v')
          else (Inr tk, v'))"

definition reportClosed :: "string \<Rightarrow> string \<Rightarrow> string \<Rightarrow> sessionRouter \<Rightarrow> sessionRouter" where
  "reportClosed sid nodeID reason r = (if sr_closed r then router_log [RReport sid nodeID reason] r else r)"

definition close_legs :: "dataSession \<Rightarrow> router_fx list" where
  "close_legs s = (case ds_agent s of None \<Rightarrow> [] | Some c \<Rightarrow> [RCloseNow c])
     @ (case ds_clnt s of None \<Rightarrow> [] | Some c \<Rightarrow> [RCloseNow c])"

definition router_attach :: "string \<Rightarrow> Ticket \<Rightarrow> nat \<Rightarrow> sessionRouter \<Rightarrow> sessionRouter" where
  "router_attach side tk c r =
     (let sid = tk_SessionID tk;
          (s, r1) = (case tget (sr_sessions r) sid of
              Some s \<Rightarrow> (s, r)
            | None \<Rightarrow> (\<lparr>ds_ptr = sr_next r, ds_sid = sid, ds_nodeID = tk_NodeID tk, ds_agent = None,
                        ds_clnt = None, ds_glued = False\<rparr>, r\<lparr>sr_next := sr_next r + 1\<rparr>))
      in if (if side = ''agent'' then ds_agent s else ds_clnt s) \<noteq> None
         then router_log [RRefuse c] (r1\<lparr>sr_sessions := tput sid s (sr_sessions r1)\<rparr>)
         else
           let s1 = (if side = ''agent'' then s\<lparr>ds_agent := Some c\<rparr> else s\<lparr>ds_clnt := Some c\<rparr>);
               glue = (ds_agent s1 \<noteq> None \<and> ds_clnt s1 \<noteq> None \<and> \<not> ds_glued s1);
               s2 = (if glue then s1\<lparr>ds_glued := True\<rparr> else s1);
               r2 = r1\<lparr>sr_sessions := tput sid s2 (sr_sessions r1)\<rparr>
           in if glue then router_log [RPump sid (ds_ptr s2)] r2 else r2)"

definition expireUnjoined :: "string \<Rightarrow> sessionRouter \<Rightarrow> sessionRouter" where
  "expireUnjoined sid r =
     (case tget (sr_sessions r) sid of
        None \<Rightarrow> r
      | Some s \<Rightarrow>
          if ds_glued s then r
          else router_log (close_legs s)
                 (reportClosed sid (ds_nodeID s) ''opening-timeout'' (r\<lparr>sr_sessions := tdel sid (sr_sessions r)\<rparr>)))"

text \<open>The end of a pump: one direction has returned.\<close>

definition pump_done :: "string \<Rightarrow> nat \<Rightarrow> sessionRouter \<Rightarrow> sessionRouter" where
  "pump_done sid p r =
     (case tget (sr_sessions r) sid of
        None \<Rightarrow> r
      | Some s \<Rightarrow>
          if ds_ptr s \<noteq> p then r
          else router_log (close_legs s)
                 (reportClosed sid (ds_nodeID s) ''peer-disconnect'' (r\<lparr>sr_sessions := tdel sid (sr_sessions r)\<rparr>)))"

definition router_Kill :: "string \<Rightarrow> sessionRouter \<Rightarrow> sessionRouter" where
  "router_Kill sid r =
     (case tget (sr_sessions r) sid of
        None \<Rightarrow> r
      | Some s \<Rightarrow> router_log (close_legs s) (r\<lparr>sr_sessions := tdel sid (sr_sessions r)\<rparr>))"

definition ActiveSids :: "sessionRouter \<Rightarrow> string list" where
  "ActiveSids r = tkeys (sr_sessions r)"

subsection \<open>The relay process\<close>

definition HostALPN :: string where "HostALPN = ''xnc-host/1''"

record endpointConfig =
  ec_publicHost :: string
  ec_wtPort :: int
  ec_hostPort :: int
  ec_wsPort :: int
  ec_sessionHost :: string
  ec_sessionPort :: int
  ec_httpLeg :: bool
  ec_certSHA :: string

definition ep :: "string \<Rightarrow> string \<Rightarrow> int \<Rightarrow> EndpointDesc" where
  "ep t h p = \<lparr>ep_Transport = t, ep_Host = h, ep_Port = p, ep_ALPN = [], ep_Path = [], ep_CertSHA256 = [],
     ep_RelayID = [], ep_Region = [], ep_DisplayHost = []\<rparr>"

definition ec_build :: "endpointConfig \<Rightarrow> EndpointDesc list" where
  "ec_build c =
     (let eps = [(ep ''wt'' (ec_publicHost c) (ec_wtPort c))\<lparr>ep_Path := ''/wt'', ep_CertSHA256 := ec_certSHA c\<rparr>,
                 (ep ''quic'' (ec_publicHost c) (ec_hostPort c))\<lparr>ep_ALPN := HostALPN\<rparr>]
      in if \<not> ec_httpLeg c then eps
         else eps
           @ (if ec_sessionHost c \<noteq> [] then [(ep ''ws'' (ec_sessionHost c) (ec_wsPort c))\<lparr>ep_Path := ''/ws''\<rparr>] else [])
           @ [(ep ''ws'' (ec_publicHost c) (ec_wsPort c))\<lparr>ep_Path := ''/ws''\<rparr>]
           @ (if ec_sessionHost c \<noteq> [] then [ep ''sdata'' (ec_sessionHost c) (ec_sessionPort c)] else []))"

text \<open>Back-off before the next control session, and after \<open>n\<close> sessions.\<close>

definition next_backoff :: "duration \<Rightarrow> duration" where
  "next_backoff b = (let b2 = b * 2 in if b2 > 30 * Second then 30 * Second else b2)"

definition backoff_after :: "nat \<Rightarrow> duration" where
  "backoff_after n = (next_backoff ^^ n) (2 * Second)"

text \<open>Challenge handling of a control session: the relay id it goes on with, or an error.\<close>

definition adopt_relay_id :: "string \<Rightarrow> string \<Rightarrow> string option" where
  "adopt_relay_id relayID challengeID =
     (if challengeID \<noteq> [] \<and> challengeID \<noteq> relayID then
        (if relayID \<noteq> [] then None else Some challengeID)
      else Some relayID)"

datatype control_msg =
    CRelayConfig "string list"
  | CSessionKill string string
  | CSessionGrant string string string
  | CHeartbeatAck
  | CError
  | CUndecodable

record relay_proc =
  rp_verifier :: Verifier
  rp_hub :: Hub
  rp_router :: sessionRouter

fun control_step :: "control_msg \<Rightarrow> go_time \<Rightarrow> relay_proc \<Rightarrow> relay_proc" where
  "control_step (CRelayConfig ks) now s =
     (if ks \<noteq> [] then s\<lparr>rp_verifier := snd (SetKeys ks (rp_verifier s))\<rparr> else s)"
| "control_step (CSessionKill node sid) now s =
     (let (v, g) = KillSession node sid now (rp_verifier s, rp_hub s)
      in s\<lparr>rp_verifier := v, rp_hub := g, rp_router := router_Kill sid (rp_router s)\<rparr>)"
| "control_step (CSessionGrant node sid holder) now s =
     s\<lparr>rp_hub := (rp_hub s)\<lparr>g_arbiter := snd (arb_Grant node sid holder now (g_arbiter (rp_hub s)))\<rparr>\<rparr>"
| "control_step _ now s = s"

text \<open>One statistics tick: counters of the registered hosts, and the byte differences to the last tick,
  computed on \<open>uint64\<close> values.\<close>

record relay_report =
  rs_Sessions :: nat
  rs_Viewers :: nat
  rs_rxDelta :: "64 word"
  rs_txDelta :: "64 word"
  rs_ActiveSids :: "string list"

definition registered_hosts :: "Hub \<Rightarrow> HostSession list" where
  "registered_hosts g = List.map_filter (\<lambda>(_, p). tget (g_heap g) p) (g_hosts g)"

definition stats_tick :: "64 word \<Rightarrow> 64 word \<Rightarrow> relay_proc \<Rightarrow> relay_report \<times> 64 word \<times> 64 word" where
  "stats_tick lastRx lastTx s =
     (let hs = registered_hosts (rp_hub s);
          rx = sum_list (map hs_rxBytes hs); tx = sum_list (map hs_txBytes hs)
      in (\<lparr>rs_Sessions = length hs, rs_Viewers = sum_list (map (\<lambda>h. length (hs_viewers h)) hs),
           rs_rxDelta = rx - lastRx, rs_txDelta = tx - lastTx,
           rs_ActiveSids = tkeys (ActiveSessions (rp_hub s)) @ ActiveSids (rp_router s)\<rparr>, rx, tx))"

subsection \<open>Certificate rotation\<close>

text \<open>A certificate is its end of validity and fingerprint. \<open>cm_gen\<close> counts the \<open>changed\<close> channels
  closed so far; \<open>mk\<close> is the outcome of generating and storing a new certificate, \<open>None\<close> on failure.
  The end of validity in a certificate has a resolution of seconds.\<close>

record certManager =
  cm_cert :: "(go_time \<times> string) option"
  cm_gen :: nat

definition certRenewBefore :: duration where "certRenewBefore = 24 * Hour"

definition cert_expiresIn :: "go_time \<Rightarrow> certManager \<Rightarrow> duration" where
  "cert_expiresIn now m = (case cm_cert m of None \<Rightarrow> 0 | Some (notAfter, _) \<Rightarrow> time_Sub notAfter now)"

definition cert_rotate :: "(go_time \<Rightarrow> string option) \<Rightarrow> go_time \<Rightarrow> certManager \<Rightarrow> certManager" where
  "cert_rotate mk now m =
     (case mk now of
        None \<Rightarrow> m
      | Some sha \<Rightarrow> m\<lparr>cm_cert := Some (time_of_Unix (time_Unix (now + 7 * 24 * Hour)), sha), cm_gen := cm_gen m + 1\<rparr>)"

definition cert_watch :: "(go_time \<Rightarrow> string option) \<Rightarrow> go_time \<Rightarrow> certManager \<Rightarrow> certManager" where
  "cert_watch mk now m = (if cert_expiresIn now m < certRenewBefore then cert_rotate mk now m else m)"

definition newCertManager :: "(go_time \<times> string) option \<Rightarrow> (go_time \<Rightarrow> string option) \<Rightarrow> go_time \<Rightarrow> certManager" where
  "newCertManager disk mk now =
     (case disk of
        Some (notAfter, sha) \<Rightarrow>
          if time_Sub notAfter now > certRenewBefore then \<lparr>cm_cert = Some (notAfter, sha), cm_gen = 0\<rparr>
          else cert_rotate mk now \<lparr>cm_cert = None, cm_gen = 0\<rparr>
      | None \<Rightarrow> cert_rotate mk now \<lparr>cm_cert = None, cm_gen = 0\<rparr>)"

subsection \<open>Runs of the router\<close>

datatype router_event =
    RAttach string Ticket nat
  | RExpire string
  | RPumpDone string nat
  | RKill string
  | RControl bool

fun router_step :: "router_event \<Rightarrow> sessionRouter \<Rightarrow> sessionRouter" where
  "router_step (RAttach side tk c) r = router_attach side tk c r"
| "router_step (RExpire sid) r = expireUnjoined sid r"
| "router_step (RPumpDone sid p) r = pump_done sid p r"
| "router_step (RKill sid) r = router_Kill sid r"
| "router_step (RControl up) r = r\<lparr>sr_closed := up\<rparr>"

lemma router_log_sel [simp]:
  "sr_sessions (router_log fx r) = sr_sessions r" "sr_fx (router_log fx r) = sr_fx r @ fx"
  "sr_next (router_log fx r) = sr_next r" "sr_closed (router_log fx r) = sr_closed r"
  by (simp_all add: router_log_def)

lemma reportClosed_sel [simp]:
  "sr_sessions (reportClosed a b c r) = sr_sessions r" "sr_next (reportClosed a b c r) = sr_next r"
  "set (sr_fx r) \<subseteq> set (sr_fx (reportClosed a b c r))"
  by (auto simp: reportClosed_def)

definition has_leg :: "nat \<Rightarrow> dataSession \<Rightarrow> bool" where
  "has_leg c s \<longleftrightarrow> ds_agent s = Some c \<or> ds_clnt s = Some c"

text \<open>A connection is accounted for when it is a leg of a session in the table or has been closed.\<close>

definition accounted :: "nat \<Rightarrow> sessionRouter \<Rightarrow> bool" where
  "accounted c r \<longleftrightarrow> (\<exists>sid s. tget (sr_sessions r) sid = Some s \<and> has_leg c s)
     \<or> RCloseNow c \<in> set (sr_fx r) \<or> RRefuse c \<in> set (sr_fx r)"

lemma has_leg_closed: "has_leg c s \<Longrightarrow> RCloseNow c \<in> set (close_legs s)"
  by (auto simp: has_leg_def close_legs_def)

lemma removal_accounted:
  assumes "accounted c r" "tget (sr_sessions r) sid = Some s"
    and "sr_sessions r' = tdel sid (sr_sessions r)" "set (sr_fx r) \<union> set (close_legs s) \<subseteq> set (sr_fx r')"
  shows "accounted c r'"
proof -
  consider j t where "tget (sr_sessions r) j = Some t" "has_leg c t" | "RCloseNow c \<in> set (sr_fx r)" | "RRefuse c \<in> set (sr_fx r)"
    using assms(1) by (auto simp: accounted_def)
  then show ?thesis
  proof cases
    case (1 j t)
    then show ?thesis
      using assms(2-4) has_leg_closed [of c s] by (cases "j = sid") (auto simp: accounted_def)
  qed (use assms(4) in \<open>auto simp: accounted_def\<close>)
qed

lemma removed_fx: "set (sr_fx r) \<union> set cl \<subseteq> set (sr_fx (router_log cl (reportClosed a b d (r\<lparr>sr_sessions := x\<rparr>))))"
  "set (sr_fx r) \<union> set cl \<subseteq> set (sr_fx (router_log cl (r\<lparr>sr_sessions := x\<rparr>)))"
  by (auto simp: reportClosed_def)

definition attach_slot :: "Ticket \<Rightarrow> sessionRouter \<Rightarrow> dataSession" where
  "attach_slot tk r = (case tget (sr_sessions r) (tk_SessionID tk) of
      Some s \<Rightarrow> s
    | None \<Rightarrow> \<lparr>ds_ptr = sr_next r, ds_sid = tk_SessionID tk, ds_nodeID = tk_NodeID tk, ds_agent = None,
               ds_clnt = None, ds_glued = False\<rparr>)"

definition attach_leg :: "string \<Rightarrow> nat \<Rightarrow> dataSession \<Rightarrow> dataSession" where
  "attach_leg side c s =
     (let s1 = (if side = ''agent'' then s\<lparr>ds_agent := Some c\<rparr> else s\<lparr>ds_clnt := Some c\<rparr>)
      in if ds_agent s1 \<noteq> None \<and> ds_clnt s1 \<noteq> None \<and> \<not> ds_glued s1 then s1\<lparr>ds_glued := True\<rparr> else s1)"

lemma attach_cases:
  obtains (refused) "(if side = ''agent'' then ds_agent (attach_slot tk r) else ds_clnt (attach_slot tk r)) \<noteq> None"
      "sr_sessions (router_attach side tk c r) = tput (tk_SessionID tk) (attach_slot tk r) (sr_sessions r)"
      "sr_fx (router_attach side tk c r) = sr_fx r @ [RRefuse c]"
  | (joined) fx where "(if side = ''agent'' then ds_agent (attach_slot tk r) else ds_clnt (attach_slot tk r)) = None"
      "sr_sessions (router_attach side tk c r) = tput (tk_SessionID tk) (attach_leg side c (attach_slot tk r)) (sr_sessions r)"
      "sr_fx (router_attach side tk c r) = sr_fx r @ fx"
proof (cases "(if side = ''agent'' then ds_agent (attach_slot tk r) else ds_clnt (attach_slot tk r)) = None")
  case True
  then show thesis
    by (intro joined [of "drop (length (sr_fx r)) (sr_fx (router_attach side tk c r))"])
      (auto simp: router_attach_def attach_slot_def attach_leg_def Let_def split: option.splits)
next
  case False
  then show thesis
    by (intro refused) (auto simp: router_attach_def attach_slot_def Let_def split: option.splits)
qed

lemma attach_keeps_leg: "(if side = ''agent'' then ds_agent s else ds_clnt s) = None \<Longrightarrow> has_leg x s \<Longrightarrow> has_leg x (attach_leg side c s)"
  by (auto simp: has_leg_def attach_leg_def Let_def split: if_splits)

lemma attach_adds_leg: "has_leg c (attach_leg side c s)"
  by (auto simp: has_leg_def attach_leg_def Let_def)

lemma attach_slot_get: "tget (sr_sessions r) (tk_SessionID tk) = Some s \<Longrightarrow> attach_slot tk r = s"
  by (simp add: attach_slot_def)

lemma put_accounted:
  assumes "accounted x r" "sr_sessions r' = tput (tk_SessionID tk) t (sr_sessions r)" "sr_fx r' = sr_fx r @ fx"
    and "has_leg x (attach_slot tk r) \<Longrightarrow> has_leg x t"
  shows "accounted x r'"
proof -
  consider sid s where "tget (sr_sessions r) sid = Some s" "has_leg x s" | "RCloseNow x \<in> set (sr_fx r)" | "RRefuse x \<in> set (sr_fx r)"
    using assms(1) by (auto simp: accounted_def)
  then show ?thesis
  proof cases
    case (1 sid s)
    have "tget (sr_sessions r') sid = Some (if sid = tk_SessionID tk then t else s)"
      using 1 assms(2) by simp
    moreover have "has_leg x (if sid = tk_SessionID tk then t else s)"
      using 1 assms(4) attach_slot_get [of r tk s] by (cases "sid = tk_SessionID tk") simp_all
    ultimately show ?thesis unfolding accounted_def by blast
  qed (use assms(3) in \<open>auto simp: accounted_def\<close>)
qed

lemma attach_accounted: "accounted x r \<Longrightarrow> accounted x (router_attach side tk c r)"
  by (cases rule: attach_cases [of side tk r c])
    (auto elim!: put_accounted dest: attach_keeps_leg)

lemma attach_accounts: "accounted c (router_attach side tk c r)"
proof (cases rule: attach_cases [of side tk r c])
  case (joined fx)
  then show ?thesis using attach_adds_leg by (auto simp: accounted_def)
qed (auto simp: accounted_def)

interpretation leg: inv_machine "\<lambda>_ _. True" router_step "accounted c" for c
proof unfold_locales
  show "accounted c (router_step e r)" if a: "accounted c r" for r e
  proof (cases e)
    case (RExpire sid)
    then show ?thesis
      using a removal_accounted [OF a, of sid, OF _ _ removed_fx(1)]
      by (auto simp: expireUnjoined_def split: option.splits)
  next
    case (RPumpDone sid p)
    then show ?thesis
      using a removal_accounted [OF a, of sid, OF _ _ removed_fx(1)]
      by (auto simp: pump_done_def split: option.splits)
  next
    case (RKill sid)
    then show ?thesis
      using a removal_accounted [OF a, of sid, OF _ _ removed_fx(2)]
      by (auto simp: router_Kill_def split: option.splits)
  qed (use a in \<open>auto simp: attach_accounted\<close>, simp add: accounted_def)
qed

text \<open>Well-formed tables: sessions sit under their id, and a session is glued iff both legs are there.\<close>

definition router_inv :: "sessionRouter \<Rightarrow> bool" where
  "router_inv r \<longleftrightarrow> (\<forall>sid s. tget (sr_sessions r) sid = Some s \<longrightarrow> ds_sid s = sid
     \<and> ds_glued s = (ds_agent s \<noteq> None \<and> ds_clnt s \<noteq> None) \<and> (ds_agent s \<noteq> None \<or> ds_clnt s \<noteq> None))"

lemma router_attach_inv: "router_inv r \<Longrightarrow> router_inv (router_attach side tk c r)"
proof -
  assume i: "router_inv r"
  let ?s = "attach_slot tk r"
  have s: "ds_sid ?s = tk_SessionID tk" "ds_glued ?s = (ds_agent ?s \<noteq> None \<and> ds_clnt ?s \<noteq> None)"
    using i by (auto simp: attach_slot_def router_inv_def split: option.splits)
  show ?thesis
  proof (cases rule: attach_cases [of side tk r c])
    case refused
    then show ?thesis using i s by (auto simp: router_inv_def split: if_splits)
  next
    case (joined fx)
    have "ds_sid (attach_leg side c ?s) = tk_SessionID tk"
      "ds_glued (attach_leg side c ?s) = (ds_agent (attach_leg side c ?s) \<noteq> None \<and> ds_clnt (attach_leg side c ?s) \<noteq> None)"
      "ds_agent (attach_leg side c ?s) \<noteq> None \<or> ds_clnt (attach_leg side c ?s) \<noteq> None"
      using s by (auto simp: attach_leg_def Let_def)
    then show ?thesis
      using i joined(2) by (simp add: router_inv_def)
  qed
qed

interpretation router: inv_machine "\<lambda>_ _. True" router_step router_inv
proof unfold_locales
  show "router_inv (router_step e r)" if "router_inv r" for r e
    using that
    by (cases e) (auto simp: router_attach_inv expireUnjoined_def pump_done_def router_Kill_def
        split: option.splits, auto simp: router_inv_def split: if_splits)
qed

text \<open>Pumps: each session object is pumped at most once, and it is pumped iff it is glued.\<close>

definition pump_ptrs :: "router_fx list \<Rightarrow> nat list" where
  "pump_ptrs fx = concat (map (\<lambda>e. case e of RPump _ p \<Rightarrow> [p] | _ \<Rightarrow> []) fx)"

lemma pump_ptrs_simps [simp]:
  "pump_ptrs [] = []" "pump_ptrs (fx @ gx) = pump_ptrs fx @ pump_ptrs gx" "pump_ptrs [RPump i p] = [p]"
  "pump_ptrs [RRefuse c] = []" "pump_ptrs (RReport a b d # fx) = pump_ptrs fx" "pump_ptrs (close_legs s) = []"
  by (auto simp: pump_ptrs_def close_legs_def split: option.splits)

definition pump_inv :: "sessionRouter \<Rightarrow> bool" where
  "pump_inv r \<longleftrightarrow> distinct (pump_ptrs (sr_fx r)) \<and> (\<forall>p \<in> set (pump_ptrs (sr_fx r)). p < sr_next r)
     \<and> (\<forall>sid s. tget (sr_sessions r) sid = Some s \<longrightarrow> ds_ptr s < sr_next r
          \<and> ds_glued s = (ds_ptr s \<in> set (pump_ptrs (sr_fx r))))
     \<and> (\<forall>i j s t. tget (sr_sessions r) i = Some s \<and> tget (sr_sessions r) j = Some t \<and> ds_ptr s = ds_ptr t \<longrightarrow> i = j)"

lemma pump_inv_removal:
  assumes "pump_inv r" "sr_next r' = sr_next r" "pump_ptrs (sr_fx r') = pump_ptrs (sr_fx r)"
    and "sr_sessions r' = tdel sid (sr_sessions r) \<or> sr_sessions r' = sr_sessions r"
  shows "pump_inv r'"
proof -
  have "tget (sr_sessions r) k = Some u" if "tget (sr_sessions r') k = Some u" for k u
    using that assms(4) by (auto split: if_splits)
  then show ?thesis
    using assms(1) unfolding pump_inv_def assms(2,3) by blast
qed

lemma attach_slot_ptr:
  assumes "pump_inv r"
  shows "ds_ptr (attach_slot tk r) < sr_next (router_attach side tk c r)"
    and "tget (sr_sessions r) j = Some t \<Longrightarrow> j \<noteq> tk_SessionID tk \<Longrightarrow> ds_ptr t \<noteq> ds_ptr (attach_slot tk r)"
    and "sr_next r \<le> sr_next (router_attach side tk c r)"
    and "ds_glued (attach_slot tk r) = (ds_ptr (attach_slot tk r) \<in> set (pump_ptrs (sr_fx r)))"
proof -
  have lt: "ds_ptr u < sr_next r \<and> ds_glued u = (ds_ptr u \<in> set (pump_ptrs (sr_fx r)))"
    if "tget (sr_sessions r) k = Some u" for k u
    using assms that by (simp add: pump_inv_def)
  have fresh: "sr_next r \<notin> set (pump_ptrs (sr_fx r))"
    using assms by (auto simp: pump_inv_def)
  show "ds_ptr (attach_slot tk r) < sr_next (router_attach side tk c r)"
    "sr_next r \<le> sr_next (router_attach side tk c r)"
    "ds_glued (attach_slot tk r) = (ds_ptr (attach_slot tk r) \<in> set (pump_ptrs (sr_fx r)))"
    using lt fresh by (auto simp: attach_slot_def router_attach_def Let_def split: option.splits)
  show "ds_ptr t \<noteq> ds_ptr (attach_slot tk r)" if j: "tget (sr_sessions r) j = Some t" "j \<noteq> tk_SessionID tk"
  proof (cases "tget (sr_sessions r) (tk_SessionID tk)")
    case None
    then show ?thesis using lt [OF j(1)] by (simp add: attach_slot_def)
  next
    case (Some u)
    then show ?thesis using j assms unfolding attach_slot_get [OF Some] pump_inv_def by blast
  qed
qed

lemma attach_pumps:
  "pump_ptrs (sr_fx (router_attach side tk c r)) = pump_ptrs (sr_fx r)
     @ (if (if side = ''agent'' then ds_agent (attach_slot tk r) else ds_clnt (attach_slot tk r)) = None
           \<and> ds_glued (attach_leg side c (attach_slot tk r)) \<and> \<not> ds_glued (attach_slot tk r)
        then [ds_ptr (attach_slot tk r)] else [])"
  by (auto simp: router_attach_def attach_slot_def attach_leg_def Let_def split: option.splits)

lemma attach_leg_sel [simp]:
  "ds_ptr (attach_leg side c s) = ds_ptr s" "ds_glued s \<Longrightarrow> ds_glued (attach_leg side c s)"
  by (simp_all add: attach_leg_def Let_def)

lemma pump_inv_put:
  assumes i: "pump_inv r" and p: "ds_ptr t = ds_ptr (attach_slot tk r)"
    and r': "sr_sessions r' = tput (tk_SessionID tk) t (sr_sessions r)" "sr_next r' = sr_next (router_attach side tk c r)"
    and fx: "pump_ptrs (sr_fx r') = pump_ptrs (sr_fx r) @ (if ds_glued t \<and> \<not> ds_glued (attach_slot tk r) then [ds_ptr t] else [])"
    and g: "ds_glued (attach_slot tk r) \<Longrightarrow> ds_glued t"
  shows "pump_inv r'"
proof -
  let ?s = "attach_slot tk r"
  note ptr = attach_slot_ptr(1) [OF i, of tk side c] attach_slot_ptr(3) [OF i, of side tk c] attach_slot_ptr(2) [OF i] attach_slot_ptr(4) [OF i, of tk]
  have "\<forall>q \<in> set (pump_ptrs (sr_fx r)). q < sr_next r" "distinct (pump_ptrs (sr_fx r))"
    using i by (simp_all add: pump_inv_def)
  then have 1: "distinct (pump_ptrs (sr_fx r'))" "\<forall>q \<in> set (pump_ptrs (sr_fx r')). q < sr_next r'"
    using ptr(1,2,4) unfolding fx r'(2) p by (auto intro: less_le_trans)
  have 2: "ds_ptr u < sr_next r' \<and> ds_glued u = (ds_ptr u \<in> set (pump_ptrs (sr_fx r')))"
    if u: "tget (sr_sessions r') k = Some u" for k u
  proof (cases "k = tk_SessionID tk")
    case True
    then have "u = t" using u r'(1) by simp
    then show ?thesis using ptr(1,4) g unfolding r'(2) fx by (auto simp: p)
  next
    case False
    then have old: "tget (sr_sessions r) k = Some u" using u r'(1) by simp
    then have "ds_ptr u < sr_next r" "ds_glued u = (ds_ptr u \<in> set (pump_ptrs (sr_fx r)))"
      using i by (simp_all add: pump_inv_def)
    then show ?thesis using ptr(2) ptr(3) [OF old False] unfolding r'(2) fx p by auto
  qed
  have 3: "k = j" if "tget (sr_sessions r') k = Some u" "tget (sr_sessions r') j = Some w" "ds_ptr u = ds_ptr w" for k j u w
  proof -
    have old: "ds_ptr t \<noteq> ds_ptr x" if "tget (sr_sessions r) l = Some x" "l \<noteq> tk_SessionID tk" for l x
      using ptr(3) [OF that] p by simp
    have inj: "k = j" if "tget (sr_sessions r) k = Some u" "tget (sr_sessions r) j = Some w"
      using i that \<open>ds_ptr u = ds_ptr w\<close> unfolding pump_inv_def by blast
    show ?thesis
      using that old [of k u] old [of j w] inj unfolding r'(1)
      by (cases "k = tk_SessionID tk"; cases "j = tk_SessionID tk") auto
  qed
  show ?thesis unfolding pump_inv_def using 1 2 3 by blast
qed

lemma attach_pump_inv:
  assumes "pump_inv r"
  shows "pump_inv (router_attach side tk c r)"
proof (cases rule: attach_cases [of side tk r c])
  case refused
  from refused(1,2) show ?thesis
    by (intro pump_inv_put [OF assms, of "attach_slot tk r" tk _ side c]) (auto simp: attach_pumps)
next
  case (joined fx)
  from joined(1,2) show ?thesis
    by (intro pump_inv_put [OF assms, of "attach_leg side c (attach_slot tk r)" tk _ side c])
      (simp_all add: attach_pumps)
qed

interpretation pumps: inv_machine "\<lambda>_ _. True" router_step pump_inv
proof unfold_locales
  show "pump_inv (router_step e r)" if i: "pump_inv r" for r e
  proof (cases e)
    case (RControl up)
    then show ?thesis using i by (simp add: pump_inv_def)
  qed (use i in \<open>auto simp: attach_pump_inv expireUnjoined_def pump_done_def router_Kill_def reportClosed_def
        elim!: pump_inv_removal split: option.splits\<close>)
qed

subsection \<open>Admission of legs\<close>

lemma verifyLeg_iff:
  "fst (verifyLeg L rid token pathSID sub now v) = Inr tk \<longleftrightarrow> rid \<noteq> [] \<and> fst (Verify L now token v) = Inr tk
     \<and> tk_Typ tk = TicketSessionData \<and> tk_RelayID tk = rid \<and> tk_SessionID tk \<noteq> [] \<and> tk_NodeID tk \<noteq> []
     \<and> tk_Name tk = sub \<and> (pathSID = [] \<or> pathSID = tk_SessionID tk)"
  by (auto simp: verifyLeg_def split: prod.splits sum.splits)

lemma verifyLeg_refused: "(\<And>tk. fst (verifyLeg L rid token pathSID sub now v) \<noteq> Inr tk)
   \<Longrightarrow> \<exists>e. fst (verifyLeg L rid token pathSID sub now v) = Inl e"
  by (cases "fst (verifyLeg L rid token pathSID sub now v)") auto

lemma router_Kill_sessions: "tget (sr_sessions (router_Kill sid r)) j = (if j = sid then None else tget (sr_sessions r) j)"
  by (simp add: router_Kill_def split: option.splits)

lemma router_Kill_closes:
  "tget (sr_sessions r) sid = Some s \<Longrightarrow> has_leg c s \<Longrightarrow> RCloseNow c \<in> set (sr_fx (router_Kill sid r))"
  using has_leg_closed by (simp add: router_Kill_def)

subsection \<open>Certificates\<close>

definition cert_until :: "go_time \<Rightarrow> certManager \<Rightarrow> bool" where
  "cert_until x m \<longleftrightarrow> (\<exists>na sha. cm_cert m = Some (na, sha) \<and> x \<le> na)"

lemma cert_watch_sets: "mk u \<noteq> None \<Longrightarrow> cert_until (u + certRenewBefore) (cert_watch mk u m)"
  by (auto simp: cert_until_def cert_watch_def cert_rotate_def cert_expiresIn_def certRenewBefore_def time_of_Unix_def time_Unix_def
      time_Sub_def maxDuration_def minDuration_def split: option.splits if_splits)

interpretation cert: inv_machine "\<lambda>now _. u \<le> now" "cert_watch mk" "cert_until (u + certRenewBefore)" for u mk
  by unfold_locales (auto simp: cert_until_def cert_watch_def cert_rotate_def certRenewBefore_def time_of_Unix_def time_Unix_def split: option.splits)

subsection \<open>Back-off and statistics\<close>

lemma backoff_Suc: "backoff_after (Suc n) = next_backoff (backoff_after n)"
  by (simp add: backoff_after_def)

lemma backoff_bounds: "2 * Second \<le> backoff_after n \<and> backoff_after n \<le> 30 * Second"
  by (induction n) (auto simp: backoff_Suc next_backoff_def Let_def backoff_after_def)

lemma backoff_four: "backoff_after (4 + n) = 30 * Second"
  by (induction n) (simp_all add: backoff_Suc next_backoff_def Let_def numeral_eq_Suc, simp add: backoff_after_def)

text \<open>The byte difference of a tick goes below zero, that is, it wraps, when the hosts counted in the last
  tick have unregistered since.\<close>

lemma stats_wraps:
  assumes "registered_hosts (rp_hub p) = []" "0 < lastRx"
  shows "uint (rs_rxDelta (fst (stats_tick lastRx lastTx p))) = 2 ^ 64 - uint lastRx"
proof -
  have "0 < uint lastRx" using assms(2) by (simp add: word_less_def)
  moreover have "uint lastRx < 2 ^ 64" using uint_bounded [of lastRx] by simp
  ultimately have "(- uint lastRx) mod 2 ^ 64 = 2 ^ 64 - uint lastRx" by (simp add: zmod_zminus1_eq_if)
  then show ?thesis using assms(1) by (simp add: stats_tick_def Let_def uint_word_ariths)
qed

subsection \<open>Properties\<close>

text \<open>Leg admission: a session-data ticket minted for one side of a session, with non-empty session,
  node and relay ids, is accepted on that side by that relay until two minutes after its expiry (on the
  client leg only under the session's own path), unless the session was killed; it is refused on the
  other side, under the path of another session, and at every other relay, a relay that has no id yet
  included.\<close>

theorem sdata_leg_admission:
  assumes "signature_correct L" "json_roundtrips L (sdata_claims sid node rid sub ttl now)"
    and "ed25519_Public L (sg_priv s) \<in> set (v_keys v)" "tget (v_tomb v) (''s:'' @ sid) = None"
    and "t \<le> time_of_Unix (time_Unix (now + ttl)) + ticketLeeway"
    and "sid \<noteq> []" "node \<noteq> []" "rid \<noteq> []"
  shows "let token = SessionDataTicket L sid node rid sub ttl now s in
     (\<forall>path. path = [] \<or> path = sid \<longrightarrow> (\<exists>tk. fst (verifyLeg L rid token path sub t v) = Inr tk
        \<and> tk_SessionID tk = sid \<and> tk_NodeID tk = node))
     \<and> (\<forall>rid' path sub'. rid' \<noteq> rid \<or> sub' \<noteq> sub \<or> (path \<noteq> [] \<and> path \<noteq> sid) \<longrightarrow>
          (\<exists>e. fst (verifyLeg L rid' token path sub' t v) = Inl e))"
proof -
  let ?c = "sdata_claims sid node rid sub ttl now"
  let ?t = "SessionDataTicket L sid node rid sub ttl now s"
  have "open_token L (v_keys v) ?t = Some ?c"
    unfolding SessionDataTicket_def
    using assms(1-3) by (intro open_mint) (simp_all add: sdata_claims_def)
  then have V: "fst (Verify L t ?t v) = Inr (ticket_of ?c)"
    using assms(4,5) by (simp add: Verify_fst tombKey_def sdata_claims_def TicketSessionData_def TicketHost_def)
  have c: "c_Typ ?c = TicketSessionData" "c_RID ?c = rid" "c_SID ?c = sid" "c_NID ?c = node" "c_NM ?c = sub"
    by (simp_all add: sdata_claims_def)
  have "\<exists>tk. fst (verifyLeg L rid ?t path sub t v) = Inr tk \<and> tk_SessionID tk = sid \<and> tk_NodeID tk = node"
    if "path = [] \<or> path = sid" for path
    using V c that assms(6-8) unfolding verifyLeg_iff by auto
  moreover have "\<exists>e. fst (verifyLeg L rid' ?t path sub' t v) = Inl e"
    if "rid' \<noteq> rid \<or> sub' \<noteq> sub \<or> (path \<noteq> [] \<and> path \<noteq> sid)" for rid' path sub'
    using V c that by (intro verifyLeg_refused) (auto simp: verifyLeg_iff)
  ultimately show ?thesis by (simp add: Let_def)
qed

definition sdata_demo :: ticketClaims where
  "sdata_demo = sdata_claims ''s1'' ''n1'' ''rl-1'' ''agent'' (2 * Minute) 0"

definition sdata_lib :: ticket_lib where
  "sdata_lib = demo_lib\<lparr>json_Unmarshal := \<lambda>_. Some sdata_demo\<rparr>"

lemma sdata_lib_ok: "signature_correct sdata_lib" "json_roundtrips sdata_lib sdata_demo"
  by (simp_all add: signature_correct_def json_roundtrips_def sdata_lib_def demo_lib_def)

theorem sdata_leg_admission_witness:
  "\<exists>e. fst (verifyLeg sdata_lib ''rl-1'' (SessionDataTicket sdata_lib ''s1'' ''n1'' ''rl-1'' ''agent'' (2 * Minute) 0
      (NewSignerFromKey [1])) ''s1'' ''client'' Minute \<lparr>v_keys = [[1]], v_tomb = []\<rparr>) = Inl e"
  using sdata_leg_admission [OF sdata_lib_ok(1) sdata_lib_ok(2) [unfolded sdata_demo_def],
      of "NewSignerFromKey [1]" "\<lparr>v_keys = [[1]], v_tomb = []\<rparr>" Minute]
  by (simp add: NewSignerFromKey_def sdata_lib_def demo_lib_def Let_def time_Unix_def time_of_Unix_def ticketLeeway_def)

text \<open>C28. No connection is lost: after any sequence of attaches, expiries, pump ends, kills and changes
  of the control connection, every connection that was ever attached is a leg of a session in the table
  or has been closed or refused; every session in the table has a leg, and it has both legs exactly when
  it is being pumped; no session object is ever pumped twice.\<close>

theorem router_no_leak:
  assumes "RAttach side tk c \<in> set es"
  shows "let r = fold router_step es newSessionRouter in
     (RCloseNow c \<in> set (sr_fx r) \<or> RRefuse c \<in> set (sr_fx r)
        \<or> (\<exists>sid s. tget (sr_sessions r) sid = Some s \<and> has_leg c s))
     \<and> (\<forall>sid s. tget (sr_sessions r) sid = Some s \<longrightarrow> ds_sid s = sid \<and> (ds_agent s \<noteq> None \<or> ds_clnt s \<noteq> None)
          \<and> (ds_agent s \<noteq> None \<and> ds_clnt s \<noteq> None) = (ds_ptr s \<in> set (pump_ptrs (sr_fx r))))
     \<and> distinct (pump_ptrs (sr_fx r))"
proof -
  let ?r = "fold router_step es newSessionRouter"
  obtain es1 es2 where es: "es = es1 @ RAttach side tk c # es2"
    using assms by (auto simp: in_set_conv_decomp)
  have a: "accounted c ?r"
    unfolding es by (simp add: leg.run_inv attach_accounts)
  have i: "router_inv ?r"
    by (rule router.run_inv) (simp_all add: router_inv_def newSessionRouter_def)
  have p: "pump_inv ?r"
    by (rule pumps.run_inv) (simp_all add: pump_inv_def newSessionRouter_def)
  have "ds_sid s = sid \<and> (ds_agent s \<noteq> None \<or> ds_clnt s \<noteq> None)
          \<and> (ds_agent s \<noteq> None \<and> ds_clnt s \<noteq> None) = (ds_ptr s \<in> set (pump_ptrs (sr_fx ?r)))"
    if "tget (sr_sessions ?r) sid = Some s" for sid s
    using that i p unfolding router_inv_def pump_inv_def by blast
  then show ?thesis
    using a p unfolding accounted_def pump_inv_def Let_def by blast
qed

theorem router_no_leak_witness:
  "let r = fold router_step [RAttach ''agent'' (ticket_of sdata_demo) 4, RExpire ''s1''] newSessionRouter in
     RCloseNow 4 \<in> set (sr_fx r) \<or> RRefuse 4 \<in> set (sr_fx r)
        \<or> (\<exists>sid s. tget (sr_sessions r) sid = Some s \<and> has_leg 4 s)"
  using router_no_leak [of "''agent''" "ticket_of sdata_demo" 4 "[RAttach ''agent'' (ticket_of sdata_demo) 4, RExpire ''s1'']"]
  unfolding Let_def by simp

text \<open>A ticket of a killed session that ends within a day of the kill opens no leg at any later instant,
  whatever happens to the verifier in between.\<close>

lemma killed_leg_refused:
  assumes "sid \<noteq> []" "run_ok ve_pre (ve_step L) es (ticket_Kill node sid k v0, k)"
    and "fold (ve_step L) es (ticket_Kill node sid k v0, k) = (v, c)" "c \<le> t"
    and "open_token L (v_keys v) token = Some cl" "c_Typ cl = TicketSessionData" "c_SID cl = sid"
    and "time_of_Unix (c_Exp cl) \<le> k + 24 * Hour"
  shows "\<exists>e. fst (verifyLeg L rid token path sub t v) = Inl e"
proof -
  have "entombed (tombKey cl) k (ticket_Kill node sid k v0, k)"
    using assms(1,6,7) by (auto simp: entombed_def ticket_Kill_def tombKey_def TicketSessionData_def TicketHost_def)
  then have "entombed (tombKey cl) k (v, c)"
    using tomb.run_inv [OF _ assms(2)] assms(3) by metis
  moreover have "time_of_Unix (c_Exp cl) + ticketLeeway \<le> k + tombstoneHorizon"
    using assms(8) by (simp add: ticketLeeway_def tombstoneHorizon_def)
  ultimately have "fst (Verify L t token v) = Inl ErrExpired \<or> fst (Verify L t token v) = Inl ErrKilled"
    using assms(4,5) by (intro entombed_rejects [of "tombKey cl" k v c]) simp_all
  then show ?thesis by (intro verifyLeg_refused) (auto simp: verifyLeg_iff)
qed

text \<open>A kill order of the server ends a data session for good: when the relay handles
  \<open>SESSION_KILL\<close> for a session it removes it from the router and closes both its legs, leaves every other
  session in place, and from then on, whatever the verifier is asked or told, a ticket of that session
  that expires within 24 hours of the kill attaches no leg on any side.\<close>

theorem relay_kill_final:
  assumes "sid \<noteq> []" "control_step (CSessionKill node sid) k p = p1"
    and "run_ok ve_pre (ve_step L) es (rp_verifier p1, k)" "fold (ve_step L) es (rp_verifier p1, k) = (v, c)" "c \<le> t"
    and "open_token L (v_keys v) token = Some cl" "c_Typ cl = TicketSessionData" "c_SID cl = sid"
    and "time_of_Unix (c_Exp cl) \<le> k + 24 * Hour"
  shows "tget (sr_sessions (rp_router p1)) sid = None
     \<and> (\<forall>s x. tget (sr_sessions (rp_router p)) sid = Some s \<and> has_leg x s \<longrightarrow> RCloseNow x \<in> set (sr_fx (rp_router p1)))
     \<and> (\<forall>j. j \<noteq> sid \<longrightarrow> tget (sr_sessions (rp_router p1)) j = tget (sr_sessions (rp_router p)) j)
     \<and> (\<exists>e. fst (verifyLeg L rid token path sub t v) = Inl e)"
proof -
  have p1: "rp_router p1 = router_Kill sid (rp_router p)" "rp_verifier p1 = ticket_Kill node sid k (rp_verifier p)"
    using assms(2) by (auto simp: KillSession_def)
  have "\<exists>e. fst (verifyLeg L rid token path sub t v) = Inl e"
    using assms(3,4) unfolding p1(2) by (rule killed_leg_refused [OF assms(1) _ _ assms(5-9)])
  then show ?thesis
    using router_Kill_closes by (auto simp: p1 router_Kill_sessions)
qed

theorem relay_kill_final_witness:
  "let r = fold router_step [RAttach ''agent'' (ticket_of sdata_demo) 4] newSessionRouter;
       p1 = control_step (CSessionKill ''n1'' ''s1'') 0
              \<lparr>rp_verifier = \<lparr>v_keys = [[1]], v_tomb = []\<rparr>, rp_hub = demo_hub, rp_router = r\<rparr> in
     tget (sr_sessions (rp_router p1)) ''s1'' = None
     \<and> (\<exists>e. fst (verifyLeg sdata_lib ''rl-1'' (mint sdata_lib sdata_demo [1]) [] ''agent'' Minute (rp_verifier p1)) = Inl e)"
proof -
  let ?p = "\<lparr>rp_verifier = \<lparr>v_keys = [[1]], v_tomb = []\<rparr>, rp_hub = demo_hub,
     rp_router = fold router_step [RAttach ''agent'' (ticket_of sdata_demo) 4] newSessionRouter\<rparr>"
  let ?v = "rp_verifier (control_step (CSessionKill ''n1'' ''s1'') 0 ?p)"
  have k: "v_keys ?v = [[1]]" by (simp add: KillSession_def ticket_Kill_def)
  have o: "open_token sdata_lib (v_keys ?v) (mint sdata_lib sdata_demo [1]) = Some sdata_demo"
    unfolding k by (rule open_mint [OF sdata_lib_ok])
      (simp_all add: sdata_demo_def sdata_claims_def sdata_lib_def demo_lib_def)
  have c: "c_Typ sdata_demo = TicketSessionData" "c_SID sdata_demo = ''s1''" "time_of_Unix (c_Exp sdata_demo) \<le> 0 + 24 * Hour"
    by (simp_all add: sdata_demo_def sdata_claims_def time_of_Unix_def time_Unix_def)
  show ?thesis
    using relay_kill_final [OF _ refl, where sid = "''s1''" and node = "''n1''" and k = 0 and p = ?p and es = "[]"
        and L = sdata_lib and v = ?v and c = 0 and t = Minute and cl = sdata_demo, OF _ _ _ _ o c]
    by (simp add: Let_def del: control_step.simps)
qed

text \<open>The relay's certificate does not expire: if some inspection at instant \<open>u\<close> found a working
  generator, then whatever other inspections (failed ones included) came before and after it, the
  relay holds a certificate that is valid at every instant up to 24 hours after \<open>u\<close>. With an inspection
  every 30 minutes that tolerates 47 failures in a row. Every inspection that changes the certificate
  signals exactly one change, and a new certificate lives at most 7 days.\<close>

theorem cert_never_expires:
  assumes "mk u \<noteq> None" "list_all (\<lambda>now. u \<le> now) later" "t < u + 24 * Hour"
  shows "let m = fold (cert_watch mk) (earlier @ u # later) m0 in
     (\<exists>na sha. cm_cert m = Some (na, sha) \<and> t < na)
     \<and> (\<forall>now. cm_cert (cert_watch mk now m) \<noteq> cm_cert m \<longrightarrow> cm_gen (cert_watch mk now m) = cm_gen m + 1
          \<and> (\<exists>na sha. cm_cert (cert_watch mk now m) = Some (na, sha) \<and> na - now \<le> 7 * 24 * Hour))"
proof -
  let ?m = "fold (cert_watch mk) (earlier @ u # later) m0"
  have "cert_until (u + certRenewBefore) (fold (cert_watch mk) later (cert_watch mk u (fold (cert_watch mk) earlier m0)))"
    using assms(1,2) by (intro cert.run_inv) (simp_all add: cert_watch_sets run_ok_list_all)
  then have 1: "\<exists>na sha. cm_cert ?m = Some (na, sha) \<and> t < na"
    using assms(3) by (auto simp: cert_until_def certRenewBefore_def)
  have 2: "time_of_Unix (time_Unix (now + 7 * 24 * Hour)) - now \<le> 7 * 24 * Hour" for now
    by (simp add: time_of_Unix_def time_Unix_def)
  have "cm_gen (cert_watch mk now m) = cm_gen m + 1
          \<and> (\<exists>na sha. cm_cert (cert_watch mk now m) = Some (na, sha) \<and> na - now \<le> 7 * 24 * Hour)"
    if "cm_cert (cert_watch mk now m) \<noteq> cm_cert m" for now and m :: certManager
    using that 2 [of now] by (auto simp: cert_watch_def cert_rotate_def split: if_splits option.splits)
  then show ?thesis using 1 by (simp add: Let_def)
qed

theorem cert_never_expires_witness:
  "\<exists>na sha. cm_cert (fold (cert_watch (\<lambda>now. if now = 0 then Some ''ab'' else None)) ([-5] @ 0 # [30 * Minute, Hour])
      \<lparr>cm_cert = None, cm_gen = 0\<rparr>) = Some (na, sha) \<and> 23 * Hour < na"
  using cert_never_expires [of "\<lambda>now. if now = 0 then Some ''ab'' else None" 0 "[30 * Minute, Hour]" "23 * Hour" "[-5]"
      "\<lparr>cm_cert = None, cm_gen = 0\<rparr>"]
  unfolding Let_def by simp

text \<open>Registered endpoints: the endpoint list a relay registers makes it eligible for session data
  exactly when its HTTP leg is on and a session host is configured, its host leg is the public host and
  host port (for a port below \<open>10^8\<close>), and its reconnect back-off always lies between 2 s and 30 s and
  stays at 30 s from the fourth attempt on.\<close>

theorem relay_endpoints:
  assumes "ec_publicHost c \<noteq> []" "0 < ec_hostPort c" "ec_hostPort c < 10 ^ 8"
  shows "hasSdata (ec_build c) = (ec_httpLeg c \<and> ec_sessionHost c \<noteq> [] \<and> 0 < ec_sessionPort c)
     \<and> HostLegEndpoint (protoView (ec_build c)) = Some (JoinHostPort (ec_publicHost c) (nat_decimal (nat (ec_hostPort c))))
     \<and> 2 * Second \<le> backoff_after n \<and> backoff_after n \<le> 30 * Second \<and> backoff_after (4 + n) = 30 * Second"
  using assms backoff_bounds [of n] backoff_four [of n]
  by (simp add: ec_build_def hasSdata_def protoView_def ep_def Let_def rtv_itoa_exact)

theorem relay_endpoints_witness:
  "HostLegEndpoint (protoView (ec_build \<lparr>ec_publicHost = ''r1'', ec_wtPort = 4433, ec_hostPort = 4434, ec_wsPort = 443,
     ec_sessionHost = [], ec_sessionPort = 443, ec_httpLeg = True, ec_certSHA = ''00''\<rparr>))
   = Some (JoinHostPort ''r1'' (nat_decimal 4434))"
  using relay_endpoints [of "\<lparr>ec_publicHost = ''r1'', ec_wtPort = 4433, ec_hostPort = 4434, ec_wsPort = 443,
     ec_sessionHost = [], ec_sessionPort = 443, ec_httpLeg = True, ec_certSHA = ''00''\<rparr>" 0]
  by simp

end
