(* ===== verification/Version_Order.thy ===== *)
theory Version_Order
  imports Go_Strings
begin

text \<open>
  Version comparison of the updater (\<open>CompareVersions\<close> and its helpers in
  \<open>src/agent/updater/updater.go\<close>). Strings are compared byte by byte as \<open>strings.Compare\<close> does. The
  locale \<open>comparison\<close> states what a three-way comparison has to be, a total preorder; the
  interpretations show it for each comparison the code is built from.
\<close>

subsection \<open>Three-way comparisons\<close>

locale comparison =
  fixes cmp :: "'a \<Rightarrow> 'a \<Rightarrow> int"
  assumes anti: "cmp b a = - cmp a b"
    and range: "cmp a b \<in> {-1, 0, 1}"
    and trans: "cmp a b \<le> 0 \<Longrightarrow> cmp b c \<le> 0 \<Longrightarrow> cmp a c \<le> 0"
begin

lemma refl: "cmp a a = 0"
  using anti [of a a] by simp

lemma trans_less: "cmp a b < 0 \<Longrightarrow> cmp b c \<le> 0 \<Longrightarrow> cmp a c < 0"
proof -
  assume a: "cmp a b < 0" "cmp b c \<le> 0"
  have "cmp a c \<noteq> 0"
  proof
    assume "cmp a c = 0"
    then have "cmp c a \<le> 0" using anti [of c a] by simp
    then have "cmp b a \<le> 0" using a(2) trans [of b c a] by simp
    then show False using a(1) anti [of b a] by simp
  qed
  then show "cmp a c < 0" using trans [of a b c] a by simp
qed

lemma less_trans: "cmp a b \<le> 0 \<Longrightarrow> cmp b c < 0 \<Longrightarrow> cmp a c < 0"
proof -
  assume a: "cmp a b \<le> 0" "cmp b c < 0"
  have "cmp a c \<noteq> 0"
  proof
    assume "cmp a c = 0"
    then have "cmp c a \<le> 0" using anti [of c a] by simp
    then have "cmp c b \<le> 0" using a(1) trans [of c a b] by simp
    then show False using a(2) anti [of c b] by simp
  qed
  then show "cmp a c < 0" using trans [of a b c] a by simp
qed

lemma cong: "cmp a b = 0 \<Longrightarrow> cmp a c = cmp b c"
proof -
  assume "cmp a b = 0"
  then have "cmp a b \<le> 0" "cmp b a \<le> 0" using anti [of a b] by simp_all
  then have "cmp a c \<le> 0 \<longleftrightarrow> cmp b c \<le> 0" "cmp c a \<le> 0 \<longleftrightarrow> cmp c b \<le> 0"
    using trans by blast+
  then show ?thesis
    using range [of a c] range [of b c] anti [of c a] anti [of c b] by auto
qed

lemma pull: "comparison (\<lambda>x y. cmp (f x) (f y))"
  by unfold_locales (use anti range trans in blast)+

end

text \<open>Lexicographic composition: a second comparison decides when the first says equal.\<close>

definition cmp_then :: "int \<Rightarrow> int \<Rightarrow> int" where
  "cmp_then c d = (if c \<noteq> 0 then c else d)"

lemma cmp_then_comparison:
  assumes "comparison p" "comparison q"
  shows "comparison (\<lambda>x y. cmp_then (p x y) (q x y))"
proof -
  have P: "p b a = - p a b" "p a b \<in> {-1, 0, 1}" "q b a = - q a b" "q a b \<in> {-1, 0, 1}" for a b
    by (rule comparison.anti [OF assms(1)] comparison.range [OF assms(1)] comparison.anti [OF assms(2)] comparison.range [OF assms(2)])+
  show ?thesis
  proof unfold_locales
    show "cmp_then (p b a) (q b a) = - cmp_then (p a b) (q a b)" for a b
      using P(1,3) [of b a] by (simp add: cmp_then_def)
    show "cmp_then (p a b) (q a b) \<in> {-1, 0, 1}" for a b
      using P(2,4) [of a b] by (auto simp: cmp_then_def)
    show "cmp_then (p a c) (q a c) \<le> 0" if h: "cmp_then (p a b) (q a b) \<le> 0" "cmp_then (p b c) (q b c) \<le> 0" for a b c
    proof (cases "p a b = 0 \<and> p b c = 0")
      case True
      then have "p a c = 0" using comparison.cong [OF assms(1), of a b c] by simp
      moreover have "q a b \<le> 0" "q b c \<le> 0" using True h by (simp_all add: cmp_then_def)
      ultimately show ?thesis using comparison.trans [OF assms(2), of a b c] by (simp add: cmp_then_def)
    next
      case False
      then have "(p a b < 0 \<and> p b c \<le> 0) \<or> (p a b \<le> 0 \<and> p b c < 0)"
        using h by (auto simp: cmp_then_def split: if_splits)
      then have "p a c < 0"
        using comparison.trans_less [OF assms(1)] comparison.less_trans [OF assms(1)] by blast
      then show ?thesis by (simp add: cmp_then_def)
    qed
  qed
qed

subsection \<open>Strings\<close>

fun strings_Compare :: "string \<Rightarrow> string \<Rightarrow> int" where
  "strings_Compare [] [] = 0"
| "strings_Compare [] (b # bs) = -1"
| "strings_Compare (a # as) [] = 1"
| "strings_Compare (a # as) (b # bs) =
     (if a = b then strings_Compare as bs else if of_char a < (of_char b :: nat) then -1 else 1)"

lemma strings_Compare_trans:
  "strings_Compare a b \<le> 0 \<Longrightarrow> strings_Compare b c \<le> 0 \<Longrightarrow> strings_Compare a c \<le> 0"
proof (induction a b arbitrary: c rule: strings_Compare.induct)
  case (2 b bs)
  then show ?case by (cases c) auto
next
  case (4 x xs y ys)
  then show ?case
    by (cases c) (auto split: if_splits)
qed auto

lemma of_char_inj: "of_char a = (of_char b :: nat) \<longleftrightarrow> a = b"
  by (rule of_char_eq_iff)

interpretation str: comparison strings_Compare
proof unfold_locales
  show "strings_Compare b a = - strings_Compare a b" for a b
  proof (induction b a rule: strings_Compare.induct)
    case (4 x xs y ys)
    then show ?case using of_char_inj [of x y] by auto
  qed auto
  show "strings_Compare a b \<in> {-1, 0, 1}" for a b
    by (induction a b rule: strings_Compare.induct) auto
  show "strings_Compare a b \<le> 0 \<Longrightarrow> strings_Compare b c \<le> 0 \<Longrightarrow> strings_Compare a c \<le> 0" for a b c
    by (rule strings_Compare_trans)
qed

lemma strings_Compare_zero: "strings_Compare a b = 0 \<longleftrightarrow> a = b"
  by (induction a b rule: strings_Compare.induct) auto

subsection \<open>Version segments\<close>

definition isNumeric :: "string \<Rightarrow> bool" where
  "isNumeric s \<longleftrightarrow> s \<noteq> [] \<and> list_all (\<lambda>c. char_digit c \<noteq> None) s"

definition compareIntStrings :: "string \<Rightarrow> string \<Rightarrow> int" where
  "compareIntStrings a0 b0 =
     (let a = dropWhile ((=) CHR ''0'') a0; b = dropWhile ((=) CHR ''0'') b0
      in if length a \<noteq> length b then (if length a < length b then -1 else 1) else strings_Compare a b)"

definition compareNumericOrLex :: "string \<Rightarrow> string \<Rightarrow> int" where
  "compareNumericOrLex a b =
     (if isNumeric a \<and> isNumeric b then compareIntStrings a b
      else if isNumeric a then -1
      else if isNumeric b then 1
      else strings_Compare a b)"

text \<open>\<open>strings.Split(s, ".")\<close>.\<close>

fun split_dots :: "string \<Rightarrow> string list" where
  "split_dots [] = [[]]"
| "split_dots (c # cs) =
     (if c = CHR ''.'' then [] # split_dots cs
      else case split_dots cs of [] \<Rightarrow> [[c]] | x # xs \<Rightarrow> (c # x) # xs)"

definition splitVersion :: "string \<Rightarrow> string list \<times> string" where
  "splitVersion v =
     (if CHR ''-'' \<in> set v
      then (split_dots (takeWhile ((\<noteq>) CHR ''-'') v), drop 1 (dropWhile ((\<noteq>) CHR ''-'') v))
      else (split_dots v, []))"

text \<open>The loop over the segments; a missing segment counts as \<open>"0"\<close>.\<close>

definition seg :: "string list \<Rightarrow> string" where
  "seg xs = (case xs of [] \<Rightarrow> ''0'' | x # _ \<Rightarrow> x)"

function compare_segments :: "string list \<Rightarrow> string list \<Rightarrow> int" where
  "compare_segments xs ys =
     (if xs = [] \<and> ys = [] then 0
      else let c = compareNumericOrLex (seg xs) (seg ys)
           in if c \<noteq> 0 then c else compare_segments (tl xs) (tl ys))"
  by auto
termination
  by (relation "measure (\<lambda>(xs, ys). length xs + length ys)") (auto simp: neq_Nil_conv)

declare compare_segments.simps [simp del]

definition compare_suffix :: "string \<Rightarrow> string \<Rightarrow> int" where
  "compare_suffix a b =
     (if a = [] \<and> b = [] then 0 else if a = [] then 1 else if b = [] then -1 else strings_Compare a b)"

definition CompareVersions :: "string \<Rightarrow> string \<Rightarrow> int" where
  "CompareVersions a b =
     (let (an, asf) = splitVersion a; (bn, bsf) = splitVersion b; c = compare_segments an bn
      in if c \<noteq> 0 then c else compare_suffix asf bsf)"

subsection \<open>Numeric segments are compared by value\<close>

definition dig :: "char \<Rightarrow> nat" where
  "dig c = of_char c - 48"

fun num_val :: "string \<Rightarrow> nat" where
  "num_val [] = 0"
| "num_val (c # cs) = dig c * 10 ^ length cs + num_val cs"

definition digits :: "string \<Rightarrow> bool" where
  "digits s \<longleftrightarrow> list_all (\<lambda>c. char_digit c \<noteq> None) s"

lemma digits_simps [simp]: "digits []" "digits (c # s) \<longleftrightarrow> (48 \<le> (of_char c :: nat) \<and> of_char c \<le> (57::nat)) \<and> digits s"
  by (auto simp: digits_def char_digit_def Let_def)

lemma num_val_bound: "digits s \<Longrightarrow> num_val s < 10 ^ length s"
proof (induction s)
  case (Cons c s)
  have "dig c \<le> 9" using Cons.prems by (auto simp: dig_def)
  then have "dig c * 10 ^ length s \<le> 9 * 10 ^ length s" by (rule mult_le_mono1)
  moreover have "num_val s < 10 ^ length s" using Cons by simp
  ultimately show ?case unfolding num_val.simps list.size(4) One_nat_def add_Suc_right add_0_right power_Suc by linarith
qed simp

lemma num_val_trim: "num_val (dropWhile ((=) CHR ''0'') s) = num_val s"
  by (induction s) (auto simp: dig_def)

lemma digits_trim: "digits s \<Longrightarrow> digits (dropWhile ((=) CHR ''0'') s)"
  by (induction s) auto

lemma num_val_lower: "digits (c # s) \<Longrightarrow> c \<noteq> CHR ''0'' \<Longrightarrow> 10 ^ length s \<le> num_val (c # s)"
proof -
  assume a: "digits (c # s)" "c \<noteq> CHR ''0''"
  have "of_char c \<noteq> (48::nat)"
    using a(2) of_char_inj [of c "CHR ''0''"] by simp
  then have "1 \<le> dig c" using a(1) by (auto simp: dig_def)
  then have "1 * 10 ^ length s \<le> dig c * 10 ^ length s" by (rule mult_le_mono1)
  then show ?thesis unfolding num_val.simps by linarith
qed

lemma compare_same_length:
  "digits a \<Longrightarrow> digits b \<Longrightarrow> length a = length b \<Longrightarrow> strings_Compare a b = sgn (int (num_val a) - int (num_val b))"
proof (induction a b rule: strings_Compare.induct)
  case (4 x xs y ys)
  show ?case
  proof (cases "x = y")
    case True
    then show ?thesis using 4 by simp
  next
    case False
    have lt: "num_val (p # ps) < num_val (q # qs)"
      if h: "digits (p # ps)" "digits (q # qs)" "length ps = length qs" "of_char p < (of_char q :: nat)" for p q ps qs
    proof -
      have "Suc (dig p) \<le> dig q" using h by (auto simp: dig_def)
      then have "Suc (dig p) * 10 ^ length ps \<le> dig q * 10 ^ length ps" by (rule mult_le_mono1)
      then show ?thesis using num_val_bound [of ps] h(1,3) unfolding num_val.simps mult_Suc by simp
    qed
    have "of_char x \<noteq> (of_char y :: nat)" using False of_char_inj by blast
    then consider "of_char x < (of_char y :: nat)" | "of_char y < (of_char x :: nat)" by linarith
    then show ?thesis
    proof cases
      case 1
      then have "num_val (x # xs) < num_val (y # ys)" using lt [of x xs y ys] 4(2-4) by simp
      then have "sgn (int (num_val (x # xs)) - int (num_val (y # ys))) = -1" by (simp del: num_val.simps)
      then show ?thesis using 1 False by (simp del: num_val.simps)
    next
      case 2
      then have "num_val (y # ys) < num_val (x # xs)" using lt [of y ys x xs] 4(2-4) by simp
      then have "sgn (int (num_val (x # xs)) - int (num_val (y # ys))) = 1" by (simp del: num_val.simps)
      then show ?thesis using 2 False by (simp del: num_val.simps)
    qed
  qed
qed auto

lemma shorter_smaller:
  assumes "digits a" "digits b" "a = [] \<or> hd a \<noteq> CHR ''0''" "b = [] \<or> hd b \<noteq> CHR ''0''" "length a < length b"
  shows "num_val a < num_val b"
proof -
  obtain c s where b: "b = c # s" using assms(5) by (cases b) auto
  have "num_val a < 10 ^ length a" using assms(1) by (rule num_val_bound)
  also have "\<dots> \<le> 10 ^ length s" using assms(5) b by (intro power_increasing) auto
  also have "\<dots> \<le> num_val b" unfolding b using assms(2,4) b by (intro num_val_lower) simp_all
  finally show ?thesis .
qed

lemma trim_hd: "dropWhile ((=) CHR ''0'') s = [] \<or> hd (dropWhile ((=) CHR ''0'') s) \<noteq> CHR ''0''"
  using hd_dropWhile [of "(=) CHR ''0''" s] by metis

lemma compareIntStrings_value:
  assumes "digits a" "digits b"
  shows "compareIntStrings a b = sgn (int (num_val a) - int (num_val b))"
proof -
  let ?a = "dropWhile ((=) CHR ''0'') a" and ?b = "dropWhile ((=) CHR ''0'') b"
  have v: "num_val ?a = num_val a" "num_val ?b = num_val b" by (rule num_val_trim)+
  have d: "digits ?a" "digits ?b" using assms by (simp_all add: digits_trim)
  consider "length ?a = length ?b" | "length ?a < length ?b" | "length ?b < length ?a" by linarith
  then show ?thesis
  proof cases
    case 1
    then show ?thesis using compare_same_length [OF d] v by (simp add: compareIntStrings_def Let_def)
  next
    case 2
    then show ?thesis using shorter_smaller [OF d trim_hd trim_hd] v by (simp add: compareIntStrings_def Let_def)
  next
    case 3
    then show ?thesis using shorter_smaller [OF d(2,1) trim_hd trim_hd] v by (simp add: compareIntStrings_def Let_def)
  qed
qed

subsection \<open>Version comparison is a total preorder\<close>

lemma sgn_comparison: "comparison (\<lambda>x y. sgn (x - y :: int))"
proof unfold_locales
  show "sgn (b - a) = - sgn (a - b)" for a b :: int by (simp add: sgn_if)
qed (auto simp: sgn_if split: if_splits)

interpretation seg: comparison compareNumericOrLex
proof -
  define p where "p x y = sgn ((if isNumeric x then 0 else 1) - (if isNumeric y then 0 else 1 :: int))" for x y
  define q where "q x y = sgn ((if isNumeric x then int (num_val x) else -1) - (if isNumeric y then int (num_val y) else -1))" for x y
  define r where "r x y = strings_Compare (if isNumeric x then [] else x) (if isNumeric y then [] else y)" for x y
  have "comparison p" "comparison q" "comparison r"
    unfolding p_def [abs_def] q_def [abs_def] r_def [abs_def]
    by (rule comparison.pull [OF sgn_comparison] comparison.pull [OF str.comparison_axioms])+
  then have "comparison (\<lambda>x y. cmp_then (p x y) (cmp_then (q x y) (r x y)))"
    by (intro cmp_then_comparison)
  moreover have "compareNumericOrLex = (\<lambda>x y. cmp_then (p x y) (cmp_then (q x y) (r x y)))"
  proof (intro ext)
    show "compareNumericOrLex x y = cmp_then (p x y) (cmp_then (q x y) (r x y))" for x y
      using compareIntStrings_value [of x y]
      by (auto simp: compareNumericOrLex_def cmp_then_def p_def q_def r_def isNumeric_def digits_def)
  qed
  ultimately show "comparison compareNumericOrLex" by simp
qed

text \<open>Segment lists are compared like infinite sequences padded with \<open>"0"\<close>.\<close>

lemma compare_segments_step:
  "compare_segments xs ys = cmp_then (compareNumericOrLex (seg xs) (seg ys)) (compare_segments (tl xs) (tl ys))"
proof (cases "xs = [] \<and> ys = []")
  case True
  then show ?thesis
    using seg.refl [of "''0''"] by (simp add: cmp_then_def seg_def compare_segments.simps)
next
  case False
  then show ?thesis by (subst compare_segments.simps) (simp only: Let_def cmp_then_def if_False)
qed

primrec segments_upto :: "nat \<Rightarrow> string list \<Rightarrow> string list \<Rightarrow> int" where
  "segments_upto 0 xs ys = 0"
| "segments_upto (Suc n) xs ys =
     cmp_then (compareNumericOrLex (seg xs) (seg ys)) (segments_upto n (tl xs) (tl ys))"

lemma segments_upto_comparison: "comparison (segments_upto n)"
proof (induction n)
  case 0
  show ?case by unfold_locales simp_all
next
  case (Suc n)
  have "comparison (\<lambda>xs ys. segments_upto n (tl xs) (tl ys))"
    by (rule comparison.pull [OF Suc.IH])
  then have "comparison (\<lambda>xs ys. cmp_then (compareNumericOrLex (seg xs) (seg ys)) (segments_upto n (tl xs) (tl ys)))"
    by (intro cmp_then_comparison comparison.pull [OF seg.comparison_axioms])
  moreover have "segments_upto (Suc n)
      = (\<lambda>xs ys. cmp_then (compareNumericOrLex (seg xs) (seg ys)) (segments_upto n (tl xs) (tl ys)))"
    by (intro ext) simp
  ultimately show ?case by simp
qed

lemma compare_segments_upto: "length xs \<le> n \<Longrightarrow> length ys \<le> n \<Longrightarrow> compare_segments xs ys = segments_upto n xs ys"
proof (induction n arbitrary: xs ys)
  case 0
  then show ?case by (simp add: compare_segments.simps)
next
  case (Suc n)
  then show ?case by (subst compare_segments_step) simp
qed

lemma compare_segments_comparison: "comparison compare_segments"
proof -
  have upto: "compare_segments xs ys = segments_upto (length xs + length ys + n) xs ys" for xs ys n
    by (rule compare_segments_upto) simp_all
  note c = segments_upto_comparison
  show ?thesis
  proof unfold_locales
    show "compare_segments ys xs = - compare_segments xs ys" for xs ys
      unfolding upto [of xs ys 0] upto [of ys xs 0] add.commute [of "length ys"] by (rule comparison.anti [OF c])
    show "compare_segments xs ys \<in> {-1, 0, 1}" for xs ys
      unfolding upto [of xs ys 0] by (rule comparison.range [OF c])
    show "compare_segments xs zs \<le> 0"
      if "compare_segments xs ys \<le> 0" "compare_segments ys zs \<le> 0" for xs ys zs
    proof -
      let ?n = "length xs + length ys + length zs"
      have "compare_segments xs ys = segments_upto ?n xs ys" "compare_segments ys zs = segments_upto ?n ys zs"
        "compare_segments xs zs = segments_upto ?n xs zs"
        by (rule compare_segments_upto; simp)+
      then show ?thesis using that comparison.trans [OF c] by metis
    qed
  qed
qed

interpretation suffix: comparison compare_suffix
proof -
  define p where "p x y = sgn ((if x = [] then 1 else 0) - (if y = [] then 1 else 0 :: int))" for x y :: string
  have "comparison p"
    unfolding p_def [abs_def] by (rule comparison.pull [OF sgn_comparison])
  then have "comparison (\<lambda>x y. cmp_then (p x y) (strings_Compare x y))"
    by (intro cmp_then_comparison str.comparison_axioms)
  moreover have "compare_suffix = (\<lambda>x y. cmp_then (p x y) (strings_Compare x y))"
    by (intro ext) (auto simp: compare_suffix_def cmp_then_def p_def)
  ultimately show "comparison compare_suffix" by simp
qed

interpretation version: comparison CompareVersions
proof -
  have "comparison (\<lambda>a b. cmp_then (compare_segments (fst (splitVersion a)) (fst (splitVersion b)))
      (compare_suffix (snd (splitVersion a)) (snd (splitVersion b))))"
    by (intro cmp_then_comparison comparison.pull [OF compare_segments_comparison] comparison.pull [OF suffix.comparison_axioms])
  moreover have "CompareVersions = (\<lambda>a b. cmp_then (compare_segments (fst (splitVersion a)) (fst (splitVersion b)))
      (compare_suffix (snd (splitVersion a)) (snd (splitVersion b))))"
    by (intro ext) (simp add: CompareVersions_def cmp_then_def Let_def split_def)
  ultimately show "comparison CompareVersions" by simp
qed

subsection \<open>Properties\<close>

text \<open>Version comparison is a total preorder (results are \<open>-1\<close>, \<open>0\<close>, \<open>1\<close>, swapping the arguments
  negates, and \<open>\<le>\<close> is transitive), segments of digits are compared by their numeric value of any
  length, leading zeros do not matter, missing segments count as zero, and a pre-release with a
  suffix lies below the release with the same numbers.\<close>

theorem version_order:
  "CompareVersions a b \<in> {-1, 0, 1} \<and> CompareVersions b a = - CompareVersions a b
   \<and> (CompareVersions a b \<le> 0 \<and> CompareVersions b c \<le> 0 \<longrightarrow> CompareVersions a c \<le> 0)
   \<and> (isNumeric x \<and> isNumeric y \<longrightarrow> CompareVersions x y = sgn (int (num_val x) - int (num_val y)))
   \<and> (CHR ''-'' \<notin> set a \<longrightarrow> CompareVersions (a @ ''.0'') a = 0
        \<and> (s \<noteq> [] \<longrightarrow> CompareVersions (a @ ''-'' @ s) a = -1))"
proof -
  have split0: "split_dots x = [x]" if "digits x" for x
    using that by (induction x) auto
  have nodash: "CHR ''-'' \<notin> set x" if "isNumeric x" for x
    using that by (auto simp: isNumeric_def list_all_iff char_digit_def Let_def)
  have num: "CompareVersions x y = sgn (int (num_val x) - int (num_val y))" if "isNumeric x" "isNumeric y"
    using that nodash split0 [of x] split0 [of y] compareIntStrings_value [of x y]
    by (simp add: CompareVersions_def splitVersion_def compare_segments_step [of "[x]" "[y]"] seg_def cmp_then_def
        compareNumericOrLex_def compare_segments.simps compare_suffix_def isNumeric_def digits_def Let_def)
  have ne: "split_dots x \<noteq> []" for x
    by (induction x) (auto split: list.splits)
  have pad: "split_dots (a @ ''.0'') = split_dots a @ [''0'']"
    by (induction a) (use ne in \<open>auto split: list.splits\<close>)
  have seg0: "compare_segments (xs @ [''0'']) xs = 0" for xs
  proof (induction xs)
    case Nil
    then show ?case
      by (subst compare_segments_step) (simp add: seg_def cmp_then_def compare_segments.simps seg.refl)
  next
    case (Cons x xs)
    then show ?case
      by (subst compare_segments_step) (simp add: seg_def cmp_then_def seg.refl)
  qed
  have 4: "CompareVersions (a @ ''.0'') a = 0" if "CHR ''-'' \<notin> set a"
    using that by (simp add: CompareVersions_def splitVersion_def pad seg0 compare_suffix_def)
  have 5: "CompareVersions (a @ ''-'' @ s) a = -1" if "CHR ''-'' \<notin> set a" "s \<noteq> []"
  proof -
    have "takeWhile ((\<noteq>) CHR ''-'') (a @ ''-'' @ s) = a" "dropWhile ((\<noteq>) CHR ''-'') (a @ ''-'' @ s) = ''-'' @ s"
      using that(1) by (induction a) auto
    moreover have "compare_segments (split_dots a) (split_dots a) = 0"
      by (rule comparison.refl [OF compare_segments_comparison])
    ultimately show ?thesis
      using that by (simp add: CompareVersions_def splitVersion_def compare_suffix_def)
  qed
  show ?thesis
    using version.range [of a b] version.anti [of b a] version.trans [of a b c] num 4 5 by blast
qed

theorem version_order_witness:
  "CompareVersions ''0.9'' ''0.10'' = -1 \<and> CompareVersions ''0.10'' ''0.10-x'' = 1
   \<and> CompareVersions ''7'' ''10'' = -1"
proof -
  have "CompareVersions ''7'' ''10'' = sgn (int (num_val ''7'') - int (num_val ''10''))"
    using version_order [of "''0''" "''0''" "''0''" "''7''" "''10''" "[]"]
    by (simp add: isNumeric_def char_digit_def)
  moreover have "CompareVersions ''0.9'' ''0.10'' = -1" "CompareVersions ''0.10'' ''0.10-x'' = 1"
    by code_simp+
  ultimately show ?thesis by (simp add: dig_def)
qed

end
