(* ===== verification/Session_Start.thy ===== *)
theory Session_Start
  imports Nodes Session_Manager Session_Router Version_Order
begin

text \<open>
  Session start on the server (\<open>src/server/internal/api/exec_handlers.go\<close>, \<open>shell_handlers.go\<close>,
  \<open>file_handlers.go\<close>, \<open>tunnel_handlers.go\<close>, \<open>desktop_handlers.go\<close>): the request checks of each kind of
  session, the shared \<open>startSession\<close> with relay routing, and the callbacks it leaves with the session
  manager. This is where the database, the registry of agent connections, the session manager, the
  pool of relays and the ticket signer meet; \<open>center\<close> holds all five, the callbacks by session, and
  the messages sent to agents.
  The router always sets up the pool and the signer, and \<open>h.rtv\<close> exactly with \<open>XNC_RTV_EMBEDDED\<close>; a
  registered connection always has its \<open>Send\<close>. \<open>rq_fails\<close> also decides which sends fail. JSON encoding
  of session parameters is the argument \<open>enc\<close>.
\<close>

subsection \<open>Strings\<close>

text \<open>\<open>strconv.Atoi\<close>: the value it returns, which is 0 after a syntax error and the nearest bound after a
  range error, and whether it returns an error.\<close>

definition Atoi :: "string \<Rightarrow> int \<times> bool" where
  "Atoi s =
     (let neg = (s \<noteq> [] \<and> hd s = CHR ''-''); body = (if s \<noteq> [] \<and> (hd s = CHR ''-'' \<or> hd s = CHR ''+'') then tl s else s) in
      case decimal_val body of
        None \<Rightarrow> (0, False)
      | Some k \<Rightarrow>
          let n = int k in
          if neg then (if n > 2 ^ 63 then (- (2 ^ 63), False) else (- n, True))
          else (if n \<ge> 2 ^ 63 then (2 ^ 63 - 1, False) else (n, True)))"

definition Itoa :: "int \<Rightarrow> string" where
  "Itoa n = (if n < 0 then CHR ''-'' # nat_decimal (nat (- n)) else nat_decimal (nat n))"

lemma Atoi_range: "fst (Atoi s) \<le> 2 ^ 63 - 1" "- (2 ^ 63) \<le> fst (Atoi s)"
  by (auto simp: Atoi_def Let_def split: option.splits)

text \<open>The loop of \<open>compareSemver\<close> over the segments; a missing segment counts as 0.\<close>

definition semver_seg :: "string list \<Rightarrow> int" where
  "semver_seg xs = (case xs of [] \<Rightarrow> 0 | x # _ \<Rightarrow> fst (Atoi x))"

function semver_loop :: "string list \<Rightarrow> string list \<Rightarrow> int" where
  "semver_loop pa pb =
     (if pa = [] \<and> pb = [] then 0
      else if semver_seg pa \<noteq> semver_seg pb then (if semver_seg pa < semver_seg pb then -1 else 1)
      else semver_loop (tl pa) (tl pb))"
  by auto
termination
  by (relation "measure (\<lambda>(pa, pb). length pa + length pb)") (auto simp: neq_Nil_conv)

declare semver_loop.simps [simp del]

definition compareSemver :: "string \<Rightarrow> string \<Rightarrow> int" where
  "compareSemver a b = semver_loop (split_dots a) (split_dots b)"

text \<open>\<open>net.SplitHostPort\<close>; \<open>None\<close> for an error.\<close>

definition last_index :: "char \<Rightarrow> string \<Rightarrow> nat option" where
  "last_index ch s = (if ch \<in> set s then Some (length s - 1 - length (takeWhile ((\<noteq>) ch) (rev s))) else None)"

definition SplitHostPort :: "string \<Rightarrow> (string \<times> string) option" where
  "SplitHostPort s =
     (case last_index CHR '':'' s of
        None \<Rightarrow> None
      | Some i \<Rightarrow>
          if hd s = CHR ''['' then
            (case strings_Index s '']'' of
               None \<Rightarrow> None
             | Some e \<Rightarrow>
                 if e + 1 = i \<and> CHR ''['' \<notin> set (drop 1 s) \<and> CHR '']'' \<notin> set (drop (e + 1) s)
                 then Some (drop 1 (take e s), drop (i + 1) s) else None)
          else if CHR '':'' \<in> set (take i s) \<or> CHR ''['' \<in> set s \<or> CHR '']'' \<in> set s then None
          else Some (take i s, drop (i + 1) s))"

definition hostOnly :: "string \<Rightarrow> string" where
  "hostOnly host = (case SplitHostPort host of Some (h, _) \<Rightarrow> h | None \<Rightarrow> host)"

text \<open>The regular expressions of the file requests: an absolute Windows, UNC or POSIX path, and 64
  lower-case hexadecimal digits.\<close>

definition is_letter :: "char \<Rightarrow> bool" where
  "is_letter ch = (let n = of_char ch :: nat in (65 \<le> n \<and> n \<le> 90) \<or> (97 \<le> n \<and> n \<le> 122))"

definition any_but_newline :: "string \<Rightarrow> bool" where
  "any_but_newline s = (s \<noteq> [] \<and> hd s \<noteq> CHR 0x0A)"

definition absPathRe :: "string \<Rightarrow> bool" where
  "absPathRe s =
     ((length s \<ge> 3 \<and> is_letter (s ! 0) \<and> s ! 1 = CHR '':'' \<and> s ! 2 = CHR 0x5C \<and> any_but_newline (drop 3 s))
      \<or> (length s \<ge> 2 \<and> s ! 0 = CHR 0x5C \<and> s ! 1 = CHR 0x5C \<and> any_but_newline (drop 2 s))
      \<or> (s \<noteq> [] \<and> hd s = CHR ''/''))"

definition sha256Re :: "string \<Rightarrow> bool" where
  "sha256Re s = (length s = 64 \<and> list_all (\<lambda>ch. ch \<in> set ''0123456789abcdef'') s)"

subsection \<open>Requests, parameters, messages\<close>

definition KindFile :: string where "KindFile = ''file''"
definition KindTunnel :: string where "KindTunnel = ''tunnel''"

text \<open>What is read of the HTTP request: the path parameter \<open>id\<close>, two headers, the host, and TLS.\<close>

record http_req =
  hr_ID :: string
  hr_UserAgent :: string
  hr_ForwardedProto :: string
  hr_TLS :: bool
  hr_Host :: string

record ExecParams =
  xp_Command :: string
  xp_Script :: string
  xp_TimeoutSec :: int
  xp_Cwd :: string
  xp_Shell :: string
  xp_Env :: "string list"
  xp_System :: bool

record ShellParams =
  sp_Cols :: int
  sp_Rows :: int
  sp_Shell :: string
  sp_System :: bool

record FileParams =
  fp_Direction :: string
  fp_Path :: string
  fp_Size :: int
  fp_Sha256 :: string

record DesktopParams =
  dp_StreamEndpoint :: string
  dp_HostToken :: string
  dp_WTSSession :: "32 word"
  dp_TLSInsecure :: bool
  dp_CertSHA256 :: string

datatype session_params =
    ExecP ExecParams
  | ShellP ShellParams
  | FileP FileParams
  | TunnelP string string int
  | DesktopP DesktopParams

record SessionOpen =
  so_SessionID :: string
  so_Kind :: string
  so_Params :: string
  so_AgentToken :: string
  so_WsURL :: string
  so_ExpiresAt :: go_time

datatype ctl_msg = SessionOpenMsg SessionOpen | SessionCloseMsg string string

text \<open>The random values of one start: \<open>uuid.NewString\<close> and three \<open>newToken\<close>.\<close>

record fresh =
  fr_sid :: string
  fr_agent :: string
  fr_client :: string
  fr_lease :: string

text \<open>What the callbacks of a session captured: user, node, kind and closing action; the relay of the data
  legs (\<open>relayFinish\<close>); and relay and node of a desktop session (\<open>finishExtra\<close>).\<close>

record finish_hook =
  fh_User :: uuid
  fh_Node :: uuid
  fh_Kind :: string
  fh_Action :: string
  fh_Relay :: "string option"
  fh_Desktop :: "(string \<times> string) option"

text \<open>Calls on the embedded relay.\<close>

datatype rtv_call = RtvGrant string string string | RtvKill string string string

record center =
  ct_sv :: server
  ct_mgr :: Manager
  ct_pool :: Pool
  ct_sign :: Signer
  ct_hooks :: "(string, finish_hook) table"
  ct_sent :: "(nat \<times> ctl_msg) list"
  ct_rtv :: "rtv_call list"

definition EmbeddedRelayID :: string where "EmbeddedRelayID = ''rl-0''"

definition ct_db :: "center \<Rightarrow> db" where
  "ct_db c = sv_db (ct_sv c)"

definition ct_audit :: "request \<Rightarrow> uuid \<Rightarrow> uuid \<Rightarrow> string \<Rightarrow> (string \<times> string) list \<Rightarrow> center \<Rightarrow> center" where
  "ct_audit q u n ac meta c = c\<lparr>ct_sv := (ct_sv c)\<lparr>sv_db := audit q (Some u) None (Some n) ac meta (ct_db c)\<rparr>\<rparr>"

text \<open>A message on the control connection of a node; the flag says whether it was sent.\<close>

definition send_ctl :: "request \<Rightarrow> uuid \<Rightarrow> ctl_msg \<Rightarrow> center \<Rightarrow> bool \<times> center" where
  "send_ctl q n m c =
     (case registry_Get n (sv_reg (ct_sv c)) of
        None \<Rightarrow> (False, c)
      | Some k \<Rightarrow> if rq_fails q ''Send'' then (False, c) else (True, c\<lparr>ct_sent := ct_sent c @ [(conn_ptr k, m)]\<rparr>))"

subsection \<open>Callbacks\<close>

text \<open>The finish callback: audit row, kill order for the data legs, kill order for the desktop.\<close>

definition run_finish :: "request \<Rightarrow> finish_hook \<Rightarrow> string \<Rightarrow> string \<Rightarrow> center \<Rightarrow> center" where
  "run_finish q k sid reason c =
     (let c1 = ct_audit q (fh_User k) (fh_Node k) (fh_Action k)
                 [(''reason'', reason), (''kind'', fh_Kind k), (''sessionId'', sid)] c;
          c2 = (case fh_Relay k of
                  None \<Rightarrow> c1
                | Some rid \<Rightarrow> c1\<lparr>ct_pool := SessionKill rid (fh_Node k) sid ''session-end'' (ct_pool c1)\<rparr>)
      in case fh_Desktop k of
           None \<Rightarrow> c2
         | Some (rid, node) \<Rightarrow>
             if rid \<noteq> EmbeddedRelayID then c2\<lparr>ct_pool := SessionKill rid node sid reason (ct_pool c2)\<rparr>
             else c2\<lparr>ct_rtv := ct_rtv c2 @ [RtvKill node sid reason]\<rparr>)"

text \<open>What the manager's close calls into: the notice to the agent and the finish callback.\<close>

fun run_effect :: "request \<Rightarrow> mgr_effect \<Rightarrow> center \<Rightarrow> center" where
  "run_effect q (NotifyAgent sid reason) c =
     (case tget (ct_hooks c) sid of
        None \<Rightarrow> c
      | Some k \<Rightarrow> snd (send_ctl q (fh_Node k) (SessionCloseMsg sid reason) c))"
| "run_effect q (Finish sid reason) c =
     (case tget (ct_hooks c) sid of None \<Rightarrow> c | Some k \<Rightarrow> run_finish q k sid reason c)"
| "run_effect q (CloseNow ws) c = c"
| "run_effect q (StartPump sid) c = c"

text \<open>An operation of the manager with the callbacks it runs.\<close>

definition with_mgr :: "request \<Rightarrow> (Manager \<Rightarrow> Manager) \<Rightarrow> center \<Rightarrow> center" where
  "with_mgr q f c =
     fold (run_effect q) (drop (length (m_fx (ct_mgr c))) (m_fx (f (ct_mgr c)))) (c\<lparr>ct_mgr := f (ct_mgr c)\<rparr>)"

subsection \<open>The shared start\<close>

definition clientSupportsRelayWS :: "http_req \<Rightarrow> bool" where
  "clientSupportsRelayWS h =
     (let ua = hr_UserAgent h in
      if take 8 ua = ''xnc-cli/'' then compareSemver (drop 8 ua) ''0.3.1'' \<ge> 0
      else ua \<noteq> [] \<and> take 15 ua \<noteq> ''Go-http-client/'')"

definition wsBaseURL :: "http_req \<Rightarrow> string" where
  "wsBaseURL h = (if hr_ForwardedProto h = ''https'' \<or> hr_TLS h then ''wss'' else ''ws'') @ ''://'' @ hr_Host h"

definition sdata_addr :: "EndpointDesc list \<Rightarrow> string option" where
  "sdata_addr eps =
     map_option (\<lambda>e. JoinHostPort (ep_Host e) (Itoa (ep_Port e)))
       (find (\<lambda>e. ep_Transport e = ''sdata'' \<and> ep_Host e \<noteq> [] \<and> ep_Port e > 0) eps)"

definition relaySessionEndpoint :: "(rat \<Rightarrow> rat) \<Rightarrow> string \<Rightarrow> go_time \<Rightarrow> Pool \<Rightarrow> (string \<times> string) option \<times> Pool" where
  "relaySessionEndpoint f64 nodeID now p =
     (case AssignData f64 nodeID now p of
        (None, p1) \<Rightarrow> (None, p1)
      | (Some a, p1) \<Rightarrow> (map_option (\<lambda>addr. (addr, as_RelayID a)) (sdata_addr (as_Endpoints a)), p1))"

definition sessionTicketTTL :: duration where "sessionTicketTTL = Hour"

text \<open>Where the two legs of a new session go: main site, or the data legs of a relay.\<close>

record legs =
  lg_agent :: string
  lg_client :: string
  lg_relay :: "string option"

definition main_legs :: "http_req \<Rightarrow> CreateResult \<Rightarrow> legs" where
  "main_legs h res =
     \<lparr>lg_agent = wsBaseURL h @ ''/api/agent/session?token='' @ cr_AgentToken res,
      lg_client = ''/api/session/'' @ cr_Session res @ ''?token='' @ cr_ClientToken res, lg_relay = None\<rparr>"

definition relay_legs :: "ticket_lib \<Rightarrow> Signer \<Rightarrow> string \<Rightarrow> uuid \<Rightarrow> string \<Rightarrow> string \<Rightarrow> go_time \<Rightarrow> legs" where
  "relay_legs L s sid node addr rid now =
     \<lparr>lg_agent = ''wss://'' @ addr @ ''/api/agent/session?token=''
        @ SessionDataTicket L sid node rid ''agent'' sessionTicketTTL now s,
      lg_client = ''wss://'' @ addr @ ''/api/session/'' @ sid @ ''?token=''
        @ SessionDataTicket L sid node rid ''client'' sessionTicketTTL now s,
      lg_relay = Some rid\<rparr>"

definition route_legs ::
  "ticket_lib \<Rightarrow> (rat \<Rightarrow> rat) \<Rightarrow> request \<Rightarrow> http_req \<Rightarrow> uuid \<Rightarrow> string \<Rightarrow> CreateResult \<Rightarrow> center \<Rightarrow> legs \<times> center" where
  "route_legs L f64 q h n kind res c =
     (if kind \<noteq> KindDesktop \<and> clientSupportsRelayWS h then
        (case relaySessionEndpoint f64 n (rq_now q) (ct_pool c) of
           (None, p) \<Rightarrow> (main_legs h res, c\<lparr>ct_pool := p\<rparr>)
         | (Some (addr, rid), p) \<Rightarrow>
             (relay_legs L (ct_sign c) (cr_Session res) n addr rid (rq_now q),
              c\<lparr>ct_pool := p, ct_mgr := MarkRelayRouted (cr_Session res) (ct_mgr c)\<rparr>))
      else (main_legs h res, c))"

definition install_hooks :: "string \<Rightarrow> finish_hook \<Rightarrow> center \<Rightarrow> center" where
  "install_hooks sid k c =
     c\<lparr>ct_hooks := tput sid k (ct_hooks c), ct_mgr := SetNotifyFn sid (SetFinishFn sid (ct_mgr c))\<rparr>"

record start_answer =
  sa_sessionId :: string
  sa_token :: string
  sa_expiresAt :: go_time
  sa_websocketUrl :: string

abbreviation node_not_found :: api_error where
  "node_not_found \<equiv> proto_Err 404 ''NODE_NOT_FOUND'' ''node not found''"

abbreviation node_offline :: api_error where
  "node_offline \<equiv> proto_Err 409 ''NODE_OFFLINE'' ''node is offline''"

text \<open>After creation: route the legs, install the callbacks, send the order to the agent, write the audit
  row, answer.\<close>

definition open_session ::
  "ticket_lib \<Rightarrow> (rat \<Rightarrow> rat) \<Rightarrow> request \<Rightarrow> actor \<Rightarrow> http_req \<Rightarrow> uuid \<Rightarrow> string \<Rightarrow> string \<Rightarrow> string \<Rightarrow> string \<Rightarrow>
   (string \<times> string) list \<Rightarrow> (string \<times> string) option \<Rightarrow> CreateResult \<Rightarrow> center \<Rightarrow> (api_error + start_answer) \<times> center" where
  "open_session L f64 q a h n kind params openAction closeAction auditExtra desk res c =
     (let sid = cr_Session res;
          (lg, c1) = route_legs L f64 q h n kind res c;
          c2 = install_hooks sid \<lparr>fh_User = fst a, fh_Node = n, fh_Kind = kind, fh_Action = closeAction,
                 fh_Relay = lg_relay lg, fh_Desktop = desk\<rparr> c1;
          (sent, c3) = send_ctl q n (SessionOpenMsg \<lparr>so_SessionID = sid, so_Kind = kind, so_Params = params,
                 so_AgentToken = cr_AgentToken res, so_WsURL = lg_agent lg, so_ExpiresAt = cr_ExpiresAt res\<rparr>) c2
      in if \<not> sent then (Inl node_offline, with_mgr q (NotifyClose sid ''node-offline'') c3)
         else (Inr \<lparr>sa_sessionId = sid, sa_token = cr_ClientToken res, sa_expiresAt = cr_ExpiresAt res,
                    sa_websocketUrl = lg_client lg\<rparr>,
               ct_audit q (fst a) n openAction ([(''kind'', kind), (''sessionId'', sid)] @ auditExtra) c3))"

definition startSession ::
  "ticket_lib \<Rightarrow> (rat \<Rightarrow> rat) \<Rightarrow> (session_params \<Rightarrow> string) \<Rightarrow> request \<Rightarrow> actor \<Rightarrow> http_req \<Rightarrow> fresh \<Rightarrow> string \<Rightarrow> session_params \<Rightarrow>
   string \<Rightarrow> string \<Rightarrow> (string \<times> string) list \<Rightarrow> (string \<times> string) option \<Rightarrow> center \<Rightarrow> (api_error + CreateResult \<times> start_answer) \<times> center" where
  "startSession L f64 enc q a h fr kind params openAction closeAction auditExtra desk c =
     (case rq_parse q (hr_ID h) of
        None \<Rightarrow> (Inl node_not_found, c)
      | Some n \<Rightarrow> (case requireMinRole q a n ''operator'' (ct_db c) of
          Inl e \<Rightarrow> (Inl e, c)
        | Inr _ \<Rightarrow>
            (case mgr_Create (sv_reg (ct_sv c)) n (fst a) kind (enc params) (fr_sid fr) (fr_agent fr) (fr_client fr)
                    (fr_lease fr) (rq_now q) (ct_mgr c) of
               (Inl e, m) \<Rightarrow> (Inl e, c\<lparr>ct_mgr := m\<rparr>)
             | (Inr res, m) \<Rightarrow>
                 (case open_session L f64 q a h n kind (enc params) openAction closeAction auditExtra desk res (c\<lparr>ct_mgr := m\<rparr>) of
                    (Inl e, c1) \<Rightarrow> (Inl e, c1)
                  | (Inr r, c1) \<Rightarrow> (Inr (res, r), c1)))))"

subsection \<open>The kinds of session\<close>

record execReq =
  er_Command :: string
  er_Script :: string
  er_TimeoutSec :: "int option"
  er_Cwd :: string
  er_Shell :: string
  er_Env :: "string list"
  er_System :: bool

record shellReq =
  hq_Cols :: int
  hq_Rows :: int
  hq_Shell :: string
  hq_System :: bool

record fileReq =
  fq_Path :: string
  fq_Size :: int
  fq_Sha256 :: string

definition execScriptMaxBytes :: int where "execScriptMaxBytes = 256 * 1024"
definition execTimeoutDefault :: int where "execTimeoutDefault = 300"
definition execTimeoutMax :: int where "execTimeoutMax = 86400"
definition shellDefaultCols :: int where "shellDefaultCols = 120"
definition shellDefaultRows :: int where "shellDefaultRows = 30"
definition shellDimMax :: int where "shellDimMax = 1000"
definition fileMaxBytes :: int where "fileMaxBytes = 256 * 1024 * 1024"

abbreviation bad_input :: "string \<Rightarrow> api_error" where
  "bad_input m \<equiv> proto_Err 400 ''INTERNAL'' m"

definition requireSystemRole :: "request \<Rightarrow> actor \<Rightarrow> http_req \<Rightarrow> db \<Rightarrow> api_error option" where
  "requireSystemRole q a h d =
     (case rq_parse q (hr_ID h) of
        None \<Rightarrow> Some node_not_found
      | Some n \<Rightarrow> (case requireMinRole q a n ''owner'' d of Inl e \<Rightarrow> Some e | Inr _ \<Rightarrow> None))"

definition system_audit :: "bool \<Rightarrow> (string \<times> string) list" where
  "system_audit b = (if b then [(''system'', ''true'')] else [])"

text \<open>The checks of each handler: the first refusal, or the parameters of the session. A body that does not
  decode is \<open>None\<close>.\<close>

definition exec_check :: "request \<Rightarrow> actor \<Rightarrow> http_req \<Rightarrow> execReq option \<Rightarrow> db \<Rightarrow> api_error + session_params" where
  "exec_check q a h body d =
     (case body of
        None \<Rightarrow> Inl (bad_input ''bad request'')
      | Some r \<Rightarrow>
          (case (if er_System r then requireSystemRole q a h d else None) of
             Some e \<Rightarrow> Inl e
           | None \<Rightarrow>
               let timeout = (case er_TimeoutSec r of None \<Rightarrow> execTimeoutDefault | Some t \<Rightarrow> t) in
               if er_Command r = [] \<and> er_Script r = [] then Inl (bad_input ''command or script required'')
               else if er_Command r \<noteq> [] \<and> er_Script r \<noteq> [] then Inl (bad_input ''command and script are exclusive'')
               else if int (length (er_Script r)) > execScriptMaxBytes then Inl (proto_Err 400 ''FILE_TOO_LARGE'' ''script exceeds 256KB'')
               else if timeout < 1 \<or> timeout > execTimeoutMax then Inl (bad_input ''timeoutSec out of range'')
               else Inr (ExecP \<lparr>xp_Command = er_Command r, xp_Script = er_Script r, xp_TimeoutSec = timeout, xp_Cwd = er_Cwd r,
                      xp_Shell = er_Shell r, xp_Env = er_Env r, xp_System = er_System r\<rparr>)))"

definition shell_check :: "request \<Rightarrow> actor \<Rightarrow> http_req \<Rightarrow> shellReq option \<Rightarrow> db \<Rightarrow> api_error + session_params" where
  "shell_check q a h body d =
     (case body of
        None \<Rightarrow> Inl (bad_input ''bad request'')
      | Some r \<Rightarrow>
          (case (if hq_System r then requireSystemRole q a h d else None) of
             Some e \<Rightarrow> Inl e
           | None \<Rightarrow>
               let cols = (if hq_Cols r = 0 then shellDefaultCols else hq_Cols r);
                   rows = (if hq_Rows r = 0 then shellDefaultRows else hq_Rows r) in
               if cols < 1 \<or> cols > shellDimMax \<or> rows < 1 \<or> rows > shellDimMax then Inl (bad_input ''cols/rows must be 1-1000'')
               else if hq_Shell r \<noteq> [] \<and> hq_Shell r \<noteq> ''pwsh'' \<and> hq_Shell r \<noteq> ''powershell''
               then Inl (bad_input ''shell must be pwsh or powershell'')
               else Inr (ShellP \<lparr>sp_Cols = cols, sp_Rows = rows, sp_Shell = hq_Shell r, sp_System = hq_System r\<rparr>)))"

definition upload_check :: "fileReq option \<Rightarrow> api_error + session_params" where
  "upload_check body =
     (case body of
        None \<Rightarrow> Inl (bad_input ''bad request'')
      | Some r \<Rightarrow>
          if \<not> absPathRe (fq_Path r) then Inl (bad_input ''path must be absolute'')
          else if fq_Size r \<le> 0 \<or> fq_Size r > fileMaxBytes then Inl (proto_Err 400 ''FILE_TOO_LARGE'' ''size out of range (1B-256MB)'')
          else if \<not> sha256Re (fq_Sha256 r) then Inl (bad_input ''sha256 must be 64 hex chars'')
          else Inr (FileP \<lparr>fp_Direction = ''upload'', fp_Path = fq_Path r, fp_Size = fq_Size r, fp_Sha256 = fq_Sha256 r\<rparr>))"

definition download_check :: "fileReq option \<Rightarrow> api_error + session_params" where
  "download_check body =
     (case body of
        None \<Rightarrow> Inl (bad_input ''bad request'')
      | Some r \<Rightarrow>
          if \<not> absPathRe (fq_Path r) then Inl (bad_input ''path must be absolute'')
          else Inr (FileP \<lparr>fp_Direction = ''download'', fp_Path = fq_Path r, fp_Size = 0, fp_Sha256 = []\<rparr>))"

definition tunnelTargets :: "(string \<times> string \<times> int) list" where
  "tunnelTargets = [(''rdp'', ''127.0.0.1'', 3389), (''ssh'', ''127.0.0.1'', 22)]"

definition tunnel_check :: "string option \<Rightarrow> api_error + session_params" where
  "tunnel_check body =
     (case body of
        None \<Rightarrow> Inl (bad_input ''bad request'')
      | Some t \<Rightarrow> (case map_of tunnelTargets t of
          None \<Rightarrow> Inl (bad_input ''unknown tunnel target'')
        | Some (host, port) \<Rightarrow> Inr (TunnelP t host port)))"

text \<open>The environment of the handlers: ticket library, float rounding, JSON encoder.\<close>

record start_env =
  en_lib :: ticket_lib
  en_f64 :: "rat \<Rightarrow> rat"
  en_json :: "session_params \<Rightarrow> string"

definition start_checked ::
  "start_env \<Rightarrow> request \<Rightarrow> actor \<Rightarrow> http_req \<Rightarrow> fresh \<Rightarrow> string \<Rightarrow> string \<Rightarrow> string \<Rightarrow> bool \<Rightarrow> api_error + session_params \<Rightarrow> center
   \<Rightarrow> (api_error + CreateResult \<times> start_answer) \<times> center" where
  "start_checked E q a h fr kind openAction closeAction system checked c =
     (case checked of
        Inl e \<Rightarrow> (Inl e, c)
      | Inr p \<Rightarrow> startSession (en_lib E) (en_f64 E) (en_json E) q a h fr kind p openAction closeAction (system_audit system) None c)"

definition execStart ::
  "start_env \<Rightarrow> request \<Rightarrow> actor \<Rightarrow> http_req \<Rightarrow> fresh \<Rightarrow> execReq option \<Rightarrow> center \<Rightarrow> (api_error + CreateResult \<times> start_answer) \<times> center" where
  "execStart E q a h fr body c =
     start_checked E q a h fr KindExec ''exec.start'' ''exec.finish'' (case body of None \<Rightarrow> False | Some r \<Rightarrow> er_System r)
       (exec_check q a h body (ct_db c)) c"

definition shellStart ::
  "start_env \<Rightarrow> request \<Rightarrow> actor \<Rightarrow> http_req \<Rightarrow> fresh \<Rightarrow> shellReq option \<Rightarrow> center \<Rightarrow> (api_error + CreateResult \<times> start_answer) \<times> center" where
  "shellStart E q a h fr body c =
     start_checked E q a h fr KindShell ''shell.open'' ''shell.close'' (case body of None \<Rightarrow> False | Some r \<Rightarrow> hq_System r)
       (shell_check q a h body (ct_db c)) c"

definition fileUpload ::
  "start_env \<Rightarrow> request \<Rightarrow> actor \<Rightarrow> http_req \<Rightarrow> fresh \<Rightarrow> fileReq option \<Rightarrow> center \<Rightarrow> (api_error + CreateResult \<times> start_answer) \<times> center" where
  "fileUpload E q a h fr body c =
     start_checked E q a h fr KindFile ''file.upload'' ''file.upload'' False (upload_check body) c"

definition fileDownload ::
  "start_env \<Rightarrow> request \<Rightarrow> actor \<Rightarrow> http_req \<Rightarrow> fresh \<Rightarrow> fileReq option \<Rightarrow> center \<Rightarrow> (api_error + CreateResult \<times> start_answer) \<times> center" where
  "fileDownload E q a h fr body c =
     start_checked E q a h fr KindFile ''file.download'' ''file.download'' False (download_check body) c"

definition tunnelStart ::
  "start_env \<Rightarrow> request \<Rightarrow> actor \<Rightarrow> http_req \<Rightarrow> fresh \<Rightarrow> string option \<Rightarrow> center \<Rightarrow> (api_error + CreateResult \<times> start_answer) \<times> center" where
  "tunnelStart E q a h fr body c =
     (let ac = (case body of None \<Rightarrow> [] | Some t \<Rightarrow> t @ ''.open'') in
      start_checked E q a h fr KindTunnel ac ac False (tunnel_check body) c)"

subsection \<open>Desktop\<close>

record rtv_config =
  cf_RTVEmbedded :: bool
  cf_RTVStreamEndpoint :: string
  cf_RTVInsecureTLS :: bool
  cf_RTVWTPublicPort :: string

definition viewerTicketTTL :: duration where "viewerTicketTTL = 24 * Hour"

definition viewerName :: "request \<Rightarrow> actor \<Rightarrow> db \<Rightarrow> string" where
  "viewerName q a d =
     (case rd q ''GetUserByID'' (GetUserByID (fst a) d) of
        Some u \<Rightarrow> if usr_DisplayName u \<noteq> [] then usr_DisplayName u else usr_Email (snd a)
      | None \<Rightarrow> usr_Email (snd a))"

definition relayDisplayHost :: "EndpointDesc list \<Rightarrow> string" where
  "relayDisplayHost eps =
     (case find (\<lambda>e. ep_Transport e = ''sdata'' \<and> ep_Host e \<noteq> []) eps of Some e \<Rightarrow> ep_Host e | None \<Rightarrow> [])"

definition relayHostLeg :: "EndpointDesc list \<Rightarrow> string" where
  "relayHostLeg eps =
     (case find (\<lambda>e. ep_Transport e = ''quic'' \<and> ep_Host e \<noteq> []) eps of
        Some e \<Rightarrow> JoinHostPort (ep_Host e) (Itoa (ep_Port e)) | None \<Rightarrow> [])"

definition candidateCertSHA :: "EndpointDesc list \<Rightarrow> string" where
  "candidateCertSHA eps =
     (case find (\<lambda>e. ep_Transport e = ''wt'' \<and> ep_CertSHA256 e \<noteq> []) eps of Some e \<Rightarrow> ep_CertSHA256 e | None \<Rightarrow> [])"

definition orderCandidates :: "EndpointDesc list \<Rightarrow> EndpointDesc list" where
  "orderCandidates eps = filter (\<lambda>e. ep_Transport e = ''wt'') eps @ filter (\<lambda>e. ep_Transport e = ''ws'') eps"

definition candidateHostPort :: "EndpointDesc list \<Rightarrow> string \<Rightarrow> string" where
  "candidateHostPort eps transport =
     (case find (\<lambda>e. ep_Transport e = transport \<and> ep_Host e \<noteq> [] \<and> ep_Port e > 0) eps of
        Some e \<Rightarrow> JoinHostPort (ep_Host e) (Itoa (ep_Port e)) | None \<Rightarrow> [])"

text \<open>The relay of a desktop session: the assigned one, or the embedded one; \<open>None\<close> when there is neither.\<close>

definition desktop_relay :: "rtv_config \<Rightarrow> Assignment option \<Rightarrow> (string \<times> string \<times> EndpointDesc list) option" where
  "desktop_relay cfg asg =
     (case asg of
        Some a \<Rightarrow> Some (as_RelayID a, as_Region a, as_Endpoints a)
      | None \<Rightarrow> if cf_RTVEmbedded cfg then Some (EmbeddedRelayID, ''embedded'', []) else None)"

definition desktop_params :: "rtv_config \<Rightarrow> string \<Rightarrow> EndpointDesc list \<Rightarrow> string \<Rightarrow> 32 word \<Rightarrow> DesktopParams" where
  "desktop_params cfg rid eps hostToken wts =
     \<lparr>dp_StreamEndpoint = (if rid \<noteq> EmbeddedRelayID \<and> relayHostLeg eps \<noteq> [] then relayHostLeg eps else cf_RTVStreamEndpoint cfg),
      dp_HostToken = hostToken, dp_WTSSession = wts, dp_TLSInsecure = cf_RTVInsecureTLS cfg,
      dp_CertSHA256 = candidateCertSHA eps\<rparr>"

text \<open>The viewer's addresses: candidates, WebTransport URL, WebSocket URL.\<close>

definition desktop_urls ::
  "rtv_config \<Rightarrow> http_req \<Rightarrow> string \<Rightarrow> string \<Rightarrow> EndpointDesc list \<Rightarrow> EndpointDesc list \<times> string \<times> string" where
  "desktop_urls cfg h rid region eps =
     (if rid \<noteq> EmbeddedRelayID then
        (let ordered = map (\<lambda>e. e\<lparr>ep_RelayID := rid, ep_Region := region, ep_DisplayHost := relayDisplayHost eps\<rparr>)
                         (orderCandidates eps);
             wt = candidateHostPort ordered ''wt''; ws = candidateHostPort ordered ''ws''
         in (ordered, if wt \<noteq> [] then ''https://'' @ wt @ ''/wt'' else [],
             if ws \<noteq> [] then ''wss://'' @ ws @ ''/ws'' else []))
      else
        (let p = cf_RTVWTPublicPort cfg;
             wtHost = (if p \<noteq> [] \<and> hostOnly (hr_Host h) \<noteq> [] then hostOnly (hr_Host h) @ '':'' @ p else hr_Host h);
             host = (case SplitHostPort (hr_Host h) of Some (x, _) \<Rightarrow> if x = [] then hr_Host h else x | None \<Rightarrow> hr_Host h);
             wtPort = (if p \<noteq> [] \<and> snd (Atoi p) then fst (Atoi p) else 443);
             leg = (\<lambda>t port path. \<lparr>ep_Transport = t, ep_Host = host, ep_Port = port, ep_ALPN = [], ep_Path = path,
                      ep_CertSHA256 = [], ep_RelayID = EmbeddedRelayID, ep_Region = ''embedded'', ep_DisplayHost = []\<rparr>)
         in ([leg ''wt'' wtPort ''/wt'', leg ''ws'' 443 ''/ws''],
             ''https://'' @ wtHost @ ''/wt'', ''wss://'' @ hr_Host h @ ''/ws'')))"

record desktop_answer =
  da_start :: start_answer
  da_wtUrl :: string
  da_wsUrl :: string
  da_granted :: bool
  da_leaseId :: string
  da_candidates :: "EndpointDesc list"

text \<open>After a successful start: the viewer ticket replaces the token, and the relay gets the first lease.\<close>

definition desktop_grant :: "string \<Rightarrow> string \<Rightarrow> string \<Rightarrow> string \<Rightarrow> center \<Rightarrow> center" where
  "desktop_grant rid node sid name c =
     (if rid = EmbeddedRelayID then c\<lparr>ct_rtv := ct_rtv c @ [RtvGrant node sid name]\<rparr>
      else c\<lparr>ct_pool := SessionGrant rid node sid name (ct_pool c)\<rparr>)"

definition desktopStart ::
  "start_env \<Rightarrow> rtv_config \<Rightarrow> request \<Rightarrow> actor \<Rightarrow> http_req \<Rightarrow> fresh \<Rightarrow> 32 word option \<Rightarrow> center \<Rightarrow> (api_error + desktop_answer) \<times> center" where
  "desktopStart E cfg q a h fr body c =
     (if cf_RTVEmbedded cfg \<and> cf_RTVStreamEndpoint cfg = []
      then (Inl (proto_Err 503 ''RTV_UNCONFIGURED''
              ''desktop sessions require RTV; server has no XNC_RTV_ENDPOINT configuration''), c)
      else if rq_parse q (hr_ID h) = None then (Inl node_not_found, c)
      else case body of
        None \<Rightarrow> (Inl (bad_input ''bad request''), c)
      | Some wts \<Rightarrow>
          let node = hr_ID h; (asg, p1) = Assign (en_f64 E) node (rq_now q) (ct_pool c); c1 = c\<lparr>ct_pool := p1\<rparr> in
          (case desktop_relay cfg asg of
             None \<Rightarrow> (Inl (proto_Err 503 ''RTV_NO_RELAY''
                 ''no relay available: register/approve an xnc-relay (server runs relay-only, XNC_RTV_EMBEDDED=false)''), c1)
           | Some (rid, region, eps) \<Rightarrow>
               let (hostToken, sg) = HostTicketFor (en_lib E) node rid (rq_now q) (ct_sign c1);
                   c2 = c1\<lparr>ct_sign := sg\<rparr>;
                   (cands, wtURL, wsURL) = desktop_urls cfg h rid region eps;
                   name = viewerName q a (ct_db c2)
               in (case startSession (en_lib E) (en_f64 E) (en_json E) q a h fr KindDesktop
                          (DesktopP (desktop_params cfg rid eps hostToken wts)) ''desktop.open'' ''desktop.close'' []
                          (Some (rid, node)) c2 of
                     (Inl e, c3) \<Rightarrow> (Inl e, c3)
                   | (Inr (res, r), c3) \<Rightarrow>
                       (Inr \<lparr>da_start = r\<lparr>sa_token := ViewerTicket (en_lib E) (cr_Session res) node rid name True True
                                 viewerTicketTTL (rq_now q) (ct_sign c3)\<rparr>,
                             da_wtUrl = wtURL, da_wsUrl = wsURL, da_granted = cr_LeaseGranted res,
                             da_leaseId = cr_LeaseID res, da_candidates = cands\<rparr>,
                        desktop_grant rid node (cr_Session res) name c3))))"

subsection \<open>Sessions over their life\<close>

text \<open>The legs on the main site: \<open>GET /api/session/{id}\<close> and \<open>GET /api/agent/session\<close>. A refused connection
  is closed; an accepted one belongs to the manager.\<close>

definition clientSessionWS :: "string \<Rightarrow> string \<Rightarrow> nat \<Rightarrow> request \<Rightarrow> center \<Rightarrow> bool \<times> center" where
  "clientSessionWS sid token ws q c =
     (case AttachClient sid token ws (rq_now q) (ct_mgr c) of
        (Some e, m) \<Rightarrow> (False, c\<lparr>ct_mgr := m\<lparr>m_fx := m_fx m @ [CloseNow ws]\<rparr>\<rparr>)
      | (None, m) \<Rightarrow> (True, c\<lparr>ct_mgr := m\<rparr>))"

definition agentSessionWS :: "string \<Rightarrow> nat \<Rightarrow> request \<Rightarrow> center \<Rightarrow> bool \<times> center" where
  "agentSessionWS token ws q c =
     (case AttachAgent [] token ws (rq_now q) (ct_mgr c) of
        (Some e, m) \<Rightarrow> (False, c\<lparr>ct_mgr := m\<lparr>m_fx := m_fx m @ [CloseNow ws]\<rparr>\<rparr>)
      | (None, m) \<Rightarrow> (True, c\<lparr>ct_mgr := m\<rparr>))"

text \<open>\<open>SESSION_REFUSED\<close> on the control connection of an agent.\<close>

definition session_refused :: "string \<Rightarrow> string \<Rightarrow> request \<Rightarrow> center \<Rightarrow> center" where
  "session_refused sid code q c = with_mgr q (NotifyClose sid (''refused:'' @ code)) c"

subsection \<open>What a start does\<close>

lemma create_result:
  assumes "mgr_Create reg n u k p sid a c l t m = (Inr r, m')"
  shows "Online n reg" "under_limit n k m" "cr_Session r = sid" "cr_AgentToken r = a" "cr_ClientToken r = c"
    "cr_ExpiresAt r = t + openingTTL" "m_fx m' = m_fx m"
    "tget (m_sessions m') i = (if i = sid then Some (opened sid n u k p a c t m) else tget (m_sessions m) i)"
proof -
  show on: "Online n reg" "under_limit n k m" using create_outcome [of reg n u k p sid a c l t m] assms by auto
  show "cr_Session r = sid" "cr_AgentToken r = a" "cr_ClientToken r = c" "cr_ExpiresAt r = t + openingTTL"
    using assms by (auto simp: mgr_Create_def new_session_def Let_def split: prod.splits if_splits)
  show "m_fx m' = m_fx m" "tget (m_sessions m') i = (if i = sid then Some (opened sid n u k p a c t m) else tget (m_sessions m) i)"
    using create_sessions(1,4) [OF on refl, of u p sid a c l t] by (simp_all add: assms)
qed

lemma create_refused: "mgr_Create reg n u k p sid a c l t m = (Inl e, m') \<Longrightarrow> m' = m"
  using create_outcome [of reg n u k p sid a c l t m] create_denied [of n reg k m u p sid a c l t] by auto

lemma AssignData_conns: "p_conns (snd (AssignData f64 n t p)) = p_conns p" "p_fx (snd (AssignData f64 n t p)) = p_fx p"
  by (auto simp: AssignData_def Let_def split: option.splits)

lemma route_legs_state:
  assumes "route_legs L f64 q h n kind res c = (lg, c1)"
  shows "ct_sv c1 = ct_sv c" "ct_sign c1 = ct_sign c" "ct_hooks c1 = ct_hooks c" "ct_sent c1 = ct_sent c" "ct_rtv c1 = ct_rtv c"
    "ct_mgr c1 = (if lg_relay lg = None then ct_mgr c else MarkRelayRouted (cr_Session res) (ct_mgr c))"
    "p_conns (ct_pool c1) = p_conns (ct_pool c)" "p_fx (ct_pool c1) = p_fx (ct_pool c)"
proof -
  obtain asg p where a: "AssignData f64 n (rq_now q) (ct_pool c) = (asg, p)" by fastforce
  have p: "p_conns p = p_conns (ct_pool c)" "p_fx p = p_fx (ct_pool c)"
    using AssignData_conns [of f64 n "rq_now q" "ct_pool c"] by (simp_all add: a)
  have "c1 = c\<lparr>ct_pool := ct_pool c1, ct_mgr := (if lg_relay lg = None then ct_mgr c else MarkRelayRouted (cr_Session res) (ct_mgr c))\<rparr>
     \<and> (ct_pool c1 = ct_pool c \<or> ct_pool c1 = p)"
  proof (cases "kind \<noteq> KindDesktop \<and> clientSupportsRelayWS h")
    case True
    show ?thesis
    proof (cases "fst (relaySessionEndpoint f64 n (rq_now q) (ct_pool c))")
      case None
      then show ?thesis using assms True a
        by (cases asg) (auto simp: route_legs_def relaySessionEndpoint_def main_legs_def)
    next
      case (Some x)
      then show ?thesis using assms True a
        by (cases asg; cases x) (auto simp: route_legs_def relaySessionEndpoint_def relay_legs_def)
    qed
  next
    case False
    then show ?thesis using assms by (auto simp: route_legs_def main_legs_def)
  qed
  then obtain p' where c1: "c1 = c\<lparr>ct_pool := p', ct_mgr := (if lg_relay lg = None then ct_mgr c else MarkRelayRouted (cr_Session res) (ct_mgr c))\<rparr>"
    "p' = ct_pool c \<or> p' = p" by metis
  show "ct_sv c1 = ct_sv c" "ct_sign c1 = ct_sign c" "ct_hooks c1 = ct_hooks c" "ct_sent c1 = ct_sent c" "ct_rtv c1 = ct_rtv c"
    "ct_mgr c1 = (if lg_relay lg = None then ct_mgr c else MarkRelayRouted (cr_Session res) (ct_mgr c))"
    "p_conns (ct_pool c1) = p_conns (ct_pool c)" "p_fx (ct_pool c1) = p_fx (ct_pool c)"
    using c1(2) p unfolding c1(1) by auto
qed

text \<open>The session as the start leaves it in the table.\<close>

definition started :: "bool \<Rightarrow> session \<Rightarrow> session" where
  "started routed s = (if routed then s\<lparr>s_relayRouted := True, s_glued := True, s_ttl := False\<rparr> else s)
     \<lparr>s_finish := True, s_notifyAgent := True\<rparr>"

lemma started_sel [simp]:
  "s_ID (started b s) = s_ID s" "s_closed (started b s) = s_closed s" "s_NodeID (started b s) = s_NodeID s"
  "s_Kind (started b s) = s_Kind s" "s_UserID (started b s) = s_UserID s" "s_agentWS (started b s) = s_agentWS s"
  "s_clientWS (started b s) = s_clientWS s" "s_finish (started b s)" "s_notifyAgent (started b s)" "s_Params (started b s) = s_Params s"
  by (simp_all add: started_def)

lemma opened_sel [simp]:
  "s_ID (opened sid n u k p a c t m) = sid" "\<not> s_closed (opened sid n u k p a c t m)" "s_NodeID (opened sid n u k p a c t m) = n"
  "s_Kind (opened sid n u k p a c t m) = k" "s_UserID (opened sid n u k p a c t m) = u" "s_agentWS (opened sid n u k p a c t m) = None"
  "s_clientWS (opened sid n u k p a c t m) = None" "s_Params (opened sid n u k p a c t m) = p"
  "\<not> s_relayRouted (opened sid n u k p a c t m)"
  by (simp_all add: opened_def new_session_def Let_def)

lemma startSession_cases:
  obtains (refused) e where "startSession L f64 enc q a h fr kind params oa ca extra desk c = (Inl e, c)"
  | (created) n nd res m where "rq_parse q (hr_ID h) = Some n" "requireMinRole q a n ''operator'' (ct_db c) = Inr nd"
      "mgr_Create (sv_reg (ct_sv c)) n (fst a) kind (enc params) (fr_sid fr) (fr_agent fr) (fr_client fr) (fr_lease fr)
         (rq_now q) (ct_mgr c) = (Inr res, m)"
      "startSession L f64 enc q a h fr kind params oa ca extra desk c =
         (case open_session L f64 q a h n kind (enc params) oa ca extra desk res (c\<lparr>ct_mgr := m\<rparr>) of
            (Inl e, c1) \<Rightarrow> (Inl e, c1) | (Inr r, c1) \<Rightarrow> (Inr (res, r), c1))"
proof (cases "rq_parse q (hr_ID h)")
  case None
  then show thesis using refused [of node_not_found] by (simp add: startSession_def)
next
  case (Some n)
  show thesis
  proof (cases "requireMinRole q a n ''operator'' (ct_db c)")
    case (Inl e)
    then show thesis using refused [of e] Some by (simp add: startSession_def)
  next
    case (Inr nd)
    obtain x m where x: "mgr_Create (sv_reg (ct_sv c)) n (fst a) kind (enc params) (fr_sid fr) (fr_agent fr) (fr_client fr)
        (fr_lease fr) (rq_now q) (ct_mgr c) = (x, m)" by fastforce
    show thesis
    proof (cases x)
      case (Inl e)
      then show thesis using refused [of e] Some Inr x create_refused [OF x [unfolded Inl]] by (simp add: startSession_def)
    next
      case (Inr res)
      then show thesis using created [OF Some \<open>requireMinRole q a n ''operator'' (ct_db c) = Inr nd\<close> x [unfolded Inr]]
          Some \<open>requireMinRole q a n ''operator'' (ct_db c) = Inr nd\<close> x by (simp add: startSession_def)
    qed
  qed
qed

lemma run_finish_state [simp]:
  "ct_mgr (run_finish q k sid r c) = ct_mgr c" "ct_sent (run_finish q k sid r c) = ct_sent c"
  "ct_hooks (run_finish q k sid r c) = ct_hooks c" "ct_sign (run_finish q k sid r c) = ct_sign c"
  "sv_reg (ct_sv (run_finish q k sid r c)) = sv_reg (ct_sv c)"
  by (auto simp: run_finish_def ct_audit_def Let_def split: option.splits)

lemma send_ctl_state [simp]:
  "ct_mgr (snd (send_ctl q n m c)) = ct_mgr c" "ct_sv (snd (send_ctl q n m c)) = ct_sv c" "ct_pool (snd (send_ctl q n m c)) = ct_pool c"
  "ct_hooks (snd (send_ctl q n m c)) = ct_hooks c" "ct_sign (snd (send_ctl q n m c)) = ct_sign c" "ct_rtv (snd (send_ctl q n m c)) = ct_rtv c"
  by (auto simp: send_ctl_def split: option.splits)

text \<open>Closing an open session that has its callbacks: the agent is told, then the finish callback runs.\<close>

lemma close_runs:
  assumes "tget (m_sessions (ct_mgr c)) sid = Some s" "\<not> s_closed s" "s_ID s = sid" "s_finish s" "s_notifyAgent s"
    "tget (ct_hooks c) sid = Some k"
  shows "with_mgr q (mgr_close sid reason rm) c = run_finish q k sid reason
     (snd (send_ctl q (fh_Node k) (SessionCloseMsg sid reason) (c\<lparr>ct_mgr := mgr_close sid reason rm (ct_mgr c)\<rparr>)))"
proof -
  have fx: "drop (length (m_fx (ct_mgr c))) (m_fx (mgr_close sid reason rm (ct_mgr c))) = close_effects s reason"
    using close_open(3) [OF assms(1,2), of reason rm] by simp
  show ?thesis
    unfolding with_mgr_def fx using assms(3-6) by (auto simp: close_effects_def split: option.splits)
qed

lemma close_quiet:
  assumes "\<And>s. tget (m_sessions (ct_mgr c)) sid = Some s \<Longrightarrow> s_closed s"
  shows "with_mgr q (mgr_close sid reason rm) c = c"
proof -
  have "mgr_close sid reason rm (ct_mgr c) = ct_mgr c"
    using assms by (cases "tget (m_sessions (ct_mgr c)) sid") (auto simp: close_absent close_done)
  then show ?thesis by (simp add: with_mgr_def)
qed

definition hook_of :: "actor \<Rightarrow> uuid \<Rightarrow> string \<Rightarrow> string \<Rightarrow> string option \<Rightarrow> (string \<times> string) option \<Rightarrow> finish_hook" where
  "hook_of a n kind closeAction relay desk =
     \<lparr>fh_User = fst a, fh_Node = n, fh_Kind = kind, fh_Action = closeAction, fh_Relay = relay, fh_Desktop = desk\<rparr>"

definition open_order :: "CreateResult \<Rightarrow> string \<Rightarrow> string \<Rightarrow> string \<Rightarrow> SessionOpen" where
  "open_order res kind params url =
     \<lparr>so_SessionID = cr_Session res, so_Kind = kind, so_Params = params, so_AgentToken = cr_AgentToken res,
      so_WsURL = url, so_ExpiresAt = cr_ExpiresAt res\<rparr>"

lemma install_hooks_state [simp]:
  "ct_sv (install_hooks sid k c) = ct_sv c" "ct_sent (install_hooks sid k c) = ct_sent c" "ct_pool (install_hooks sid k c) = ct_pool c"
  "ct_sign (install_hooks sid k c) = ct_sign c" "ct_rtv (install_hooks sid k c) = ct_rtv c"
  by (simp_all add: install_hooks_def)

lemma open_session_sent:
  assumes "route_legs L f64 q h n kind res c = (lg, c1)" "registry_Get n (sv_reg (ct_sv c)) = Some k" "\<not> rq_fails q ''Send''"
  shows "open_session L f64 q a h n kind params oa ca extra desk res c =
     (Inr \<lparr>sa_sessionId = cr_Session res, sa_token = cr_ClientToken res, sa_expiresAt = cr_ExpiresAt res, sa_websocketUrl = lg_client lg\<rparr>,
      ct_audit q (fst a) n oa ([(''kind'', kind), (''sessionId'', cr_Session res)] @ extra)
        ((install_hooks (cr_Session res) (hook_of a n kind ca (lg_relay lg) desk) c1)
           \<lparr>ct_sent := ct_sent c @ [(conn_ptr k, SessionOpenMsg (open_order res kind params (lg_agent lg)))]\<rparr>))"
  using assms(2,3) route_legs_state(1,4) [OF assms(1)]
  by (simp add: open_session_def assms(1) send_ctl_def hook_of_def open_order_def Let_def)

lemma open_session_unsent:
  assumes "route_legs L f64 q h n kind res c = (lg, c1)" "registry_Get n (sv_reg (ct_sv c)) = None \<or> rq_fails q ''Send''"
  shows "open_session L f64 q a h n kind params oa ca extra desk res c =
     (Inl node_offline, with_mgr q (NotifyClose (cr_Session res) ''node-offline'')
        (install_hooks (cr_Session res) (hook_of a n kind ca (lg_relay lg) desk) c1))"
  using assms(2) route_legs_state(1,4) [OF assms(1)]
  by (auto simp: open_session_def assms(1) send_ctl_def hook_of_def Let_def split: option.splits)

text \<open>The table after the callbacks are installed.\<close>

lemma installed_session:
  assumes "route_legs L f64 q h n kind res c = (lg, c1)" "cr_Session res = sid" "tget (m_sessions (ct_mgr c)) sid = Some s"
  shows "tget (m_sessions (ct_mgr (install_hooks sid k c1))) i =
     (if i = sid then Some (started (lg_relay lg \<noteq> None) s) else tget (m_sessions (ct_mgr c)) i)"
    "m_fx (ct_mgr (install_hooks sid k c1)) = m_fx (ct_mgr c)"
    "tget (ct_hooks (install_hooks sid k c1)) i = (if i = sid then Some k else tget (ct_hooks c) i)"
  using assms route_legs_state [OF assms(1)]
  by (auto simp: install_hooks_def SetNotifyFn_def SetFinishFn_def MarkRelayRouted_def upd_session_get started_def)

lemma route_legs_cases:
  assumes "route_legs L f64 q h n kind res c = (lg, c1)"
  shows "if kind \<noteq> KindDesktop \<and> clientSupportsRelayWS h
     then (case fst (relaySessionEndpoint f64 n (rq_now q) (ct_pool c)) of
             None \<Rightarrow> lg = main_legs h res
           | Some (addr, rid) \<Rightarrow> lg = relay_legs L (ct_sign c) (cr_Session res) n addr rid (rq_now q))
     else lg = main_legs h res"
  using assms by (auto simp: route_legs_def split: prod.splits option.splits)

lemma start_unsent_clean:
  assumes "mgr_Create reg n u kind p sid tka tkc lt now (ct_mgr c) = (Inr res, m)" "tget (m_sessions (ct_mgr c)) sid = None"
    "route_legs L f64 q h n kind res (c\<lparr>ct_mgr := m\<rparr>) = (lg, c1)" "rq_fails q ''Send''"
  shows "let c' = with_mgr q (NotifyClose (cr_Session res) ''node-offline'') (install_hooks (cr_Session res) k c1) in
     (\<forall>i. tget (m_sessions (ct_mgr c')) i = tget (m_sessions (ct_mgr c)) i) \<and> ct_sent c' = ct_sent c"
proof -
  note cr = create_result [OF assms(1)]
  let ?c2 = "install_hooks sid k c1"
  have s: "tget (m_sessions (ct_mgr (c\<lparr>ct_mgr := m\<rparr>))) sid = Some (opened sid n u kind p tka tkc now (ct_mgr c))"
    using cr(8) [of sid] by simp
  note inst = installed_session [OF assms(3) cr(3) s, of k]
  let ?s = "started (lg_relay lg \<noteq> None) (opened sid n u kind p tka tkc now (ct_mgr c))"
  have s2: "tget (m_sessions (ct_mgr ?c2)) sid = Some ?s" by (simp add: inst(1))
  have r: "with_mgr q (NotifyClose sid ''node-offline'') ?c2 = run_finish q k sid ''node-offline''
     (snd (send_ctl q (fh_Node k) (SessionCloseMsg sid ''node-offline'') (?c2\<lparr>ct_mgr := mgr_close sid ''node-offline'' True (ct_mgr ?c2)\<rparr>)))"
    unfolding NotifyClose_def [abs_def] by (rule close_runs [OF s2]) (simp_all add: inst(3))
  have "m_sessions (mgr_close sid ''node-offline'' True (ct_mgr ?c2)) = tdel sid (m_sessions (ct_mgr ?c2))"
    using close_open(1) [OF s2] by simp
  then have "tget (m_sessions (mgr_close sid ''node-offline'' True (ct_mgr ?c2))) i = tget (m_sessions (ct_mgr c)) i" for i
    using inst(1) cr(8) assms(2) by simp
  moreover have "ct_sent (snd (send_ctl q (fh_Node k) (SessionCloseMsg sid ''node-offline'')
      (?c2\<lparr>ct_mgr := mgr_close sid ''node-offline'' True (ct_mgr ?c2)\<rparr>))) = ct_sent c"
    using assms(4) route_legs_state(4) [OF assms(3)] by (auto simp: send_ctl_def split: option.splits)
  ultimately show ?thesis unfolding cr(3) r by (simp add: Let_def)
qed

text \<open>A successful start, step by step.\<close>

lemma startSession_success:
  assumes "startSession L f64 enc q a h fr kind params oa ca extra desk c = (Inr (res, ans), c')"
  obtains n nd m lg c1 k where "rq_parse q (hr_ID h) = Some n" "requireMinRole q a n ''operator'' (ct_db c) = Inr nd"
    "mgr_Create (sv_reg (ct_sv c)) n (fst a) kind (enc params) (fr_sid fr) (fr_agent fr) (fr_client fr) (fr_lease fr)
       (rq_now q) (ct_mgr c) = (Inr res, m)"
    "route_legs L f64 q h n kind res (c\<lparr>ct_mgr := m\<rparr>) = (lg, c1)" "registry_Get n (sv_reg (ct_sv c)) = Some k"
    "\<not> rq_fails q ''Send''"
    "ans = \<lparr>sa_sessionId = fr_sid fr, sa_token = fr_client fr, sa_expiresAt = rq_now q + openingTTL, sa_websocketUrl = lg_client lg\<rparr>"
    "c' = ct_audit q (fst a) n oa ([(''kind'', kind), (''sessionId'', fr_sid fr)] @ extra)
        ((install_hooks (fr_sid fr) (hook_of a n kind ca (lg_relay lg) desk) c1)
           \<lparr>ct_sent := ct_sent c @ [(conn_ptr k, SessionOpenMsg (open_order res kind (enc params) (lg_agent lg)))]\<rparr>)"
proof (cases rule: startSession_cases [of L f64 enc q a h fr kind params oa ca extra desk c])
  case (refused e)
  then show thesis using assms by simp
next
  case (created n nd res' m)
  note cr = create_result [OF created(3)]
  obtain k where k: "registry_Get n (sv_reg (ct_sv (c\<lparr>ct_mgr := m\<rparr>))) = Some k"
    using cr(1) by (auto simp: Online_def registry_Get_def)
  obtain lg c1 where rt: "route_legs L f64 q h n kind res' (c\<lparr>ct_mgr := m\<rparr>) = (lg, c1)" by fastforce
  have s: "\<not> rq_fails q ''Send''"
    using assms unfolding created(4) by (auto simp: open_session_unsent [OF rt])
  have e: "res' = res"
    using assms unfolding created(4) by (simp add: open_session_sent [OF rt k s])
  note os = open_session_sent [OF rt [unfolded e] k s]
  show thesis
    by (rule that [OF created(1,2) created(3) [unfolded e] rt [unfolded e] _ s])
      (use assms k in \<open>auto simp: created(4) os cr [unfolded e] e\<close>)
qed

lemma startSession_succeeds:
  assumes "rq_parse q (hr_ID h) = Some n" "requireMinRole q a n ''operator'' (ct_db c) = Inr nd"
    "Online n (sv_reg (ct_sv c))" "under_limit n kind (ct_mgr c)" "\<not> rq_fails q ''Send''"
  shows "\<exists>res ans c'. startSession L f64 enc q a h fr kind params oa ca extra desk c = (Inr (res, ans), c')"
proof (cases rule: startSession_cases [of L f64 enc q a h fr kind params oa ca extra desk c])
  case (refused e)
  obtain r m where cr: "mgr_Create (sv_reg (ct_sv c)) n (fst a) kind (enc params) (fr_sid fr) (fr_agent fr) (fr_client fr) (fr_lease fr)
       (rq_now q) (ct_mgr c) = (Inr r, m)"
    using create_outcome [of "sv_reg (ct_sv c)" n "fst a" kind "enc params"] assms(3,4) by (metis prod.collapse)
  obtain lg c1 where rt: "route_legs L f64 q h n kind r (c\<lparr>ct_mgr := m\<rparr>) = (lg, c1)" by fastforce
  obtain k where k: "registry_Get n (sv_reg (ct_sv (c\<lparr>ct_mgr := m\<rparr>))) = Some k"
    using assms(3) by (auto simp: Online_def registry_Get_def)
  show ?thesis using assms(1,2) cr by (simp add: startSession_def open_session_sent [OF rt k assms(5)])
next
  case (created n' nd' res m)
  obtain lg c1 where rt: "route_legs L f64 q h n' kind res (c\<lparr>ct_mgr := m\<rparr>) = (lg, c1)" by fastforce
  obtain k where k: "registry_Get n' (sv_reg (ct_sv (c\<lparr>ct_mgr := m\<rparr>))) = Some k"
    using create_result(1) [OF created(3)] by (auto simp: Online_def registry_Get_def)
  show ?thesis by (simp add: created(4) open_session_sent [OF rt k assms(5)])
qed

lemma start_sends:
  assumes "startSession L f64 enc q a h fr kind params oa ca extra desk c = (Inr (res, ans), c')"
  shows "cr_Session res = fr_sid fr"
    "\<exists>p url. ct_sent c' = ct_sent c @ [(p, SessionOpenMsg (open_order res kind (enc params) url))]"
proof -
  show "cr_Session res = fr_sid fr"
    by (rule startSession_success [OF assms]) (rule create_result(3))
  show "\<exists>p url. ct_sent c' = ct_sent c @ [(p, SessionOpenMsg (open_order res kind (enc params) url))]"
  proof (cases rule: startSession_success [OF assms])
    case (1 n nd m lg c1 k)
    have "ct_sent c' = ct_sent c @ [(conn_ptr k, SessionOpenMsg (open_order res kind (enc params) (lg_agent lg)))]"
      by (simp add: 1(8) ct_audit_def)
    then show ?thesis by blast
  qed
qed

lemma start_keeps_refused:
  assumes "startSession L f64 enc q a h fr kind params oa ca extra desk c = (Inl e, c')" "tget (m_sessions (ct_mgr c)) (fr_sid fr) = None"
  shows "c' = c \<or> (e = node_offline \<and> rq_fails q ''Send''
        \<and> (\<forall>i. tget (m_sessions (ct_mgr c')) i = tget (m_sessions (ct_mgr c)) i) \<and> ct_sent c' = ct_sent c)"
proof (cases rule: startSession_cases [of L f64 enc q a h fr kind params oa ca extra desk c])
  case (refused e)
  then show ?thesis using assms by simp
next
  case (created n nd res m)
  note cr = create_result [OF created(3)]
  obtain k where k: "registry_Get n (sv_reg (ct_sv (c\<lparr>ct_mgr := m\<rparr>))) = Some k"
    using cr(1) by (auto simp: Online_def registry_Get_def)
  obtain lg c1 where rt: "route_legs L f64 q h n kind res (c\<lparr>ct_mgr := m\<rparr>) = (lg, c1)" by fastforce
  have f: "rq_fails q ''Send''"
  proof (rule ccontr)
    assume "\<not> rq_fails q ''Send''"
    then show False using assms(1) unfolding created(4) by (simp add: open_session_sent [OF rt k])
  qed
  show ?thesis
    using start_unsent_clean [OF created(3) assms(2) rt f, of "hook_of a n kind ca (lg_relay lg) desk"] assms(1) f
    by (auto simp: created(4) open_session_unsent [OF rt] Let_def)
qed


subsection \<open>Who may start what\<close>

text \<open>The six routes that start a session.\<close>

datatype start_req =
    SExec "execReq option"
  | SShell "shellReq option"
  | SUpload "fileReq option"
  | SDownload "fileReq option"
  | STunnel "string option"
  | SDesktop "32 word option"

definition errors :: "(api_error + 'a) \<times> center \<Rightarrow> api_error option \<times> center" where
  "errors r = ((case fst r of Inl e \<Rightarrow> Some e | Inr _ \<Rightarrow> None), snd r)"

fun start_route ::
  "start_env \<Rightarrow> rtv_config \<Rightarrow> request \<Rightarrow> actor \<Rightarrow> http_req \<Rightarrow> fresh \<Rightarrow> start_req \<Rightarrow> center \<Rightarrow> api_error option \<times> center" where
  "start_route E cfg q a h fr (SExec b) c = errors (execStart E q a h fr b c)"
| "start_route E cfg q a h fr (SShell b) c = errors (shellStart E q a h fr b c)"
| "start_route E cfg q a h fr (SUpload b) c = errors (fileUpload E q a h fr b c)"
| "start_route E cfg q a h fr (SDownload b) c = errors (fileDownload E q a h fr b c)"
| "start_route E cfg q a h fr (STunnel b) c = errors (tunnelStart E q a h fr b c)"
| "start_route E cfg q a h fr (SDesktop b) c = errors (desktopStart E cfg q a h fr b c)"

fun wants_system :: "start_req \<Rightarrow> bool" where
  "wants_system (SExec (Some r)) = er_System r"
| "wants_system (SShell (Some r)) = hq_System r"
| "wants_system _ = False"

lemma requireMinRoleD:
  assumes "requireMinRole q a n role d = Inr nd"
  shows "GetNodeByID n d = Some nd" "\<exists>r. GetMemberRole (nd_ClusterID nd) (fst a) d = Some r \<and> roleRank role \<le> roleRank r"
    "nd_Status nd \<noteq> ''disabled''"
  using assms unfolding requireMinRole_def authorizeNodeRole_def
  by (auto split: option.splits if_splits dest!: rd_SomeD)

lemma startSession_gate:
  assumes "startSession L f64 enc q a h fr kind params oa ca extra desk c = (res, c')"
    "c' \<noteq> c \<or> (\<exists>r. res = Inr r)"
  shows "\<exists>n nd. rq_parse q (hr_ID h) = Some n \<and> requireMinRole q a n ''operator'' (ct_db c) = Inr nd
     \<and> Online n (sv_reg (ct_sv c)) \<and> under_limit n kind (ct_mgr c)"
proof (cases rule: startSession_cases [of L f64 enc q a h fr kind params oa ca extra desk c])
  case (refused e)
  then show ?thesis using assms by auto
next
  case (created n nd res m)
  then show ?thesis using create_result(1,2) [OF created(3)] by blast
qed

lemma start_checked_gate:
  assumes "start_checked E q a h fr kind oa ca system checked c = (res, c')" "c' \<noteq> c \<or> (\<exists>r. res = Inr r)"
  shows "(\<exists>p. checked = Inr p) \<and> (\<exists>n nd. rq_parse q (hr_ID h) = Some n \<and> requireMinRole q a n ''operator'' (ct_db c) = Inr nd
     \<and> Online n (sv_reg (ct_sv c)))"
proof (cases checked)
  case (Inl e)
  then show ?thesis using assms by (auto simp: start_checked_def)
next
  case (Inr p)
  then have "startSession (en_lib E) (en_f64 E) (en_json E) q a h fr kind p oa ca (system_audit system) None c = (res, c')"
    using assms(1) by (simp add: start_checked_def)
  then show ?thesis using startSession_gate assms(2) Inr by blast
qed

lemma exec_check_system:
  "exec_check q a h (Some r) d = Inr p \<Longrightarrow> er_System r \<Longrightarrow> requireSystemRole q a h d = None"
  unfolding exec_check_def by (auto split: option.splits)

lemma shell_check_system:
  "shell_check q a h (Some r) d = Inr p \<Longrightarrow> hq_System r \<Longrightarrow> requireSystemRole q a h d = None"
  unfolding shell_check_def by (auto split: option.splits)

lemma requireSystemRoleD:
  "requireSystemRole q a h d = None \<Longrightarrow> rq_parse q (hr_ID h) = Some n \<Longrightarrow> \<exists>nd. requireMinRole q a n ''owner'' d = Inr nd"
  unfolding requireSystemRole_def by (auto split: sum.splits)

lemma desktop_grant_state [simp]:
  "ct_sv (desktop_grant rid node sid name c) = ct_sv c" "ct_mgr (desktop_grant rid node sid name c) = ct_mgr c"
  "ct_sent (desktop_grant rid node sid name c) = ct_sent c" "ct_hooks (desktop_grant rid node sid name c) = ct_hooks c"
  by (simp_all add: desktop_grant_def)

text \<open>The parts of the center that only an authorised user may touch.\<close>

definition same_core :: "center \<Rightarrow> center \<Rightarrow> bool" where
  "same_core c c' \<longleftrightarrow> ct_sv c' = ct_sv c \<and> ct_mgr c' = ct_mgr c \<and> ct_sent c' = ct_sent c \<and> ct_hooks c' = ct_hooks c"

text \<open>A desktop start either stops before the shared start, with at most the relay choice recorded, or runs
  it with what it chose.\<close>

lemma desktop_cases:
  obtains (stopped) e p1 where "desktopStart E cfg q a h fr b c = (Inl e, c\<lparr>ct_pool := p1\<rparr>)"
  | (shared) wts asg p1 rid region eps htok sg cands wt ws where "b = Some wts" "rq_parse q (hr_ID h) \<noteq> None"
      "Assign (en_f64 E) (hr_ID h) (rq_now q) (ct_pool c) = (asg, p1)" "desktop_relay cfg asg = Some (rid, region, eps)"
      "HostTicketFor (en_lib E) (hr_ID h) rid (rq_now q) (ct_sign c) = (htok, sg)"
      "desktop_urls cfg h rid region eps = (cands, wt, ws)"
      "desktopStart E cfg q a h fr b c =
         (case startSession (en_lib E) (en_f64 E) (en_json E) q a h fr KindDesktop
              (DesktopP (desktop_params cfg rid eps htok wts)) ''desktop.open'' ''desktop.close'' [] (Some (rid, hr_ID h))
              (c\<lparr>ct_pool := p1, ct_sign := sg\<rparr>) of
            (Inl e, c3) \<Rightarrow> (Inl e, c3)
          | (Inr (res, r), c3) \<Rightarrow>
              (Inr \<lparr>da_start = r\<lparr>sa_token := ViewerTicket (en_lib E) (cr_Session res) (hr_ID h) rid (viewerName q a (ct_db c)) True True
                       viewerTicketTTL (rq_now q) (ct_sign c3)\<rparr>, da_wtUrl = wt, da_wsUrl = ws,
                    da_granted = cr_LeaseGranted res, da_leaseId = cr_LeaseID res, da_candidates = cands\<rparr>,
               desktop_grant rid (hr_ID h) (cr_Session res) (viewerName q a (ct_db c)) c3))"
proof (cases "(cf_RTVEmbedded cfg \<and> cf_RTVStreamEndpoint cfg = []) \<or> rq_parse q (hr_ID h) = None \<or> b = None")
  case True
  then obtain e where "desktopStart E cfg q a h fr b c = (Inl e, c)"
    unfolding desktopStart_def by fastforce
  then show thesis using stopped [of e "ct_pool c"] by simp
next
  case False
  then obtain wts where b: "b = Some wts" by auto
  obtain asg p1 where as: "Assign (en_f64 E) (hr_ID h) (rq_now q) (ct_pool c) = (asg, p1)" by fastforce
  show thesis
  proof (cases "desktop_relay cfg asg")
    case None
    have "desktopStart E cfg q a h fr b c = (Inl (proto_Err 503 ''RTV_NO_RELAY''
        ''no relay available: register/approve an xnc-relay (server runs relay-only, XNC_RTV_EMBEDDED=false)''), c\<lparr>ct_pool := p1\<rparr>)"
      using False b as None by (simp add: desktopStart_def Let_def)
    then show thesis by (rule stopped)
  next
    case (Some r)
    then obtain rid region eps where dr: "desktop_relay cfg asg = Some (rid, region, eps)" by (cases r) auto
    obtain htok sg where ht: "HostTicketFor (en_lib E) (hr_ID h) rid (rq_now q) (ct_sign c) = (htok, sg)" by fastforce
    obtain cands wt ws where ur: "desktop_urls cfg h rid region eps = (cands, wt, ws)" by (metis prod_cases3)
    have nf: "\<not> (cf_RTVEmbedded cfg \<and> cf_RTVStreamEndpoint cfg = [])" "rq_parse q (hr_ID h) \<noteq> None" using False by auto
    show thesis
      by (rule shared [OF b nf(2) as dr ht ur])
        (use b as dr ht ur in \<open>simp add: desktopStart_def if_not_P [OF nf(1)] if_not_P [OF nf(2)] Let_def ct_db_def
           cong: sum.case_cong prod.case_cong\<close>)
  qed
qed

lemma desktop_gate:
  assumes "desktopStart E cfg q a h fr b c = (res, c')" "\<not> same_core c c' \<or> (\<exists>r. res = Inr r)"
  shows "\<exists>n nd. rq_parse q (hr_ID h) = Some n \<and> requireMinRole q a n ''operator'' (ct_db c) = Inr nd
     \<and> Online n (sv_reg (ct_sv c))"
proof (cases rule: desktop_cases [of E cfg q a h fr b c])
  case (stopped e p1)
  then show ?thesis using assms by (simp add: same_core_def)
next
  case (shared wts asg p1 rid region eps htok sg cands wt ws)
  let ?c2 = "c\<lparr>ct_pool := p1, ct_sign := sg\<rparr>"
  obtain x c3 where st: "startSession (en_lib E) (en_f64 E) (en_json E) q a h fr KindDesktop
      (DesktopP (desktop_params cfg rid eps htok wts)) ''desktop.open'' ''desktop.close'' [] (Some (rid, hr_ID h)) ?c2 = (x, c3)"
    by fastforce
  have "c3 \<noteq> ?c2 \<or> (\<exists>r. x = Inr r)"
  proof (rule ccontr)
    assume n: "\<not> (c3 \<noteq> ?c2 \<or> (\<exists>r. x = Inr r))"
    then obtain e where x: "x = Inl e" by (cases x) auto
    then have "desktopStart E cfg q a h fr b c = (Inl e, ?c2)" using shared(7) st n by simp
    then show False using assms by (simp add: same_core_def)
  qed
  then show ?thesis using startSession_gate [OF st] by (auto simp: ct_db_def)
qed

lemma start_checked_errors:
  assumes "errors (start_checked E q a h fr kind oa ca system checked c) = (e, c')" "e = None \<or> \<not> same_core c c'"
  shows "(\<exists>p. checked = Inr p) \<and> (\<exists>n nd. rq_parse q (hr_ID h) = Some n \<and> requireMinRole q a n ''operator'' (ct_db c) = Inr nd
     \<and> Online n (sv_reg (ct_sv c)))"
proof -
  obtain res where r: "start_checked E q a h fr kind oa ca system checked c = (res, c')"
    "e = (case res of Inl e \<Rightarrow> Some e | Inr _ \<Rightarrow> None)"
    using assms(1) by (cases "start_checked E q a h fr kind oa ca system checked c") (auto simp: errors_def)
  have "c' \<noteq> c \<or> (\<exists>x. res = Inr x)"
    using assms(2) r(2) by (cases res) (auto simp: same_core_def)
  then show ?thesis by (rule start_checked_gate [OF r(1)])
qed

lemma start_route_gate:
  assumes "start_route E cfg q a h fr r c = (e, c')" "e = None \<or> \<not> same_core c c'"
  shows "\<exists>n nd. rq_parse q (hr_ID h) = Some n \<and> requireMinRole q a n ''operator'' (ct_db c) = Inr nd
     \<and> Online n (sv_reg (ct_sv c)) \<and> (wants_system r \<longrightarrow> requireSystemRole q a h (ct_db c) = None)"
proof (cases r)
  case (SExec b)
  show ?thesis
    using start_checked_errors [OF _ assms(2), of E q a h fr KindExec] assms(1) exec_check_system [of q a h _ "ct_db c"]
    unfolding SExec by (cases b) (fastforce simp: execStart_def)+
next
  case (SShell b)
  show ?thesis
    using start_checked_errors [OF _ assms(2), of E q a h fr KindShell] assms(1) shell_check_system [of q a h _ "ct_db c"]
    unfolding SShell by (cases b) (fastforce simp: shellStart_def)+
next
  case (SUpload b)
  show ?thesis
    using start_checked_errors [OF _ assms(2), of E q a h fr KindFile] assms(1) unfolding SUpload by (fastforce simp: fileUpload_def)
next
  case (SDownload b)
  show ?thesis
    using start_checked_errors [OF _ assms(2), of E q a h fr KindFile] assms(1) unfolding SDownload by (fastforce simp: fileDownload_def)
next
  case (STunnel b)
  show ?thesis
    using start_checked_errors [OF _ assms(2), of E q a h fr KindTunnel] assms(1) unfolding STunnel by (fastforce simp: tunnelStart_def Let_def)
next
  case (SDesktop b)
  obtain res where d: "desktopStart E cfg q a h fr b c = (res, c')" "e = (case res of Inl e \<Rightarrow> Some e | Inr _ \<Rightarrow> None)"
    using assms(1) unfolding SDesktop by (cases "desktopStart E cfg q a h fr b c") (auto simp: errors_def)
  have "\<not> same_core c c' \<or> (\<exists>x. res = Inr x)" using assms(2) d(2) by (cases res) auto
  then show ?thesis using desktop_gate [OF d(1)] by (simp add: SDesktop)
qed

lemma roleRank_operator: "roleRank ''operator'' \<le> roleRank r \<longleftrightarrow> r = ''operator'' \<or> r = ''owner''"
  "roleRank ''owner'' \<le> roleRank r \<longleftrightarrow> r = ''owner''"
  by (auto simp: roleRank_def split: if_splits)

text \<open>C16. Only authorised users start sessions: when any of the six start requests succeeds, or changes the
  database, the session table, the callbacks or sends anything to an agent, then the path names a node, the
  user is operator or owner of its cluster, the node is not disabled and has a live control connection; and
  a request for the system account comes from an owner.\<close>

theorem start_authorised:
  assumes "start_route E cfg q a h fr r c = (e, c')"
    and "e = None \<or> ct_sv c' \<noteq> ct_sv c \<or> ct_mgr c' \<noteq> ct_mgr c \<or> ct_sent c' \<noteq> ct_sent c \<or> ct_hooks c' \<noteq> ct_hooks c"
  shows "\<exists>n nd role. rq_parse q (hr_ID h) = Some n \<and> GetNodeByID n (ct_db c) = Some nd
     \<and> GetMemberRole (nd_ClusterID nd) (fst a) (ct_db c) = Some role \<and> (role = ''operator'' \<or> role = ''owner'')
     \<and> nd_Status nd \<noteq> ''disabled'' \<and> Online n (sv_reg (ct_sv c)) \<and> (wants_system r \<longrightarrow> role = ''owner'')"
proof -
  obtain n nd where g: "rq_parse q (hr_ID h) = Some n" "requireMinRole q a n ''operator'' (ct_db c) = Inr nd"
    "Online n (sv_reg (ct_sv c))" "wants_system r \<longrightarrow> requireSystemRole q a h (ct_db c) = None"
    using start_route_gate [OF assms(1)] assms(2) by (auto simp: same_core_def)
  obtain role where role: "GetMemberRole (nd_ClusterID nd) (fst a) (ct_db c) = Some role" "role = ''operator'' \<or> role = ''owner''"
    using requireMinRoleD(2) [OF g(2)] by (auto simp: roleRank_operator)
  have "role = ''owner''" if w: "wants_system r"
  proof -
    obtain nd' where o: "requireMinRole q a n ''owner'' (ct_db c) = Inr nd'"
      using requireSystemRoleD [OF _ g(1)] g(4) w by blast
    then show ?thesis
      using requireMinRoleD(1,2) [OF o] requireMinRoleD(1) [OF g(2)] role(1) by (auto simp: roleRank_operator)
  qed
  then show ?thesis using g role requireMinRoleD(1,3) [OF g(2)] by blast
qed

subsection \<open>Desktop requests that should not have an effect\<close>

lemma run_effect_state [simp]:
  "ct_sign (run_effect q x c) = ct_sign c" "ct_mgr (run_effect q x c) = ct_mgr c" "ct_hooks (run_effect q x c) = ct_hooks c"
  "sv_reg (ct_sv (run_effect q x c)) = sv_reg (ct_sv c)"
  by (cases x; simp split: option.splits)+

lemma fold_effects_state [simp]:
  "ct_sign (fold (run_effect q) fx c) = ct_sign c" "ct_mgr (fold (run_effect q) fx c) = ct_mgr c"
  "ct_hooks (fold (run_effect q) fx c) = ct_hooks c" "sv_reg (ct_sv (fold (run_effect q) fx c)) = sv_reg (ct_sv c)"
  by (induction fx arbitrary: c) simp_all

lemma with_mgr_state [simp]:
  "ct_sign (with_mgr q f c) = ct_sign c" "ct_mgr (with_mgr q f c) = f (ct_mgr c)" "ct_hooks (with_mgr q f c) = ct_hooks c"
  "sv_reg (ct_sv (with_mgr q f c)) = sv_reg (ct_sv c)"
  by (simp_all add: with_mgr_def)

lemma open_session_sign:
  "ct_sign (snd (open_session L f64 q a h n kind params oa ca extra desk res c)) = ct_sign c"
proof -
  obtain lg c1 where rt: "route_legs L f64 q h n kind res c = (lg, c1)" by fastforce
  show ?thesis
  proof (cases "registry_Get n (sv_reg (ct_sv c)) = None \<or> rq_fails q ''Send''")
    case True
    show ?thesis using route_legs_state(2) [OF rt] by (simp add: open_session_unsent [OF rt True])
  next
    case False
    then obtain k where k: "registry_Get n (sv_reg (ct_sv c)) = Some k" "\<not> rq_fails q ''Send''" by auto
    show ?thesis using route_legs_state(2) [OF rt] by (simp add: open_session_sent [OF rt k] ct_audit_def)
  qed
qed

lemma startSession_sign:
  "ct_sign (snd (startSession L f64 enc q a h fr kind params oa ca extra desk c)) = ct_sign c"
proof (cases rule: startSession_cases [of L f64 enc q a h fr kind params oa ca extra desk c])
  case (created n nd res m)
  let ?o = "open_session L f64 q a h n kind (enc params) oa ca extra desk res (c\<lparr>ct_mgr := m\<rparr>)"
  have "snd (startSession L f64 enc q a h fr kind params oa ca extra desk c) = snd ?o"
    unfolding created(4) by (cases ?o; cases "fst ?o") auto
  then show ?thesis using open_session_sign [of L f64 q a h n kind "enc params" oa ca extra desk res "c\<lparr>ct_mgr := m\<rparr>"] by simp
qed simp

text \<open>A desktop request acts before it checks the user's role: whatever role the user has, if the request
  is refused for the role or because there is no such node, the pool has recorded the assigned relay for
  the name in the path and the signer has minted and cached a host ticket for it. So every account can
  choose which relay a node's next session will use and can grow both tables by naming nodes at will.\<close>

theorem desktop_before_rbac:
  assumes "cf_RTVEmbedded cfg \<longrightarrow> cf_RTVStreamEndpoint cfg \<noteq> []" "rq_parse q (hr_ID h) = Some n"
    and "requireMinRole q a n ''operator'' (ct_db c) = Inl e"
    and "Assign (en_f64 E) (hr_ID h) (rq_now q) (ct_pool c) = (Some asg, p1)"
  shows "\<exists>c'. desktopStart E cfg q a h fr (Some wts) c = (Inl e, c') \<and> same_core c c'
     \<and> tget (p_sticky (ct_pool c')) (hr_ID h) = Some (as_RelayID asg)
     \<and> tget (sg_hostCache (ct_sign c')) (hostKey (hr_ID h) (as_RelayID asg)) \<noteq> None"
proof -
  obtain htok sg where ht: "HostTicketFor (en_lib E) (hr_ID h) (as_RelayID asg) (rq_now q) (ct_sign c) = (htok, sg)" by fastforce
  obtain cands wt ws where ur: "desktop_urls cfg h (as_RelayID asg) (as_Region asg) (as_Endpoints asg) = (cands, wt, ws)"
    by (metis prod_cases3)
  have g: "\<not> (cf_RTVEmbedded cfg \<and> cf_RTVStreamEndpoint cfg = [])" using assms(1) by simp
  have "desktopStart E cfg q a h fr (Some wts) c = (Inl e, c\<lparr>ct_pool := p1, ct_sign := sg\<rparr>)"
    unfolding desktopStart_def if_not_P [OF g]
    using assms(2-4) ht ur by (simp add: desktop_relay_def startSession_def ct_db_def Let_def)
  moreover have "tget (p_sticky p1) (hr_ID h) = Some (as_RelayID asg)"
    using assms(4) by (auto simp: Assign_def Let_def assignmentLocked_def split: option.splits if_splits)
  moreover have "tget (sg_hostCache sg) (hostKey (hr_ID h) (as_RelayID asg)) \<noteq> None"
    using ht by (auto simp: HostTicketFor_def Let_def split: option.splits if_splits)
  ultimately show ?thesis by (simp add: same_core_def)
qed

text \<open>The path's spelling of the node id goes into the tickets: \<open>uuid.Parse\<close> accepts several spellings of
  an id. When the path spells it in another way than the canonical form the agent uses, a desktop start
  succeeds and orders the agent to start its host, but the host ticket in the order is refused for the
  node under its canonical id by every relay that knows the server's key, and every viewer the viewer
  ticket admits is bound to a node name no host registers. Host and viewer never meet.\<close>

theorem desktop_id_spelling:
  assumes "desktopStart E cfg q a h fr b c = (Inr ans, c')" "rq_parse q (hr_ID h) = Some n" "n \<noteq> hr_ID h"
    and "fst (Assign (en_f64 E) (hr_ID h) (rq_now q) (ct_pool c)) = Some asg"
    and "signature_correct (en_lib E)" "\<And>i. json_roundtrips (en_lib E) (host_claims (hr_ID h) (as_RelayID asg) i)"
    and "json_roundtrips (en_lib E) (viewer_claims (fr_sid fr) (hr_ID h) (as_RelayID asg) (viewerName q a (ct_db c)) True True viewerTicketTTL (rq_now q))"
    and "cache_ok (en_lib E) (ct_sign c)" "CHR 0x00 \<notin> set (hr_ID h)"
    and "ed25519_Public (en_lib E) (sg_priv (ct_sign c)) \<in> set (v_keys v)"
  shows "\<exists>dp p m. ct_sent c' = ct_sent c @ [(p, SessionOpenMsg m)] \<and> so_Params m = en_json E (DesktopP dp)
     \<and> (\<forall>rid t. \<not> fst (validateHostHello (en_lib E) rid t n (dp_HostToken dp) v))
     \<and> (\<forall>rid t bd. fst (authViewer (en_lib E) rid t (sa_token (da_start ans)) v) = Inr bd \<longrightarrow> vb_Node bd = hr_ID h \<and> vb_Node bd \<noteq> n)"
proof (cases rule: desktop_cases [of E cfg q a h fr b c])
  case (stopped e p1)
  then show ?thesis using assms(1) by simp
next
  case (shared wts asg' p1 rid region eps htok sg cands wt ws)
  let ?L = "en_lib E" and ?c2 = "c\<lparr>ct_pool := p1, ct_sign := sg\<rparr>" and ?dp = "desktop_params cfg rid eps htok wts"
  let ?st = "startSession ?L (en_f64 E) (en_json E) q a h fr KindDesktop (DesktopP ?dp) ''desktop.open'' ''desktop.close'' []
      (Some (rid, hr_ID h)) ?c2"
  have rid: "rid = as_RelayID asg" using shared(3,4) assms(4) by (simp add: desktop_relay_def)
  obtain res r c3 where st: "?st = (Inr (res, r), c3)"
    using assms(1) shared(7) by (auto split: prod.splits sum.splits)
  have ans: "sa_token (da_start ans) = ViewerTicket ?L (cr_Session res) (hr_ID h) rid (viewerName q a (ct_db c)) True True
       viewerTicketTTL (rq_now q) (ct_sign c3)" "ct_sent c' = ct_sent c3"
    using assms(1) shared(7) st by auto
  have o: "cr_Session res = fr_sid fr"
      "\<exists>p url. ct_sent c3 = ct_sent c @ [(p, SessionOpenMsg (open_order res KindDesktop (en_json E (DesktopP ?dp)) url))]"
    using start_sends [OF st] by simp_all
  have s3: "ct_sign c3 = sg"
    using startSession_sign [of ?L "en_f64 E" "en_json E" q a h fr KindDesktop "DesktopP ?dp" "''desktop.open''" "''desktop.close''" "[]"
        "Some (rid, hr_ID h)" ?c2] st by simp
  have sp: "sg_priv sg = sg_priv (ct_sign c)"
    using shared(5) by (auto simp: HostTicketFor_def Let_def split: option.splits if_splits)
  obtain i where i: "htok = mint ?L (host_claims (hr_ID h) rid i) (sg_priv (ct_sign c))"
    using HostTicketFor_claims [OF assms(8,9), of rid "rq_now q"] shared(5) by auto
  have ho: "open_token ?L (v_keys v) htok = Some (host_claims (hr_ID h) rid i)"
    unfolding i by (rule open_mint [OF assms(5) assms(6) [folded rid] _ assms(10)]) (simp add: host_claims_def)
  have vo: "open_token ?L (v_keys v) (sa_token (da_start ans)) = Some (viewer_claims (fr_sid fr) (hr_ID h) rid (viewerName q a (ct_db c)) True True
       viewerTicketTTL (rq_now q))"
    unfolding ans(1) ViewerTicket_def s3 sp o(1)
    by (rule open_mint [OF assms(5) assms(7) [folded rid] _ assms(10)]) (simp add: viewer_claims_def)
  have "\<not> fst (validateHostHello ?L rid' t n htok v)" for rid' t
    using assms(3) ho by (auto simp: hello_iff Verify_fst host_claims_def)
  moreover have "vb_Node bd = hr_ID h" if "fst (authViewer ?L rid' t (sa_token (da_start ans)) v) = Inr bd" for rid' t bd
    using that vo by (auto simp: viewer_iff Verify_fst viewer_claims_def)
  moreover have "dp_HostToken ?dp = htok" by (simp add: desktop_params_def)
  ultimately show ?thesis using o(2) ans(2) assms(3) by (intro exI [of _ ?dp]) (auto simp: open_order_def)
qed

lemma desktop_succeeds:
  assumes "cf_RTVEmbedded cfg \<longrightarrow> cf_RTVStreamEndpoint cfg \<noteq> []" "rq_parse q (hr_ID h) = Some n"
    "requireMinRole q a n ''operator'' (ct_db c) = Inr nd" "Online n (sv_reg (ct_sv c))" "under_limit n KindDesktop (ct_mgr c)"
    "\<not> rq_fails q ''Send''" "Assign (en_f64 E) (hr_ID h) (rq_now q) (ct_pool c) = (Some asg, p1)"
  shows "\<exists>ans c'. desktopStart E cfg q a h fr (Some wts) c = (Inr ans, c')"
proof -
  obtain htok sg where ht: "HostTicketFor (en_lib E) (hr_ID h) (as_RelayID asg) (rq_now q) (ct_sign c) = (htok, sg)" by fastforce
  obtain cands wt ws where ur: "desktop_urls cfg h (as_RelayID asg) (as_Region asg) (as_Endpoints asg) = (cands, wt, ws)"
    by (metis prod_cases3)
  let ?c2 = "c\<lparr>ct_pool := p1, ct_sign := sg\<rparr>"
  have role: "requireMinRole q a n ''operator'' (ct_db ?c2) = Inr nd" "Online n (sv_reg (ct_sv ?c2))" "under_limit n KindDesktop (ct_mgr ?c2)"
    using assms(3-5) by (simp_all add: ct_db_def)
  obtain res ans c' where st: "startSession (en_lib E) (en_f64 E) (en_json E) q a h fr KindDesktop
      (DesktopP (desktop_params cfg (as_RelayID asg) (as_Endpoints asg) htok wts)) ''desktop.open'' ''desktop.close'' []
      (Some (as_RelayID asg, hr_ID h)) ?c2 = (Inr (res, ans), c')"
    using startSession_succeeds [OF assms(2) role assms(6)] by blast
  have g: "\<not> (cf_RTVEmbedded cfg \<and> cf_RTVStreamEndpoint cfg = [])" using assms(1) by simp
  show ?thesis
    unfolding desktopStart_def if_not_P [OF g] using assms(2,7) ht ur st by (simp add: desktop_relay_def Let_def)
qed

subsection \<open>A concrete center\<close>

text \<open>One connected node, one relay with session data, the users of \<open>demo_db\<close>; cryptography is transparent.\<close>

definition demo_endpoint :: "string \<Rightarrow> int \<Rightarrow> EndpointDesc" where
  "demo_endpoint t port = \<lparr>ep_Transport = t, ep_Host = ''r.x'', ep_Port = port, ep_ALPN = [], ep_Path = [],
     ep_CertSHA256 = [], ep_RelayID = [], ep_Region = [], ep_DisplayHost = []\<rparr>"

definition demo_relay :: relayConn where
  "demo_relay = \<lparr>rc_ptr = 3, rc_id = ''rl-1'', rc_status = ''active'', rc_region = ''eu'', rc_maxSess = 0, rc_maxMbps = 0,
     rc_endpoints = [demo_endpoint ''quic'' 4433, demo_endpoint ''sdata'' 443], rc_lastBeat = 50,
     rc_stats = \<lparr>st_Sessions = 0, st_Viewers = 0, st_ActiveSids = []\<rparr>, rc_liveSess = 0, rc_probeFails = 0, rc_drift = 0\<rparr>"

definition demo_center :: center where
  "demo_center = \<lparr>ct_sv = \<lparr>sv_db = demo_db, sv_reg = Add \<lparr>conn_ptr = 5, conn_NodeID = ''#22'', conn_Cancel = True,
       conn_LastBeat = 0, conn_Beats = 0\<rparr> registry_New\<rparr>, ct_mgr = manager_New,
     ct_pool = (pool_New [] [] [])\<lparr>p_conns := [(''rl-1'', demo_relay)]\<rparr>, ct_sign = NewSignerFromKey [1],
     ct_hooks = [], ct_sent = [], ct_rtv = []\<rparr>"

definition demo_member :: "uuid \<Rightarrow> actor" where
  "demo_member i = (i, demo_user ''b@x'' False)"

definition demo_http :: "string \<Rightarrow> string \<Rightarrow> http_req" where
  "demo_http ua i = \<lparr>hr_ID = i, hr_UserAgent = ua, hr_ForwardedProto = ''https'', hr_TLS = False, hr_Host = ''xnc.app''\<rparr>"

definition demo_fresh :: fresh where
  "demo_fresh = \<lparr>fr_sid = ''s1'', fr_agent = ''ta'', fr_client = ''tc'', fr_lease = ''tl''\<rparr>"

definition demo_start_env :: start_env where
  "demo_start_env = \<lparr>en_lib = demo_lib, en_f64 = (\<lambda>x. x), en_json = (\<lambda>_. ''{}'')\<rparr>"

definition demo_exec :: "bool \<Rightarrow> execReq" where
  "demo_exec sys = \<lparr>er_Command = ''dir'', er_Script = [], er_TimeoutSec = None, er_Cwd = [], er_Shell = [], er_Env = [], er_System = sys\<rparr>"

definition demo_rtv :: rtv_config where
  "demo_rtv = \<lparr>cf_RTVEmbedded = False, cf_RTVStreamEndpoint = [], cf_RTVInsecureTLS = False, cf_RTVWTPublicPort = []\<rparr>"

lemma demo_may_start:
  "rq_parse demo_rq ''#22'' = Some ''#22''"
  "requireMinRole demo_rq (demo_member ''#2'') ''#22'' ''operator'' (ct_db demo_center) = Inr (demo_node ''#10'' ''web-2'' ''m3'' ''offline'')"
  "Online ''#22'' (sv_reg (ct_sv demo_center))" "under_limit ''#22'' kind (ct_mgr demo_center)" "\<not> rq_fails demo_rq ''Send''"
  "hr_ID (demo_http ua i) = i" "ct_mgr demo_center = manager_New" "fr_sid demo_fresh = ''s1''"
  by (simp_all add: demo_rq_def demo_center_def requireMinRole_def authorizeNodeRole_def GetNodeByID_def GetMemberRole_def rd_def
      demo_member_def demo_rows ct_db_def roleRank_def Online_def Add_def registry_New_def under_limit_def manager_New_def
      CountByNode_def countByNodeLocked_def demo_http_def demo_fresh_def)


lemma demo_tunnel:
  "\<exists>c'. start_route demo_start_env demo_rtv demo_rq (demo_member ''#2'') (demo_http ''curl'' ''#22'') demo_fresh
     (STunnel (Some ''ssh'')) demo_center = (None, c')"
proof -
  obtain res ans c' where r: "startSession demo_lib (\<lambda>x. x) (\<lambda>_. ''{}'') demo_rq (demo_member ''#2'') (demo_http ''curl'' ''#22'') demo_fresh
      KindTunnel (TunnelP ''ssh'' ''127.0.0.1'' 22) ''ssh.open'' ''ssh.open'' [] None demo_center = (Inr (res, ans), c')"
    using startSession_succeeds [of demo_rq "demo_http ''curl'' ''#22''" "''#22''" "demo_member ''#2''" demo_center] demo_may_start
    by metis
  have t: "tunnel_check (Some ''ssh'') = Inr (TunnelP ''ssh'' ''127.0.0.1'' 22)"
    by (simp add: tunnel_check_def tunnelTargets_def)
  show ?thesis
    by (simp add: tunnelStart_def t start_checked_def demo_start_env_def system_audit_def errors_def r)
qed

theorem start_authorised_witness:
  "\<exists>role. GetMemberRole ''#10'' ''#2'' (ct_db demo_center) = Some role \<and> (role = ''operator'' \<or> role = ''owner'')"
proof -
  obtain c' where "start_route demo_start_env demo_rtv demo_rq (demo_member ''#2'') (demo_http ''curl'' ''#22'') demo_fresh
     (STunnel (Some ''ssh'')) demo_center = (None, c')"
    using demo_tunnel by blast
  from start_authorised [OF this] show ?thesis
    using demo_may_start(1) by (auto simp: demo_may_start demo_center_def ct_db_def demo_rows GetNodeByID_def demo_member_def)
qed

lemma demo_assign:
  "Assign (\<lambda>x. x) i 50 (ct_pool demo_center) =
     (Some \<lparr>as_RelayID = ''rl-1'', as_Region = ''eu'', as_Endpoints = [demo_endpoint ''quic'' 4433, demo_endpoint ''sdata'' 443]\<rparr>,
      (ct_pool demo_center)\<lparr>p_sticky := [(i, ''rl-1'')]\<rparr>)"
  by (simp add: Assign_def demo_center_def pool_New_def demo_relay_def eligibleLocked_def driftLimit_def heartbeatWait_def time_Sub_def
      minDuration_def maxDuration_def pick_relay_def assignmentLocked_def)

theorem desktop_before_rbac_witness:
  "\<exists>c'. desktopStart demo_start_env demo_rtv demo_rq (demo_member ''#3'') (demo_http ''curl'' ''#22'') demo_fresh (Some 0) demo_center
     = (Inl node_not_found, c') \<and> tget (p_sticky (ct_pool c')) ''#22'' = Some ''rl-1''"
proof -
  have r: "requireMinRole demo_rq (demo_member ''#3'') ''#22'' ''operator'' (ct_db demo_center) = Inl node_not_found"
    by (simp add: demo_rq_def demo_center_def requireMinRole_def authorizeNodeRole_def GetNodeByID_def GetMemberRole_def rd_def
        demo_member_def demo_rows ct_db_def)
  have n: "rq_now demo_rq = 50" by (simp add: demo_rq_def)
  obtain asg p where a: "Assign (en_f64 demo_start_env) (hr_ID (demo_http ''curl'' ''#22'')) (rq_now demo_rq) (ct_pool demo_center) = (Some asg, p)"
      "as_RelayID asg = ''rl-1''"
    using demo_assign [of "''#22''"] by (simp add: demo_may_start n demo_start_env_def)
  show ?thesis
    using desktop_before_rbac [OF _ _ _ a(1), of demo_rtv "''#22''" "demo_member ''#3''" node_not_found demo_fresh 0] r a(2)
    by (auto simp: demo_may_start demo_rtv_def)
qed

text \<open>A library that round-trips the tickets of one desktop session.\<close>

definition spelling_lib :: ticket_lib where
  "spelling_lib = host_lib\<lparr>
     json_Marshal := (\<lambda>c. if c_Typ c = TicketViewer then [9] else json_Marshal host_lib c),
     json_Unmarshal := (\<lambda>b. Some (if b = [9] then viewer_claims ''s1'' ''URN'' ''rl-1'' ''b@x'' True True viewerTicketTTL 50
       else host_claims ''URN'' ''rl-1'' ((if b ! 0 = 1 then int (length b - 1) else - int (length b - 1)) * Second)))\<rparr>"

lemma c_Iat_host: "c_Iat (host_claims n r i) = time_Unix i"
  by (simp add: host_claims_def)

lemma spelling_lib_ok:
  "signature_correct spelling_lib" "json_roundtrips spelling_lib (host_claims ''URN'' ''rl-1'' i)"
  "json_roundtrips spelling_lib (viewer_claims ''s1'' ''URN'' ''rl-1'' ''b@x'' True True viewerTicketTTL 50)"
proof -
  show "signature_correct spelling_lib" by (simp add: signature_correct_def spelling_lib_def host_lib_def)
  have h: "c_Typ (host_claims ''URN'' ''rl-1'' i) \<noteq> TicketViewer" by (simp add: host_claims_def TicketViewer_def TicketHost_def)
  have "host_claims ''URN'' ''rl-1'' (time_Unix i * Second) = host_claims ''URN'' ''rl-1'' i"
    by (simp add: host_claims_def time_Unix_def)
  then show "json_roundtrips spelling_lib (host_claims ''URN'' ''rl-1'' i)"
    using h by (simp add: json_roundtrips_def spelling_lib_def host_lib_def c_Iat_host)
  show "json_roundtrips spelling_lib (viewer_claims ''s1'' ''URN'' ''rl-1'' ''b@x'' True True viewerTicketTTL 50)"
    by (simp add: json_roundtrips_def spelling_lib_def viewer_claims_def)
qed

definition spelling_rq :: request where
  "spelling_rq = demo_rq\<lparr>rq_parse := (\<lambda>s. if s = ''URN'' then Some ''#22'' else Some s)\<rparr>"

theorem desktop_id_spelling_witness:
  "\<exists>ans c' (dp :: DesktopParams) p m. desktopStart \<lparr>en_lib = spelling_lib, en_f64 = (\<lambda>x. x), en_json = (\<lambda>_. ''{}'')\<rparr> demo_rtv spelling_rq (demo_member ''#2'')
       (demo_http ''curl'' ''URN'') demo_fresh (Some 0) demo_center = (Inr ans, c')
     \<and> ct_sent c' = [(p, SessionOpenMsg m)] \<and> so_Params m = ''{}''
     \<and> \<not> fst (validateHostHello spelling_lib ''rl-1'' 60 ''#22'' (dp_HostToken dp) \<lparr>v_keys = [[1]], v_tomb = []\<rparr>)"
proof -
  let ?E = "\<lparr>en_lib = spelling_lib, en_f64 = (\<lambda>x. x), en_json = (\<lambda>_. ''{}'')\<rparr>" and ?h = "demo_http ''curl'' ''URN''"
  have q: "rq_parse spelling_rq ''URN'' = Some ''#22''" "rq_now spelling_rq = 50" "\<not> rq_fails spelling_rq x" for x
    by (simp_all add: spelling_rq_def demo_rq_def)
  have role: "requireMinRole spelling_rq (demo_member ''#2'') ''#22'' ''operator'' (ct_db demo_center) = Inr (demo_node ''#10'' ''web-2'' ''m3'' ''offline'')"
    by (simp add: spelling_rq_def demo_rq_def demo_center_def requireMinRole_def authorizeNodeRole_def GetNodeByID_def GetMemberRole_def
        rd_def demo_member_def demo_rows ct_db_def roleRank_def)
  have as: "Assign (en_f64 ?E) (hr_ID ?h) (rq_now spelling_rq) (ct_pool demo_center) =
     (Some \<lparr>as_RelayID = ''rl-1'', as_Region = ''eu'', as_Endpoints = [demo_endpoint ''quic'' 4433, demo_endpoint ''sdata'' 443]\<rparr>,
      (ct_pool demo_center)\<lparr>p_sticky := [(''URN'', ''rl-1'')]\<rparr>)"
    using demo_assign [of "''URN''"] by (simp add: demo_may_start q)
  have ready: "cf_RTVEmbedded demo_rtv \<longrightarrow> cf_RTVStreamEndpoint demo_rtv \<noteq> []" "rq_parse spelling_rq (hr_ID ?h) = Some ''#22''"
    by (simp_all add: demo_rtv_def demo_may_start q)
  obtain ans c' where d: "desktopStart ?E demo_rtv spelling_rq (demo_member ''#2'') ?h demo_fresh (Some 0) demo_center = (Inr ans, c')"
    using desktop_succeeds [OF ready role demo_may_start(3,4) q(3) as] by blast
  have nm: "viewerName spelling_rq (demo_member ''#2'') (ct_db demo_center) = ''b@x''"
    by (simp add: viewerName_def demo_member_def demo_rows ct_db_def demo_center_def GetUserByID_def rd_def q)
  have ck: "cache_ok spelling_lib (ct_sign demo_center)" "ed25519_Public spelling_lib (sg_priv (ct_sign demo_center)) = [1]"
    by (simp_all add: demo_center_def cache_ok_New) (simp add: NewSignerFromKey_def spelling_lib_def host_lib_def)
  let ?v = "\<lparr>v_keys = [[1]], v_tomb = []\<rparr> :: Verifier"
  let ?a = "\<lparr>as_RelayID = ''rl-1'', as_Region = ''eu'', as_Endpoints = [demo_endpoint ''quic'' 4433, demo_endpoint ''sdata'' 443]\<rparr>"
  have pr: "''#22'' \<noteq> hr_ID ?h" "fst (Assign (en_f64 ?E) (hr_ID ?h) (rq_now spelling_rq) (ct_pool demo_center)) = Some ?a"
    "signature_correct (en_lib ?E)" "\<And>i. json_roundtrips (en_lib ?E) (host_claims (hr_ID ?h) (as_RelayID ?a) i)"
    "json_roundtrips (en_lib ?E) (viewer_claims (fr_sid demo_fresh) (hr_ID ?h) (as_RelayID ?a)
       (viewerName spelling_rq (demo_member ''#2'') (ct_db demo_center)) True True viewerTicketTTL (rq_now spelling_rq))"
    "cache_ok (en_lib ?E) (ct_sign demo_center)" "CHR 0x00 \<notin> set (hr_ID ?h)"
    "ed25519_Public (en_lib ?E) (sg_priv (ct_sign demo_center)) \<in> set (v_keys ?v)"
    using as spelling_lib_ok ck nm q(2) by (simp_all add: demo_may_start)
  obtain dp p m where o: "ct_sent c' = ct_sent demo_center @ [(p, SessionOpenMsg m)]" "so_Params m = en_json ?E (DesktopP dp)"
    "\<forall>rid t. \<not> fst (validateHostHello (en_lib ?E) rid t ''#22'' (dp_HostToken dp) ?v)"
    using desktop_id_spelling [OF d ready(2) pr] by blast
  show ?thesis
    by (rule exI [of _ ans], rule exI [of _ c'], rule exI [of _ dp], rule exI [of _ p], rule exI [of _ m])
      (use d o in \<open>simp add: demo_center_def\<close>)
qed

end
