(* ===== verification/Session_Life.thy ===== *)
theory Session_Life
  imports Session_Start
begin

text \<open>
  Sessions over their whole life on the server: starts, legs, timers, the janitor, refusals by the agent and
  messages from relays, in any order, as events of \<open>center_step\<close>. The invariant says that every session in
  the manager's table has its callbacks installed; from it follows that no session ends silently. The
  last part puts the tickets of a start and the relay's \<open>Session_Router\<close> together.
\<close>

subsection \<open>Events\<close>

text \<open>What the pool reports to the server while it handles a relay's message: activity of a session, and the
  end of a session.\<close>

fun pool_effect :: "request \<Rightarrow> pool_fx \<Rightarrow> center \<Rightarrow> center" where
  "pool_effect q (PTouch sid) c = with_mgr q (mgr_step (ETouch sid (rq_now q))) c"
| "pool_effect q (PNotifyClose sid reason) c = with_mgr q (mgr_step (ENotifyClose sid reason)) c"
| "pool_effect q _ c = c"

definition relay_message :: "request \<Rightarrow> string \<Rightarrow> nat \<Rightarrow> relay_msg \<Rightarrow> center \<Rightarrow> center" where
  "relay_message q rid p msg c =
     (let p1 = serveRelay_msg rid p msg (rq_now q) (ct_pool c)
      in fold (pool_effect q) (drop (length (p_fx (ct_pool c))) (p_fx p1)) (c\<lparr>ct_pool := p1\<rparr>))"

text \<open>Any change of the database or the registry by other requests, and any change of the set of relays by
  connections, probes and administrators, may happen between two events.\<close>

datatype center_event =
    CStart start_env rtv_config request actor http_req fresh start_req
  | CMgr request mgr_event
  | CRelay request string nat relay_msg
  | CServer server
  | CPool Pool

fun center_step :: "center_event \<Rightarrow> center \<Rightarrow> center" where
  "center_step (CStart E cfg q a h fr r) c = snd (start_route E cfg q a h fr r c)"
| "center_step (CMgr q e) c = with_mgr q (mgr_step e) c"
| "center_step (CRelay q rid p msg) c = relay_message q rid p msg c"
| "center_step (CServer s) c = c\<lparr>ct_sv := s\<rparr>"
| "center_step (CPool p) c = c\<lparr>ct_pool := p\<rparr>"

text \<open>Identifiers of new sessions are fresh; sessions are created and equipped by starts only.\<close>

fun by_start :: "mgr_event \<Rightarrow> bool" where
  "by_start (ECreate reg n u k p sid a c l t) = True"
| "by_start (ERelayRouted sid) = True"
| "by_start (ESetFinish sid) = True"
| "by_start (ESetNotify sid) = True"
| "by_start _ = False"

definition fresh_sid :: "string \<Rightarrow> center \<Rightarrow> bool" where
  "fresh_sid sid c \<longleftrightarrow> tget (m_sessions (ct_mgr c)) sid = None \<and> finishes sid (ct_mgr c) = 0 \<and> sid \<notin> set (m_reaps (ct_mgr c))
     \<and> tget (ct_hooks c) sid = None"

fun center_pre :: "center_event \<Rightarrow> center \<Rightarrow> bool" where
  "center_pre (CStart E cfg q a h fr r) c \<longleftrightarrow> fresh_sid (fr_sid fr) c"
| "center_pre (CMgr q e) c \<longleftrightarrow> \<not> by_start e \<and> mgr_pre e (ct_mgr c)"
| "center_pre _ c \<longleftrightarrow> True"

fun ev_rq :: "center_event \<Rightarrow> request option" where
  "ev_rq (CMgr q e) = Some q"
| "ev_rq (CRelay q rid p msg) = Some q"
| "ev_rq _ = None"

definition center_inv :: "center \<Rightarrow> bool" where
  "center_inv c \<longleftrightarrow> mgr_inv (ct_mgr c)
     \<and> (\<forall>sid s. tget (m_sessions (ct_mgr c)) sid = Some s \<longrightarrow> s_finish s
          \<and> (\<exists>k. tget (ct_hooks c) sid = Some k \<and> fh_Node k = s_NodeID s \<and> fh_Kind k = s_Kind s))"

subsection \<open>The invariant\<close>

lemma center_invD:
  assumes "center_inv c"
  shows "mgr_inv (ct_mgr c)" "tget (m_sessions (ct_mgr c)) sid = Some s \<Longrightarrow> s_finish s"
    "tget (m_sessions (ct_mgr c)) sid = Some s \<Longrightarrow>
       \<exists>k. tget (ct_hooks c) sid = Some k \<and> fh_Node k = s_NodeID s \<and> fh_Kind k = s_Kind s"
  using assms unfolding center_inv_def by blast+

lemma not_by_start_creates: "\<not> by_start e \<Longrightarrow> creates e = None"
  by (cases e) simp_all

lemma center_inv_mgr:
  assumes "center_inv c" "\<not> by_start e" "mgr_pre e (ct_mgr c)"
  shows "center_inv (with_mgr q (mgr_step e) c)"
  unfolding center_inv_def
proof (intro conjI allI impI)
  show "mgr_inv (ct_mgr (with_mgr q (mgr_step e) c))"
    using mgr_inv_step [OF center_invD(1) [OF assms(1)] assms(3)] by simp
  fix sid s'
  assume "tget (m_sessions (ct_mgr (with_mgr q (mgr_step e) c))) sid = Some s'"
  then obtain s where s: "tget (m_sessions (ct_mgr c)) sid = Some s" "descends s s'"
    using evolves_get [OF step_evolves [OF not_by_start_creates [OF assms(2)]], of "ct_mgr c" sid s'] by auto
  show "s_finish s'" using s(2) center_invD(2) [OF assms(1) s(1)] by (simp add: descends_def)
  show "\<exists>k. tget (ct_hooks (with_mgr q (mgr_step e) c)) sid = Some k \<and> fh_Node k = s_NodeID s' \<and> fh_Kind k = s_Kind s'"
    using s(2) center_invD(3) [OF assms(1) s(1)] by (simp add: descends_def)
qed

lemma center_inv_effects: "center_inv c \<Longrightarrow> center_inv (fold (pool_effect q) fx c)"
proof (induction fx arbitrary: c)
  case (Cons x fx)
  have "center_inv (pool_effect q x c)"
    using Cons.prems by (cases x) (simp_all add: center_inv_mgr del: mgr_step.simps)
  then show ?case using Cons.IH by simp
qed simp

lemma center_inv_pool: "center_inv (c\<lparr>ct_pool := p\<rparr>) = center_inv c"
  by (simp add: center_inv_def)

text \<open>The manager operations of a start are all allowed and close no other session.\<close>

definition own_events :: "string \<Rightarrow> mgr_event list \<Rightarrow> bool" where
  "own_events sid es \<longleftrightarrow> (\<forall>i r. i \<noteq> sid \<longrightarrow> ENotifyClose i r \<notin> set es)"

lemma own_events_simps [simp]: "own_events sid []"
  "own_events sid (e # es) \<longleftrightarrow> (\<forall>i r. i \<noteq> sid \<longrightarrow> e \<noteq> ENotifyClose i r) \<and> own_events sid es"
  "own_events sid (es @ fs) \<longleftrightarrow> own_events sid es \<and> own_events sid fs"
  by (auto simp: own_events_def)

lemma start_mgr_steps:
  assumes "startSession L f64 enc q a h fr kind params oa ca extra desk c = (res, c')" "fresh_sid (fr_sid fr) c"
  shows "\<exists>es. ct_mgr c' = fold mgr_step es (ct_mgr c) \<and> run_ok mgr_pre mgr_step es (ct_mgr c) \<and> own_events (fr_sid fr) es"
proof (cases rule: startSession_cases [of L f64 enc q a h fr kind params oa ca extra desk c])
  case (refused e)
  then show ?thesis using assms(1) by (auto intro: exI [of _ "[]"])
next
  case (created n nd r m)
  let ?cr = "ECreate (sv_reg (ct_sv c)) n (fst a) kind (enc params) (fr_sid fr) (fr_agent fr) (fr_client fr) (fr_lease fr) (rq_now q)"
  note cr = create_result [OF created(3)]
  obtain lg c1 where rt: "route_legs L f64 q h n kind r (c\<lparr>ct_mgr := m\<rparr>) = (lg, c1)" by fastforce
  obtain k where k: "registry_Get n (sv_reg (ct_sv (c\<lparr>ct_mgr := m\<rparr>))) = Some k"
    using cr(1) by (auto simp: Online_def registry_Get_def)
  let ?es = "[?cr] @ (if lg_relay lg = None then [] else [ERelayRouted (fr_sid fr)]) @ [ESetFinish (fr_sid fr), ESetNotify (fr_sid fr)]"
  have m: "ct_mgr (install_hooks (fr_sid fr) hk c1) = fold mgr_step ?es (ct_mgr c)" for hk
    using route_legs_state(6) [OF rt] created(3) cr(3) by (simp add: install_hooks_def)
  have ok: "run_ok mgr_pre mgr_step (?es @ es) (ct_mgr c) \<and> own_events (fr_sid fr) (?es @ es)" if "es = [] \<or> es = [ENotifyClose (fr_sid fr) ''node-offline'']" for es
    using assms(2) that by (auto simp: fresh_sid_def)
  show ?thesis
  proof (cases "rq_fails q ''Send''")
    case True
    have "ct_mgr c' = fold mgr_step (?es @ [ENotifyClose (fr_sid fr) ''node-offline'']) (ct_mgr c)"
      using assms(1) True m created(4) cr(3) by (auto simp: open_session_unsent [OF rt])
    then show ?thesis using ok by blast
  next
    case False
    have "ct_mgr c' = fold mgr_step (?es @ []) (ct_mgr c)"
      using assms(1) False m created(4) cr(3) by (auto simp: open_session_sent [OF rt k] ct_audit_def)
    then show ?thesis using ok by blast
  qed
qed

text \<open>What a start changes in the table and the callbacks.\<close>

definition start_shape :: "string \<Rightarrow> center \<Rightarrow> center \<Rightarrow> bool" where
  "start_shape sid c c' \<longleftrightarrow>
     (\<forall>i. i \<noteq> sid \<longrightarrow> tget (m_sessions (ct_mgr c')) i = tget (m_sessions (ct_mgr c)) i \<and> tget (ct_hooks c') i = tget (ct_hooks c) i)
     \<and> (\<forall>s. tget (m_sessions (ct_mgr c')) sid = Some s \<longrightarrow> s_finish s
          \<and> (\<exists>k. tget (ct_hooks c') sid = Some k \<and> fh_Node k = s_NodeID s \<and> fh_Kind k = s_Kind s))
     \<and> (\<exists>es. ct_mgr c' = fold mgr_step es (ct_mgr c) \<and> run_ok mgr_pre mgr_step es (ct_mgr c) \<and> own_events sid es)"

lemma start_shape_refl: "fresh_sid sid c \<Longrightarrow> start_shape sid c c"
  unfolding start_shape_def by (auto simp: fresh_sid_def intro: exI [of _ "[]"])

lemma start_shape_same:
  "start_shape sid c c' \<Longrightarrow> ct_mgr d = ct_mgr c \<Longrightarrow> ct_hooks d = ct_hooks c \<Longrightarrow> ct_mgr d' = ct_mgr c' \<Longrightarrow> ct_hooks d' = ct_hooks c'
   \<Longrightarrow> start_shape sid d d'"
  by (simp add: start_shape_def)

lemma startSession_shape:
  assumes "startSession L f64 enc q a h fr kind params oa ca extra desk c = (res, c')" "fresh_sid (fr_sid fr) c"
  shows "start_shape (fr_sid fr) c c'"
proof (cases rule: startSession_cases [of L f64 enc q a h fr kind params oa ca extra desk c])
  case (refused e)
  then show ?thesis using assms start_shape_refl by simp
next
  case (created n nd r m)
  note cr = create_result [OF created(3)]
  obtain lg c1 where rt: "route_legs L f64 q h n kind r (c\<lparr>ct_mgr := m\<rparr>) = (lg, c1)" by fastforce
  obtain k where k: "registry_Get n (sv_reg (ct_sv (c\<lparr>ct_mgr := m\<rparr>))) = Some k"
    using cr(1) by (auto simp: Online_def registry_Get_def)
  let ?hk = "hook_of a n kind ca (lg_relay lg) desk"
  have s: "tget (m_sessions (ct_mgr (c\<lparr>ct_mgr := m\<rparr>))) (fr_sid fr) =
      Some (opened (fr_sid fr) n (fst a) kind (enc params) (fr_agent fr) (fr_client fr) (rq_now q) (ct_mgr c))"
    using cr(8) [of "fr_sid fr"] by simp
  note inst = installed_session [OF rt cr(3) s, of ?hk]
  obtain es where es: "ct_mgr c' = fold mgr_step es (ct_mgr c)" "run_ok mgr_pre mgr_step es (ct_mgr c)" "own_events (fr_sid fr) es"
    using start_mgr_steps [OF assms] by blast
  show ?thesis
  proof (cases "rq_fails q ''Send''")
    case True
    have f: "tget (m_sessions (ct_mgr c)) (fr_sid fr) = None" using assms(2) by (simp add: fresh_sid_def)
    have c': "c' = with_mgr q (NotifyClose (cr_Session r) ''node-offline'') (install_hooks (cr_Session r) ?hk c1)"
      using assms(1) True created(4) by (auto simp: open_session_unsent [OF rt])
    have "tget (m_sessions (ct_mgr c')) i = tget (m_sessions (ct_mgr c)) i" for i
      using start_unsent_clean [OF created(3) f rt True, of ?hk] by (simp add: c' Let_def)
    then show ?thesis using es f inst(3) unfolding start_shape_def by (auto simp: c' cr(3))
  next
    case False
    have i: "ct_mgr c' = ct_mgr (install_hooks (fr_sid fr) ?hk c1)" "ct_hooks c' = ct_hooks (install_hooks (fr_sid fr) ?hk c1)"
      using assms(1) False created(4) cr(3) by (auto simp: open_session_sent [OF rt k] ct_audit_def)
    have "fh_Node ?hk = n" "fh_Kind ?hk = kind" by (simp_all add: hook_of_def)
    moreover have "\<exists>es. ct_mgr c' = fold mgr_step es (ct_mgr c) \<and> run_ok mgr_pre mgr_step es (ct_mgr c) \<and> own_events (fr_sid fr) es"
      using es by blast
    ultimately show ?thesis unfolding start_shape_def i by (simp add: inst(1,3) cr(8))
  qed
qed

lemma checked_shape:
  assumes "fresh_sid (fr_sid fr) c"
  shows "start_shape (fr_sid fr) c (snd (errors (start_checked E q a h fr kind oa ca system checked c)))"
proof (cases checked)
  case (Inl e)
  then show ?thesis using start_shape_refl [OF assms] by (simp add: start_checked_def errors_def)
next
  case (Inr p)
  then show ?thesis
    using startSession_shape [OF prod.collapse [symmetric] assms] by (simp add: start_checked_def errors_def)
qed

lemma desktop_shape:
  assumes "fresh_sid (fr_sid fr) c"
  shows "start_shape (fr_sid fr) c (snd (desktopStart E cfg q a h fr b c))"
proof (cases rule: desktop_cases [of E cfg q a h fr b c])
  case (stopped e p1)
  show ?thesis unfolding stopped by (rule start_shape_same [OF start_shape_refl [OF assms]]) simp_all
next
  case (shared wts asg p1 rid region eps htok sg cands wt ws)
  let ?c2 = "c\<lparr>ct_pool := p1, ct_sign := sg\<rparr>"
  obtain x c3 where st: "startSession (en_lib E) (en_f64 E) (en_json E) q a h fr KindDesktop
      (DesktopP (desktop_params cfg rid eps htok wts)) ''desktop.open'' ''desktop.close'' [] (Some (rid, hr_ID h)) ?c2 = (x, c3)"
    by fastforce
  have sh: "start_shape (fr_sid fr) ?c2 c3"
    by (rule startSession_shape [OF st]) (use assms in \<open>simp add: fresh_sid_def\<close>)
  have "ct_mgr (snd (desktopStart E cfg q a h fr b c)) = ct_mgr c3" "ct_hooks (snd (desktopStart E cfg q a h fr b c)) = ct_hooks c3"
    using shared(7) st by (auto split: sum.splits prod.splits)
  then show ?thesis by (intro start_shape_same [OF sh]) simp_all
qed

lemma start_route_shape:
  assumes "fresh_sid (fr_sid fr) c"
  shows "start_shape (fr_sid fr) c (snd (start_route E cfg q a h fr r c))"
  using checked_shape [OF assms] desktop_shape [OF assms]
  by (cases r) (simp_all add: execStart_def shellStart_def fileUpload_def fileDownload_def tunnelStart_def Let_def errors_def)

lemma center_inv_start:
  assumes "center_inv c" "start_shape sid c c'"
  shows "center_inv c'"
  unfolding center_inv_def
proof (intro conjI allI impI)
  obtain es where es: "ct_mgr c' = fold mgr_step es (ct_mgr c)" "run_ok mgr_pre mgr_step es (ct_mgr c)"
    using assms(2) unfolding start_shape_def by blast
  show "mgr_inv (ct_mgr c')" unfolding es(1) by (rule mgr.run_inv [OF center_invD(1) [OF assms(1)] es(2)])
  fix i s
  assume s: "tget (m_sessions (ct_mgr c')) i = Some s"
  have "s_finish s \<and> (\<exists>k. tget (ct_hooks c') i = Some k \<and> fh_Node k = s_NodeID s \<and> fh_Kind k = s_Kind s)"
  proof (cases "i = sid")
    case True
    then show ?thesis using s assms(2) unfolding start_shape_def by blast
  next
    case False
    then have "tget (m_sessions (ct_mgr c)) i = Some s" "tget (ct_hooks c') i = tget (ct_hooks c) i"
      using s assms(2) unfolding start_shape_def by auto
    then show ?thesis using center_invD(2,3) [OF assms(1)] by simp
  qed
  then show "s_finish s" "\<exists>k. tget (ct_hooks c') i = Some k \<and> fh_Node k = s_NodeID s \<and> fh_Kind k = s_Kind s" by simp_all
qed

interpretation center: inv_machine center_pre center_step center_inv
proof unfold_locales
  fix c e
  assume a: "center_inv c" "center_pre e c"
  show "center_inv (center_step e c)"
  proof (cases e)
    case (CStart E cfg q a' h fr r)
    then show ?thesis using center_inv_start [OF a(1) start_route_shape] a(2) by simp
  next
    case (CMgr q m)
    then show ?thesis using a by (simp add: center_inv_mgr)
  next
    case (CRelay q rid p msg)
    then show ?thesis using a(1) by (simp add: relay_message_def Let_def center_inv_effects center_inv_pool)
  qed (use a(1) in \<open>simp_all add: center_inv_def\<close>)
qed

subsection \<open>No session ends silently\<close>

text \<open>The manager's log only grows.\<close>

definition log_grows :: "Manager \<Rightarrow> Manager \<Rightarrow> bool" where
  "log_grows m m' \<longleftrightarrow> (\<exists>es. m_fx m' = m_fx m @ es)"

lemma log_grows_refl [simp]: "m_fx m' = m_fx m \<Longrightarrow> log_grows m m'"
  by (simp add: log_grows_def)

lemma log_grows_close [simp]: "log_grows m (mgr_close sid r rm m)"
  by (auto simp: log_grows_def mgr_close_def Let_def split: option.splits)

lemma log_grows_expire [simp]: "log_grows m (expire sid t m)"
proof (cases rule: expire_cases [of sid t m])
  case (2 s)
  then show ?thesis
    using log_grows_close [of "upd_session sid (\<lambda>s. s\<lparr>s_expiresAt := t\<rparr>) m" sid "''opening-timeout''" False]
    by (simp add: log_grows_def Let_def)
qed simp

lemma log_grows_fold: "log_grows m m' \<Longrightarrow> log_grows m (fold (\<lambda>(sid, r). NotifyClose sid r) es m')"
proof (induction es arbitrary: m')
  case (Cons e es)
  obtain sid r where e: "e = (sid, r)" by fastforce
  have "log_grows m (NotifyClose sid r m')"
    using Cons.prems log_grows_close [of m' sid r True] by (auto simp: log_grows_def NotifyClose_def)
  then show ?case using Cons.IH by (simp add: e)
qed simp

lemma log_grows_if: "log_grows m (snd x) \<Longrightarrow> log_grows m (snd y) \<Longrightarrow> log_grows m (snd (if c then x else y))"
  by simp

lemma log_grows_attach_found: "log_grows m (snd (attach_found side sid tk ws t m))"
proof (cases "tget (m_sessions m) sid")
  case None
  then show ?thesis by (simp add: attach_found_def)
next
  case (Some s)
  show ?thesis
    unfolding attach_found_def Some option.case Let_def
    by (intro log_grows_if) (simp_all, simp add: log_grows_def)
qed

lemma log_grows_attach: "log_grows m (snd (mgr_attach side sid tk ws t m))"
  by (simp add: mgr_attach_def Let_def log_grows_attach_found)

lemma log_grows_step: "log_grows m (mgr_step e m)"
proof (cases e)
  case (ECreate reg n u k p sid a c l t)
  then show ?thesis
    using create_sessions(4) [OF _ _ refl, of n reg k m u p sid a c l t] create_denied [of n reg k m u p sid a c l t]
    by (cases "Online n reg \<and> under_limit n k m") (simp_all add: log_grows_def)
next
  case (ESweep t)
  then show ?thesis by (simp add: sweep_def Let_def log_grows_fold)
next
  case (EAttachRTV tk t)
  then show ?thesis by (auto simp: AttachClientRTV_def split: option.splits)
next
  case (ETake n sid tk t)
  then show ?thesis by (auto simp: TakeDesktopControl_def Let_def split: option.splits)
next
  case (ERelease n sid)
  then show ?thesis by (auto simp: ReleaseDesktopControl_def split: option.splits)
qed (simp_all add: log_grows_attach TouchActivity_def relay_frame_def MarkRelayRouted_def SetFinishFn_def SetNotifyFn_def
    NotifyClose_def expire_reap_def)

text \<open>An operation that ends an open session with its callback installed logs the call of the callback.\<close>

lemma ending_finishes:
  assumes "mgr_inv m" "tget (m_sessions m) sid = Some s" "\<not> s_closed s" "s_finish s" "mgr_pre e m"
    and "\<forall>s'. tget (m_sessions (mgr_step e m)) sid = Some s' \<longrightarrow> s_closed s'"
  shows "\<exists>reason. Finish sid reason \<in> set (drop (length (m_fx m)) (m_fx (mgr_step e m)))"
proof -
  have "callback_inv sid m"
    using assms(1-4) close_invD(3) [of m sid s] by (simp add: callback_inv_def awaiting_def mgr_inv_iff)
  then have "callback_inv sid (mgr_step e m)" by (rule callback.step_inv) (rule assms(5))
  then have f1: "finishes sid (mgr_step e m) = 1"
    using assms(6) by (auto simp: callback_inv_def awaiting_def settled_def)
  have f0: "finishes sid m = 0" using assms(1-3) close_invD(3) [of m sid s] by (simp add: mgr_inv_iff)
  obtain es where es: "m_fx (mgr_step e m) = m_fx m @ es" using log_grows_step [of m e] by (auto simp: log_grows_def)
  then have "filter (is_finish sid) es \<noteq> []" using f0 f1 by (auto simp: finishes_def)
  then obtain x where x: "x \<in> set es" "is_finish sid x" by (auto simp: filter_empty_conv)
  obtain reason where "x = Finish sid reason" using x(2) that by (cases x) simp_all
  then show ?thesis using es x(1) by auto
qed

text \<open>What running the callbacks can do to the pool and the database: orders and audit rows are added, nothing
  else changes.\<close>

definition adds_orders :: "center \<Rightarrow> center \<Rightarrow> bool" where
  "adds_orders c c' \<longleftrightarrow> p_conns (ct_pool c') = p_conns (ct_pool c) \<and> db_users (ct_db c') = db_users (ct_db c)
     \<and> (\<exists>fx. p_fx (ct_pool c') = p_fx (ct_pool c) @ fx) \<and> (\<exists>rows. db_audit (ct_db c') = db_audit (ct_db c) @ rows)"

lemma adds_orders_refl [simp]: "adds_orders c c"
  by (simp add: adds_orders_def)

lemma adds_orders_trans: "adds_orders a b \<Longrightarrow> adds_orders b c \<Longrightarrow> adds_orders a c"
  by (auto simp: adds_orders_def)

lemma SessionKill_conns [simp]: "p_conns (SessionKill rid node sid reason p) = p_conns p"
  by (simp add: SessionKill_def pool_log_def split: option.splits)

lemma SessionKill_fx: "p_fx (SessionKill rid node sid reason p) =
  p_fx p @ (case tget (p_conns p) rid of None \<Rightarrow> [] | Some c \<Rightarrow> [PSend (rc_ptr c) (PSessionKill sid node reason)])"
  by (simp add: SessionKill_def pool_log_def split: option.splits)

lemma audit_rows: "audit q u cl n ac meta d = d \<or> audit q u cl n ac meta d = d\<lparr>db_audit := db_audit d @ [\<lparr>au_UserID = u, au_ClusterID = cl,
    au_NodeID = n, au_Action = ac, au_Metadata = meta, au_CreatedAt = rq_now q\<rparr>]\<rparr>"
  by (auto simp: audit_def wr_def InsertAuditLog_def split: option.splits)

lemma ct_audit_adds: "adds_orders c (ct_audit q u n ac meta c)"
  using audit_rows [of q "Some u" None "Some n" ac meta "ct_db c"]
  by (auto simp: adds_orders_def ct_audit_def ct_db_def)

lemma run_finish_adds: "adds_orders c (run_finish q k sid reason c)"
proof -
  let ?c1 = "ct_audit q (fh_User k) (fh_Node k) (fh_Action k) [(''reason'', reason), (''kind'', fh_Kind k), (''sessionId'', sid)] c"
  have "adds_orders ?c1 (run_finish q k sid reason c)"
    by (auto simp: run_finish_def Let_def adds_orders_def ct_db_def SessionKill_fx split: option.splits)
  then show ?thesis using ct_audit_adds adds_orders_trans by blast
qed

lemma send_ctl_adds: "adds_orders c (snd (send_ctl q n m c))"
  by (auto simp: adds_orders_def send_ctl_def ct_db_def split: option.splits)

lemma run_effect_adds: "adds_orders c (run_effect q x c)"
  by (cases x) (simp_all add: run_finish_adds send_ctl_adds split: option.splits)

lemma fold_effects_adds: "adds_orders c (fold (run_effect q) fx c)"
proof (induction fx arbitrary: c)
  case (Cons x fx)
  show ?case using adds_orders_trans [OF run_effect_adds Cons.IH] by simp
qed simp

text \<open>What the end of a session leaves behind between two states: the kill order for its data legs, the kill
  order for its desktop, and the closing audit row.\<close>

definition new_orders :: "center \<Rightarrow> center \<Rightarrow> pool_fx set" where
  "new_orders c c' = set (drop (length (p_fx (ct_pool c))) (p_fx (ct_pool c')))"

definition new_rows :: "center \<Rightarrow> center \<Rightarrow> AuditLog set" where
  "new_rows c c' = set (drop (length (db_audit (ct_db c))) (db_audit (ct_db c')))"

definition closing_row :: "request \<Rightarrow> finish_hook \<Rightarrow> string \<Rightarrow> string \<Rightarrow> AuditLog" where
  "closing_row q k sid reason = \<lparr>au_UserID = Some (fh_User k), au_ClusterID = None, au_NodeID = Some (fh_Node k), au_Action = fh_Action k,
     au_Metadata = [(''reason'', reason), (''kind'', fh_Kind k), (''sessionId'', sid)], au_CreatedAt = rq_now q\<rparr>"

definition revoked :: "request \<Rightarrow> finish_hook \<Rightarrow> string \<Rightarrow> string \<Rightarrow> center \<Rightarrow> center \<Rightarrow> bool" where
  "revoked q k sid reason c c' \<longleftrightarrow>
     (\<forall>rid rc. fh_Relay k = Some rid \<longrightarrow> tget (p_conns (ct_pool c')) rid = Some rc
        \<longrightarrow> PSend (rc_ptr rc) (PSessionKill sid (fh_Node k) ''session-end'') \<in> new_orders c c')
     \<and> (\<forall>rid node rc. fh_Desktop k = Some (rid, node) \<longrightarrow> rid \<noteq> EmbeddedRelayID \<longrightarrow> tget (p_conns (ct_pool c')) rid = Some rc
        \<longrightarrow> PSend (rc_ptr rc) (PSessionKill sid node reason) \<in> new_orders c c')
     \<and> (\<not> rq_fails q ''InsertAuditLog'' \<longrightarrow> tget (db_users (ct_db c')) (fh_User k) \<noteq> None
        \<longrightarrow> closing_row q k sid reason \<in> new_rows c c')"

text \<open>Growth of the logs with the set of relays left alone in their identity.\<close>

lemma adds_ordersD:
  assumes "adds_orders c c'"
  shows "p_conns (ct_pool c') = p_conns (ct_pool c)" "db_users (ct_db c') = db_users (ct_db c)"
    "\<exists>fx. p_fx (ct_pool c') = p_fx (ct_pool c) @ fx" "\<exists>rows. db_audit (ct_db c') = db_audit (ct_db c) @ rows"
  using assms by (simp_all add: adds_orders_def)

definition logs_extend :: "center \<Rightarrow> center \<Rightarrow> bool" where
  "logs_extend c c' \<longleftrightarrow> (\<exists>fx. p_fx (ct_pool c') = p_fx (ct_pool c) @ fx) \<and> (\<exists>rows. db_audit (ct_db c') = db_audit (ct_db c) @ rows)"

lemma logs_extend_adds: "adds_orders c c' \<Longrightarrow> logs_extend c c'"
  by (simp add: adds_orders_def logs_extend_def)

lemma new_widen:
  assumes "logs_extend a c" "logs_extend c c'" "adds_orders c' d"
  shows "new_orders c c' \<subseteq> new_orders a d" "new_rows c c' \<subseteq> new_rows a d"
  using assms unfolding logs_extend_def adds_orders_def new_orders_def new_rows_def by auto

lemma revoked_widen:
  assumes "revoked q k sid reason c c'" "logs_extend a c" "logs_extend c c'" "adds_orders c' d"
  shows "revoked q k sid reason a d"
proof -
  note same = adds_ordersD(1,2) [OF assms(4)]
  note w = subsetD [OF new_widen(1) [OF assms(2-4)]] subsetD [OF new_widen(2) [OF assms(2-4)]]
  show ?thesis using assms(1) unfolding revoked_def same by (blast intro: w)
qed

lemma run_finish_db: "ct_db (run_finish q k sid reason c) =
  ct_db (ct_audit q (fh_User k) (fh_Node k) (fh_Action k) [(''reason'', reason), (''kind'', fh_Kind k), (''sessionId'', sid)] c)"
  by (cases "fh_Relay k"; cases "fh_Desktop k") (simp_all add: run_finish_def Let_def ct_db_def split: prod.split)

lemma run_finish_audit:
  assumes "\<not> rq_fails q ''InsertAuditLog''" "tget (db_users (ct_db c)) (fh_User k) \<noteq> None"
  shows "closing_row q k sid reason \<in> new_rows c (run_finish q k sid reason c)"
proof -
  obtain u where u: "tget (db_users (ct_db c)) (fh_User k) = Some u" using assms(2) by blast
  have "db_audit (ct_db (run_finish q k sid reason c)) = db_audit (ct_db c) @ [closing_row q k sid reason]"
    unfolding run_finish_db closing_row_def by (simp add: ct_audit_def ct_db_def audit_def wr_def assms(1) InsertAuditLog_def u [unfolded ct_db_def])
  then show ?thesis by (simp add: new_rows_def)
qed

lemma run_finish_orders:
  assumes "tget (p_conns (ct_pool c)) rid = Some rc"
  shows "fh_Relay k = Some rid \<Longrightarrow>
      PSend (rc_ptr rc) (PSessionKill sid (fh_Node k) ''session-end'') \<in> new_orders c (run_finish q k sid reason c)"
    "fh_Desktop k = Some (rid, node) \<Longrightarrow> rid \<noteq> EmbeddedRelayID \<Longrightarrow>
      PSend (rc_ptr rc) (PSessionKill sid node reason) \<in> new_orders c (run_finish q k sid reason c)"
  using assms by (auto simp: run_finish_def Let_def ct_audit_def SessionKill_fx new_orders_def split: option.splits)

lemma run_finish_revokes: "revoked q k sid reason c (run_finish q k sid reason c)"
  unfolding revoked_def
proof (intro conjI allI impI)
  note same = adds_ordersD(1,2) [OF run_finish_adds [of c q k sid reason]]
  show "PSend (rc_ptr rc) (PSessionKill sid (fh_Node k) ''session-end'') \<in> new_orders c (run_finish q k sid reason c)"
    if "fh_Relay k = Some rid" "tget (p_conns (ct_pool (run_finish q k sid reason c))) rid = Some rc" for rid rc
    using that same by (simp add: run_finish_orders(1))
  show "PSend (rc_ptr rc) (PSessionKill sid node reason) \<in> new_orders c (run_finish q k sid reason c)"
    if "fh_Desktop k = Some (rid, node)" "rid \<noteq> EmbeddedRelayID"
      "tget (p_conns (ct_pool (run_finish q k sid reason c))) rid = Some rc" for rid node rc
    using that same by (simp add: run_finish_orders(2))
  show "closing_row q k sid reason \<in> new_rows c (run_finish q k sid reason c)"
    if "\<not> rq_fails q ''InsertAuditLog''" "tget (db_users (ct_db (run_finish q k sid reason c))) (fh_User k) \<noteq> None"
    using that same by (simp add: run_finish_audit)
qed

lemma effects_revoke:
  assumes "Finish sid reason \<in> set fx" "tget (ct_hooks c) sid = Some k"
  shows "revoked q k sid reason c (fold (run_effect q) fx c)"
proof -
  obtain xs ys where fx: "fx = xs @ Finish sid reason # ys" using split_list [OF assms(1)] by blast
  let ?c = "fold (run_effect q) xs c"
  have f: "fold (run_effect q) fx c = fold (run_effect q) ys (run_finish q k sid reason ?c)" by (simp add: fx assms(2))
  show ?thesis
    unfolding f
    by (rule revoked_widen [OF run_finish_revokes logs_extend_adds logs_extend_adds])
      (rule fold_effects_adds run_finish_adds)+
qed

lemma revoked_mgr [simp]: "revoked q k sid reason (c\<lparr>ct_mgr := m\<rparr>) d = revoked q k sid reason c d"
  by (simp add: revoked_def new_orders_def new_rows_def ct_db_def)

lemma with_mgr_adds: "adds_orders c (with_mgr q f c)"
  using fold_effects_adds [of "c\<lparr>ct_mgr := f (ct_mgr c)\<rparr>" q] by (simp add: with_mgr_def adds_orders_def ct_db_def)

definition live :: "string \<Rightarrow> center \<Rightarrow> bool" where
  "live sid c \<longleftrightarrow> (case tget (m_sessions (ct_mgr c)) sid of None \<Rightarrow> False | Some s \<Rightarrow> \<not> s_closed s)"

text \<open>An operation of the manager that ends a session runs its finish callback.\<close>

lemma mgr_end_revokes:
  assumes "center_inv c" "live sid c" "mgr_pre e (ct_mgr c)" "\<not> live sid (with_mgr q (mgr_step e) c)"
    "tget (ct_hooks c) sid = Some k"
  shows "\<exists>reason. revoked q k sid reason c (with_mgr q (mgr_step e) c)"
proof -
  obtain s where s: "tget (m_sessions (ct_mgr c)) sid = Some s" "\<not> s_closed s"
    using assms(2) by (auto simp: live_def split: option.splits)
  have "\<forall>s'. tget (m_sessions (mgr_step e (ct_mgr c))) sid = Some s' \<longrightarrow> s_closed s'"
    using assms(4) by (auto simp: live_def)
  from ending_finishes [OF center_invD(1) [OF assms(1)] s center_invD(2) [OF assms(1) s(1)] assms(3) this]
  obtain reason where f: "Finish sid reason \<in> set (drop (length (m_fx (ct_mgr c))) (m_fx (mgr_step e (ct_mgr c))))" by blast
  have "revoked q k sid reason (c\<lparr>ct_mgr := mgr_step e (ct_mgr c)\<rparr>) (with_mgr q (mgr_step e) c)"
    unfolding with_mgr_def by (rule effects_revoke [OF f]) (simp add: assms(5))
  then show ?thesis by auto
qed

lemma pool_effect_adds: "adds_orders c (pool_effect q x c)"
  by (cases x) (simp_all add: with_mgr_adds del: mgr_step.simps)

lemma pool_effects_adds: "adds_orders c (fold (pool_effect q) fx c)"
proof (induction fx arbitrary: c)
  case (Cons x fx)
  show ?case using adds_orders_trans [OF pool_effect_adds Cons.IH] by simp
qed simp

lemma pool_effect_hooks [simp]: "ct_hooks (pool_effect q x c) = ct_hooks c"
  by (cases x) simp_all

lemma pool_effect_revokes:
  assumes "center_inv c" "live sid c" "\<not> live sid (pool_effect q x c)" "tget (ct_hooks c) sid = Some k"
  shows "\<exists>reason. revoked q k sid reason c (pool_effect q x c)"
  using assms mgr_end_revokes [OF assms(1,2) _ _ assms(4)] by (cases x) (simp_all del: mgr_step.simps)

lemma pool_effects_revoke:
  assumes "center_inv c" "live sid c" "\<not> live sid (fold (pool_effect q) fx c)" "tget (ct_hooks c) sid = Some k"
  shows "\<exists>reason. revoked q k sid reason c (fold (pool_effect q) fx c)"
  using assms
proof (induction fx arbitrary: c)
  case (Cons x fx)
  show ?case
  proof (cases "live sid (pool_effect q x c)")
    case True
    have "center_inv (pool_effect q x c)" using center_inv_effects [OF Cons.prems(1), of q "[x]"] by simp
    from Cons.IH [OF this True] Cons.prems
    obtain reason where "revoked q k sid reason (pool_effect q x c) (fold (pool_effect q) (x # fx) c)" by auto
    from revoked_widen [OF this logs_extend_adds [OF pool_effect_adds [of c q x]], of "fold (pool_effect q) (x # fx) c"]
    show ?thesis using logs_extend_adds [OF pool_effects_adds] by auto
  next
    case False
    obtain reason where "revoked q k sid reason c (pool_effect q x c)"
      using pool_effect_revokes [OF Cons.prems(1,2) False Cons.prems(4)] by blast
    from revoked_widen [OF this logs_extend_adds [OF adds_orders_refl] logs_extend_adds [OF pool_effect_adds] pool_effects_adds]
    show ?thesis by auto
  qed
qed simp

lemma serveRelay_log: "\<exists>fx. p_fx (serveRelay_msg rid p msg now m) = p_fx m @ fx"
  by (cases msg) (auto simp: pool_log_def upd_conn_def split: option.splits)

lemma relay_message_revokes:
  assumes "center_inv c" "live sid c" "\<not> live sid (relay_message q rid p msg c)" "tget (ct_hooks c) sid = Some k"
  shows "\<exists>reason. revoked q k sid reason c (relay_message q rid p msg c)"
proof -
  let ?p1 = "serveRelay_msg rid p msg (rq_now q) (ct_pool c)"
  let ?c1 = "c\<lparr>ct_pool := ?p1\<rparr>" and ?fx = "drop (length (p_fx (ct_pool c))) (p_fx ?p1)"
  have r: "relay_message q rid p msg c = fold (pool_effect q) ?fx ?c1" by (simp add: relay_message_def Let_def)
  have l: "logs_extend c ?c1" using serveRelay_log by (simp add: logs_extend_def ct_db_def)
  have "center_inv ?c1" "live sid ?c1" using assms(1,2) by (simp_all add: center_inv_pool live_def)
  then obtain reason where "revoked q k sid reason ?c1 (fold (pool_effect q) ?fx ?c1)"
    using pool_effects_revoke [of ?c1 sid q ?fx k] assms(3,4) r by auto
  from revoked_widen [OF this l logs_extend_adds [OF pool_effects_adds] adds_orders_refl] show ?thesis unfolding r by blast
qed

text \<open>One step of the server that ends a session.\<close>

lemma step_revokes:
  assumes "center_inv c" "center_pre e c" "live sid c" "\<not> live sid (center_step e c)" "tget (ct_hooks c) sid = Some k"
  shows "\<exists>q reason. ev_rq e = Some q \<and> revoked q k sid reason c (center_step e c)"
proof (cases e)
  case (CStart E cfg q a h fr r)
  have fresh: "fresh_sid (fr_sid fr) c" using assms(2) CStart by simp
  then have "sid \<noteq> fr_sid fr" using assms(3) by (auto simp: fresh_sid_def live_def)
  then have "live sid (center_step e c)"
    using start_route_shape [OF fresh, of E cfg q a h r] assms(3) by (simp add: CStart start_shape_def live_def)
  then show ?thesis using assms(4) by simp
next
  case (CMgr q m)
  then show ?thesis using mgr_end_revokes [OF assms(1,3), of m q k] assms(2,4,5) by auto
next
  case (CRelay q rid p msg)
  then show ?thesis using relay_message_revokes [OF assms(1,3) _ assms(5)] assms(4) by simp
qed (use assms(3,4) in \<open>simp_all add: live_def\<close>)


subsection \<open>A start and its end\<close>

text \<open>What a successful start leaves in the table.\<close>

lemma startSession_table:
  assumes "startSession L f64 enc q a h fr kind params oa ca extra desk c = (Inr (res, ans), c')"
  obtains n lg where "rq_parse q (hr_ID h) = Some n" "under_limit n kind (ct_mgr c)"
    "ans = \<lparr>sa_sessionId = fr_sid fr, sa_token = fr_client fr, sa_expiresAt = rq_now q + openingTTL, sa_websocketUrl = lg_client lg\<rparr>"
    "tget (m_sessions (ct_mgr c')) (fr_sid fr) = Some (started (lg_relay lg \<noteq> None)
       (opened (fr_sid fr) n (fst a) kind (enc params) (fr_agent fr) (fr_client fr) (rq_now q) (ct_mgr c)))"
    "tget (ct_hooks c') (fr_sid fr) = Some (hook_of a n kind ca (lg_relay lg) desk)"
    "if kind \<noteq> KindDesktop \<and> clientSupportsRelayWS h
     then (case fst (relaySessionEndpoint f64 n (rq_now q) (ct_pool c)) of
             None \<Rightarrow> lg = main_legs h res
           | Some (addr, rid) \<Rightarrow> lg = relay_legs L (ct_sign c) (fr_sid fr) n addr rid (rq_now q))
     else lg = main_legs h res"
    "\<exists>p. ct_sent c' = ct_sent c @ [(p, SessionOpenMsg (open_order res kind (enc params) (lg_agent lg)))]"
    "m_reaps (ct_mgr c') = m_reaps (ct_mgr c)" "m_fx (ct_mgr c') = m_fx (ct_mgr c)"
proof (rule startSession_success [OF assms], goal_cases)
  case (1 n nd m lg c1 k)
  note cr = create_result [OF 1(4)]
  have s: "tget (m_sessions (ct_mgr (c\<lparr>ct_mgr := m\<rparr>))) (fr_sid fr) =
      Some (opened (fr_sid fr) n (fst a) kind (enc params) (fr_agent fr) (fr_client fr) (rq_now q) (ct_mgr c))"
    using cr(8) [of "fr_sid fr"] by simp
  have rl: "if kind \<noteq> KindDesktop \<and> clientSupportsRelayWS h
     then (case fst (relaySessionEndpoint f64 n (rq_now q) (ct_pool c)) of
             None \<Rightarrow> lg = main_legs h res
           | Some (addr, rid) \<Rightarrow> lg = relay_legs L (ct_sign c) (fr_sid fr) n addr rid (rq_now q))
     else lg = main_legs h res"
    using route_legs_cases [OF 1(5)] by (simp add: cr(3) cong: if_cong option.case_cong)
  show thesis
  proof (rule that [OF 1(2) cr(2) 1(8) _ _ rl])
    show "tget (m_sessions (ct_mgr c')) (fr_sid fr) = Some (started (lg_relay lg \<noteq> None)
        (opened (fr_sid fr) n (fst a) kind (enc params) (fr_agent fr) (fr_client fr) (rq_now q) (ct_mgr c)))"
      unfolding 1(9) using installed_session(1) [OF 1(5) cr(3) s, of "hook_of a n kind ca (lg_relay lg) desk" "fr_sid fr"]
      by (simp add: ct_audit_def)
    show "tget (ct_hooks c') (fr_sid fr) = Some (hook_of a n kind ca (lg_relay lg) desk)"
      unfolding 1(9) using installed_session(3) [OF 1(5) cr(3) s, of "hook_of a n kind ca (lg_relay lg) desk" "fr_sid fr"]
      by (simp add: ct_audit_def)
    show "\<exists>p. ct_sent c' = ct_sent c @ [(p, SessionOpenMsg (open_order res kind (enc params) (lg_agent lg)))]"
      unfolding 1(9) by (simp add: ct_audit_def)
    have "m_reaps m = m_reaps (ct_mgr c)" using create_sessions(5) [OF cr(1,2) refl] 1(4) by (metis snd_conv)
    then show "m_reaps (ct_mgr c') = m_reaps (ct_mgr c)"
      unfolding 1(9) using route_legs_state(6) [OF 1(5)] by (simp add: ct_audit_def install_hooks_def SetFinishFn_def SetNotifyFn_def MarkRelayRouted_def)
    show "m_fx (ct_mgr c') = m_fx (ct_mgr c)"
      unfolding 1(9) using installed_session(2) [OF 1(5) cr(3) s] cr(7) by (simp add: ct_audit_def)
  qed
qed

lemma opened_open [simp]: "\<not> s_closed (opened sid n u k p a c t m)" "s_NodeID (opened sid n u k p a c t m) = n"
  "s_Kind (opened sid n u k p a c t m) = k"
  by (simp_all add: opened_def)

lemma start_opens:
  assumes "startSession L f64 enc q a h fr kind params oa ca extra desk c = (Inr (res, ans), c')"
  shows "live (fr_sid fr) c'"
  by (rule startSession_table [OF assms]) (simp add: live_def)

lemma notify_ends: "\<not> live sid (with_mgr q (mgr_step (ENotifyClose sid reason)) c)"
  by (simp add: live_def notify_sessions split: option.splits)

lemma demo_center_inv: "center_inv demo_center" "fresh_sid ''s1'' demo_center"
proof -
  have m: "mgr_inv manager_New"
    by (simp add: manager_New_def mgr_inv_def CountByNode_def countByNodeLocked_def finishes_def)
  show "center_inv demo_center" by (simp add: center_inv_def demo_may_start m, simp add: manager_New_def)
  show "fresh_sid ''s1'' demo_center"
    by (simp add: fresh_sid_def demo_may_start manager_New_def finishes_def, simp add: demo_center_def)
qed

definition demo_start :: center_event where
  "demo_start = CStart demo_start_env demo_rtv demo_rq (demo_member ''#2'') (demo_http ''curl'' ''#22'') demo_fresh (STunnel (Some ''ssh''))"

lemma demo_start_opens: "live ''s1'' (center_step demo_start demo_center)"
proof -
  obtain res ans c' where r: "startSession demo_lib (\<lambda>x. x) (\<lambda>_. ''{}'') demo_rq (demo_member ''#2'') (demo_http ''curl'' ''#22'') demo_fresh
      KindTunnel (TunnelP ''ssh'' ''127.0.0.1'' 22) ''ssh.open'' ''ssh.open'' [] None demo_center = (Inr (res, ans), c')"
    using startSession_succeeds [of demo_rq "demo_http ''curl'' ''#22''" "''#22''" "demo_member ''#2''" demo_center] demo_may_start
    by metis
  have t: "tunnel_check (Some ''ssh'') = Inr (TunnelP ''ssh'' ''127.0.0.1'' 22)"
    by (simp add: tunnel_check_def tunnelTargets_def)
  have "center_step demo_start demo_center = c'"
    by (simp add: demo_start_def tunnelStart_def t start_checked_def demo_start_env_def system_audit_def errors_def r)
  then show ?thesis using start_opens [OF r] by (simp add: demo_may_start)
qed


subsection \<open>Sessions routed through a relay\<close>

text \<open>A token that opens one side of one session at one relay, and a token that opens nothing.\<close>

definition opens_leg :: "ticket_lib \<Rightarrow> string \<Rightarrow> string \<Rightarrow> uuid \<Rightarrow> string \<Rightarrow> string \<Rightarrow> go_time \<Rightarrow> Verifier \<Rightarrow> bool" where
  "opens_leg L rid sid n side token t v \<longleftrightarrow>
     (\<forall>path. path = [] \<or> path = sid \<longrightarrow>
        (\<exists>tk. fst (verifyLeg L rid token path side t v) = Inr tk \<and> tk_SessionID tk = sid \<and> tk_NodeID tk = n))
     \<and> (\<forall>rid' path side'. rid' \<noteq> rid \<or> side' \<noteq> side \<or> (path \<noteq> [] \<and> path \<noteq> sid) \<longrightarrow>
        (\<exists>e. fst (verifyLeg L rid' token path side' t v) = Inl e))"

definition opens_nothing :: "ticket_lib \<Rightarrow> string \<Rightarrow> go_time \<Rightarrow> Verifier \<Rightarrow> bool" where
  "opens_nothing L token t v \<longleftrightarrow> (\<forall>rid path side. \<exists>e. fst (verifyLeg L rid token path side t v) = Inl e)"

lemma sdata_opens:
  assumes "signature_correct L" "json_roundtrips L (sdata_claims sid n rid side ttl now)"
    and "ed25519_Public L (sg_priv s) \<in> set (v_keys v)" "tget (v_tomb v) (''s:'' @ sid) = None" "t \<le> now + ttl"
    and "sid \<noteq> []" "n \<noteq> []" "rid \<noteq> []"
  shows "opens_leg L rid sid n side (SessionDataTicket L sid n rid side ttl now s) t v"
proof -
  have "now + ttl < time_of_Unix (time_Unix (now + ttl)) + Second"
    unfolding time_of_Unix_def time_Unix_def using pos_mod_bound [of Second "now + ttl"]
    by (simp add: minus_mod_eq_div_mult [symmetric] algebra_simps)
  then have "t \<le> time_of_Unix (time_Unix (now + ttl)) + ticketLeeway" using assms(5) by (simp add: ticketLeeway_def)
  from sdata_leg_admission [OF assms(1-4) this assms(6-8)] show ?thesis by (simp add: opens_leg_def Let_def)
qed

lemma killed_opens_nothing:
  assumes "signature_correct L" "json_roundtrips L (sdata_claims sid n rid side ttl now)"
    and "ed25519_Public L (sg_priv s) \<in> set (v_keys v)" "sid \<noteq> []" "ttl \<le> 24 * Hour" "now \<le> k" "u \<le> t"
    and "run_ok ve_pre (ve_step L) es (ticket_Kill node sid k v0, k)" "fold (ve_step L) es (ticket_Kill node sid k v0, k) = (v, u)"
  shows "opens_nothing L (SessionDataTicket L sid n rid side ttl now s) t v"
proof -
  have o: "open_token L (v_keys v) (SessionDataTicket L sid n rid side ttl now s) = Some (sdata_claims sid n rid side ttl now)"
    unfolding SessionDataTicket_def by (rule open_mint [OF assms(1,2) _ assms(3)]) (simp add: sdata_claims_def)
  have "time_of_Unix (time_Unix (now + ttl)) \<le> now + ttl"
    unfolding time_of_Unix_def time_Unix_def using pos_mod_sign [of Second "now + ttl"]
    by (simp add: minus_mod_eq_div_mult [symmetric])
  then have e: "time_of_Unix (c_Exp (sdata_claims sid n rid side ttl now)) \<le> k + 24 * Hour"
    using assms(5,6) by (simp add: sdata_claims_def)
  show ?thesis
    unfolding opens_nothing_def
    by (intro allI killed_leg_refused [OF assms(4,8,9,7) o _ _ e]) (simp_all add: sdata_claims_def)
qed

text \<open>C3. Start and relay together. When a client that understands relay legs starts an exec, shell, file or
  tunnel session and the pool has a session-data endpoint, the address answered to the client and the one
  sent to the agent lead to that relay, and the tickets in them do exactly their job there: for the hour
  they are valid, and until the session is killed, the client's ticket opens the client leg of this session
  and nothing else, and the agent's ticket its agent leg and nothing else. Once the relay has handled the
  kill order that the end of the session sends, neither opens anything again, whatever the verifier is asked
  or told in between.\<close>

theorem routed_session_life:
  assumes "startSession L f64 enc q a h fr kind params oa ca extra desk c = (Inr (res, ans), c')"
    and "kind \<noteq> KindDesktop" "clientSupportsRelayWS h" "rq_parse q (hr_ID h) = Some n"
    and "fst (relaySessionEndpoint f64 n (rq_now q) (ct_pool c)) = Some (addr, rid)"
    and "fr_sid fr \<noteq> []" "n \<noteq> []" "rid \<noteq> []"
    and "signature_correct L"
    and "\<And>side. side \<in> {''client'', ''agent''} \<Longrightarrow> json_roundtrips L (sdata_claims (fr_sid fr) n rid side sessionTicketTTL (rq_now q))"
  shows "\<exists>tc ta p m. sa_websocketUrl ans = ''wss://'' @ addr @ ''/api/session/'' @ fr_sid fr @ ''?token='' @ tc
    \<and> ct_sent c' = ct_sent c @ [(p, SessionOpenMsg m)] \<and> so_WsURL m = ''wss://'' @ addr @ ''/api/agent/session?token='' @ ta
    \<and> (\<forall>v t. ed25519_Public L (sg_priv (ct_sign c)) \<in> set (v_keys v) \<and> tget (v_tomb v) (''s:'' @ fr_sid fr) = None
          \<and> t \<le> rq_now q + Hour \<longrightarrow>
        opens_leg L rid (fr_sid fr) n ''client'' tc t v \<and> opens_leg L rid (fr_sid fr) n ''agent'' ta t v)
    \<and> (\<forall>node p0 k es v u t. rq_now q \<le> k \<and> u \<le> t \<and> ed25519_Public L (sg_priv (ct_sign c)) \<in> set (v_keys v)
          \<and> run_ok ve_pre (ve_step L) es (rp_verifier (control_step (CSessionKill node (fr_sid fr)) k p0), k)
          \<and> fold (ve_step L) es (rp_verifier (control_step (CSessionKill node (fr_sid fr)) k p0), k) = (v, u) \<longrightarrow>
        opens_nothing L tc t v \<and> opens_nothing L ta t v)"
proof (rule startSession_table [OF assms(1)], goal_cases)
  case (1 n' lg)
  let ?t = "\<lambda>side. SessionDataTicket L (fr_sid fr) n rid side sessionTicketTTL (rq_now q) (ct_sign c)"
  have lg: "lg = relay_legs L (ct_sign c) (fr_sid fr) n addr rid (rq_now q)"
    using 1(1,6) assms(2-5) by simp
  obtain p where p: "ct_sent c' = ct_sent c @ [(p, SessionOpenMsg (open_order res kind (enc params) (lg_agent lg)))]"
    using 1(7) by blast
  have url: "sa_websocketUrl ans = ''wss://'' @ addr @ ''/api/session/'' @ fr_sid fr @ ''?token='' @ ?t ''client''"
    "so_WsURL (open_order res kind (enc params) (lg_agent lg)) = ''wss://'' @ addr @ ''/api/agent/session?token='' @ ?t ''agent''"
    using 1(3) by (simp_all add: lg relay_legs_def open_order_def)
  have open_ok: "opens_leg L rid (fr_sid fr) n side (?t side) t v"
    if "ed25519_Public L (sg_priv (ct_sign c)) \<in> set (v_keys v)" "tget (v_tomb v) (''s:'' @ fr_sid fr) = None" "t \<le> rq_now q + Hour"
      "side \<in> {''client'', ''agent''}" for v t side
    by (rule sdata_opens [OF assms(9) assms(10) [OF that(4)] that(1,2) _ assms(6-8)]) (use that(3) in \<open>simp add: sessionTicketTTL_def\<close>)
  have killed: "opens_nothing L (?t side) t v"
    if "rq_now q \<le> k" "u \<le> t" "ed25519_Public L (sg_priv (ct_sign c)) \<in> set (v_keys v)"
      "run_ok ve_pre (ve_step L) es (rp_verifier (control_step (CSessionKill node (fr_sid fr)) k p0), k)"
      "fold (ve_step L) es (rp_verifier (control_step (CSessionKill node (fr_sid fr)) k p0), k) = (v, u)" "side \<in> {''client'', ''agent''}"
    for node p0 k es v u t side
    by (rule killed_opens_nothing [OF assms(9) assms(10) [OF that(6)] that(3) assms(6) _ that(1,2), of es node "rp_verifier p0"])
      (use that(4,5) in \<open>simp_all add: sessionTicketTTL_def KillSession_def\<close>)
  show ?case
  proof (intro exI conjI allI impI)
    show "sa_websocketUrl ans = ''wss://'' @ addr @ ''/api/session/'' @ fr_sid fr @ ''?token='' @ ?t ''client''" by (rule url)
    show "ct_sent c' = ct_sent c @ [(p, SessionOpenMsg (open_order res kind (enc params) (lg_agent lg)))]" by (rule p)
    show "so_WsURL (open_order res kind (enc params) (lg_agent lg)) = ''wss://'' @ addr @ ''/api/agent/session?token='' @ ?t ''agent''"
      by (rule url)
  qed (use open_ok killed in auto)
qed

definition leg_claims :: "string \<Rightarrow> ticketClaims" where
  "leg_claims side = sdata_claims ''s1'' ''#22'' ''rl-1'' side sessionTicketTTL 50"

definition leg_lib :: ticket_lib where
  "leg_lib = demo_lib\<lparr>json_Marshal := \<lambda>c. [if c_NM c = ''client'' then 1 else 2],
     json_Unmarshal := \<lambda>b. Some (leg_claims (if b = [1] then ''client'' else ''agent''))\<rparr>"

lemma leg_claims_NM: "c_NM (leg_claims side) = side"
  by (simp add: leg_claims_def sdata_claims_def)

lemma leg_lib_ok: "signature_correct leg_lib" "side \<in> {''client'', ''agent''} \<Longrightarrow> json_roundtrips leg_lib (leg_claims side)"
proof -
  show "signature_correct leg_lib" by (simp add: signature_correct_def leg_lib_def demo_lib_def)
  assume "side \<in> {''client'', ''agent''}"
  then have "side = ''client'' \<or> side = ''agent''" by simp
  then show "json_roundtrips leg_lib (leg_claims side)"
    by (elim disjE) (simp_all add: json_roundtrips_def leg_lib_def leg_claims_NM)
qed

lemma demo_data_relay: "fst (relaySessionEndpoint (\<lambda>x. x) n 50 (ct_pool demo_center)) = Some (JoinHostPort ''r.x'' (Itoa 443), ''rl-1'')"
  by (simp add: relaySessionEndpoint_def AssignData_def demo_center_def pool_New_def demo_relay_def demo_endpoint_def eligibleLocked_def
      driftLimit_def heartbeatWait_def time_Sub_def minDuration_def maxDuration_def pick_relay_def assignmentLocked_def hasSdata_def
      sdata_addr_def)

theorem routed_session_life_witness:
  "\<exists>res ans c' tc. startSession leg_lib (\<lambda>x. x) (\<lambda>_. ''{}'') demo_rq (demo_member ''#2'') (demo_http ''curl'' ''#22'') demo_fresh KindTunnel
       (TunnelP ''ssh'' ''127.0.0.1'' 22) ''ssh.open'' ''ssh.open'' [] None demo_center = (Inr (res, ans), c')
     \<and> opens_leg leg_lib ''rl-1'' ''s1'' ''#22'' ''client'' tc 60 \<lparr>v_keys = [[1]], v_tomb = []\<rparr>
     \<and> opens_nothing leg_lib tc 60 (ticket_Kill ''#22'' ''s1'' 55 \<lparr>v_keys = [[1]], v_tomb = []\<rparr>)"
proof -
  let ?v = "\<lparr>v_keys = [[1]], v_tomb = []\<rparr> :: Verifier"
  let ?p0 = "\<lparr>rp_verifier = ?v, rp_hub = demo_hub, rp_router = newSessionRouter\<rparr>"
  obtain res ans c' where r: "startSession leg_lib (\<lambda>x. x) (\<lambda>_. ''{}'') demo_rq (demo_member ''#2'') (demo_http ''curl'' ''#22'') demo_fresh
      KindTunnel (TunnelP ''ssh'' ''127.0.0.1'' 22) ''ssh.open'' ''ssh.open'' [] None demo_center = (Inr (res, ans), c')"
    using startSession_succeeds [of demo_rq "demo_http ''curl'' ''#22''" "''#22''" "demo_member ''#2''" demo_center] demo_may_start
    by metis
  have n: "rq_now demo_rq = 50" by (simp add: demo_rq_def)
  have k: "KindTunnel \<noteq> KindDesktop" "clientSupportsRelayWS (demo_http ''curl'' ''#22'')" "rq_parse demo_rq (hr_ID (demo_http ''curl'' ''#22'')) = Some ''#22''"
    by (simp_all add: KindTunnel_def KindDesktop_def clientSupportsRelayWS_def demo_http_def Let_def demo_rq_def)
  have d: "fst (relaySessionEndpoint (\<lambda>x. x) ''#22'' (rq_now demo_rq) (ct_pool demo_center)) = Some (JoinHostPort ''r.x'' (Itoa 443), ''rl-1'')"
    "fr_sid demo_fresh \<noteq> []" "''#22'' \<noteq> ([] :: string)" "''rl-1'' \<noteq> ([] :: string)"
    by (simp_all only: demo_data_relay n) (simp_all add: demo_fresh_def)
  have j: "json_roundtrips leg_lib (sdata_claims (fr_sid demo_fresh) ''#22'' ''rl-1'' side sessionTicketTTL (rq_now demo_rq))"
    if "side \<in> {''client'', ''agent''}" for side
    using leg_lib_ok(2) [OF that] by (simp add: leg_claims_def n demo_may_start)
  have ed: "ed25519_Public leg_lib (sg_priv (ct_sign demo_center)) = [1]"
    by (simp add: demo_center_def NewSignerFromKey_def leg_lib_def demo_lib_def)
  obtain tc where tc:
      "\<forall>v t. ed25519_Public leg_lib (sg_priv (ct_sign demo_center)) \<in> set (v_keys v) \<and> tget (v_tomb v) (''s:'' @ fr_sid demo_fresh) = None
          \<and> t \<le> rq_now demo_rq + Hour \<longrightarrow> opens_leg leg_lib ''rl-1'' (fr_sid demo_fresh) ''#22'' ''client'' tc t v"
      "\<forall>node p0 k es v u t. rq_now demo_rq \<le> k \<and> u \<le> t \<and> ed25519_Public leg_lib (sg_priv (ct_sign demo_center)) \<in> set (v_keys v)
          \<and> run_ok ve_pre (ve_step leg_lib) es (rp_verifier (control_step (CSessionKill node (fr_sid demo_fresh)) k p0), k)
          \<and> fold (ve_step leg_lib) es (rp_verifier (control_step (CSessionKill node (fr_sid demo_fresh)) k p0), k) = (v, u)
          \<longrightarrow> opens_nothing leg_lib tc t v"
    using routed_session_life [OF r k d leg_lib_ok(1) j] by blast
  have "opens_leg leg_lib ''rl-1'' ''s1'' ''#22'' ''client'' tc 60 ?v"
    using tc(1) [rule_format, of ?v 60] by (simp add: ed n demo_may_start)
  moreover have "opens_nothing leg_lib tc 60 (ticket_Kill ''#22'' ''s1'' 55 ?v)"
    using tc(2) [rule_format, of 55 55 60 "ticket_Kill ''#22'' ''s1'' 55 ?v" "[]" "''#22''" ?p0]
    by (simp add: ed n demo_may_start KillSession_def ticket_Kill_def)
  ultimately show ?thesis using r by blast
qed

subsection \<open>Routed sessions that nobody reports\<close>

text \<open>A session that has no opening timer and no idle time: it is open, glued, of a kind the janitor does not
  look at, and no removal is scheduled for it.\<close>

definition lasting :: "string \<Rightarrow> Manager \<Rightarrow> bool" where
  "lasting sid m \<longleftrightarrow> sid \<notin> set (m_reaps m) \<and> (\<exists>s. tget (m_sessions m) sid = Some s \<and> \<not> s_closed s \<and> s_glued s
     \<and> s_Kind s \<noteq> KindShell \<and> s_Kind s \<noteq> KindDesktop)"

lemma lasting_same:
  "lasting sid m \<Longrightarrow> m_reaps m' = m_reaps m \<Longrightarrow> tget (m_sessions m') sid = tget (m_sessions m) sid \<Longrightarrow> lasting sid m'"
  by (simp add: lasting_def)

lemma lasting_upd:
  "lasting sid m \<Longrightarrow> (\<And>s. s_closed (f s) = s_closed s \<and> s_Kind (f s) = s_Kind s \<and> (s_glued s \<longrightarrow> s_glued (f s))) \<Longrightarrow>
     lasting sid (upd_session i f m)"
  by (auto simp: lasting_def upd_session_get)

lemma attach_session_sel: "s_Kind (attach_session side want ws s) = s_Kind s" "s_glued s \<Longrightarrow> s_glued (attach_session side want ws s)"
  by (simp_all add: attach_session_def Let_def)

lemma lasting_put:
  assumes "lasting sid m" "tget (m_sessions m) i = Some s"
  shows "lasting sid (m\<lparr>m_sessions := tput i (attach_session side want ws s) (m_sessions m)\<rparr>)"
    "lasting sid (m\<lparr>m_sessions := tput i (attach_session side want ws s) (m_sessions m), m_fx := fx\<rparr>)"
  using assms by (auto simp: lasting_def attach_session_sel attach_session_descends)

lemma lasting_if: "lasting i (snd x) \<Longrightarrow> lasting i (snd y) \<Longrightarrow> lasting i (snd (if c then x else y))"
  by simp

lemma lasting_attach:
  assumes "lasting sid m"
  shows "lasting sid (snd (mgr_attach side i tk ws t m))"
proof -
  have "lasting sid (snd (attach_found side j tk ws t m))" for j
  proof (cases "tget (m_sessions m) j")
    case None
    then show ?thesis using assms by (simp add: attach_found_def)
  next
    case (Some s)
    show ?thesis
      unfolding attach_found_def Some option.case Let_def
      by (intro lasting_if) (use assms lasting_put [OF assms Some] in simp_all)
  qed
  then show ?thesis using assms by (simp add: mgr_attach_def Let_def)
qed

lemma close_other:
  assumes "i \<noteq> sid"
  shows "tget (m_sessions (mgr_close i r rm m)) sid = tget (m_sessions m) sid" "m_reaps (mgr_close i r rm m) = m_reaps m"
  using assms by (simp_all add: mgr_close_def Let_def split: option.splits)

lemma lasting_expire: "lasting sid m \<Longrightarrow> lasting sid (expire i t m)"
proof (cases rule: expire_cases [of i t m])
  case (2 s)
  assume l: "lasting sid m"
  then have "i \<noteq> sid" using 2 by (auto simp: lasting_def)
  then show ?thesis
    using l close_other [of i sid "''opening-timeout''" False "upd_session i (\<lambda>s. s\<lparr>s_expiresAt := t\<rparr>) m"]
    by (simp add: 2(3) Let_def lasting_def upd_session_get)
qed simp

lemma lasting_sweep:
  assumes "mgr_inv m" "lasting sid m"
  shows "lasting sid (sweep t m)"
proof -
  obtain s where s: "tget (m_sessions m) sid = Some s" "s_Kind s \<noteq> KindShell" "s_Kind s \<noteq> KindDesktop"
    using assms(2) by (auto simp: lasting_def)
  have "sweep_reason t s = None" using s(2,3) by (simp add: sweep_reason_def)
  then have n: "sid \<notin> fst ` set (overdue t (m_sessions m))"
    using assms(1) s(1) by (subst overdue_mem) (simp_all add: mgr_inv_def)
  have r: "m_reaps (notify_all es m') = m_reaps m'" for es m'
  proof (induction es arbitrary: m')
    case (Cons e es)
    then show ?case
      by (cases e) (simp add: NotifyClose_def mgr_close_def Let_def split: option.splits)
  qed simp
  show ?thesis
    by (rule lasting_same [OF assms(2)])
      (use n s(1) in \<open>simp_all add: sweep_notify r notify_all_sessions\<close>)
qed

lemma lasting_create:
  assumes "lasting sid m" "tget (m_sessions m) i = None"
  shows "lasting sid (snd (mgr_Create reg n u k p i a c l t m))"
proof (cases "Online n reg \<and> under_limit n k m")
  case True
  have "i \<noteq> sid" using assms by (auto simp: lasting_def)
  then show ?thesis
    using True create_sessions [OF _ _ refl, of n reg k m u p i a c l t] lasting_same [OF assms(1)] by simp
next
  case False
  then show ?thesis using assms(1) create_denied [of n reg k m u p i a c l t] by simp
qed

lemma lasting_control:
  "lasting sid m \<Longrightarrow> lasting sid (snd (snd (TakeDesktopControl n i tk t m)))"
  "lasting sid m \<Longrightarrow> lasting sid (ReleaseDesktopControl n i m)"
  "lasting sid m \<Longrightarrow> lasting sid (snd (AttachClientRTV tk t m))"
  by (auto simp: TakeDesktopControl_def ReleaseDesktopControl_def AttachClientRTV_def Let_def
      intro: lasting_same intro!: lasting_upd split: option.splits if_splits)

lemma lasting_step:
  assumes "mgr_inv m" "lasting sid m" "mgr_pre e m" "\<And>r. e \<noteq> ENotifyClose sid r"
  shows "lasting sid (mgr_step e m)"
proof (cases e)
  case (ECreate reg n u k p i a c l t)
  then show ?thesis using assms(2,3) by (simp add: lasting_create)
next
  case (ENotifyClose i r)
  then have "i \<noteq> sid" using assms(4) by blast
  then show ?thesis
    using ENotifyClose lasting_same [OF assms(2)] close_other [of i sid r True m] by (simp add: NotifyClose_def)
next
  case (EReap i)
  then have "i \<noteq> sid" using assms(2,3) by (auto simp: lasting_def)
  then show ?thesis using EReap lasting_same [OF assms(2)] by (simp add: expire_reap_def)
qed (use assms(1,2) in \<open>simp_all add: lasting_attach lasting_expire lasting_sweep lasting_control lasting_upd
  TouchActivity_def relay_frame_def MarkRelayRouted_def SetFinishFn_def SetNotifyFn_def\<close>)

lemma lasting_run:
  assumes "mgr_inv m" "lasting sid m" "run_ok mgr_pre mgr_step es m" "own_events i es" "i \<noteq> sid"
  shows "lasting sid (fold mgr_step es m)"
  using assms
proof (induction es arbitrary: m)
  case (Cons e es)
  then show ?case using lasting_step [of m sid e] mgr_inv_step [of m e] by auto
qed simp

text \<open>An event that reports the end of a session: a close by its agent, a pump or a refusal, or the message of
  a relay.\<close>

fun reports_end :: "string \<Rightarrow> center_event \<Rightarrow> bool" where
  "reports_end sid (CMgr q e) \<longleftrightarrow> (\<exists>r. e = ENotifyClose sid r)"
| "reports_end sid (CRelay q rid p msg) \<longleftrightarrow> (\<exists>r. msg = RSessionClosed (Some (sid, r)))"
| "reports_end sid _ \<longleftrightarrow> False"

lemma lasting_mgr:
  "center_inv c \<Longrightarrow> lasting sid (ct_mgr c) \<Longrightarrow> mgr_pre e (ct_mgr c) \<Longrightarrow> (\<And>r. e \<noteq> ENotifyClose sid r)
   \<Longrightarrow> lasting sid (ct_mgr (with_mgr q (mgr_step e) c))"
  by (simp add: lasting_step center_invD(1))

lemma lasting_effects:
  assumes "center_inv c" "lasting sid (ct_mgr c)" "\<forall>r. PNotifyClose sid r \<notin> set fx"
  shows "lasting sid (ct_mgr (fold (pool_effect q) fx c))"
  using assms
proof (induction fx arbitrary: c)
  case (Cons x fx)
  have "lasting sid (ct_mgr (pool_effect q x c))"
    using Cons.prems lasting_step [OF center_invD(1) [OF Cons.prems(1)] Cons.prems(2)]
    by (cases x) (auto simp del: mgr_step.simps)
  moreover have "center_inv (pool_effect q x c)" using center_inv_effects [OF Cons.prems(1), of q "[x]"] by simp
  ultimately show ?case using Cons.IH Cons.prems(3) by simp
qed simp

lemma relay_log_no_end:
  assumes "\<not> (\<exists>r. msg = RSessionClosed (Some (sid, r)))"
  shows "PNotifyClose sid r \<notin> set (drop (length (p_fx m)) (p_fx (serveRelay_msg rid p msg now m)))"
  using assms by (cases msg) (auto simp: pool_log_def upd_conn_def split: option.splits)

lemma lasting_center:
  assumes "center_inv c \<and> lasting sid (ct_mgr c)" "center_pre e c" "\<not> reports_end sid e"
  shows "lasting sid (ct_mgr (center_step e c))"
proof (cases e)
  case (CStart E cfg q a h fr r)
  have fresh: "fresh_sid (fr_sid fr) c" using assms(2) CStart by simp
  then have "fr_sid fr \<noteq> sid" using assms(1) by (auto simp: fresh_sid_def lasting_def)
  moreover obtain es where "ct_mgr (center_step e c) = fold mgr_step es (ct_mgr c)" "run_ok mgr_pre mgr_step es (ct_mgr c)"
      "own_events (fr_sid fr) es"
    using start_route_shape [OF fresh, of E cfg q a h r] unfolding CStart start_shape_def by auto
  ultimately show ?thesis using lasting_run assms(1) center_invD(1) by metis
next
  case (CMgr q m)
  then show ?thesis using assms lasting_mgr [of c sid m q] by auto
next
  case (CRelay q rid p msg)
  let ?p1 = "serveRelay_msg rid p msg (rq_now q) (ct_pool c)"
  have "center_inv (c\<lparr>ct_pool := ?p1\<rparr>)" "lasting sid (ct_mgr (c\<lparr>ct_pool := ?p1\<rparr>))" using assms(1) by (simp_all add: center_inv_pool)
  from lasting_effects [OF this] show ?thesis
    using CRelay assms(3) relay_log_no_end by (simp add: relay_message_def Let_def)
qed (use assms(1) in simp_all)

interpretation lasting: inv_machine "\<lambda>e c. center_pre e c \<and> \<not> reports_end sid e" center_step
  "\<lambda>c. center_inv c \<and> lasting sid (ct_mgr c)" for sid
  by unfold_locales (use lasting_center center.step_inv in blast)

text \<open>C35. A routed exec, file or tunnel session ends only when somebody reports its end: no timer, no sweep
  and no other event closes it, however long it is silent. When neither side ever reaches the relay, or the relay
  loses its control connection and its report with it, the session stays open, its finish callback does not
  run and its closing audit row is never written.\<close>

theorem relay_routed_leak:
  assumes "startSession L f64 enc q a h fr kind params oa ca extra desk c = (Inr (res, ans), c')"
    and "center_inv c" "fresh_sid (fr_sid fr) c"
    and "kind \<noteq> KindShell" "kind \<noteq> KindDesktop" "clientSupportsRelayWS h" "rq_parse q (hr_ID h) = Some n"
    and "fst (relaySessionEndpoint f64 n (rq_now q) (ct_pool c)) \<noteq> None"
    and "run_ok (\<lambda>e c. center_pre e c \<and> \<not> reports_end (fr_sid fr) e) center_step es c'"
  shows "live (fr_sid fr) (fold center_step es c') \<and> finishes (fr_sid fr) (ct_mgr (fold center_step es c')) = 0"
proof -
  let ?d = "fold center_step es c'"
  have inv: "center_inv c'" by (rule center_inv_start [OF assms(2) startSession_shape [OF assms(1,3)]])
  have "lasting (fr_sid fr) (ct_mgr c')"
  proof (rule startSession_table [OF assms(1)], goal_cases)
    case (1 n' lg)
    have "lg_relay lg \<noteq> None" using 1(1,6) assms(5-8) by (auto simp: relay_legs_def)
    then show ?case using 1(4,8) assms(3-5) by (simp add: lasting_def fresh_sid_def started_def)
  qed
  then have d: "center_inv ?d \<and> lasting (fr_sid fr) (ct_mgr ?d)" using lasting.run_inv [OF _ assms(9)] inv by blast
  then obtain s where s: "tget (m_sessions (ct_mgr ?d)) (fr_sid fr) = Some s" "\<not> s_closed s" by (auto simp: lasting_def)
  moreover have "finishes (fr_sid fr) (ct_mgr ?d) = 0"
    using center_invD(1) d s close_invD(3) by (metis mgr_inv_iff)
  ultimately show ?thesis by (simp add: live_def)
qed

theorem relay_routed_leak_witness:
  "\<exists>c'. let d = fold center_step [CMgr demo_rq (EExpire ''s1'' (50 + Hour)), CMgr demo_rq (ESweep (50 + 90 * Hour))] c' in
     live ''s1'' d \<and> finishes ''s1'' (ct_mgr d) = 0"
proof -
  obtain res ans c' where r: "startSession demo_lib (\<lambda>x. x) (\<lambda>_. ''{}'') demo_rq (demo_member ''#2'') (demo_http ''curl'' ''#22'') demo_fresh
      KindTunnel (TunnelP ''ssh'' ''127.0.0.1'' 22) ''ssh.open'' ''ssh.open'' [] None demo_center = (Inr (res, ans), c')"
    using startSession_succeeds [of demo_rq "demo_http ''curl'' ''#22''" "''#22''" "demo_member ''#2''" demo_center] demo_may_start
    by metis
  have k: "KindTunnel \<noteq> KindShell" "KindTunnel \<noteq> KindDesktop" "clientSupportsRelayWS (demo_http ''curl'' ''#22'')"
    "rq_parse demo_rq (hr_ID (demo_http ''curl'' ''#22'')) = Some ''#22''"
    "fst (relaySessionEndpoint (\<lambda>x. x) ''#22'' (rq_now demo_rq) (ct_pool demo_center)) \<noteq> None"
    "fresh_sid (fr_sid demo_fresh) demo_center"
    using demo_data_relay demo_center_inv(2) by (simp_all add: KindTunnel_def KindDesktop_def KindShell_def clientSupportsRelayWS_def demo_http_def Let_def demo_rq_def demo_may_start)
  have "live (fr_sid demo_fresh) (fold center_step [CMgr demo_rq (EExpire ''s1'' (50 + Hour)), CMgr demo_rq (ESweep (50 + 90 * Hour))] c')
     \<and> finishes (fr_sid demo_fresh) (ct_mgr (fold center_step [CMgr demo_rq (EExpire ''s1'' (50 + Hour)), CMgr demo_rq (ESweep (50 + 90 * Hour))] c')) = 0"
    by (rule relay_routed_leak [OF r demo_center_inv(1) k(6,1-5)]) simp
  then show ?thesis unfolding Let_def demo_may_start by blast
qed

end
