(* ===== verification/Api.thy ===== *)
theory Api
  imports Nodes
begin

text \<open>
  The REST API of the server as one machine over the database and the registry of agent connections: a
  request with its bearer token goes through the middleware and then to its handler (\<open>api/router.go\<close>), machines
  enroll with a token, and control connections come, beat and go. Requests are atomic here, except where a
  statement says otherwise. The properties span the users, clusters and members of \<open>Access\<close> and the nodes of
  \<open>Nodes\<close>. Requests that only read are not events: they leave the state alone by definition.
\<close>

record api_cfg =
  cf_MaxClusters :: int
  cf_EnrollTTL :: duration
  cf_Quote :: "string \<Rightarrow> string"

datatype api_op =
    UpdateMe "string option"
  | ChangePassword "(string \<times> string) option"
  | CreateClusterOp "string option"
  | RenameClusterOp string "string option"
  | DeleteClusterOp string
  | AddMemberOp string "addMemberReq option"
  | RemoveMemberOp string string
  | UpdateMemberRoleOp string string "string option"
  | CreateUserOp "createUserReq option"
  | UpdateUserOp string "updateUserReq option"
  | DeleteUserOp string
  | EnrollTokenOp string "enrollTokenReq option"
  | RegisterNodeOp string "(bool \<times> enrollReq) option"
  | DisableNodeOp string
  | EnableNodeOp string
  | RenameNodeOp string "string option"
  | MoveNodeOp string "string option"
  | DeleteNodeOp string

text \<open>The routes: which handler runs for an authenticated request.\<close>

fun user_op :: "api_cfg \<Rightarrow> request \<Rightarrow> actor \<Rightarrow> api_op \<Rightarrow> server \<Rightarrow> server" where
  "user_op cfg q a (UpdateMe b) s = s\<lparr>sv_db := fst (updateMe q a b (sv_db s))\<rparr>"
| "user_op cfg q a (ChangePassword b) s = s\<lparr>sv_db := fst (changePassword q a b (sv_db s))\<rparr>"
| "user_op cfg q a (CreateClusterOp b) s = s\<lparr>sv_db := fst (createCluster (cf_MaxClusters cfg) q a b (sv_db s))\<rparr>"
| "user_op cfg q a (RenameClusterOp c b) s = s\<lparr>sv_db := fst (renameCluster q a c b (sv_db s))\<rparr>"
| "user_op cfg q a (DeleteClusterOp c) s = s\<lparr>sv_db := fst (deleteCluster q a c (sv_db s))\<rparr>"
| "user_op cfg q a (AddMemberOp c b) s = s\<lparr>sv_db := fst (addMember q a c b (sv_db s))\<rparr>"
| "user_op cfg q a (RemoveMemberOp c u) s = s\<lparr>sv_db := fst (removeMember q a c u (sv_db s))\<rparr>"
| "user_op cfg q a (UpdateMemberRoleOp c u b) s = s\<lparr>sv_db := fst (updateMemberRole q a c u b (sv_db s))\<rparr>"
| "user_op cfg q a (CreateUserOp b) s = s\<lparr>sv_db := fst (createUser q a b (sv_db s))\<rparr>"
| "user_op cfg q a (UpdateUserOp u b) s = s\<lparr>sv_db := fst (updateUser q a u b (sv_db s))\<rparr>"
| "user_op cfg q a (DeleteUserOp u) s = s\<lparr>sv_db := fst (deleteUser q a u (sv_db s))\<rparr>"
| "user_op cfg q a (EnrollTokenOp c b) s = s\<lparr>sv_db := fst (createEnrollToken (cf_EnrollTTL cfg) q a c b (sv_db s))\<rparr>"
| "user_op cfg q a (RegisterNodeOp c b) s = fst (userRegisterNode (cf_Quote cfg) q a c b s)"
| "user_op cfg q a (DisableNodeOp n) s = s\<lparr>sv_db := fst (nodeDisable q a n (sv_db s))\<rparr>"
| "user_op cfg q a (EnableNodeOp n) s = s\<lparr>sv_db := fst (nodeEnable q a n (sv_db s))\<rparr>"
| "user_op cfg q a (RenameNodeOp n b) s = s\<lparr>sv_db := fst (renameNode q a n b (sv_db s))\<rparr>"
| "user_op cfg q a (MoveNodeOp n b) s = s\<lparr>sv_db := fst (moveNode (cf_Quote cfg) q a n b (sv_db s))\<rparr>"
| "user_op cfg q a (DeleteNodeOp n) s = fst (adminDeleteNode q a n s)"

definition user_request :: "api_cfg \<Rightarrow> request \<Rightarrow> string \<Rightarrow> api_op \<Rightarrow> server \<Rightarrow> server" where
  "user_request cfg q h op s = (case Middleware q h (sv_db s) of None \<Rightarrow> s | Some a \<Rightarrow> user_op cfg q a op s)"

datatype api_event =
    UserRequest request string api_op
  | Login request "(string \<times> string) option"
  | AgentEnroll request "enrollReq option"
  | AgentHello request uuid "Hello option" nat
  | AgentBeat request NodeConn
  | AgentDeregister request uuid Node
  | AgentGone request NodeConn

fun api_step :: "api_cfg \<Rightarrow> api_event \<Rightarrow> server \<Rightarrow> server" where
  "api_step cfg (UserRequest q h op) s = user_request cfg q h op s"
| "api_step cfg (Login q b) s = s\<lparr>sv_db := fst (login q b (sv_db s))\<rparr>"
| "api_step cfg (AgentEnroll q b) s = fst (agentEnroll q b s)"
| "api_step cfg (AgentHello q i h p) s = (case agent_hello q i h p s of None \<Rightarrow> s | Some (s', _) \<Rightarrow> s')"
| "api_step cfg (AgentBeat q c) s = fst (agent_heartbeat q c s)"
| "api_step cfg (AgentDeregister q i n) s = fst (nodeDelete q i n s)"
| "api_step cfg (AgentGone q c) s = agent_cleanup q c s"

subsection \<open>Every request is a sequence of permitted statements\<close>

definition api_act :: "actor \<Rightarrow> db \<Rightarrow> db \<Rightarrow> bool" where
  "api_act a d d' \<longleftrightarrow> act_any a d d' \<or> nact a d d'"

lemma api_act_mono:
  "(act a)\<^sup>*\<^sup>* d d' \<Longrightarrow> (api_act a)\<^sup>*\<^sup>* d d'" "(act_any a)\<^sup>*\<^sup>* d d' \<Longrightarrow> (api_act a)\<^sup>*\<^sup>* d d'"
  "(nact a)\<^sup>*\<^sup>* d d' \<Longrightarrow> (api_act a)\<^sup>*\<^sup>* d d'"
  using act_any_acts by (auto elim!: rtranclp_mono [THEN predicate2D, rotated] simp: api_act_def intro: act_any.sound)

lemma user_op_acts:
  assumes "db_wf (sv_db s)"
  shows "(api_act a)\<^sup>*\<^sup>* (sv_db s) (sv_db (user_op cfg q a op s))"
proof (cases op)
  case (RegisterNodeOp c b)
  then show ?thesis by (simp add: api_act_mono(3) userRegisterNode_nacts [OF assms])
next
  case (DeleteNodeOp n)
  then show ?thesis by (simp add: api_act_mono(3) adminDeleteNode_nacts)
qed (auto simp: nodeDisable_def nodeEnable_def intro: api_act_mono updateMe_acts changePassword_acts renameCluster_acts deleteCluster_acts
    addMember_acts removeMember_acts updateMemberRole_acts createUser_acts updateUser_acts createCluster_any deleteUser_any
    createEnrollToken_nacts setNodeStatus_nacts renameNode_nacts moveNode_nacts assms)

lemma api_act_wf: "api_act a d d' \<Longrightarrow> db_wf d \<Longrightarrow> db_wf d'"
  by (auto simp: api_act_def act_any_wf nact_wf)

lemma api_acts_wf: "(api_act a)\<^sup>*\<^sup>* d d' \<Longrightarrow> db_wf d \<Longrightarrow> db_wf d'"
  by (induction rule: rtranclp_induct) (simp_all add: api_act_wf)

text \<open>The steps of machines and the login keep the constraints and leave clusters, members and the flags of users alone.\<close>

definition same_access :: "db \<Rightarrow> db \<Rightarrow> bool" where
  "same_access d d' \<longleftrightarrow> db_clusters d' = db_clusters d \<and> db_members d' = db_members d \<and> (\<forall>i. is_admin i d' = is_admin i d)"

lemma same_access_refl [simp]: "same_access d d"
  by (simp add: same_access_def)

lemma same_access_trans: "same_access d d' \<Longrightarrow> same_access d' d'' \<Longrightarrow> same_access d d''"
  by (simp add: same_access_def)

definition quiet :: "db \<Rightarrow> db \<Rightarrow> bool" where
  "quiet d d' \<longleftrightarrow> db_wf d' \<and> same_access d d'"

lemma quiet_trans: "quiet d d' \<Longrightarrow> quiet d' d'' \<Longrightarrow> quiet d d''"
  using same_access_trans by (auto simp: quiet_def)

lemma same_access_upd_node: "same_access d (upd_node i f d)"
  by (simp add: same_access_def upd_node_def is_admin_def split: option.splits)

lemma quiet_effort:
  assumes "db_wf d" "\<And>d. db_wf d \<Longrightarrow> db_wf (f d)" "\<And>d. same_access d (f d)"
  shows "quiet d (best_effort q x f d)"
  using assms by (simp add: quiet_def best_effort_def)

lemma quiet_node_updates:
  assumes "db_wf d"
  shows "quiet d (best_effort q x (TouchNode i now) d)" "quiet d (best_effort q x (UpdateNodeMeta i h sh v) d)"
    "quiet d (best_effort q x (UpdateNodePlatform i p osv) d)"
proof -
  show "quiet d (best_effort q x (TouchNode i now) d)"
    by (rule quiet_effort [OF assms]) (simp_all add: wf_node_updates, simp add: TouchNode_def same_access_upd_node)
  show "quiet d (best_effort q x (UpdateNodeMeta i h sh v) d)"
    by (rule quiet_effort [OF assms]) (simp_all add: wf_node_updates, simp add: UpdateNodeMeta_def same_access_upd_node)
  show "quiet d (best_effort q x (UpdateNodePlatform i p osv) d)"
    by (rule quiet_effort [OF assms]) (simp_all add: wf_node_updates, simp add: UpdateNodePlatform_def same_access_upd_node)
qed

lemma quiet_status:
  assumes "db_wf d"
  shows "quiet d (try_status q i st d)"
proof (cases "wr q ''SetNodeStatus'' (SetNodeStatus i st d)")
  case (Inr d')
  have "same_access d d'"
    using wr_InrD [OF Inr] by (auto simp: SetNodeStatus_def same_access_upd_node split: if_splits)
  then show ?thesis using Inr wf_SetNodeStatus [OF wr_InrD [OF Inr] assms] by (simp add: try_status_def quiet_def)
qed (simp add: try_status_def quiet_def assms)

lemma quiet_audit:
  assumes "db_wf d"
  shows "quiet d (audit q u c n ac m d)"
proof (cases "wr q ''InsertAuditLog'' (InsertAuditLog \<lparr>au_UserID = u, au_ClusterID = c, au_NodeID = n, au_Action = ac,
         au_Metadata = m, au_CreatedAt = rq_now q\<rparr> d)")
  case (Inr d')
  then show ?thesis
    using wf_InsertAuditLog [OF wr_InrD [OF Inr] assms] InsertAuditLog_frame [OF wr_InrD [OF Inr]]
    by (simp add: audit_def quiet_def same_access_def is_admin_def)
qed (simp add: audit_def quiet_def assms)

lemma quiet_login:
  assumes "db_wf d"
  shows "quiet d (fst (login q b d))"
proof -
  have "same_access d (TouchUserLogin i t d)" for i t
    by (simp add: same_access_def TouchUserLogin_def is_admin_upd_same) (simp add: upd_user_def split: option.splits)
  then show ?thesis
    using assms by (auto simp: login_def quiet_def wf_user_updates split: option.splits)
qed

lemma quiet_enroll: "db_wf (sv_db s) \<Longrightarrow> quiet (sv_db s) (sv_db (fst (agentEnroll q b s)))"
proof (cases rule: agentEnroll_cases [of q b s])
  case (same e)
  then show "db_wf (sv_db s) \<Longrightarrow> ?thesis" by (simp add: quiet_def)
next
  case (enrolls req ti t)
  then show "db_wf (sv_db s) \<Longrightarrow> ?thesis"
    using machine_enroll [of s q "et_ClusterID t" req "Some ti" False "''node.enroll''" "et_CreatedBy t"]
    by (simp add: quiet_def same_access_def is_admin_def)
qed

lemma quiet_hello:
  assumes wf: "db_wf (sv_db s)" and h: "agent_hello q i hello p s = Some (s', c)"
  shows "quiet (sv_db s) (sv_db s')"
proof -
  obtain g where g: "hello = Some g" using h by (auto simp: agent_hello_def split: option.splits)
  let ?d1 = "best_effort q ''UpdateNodeMeta'' (UpdateNodeMeta i (he_Hostname g) (he_ShellType g) (he_AgentVersion g)) (sv_db s)"
  let ?d2 = "if he_OS g \<noteq> '''' then best_effort q ''UpdateNodePlatform''
                        (UpdateNodePlatform i (normalizePlatform (he_OS g)) (he_OSVersion g)) ?d1 else ?d1"
  let ?d3 = "try_status q i ''online'' ?d2"
  have s': "sv_db s' = best_effort q ''TouchNode'' (TouchNode i (rq_now q)) ?d3"
    using h g by (auto simp: agent_hello_def Let_def split: if_splits)
  have q1: "quiet (sv_db s) ?d1" using quiet_node_updates(2) [OF wf] .
  have q2: "quiet ?d1 ?d2" using quiet_node_updates(3) [of ?d1] q1 by (simp add: quiet_def)
  have q3: "quiet ?d2 ?d3" using quiet_status [of ?d2] q2 by (simp add: quiet_def)
  have q4: "quiet ?d3 (sv_db s')" unfolding s' using quiet_node_updates(1) [of ?d3] q3 by (simp add: quiet_def)
  show ?thesis using quiet_trans [OF quiet_trans [OF quiet_trans [OF q1 q2] q3] q4] .
qed

lemma quiet_beat: "db_wf (sv_db s) \<Longrightarrow> quiet (sv_db s) (sv_db (fst (agent_heartbeat q c s)))"
  using quiet_node_updates(1) by (simp add: agent_heartbeat_def Let_def quiet_def)

lemma quiet_deregister:
  assumes "db_wf (sv_db s)"
  shows "quiet (sv_db s) (sv_db (fst (nodeDelete q i n s)))"
proof -
  have "quiet (sv_db s) (snd (DeleteNode i (sv_db s)))"
    using wf_DeleteNode [OF assms] by (simp add: quiet_def same_access_def is_admin_def DeleteNode_def)
  then show ?thesis
    using quiet_audit quiet_trans assms unfolding nodeDelete_def by (auto simp: quiet_def)
qed

lemma quiet_gone: "db_wf (sv_db s) \<Longrightarrow> quiet (sv_db s) (sv_db (agent_cleanup q c s))"
  using quiet_trans [OF quiet_status quiet_node_updates(1)] quiet_status
  by (auto simp: agent_cleanup_def quiet_def split: prod.splits)

lemma machine_events_quiet:
  assumes "db_wf (sv_db s)" "\<nexists>q h op. e = UserRequest q h op"
  shows "quiet (sv_db s) (sv_db (api_step cfg e s))"
  using assms quiet_login quiet_enroll quiet_hello quiet_beat quiet_deregister quiet_gone
  by (cases e) (auto split: option.splits simp: quiet_def)


subsection \<open>Administrators and owners\<close>

lemma act_any_acts_inv:
  assumes "(api_act a)\<^sup>*\<^sup>* d d'" "db_wf d" "has_admin d"
  shows "has_admin d'"
proof -
  have step: "has_admin d2" if "api_act a d1 d2" "db_wf d1" "has_admin d1" for d1 d2
    using that(1) unfolding api_act_def
  proof
    assume "act_any a d1 d2"
    then show ?thesis using act_any_has_admin that by blast
  next
    assume "nact a d1 d2"
    then show ?thesis using nact_access that(3) by (simp add: has_admin_def is_admin_def)
  qed
  have "db_wf d' \<and> has_admin d'"
    using assms(1) by (induction rule: rtranclp_induct) (use assms step api_act_wf in blast)+
  then show ?thesis by simp
qed

definition admin_inv :: "server \<Rightarrow> bool" where
  "admin_inv s \<longleftrightarrow> db_wf (sv_db s) \<and> has_admin (sv_db s)"

lemma user_request_acts:
  "db_wf (sv_db s) \<Longrightarrow> user_request cfg q h op s = s \<or>
    (\<exists>a. Middleware q h (sv_db s) = Some a \<and> (api_act a)\<^sup>*\<^sup>* (sv_db s) (sv_db (user_request cfg q h op s)))"
  using user_op_acts by (auto simp: user_request_def split: option.splits)

lemma api_step_wf: "db_wf (sv_db s) \<Longrightarrow> db_wf (sv_db (api_step cfg e s))"
proof (cases "\<exists>q h op. e = UserRequest q h op")
  case True
  then obtain q h op where "e = UserRequest q h op" by blast
  then show "db_wf (sv_db s) \<Longrightarrow> ?thesis"
    using user_request_acts [of s cfg q h op] api_acts_wf [of _ "sv_db s" "sv_db (user_request cfg q h op s)"] by auto
next
  case False
  then show "db_wf (sv_db s) \<Longrightarrow> ?thesis" using machine_events_quiet by (simp add: quiet_def)
qed

interpretation schema: inv_machine "\<lambda>_ _. True" "api_step cfg" "\<lambda>s. db_wf (sv_db s)" for cfg
  by unfold_locales (rule api_step_wf)

lemma api_step_admin: "admin_inv s \<Longrightarrow> admin_inv (api_step cfg e s)"
proof -
  assume i: "admin_inv s"
  then have wf: "db_wf (sv_db s)" and adm: "has_admin (sv_db s)" by (simp_all add: admin_inv_def)
  have "has_admin (sv_db (api_step cfg e s))"
  proof (cases "\<exists>q h op. e = UserRequest q h op")
    case True
    then show ?thesis using user_request_acts [OF wf] act_any_acts_inv [OF _ wf adm] adm by (metis api_step.simps(1))
  next
    case False
    then show ?thesis using machine_events_quiet [OF wf, of e cfg] adm by (auto simp: quiet_def same_access_def has_admin_def)
  qed
  then show "admin_inv (api_step cfg e s)" using api_step_wf [OF wf] by (simp add: admin_inv_def)
qed

interpretation admins: inv_machine "\<lambda>_ _. True" "api_step cfg" admin_inv for cfg
  by unfold_locales (rule api_step_admin)

text \<open>What an event must respect for every live cluster to keep an owner: the row of a new cluster's owner
  can be written, and a deleted user is not the only owner of somebody else's cluster.\<close>

definition spares_owners :: "api_event \<Rightarrow> server \<Rightarrow> bool" where
  "spares_owners e s \<longleftrightarrow> (case e of
      UserRequest q h (CreateClusterOp b) \<Rightarrow> \<not> rq_fails q ''AddMembership''
    | UserRequest q h (DeleteUserOp uid) \<Rightarrow> (\<forall>i c r. rq_parse q uid = Some i \<and> tget (db_clusters (sv_db s)) c = Some r \<and> live r
        \<and> cl_OwnerID r \<noteq> i \<longrightarrow> (\<exists>u. u \<noteq> i \<and> tget (db_members (sv_db s)) (c, u) = Some ''owner''))
    | _ \<Rightarrow> True)"

lemma delete_statements:
  assumes "DeleteOwnedClusters i d = Inr d1" "DeleteUser i d1 = Inr d2" "db_wf d"
  shows "tget (db_clusters d2) c = (case tget (db_clusters d) c of None \<Rightarrow> None | Some r \<Rightarrow> if cl_OwnerID r = i then None else Some r)"
    "tget (db_members d2) (c, u) = (if u = i \<or> (\<exists>r. tget (db_clusters d) c = Some r \<and> cl_OwnerID r = i) then None
        else tget (db_members d) (c, u))"
    "db_users d2 = tdel i (db_users d)" "db_nodes d2 = db_nodes d"
proof -
  let ?keep = "\<lambda>c. case tget (db_clusters d) c of None \<Rightarrow> True | Some r \<Rightarrow> cl_OwnerID r \<noteq> i"
  have d1: "d1 = d\<lparr>db_clusters := tfilter (\<lambda>c _. ?keep c) (db_clusters d),
        db_members := tfilter (\<lambda>(c, u) _. ?keep c) (db_members d),
        db_tokens := tfilter (\<lambda>_ t. ?keep (et_ClusterID t)) (db_tokens d)\<rparr>"
    using assms(1) by (simp add: DeleteOwnedClusters_def Let_def split: if_splits)
  have d2: "db_clusters d2 = db_clusters d1" "db_members d2 = tfilter (\<lambda>(c, u) _. u \<noteq> i) (db_members d1)"
    "db_users d2 = tdel i (db_users d1)" "db_nodes d2 = db_nodes d1"
    using assms(2) by (auto simp: DeleteUser_def split: if_splits)
  show "tget (db_clusters d2) c = (case tget (db_clusters d) c of None \<Rightarrow> None | Some r \<Rightarrow> if cl_OwnerID r = i then None else Some r)"
    using assms(3) by (simp add: d2 d1 tget_tfilter split: option.splits)
  show "tget (db_members d2) (c, u) = (if u = i \<or> (\<exists>r. tget (db_clusters d) c = Some r \<and> cl_OwnerID r = i) then None
        else tget (db_members d) (c, u))"
    using assms(3) by (auto simp: d2 d1 tget_tfilter split: option.splits)
  show "db_users d2 = tdel i (db_users d)" "db_nodes d2 = db_nodes d" by (simp_all add: d2 d1)
qed

lemma deleteUser_result:
  obtains (same) e where "deleteUser q a uid d = (d, Inl e)"
  | (gone) i t d1 d2 where "rq_parse q uid = Some i" "usr_IsAdmin (snd a)" "tget (db_users d) i = Some t"
      "usr_IsAdmin t \<longrightarrow> CountAdmins d > 1" "DeleteOwnedClusters i d = Inr d1" "DeleteUser i d1 = Inr d2"
      "deleteUser q a uid d = (auditUser q (fst a) ''user.delete'' [(''email'', usr_Email t)] d2, Inr ())"
proof (cases "deleteUser_read q a uid d")
  case (Inl e)
  then show thesis by (intro same) (simp add: deleteUser_def)
next
  case (Inr r)
  obtain i t where r: "r = (i, t)" by (cases r)
  have rd: "rq_parse q uid = Some i" "usr_IsAdmin (snd a)" "tget (db_users d) i = Some t"
    using Inr r by (auto simp: deleteUser_read_def GetUserByID_def dest!: rd_SomeD split: if_splits option.splits)
  have tx: "deleteUser q a uid d = deleteUser_tx q a i t d" using Inr r by (simp add: deleteUser_def)
  show thesis
  proof (cases "\<exists>e. deleteUser_tx q a i t d = (d, Inl e)")
    case True
    then show thesis using tx same by auto
  next
    case False
    have g1: "\<not> (rq_fails q ''Begin'' \<or> rq_fails q ''pg_advisory_xact_lock'')"
    proof
      assume c: "rq_fails q ''Begin'' \<or> rq_fails q ''pg_advisory_xact_lock''"
      show False using False unfolding deleteUser_tx_def Let_def if_P [OF c] by blast
    qed
    have g2: "\<not> (usr_IsAdmin t \<and> rq_fails q ''count admins'')"
    proof
      assume c: "usr_IsAdmin t \<and> rq_fails q ''count admins''"
      show False using False unfolding deleteUser_tx_def Let_def if_not_P [OF g1] if_P [OF c] by blast
    qed
    have g3: "\<not> (usr_IsAdmin t \<and> CountAdmins d \<le> 1)"
    proof
      assume c: "usr_IsAdmin t \<and> CountAdmins d \<le> 1"
      show False using False unfolding deleteUser_tx_def Let_def if_not_P [OF g1] if_not_P [OF g2] if_P [OF c] by blast
    qed
    have g4: "\<not> (rq_fails q ''CountNodesInOwnedClusters'')"
    proof
      assume c: "rq_fails q ''CountNodesInOwnedClusters''"
      show False using False unfolding deleteUser_tx_def Let_def if_not_P [OF g1] if_not_P [OF g2] if_not_P [OF g3] if_P [OF c] by blast
    qed
    have g5: "\<not> (CountNodesInOwnedClusters i d > 0)"
    proof
      assume c: "CountNodesInOwnedClusters i d > 0"
      show False using False unfolding deleteUser_tx_def Let_def if_not_P [OF g1] if_not_P [OF g2] if_not_P [OF g3] if_not_P [OF g4] if_P [OF c] by blast
    qed
    have tx': "deleteUser_tx q a i t d = (case wr q ''DeleteOwnedClusters'' (DeleteOwnedClusters i d) of
          Inl _ \<Rightarrow> (d, Inl (proto_Err 500 ''INTERNAL'' ''delete user''))
        | Inr d1 \<Rightarrow> (case wr q ''DeleteUser'' (DeleteUser i d1) of
            Inl _ \<Rightarrow> (d, Inl (proto_Err 500 ''INTERNAL'' ''delete user''))
          | Inr d2 \<Rightarrow>
              if rq_fails q ''Commit'' then (d, Inl (proto_Err 500 ''INTERNAL'' ''delete user''))
              else (auditUser q (fst a) ''user.delete'' [(''email'', usr_Email t)] d2, Inr ())))"
      unfolding deleteUser_tx_def Let_def if_not_P [OF g1] if_not_P [OF g2] if_not_P [OF g3] if_not_P [OF g4] if_not_P [OF g5]
      by (rule refl)
    obtain d1 where d1: "wr q ''DeleteOwnedClusters'' (DeleteOwnedClusters i d) = Inr d1"
      using False tx' by (cases "wr q ''DeleteOwnedClusters'' (DeleteOwnedClusters i d)") simp_all
    obtain d2 where d2: "wr q ''DeleteUser'' (DeleteUser i d1) = Inr d2"
      using False tx' d1 by (cases "wr q ''DeleteUser'' (DeleteUser i d1)") simp_all
    have c: "\<not> rq_fails q ''Commit''" using False tx' d1 d2 by auto
    show thesis
      by (rule gone [OF rd _ wr_InrD [OF d1] wr_InrD [OF d2]]) (use tx tx' g3 d1 d2 c in auto)
  qed
qed


lemma auditUser_frame: "db_users (auditUser q u ac m d) = db_users d" "db_clusters (auditUser q u ac m d) = db_clusters d"
    "db_members (auditUser q u ac m d) = db_members d" "db_nodes (auditUser q u ac m d) = db_nodes d"
  using InsertAuditLog_frame
  by (auto simp: auditUser_def audit_def wr_def split: sum.splits)

lemma deleteUser_owned:
  assumes "db_wf d" "owned d"
    "\<And>i c r. rq_parse q uid = Some i \<Longrightarrow> tget (db_clusters d) c = Some r \<Longrightarrow> live r \<Longrightarrow> cl_OwnerID r \<noteq> i
        \<Longrightarrow> \<exists>u. u \<noteq> i \<and> tget (db_members d) (c, u) = Some ''owner''"
  shows "owned (fst (deleteUser q a uid d))"
proof (cases rule: deleteUser_result [of q a uid d])
  case (same e)
  then show ?thesis using assms(2) by simp
next
  case (gone i t d1 d2)
  note ds = delete_statements [OF gone(5,6) assms(1)]
  have "\<exists>u. tget (db_members d2) (c, u) = Some ''owner''" if c: "tget (db_clusters d2) c = Some r" "live r" for c r
  proof -
    have r: "tget (db_clusters d) c = Some r" "cl_OwnerID r \<noteq> i" using c by (auto simp: ds split: option.splits if_splits)
    then obtain u where "u \<noteq> i" "tget (db_members d) (c, u) = Some ''owner''" using assms(3) [OF gone(1)] c(2) by blast
    then show ?thesis using r by (intro exI [of _ u]) (simp add: ds)
  qed
  then show ?thesis using gone(7) by (simp add: owned_def auditUser_frame)
qed

lemma acts_owned: "(act a)\<^sup>*\<^sup>* d d' \<Longrightarrow> db_wf d \<Longrightarrow> owned d \<Longrightarrow> db_wf d' \<and> owned d'"
  by (induction rule: rtranclp_induct) (auto dest: act_wf act_owned)

lemma nacts_owned: "(nact a)\<^sup>*\<^sup>* d d' \<Longrightarrow> owned d \<Longrightarrow> owned d'"
  using nacts_access by (metis owned_frame)

lemma user_op_owned:
  assumes "db_wf (sv_db s)" "owned (sv_db s)" "spares_owners (UserRequest q h op) s"
  shows "owned (sv_db (user_op cfg q a op s))"
proof (cases op)
  case (CreateClusterOp b)
  then show ?thesis using acts_owned [OF createCluster_acts [OF assms(1)]] assms by (simp add: spares_owners_def)
next
  case (DeleteUserOp uid)
  then show ?thesis using deleteUser_owned [OF assms(1,2)] assms(3) by (simp add: spares_owners_def)
next
  case (RegisterNodeOp c b)
  then show ?thesis using nacts_owned [OF userRegisterNode_nacts [OF assms(1)] assms(2)] by simp
next
  case (DeleteNodeOp n)
  then show ?thesis using nacts_owned [OF adminDeleteNode_nacts assms(2)] by simp
qed (auto simp: nodeDisable_def nodeEnable_def intro: acts_owned [THEN conjunct2] nacts_owned updateMe_acts changePassword_acts renameCluster_acts deleteCluster_acts
    addMember_acts removeMember_acts updateMemberRole_acts createUser_acts updateUser_acts
    createEnrollToken_nacts setNodeStatus_nacts renameNode_nacts moveNode_nacts assms)

definition owned_inv :: "server \<Rightarrow> bool" where
  "owned_inv s \<longleftrightarrow> db_wf (sv_db s) \<and> owned (sv_db s)"

lemma api_step_owned: "owned_inv s \<Longrightarrow> spares_owners e s \<Longrightarrow> owned_inv (api_step cfg e s)"
proof -
  assume i: "owned_inv s" and sp: "spares_owners e s"
  then have wf: "db_wf (sv_db s)" and own: "owned (sv_db s)" by (simp_all add: owned_inv_def)
  have "owned (sv_db (api_step cfg e s))"
  proof (cases "\<exists>q h op. e = UserRequest q h op")
    case True
    then obtain q h op where "e = UserRequest q h op" by blast
    then show ?thesis using user_op_owned [OF wf own] sp own by (auto simp: user_request_def split: option.splits)
  next
    case False
    then show ?thesis
      using machine_events_quiet [OF wf, of e cfg] own unfolding quiet_def same_access_def by (metis owned_frame)
  qed
  then show "owned_inv (api_step cfg e s)" using api_step_wf [OF wf] by (simp add: owned_inv_def)
qed

interpretation owners: inv_machine spares_owners "api_step cfg" owned_inv for cfg
  by unfold_locales (rule api_step_owned)

subsection \<open>Who may change what\<close>

definition roster :: "uuid \<Rightarrow> db \<Rightarrow> Cluster option \<times> (uuid \<Rightarrow> string option)" where
  "roster c d = (tget (db_clusters d) c, \<lambda>u. tget (db_members d) (c, u))"

definition fleet :: "uuid \<Rightarrow> db \<Rightarrow> (uuid \<times> Node) set" where
  "fleet c d = {(i, n). tget (db_nodes d) i = Some n \<and> nd_ClusterID n = c}"

lemma roster_eq: "roster c d' = roster c d \<Longrightarrow> GetMemberRole c u d' = GetMemberRole c u d \<and> (owns a c d' = owns a c d)
    \<and> (tget (db_clusters d') c = tget (db_clusters d) c)"
proof -
  assume r: "roster c d' = roster c d"
  have m: "tget (db_members d') (c, x) = tget (db_members d) (c, x)" for x
    using r fun_cong [of "\<lambda>u. tget (db_members d') (c, u)" "\<lambda>u. tget (db_members d) (c, u)" x] by (simp add: roster_def)
  then show ?thesis using r by (simp add: roster_def GetMemberRole_def owns_def GetClusterByID_def)
qed

lemma act_roster:
  assumes "act a d d'" "\<not> usr_IsAdmin (snd a)" "\<not> owns a c d" "tget (db_clusters d) c \<noteq> None"
  shows "roster c d' = roster c d \<and> db_nodes d' = db_nodes d"
  using assms(1)
proof cases
  case (create_cluster c' name d1)
  have "c' \<noteq> c" using create_cluster(1) assms(4) by (auto simp: CreateCluster_def Let_def split: if_splits)
  then show ?thesis using create_cluster
    by (auto simp: CreateCluster_def AddMembership_def AddMember_def Let_def roster_def split: if_splits)
next
  case (rename_cluster c' name)
  then have "c' \<noteq> c" using assms(3) by auto
  then show ?thesis using rename_cluster by (auto simp: RenameCluster_def roster_def split: option.splits if_splits)
next
  case (soft_delete c' now)
  then have "c' \<noteq> c" using assms(3) by auto
  then show ?thesis using soft_delete by (auto simp: SoftDeleteCluster_def roster_def split: option.splits)
next
  case (add_member c' u r)
  then have "c' \<noteq> c" using assms(3) by auto
  then show ?thesis using add_member by (auto simp: AddMember_def roster_def split: if_splits)
next
  case (remove_member c' u)
  then have "c' \<noteq> c" using assms(3) by auto
  then show ?thesis using remove_member by (auto simp: RemoveMemberGuarded_def roster_def split: option.splits)
next
  case (change_role c' u r n)
  then have "c' \<noteq> c" using assms(3) by auto
  then show ?thesis using change_role by (auto simp: UpdateMemberRole_def roster_def split: option.splits if_splits)
qed (use assms(2) in \<open>auto simp: roster_def UpdateUserDisplayName_def UpdateUserPassword_def upd_user_def
      dest: InsertAuditLog_frame split: option.splits\<close>)

lemma act_any_roster:
  assumes "act_any a d d'" "\<not> usr_IsAdmin (snd a)" "\<not> owns a c d" "tget (db_clusters d) c \<noteq> None"
  shows "roster c d' = roster c d \<and> db_nodes d' = db_nodes d"
  using assms(1)
proof cases
  case sound
  then show ?thesis using act_roster assms by blast
next
  case (half_cluster c' name)
  then show ?thesis using assms(4) by (auto simp: CreateCluster_def Let_def roster_def split: if_splits)
qed (use assms in auto)

lemma fleet_put: "nd_ClusterID n' \<noteq> c \<Longrightarrow> (\<forall>n. tget (db_nodes d) i = Some n \<longrightarrow> nd_ClusterID n \<noteq> c) \<Longrightarrow>
    fleet c (d\<lparr>db_nodes := tput i n' (db_nodes d)\<rparr>) = fleet c d"
  by (auto simp: fleet_def split: if_splits)

lemma nact_fleet:
  assumes "nact a d d'" "\<not> usr_IsAdmin (snd a)" "GetMemberRole c (fst a) d = None"
  shows "fleet c d' = fleet c d"
  using assms(1)
proof cases
  case (node_status i n st)
  then show ?thesis using assms(3)
    by (auto simp: SetNodeStatus_def upd_node_def GetNodeByID_def intro!: fleet_put split: if_splits option.splits)
next
  case (node_rename i n name)
  then show ?thesis using assms(3)
    by (auto simp: RenameNode_def put_node_def GetNodeByID_def intro!: fleet_put split: option.splits)
next
  case (node_move i n t name r)
  then show ?thesis using assms(3)
    by (auto simp: MoveNodeCluster_def put_node_def GetNodeByID_def owns_def intro!: fleet_put split: if_splits option.splits sum.splits)
next
  case (node_register c' i name req)
  then show ?thesis using assms(3)
    by (auto simp: CreateNode_def put_node_def new_node_def intro!: fleet_put split: if_splits option.splits)
next
  case (node_adopt c' i n key host osv agentv plat m)
  then show ?thesis using assms(3)
    by (auto simp: AdoptNodeIdentity_def Let_def intro!: fleet_put split: option.splits)
next
  case (node_audit al)
  then show ?thesis using InsertAuditLog_frame by (simp add: fleet_def)
next
  case (new_token t i)
  have "db_nodes d' = db_nodes d" using token_stmts_frame new_token by blast
  then show ?thesis by (simp add: fleet_def)
next
  case (node_delete i)
  then show ?thesis using assms(2) by simp
qed

lemma api_acts_roster:
  assumes "(api_act a)\<^sup>*\<^sup>* d d'" "\<not> usr_IsAdmin (snd a)" "\<not> owns a c d" "tget (db_clusters d) c \<noteq> None"
  shows "roster c d' = roster c d"
  using assms(1)
proof (induction rule: rtranclp_induct)
  case (step d1 d2)
  then have "\<not> owns a c d1" "tget (db_clusters d1) c \<noteq> None" using assms roster_eq by metis+
  then have "roster c d2 = roster c d1"
    using step(2) act_any_roster [OF _ assms(2), of d1 d2 c] nact_access [of a d1 d2] by (auto simp: api_act_def roster_def)
  then show ?case using step by simp
qed simp

lemma api_acts_fleet:
  assumes "(api_act a)\<^sup>*\<^sup>* d d'" "\<not> usr_IsAdmin (snd a)" "GetMemberRole c (fst a) d = None" "tget (db_clusters d) c \<noteq> None"
  shows "fleet c d' = fleet c d"
  using assms(1)
proof (induction rule: rtranclp_induct)
  case (step d1 d2)
  have "\<not> owns a c d" using assms(3) by (simp add: owns_def)
  then have r: "roster c d1 = roster c d" using api_acts_roster [OF step(1) assms(2)] assms(4) by blast
  then have "GetMemberRole c (fst a) d1 = None" "\<not> owns a c d1" "tget (db_clusters d1) c \<noteq> None"
    using assms \<open>\<not> owns a c d\<close> roster_eq [OF r, of "fst a" a] by simp_all
  then have "fleet c d2 = fleet c d1"
    using step(2) act_any_roster [OF _ assms(2), of d1 d2 c] nact_fleet [OF _ assms(2), of d1 d2 c] by (auto simp: api_act_def fleet_def)
  then show ?case using step by simp
qed simp


subsection \<open>Properties of the whole API\<close>

definition demo_cfg :: api_cfg where
  "demo_cfg = \<lparr>cf_MaxClusters = 20, cf_EnrollTTL = 30 * Minute, cf_Quote = (\<lambda>s. s)\<rparr>"

definition demo_server :: server where
  "demo_server = \<lparr>sv_db = demo_db, sv_reg = registry_New\<rparr>"

text \<open>Events on the concrete database: user 1 makes user 2 an owner of cluster 11, and user 2 removes user 1.\<close>

definition demo_handover :: "api_event list" where
  "demo_handover =
     [UserRequest demo_rq ''Bearer #1'' (AddMemberOp ''#11'' (Some \<lparr>am_Email = ''b@x'', am_UserID = [], am_Role = ''owner''\<rparr>)),
      UserRequest demo_rq ''Bearer #2'' (RemoveMemberOp ''#11'' ''#1'')]"

text \<open>User 1, the only administrator, promotes user 2 and then gives up the flag.\<close>

definition demo_admin_swap :: "api_event list" where
  "demo_admin_swap =
     [UserRequest demo_rq ''Bearer #1'' (UpdateUserOp ''#2'' (Some \<lparr>uu_DisplayName = None, uu_IsAdmin = Some True, uu_Password = None\<rparr>)),
      UserRequest demo_rq ''Bearer #2'' (UpdateUserOp ''#1'' (Some \<lparr>uu_DisplayName = None, uu_IsAdmin = Some False, uu_Password = None\<rparr>))]"

lemma demo_server_wf: "db_wf (sv_db demo_server)"
  by (simp add: demo_server_def demo_wf)

text \<open>C17. The handlers implement the access specification: a request without a valid token changes nothing, and
  whatever any other request does to the database is a sequence of statements that the specification
  permits to the user the token names (\<open>act_any\<close> for users, clusters and members, \<open>nact\<close> for nodes).\<close>

theorem requests_refine_access:
  assumes "db_wf (sv_db s)"
  shows "(Middleware q h (sv_db s) = None \<longrightarrow> api_step cfg (UserRequest q h op) s = s) \<and>
     (\<forall>a. Middleware q h (sv_db s) = Some a \<longrightarrow>
        (\<lambda>d d'. act_any a d d' \<or> nact a d d')\<^sup>*\<^sup>* (sv_db s) (sv_db (api_step cfg (UserRequest q h op) s)))"
proof -
  have "(\<lambda>d d'. act_any a d d' \<or> nact a d d')\<^sup>*\<^sup>* (sv_db s) (sv_db (user_op cfg q a op s))" for a
    using user_op_acts [OF assms, of a cfg q op] by (simp add: api_act_def [abs_def])
  then show ?thesis by (simp add: user_request_def)
qed

theorem requests_refine_access_witness:
  "Middleware demo_rq ''Bearer #1'' demo_db = Some (''#1'', demo_user ''a@x'' True) \<and>
   (\<lambda>d d'. act_any (''#1'', demo_user ''a@x'' True) d d' \<or> nact (''#1'', demo_user ''a@x'' True) d d')\<^sup>*\<^sup>* demo_db
      (sv_db (api_step demo_cfg (UserRequest demo_rq ''Bearer #1'' (DeleteNodeOp ''#20'')) demo_server))"
proof -
  have "Middleware demo_rq ''Bearer #1'' demo_db = Some (''#1'', demo_user ''a@x'' True)" by code_simp
  then show ?thesis
    using requests_refine_access [OF demo_server_wf, of demo_rq "''Bearer #1''" demo_cfg "DeleteNodeOp ''#20''"]
    by (simp add: demo_server_def)
qed

text \<open>C22. Well-typed data: every run of requests, enrollments and agent connections keeps the schema's
  constraints. In particular no two nodes ever share a machine id, or a name within a cluster, every role
  and status is one of the allowed words, every member, node and token belongs to an existing cluster, and
  no enrollment token is used more often than allowed.\<close>

theorem api_keeps_schema:
  assumes "db_wf (sv_db s)"
  shows "let d = sv_db (fold (api_step cfg) es s) in db_wf d
     \<and> (\<forall>i j m n. tget (db_nodes d) i = Some m \<and> tget (db_nodes d) j = Some n \<and> i \<noteq> j \<longrightarrow>
          nd_MachineID m \<noteq> nd_MachineID n \<and> (nd_ClusterID m, nd_Name m) \<noteq> (nd_ClusterID n, nd_Name n))
     \<and> (\<forall>k r. tget (db_members d) k = Some r \<longrightarrow> r \<in> {''owner'', ''operator'', ''viewer''} \<and> tget (db_clusters d) (fst k) \<noteq> None)
     \<and> (\<forall>i n. tget (db_nodes d) i = Some n \<longrightarrow> nd_Status n \<in> {''online'', ''offline'', ''disabled''} \<and> tget (db_clusters d) (nd_ClusterID n) \<noteq> None)
     \<and> (\<forall>i t. tget (db_tokens d) i = Some t \<longrightarrow> tget (db_clusters d) (et_ClusterID t) \<noteq> None \<and> 0 \<le> et_UsedCount t \<and> et_UsedCount t \<le> et_MaxUses t)"
proof -
  let ?d = "sv_db (fold (api_step cfg) es s)"
  have wf: "db_wf ?d" using schema.run_inv [of s cfg es] assms by simp
  have mu: "nd_MachineID m \<noteq> nd_MachineID n" if "tget (db_nodes ?d) i = Some m" "tget (db_nodes ?d) j = Some n" "i \<noteq> j" for i j m n
    using db_wf_uniq(4) [OF wf] that unfolding uniq_def machine_key_def by blast
  have nu: "(nd_ClusterID m, nd_Name m) \<noteq> (nd_ClusterID n, nd_Name n)" if "tget (db_nodes ?d) i = Some m" "tget (db_nodes ?d) j = Some n" "i \<noteq> j" for i j m n
    using db_wf_uniq(3) [OF wf] that unfolding uniq_def node_name_key_def by blast
  have "r \<in> {''owner'', ''operator'', ''viewer''} \<and> tget (db_clusters ?d) (fst k) \<noteq> None" if "tget (db_members ?d) k = Some r" for k r
    using db_wf_refs(1) [OF wf that] by (simp add: member_ok_def validRoles_def)
  moreover have "nd_Status n \<in> {''online'', ''offline'', ''disabled''} \<and> tget (db_clusters ?d) (nd_ClusterID n) \<noteq> None"
    if "tget (db_nodes ?d) i = Some n" for i n
    using db_wf_refs(3) [OF wf that] by (simp add: node_ok_def validStatuses_def)
  moreover have "tget (db_clusters ?d) (et_ClusterID t) \<noteq> None \<and> 0 \<le> et_UsedCount t \<and> et_UsedCount t \<le> et_MaxUses t"
    if "tget (db_tokens ?d) i = Some t" for i t
    using db_wf_refs(4) [OF wf that] by (simp add: token_ok_def)
  ultimately show ?thesis unfolding Let_def using wf mu nu by blast
qed

theorem api_keeps_schema_witness:
  "db_wf (sv_db (fold (api_step demo_cfg) (demo_handover @ [AgentEnroll demo_rq (Some demo_enroll)]) demo_server))"
  using api_keeps_schema [OF demo_server_wf, of demo_cfg "demo_handover @ [AgentEnroll demo_rq (Some demo_enroll)]"] by (simp add: Let_def)



text \<open>C20. Every live cluster keeps an owner along every run whose cluster creations can write the owner's row
  and whose user deletions spare users that are the only owner of somebody else's cluster; removing members,
  changing roles and every other request need no such proviso.\<close>

theorem clusters_stay_owned:
  assumes "db_wf (sv_db s)" "owned (sv_db s)" "run_ok spares_owners (api_step cfg) es s"
  shows "\<forall>c r. tget (db_clusters (sv_db (fold (api_step cfg) es s))) c = Some r \<and> live r \<longrightarrow>
     (\<exists>u. tget (db_members (sv_db (fold (api_step cfg) es s))) (c, u) = Some ''owner'')"
  using owners.run_inv [of s cfg es] assms by (simp add: owned_inv_def owned_def)

theorem clusters_stay_owned_witness:
  "tget (db_clusters (sv_db (fold (api_step demo_cfg) demo_handover demo_server))) ''#11'' = Some (demo_cluster ''beta'' ''#1'') \<and>
   (\<exists>u. tget (db_members (sv_db (fold (api_step demo_cfg) demo_handover demo_server))) (''#11'', u) = Some ''owner'')"
proof -
  let ?d = "sv_db (fold (api_step demo_cfg) demo_handover demo_server)"
  have rows: "c \<in> {''#10'', ''#11''}" if "tget (db_clusters demo_db) c = Some r" for c r
    using that by (simp add: demo_db_def split: if_splits)
  have "\<exists>u. tget (db_members demo_db) (c, u) = Some ''owner''" if "tget (db_clusters demo_db) c = Some r" for c r
    using rows [OF that] by (intro exI [of _ "''#1''"]) (auto simp: demo_db_def)
  then have o: "owned (sv_db demo_server)" unfolding owned_def by (simp add: demo_server_def)
  have ok: "run_ok spares_owners (api_step demo_cfg) demo_handover demo_server"
    by (rule run_okI) (auto simp: demo_handover_def spares_owners_def)
  have row: "tget (db_clusters ?d) ''#11'' = Some (demo_cluster ''beta'' ''#1'')" by code_simp
  have l: "live (demo_cluster ''beta'' ''#1'')" by (simp add: live_def demo_cluster_def)
  have "\<exists>u. tget (db_members ?d) (''#11'', u) = Some ''owner''"
    using clusters_stay_owned [OF demo_server_wf o ok] row l by blast
  then show ?thesis using row by blast
qed

text \<open>C8. Authorisation: a request of a user who is no administrator changes the row or the members of an
  existing cluster only if the user owns that cluster, and the nodes of a cluster only if the user is one of
  its members.\<close>

theorem authorised_writes:
  assumes "db_wf (sv_db s)" "Middleware q h (sv_db s) = Some a" "\<not> usr_IsAdmin (snd a)" "tget (db_clusters (sv_db s)) c \<noteq> None"
  shows "(roster c (sv_db (api_step cfg (UserRequest q h op) s)) \<noteq> roster c (sv_db s) \<longrightarrow> owns a c (sv_db s)) \<and>
     (fleet c (sv_db (api_step cfg (UserRequest q h op) s)) \<noteq> fleet c (sv_db s) \<longrightarrow> GetMemberRole c (fst a) (sv_db s) \<noteq> None)"
proof -
  have "(api_act a)\<^sup>*\<^sup>* (sv_db s) (sv_db (api_step cfg (UserRequest q h op) s))"
    using user_op_acts [OF assms(1)] assms(2) by (simp add: user_request_def)
  then show ?thesis using api_acts_roster [OF _ assms(3)] api_acts_fleet [OF _ assms(3)] assms(4) by blast
qed

theorem authorised_writes_witness:
  "\<not> owns (''#2'', demo_user ''b@x'' False) ''#11'' demo_db \<and>
   roster ''#11'' (sv_db (api_step demo_cfg (UserRequest demo_rq ''Bearer #2'' (DeleteClusterOp ''#11'')) demo_server)) = roster ''#11'' demo_db"
proof -
  have "Middleware demo_rq ''Bearer #2'' demo_db = Some (''#2'', demo_user ''b@x'' False)" by code_simp
  moreover have "\<not> owns (''#2'', demo_user ''b@x'' False) ''#11'' demo_db" by code_simp
  moreover have "tget (db_clusters demo_db) ''#11'' \<noteq> None" "\<not> usr_IsAdmin (demo_user ''b@x'' False)" by (simp_all add: demo_rows)
  ultimately show ?thesis
    using authorised_writes [OF demo_server_wf, of demo_rq "''Bearer #2''" "(''#2'', demo_user ''b@x'' False)" "''#11''" demo_cfg "DeleteClusterOp ''#11''"]
    by (auto simp: demo_server_def)
qed


lemma unowned_locked:
  assumes "\<forall>u. tget (db_members d) (c, u) \<noteq> Some ''owner''" "authorizeClusterOwner q a s d = Inr r"
  shows "fst r \<noteq> c"
  using assms by (auto simp: authorizeClusterOwner_def GetMemberRole_def split: option.splits if_splits)

text \<open>C34. Deleting a user can leave a live cluster that nobody administers: when the user is the only owner among
  the members of a cluster that somebody else created, the cluster survives the deletion without an owner,
  and from then on the owner check refuses everybody, so no request can rename it, delete it or give it a
  member.\<close>

theorem user_deletion_orphans:
  assumes "db_wf d" "deleteUser q a uid d = (d', Inr ())" "rq_parse q uid = Some i"
    "tget (db_clusters d) c = Some r" "live r" "cl_OwnerID r \<noteq> i"
    "\<forall>u. tget (db_members d) (c, u) = Some ''owner'' \<longrightarrow> u = i"
  shows "tget (db_clusters d') c = Some r \<and> (\<forall>u. tget (db_members d') (c, u) \<noteq> Some ''owner'')
     \<and> (\<forall>q' a' s w. authorizeClusterOwner q' a' s d' = Inr w \<longrightarrow> fst w \<noteq> c)"
proof -
  obtain t :: User and d1 d2 where g: "DeleteOwnedClusters i d = Inr d1" "DeleteUser i d1 = Inr d2"
      "d' = auditUser q (fst a) ''user.delete'' [(''email'', usr_Email t)] d2"
  proof (cases rule: deleteUser_result [of q a uid d])
    case (same e)
    then show ?thesis using assms(2) by simp
  next
    case (gone j t d1 d2)
    have "j = i" using gone(1) assms(3) by simp
    then show ?thesis using gone(5-7) assms(2) by (intro that [of d1 d2 t]) simp_all
  qed
  note ds = delete_statements [OF g(1,2) assms(1)]
  have row: "tget (db_clusters d') c = Some r" using assms(4,6) by (simp add: g(3) auditUser_frame ds)
  moreover have "\<forall>u. tget (db_members d') (c, u) \<noteq> Some ''owner''"
    using assms(7) by (auto simp add: g(3) auditUser_frame ds)
  ultimately show ?thesis using unowned_locked by blast
qed

definition demo_orphaned :: db where
  "demo_orphaned = fst (deleteUser demo_rq (''#1'', demo_user ''a@x'' True) ''#2'' (sv_db (fold (api_step demo_cfg) demo_handover demo_server)))"

theorem user_deletion_orphans_witness:
  "tget (db_clusters demo_orphaned) ''#11'' = Some (demo_cluster ''beta'' ''#1'') \<and>
   (\<forall>u. tget (db_members demo_orphaned) (''#11'', u) \<noteq> Some ''owner'') \<and>
   (\<forall>q' a' s r. authorizeClusterOwner q' a' s demo_orphaned \<noteq> Inr (''#11'', r))"
proof -
  let ?d = "sv_db (fold (api_step demo_cfg) demo_handover demo_server)"
  have wf: "db_wf ?d" using schema.run_inv [of demo_server demo_cfg demo_handover] demo_server_wf by simp
  have "snd (deleteUser demo_rq (''#1'', demo_user ''a@x'' True) ''#2'' ?d) = Inr ()" by code_simp
  then have del: "deleteUser demo_rq (''#1'', demo_user ''a@x'' True) ''#2'' ?d = (demo_orphaned, Inr ())"
    by (simp add: demo_orphaned_def prod_eq_iff)
  have id: "rq_parse demo_rq ''#2'' = Some ''#2''" by code_simp
  have row: "tget (db_clusters ?d) ''#11'' = Some (demo_cluster ''beta'' ''#1'')" by code_simp
  have c: "live (demo_cluster ''beta'' ''#1'')" "cl_OwnerID (demo_cluster ''beta'' ''#1'') \<noteq> ''#2''"
    by (simp_all add: live_def demo_cluster_def)
  have "db_members ?d = [((''#10'', ''#1''), ''owner''), ((''#10'', ''#2''), ''operator''), ((''#11'', ''#2''), ''owner'')]" by code_simp
  then have only: "\<forall>u. tget (db_members ?d) (''#11'', u) = Some ''owner'' \<longrightarrow> u = ''#2''" by (simp split: if_splits)
  show ?thesis using user_deletion_orphans [OF wf del id row c only] by fastforce
qed

text \<open>The check for the last administrator works on a stale row: \<open>deleteUser\<close> reads its target before it
  takes the lock, so when the target is made the only administrator between the two, the deletion goes
  through without the count and nobody is an administrator any more. (\<open>last_admin_kept\<close> is about requests
  that run one after the other.)\<close>

theorem stale_delete_race:
  assumes "db_wf d" "\<not> usr_IsAdmin t" "\<forall>j u. tget (db_users d) j = Some u \<and> usr_IsAdmin u \<longrightarrow> j = i"
    "deleteUser_tx q a i t d = (d', Inr ())"
  shows "\<not> has_admin d'"
proof -
  obtain d1 d2 where g: "DeleteOwnedClusters i d = Inr d1" "DeleteUser i d1 = Inr d2"
      "d' = auditUser q (fst a) ''user.delete'' [(''email'', usr_Email t)] d2"
    using assms(2,4) by (auto simp: deleteUser_tx_def Let_def dest!: wr_InrD split: if_splits sum.splits)
  have "db_users d' = tdel i (db_users d)"
    using delete_statements(3) [OF g(1,2) assms(1)] by (simp add: g(3) auditUser_frame)
  then show ?thesis using assms(1,3) by (auto simp: has_admin_def is_admin_def split: if_splits)
qed

theorem stale_delete_race_witness:
  "deleteUser_read demo_rq (''#1'', demo_user ''a@x'' True) ''#2'' demo_db = Inr (''#2'', demo_user ''b@x'' False) \<and>
   has_admin (sv_db (fold (api_step demo_cfg) demo_admin_swap demo_server)) \<and>
   \<not> has_admin (fst (deleteUser_tx demo_rq (''#1'', demo_user ''a@x'' True) ''#2'' (demo_user ''b@x'' False)
        (sv_db (fold (api_step demo_cfg) demo_admin_swap demo_server))))"
proof -
  let ?d = "sv_db (fold (api_step demo_cfg) demo_admin_swap demo_server)"
  let ?r = "deleteUser_tx demo_rq (''#1'', demo_user ''a@x'' True) ''#2'' (demo_user ''b@x'' False) ?d"
  have us: "db_users ?d = [(''#1'', demo_user ''a@x'' False), (''#2'', demo_user ''b@x'' True)]" by code_simp
  have "snd ?r = Inr ()" by code_simp
  then have tx: "?r = (fst ?r, Inr ())" by (simp add: prod_eq_iff)
  have only: "\<forall>j u. tget (db_users ?d) j = Some u \<and> usr_IsAdmin u \<longrightarrow> j = ''#2''"
    by (simp add: us demo_user_def)
  have "\<not> has_admin (fst ?r)"
    by (rule stale_delete_race [OF _ _ only tx]) (use schema.run_inv [of demo_server demo_cfg demo_admin_swap] demo_server_wf in \<open>simp_all add: demo_user_def\<close>)
  moreover have "deleteUser_read demo_rq (''#1'', demo_user ''a@x'' True) ''#2'' demo_db = Inr (''#2'', demo_user ''b@x'' False)" by code_simp
  moreover have "has_admin ?d" unfolding has_admin_def is_admin_def
    by (rule exI [of _ "''#2''"]) (simp add: us demo_user_def)
  ultimately show ?thesis by blast
qed


end
