(* ===== verification/Updater.thy ===== *)
theory Updater
  imports Version_Order
begin

text \<open>
  The agent's self-update (\<open>src/agent/updater/updater.go\<close> and the naming parts of
  \<open>orchestrate_windows.go\<close>, \<open>orchestrate_linux.go\<close>, \<open>orchestrate_other.go\<close>): triggers and their gates,
  download and hash check, rollback source, pending mark and watchdog, installer run, rollback, the
  self-check of the new agent, the start-up check, failure back-off and blacklist.
  The files of the state directory are the fields of \<open>upd_state\<close>: a directory is a table from file
  name to content; file names are compared exactly. \<open>us_fx\<close> logs the installers that were run and
  the audit messages that were sent. The record \<open>upd_env\<close> holds what is outside: the server's
  answers, \<open>url.Parse\<close>, SHA-256 (as hex text), which file writes succeed, the outcome of the
  installer with its effect on the installer cache, the watchdog task and the rollback seams of the
  platform. Readings of the clock are arguments: \<open>t0\<close> at the trigger, \<open>t1\<close> after the download. An
  installer that stops the agent's own process behaves like one that returns without error.
\<close>

subsection \<open>State\<close>

record SetupManifest =
  mf_Version :: string
  mf_URL :: string
  mf_SHA256 :: string

record PendingUpdate =
  pu_From :: string
  pu_To :: string
  pu_StartedAt :: go_time
  pu_Deadline :: go_time

record throttleFailure =
  tf_Fails :: nat
  tf_NextTry :: go_time

record UpdateAudit =
  ua_Event :: string
  ua_From :: string
  ua_To :: string
  ua_Reason :: string

type_synonym dir = "(string, bytes) table"

datatype upd_fx =
    UExec string bytes
  | UFallback string
  | UReport UpdateAudit

record upd_state =
  us_pending :: "PendingUpdate option"
  us_failures :: "(string, throttleFailure) table"
  us_blacklist :: "(string, string) table"
  us_audit :: "UpdateAudit option"
  us_staging :: dir
  us_cache :: dir
  us_stash :: dir
  us_watchdog :: "go_time option"
  us_fx :: "upd_fx list"

record Updater =
  u_ServerURL :: string
  u_Version :: string
  u_Channel :: string
  u_PendingWindow :: duration

datatype platform = PWindows | PLinux | POther

datatype upd_error =
    EFetch
  | EEmptyURL
  | EParse
  | EOrigin
  | EDownload
  | EWrite
  | ERead
  | EHash
  | ENoSource
  | EWatchdog
  | EInstaller string
  | ERolledBack string
  | ERollback string

datatype upd_file = WPending | WThrottle | WAudit | WStaging string | WCache string | WStash string

record upd_env =
  ue_platform :: platform
  ue_manifest :: "SetupManifest option"
  ue_get :: "string \<Rightarrow> bytes option"
  ue_urlHost :: "string \<Rightarrow> string option"
  ue_sha256 :: "bytes \<Rightarrow> string"
  ue_writes :: "upd_file \<Rightarrow> bool"
  ue_exec :: "string \<Rightarrow> bytes \<Rightarrow> string option"
  ue_installed :: "string \<Rightarrow> bytes \<Rightarrow> dir \<Rightarrow> dir"
  ue_watchdog :: bool
  ue_online :: bool
  ue_rollbackReady :: "(string \<Rightarrow> bool) option"
  ue_rollbackFallback :: "(string \<Rightarrow> string option) option"

definition DefaultPendingWindow :: duration where "DefaultPendingWindow = 15 * Minute"
definition WatchdogRestartGrace :: duration where "WatchdogRestartGrace = 2 * Minute"
definition PendingMaxAge :: duration where "PendingMaxAge = 24 * Hour"
definition downloadLimit :: int where "downloadLimit = 536870912"
definition backoffSchedule :: "duration list" where "backoffSchedule = [Hour, 4 * Hour, 24 * Hour]"

definition pendingWindow :: "Updater \<Rightarrow> duration" where
  "pendingWindow u = (if u_PendingWindow u > 0 then u_PendingWindow u else DefaultPendingWindow)"

definition upd_channel :: "Updater \<Rightarrow> string" where
  "upd_channel u = (if u_Channel u = [] then ''stable'' else u_Channel u)"

definition upd_log :: "upd_fx list \<Rightarrow> upd_state \<Rightarrow> upd_state" where
  "upd_log fx s = s\<lparr>us_fx := us_fx s @ fx\<rparr>"

subsection \<open>File names\<close>

definition cacheInstallerName :: "platform \<Rightarrow> string \<Rightarrow> string \<Rightarrow> string" where
  "cacheInstallerName p version channel =
     (case p of
        PLinux \<Rightarrow> if channel = ''dev'' then ''xnc-linux-amd64-dev-'' @ version @ ''.tar.gz''
                  else ''xnc-linux-amd64-'' @ version @ ''.tar.gz''
      | _ \<Rightarrow> if channel = ''dev'' then ''XNC-Installer-dev-'' @ version @ ''.exe''
             else ''XNC-Installer-'' @ version @ ''.exe'')"

definition installerSuffix :: "platform \<Rightarrow> string" where
  "installerSuffix p = (case p of PLinux \<Rightarrow> ''.tar.gz'' | _ \<Rightarrow> ''.exe'')"

text \<open>\<open>strings.ToLower\<close> on ASCII letters and \<open>strings.HasSuffix\<close>.\<close>

definition lower_char :: "char \<Rightarrow> char" where
  "lower_char c = (let n = of_char c :: nat in if 65 \<le> n \<and> n \<le> 90 then char_of (n + 32) else c)"

definition ToLower :: "string \<Rightarrow> string" where
  "ToLower s = map lower_char s"

definition HasSuffix :: "string \<Rightarrow> string \<Rightarrow> bool" where
  "HasSuffix s x \<longleftrightarrow> length x \<le> length s \<and> drop (length s - length x) s = x"

text \<open>\<open>os.ReadDir\<close> lists a directory sorted by file name.\<close>

fun insert_name :: "string \<Rightarrow> string list \<Rightarrow> string list" where
  "insert_name x [] = [x]"
| "insert_name x (y # ys) = (if strings_Compare x y \<le> 0 then x # y # ys else y # insert_name x ys)"

definition ReadDir :: "dir \<Rightarrow> string list" where
  "ReadDir d = foldr insert_name (tkeys d) []"

definition findInstaller :: "platform \<Rightarrow> dir \<Rightarrow> string \<Rightarrow> string option" where
  "findInstaller p d version =
     (if tget d (cacheInstallerName p version ''stable'') \<noteq> None then Some (cacheInstallerName p version ''stable'')
      else if tget d (cacheInstallerName p version ''dev'') \<noteq> None then Some (cacheInstallerName p version ''dev'')
      else find (\<lambda>n. HasSuffix (ToLower n) (ToLower (''-'' @ version @ installerSuffix p))) (ReadDir d))"

definition CachedInstaller :: "platform \<Rightarrow> string \<Rightarrow> upd_state \<Rightarrow> string option" where
  "CachedInstaller p version s = findInstaller p (us_cache s) version"

definition CachedRollbackInstaller :: "platform \<Rightarrow> string \<Rightarrow> upd_state \<Rightarrow> string option" where
  "CachedRollbackInstaller p version s = findInstaller p (us_stash s) version"

definition StagedInstaller :: "platform \<Rightarrow> string \<Rightarrow> upd_state \<Rightarrow> string option" where
  "StagedInstaller p version s = findInstaller p (us_staging s) version"

definition hashEqual :: "string \<Rightarrow> string \<Rightarrow> bool" where
  "hashEqual got want \<longleftrightarrow> ToLower got = ToLower (TrimSpace want)"

subsection \<open>Pending mark, audit, throttle and blacklist\<close>

definition LoadPending :: "upd_state \<Rightarrow> PendingUpdate option" where
  "LoadPending s =
     (case us_pending s of None \<Rightarrow> None | Some p \<Rightarrow> if pu_To p = [] then None else Some p)"

definition SavePending :: "upd_env \<Rightarrow> PendingUpdate \<Rightarrow> upd_state \<Rightarrow> bool \<times> upd_state" where
  "SavePending E p s = (if ue_writes E WPending then (True, s\<lparr>us_pending := Some p\<rparr>) else (False, s))"

definition DeletePending :: "upd_state \<Rightarrow> upd_state" where
  "DeletePending s = s\<lparr>us_pending := None\<rparr>"

definition deleteWatchdogTask :: "upd_state \<Rightarrow> upd_state" where
  "deleteWatchdogTask s = s\<lparr>us_watchdog := None\<rparr>"

definition upd_audit :: "upd_env \<Rightarrow> UpdateAudit \<Rightarrow> upd_state \<Rightarrow> upd_state" where
  "upd_audit E a s =
     (if ue_online E then upd_log [UReport a] s
      else if ue_writes E WAudit then s\<lparr>us_audit := Some a\<rparr> else s)"

definition ConsumeAuditMarker :: "upd_state \<Rightarrow> UpdateAudit option \<times> upd_state" where
  "ConsumeAuditMarker s = (us_audit s, s\<lparr>us_audit := None\<rparr>)"

definition saveThrottle ::
  "upd_env \<Rightarrow> (string, throttleFailure) table \<Rightarrow> (string, string) table \<Rightarrow> upd_state \<Rightarrow> upd_state" where
  "saveThrottle E fs bl s = (if ue_writes E WThrottle then s\<lparr>us_failures := fs, us_blacklist := bl\<rparr> else s)"

definition backoff_step :: "nat \<Rightarrow> duration" where
  "backoff_step fails =
     (if fails \<le> length backoffSchedule then backoffSchedule ! (fails - 1) else last backoffSchedule)"

text \<open>The loop over the failure map that looks for the entry to drop.\<close>

definition oldest_failure :: "(string, throttleFailure) table \<Rightarrow> string" where
  "oldest_failure fs = fst (fold (\<lambda>(v, ff) (oldest, t).
      if oldest = [] \<or> tf_NextTry ff < t then (v, tf_NextTry ff) else (oldest, t)) fs ([], zeroTime))"

definition record_entry :: "string \<Rightarrow> go_time \<Rightarrow> (string, throttleFailure) table \<Rightarrow> (string, throttleFailure) table" where
  "record_entry version now fs =
     (let n = (case tget fs version of None \<Rightarrow> 0 | Some f \<Rightarrow> tf_Fails f) + 1
      in tput version \<lparr>tf_Fails = n, tf_NextTry = now + backoff_step n\<rparr> fs)"

definition recordFailure :: "upd_env \<Rightarrow> string \<Rightarrow> go_time \<Rightarrow> upd_state \<Rightarrow> upd_state" where
  "recordFailure E version now s =
     (if version = [] then s
      else
        let fs = record_entry version now (us_failures s);
            fs1 = (if length fs > 8 then tdel (oldest_failure fs) fs else fs)
        in saveThrottle E fs1 (us_blacklist s) s)"

definition Throttled :: "string \<Rightarrow> go_time \<Rightarrow> upd_state \<Rightarrow> duration option" where
  "Throttled version now s =
     (case tget (us_failures s) version of
        None \<Rightarrow> None
      | Some f \<Rightarrow> let wait = time_Sub (tf_NextTry f) now in if wait > 0 then Some wait else None)"

definition ClearThrottle :: "upd_env \<Rightarrow> string \<Rightarrow> upd_state \<Rightarrow> upd_state" where
  "ClearThrottle E version s =
     (if tget (us_failures s) version = None then s
      else saveThrottle E (tdel version (us_failures s)) (us_blacklist s) s)"

definition Blacklisted :: "string \<Rightarrow> upd_state \<Rightarrow> string option" where
  "Blacklisted version s = tget (us_blacklist s) version"

definition BlacklistVersion :: "upd_env \<Rightarrow> string \<Rightarrow> string \<Rightarrow> upd_state \<Rightarrow> upd_state" where
  "BlacklistVersion E version reason s =
     saveThrottle E (us_failures s) (tput version reason (us_blacklist s)) s"

subsection \<open>Download and rollback source\<close>

definition HasPrefix :: "string \<Rightarrow> string \<Rightarrow> bool" where
  "HasPrefix s p \<longleftrightarrow> take (length p) s = p"

definition TrimRight :: "char \<Rightarrow> string \<Rightarrow> string" where
  "TrimRight c s = rev (dropWhile ((=) c) (rev s))"

definition resolveURL :: "upd_env \<Rightarrow> Updater \<Rightarrow> string \<Rightarrow> upd_error + string" where
  "resolveURL E u raw =
     (if raw = [] then Inl EEmptyURL
      else if \<not> HasPrefix raw ''http://'' \<and> \<not> HasPrefix raw ''https://''
      then Inr (TrimRight CHR ''/'' (u_ServerURL u) @ raw)
      else case (ue_urlHost E (u_ServerURL u), ue_urlHost E raw) of
             (Some srv, Some got) \<Rightarrow> if ToLower got = ToLower srv then Inr raw else Inl EOrigin
           | _ \<Rightarrow> Inl EParse)"

definition LimitReader :: "bytes \<Rightarrow> bytes" where
  "LimitReader body = (if int (length body) \<le> downloadLimit then body else take (nat downloadLimit) body)"

definition download :: "upd_env \<Rightarrow> Updater \<Rightarrow> SetupManifest \<Rightarrow> upd_state \<Rightarrow> (upd_error + string) \<times> upd_state" where
  "download E u m s =
     (case resolveURL E u (mf_URL m) of
        Inl e \<Rightarrow> (Inl e, s)
      | Inr url \<Rightarrow>
          (case ue_get E url of
             None \<Rightarrow> (Inl EDownload, s)
           | Some body \<Rightarrow>
               let dst = cacheInstallerName (ue_platform E) (mf_Version m) (upd_channel u)
               in if ue_writes E (WStaging dst)
                  then (Inr dst, s\<lparr>us_staging := tput dst (LimitReader body) (us_staging s)\<rparr>)
                  else (Inl EWrite, s)))"

definition fileSHA256 :: "upd_env \<Rightarrow> string \<Rightarrow> upd_state \<Rightarrow> string option" where
  "fileSHA256 E staged s = map_option (ue_sha256 E) (tget (us_staging s) staged)"

definition CopyToCache :: "upd_env \<Rightarrow> string \<Rightarrow> upd_state \<Rightarrow> upd_error option \<times> upd_state" where
  "CopyToCache E src s =
     (case tget (us_staging s) src of
        None \<Rightarrow> (Some ERead, s)
      | Some b \<Rightarrow>
          if \<not> ue_writes E (WCache src) then (Some EWrite, s)
          else (None, s\<lparr>us_cache := tfilter (\<lambda>n _. ToLower n = ToLower src) (tput src b (us_cache s))\<rparr>))"

definition rollback_ready :: "upd_env \<Rightarrow> string \<Rightarrow> bool" where
  "rollback_ready E v = (case ue_rollbackReady E of None \<Rightarrow> False | Some f \<Rightarrow> f v)"

definition ensureRollbackSource :: "upd_env \<Rightarrow> Updater \<Rightarrow> upd_state \<Rightarrow> upd_error option \<times> upd_state" where
  "ensureRollbackSource E u s =
     (if CachedInstaller (ue_platform E) (u_Version u) s \<noteq> None then (None, s)
      else if rollback_ready E (u_Version u) then (None, s)
      else case StagedInstaller (ue_platform E) (u_Version u) s of
        Some staged \<Rightarrow> CopyToCache E staged s
      | None \<Rightarrow>
          (case ue_manifest E of
             None \<Rightarrow> (Some EFetch, s)
           | Some m \<Rightarrow>
               if mf_Version m \<noteq> u_Version u then (Some ENoSource, s)
               else case download E u m s of
                 (Inl e, s1) \<Rightarrow> (Some e, s1)
               | (Inr staged, s1) \<Rightarrow>
                   (case fileSHA256 E staged s1 of
                      None \<Rightarrow> (Some EHash, s1)
                    | Some got \<Rightarrow>
                        if \<not> hashEqual got (mf_SHA256 m) then (Some EHash, s1) else CopyToCache E staged s1)))"

definition stashRollbackSource :: "upd_env \<Rightarrow> Updater \<Rightarrow> upd_state \<Rightarrow> upd_error option \<times> upd_state" where
  "stashRollbackSource E u s =
     (case CachedInstaller (ue_platform E) (u_Version u) s of
        None \<Rightarrow> (if rollback_ready E (u_Version u) then None else Some ENoSource, s)
      | Some src \<Rightarrow>
          (case tget (us_cache s) src of
             None \<Rightarrow> (Some ERead, s)
           | Some b \<Rightarrow> if ue_writes E (WStash src) then (None, s\<lparr>us_stash := tput src b (us_stash s)\<rparr>)
                       else (Some EWrite, s)))"

subsection \<open>Installing, rolling back, finishing\<close>

definition execInstaller :: "upd_env \<Rightarrow> string \<Rightarrow> bytes \<Rightarrow> upd_state \<Rightarrow> string option \<times> upd_state" where
  "execInstaller E name b s =
     (ue_exec E name b, upd_log [UExec name b] (s\<lparr>us_cache := ue_installed E name b (us_cache s)\<rparr>))"

text \<open>The three places where \<open>Rollback\<close> looks for an installer, in order.\<close>

definition rollback_source :: "upd_env \<Rightarrow> string \<Rightarrow> upd_state \<Rightarrow> (string \<times> bytes option) option" where
  "rollback_source E from s =
     (case CachedInstaller (ue_platform E) from s of
        Some n \<Rightarrow> Some (n, tget (us_cache s) n)
      | None \<Rightarrow>
          (case CachedRollbackInstaller (ue_platform E) from s of
             Some n \<Rightarrow> Some (n, tget (us_stash s) n)
           | None \<Rightarrow>
               (case StagedInstaller (ue_platform E) from s of
                  Some n \<Rightarrow> Some (n, tget (us_staging s) n)
                | None \<Rightarrow> None)))"

definition Rollback :: "upd_env \<Rightarrow> PendingUpdate \<Rightarrow> string \<Rightarrow> upd_state \<Rightarrow> upd_error option \<times> upd_state" where
  "Rollback E p reason s =
     (let s1 = BlacklistVersion E (pu_To p) (''rolled back: '' @ reason)
           (upd_audit E \<lparr>ua_Event = ''update_rollback'', ua_From = pu_From p, ua_To = pu_To p, ua_Reason = reason\<rparr> s)
      in case rollback_source E (pu_From p) s1 of
           None \<Rightarrow>
             (case ue_rollbackFallback E of
                Some f \<Rightarrow>
                  let s2 = upd_log [UFallback (pu_From p)] (deleteWatchdogTask (DeletePending s1))
                  in (map_option ERollback (f (pu_From p)), s2)
              | None \<Rightarrow> (Some ENoSource, s1))
         | Some (n, b) \<Rightarrow>
             (case execInstaller E n (case b of None \<Rightarrow> [] | Some x \<Rightarrow> x) (deleteWatchdogTask (DeletePending s1)) of
                (e, s2) \<Rightarrow> (map_option EInstaller e, s2)))"

definition applyUpdate :: "upd_env \<Rightarrow> Updater \<Rightarrow> SetupManifest \<Rightarrow> go_time \<Rightarrow> upd_state \<Rightarrow> upd_error option \<times> upd_state" where
  "applyUpdate E u m t1 s =
     (case download E u m s of
        (Inl e, s1) \<Rightarrow> (Some e, recordFailure E (mf_Version m) t1 s1)
      | (Inr staged, s1) \<Rightarrow>
          (case tget (us_staging s1) staged of
             None \<Rightarrow> (Some ERead, recordFailure E (mf_Version m) t1 s1)
           | Some b \<Rightarrow>
               if \<not> hashEqual (ue_sha256 E b) (mf_SHA256 m) then
                 (Some EHash,
                  recordFailure E (mf_Version m) t1
                    (BlacklistVersion E (mf_Version m)
                       (''sha256 mismatch (manifest='' @ mf_SHA256 m @ '' got='' @ ue_sha256 E b @ '')'')
                       (s1\<lparr>us_staging := tdel staged (us_staging s1)\<rparr>)))
               else
                 (case ensureRollbackSource E u s1 of
                    (Some e, s2) \<Rightarrow> (Some e, recordFailure E (mf_Version m) t1 s2)
                  | (None, s2) \<Rightarrow>
                      let s3 = snd (stashRollbackSource E u s2);
                          p = \<lparr>pu_From = u_Version u, pu_To = mf_Version m, pu_StartedAt = t1, pu_Deadline = t1 + pendingWindow u\<rparr>
                      in (case SavePending E p s3 of
                            (False, s4) \<Rightarrow> (Some EWrite, s4)
                          | (True, s4) \<Rightarrow>
                              if \<not> ue_watchdog E then
                                (Some EWatchdog, recordFailure E (mf_Version m) t1 (DeletePending s4))
                              else
                                (case execInstaller E staged b (s4\<lparr>us_watchdog := Some (pu_Deadline p + WatchdogRestartGrace)\<rparr>) of
                                   (None, s5) \<Rightarrow> (None, s5)
                                 | (Some err, s5) \<Rightarrow>
                                     (case Rollback E p (''installer failed: '' @ err)
                                         (BlacklistVersion E (mf_Version m) (''installer failed: '' @ err) s5) of
                                        (Some _, s6) \<Rightarrow> (Some (EInstaller err), s6)
                                      | (None, s6) \<Rightarrow> (Some (ERolledBack err), s6)))))))"

text \<open>The gates before an update. \<open>busy\<close> is the process-wide flag, held from here to the end.\<close>

definition orchestrateTrigger ::
  "upd_env \<Rightarrow> Updater \<Rightarrow> bool \<Rightarrow> bool \<Rightarrow> SetupManifest \<Rightarrow> go_time \<Rightarrow> go_time \<Rightarrow> upd_state \<Rightarrow> upd_error option \<times> upd_state" where
  "orchestrateTrigger E u busy force m t0 t1 s =
     (if busy then (None, s)
      else if LoadPending s \<noteq> None then (None, s)
      else if mf_Version m = [] \<or> mf_Version m = u_Version u then (None, s)
      else if CompareVersions (mf_Version m) (u_Version u) \<le> 0 then (None, s)
      else if ue_platform E = POther then (None, s)
      else if Blacklisted (mf_Version m) s \<noteq> None then (None, s)
      else if \<not> force \<and> Throttled (mf_Version m) t0 s \<noteq> None then (None, s)
      else applyUpdate E u m t1 s)"

definition upd_check :: "upd_env \<Rightarrow> Updater \<Rightarrow> bool \<Rightarrow> bool \<Rightarrow> go_time \<Rightarrow> go_time \<Rightarrow> upd_state \<Rightarrow> upd_error option \<times> upd_state" where
  "upd_check E u busy force t0 t1 s =
     (if LoadPending s \<noteq> None then (None, s)
      else case ue_manifest E of
             None \<Rightarrow> (Some EFetch, s)
           | Some m \<Rightarrow> orchestrateTrigger E u busy force m t0 t1 s)"

definition HandlePush :: "upd_env \<Rightarrow> Updater \<Rightarrow> bool \<Rightarrow> SetupManifest \<Rightarrow> go_time \<Rightarrow> go_time \<Rightarrow> upd_state \<Rightarrow> upd_error option \<times> upd_state" where
  "HandlePush E u busy push t0 t1 s = orchestrateTrigger E u busy False push t0 t1 s"

definition finalize :: "upd_env \<Rightarrow> PendingUpdate \<Rightarrow> upd_state \<Rightarrow> upd_state" where
  "finalize E p s =
     (let s1 = (case StagedInstaller (ue_platform E) (pu_To p) s of None \<Rightarrow> s | Some st \<Rightarrow> snd (CopyToCache E st s));
          s2 = (deleteWatchdogTask (DeletePending s1))\<lparr>us_stash := []\<rparr>
      in upd_audit E \<lparr>ua_Event = ''update_ok'', ua_From = pu_From p, ua_To = pu_To p, ua_Reason = []\<rparr>
           (ClearThrottle E (pu_To p) s2))"

text \<open>The health polls of the self-check: per iteration whether the services are healthy, the clock
  and whether the context is cancelled. At the end of the list the context is cancelled during the
  wait.\<close>

datatype health_verdict = HealthOK | HealthBad | HealthInterrupted

fun health_loop :: "go_time \<Rightarrow> (bool \<times> go_time \<times> bool) list \<Rightarrow> health_verdict" where
  "health_loop deadline [] = HealthInterrupted"
| "health_loop deadline ((healthy, now, cancelled) # polls) =
     (if healthy then HealthOK
      else if now > deadline \<or> cancelled then (if cancelled then HealthInterrupted else HealthBad)
      else health_loop deadline polls)"

definition SelfCheck :: "upd_env \<Rightarrow> Updater \<Rightarrow> go_time \<Rightarrow> duration \<Rightarrow> (bool \<times> go_time \<times> bool) list \<Rightarrow> upd_state \<Rightarrow> upd_state" where
  "SelfCheck E u now window polls s =
     (case LoadPending s of
        None \<Rightarrow> s
      | Some p \<Rightarrow>
          if pu_To p \<noteq> u_Version u then s
          else case health_loop (now + window) polls of
                 HealthOK \<Rightarrow> finalize E p s
               | HealthInterrupted \<Rightarrow> s
               | HealthBad \<Rightarrow> snd (Rollback E p ''self-check: services unhealthy'' s))"

definition StartupPendingCheck :: "upd_env \<Rightarrow> Updater \<Rightarrow> go_time \<Rightarrow> upd_state \<Rightarrow> upd_state" where
  "StartupPendingCheck E u now s =
     (case LoadPending s of
        None \<Rightarrow> s
      | Some p \<Rightarrow>
          if time_Sub now (pu_StartedAt p) > PendingMaxAge
          then snd (Rollback E p ''pending expired >24h (watchdog unavailable)'' s)
          else if pu_To p \<noteq> u_Version u \<and> pu_From p \<noteq> u_Version u
          then snd (Rollback E p ''version mismatch: self is neither pending.from nor pending.to'' s)
          else s)"

subsection \<open>What the operations leave alone\<close>

lemma upd_log_sel [simp]:
  "us_fx (upd_log fx s) = us_fx s @ fx" "us_pending (upd_log fx s) = us_pending s" "us_cache (upd_log fx s) = us_cache s"
  "us_stash (upd_log fx s) = us_stash s" "us_staging (upd_log fx s) = us_staging s" "us_watchdog (upd_log fx s) = us_watchdog s"
  "us_failures (upd_log fx s) = us_failures s" "us_blacklist (upd_log fx s) = us_blacklist s"
  by (simp_all add: upd_log_def)

lemma saveThrottle_sel [simp]:
  "us_fx (saveThrottle E f b s) = us_fx s" "us_pending (saveThrottle E f b s) = us_pending s"
  "us_cache (saveThrottle E f b s) = us_cache s" "us_stash (saveThrottle E f b s) = us_stash s"
  "us_staging (saveThrottle E f b s) = us_staging s" "us_watchdog (saveThrottle E f b s) = us_watchdog s"
  by (simp_all add: saveThrottle_def)

lemma recordFailure_sel [simp]:
  "us_fx (recordFailure E v t s) = us_fx s" "us_pending (recordFailure E v t s) = us_pending s"
  "us_blacklist (recordFailure E v t s) = us_blacklist s"
  by (simp_all add: recordFailure_def Let_def saveThrottle_def)

lemma BlacklistVersion_sel [simp]:
  "us_fx (BlacklistVersion E v r s) = us_fx s" "us_pending (BlacklistVersion E v r s) = us_pending s"
  "us_cache (BlacklistVersion E v r s) = us_cache s" "us_stash (BlacklistVersion E v r s) = us_stash s"
  "us_staging (BlacklistVersion E v r s) = us_staging s" "us_watchdog (BlacklistVersion E v r s) = us_watchdog s"
  by (simp_all add: BlacklistVersion_def)

lemma upd_audit_sel [simp]:
  "us_pending (upd_audit E a s) = us_pending s" "us_cache (upd_audit E a s) = us_cache s"
  "us_stash (upd_audit E a s) = us_stash s" "us_staging (upd_audit E a s) = us_staging s"
  "us_watchdog (upd_audit E a s) = us_watchdog s" "us_blacklist (upd_audit E a s) = us_blacklist s"
  "us_failures (upd_audit E a s) = us_failures s"
  by (simp_all add: upd_audit_def)

lemma deletes_sel [simp]:
  "us_fx (DeletePending s) = us_fx s" "us_pending (DeletePending s) = None" "us_cache (DeletePending s) = us_cache s"
  "us_stash (DeletePending s) = us_stash s" "us_staging (DeletePending s) = us_staging s"
  "us_watchdog (DeletePending s) = us_watchdog s" "us_blacklist (DeletePending s) = us_blacklist s"
  "us_failures (DeletePending s) = us_failures s"
  "us_fx (deleteWatchdogTask s) = us_fx s" "us_pending (deleteWatchdogTask s) = us_pending s"
  "us_cache (deleteWatchdogTask s) = us_cache s" "us_stash (deleteWatchdogTask s) = us_stash s"
  "us_staging (deleteWatchdogTask s) = us_staging s" "us_watchdog (deleteWatchdogTask s) = None"
  "us_blacklist (deleteWatchdogTask s) = us_blacklist s" "us_failures (deleteWatchdogTask s) = us_failures s"
  by (simp_all add: DeletePending_def deleteWatchdogTask_def)

text \<open>Before an installer runs, only staging, cache and stash change.\<close>

definition files_only :: "upd_state \<Rightarrow> upd_state \<Rightarrow> bool" where
  "files_only s s' \<longleftrightarrow> (\<exists>st ca sh. s' = s\<lparr>us_staging := st, us_cache := ca, us_stash := sh\<rparr>)"

lemma files_only_refl: "files_only s s"
  unfolding files_only_def
  by (rule exI [of _ "us_staging s"], rule exI [of _ "us_cache s"], rule exI [of _ "us_stash s"]) simp

lemma files_only_trans: "files_only s s' \<Longrightarrow> files_only s' s'' \<Longrightarrow> files_only s s''"
  unfolding files_only_def by (elim exE) (auto intro!: exI)

lemma files_only_upd:
  "files_only s (s\<lparr>us_staging := a\<rparr>)" "files_only s (s\<lparr>us_cache := b\<rparr>)" "files_only s (s\<lparr>us_stash := c\<rparr>)"
  unfolding files_only_def
  by (rule exI [of _ a], rule exI [of _ "us_cache s"], rule exI [of _ "us_stash s"], simp)
    (rule exI [of _ "us_staging s"], rule exI [of _ b], rule exI [of _ "us_stash s"], simp,
     rule exI [of _ "us_staging s"], rule exI [of _ "us_cache s"], rule exI [of _ c], simp)

lemma files_only_sel:
  "files_only s s' \<Longrightarrow> us_fx s' = us_fx s \<and> us_pending s' = us_pending s \<and> us_failures s' = us_failures s
     \<and> us_blacklist s' = us_blacklist s \<and> us_watchdog s' = us_watchdog s \<and> us_audit s' = us_audit s"
  by (auto simp: files_only_def)

lemma download_files: "files_only s (snd (download E u m s))"
  by (auto simp: download_def Let_def files_only_refl files_only_upd split: sum.splits option.splits)

lemma CopyToCache_files: "files_only s (snd (CopyToCache E n s))"
  by (auto simp: CopyToCache_def files_only_refl files_only_upd split: option.splits)

lemma stash_files: "files_only s (snd (stashRollbackSource E u s))"
  by (auto simp: stashRollbackSource_def files_only_refl files_only_upd split: option.splits)

lemma ensure_files: "files_only s (snd (ensureRollbackSource E u s))"
proof -
  have "files_only s (snd (CopyToCache E n s1))" if "download E u m s = (x, s1)" for n m x s1
    using that download_files [of s E u m] CopyToCache_files files_only_trans by (metis snd_conv)
  moreover have "files_only s s1" if "download E u m s = (x, s1)" for m x s1
    using that download_files [of s E u m] by simp
  ultimately show ?thesis
    unfolding ensureRollbackSource_def
    by (auto simp: files_only_refl CopyToCache_files split: option.splits prod.splits sum.splits)
qed

lemma cacheInstallerName_channel:
  "cacheInstallerName p v c = cacheInstallerName p v ''stable'' \<or> cacheInstallerName p v c = cacheInstallerName p v ''dev''"
  by (simp add: cacheInstallerName_def split: platform.splits)

lemma findInstaller_named: "tget d (cacheInstallerName p v c) \<noteq> None \<Longrightarrow> findInstaller p d v \<noteq> None"
  using cacheInstallerName_channel [of p v c] by (auto simp: findInstaller_def)

lemma insert_name_set [simp]: "set (insert_name x xs) = insert x (set xs)"
  by (induction xs) auto

lemma ReadDir_set [simp]: "set (ReadDir d) = set (tkeys d)"
proof -
  have "set (foldr insert_name ks []) = set ks" for ks by (induction ks) auto
  then show ?thesis by (simp add: ReadDir_def)
qed

lemma findInstaller_in: "findInstaller p d v = Some n \<Longrightarrow> tget d n \<noteq> None"
  using tbl.keys_get [of n d] by (auto simp: findInstaller_def find_Some_iff split: if_splits) (metis ReadDir_set nth_mem option.distinct(1))+

text \<open>A file found in one directory is found in a directory that holds just this file.\<close>

lemma findInstaller_single: "findInstaller p d v = Some n \<Longrightarrow> findInstaller p [(n, b)] v = Some n"
  by (auto simp: findInstaller_def ReadDir_def find_Some_iff split: if_splits)

lemma ensure_source:
  assumes "ensureRollbackSource E u s = (None, s')" "\<not> rollback_ready E (u_Version u)"
  shows "CachedInstaller (ue_platform E) (u_Version u) s' \<noteq> None \<or> StagedInstaller (ue_platform E) (u_Version u) s' \<noteq> None"
proof -
  have copy: "us_staging s2 = us_staging s1" if "CopyToCache E n s1 = (r, s2)" for n s1 r s2
    using that by (auto simp: CopyToCache_def split: option.splits if_splits)
  have down: "StagedInstaller (ue_platform E) (mf_Version m) s1 \<noteq> None" if "download E u m s = (Inr n, s1)" for m n s1
    using that findInstaller_named [of "us_staging s1" "ue_platform E" "mf_Version m" "upd_channel u"]
    by (auto simp: download_def StagedInstaller_def Let_def split: sum.splits option.splits if_splits)
  show ?thesis
    using assms down unfolding ensureRollbackSource_def
    by (auto simp: StagedInstaller_def dest: copy split: if_splits option.splits prod.splits sum.splits)
      (metis copy option.distinct(1))
qed

subsection \<open>Runs of the installer\<close>

lemma Rollback_fx: "\<exists>fx. us_fx (snd (Rollback E p reason s)) = us_fx s @ fx"
  by (auto simp: Rollback_def Let_def upd_audit_def execInstaller_def split: option.splits prod.splits)

lemma applyUpdate_prepared:
  assumes "download E u m s = (Inr staged, s1)" "tget (us_staging s1) staged = Some b"
    and "hashEqual (ue_sha256 E b) (mf_SHA256 m)" "ensureRollbackSource E u s1 = (None, s2)"
    and "ue_writes E WPending" "ue_watchdog E"
  shows "applyUpdate E u m t1 s =
     (let p = \<lparr>pu_From = u_Version u, pu_To = mf_Version m, pu_StartedAt = t1, pu_Deadline = t1 + pendingWindow u\<rparr>;
          s5 = snd (execInstaller E staged b ((snd (stashRollbackSource E u s2))
            \<lparr>us_pending := Some p, us_watchdog := Some (pu_Deadline p + WatchdogRestartGrace)\<rparr>))
      in case ue_exec E staged b of
           None \<Rightarrow> (None, s5)
         | Some err \<Rightarrow>
             (case Rollback E p (''installer failed: '' @ err) (BlacklistVersion E (mf_Version m) (''installer failed: '' @ err) s5) of
                (Some _, s6) \<Rightarrow> (Some (EInstaller err), s6)
              | (None, s6) \<Rightarrow> (Some (ERolledBack err), s6)))"
  using assms
  by (simp add: applyUpdate_def SavePending_def execInstaller_def Let_def split: option.splits)

text \<open>An update that does not get as far as the installer runs nothing, sets no pending mark and reports
  an error.\<close>

lemma applyUpdate_cases:
  obtains (stopped) "us_fx (snd (applyUpdate E u m t1 s)) = us_fx s" "fst (applyUpdate E u m t1 s) \<noteq> None"
      "us_pending (snd (applyUpdate E u m t1 s)) = us_pending s \<or> us_pending (snd (applyUpdate E u m t1 s)) = None"
  | (ran) staged s1 s2 b where "download E u m s = (Inr staged, s1)" "tget (us_staging s1) staged = Some b"
      "hashEqual (ue_sha256 E b) (mf_SHA256 m)" "ensureRollbackSource E u s1 = (None, s2)"
      "ue_writes E WPending" "ue_watchdog E"
proof -
  obtain r1 s1 where d: "download E u m s = (r1, s1)" by (cases "download E u m s")
  have f1: "us_fx s1 = us_fx s" "us_pending s1 = us_pending s"
    using download_files [of s E u m] files_only_sel d by fastforce+
  show thesis
  proof (cases r1)
    case (Inl e)
    then show thesis using d f1 by (intro stopped) (simp_all add: applyUpdate_def)
  next
    case (Inr staged)
    show thesis
    proof (cases "\<exists>b. tget (us_staging s1) staged = Some b \<and> hashEqual (ue_sha256 E b) (mf_SHA256 m)")
      case False
      then show thesis using d f1 Inr by (intro stopped) (auto simp: applyUpdate_def split: option.splits)
    next
      case True
      then obtain b where b: "tget (us_staging s1) staged = Some b" "hashEqual (ue_sha256 E b) (mf_SHA256 m)" by blast
      obtain r2 s2 where e: "ensureRollbackSource E u s1 = (r2, s2)" by (cases "ensureRollbackSource E u s1")
      have f2: "us_fx s2 = us_fx s" "us_pending s2 = us_pending s"
        using ensure_files [of s1 E u] files_only_sel e f1 by fastforce+
      have f3: "us_fx (snd (stashRollbackSource E u s2)) = us_fx s" "us_pending (snd (stashRollbackSource E u s2)) = us_pending s"
        using stash_files [of s2 E u] files_only_sel f2 by fastforce+
      show thesis
      proof (cases "r2 = None \<and> ue_writes E WPending \<and> ue_watchdog E")
        case True
        then show thesis using ran d Inr b e by simp
      next
        case False
        then show thesis using d Inr b e f2 f3
          by (intro stopped) (auto simp: applyUpdate_def SavePending_def Let_def split: option.splits)
      qed
    qed
  qed
qed

lemma Rollback_blacklists:
  "ue_writes E WThrottle \<Longrightarrow> Blacklisted (pu_To p) (snd (Rollback E p reason s)) \<noteq> None"
  by (auto simp: Rollback_def Let_def BlacklistVersion_def saveThrottle_def Blacklisted_def execInstaller_def
      split: option.splits prod.splits)

lemma Rollback_found:
  assumes "\<And>x. us_cache x = us_cache s \<Longrightarrow> us_stash x = us_stash s \<Longrightarrow> rollback_source E (pu_From p) x = Some (n, Some b)"
  shows "\<exists>fx. us_fx (snd (Rollback E p reason s)) = us_fx s @ fx @ [UExec n b]"
    and "fst (Rollback E p reason s) = map_option EInstaller (ue_exec E n b)"
    and "us_pending (snd (Rollback E p reason s)) = None" "us_watchdog (snd (Rollback E p reason s)) = None"
    and "ue_writes E WThrottle \<Longrightarrow> Blacklisted (pu_To p) (snd (Rollback E p reason s)) = Some (''rolled back: '' @ reason)"
proof -
  define s1 where "s1 = BlacklistVersion E (pu_To p) (''rolled back: '' @ reason)
      (upd_audit E \<lparr>ua_Event = ''update_rollback'', ua_From = pu_From p, ua_To = pu_To p, ua_Reason = reason\<rparr> s)"
  have "rollback_source E (pu_From p) s1 = Some (n, Some b)"
    by (rule assms) (simp_all add: s1_def)
  then have R: "Rollback E p reason s = (map_option EInstaller (ue_exec E n b),
      snd (execInstaller E n b (deleteWatchdogTask (DeletePending s1))))"
    unfolding Rollback_def Let_def s1_def [symmetric] by (simp add: execInstaller_def)
  have "\<exists>fx. us_fx s1 = us_fx s @ fx" by (simp add: s1_def upd_audit_def)
  then show "\<exists>fx. us_fx (snd (Rollback E p reason s)) = us_fx s @ fx @ [UExec n b]"
    by (auto simp: R execInstaller_def)
  show "fst (Rollback E p reason s) = map_option EInstaller (ue_exec E n b)"
    "us_pending (snd (Rollback E p reason s)) = None" "us_watchdog (snd (Rollback E p reason s)) = None"
    by (simp_all add: R execInstaller_def)
  show "ue_writes E WThrottle \<Longrightarrow> Blacklisted (pu_To p) (snd (Rollback E p reason s)) = Some (''rolled back: '' @ reason)"
    by (simp add: R execInstaller_def Blacklisted_def s1_def BlacklistVersion_def saveThrottle_def)
qed

lemma execInstaller_sel [simp]:
  "us_fx (snd (execInstaller E n b s)) = us_fx s @ [UExec n b]" "us_pending (snd (execInstaller E n b s)) = us_pending s"
  "us_watchdog (snd (execInstaller E n b s)) = us_watchdog s" "us_stash (snd (execInstaller E n b s)) = us_stash s"
  "us_staging (snd (execInstaller E n b s)) = us_staging s"
  "us_cache (snd (execInstaller E n b s)) = ue_installed E n b (us_cache s)"
  by (simp_all add: execInstaller_def)

lemma find_member: "find P xs = Some x \<Longrightarrow> x \<in> set xs \<and> P x"
  by (induction xs) (auto split: if_splits)

lemma findInstaller_name:
  "findInstaller p d v = Some n \<Longrightarrow> n = cacheInstallerName p v ''stable'' \<or> n = cacheInstallerName p v ''dev''
     \<or> HasSuffix (ToLower n) (ToLower (''-'' @ v @ installerSuffix p))"
  unfolding findInstaller_def by (auto split: if_splits dest: find_member)

lemma findInstaller_mono:
  assumes "findInstaller p d v = Some n" "tget d' n \<noteq> None"
  shows "findInstaller p d' v \<noteq> None"
  using findInstaller_name [OF assms(1)]
proof (elim disjE)
  assume h: "HasSuffix (ToLower n) (ToLower (''-'' @ v @ installerSuffix p))"
  have "n \<in> set (ReadDir d')" using assms(2) tbl.keys_get [of n d'] by simp
  with h have "find (\<lambda>n. HasSuffix (ToLower n) (ToLower (''-'' @ v @ installerSuffix p))) (ReadDir d') \<noteq> None"
    unfolding find_None_iff by blast
  then show ?thesis unfolding findInstaller_def by simp
qed (use assms(2) findInstaller_named in blast)+

lemma CopyToCache_ok:
  assumes "\<forall>f. ue_writes E f" "tok (us_cache s)" "StagedInstaller (ue_platform E) v s = Some st"
  shows "CachedInstaller (ue_platform E) v (snd (CopyToCache E st s)) \<noteq> None
     \<and> (\<forall>n \<in> set (tkeys (us_cache (snd (CopyToCache E st s)))). ToLower n = ToLower st)"
proof -
  obtain b where b: "tget (us_staging s) st = Some b"
    using findInstaller_in assms(3) unfolding StagedInstaller_def by blast
  let ?c = "tfilter (\<lambda>n _. ToLower n = ToLower st) (tput st b (us_cache s))"
  have "us_cache (snd (CopyToCache E st s)) = ?c"
    using assms(1) b by (simp add: CopyToCache_def)
  moreover have "tget ?c st = Some b" using assms(2) by (simp add: tget_tfilter)
  moreover have "ToLower n = ToLower st" if "n \<in> set (tkeys ?c)" for n
    using that by (auto simp: tkeys_def tfilter_def)
  moreover have "findInstaller (ue_platform E) ?c v \<noteq> None"
    if "tget ?c st = Some b"
    by (rule findInstaller_mono [OF assms(3) [unfolded StagedInstaller_def]]) (simp only: that option.distinct not_False_eq_True)
  ultimately show ?thesis unfolding CachedInstaller_def by metis
qed

lemma health_loop_ok:
  "health_loop d polls = HealthOK \<longleftrightarrow> (\<exists>i < length polls. fst (polls ! i)
     \<and> (\<forall>j < i. \<not> fst (polls ! j) \<and> fst (snd (polls ! j)) \<le> d \<and> \<not> snd (snd (polls ! j))))"
proof (induction polls)
  case (Cons q polls)
  obtain h t c where q: "q = (h, t, c)" by (cases q)
  have "(\<exists>i < length (q # polls). fst ((q # polls) ! i)
       \<and> (\<forall>j < i. \<not> fst ((q # polls) ! j) \<and> fst (snd ((q # polls) ! j)) \<le> d \<and> \<not> snd (snd ((q # polls) ! j))))
     \<longleftrightarrow> h \<or> (t \<le> d \<and> \<not> c \<and> health_loop d polls = HealthOK)"
    unfolding Cons.IH Ex_less_Suc2 length_Cons by (auto simp: q All_less_Suc2)
  then show ?case by (simp add: q)
qed simp

lemma download_Inr:
  "download E u m s = (Inr n, x) \<Longrightarrow> \<exists>b. x = s\<lparr>us_staging := tput n b (us_staging s)\<rparr>
     \<and> n = cacheInstallerName (ue_platform E) (mf_Version m) (upd_channel u)"
  unfolding download_def Let_def
  by (cases "resolveURL E u (mf_URL m)"; cases "ue_get E (projr (resolveURL E u (mf_URL m)))") (auto split: if_splits)

lemma ensure_hash_error:
  assumes "ensureRollbackSource E u s = (Some EHash, s1)" "\<forall>f. ue_writes E f"
  obtains m staged b where "ue_manifest E = Some m" "\<not> hashEqual (ue_sha256 E b) (mf_SHA256 m)"
    "CachedInstaller (ue_platform E) (u_Version u) s1 = None" "StagedInstaller (ue_platform E) (u_Version u) s = None"
    "us_staging s1 = tput staged b (us_staging s)" "staged = cacheInstallerName (ue_platform E) (u_Version u) (upd_channel u)"
    "us_cache s1 = us_cache s"
proof -
  have noerr: "CopyToCache E n x \<noteq> (Some EHash, y)" for n x y
    using assms(2) by (auto simp: CopyToCache_def split: option.splits)
  have down: "e \<noteq> EHash" if "download E u m s = (Inl e, x)" for m e x
    using that by (auto simp: download_def resolveURL_def Let_def split: sum.splits option.splits if_splits)
  have c: "CachedInstaller (ue_platform E) (u_Version u) s = None" "\<not> rollback_ready E (u_Version u)"
    using assms(1) by (auto simp: ensureRollbackSource_def split: if_splits)
  note ens = ensureRollbackSource_def [of E u s] c
  have st: "StagedInstaller (ue_platform E) (u_Version u) s = None"
  proof (rule ccontr)
    assume "StagedInstaller (ue_platform E) (u_Version u) s \<noteq> None"
    then obtain n where "ensureRollbackSource E u s = CopyToCache E n s" by (auto simp: ens)
    then show False using assms(1) noerr by metis
  qed
  obtain m where m: "ue_manifest E = Some m" "mf_Version m = u_Version u"
    using assms(1) by (cases "ue_manifest E") (auto simp: ens st split: if_splits)
  obtain r x where d: "download E u m s = (r, x)" by (cases "download E u m s")
  have "r \<noteq> Inl e" for e
  proof
    assume r: "r = Inl e"
    then have "ensureRollbackSource E u s = (Some e, x)" by (simp add: ens st m d)
    then show False using assms(1) down [of m e x] d r by simp
  qed
  then obtain staged where r: "r = Inr staged" by (cases r) auto
  obtain b where x: "x = s\<lparr>us_staging := tput staged b (us_staging s)\<rparr>"
    "staged = cacheInstallerName (ue_platform E) (u_Version u) (upd_channel u)"
    using download_Inr d r m(2) by metis
  have e: "ensureRollbackSource E u s = (if \<not> hashEqual (ue_sha256 E b) (mf_SHA256 m) then (Some EHash, x) else CopyToCache E staged x)"
    using d r m x(1) by (simp add: ens st fileSHA256_def)
  have "\<not> hashEqual (ue_sha256 E b) (mf_SHA256 m) \<and> s1 = x"
    using assms(1) noerr [of staged x s1] unfolding e by (metis prod.inject)
  then show thesis
    using that [of m b staged] m(1) c(1) st x by (simp add: CachedInstaller_def)
qed

lemma record_entry_get:
  "tget (record_entry v now fs) w = (if w = v then
     (let n = (case tget fs v of None \<Rightarrow> 0 | Some f \<Rightarrow> tf_Fails f) + 1
      in Some \<lparr>tf_Fails = n, tf_NextTry = now + backoff_step n\<rparr>) else tget fs w)"
  by (simp add: record_entry_def Let_def)

lemma backoff_steps: "backoff_step 1 = Hour" "backoff_step 2 = 4 * Hour" "3 \<le> n \<Longrightarrow> backoff_step n = 24 * Hour"
proof -
  show "backoff_step n = 24 * Hour" if "3 \<le> n"
    using that by (cases "n = 3") (simp_all add: backoff_step_def backoffSchedule_def)
qed (simp_all add: backoff_step_def backoffSchedule_def)

lemma backoff_step_bounds: "1 \<le> n \<Longrightarrow> Hour \<le> backoff_step n \<and> backoff_step n \<le> 24 * Hour"
proof -
  assume "1 \<le> n"
  then consider "n = 1" | "n = 2" | "3 \<le> n" by linarith
  then show ?thesis by cases (simp_all only: backoff_steps, simp_all)
qed

subsection \<open>Properties\<close>


text \<open>A concrete environment: the server offers version 2 with content \<open>[2]\<close>, the hash of a file is a
  digit per byte, version 1 is cached, and the installer leaves only its own file in the cache.\<close>

definition demo_env :: upd_env where
  "demo_env = \<lparr>ue_platform = PWindows, ue_manifest = Some \<lparr>mf_Version = ''2'', mf_URL = ''/i'', mf_SHA256 = ''A''\<rparr>,
     ue_get = \<lambda>_. Some [2], ue_urlHost = \<lambda>_. Some ''h'', ue_sha256 = \<lambda>b. if b = [2] then ''a'' else ''b'',
     ue_writes = \<lambda>_. True, ue_exec = \<lambda>_ _. None, ue_installed = \<lambda>n b _. [(n, b)], ue_watchdog = True,
     ue_online = True, ue_rollbackReady = None, ue_rollbackFallback = None\<rparr>"

definition demo_upd :: "string \<Rightarrow> Updater" where
  "demo_upd v = \<lparr>u_ServerURL = ''https://h'', u_Version = v, u_Channel = [], u_PendingWindow = 0\<rparr>"

definition demo_files :: upd_state where
  "demo_files = \<lparr>us_pending = None, us_failures = [], us_blacklist = [], us_audit = None, us_staging = [],
     us_cache = [(''XNC-Installer-1.exe'', [1])], us_stash = [], us_watchdog = None, us_fx = []\<rparr>"

definition demo_manifest :: SetupManifest where
  "demo_manifest = \<lparr>mf_Version = ''2'', mf_URL = ''/i'', mf_SHA256 = ''A''\<rparr>"

lemma demo_run:
  "orchestrateTrigger demo_env (demo_upd ''1'') False False demo_manifest 0 0 demo_files =
     (None, demo_files\<lparr>us_pending := Some \<lparr>pu_From = ''1'', pu_To = ''2'', pu_StartedAt = 0, pu_Deadline = 15 * Minute\<rparr>,
        us_staging := [(''XNC-Installer-2.exe'', [2])], us_cache := [(''XNC-Installer-2.exe'', [2])],
        us_stash := [(''XNC-Installer-1.exe'', [1])], us_watchdog := Some (17 * Minute),
        us_fx := [UExec ''XNC-Installer-2.exe'' [2]]\<rparr>)"
  by code_simp


text \<open>A failed update can be undone: if the running version's installer was in the cache when an update
  started and all file writes succeed, then after the installer of the new version has run, whatever it
  did to the top level of the cache short of leaving an installer of the old version there, a rollback
  for any reason runs exactly the cached bytes of the old version, removes the pending mark and the
  watchdog first and blacklists the failed version.\<close>

theorem rollback_restores:
  assumes "applyUpdate E u m t1 s = (None, s')" "\<forall>f. ue_writes E f" "us_stash s = []"
    and "CachedInstaller (ue_platform E) (u_Version u) s = Some n" "tget (us_cache s) n = Some old"
    and "CachedInstaller (ue_platform E) (u_Version u) s' = None"
    and "us_pending s' = Some p"
  shows "\<exists>fx. us_fx (snd (Rollback E p reason s')) = us_fx s' @ fx @ [UExec n old]
     \<and> fst (Rollback E p reason s') = map_option EInstaller (ue_exec E n old)
     \<and> us_pending (snd (Rollback E p reason s')) = None \<and> us_watchdog (snd (Rollback E p reason s')) = None
     \<and> Blacklisted (mf_Version m) (snd (Rollback E p reason s')) = Some (''rolled back: '' @ reason)"
proof (cases rule: applyUpdate_cases [of E u m t1 s])
  case stopped
  then show ?thesis using assms(1) by simp
next
  case (ran staged s1 s2 b)
  define q where "q = \<lparr>pu_From = u_Version u, pu_To = mf_Version m, pu_StartedAt = t1, pu_Deadline = t1 + pendingWindow u\<rparr>"
  have down: "us_cache s1 = us_cache s" "us_stash s1 = us_stash s"
    using ran(1) by (auto simp: download_def Let_def split: sum.splits option.splits if_splits)
  have s2: "s2 = s1"
    using ran(4) assms(4) down(1) by (simp add: ensureRollbackSource_def CachedInstaller_def)
  have stash: "snd (stashRollbackSource E u s2) = s2\<lparr>us_stash := [(n, old)]\<rparr>"
    using assms(2,3,4,5) down by (simp add: s2 stashRollbackSource_def CachedInstaller_def)
  have ok: "ue_exec E staged b = None"
    using assms(1) unfolding applyUpdate_prepared [OF ran] Let_def by (cases "ue_exec E staged b") (auto split: prod.splits option.splits)
  have s': "s' = snd (execInstaller E staged b (s2\<lparr>us_stash := [(n, old)],
      us_pending := Some q, us_watchdog := Some (pu_Deadline q + WatchdogRestartGrace)\<rparr>))"
    using assms(1) unfolding applyUpdate_prepared [OF ran] Let_def ok option.case stash q_def by simp
  then have p: "p = q" and st: "us_stash s' = [(n, old)]" using assms(7) by simp_all
  have found: "findInstaller (ue_platform E) [(n, old)] (u_Version u) = Some n"
    using assms(4) unfolding CachedInstaller_def by (rule findInstaller_single)
  have src: "rollback_source E (pu_From p) x = Some (n, Some old)"
    if "us_cache x = us_cache s'" "us_stash x = us_stash s'" for x
    using that assms(6) st found
    by (simp add: p q_def rollback_source_def CachedInstaller_def CachedRollbackInstaller_def)
  show ?thesis
    using Rollback_found [where s = s' and reason = reason, OF src] assms(2) by (auto simp: p q_def)
qed

lemma demo_applied:
  "applyUpdate demo_env (demo_upd ''1'') demo_manifest 0 demo_files
     = orchestrateTrigger demo_env (demo_upd ''1'') False False demo_manifest 0 0 demo_files"
proof -
  have "\<not> CompareVersions ''2'' ''1'' \<le> 0" by code_simp
  then show ?thesis
    by (simp add: orchestrateTrigger_def LoadPending_def Blacklisted_def Throttled_def demo_files_def demo_manifest_def
        demo_upd_def demo_env_def)
qed

theorem rollback_restores_witness:
  "let s' = snd (applyUpdate demo_env (demo_upd ''1'') demo_manifest 0 demo_files);
       p = \<lparr>pu_From = ''1'', pu_To = ''2'', pu_StartedAt = 0, pu_Deadline = 15 * Minute\<rparr> in
   last (us_fx (snd (Rollback demo_env p ''x'' s'))) = UExec ''XNC-Installer-1.exe'' [1]"
proof -
  let ?r = "applyUpdate demo_env (demo_upd ''1'') demo_manifest 0 demo_files"
  let ?p = "\<lparr>pu_From = ''1'', pu_To = ''2'', pu_StartedAt = 0, pu_Deadline = 15 * Minute\<rparr>"
  have c: "CachedInstaller (ue_platform demo_env) (u_Version (demo_upd ''1'')) demo_files = Some ''XNC-Installer-1.exe''"
    "findInstaller PWindows [(''XNC-Installer-2.exe'', [2])] ''1'' = None"
    by code_simp+
  have "\<exists>fx. us_fx (snd (Rollback demo_env ?p ''x'' (snd ?r))) = us_fx (snd ?r) @ fx @ [UExec ''XNC-Installer-1.exe'' [1]]"
    using rollback_restores [of demo_env "demo_upd ''1''" demo_manifest 0 demo_files "snd ?r"
        "''XNC-Installer-1.exe''" "[1]" ?p "''x''", OF _ _ _ c(1)] c(2)
    unfolding demo_applied demo_run by (auto simp: demo_env_def demo_files_def demo_upd_def CachedInstaller_def)
  then show ?thesis by (auto simp: Let_def)
qed

text \<open>The new agent's self-check closes an update: with a pending update to the running version, the
  first healthy poll (after unhealthy ones before the deadline) makes it remove the pending mark, the
  watchdog, the rollback stash and the back-off, report success (or store the report when offline) and
  make the staged installer the only one in the cache, and the finished version is not installed again;
  an interrupted check changes nothing; a check that stays unhealthy beyond the deadline rolls back.\<close>

theorem self_check_outcome:
  assumes "us_pending s = Some p" "pu_To p = u_Version u" "u_Version u \<noteq> []"
    and "\<forall>f. ue_writes E f" "tok (us_cache s)"
  shows "let s' = SelfCheck E u now window polls s;
       ok = \<lparr>ua_Event = ''update_ok'', ua_From = pu_From p, ua_To = pu_To p, ua_Reason = []\<rparr> in
   (case health_loop (now + window) polls of
      HealthOK \<Rightarrow> us_pending s' = None \<and> us_watchdog s' = None \<and> us_stash s' = [] \<and> Throttled (u_Version u) t s' = None
        \<and> (if ue_online E then us_fx s' = us_fx s @ [UReport ok] else us_fx s' = us_fx s \<and> us_audit s' = Some ok)
        \<and> (\<forall>st. StagedInstaller (ue_platform E) (pu_To p) s = Some st \<longrightarrow>
             CachedInstaller (ue_platform E) (pu_To p) s' \<noteq> None
             \<and> (\<forall>n \<in> set (tkeys (us_cache s')). ToLower n = ToLower st))
        \<and> (\<forall>m force. mf_Version m = u_Version u \<longrightarrow> orchestrateTrigger E u False force m t t1 s' = (None, s'))
    | HealthInterrupted \<Rightarrow> s' = s
    | HealthBad \<Rightarrow> s' = snd (Rollback E p ''self-check: services unhealthy'' s))
   \<and> (health_loop (now + window) polls = HealthOK) = (\<exists>i < length polls. fst (polls ! i)
        \<and> (\<forall>j < i. \<not> fst (polls ! j) \<and> fst (snd (polls ! j)) \<le> now + window \<and> \<not> snd (snd (polls ! j))))"
proof -
  define s1 where "s1 = (case StagedInstaller (ue_platform E) (pu_To p) s of None \<Rightarrow> s | Some st \<Rightarrow> snd (CopyToCache E st s))"
  have L: "LoadPending s = Some p" using assms(1-3) by (simp add: LoadPending_def)
  have fin: "finalize E p s = upd_audit E \<lparr>ua_Event = ''update_ok'', ua_From = pu_From p, ua_To = pu_To p, ua_Reason = []\<rparr>
      (ClearThrottle E (pu_To p) ((deleteWatchdogTask (DeletePending s1))\<lparr>us_stash := []\<rparr>))"
    unfolding finalize_def Let_def s1_def by (rule refl)
  have "files_only s s1"
    unfolding s1_def using CopyToCache_files files_only_refl by (simp split: option.splits)
  then have fx: "us_fx s1 = us_fx s" using files_only_sel by blast
  have ct: "us_cache (ClearThrottle E v x) = us_cache x" "us_pending (ClearThrottle E v x) = us_pending x"
    "us_watchdog (ClearThrottle E v x) = us_watchdog x" "us_stash (ClearThrottle E v x) = us_stash x"
    "us_fx (ClearThrottle E v x) = us_fx x" "tget (us_failures (ClearThrottle E v x)) v = None" for v x
    using assms(4) by (simp_all add: ClearThrottle_def saveThrottle_def)
  have cache: "CachedInstaller (ue_platform E) (pu_To p) (finalize E p s) \<noteq> None
      \<and> (\<forall>n \<in> set (tkeys (us_cache (finalize E p s))). ToLower n = ToLower st)"
    if "StagedInstaller (ue_platform E) (pu_To p) s = Some st" for st
    using CopyToCache_ok [OF assms(4,5) that] that
    by (simp add: fin ct CachedInstaller_def s1_def)
  have none: "orchestrateTrigger E u False force m t t1 s' = (None, s')" if "mf_Version m = u_Version u" for m force s'
    using that by (simp add: orchestrateTrigger_def)
  have fin_sel: "us_pending (finalize E p s) = None" "us_watchdog (finalize E p s) = None" "us_stash (finalize E p s) = []"
    "Throttled (u_Version u) t (finalize E p s) = None"
    using assms(2) by (simp_all add: fin ct Throttled_def)
  have audit: "if ue_online E then us_fx (finalize E p s) = us_fx s @ [UReport \<lparr>ua_Event = ''update_ok'', ua_From = pu_From p, ua_To = pu_To p, ua_Reason = []\<rparr>]
      else us_fx (finalize E p s) = us_fx s \<and> us_audit (finalize E p s) = Some \<lparr>ua_Event = ''update_ok'', ua_From = pu_From p, ua_To = pu_To p, ua_Reason = []\<rparr>"
    using assms(4) by (simp add: fin upd_audit_def ct fx)
  have S: "SelfCheck E u now window polls s = (case health_loop (now + window) polls of
       HealthOK \<Rightarrow> finalize E p s | HealthInterrupted \<Rightarrow> s
     | HealthBad \<Rightarrow> snd (Rollback E p ''self-check: services unhealthy'' s))"
    using assms(2) by (simp add: SelfCheck_def L split: health_verdict.splits)
  show ?thesis
    unfolding health_loop_ok [symmetric] Let_def S
    using fin_sel audit cache none by (cases "health_loop (now + window) polls") auto
qed

theorem self_check_outcome_witness:
  "us_pending (SelfCheck demo_env (demo_upd ''2'') 0 Minute [(False, 2 * Second, False), (True, 4 * Second, False)]
     (demo_files\<lparr>us_pending := Some \<lparr>pu_From = ''1'', pu_To = ''2'', pu_StartedAt = 0, pu_Deadline = 15 * Minute\<rparr>\<rparr>)) = None"
  using self_check_outcome [of "demo_files\<lparr>us_pending := Some \<lparr>pu_From = ''1'', pu_To = ''2'', pu_StartedAt = 0, pu_Deadline = 15 * Minute\<rparr>\<rparr>"
      "\<lparr>pu_From = ''1'', pu_To = ''2'', pu_StartedAt = 0, pu_Deadline = 15 * Minute\<rparr>" "demo_upd ''2''" demo_env 0 Minute
      "[(False, 2 * Second, False), (True, 4 * Second, False)]"]
  by (simp add: demo_upd_def demo_env_def demo_files_def Let_def)

text \<open>Failure back-off: as long as at most eight versions have failure records, the \<open>n\<close>-th failure of a
  version blocks unforced updates to it for exactly one hour (first), four hours (second) or 24 hours
  (from the third on) after that failure, and the records of all other versions stay as they are.\<close>

theorem failure_backoff:
  assumes "v \<noteq> []" "ue_writes E WThrottle" "length (record_entry v now (us_failures s)) \<le> 8"
    and "n = (case tget (us_failures s) v of None \<Rightarrow> 0 | Some f \<Rightarrow> tf_Fails f) + 1" "now \<le> t"
  shows "let s' = recordFailure E v now s in
     (Throttled v t s' \<noteq> None) = (t < now + (if n = 1 then Hour else if n = 2 then 4 * Hour else 24 * Hour))
     \<and> (\<forall>w t'. w \<noteq> v \<longrightarrow> Throttled w t' s' = Throttled w t' s) \<and> us_blacklist s' = us_blacklist s"
proof -
  have f: "us_failures (recordFailure E v now s) = record_entry v now (us_failures s)"
    using assms(1-3) by (simp add: recordFailure_def saveThrottle_def Let_def)
  have "1 \<le> n" using assms(4) by simp
  then have step: "backoff_step n = (if n = 1 then Hour else if n = 2 then 4 * Hour else 24 * Hour)"
    using backoff_steps by auto
  have "(Throttled v t (recordFailure E v now s) \<noteq> None) = (0 < time_Sub (now + backoff_step n) t)"
    by (simp add: Throttled_def f record_entry_get assms(4) Let_def)
  also have "\<dots> = (t < now + backoff_step n)"
    using backoff_step_bounds [OF \<open>1 \<le> n\<close>] assms(5) by (auto simp: time_Sub_def maxDuration_def minDuration_def)
  finally show ?thesis
    unfolding Let_def step by (simp add: Throttled_def f record_entry_get)
qed

theorem failure_backoff_witness:
  "(Throttled ''2'' Hour (recordFailure demo_env ''2'' Second demo_files) \<noteq> None) = (Hour < Second + Hour)"
  using failure_backoff [of "''2''" demo_env Second demo_files 1 Hour]
  by (simp add: demo_env_def demo_files_def record_entry_def Let_def)

text \<open>The limit on failure records drops the wrong one: with eight versions in their 24-hour back-off,
  the record of the first failure of a ninth version is itself the one with the earliest next try, so
  it is dropped at once and the failed version is not throttled at all.\<close>

definition eight_failures :: upd_state where
  "eight_failures = demo_files\<lparr>us_failures := map (\<lambda>v. (v, \<lparr>tf_Fails = 3, tf_NextTry = 24 * Hour\<rparr>))
     [''1.1'', ''1.2'', ''1.3'', ''1.4'', ''1.5'', ''1.6'', ''1.7'', ''1.8'']\<rparr>"

theorem failure_record_lost:
  "Throttled ''2'' Second (recordFailure demo_env ''2'' 0 eight_failures) = None
   \<and> us_failures (recordFailure demo_env ''2'' 0 eight_failures) = us_failures eight_failures"
  by code_simp

text \<open>The rollback source can be a file that failed its hash check: when the download of the running
  version's installer does not have the announced hash, the update stops with an error, but the file
  stays in the staging directory, and the next attempt takes it from there into the cache as the
  rollback source without checking it.\<close>

theorem unverified_rollback_source:
  assumes "ensureRollbackSource E u s = (Some EHash, s1)" "\<forall>f. ue_writes E f" "tok (us_cache s)"
    and "ue_platform E' = ue_platform E" "\<forall>f. ue_writes E' f" "\<not> rollback_ready E' (u_Version u)"
  shows "\<exists>m staged bad s2. ue_manifest E = Some m \<and> \<not> hashEqual (ue_sha256 E bad) (mf_SHA256 m)
     \<and> ensureRollbackSource E' u s1 = (None, s2) \<and> CachedInstaller (ue_platform E) (u_Version u) s2 \<noteq> None
     \<and> tget (us_cache s2) staged = Some bad"
proof -
  obtain m staged b where m: "ue_manifest E = Some m" "\<not> hashEqual (ue_sha256 E b) (mf_SHA256 m)"
    and c: "CachedInstaller (ue_platform E) (u_Version u) s1 = None" "StagedInstaller (ue_platform E) (u_Version u) s = None"
    and st: "us_staging s1 = tput staged b (us_staging s)" "staged = cacheInstallerName (ue_platform E) (u_Version u) (upd_channel u)"
    and cache: "us_cache s1 = us_cache s"
    using ensure_hash_error [OF assms(1,2)] by blast
  obtain n where n: "findInstaller (ue_platform E) (us_staging s1) (u_Version u) = Some n"
    using findInstaller_named [of "us_staging s1" "ue_platform E" "u_Version u" "upd_channel u"] st by auto
  have "n = staged"
  proof (rule ccontr)
    assume "n \<noteq> staged"
    then have "tget (us_staging s) n \<noteq> None" using findInstaller_in [OF n] st(1) by simp
    then show False using findInstaller_mono [OF n] c(2) unfolding StagedInstaller_def by blast
  qed
  then have E': "ensureRollbackSource E' u s1 = (None, s1\<lparr>us_cache :=
      tfilter (\<lambda>x _. ToLower x = ToLower staged) (tput staged b (us_cache s1))\<rparr>)"
    using c(1) n assms(4-6) st(1)
    by (simp add: ensureRollbackSource_def CachedInstaller_def StagedInstaller_def CopyToCache_def)
  moreover have get: "tget (tfilter (\<lambda>x _. ToLower x = ToLower staged) (tput staged b (us_cache s1))) staged = Some b"
    using assms(3) cache by (simp add: tget_tfilter)
  moreover have "findInstaller (ue_platform E) (tfilter (\<lambda>x _. ToLower x = ToLower staged) (tput staged b (us_cache s1))) (u_Version u) \<noteq> None"
    by (rule findInstaller_mono [OF n]) (simp only: \<open>n = staged\<close> get option.distinct not_False_eq_True)
  ultimately show ?thesis
    using m by (intro exI [of _ m] exI [of _ staged] exI [of _ b] exI [of _ "s1\<lparr>us_cache :=
      tfilter (\<lambda>x _. ToLower x = ToLower staged) (tput staged b (us_cache s1))\<rparr>"]) (simp add: CachedInstaller_def)
qed

definition tampered_env :: upd_env where
  "tampered_env = demo_env\<lparr>ue_manifest := Some \<lparr>mf_Version = ''1'', mf_URL = ''/i'', mf_SHA256 = ''A''\<rparr>, ue_get := \<lambda>_. Some [6, 6]\<rparr>"

theorem unverified_rollback_source_witness:
  "\<exists>staged bad s2. \<not> hashEqual (ue_sha256 tampered_env bad) ''A''
     \<and> ensureRollbackSource demo_env (demo_upd ''1'')
         (snd (ensureRollbackSource tampered_env (demo_upd ''1'') (demo_files\<lparr>us_cache := []\<rparr>))) = (None, s2)
     \<and> tget (us_cache s2) staged = Some bad"
proof -
  have "fst (ensureRollbackSource tampered_env (demo_upd ''1'') (demo_files\<lparr>us_cache := []\<rparr>)) = Some EHash"
    by code_simp
  then have r: "ensureRollbackSource tampered_env (demo_upd ''1'') (demo_files\<lparr>us_cache := []\<rparr>)
     = (Some EHash, snd (ensureRollbackSource tampered_env (demo_upd ''1'') (demo_files\<lparr>us_cache := []\<rparr>)))"
    by (metis prod.collapse)
  have h: "\<forall>f. ue_writes tampered_env f" "tok (us_cache (demo_files\<lparr>us_cache := []\<rparr>))"
    "ue_platform demo_env = ue_platform tampered_env" "\<forall>f. ue_writes demo_env f" "\<not> rollback_ready demo_env (u_Version (demo_upd ''1''))"
    "map_option mf_SHA256 (ue_manifest tampered_env) = Some ''A''"
    by (simp_all add: tampered_env_def demo_env_def rollback_ready_def)
  show ?thesis
    using unverified_rollback_source [OF r h(1-5)] h(6) by (metis option.inject option.map(2))
qed

end
