(* ===== verification/Releases.thy ===== *)
theory Releases
  imports Nodes Updater
begin

text \<open>
  Releases and their distribution (\<open>src/server/internal/api/update.go\<close>, \<open>update_handlers.go\<close>,
  \<open>setup_handlers.go\<close>, the queries of \<open>releases.sql.go\<close>): upload, deletion and rollout by the
  administrator, the target version of a node, the update offer on its control connection, and the
  download and manifest end points. The last section puts the offer together with the agent's
  \<open>HandlePush\<close> of \<open>Updater\<close>.
  \<open>store\<close> holds the two release tables; an artifact is keyed by release and name. \<open>sha\<close> is
  \<open>sha256.Sum256\<close> and \<open>etx\<close> the text of \<open>err.Error()\<close> at the named place. Of
  two releases created in the same instant the first row counts as the latest.
\<close>

subsection \<open>Tables and statements\<close>

record Release =
  re_Version :: string
  re_Notes :: string
  re_CreatedAt :: go_time
  re_Channel :: string

record ReleaseArtifact =
  ar_Sha256 :: string
  ar_Size :: int
  ar_Data :: bytes

record store =
  rs_releases :: "(uuid, Release) table"
  rs_artifacts :: "(uuid \<times> string, ReleaseArtifact) table"

definition validChannels :: "string list" where
  "validChannels = [''stable'', ''dev'']"

definition GetReleaseByVersion :: "string \<Rightarrow> store \<Rightarrow> (uuid \<times> Release) option" where
  "GetReleaseByVersion v st = find (\<lambda>(i, r). re_Version r = v) (rs_releases st)"

definition by_age :: "(uuid \<times> Release) list \<Rightarrow> (uuid \<times> Release) list" where
  "by_age rs = sort_key (\<lambda>(i, r). - re_CreatedAt r) rs"

definition GetLatestReleaseByChannel :: "string \<Rightarrow> store \<Rightarrow> (uuid \<times> Release) option" where
  "GetLatestReleaseByChannel ch st =
     (case by_age (filter (\<lambda>(i, r). re_Channel r = ch) (rs_releases st)) of [] \<Rightarrow> None | r # _ \<Rightarrow> Some r)"

definition ListReleases :: "store \<Rightarrow> (uuid \<times> Release) list" where
  "ListReleases st = take 50 (by_age (rs_releases st))"

definition CreateRelease :: "uuid \<Rightarrow> go_time \<Rightarrow> string \<Rightarrow> string \<Rightarrow> string \<Rightarrow> store \<Rightarrow> db_error + uuid \<times> store" where
  "CreateRelease gen now version notes ch st =
     (if ch \<notin> set validChannels then Inl (check_violation ''releases_channel_check'')
      else case GetReleaseByVersion version st of
        Some (i, r) \<Rightarrow> Inr (i, st\<lparr>rs_releases := tput i (r\<lparr>re_Notes := notes, re_Channel := ch\<rparr>) (rs_releases st)\<rparr>)
      | None \<Rightarrow>
          if tget (rs_releases st) gen \<noteq> None then Inl (unique_violation ''releases_pkey'')
          else Inr (gen, st\<lparr>rs_releases := tput gen \<lparr>re_Version = version, re_Notes = notes, re_CreatedAt = now, re_Channel = ch\<rparr>
                     (rs_releases st)\<rparr>))"

definition DeleteRelease :: "uuid \<Rightarrow> store \<Rightarrow> nat \<times> store" where
  "DeleteRelease i st =
     (if tget (rs_releases st) i = None then (0, st)
      else (1, st\<lparr>rs_releases := tdel i (rs_releases st),
                  rs_artifacts := tfilter (\<lambda>(j, n) _. j \<noteq> i) (rs_artifacts st)\<rparr>))"

definition GetArtifact :: "uuid \<Rightarrow> string \<Rightarrow> store \<Rightarrow> ReleaseArtifact option" where
  "GetArtifact i name st = tget (rs_artifacts st) (i, name)"

definition PutArtifact :: "uuid \<Rightarrow> string \<Rightarrow> ReleaseArtifact \<Rightarrow> store \<Rightarrow> db_error + store" where
  "PutArtifact i name a st =
     (if tget (rs_releases st) i = None then Inl (foreign_key_violation ''release_artifacts_release_id_fkey'')
      else Inr (st\<lparr>rs_artifacts := tput (i, name) a (rs_artifacts st)\<rparr>))"

definition GetNodeTargetRelease :: "uuid \<Rightarrow> db \<Rightarrow> (string option \<times> string) option" where
  "GetNodeTargetRelease i d = map_option (\<lambda>n. (nd_TargetRelease n, nd_Channel n)) (tget (db_nodes d) i)"

definition SetNodeChannel :: "uuid \<Rightarrow> string \<Rightarrow> db \<Rightarrow> db" where
  "SetNodeChannel i ch d = upd_node i (\<lambda>n. n\<lparr>nd_Channel := ch\<rparr>) d"

definition SetNodeTargetRelease :: "uuid \<Rightarrow> string option \<Rightarrow> db \<Rightarrow> db" where
  "SetNodeTargetRelease i v d = upd_node i (\<lambda>n. n\<lparr>nd_TargetRelease := v\<rparr>) d"

text \<open>\<open>UPDATE nodes SET target_release = NULL\<close>\<close>

definition clearAllPins :: "db \<Rightarrow> db" where
  "clearAllPins d = d\<lparr>db_nodes := map (\<lambda>(i, n). (i, n\<lparr>nd_TargetRelease := None\<rparr>)) (db_nodes d)\<rparr>"

subsection \<open>Target version and offer\<close>

definition cliArtifactName :: string where "cliArtifactName = ''xnc-windows-amd64.exe''"
definition cliLinuxArtifactName :: string where "cliLinuxArtifactName = ''xnc-linux-amd64''"
definition setupArtifactName :: string where "setupArtifactName = ''setup.exe''"
definition linuxArtifactName :: string where "linuxArtifactName = ''xnc-linux-amd64.tar.gz''"

definition targetReleaseFor :: "request \<Rightarrow> uuid \<Rightarrow> db \<Rightarrow> store \<Rightarrow> (uuid \<times> Release) option" where
  "targetReleaseFor q i d st =
     (case rd q ''GetNodeTargetRelease'' (GetNodeTargetRelease i d) of
        None \<Rightarrow> None
      | Some (pin, ch) \<Rightarrow>
          (case (case pin of None \<Rightarrow> None | Some v \<Rightarrow> rd q ''GetReleaseByVersion'' (GetReleaseByVersion v st)) of
             Some r \<Rightarrow> Some r
           | None \<Rightarrow> rd q ''GetLatestReleaseByChannel''
               (GetLatestReleaseByChannel (if ch \<noteq> [] then ch else ''stable'') st)))"

record UpdateAvailable =
  uv_Version :: string
  uv_URL :: string
  uv_SHA256 :: string

text \<open>\<open>None\<close>: nothing is sent.\<close>

definition maybeOfferUpdate :: "request \<Rightarrow> uuid \<Rightarrow> string \<Rightarrow> db \<Rightarrow> store \<Rightarrow> UpdateAvailable option" where
  "maybeOfferUpdate q i cur d st =
     (if cur = [] then None
      else case targetReleaseFor q i d st of
        None \<Rightarrow> None
      | Some (ri, r) \<Rightarrow>
          if re_Version r = cur then None
          else
            let platform = (case rd q ''GetNodeByID'' (GetNodeByID i d) of Some n \<Rightarrow> nd_Platform n | None \<Rightarrow> ''windows'');
                artifact = (if platform = ''linux'' then linuxArtifactName else setupArtifactName);
                url = (if platform = ''linux'' then ''/installer?channel='' @ re_Channel r @ ''&platform=linux''
                       else ''/installer?channel='' @ re_Channel r)
            in (case rd q ''GetArtifact'' (GetArtifact ri artifact st) of
                  None \<Rightarrow> None
                | Some a \<Rightarrow> Some \<lparr>uv_Version = re_Version r, uv_URL = url, uv_SHA256 = ar_Sha256 a\<rparr>))"

text \<open>The offer after the greeting and the one that rides on a heartbeat; both with the target version of
  the acknowledgement.\<close>

definition hello_ack :: "request \<Rightarrow> uuid \<Rightarrow> string \<Rightarrow> db \<Rightarrow> store \<Rightarrow> string \<times> UpdateAvailable option" where
  "hello_ack q i version d st =
     (let target = (case targetReleaseFor q i d st of None \<Rightarrow> [] | Some (_, r) \<Rightarrow> re_Version r)
      in (target, if target \<noteq> [] \<and> target \<noteq> version then maybeOfferUpdate q i version d st else None))"

definition heartbeat_ack :: "request \<Rightarrow> uuid \<Rightarrow> string \<Rightarrow> string \<Rightarrow> db \<Rightarrow> store \<Rightarrow> string \<times> UpdateAvailable option" where
  "heartbeat_ack q i target version d st =
     (let target' = (case targetReleaseFor q i d st of None \<Rightarrow> target | Some (_, r) \<Rightarrow> re_Version r)
      in (target', if version \<noteq> [] \<and> target' \<noteq> [] \<and> version \<noteq> target' then maybeOfferUpdate q i version d st else None))"

subsection \<open>Upload, deletion, rollout\<close>

text \<open>A file field of the form: missing, present but not to be opened or read, or its bytes.\<close>

datatype form_file = NoFile | OpenFails | ReadFails | FileData bytes

record uploadForm =
  uf_Version :: string
  uf_Notes :: string
  uf_Channel :: string
  uf_Bundle :: bool
  uf_Setup :: form_file
  uf_Linux :: form_file
  uf_Cli :: form_file
  uf_CliLinux :: form_file

definition bad_request :: "string \<Rightarrow> api_error" where
  "bad_request m = proto_Err 400 ''INTERNAL'' m"

text \<open>One optional part of the upload: \<open>label\<close> is its name in the messages, \<open>magic\<close> its check.\<close>

definition put_part ::
  "(bytes \<Rightarrow> bytes) \<Rightarrow> (string \<Rightarrow> string) \<Rightarrow> request \<Rightarrow> uuid \<Rightarrow> form_file \<Rightarrow> string \<Rightarrow> string \<Rightarrow> (bytes \<Rightarrow> string option) \<Rightarrow>
   store \<Rightarrow> api_error option \<times> store" where
  "put_part sha etx q ri f label name magic st =
     (case f of
        NoFile \<Rightarrow> (None, st)
      | OpenFails \<Rightarrow> (None, st)
      | ReadFails \<Rightarrow> (Some (bad_request (''read '' @ label @ '': '' @ etx label)), st)
      | FileData b \<Rightarrow>
          (case magic b of
             Some m \<Rightarrow> (Some (bad_request m), st)
           | None \<Rightarrow>
               (case wr q (''PutArtifact '' @ name) (PutArtifact ri name \<lparr>ar_Sha256 = hex_EncodeToString (sha b), ar_Size = int (length b), ar_Data = b\<rparr> st) of
                  Inl _ \<Rightarrow> (Some (proto_Err 500 ''INTERNAL'' (''store '' @ label @ '': '' @ etx label)), st)
                | Inr st' \<Rightarrow> (None, st'))))"

definition gzip_magic :: "bytes \<Rightarrow> string option" where
  "gzip_magic b = (if length b < 2 \<or> b ! 0 \<noteq> 0x1f \<or> b ! 1 \<noteq> 0x8b then Some ''linux is not a gzip archive (1f 8b)'' else None)"

definition mz_magic :: "bytes \<Rightarrow> string option" where
  "mz_magic b = (if length b < 2 \<or> b ! 0 \<noteq> 77 \<or> b ! 1 \<noteq> 90 then Some ''setup is not a Windows executable (MZ)'' else None)"

definition no_magic :: "bytes \<Rightarrow> string option" where
  "no_magic b = None"

text \<open>The checks before \<open>CreateRelease\<close>: the bytes of the setup part, if any.\<close>

definition upload_setup :: "(string \<Rightarrow> string) \<Rightarrow> uploadForm \<Rightarrow> api_error + bytes option" where
  "upload_setup etx f =
     (case uf_Setup f of
        FileData b \<Rightarrow> (case mz_magic b of Some m \<Rightarrow> Inl (bad_request m) | None \<Rightarrow> Inr (Some b))
      | ReadFails \<Rightarrow> Inl (bad_request (''read setup: '' @ etx ''setup''))
      | _ \<Rightarrow> if uf_Linux f = NoFile then Inl (bad_request ''setup or linux file required'') else Inr None)"

text \<open>The parts are stored one after the other; the first error ends the request, what is stored stays.\<close>

fun put_parts :: "(store \<Rightarrow> api_error option \<times> store) list \<Rightarrow> store \<Rightarrow> api_error option \<times> store" where
  "put_parts [] st = (None, st)"
| "put_parts (p # ps) st = (case p st of (Some e, st') \<Rightarrow> (Some e, st') | (None, st') \<Rightarrow> put_parts ps st')"

definition adminUploadRelease ::
  "(bytes \<Rightarrow> bytes) \<Rightarrow> (string \<Rightarrow> string) \<Rightarrow> request \<Rightarrow> actor \<Rightarrow> uploadForm option \<Rightarrow> store \<Rightarrow> (api_error + uuid \<times> string) \<times> store" where
  "adminUploadRelease sha etx q a form st =
     (if \<not> usr_IsAdmin (snd a) then (Inl (proto_Err 403 ''FORBIDDEN'' ''admin required''), st)
      else case form of
        None \<Rightarrow> (Inl (bad_request (''invalid multipart: '' @ etx ''multipart'')), st)
      | Some f \<Rightarrow>
          if uf_Version f = [] then (Inl (bad_request ''version required''), st)
          else if uf_Bundle f then (Inl (bad_request ''bundle channel retired; upload setup.exe / linux tarball only''), st)
          else (case upload_setup etx f of
            Inl e \<Rightarrow> (Inl e, st)
          | Inr setup \<Rightarrow>
              let ch = (if uf_Channel f = [] then ''stable'' else uf_Channel f) in
              if ch \<noteq> ''stable'' \<and> ch \<noteq> ''dev'' then (Inl (bad_request ''channel must be stable or dev''), st)
              else (case wr q ''CreateRelease'' (CreateRelease (rq_new q 0) (rq_now q) (uf_Version f) (uf_Notes f) ch st) of
                Inl _ \<Rightarrow> (Inl (proto_Err 500 ''INTERNAL'' (''create release: '' @ etx ''create'')), st)
              | Inr (ri, st1) \<Rightarrow>
                  (case put_parts
                     [put_part sha etx q ri (case setup of None \<Rightarrow> NoFile | Some b \<Rightarrow> FileData b) ''setup'' setupArtifactName no_magic,
                      put_part sha etx q ri (uf_Linux f) ''linux'' linuxArtifactName gzip_magic,
                      put_part sha etx q ri (uf_Cli f) ''cli'' cliArtifactName no_magic,
                      put_part sha etx q ri (uf_CliLinux f) ''cli-linux'' cliLinuxArtifactName no_magic] st1 of
                     (Some e, st2) \<Rightarrow> (Inl e, st2)
                   | (None, st2) \<Rightarrow> (Inr (ri, uf_Version f), st2)))))"

definition adminListReleases :: "(string \<Rightarrow> string) \<Rightarrow> request \<Rightarrow> actor \<Rightarrow> store \<Rightarrow> api_error + (uuid \<times> Release) list" where
  "adminListReleases etx q a st =
     (if \<not> usr_IsAdmin (snd a) then Inl (proto_Err 403 ''FORBIDDEN'' ''admin required'')
      else if rq_fails q ''ListReleases'' then Inl (proto_Err 500 ''INTERNAL'' (etx ''list''))
      else Inr (ListReleases st))"

definition adminDeleteRelease :: "(string \<Rightarrow> string) \<Rightarrow> request \<Rightarrow> actor \<Rightarrow> string \<Rightarrow> store \<Rightarrow> (api_error + unit) \<times> store" where
  "adminDeleteRelease etx q a rid st =
     (if \<not> usr_IsAdmin (snd a) then (Inl (proto_Err 403 ''FORBIDDEN'' ''admin required''), st)
      else case rq_parse q rid of
        None \<Rightarrow> (Inl (proto_Err 404 ''NOT_FOUND'' ''release not found''), st)
      | Some i \<Rightarrow>
          if rq_fails q ''DeleteRelease'' then (Inl (proto_Err 500 ''INTERNAL'' (etx ''delete'')), st)
          else (case DeleteRelease i st of
            (n, st') \<Rightarrow> if n = 0 then (Inl (proto_Err 404 ''NOT_FOUND'' ''release not found''), st') else (Inr (), st')))"

record rolloutReq =
  ro_Version :: string
  ro_NodeID :: string
  ro_Channel :: string
  ro_Unpin :: bool

datatype rollout_answer = Unpinned | ChannelSet string string bool | Pinned string string bool

text \<open>The forced offer: to whom something was sent, and the \<open>offeredNow\<close> of the answer, which also counts
  an offer that had nothing to send.\<close>

definition force_offer :: "request \<Rightarrow> uuid \<Rightarrow> server \<Rightarrow> store \<Rightarrow> bool \<times> (nat \<times> UpdateAvailable) list" where
  "force_offer q i s st =
     (case registry_Get i (sv_reg s) of
        None \<Rightarrow> (False, [])
      | Some c \<Rightarrow>
          (case rd q ''GetNodeByID'' (GetNodeByID i (sv_db s)) of
             None \<Rightarrow> (False, [])
           | Some n \<Rightarrow> (True, case maybeOfferUpdate q i (nd_AgentVersion n) (sv_db s) st of
                            None \<Rightarrow> [] | Some u \<Rightarrow> [(conn_ptr c, u)])))"

definition adminRollout ::
  "(string \<Rightarrow> string) \<Rightarrow> request \<Rightarrow> actor \<Rightarrow> rolloutReq option \<Rightarrow> store \<Rightarrow> server
   \<Rightarrow> (api_error + rollout_answer) \<times> (nat \<times> UpdateAvailable) list \<times> server" where
  "adminRollout etx q a body st s =
     (if \<not> usr_IsAdmin (snd a) then (Inl (proto_Err 403 ''FORBIDDEN'' ''admin required''), [], s)
      else case body of
        None \<Rightarrow> (Inl (bad_request ''invalid body''), [], s)
      | Some r \<Rightarrow>
          if ro_Unpin r then
            (if rq_fails q ''clearAllPins'' then (Inl (proto_Err 500 ''INTERNAL'' (etx ''clearAllPins'')), [], s)
             else (Inr Unpinned, [], s\<lparr>sv_db := clearAllPins (sv_db s)\<rparr>))
          else if ro_NodeID r = [] then (Inl (bad_request ''nodeId required''), [], s)
          else (case rq_parse q (ro_NodeID r) of
            None \<Rightarrow> (Inl (bad_request ''invalid nodeId''), [], s)
          | Some i \<Rightarrow>
              if ro_Channel r \<noteq> [] \<and> ro_Channel r \<noteq> ''stable'' \<and> ro_Channel r \<noteq> ''dev''
              then (Inl (bad_request ''channel must be stable or dev''), [], s)
              else if ro_Channel r \<noteq> [] \<and> rq_fails q ''SetNodeChannel''
              then (Inl (proto_Err 500 ''INTERNAL'' (etx ''SetNodeChannel'')), [], s)
              else
                let s1 = (if ro_Channel r \<noteq> [] then s\<lparr>sv_db := SetNodeChannel i (ro_Channel r) (sv_db s)\<rparr> else s) in
                if ro_Version r = [] then
                  (case force_offer q i s1 st of (offered, sent) \<Rightarrow> (Inr (ChannelSet (ro_Channel r) (ro_NodeID r) offered), sent, s1))
                else if rd q ''GetReleaseByVersion'' (GetReleaseByVersion (ro_Version r) st) = None
                then (Inl (proto_Err 404 ''NOT_FOUND'' ''release not found''), [], s1)
                else if rq_fails q ''SetNodeTargetRelease''
                then (Inl (proto_Err 500 ''INTERNAL'' (etx ''SetNodeTargetRelease'')), [], s1)
                else
                  let s2 = s1\<lparr>sv_db := SetNodeTargetRelease i (Some (ro_Version r)) (sv_db s1)\<rparr> in
                  (case force_offer q i s2 st of (offered, sent) \<Rightarrow> (Inr (Pinned (ro_Version r) (ro_NodeID r) offered), sent, s2))))"

subsection \<open>Distribution\<close>

definition cliArtifactFor :: "string \<Rightarrow> string" where
  "cliArtifactFor os = (if os = ''linux'' then cliLinuxArtifactName else cliArtifactName)"

definition installerArtifactFor :: "string \<Rightarrow> string" where
  "installerArtifactFor platform = (if platform = ''linux'' then linuxArtifactName else setupArtifactName)"

definition setupChannel :: "string \<Rightarrow> string option" where
  "setupChannel query =
     (let ch = (if query = [] then ''stable'' else query) in if ch \<noteq> ''stable'' \<and> ch \<noteq> ''dev'' then None else Some ch)"

definition latestInstallerArtifact ::
  "request \<Rightarrow> string \<Rightarrow> string \<Rightarrow> store \<Rightarrow> api_error + (uuid \<times> Release) \<times> ReleaseArtifact" where
  "latestInstallerArtifact q ch artifact st =
     (case rd q ''GetLatestReleaseByChannel'' (GetLatestReleaseByChannel ch st) of
        None \<Rightarrow> Inl (proto_Err 404 ''NOT_FOUND'' ''no releases'')
      | Some r \<Rightarrow>
          (case rd q ''GetArtifact'' (GetArtifact (fst r) artifact st) of
             None \<Rightarrow> Inl (proto_Err 404 ''NOT_FOUND'' (''no '' @ artifact @ '' artifact''))
           | Some a \<Rightarrow> Inr (r, a)))"

text \<open>\<open>GET /installer\<close>: file name, hash header and body.\<close>

definition setupDownload :: "request \<Rightarrow> string \<Rightarrow> string \<Rightarrow> store \<Rightarrow> api_error + string \<times> string \<times> bytes" where
  "setupDownload q ch_query platform st =
     (case setupChannel ch_query of
        None \<Rightarrow> Inl (proto_Err 404 ''NOT_FOUND'' ''unknown channel'')
      | Some ch \<Rightarrow>
          (case latestInstallerArtifact q ch (installerArtifactFor platform) st of
             Inl e \<Rightarrow> Inl e
           | Inr ((_, r), a) \<Rightarrow>
               let suffix = (if ch = ''dev'' then ''-dev'' else []);
                   filename = (if platform = ''linux'' then ''xnc-linux-amd64'' @ suffix @ ''-'' @ re_Version r @ ''.tar.gz''
                               else ''XNC-Installer'' @ suffix @ ''-'' @ re_Version r @ ''.exe'')
               in Inr (filename, ar_Sha256 a, ar_Data a)))"

record setupManifest =
  sm_Version :: string
  sm_URL :: string
  sm_SHA256 :: string
  sm_Size :: int
  sm_ReleasedAt :: go_time

text \<open>\<open>GET /installer.json\<close>; \<open>https\<close>: by the forwarding header or TLS.\<close>

definition setupManifest_handler :: "request \<Rightarrow> bool \<Rightarrow> string \<Rightarrow> string \<Rightarrow> string \<Rightarrow> store \<Rightarrow> api_error + setupManifest" where
  "setupManifest_handler q https host ch_query platform st =
     (case setupChannel ch_query of
        None \<Rightarrow> Inl (proto_Err 404 ''NOT_FOUND'' ''unknown channel'')
      | Some ch \<Rightarrow>
          (case latestInstallerArtifact q ch (installerArtifactFor platform) st of
             Inl e \<Rightarrow> Inl e
           | Inr ((_, r), a) \<Rightarrow>
               let url = (if https then ''https'' else ''http'') @ ''://'' @ host @ ''/installer?channel='' @ ch
               in Inr \<lparr>sm_Version = re_Version r, sm_URL = (if platform = ''linux'' then url @ ''&platform=linux'' else url),
                       sm_SHA256 = ar_Sha256 a, sm_Size = ar_Size a, sm_ReleasedAt = re_CreatedAt r\<rparr>))"

definition cliLatest :: "request \<Rightarrow> string \<Rightarrow> string \<Rightarrow> store \<Rightarrow> api_error + string \<times> string \<times> int \<times> string" where
  "cliLatest q ch_query os st =
     (let ch = (if ch_query = [] then ''stable'' else ch_query) in
      case rd q ''GetLatestReleaseByChannel'' (GetLatestReleaseByChannel ch st) of
        None \<Rightarrow> Inl (proto_Err 404 ''NOT_FOUND'' ''no releases'')
      | Some (i, r) \<Rightarrow>
          (case rd q ''GetArtifact'' (GetArtifact i (cliArtifactFor os) st) of
             None \<Rightarrow> Inl (proto_Err 404 ''NOT_FOUND'' ''no cli artifact in latest release'')
           | Some a \<Rightarrow> Inr (re_Version r, ar_Sha256 a, ar_Size a, ch)))"

definition cliDownload :: "request \<Rightarrow> string \<Rightarrow> string \<Rightarrow> store \<Rightarrow> api_error + string \<times> bytes" where
  "cliDownload q ch_query os st =
     (let ch = (if ch_query = [] then ''stable'' else ch_query) in
      case rd q ''GetLatestReleaseByChannel'' (GetLatestReleaseByChannel ch st) of
        None \<Rightarrow> Inl (proto_Err 404 ''NOT_FOUND'' ''no releases'')
      | Some (i, r) \<Rightarrow>
          (case rd q ''GetArtifact'' (GetArtifact i (cliArtifactFor os) st) of
             None \<Rightarrow> Inl (proto_Err 404 ''NOT_FOUND'' ''no cli artifact'')
           | Some a \<Rightarrow> Inr (ar_Sha256 a, ar_Data a)))"

subsection \<open>The invariant of the release tables\<close>

definition version_key :: "Release \<Rightarrow> string option" where
  "version_key r = Some (re_Version r)"

definition artifact_ok :: "(bytes \<Rightarrow> bytes) \<Rightarrow> store \<Rightarrow> uuid \<times> string \<Rightarrow> ReleaseArtifact \<Rightarrow> bool" where
  "artifact_ok sha st k a \<longleftrightarrow> tget (rs_releases st) (fst k) \<noteq> None \<and> ar_Sha256 a = hex_EncodeToString (sha (ar_Data a))
     \<and> ar_Size a = int (length (ar_Data a))"

definition store_wf :: "(bytes \<Rightarrow> bytes) \<Rightarrow> store \<Rightarrow> bool" where
  "store_wf sha st \<longleftrightarrow> tok (rs_releases st) \<and> tok (rs_artifacts st) \<and> uniq version_key (rs_releases st)
     \<and> (\<forall>i r. tget (rs_releases st) i = Some r \<longrightarrow> re_Channel r \<in> set validChannels)
     \<and> (\<forall>k a. tget (rs_artifacts st) k = Some a \<longrightarrow> artifact_ok sha st k a)"

lemma store_wfD:
  assumes "store_wf sha st"
  shows "tok (rs_releases st)" "tok (rs_artifacts st)" "uniq version_key (rs_releases st)"
    "tget (rs_releases st) i = Some r \<Longrightarrow> re_Channel r \<in> set validChannels"
    "tget (rs_artifacts st) k = Some a \<Longrightarrow> artifact_ok sha st k a"
  using assms unfolding store_wf_def by blast+

lemma GetReleaseByVersion_iff:
  assumes "store_wf sha st"
  shows "GetReleaseByVersion v st = Some (i, r) \<longleftrightarrow> tget (rs_releases st) i = Some r \<and> re_Version r = v"
proof
  assume "GetReleaseByVersion v st = Some (i, r)"
  then have "(i, r) \<in> set (rs_releases st)" "re_Version r = v"
    unfolding GetReleaseByVersion_def find_Some_iff by (auto dest: nth_mem)
  then show "tget (rs_releases st) i = Some r \<and> re_Version r = v" using store_wfD(1) [OF assms] by (simp add: tget_in_set)
next
  assume i: "tget (rs_releases st) i = Some r \<and> re_Version r = v"
  then have "GetReleaseByVersion v st \<noteq> None"
    using tget_SomeD [of "rs_releases st" i r] by (auto simp: GetReleaseByVersion_def find_None_iff)
  then obtain j r' where j: "GetReleaseByVersion v st = Some (j, r')" by auto
  then have "(j, r') \<in> set (rs_releases st)" "re_Version r' = v"
    unfolding GetReleaseByVersion_def find_Some_iff by (auto dest: nth_mem)
  then have "tget (rs_releases st) j = Some r'" "version_key r = version_key r'"
    using store_wfD(1) [OF assms] i by (simp_all add: tget_in_set version_key_def)
  then have "j = i" "r' = r" using i store_wfD(3) [OF assms] unfolding uniq_def version_key_def by fastforce+
  then show "GetReleaseByVersion v st = Some (i, r)" using j by simp
qed

lemma GetReleaseByVersion_None:
  assumes "store_wf sha st" "GetReleaseByVersion v st = None" "tget (rs_releases st) i = Some r"
  shows "re_Version r \<noteq> v"
  using GetReleaseByVersion_iff [OF assms(1), of v i r] assms(2,3) by simp

lemma GetLatest_in:
  assumes "GetLatestReleaseByChannel ch st = Some (i, r)"
  shows "(i, r) \<in> set (rs_releases st)" "re_Channel r = ch"
proof -
  have "(i, r) \<in> set (by_age (filter (\<lambda>(i, r). re_Channel r = ch) (rs_releases st)))"
    using assms unfolding GetLatestReleaseByChannel_def by (auto split: list.splits)
  then show "(i, r) \<in> set (rs_releases st)" "re_Channel r = ch" by (simp_all add: by_age_def)
qed

lemma GetLatest_newest:
  assumes "GetLatestReleaseByChannel ch st = Some (i, r)" "(j, r') \<in> set (rs_releases st)" "re_Channel r' = ch"
  shows "re_CreatedAt r' \<le> re_CreatedAt r"
proof -
  let ?l = "by_age (filter (\<lambda>(i, r). re_Channel r = ch) (rs_releases st))"
  obtain rest where l: "?l = (i, r) # rest"
    using assms(1) unfolding GetLatestReleaseByChannel_def by (auto split: list.splits)
  have "sorted (map (\<lambda>(i, r). - re_CreatedAt r) ?l)" unfolding by_age_def by simp
  moreover have "(j, r') \<in> set ?l" using assms(2,3) by (simp add: by_age_def)
  ultimately show ?thesis unfolding l by auto
qed

lemma wf_CreateRelease:
  assumes "CreateRelease gen now v notes ch st = Inr (i, st')" "store_wf sha st"
  shows "store_wf sha st' \<and> tget (rs_releases st') i \<noteq> None \<and> rs_artifacts st' = rs_artifacts st"
proof (cases "GetReleaseByVersion v st")
  case None
  let ?r = "\<lparr>re_Version = v, re_Notes = notes, re_CreatedAt = now, re_Channel = ch\<rparr>"
  have s: "i = gen" "tget (rs_releases st) gen = None" "ch \<in> set validChannels"
    "st' = st\<lparr>rs_releases := tput gen ?r (rs_releases st)\<rparr>"
    using assms(1) None by (auto simp: CreateRelease_def split: if_splits)
  have "uniq version_key (tput gen ?r (rs_releases st))"
    using store_wfD(3) [OF assms(2)] GetReleaseByVersion_None [OF assms(2) None]
    unfolding uniq_def version_key_def by (auto split: if_splits)
  then show ?thesis using assms(2) s unfolding store_wf_def artifact_ok_def by auto
next
  case (Some jr)
  then obtain j r where r: "GetReleaseByVersion v st = Some (j, r)" by (cases jr) auto
  have g: "tget (rs_releases st) j = Some r" using r GetReleaseByVersion_iff [OF assms(2)] by blast
  let ?r = "r\<lparr>re_Notes := notes, re_Channel := ch\<rparr>"
  have s: "i = j" "ch \<in> set validChannels" "st' = st\<lparr>rs_releases := tput j ?r (rs_releases st)\<rparr>"
    using assms(1) r by (auto simp: CreateRelease_def split: if_splits)
  have "uniq version_key (tput j ?r (rs_releases st))"
    by (rule uniq_tput_same [OF store_wfD(3) [OF assms(2)] g]) (simp add: version_key_def)
  then show ?thesis using assms(2) s g unfolding store_wf_def artifact_ok_def by auto
qed

lemma wf_DeleteRelease: "store_wf sha st \<Longrightarrow> store_wf sha (snd (DeleteRelease i st))"
  unfolding DeleteRelease_def store_wf_def artifact_ok_def
  by (auto simp: tget_tfilter intro: uniq_tdel split: option.splits if_splits)

lemma wf_PutArtifact:
  "PutArtifact i name a st = Inr st' \<Longrightarrow> ar_Sha256 a = hex_EncodeToString (sha (ar_Data a)) \<Longrightarrow> ar_Size a = int (length (ar_Data a))
   \<Longrightarrow> store_wf sha st \<Longrightarrow> store_wf sha st' \<and> rs_releases st' = rs_releases st"
  unfolding PutArtifact_def store_wf_def artifact_ok_def by (auto split: if_splits)

lemma wf_put_part:
  assumes "store_wf sha st"
  shows "store_wf sha (snd (put_part sha etx q ri f label name magic st))
     \<and> rs_releases (snd (put_part sha etx q ri f label name magic st)) = rs_releases st"
  using assms wf_PutArtifact unfolding put_part_def
  by (auto split: form_file.splits option.splits sum.splits dest!: wr_InrD)

lemma wf_put_parts:
  assumes "\<And>p st. p \<in> set ps \<Longrightarrow> store_wf sha st \<Longrightarrow> store_wf sha (snd (p st)) \<and> rs_releases (snd (p st)) = rs_releases st" "store_wf sha st"
  shows "store_wf sha (snd (put_parts ps st)) \<and> rs_releases (snd (put_parts ps st)) = rs_releases st"
  using assms
proof (induction ps arbitrary: st)
  case (Cons p ps)
  have "store_wf sha (snd (p st)) \<and> rs_releases (snd (p st)) = rs_releases st" using Cons.prems by simp
  then show ?case using Cons.IH [of "snd (p st)"] Cons.prems(1)
    by (cases "p st"; cases "fst (p st)") auto
qed simp

lemma upload_cases:
  obtains (refused) e where "adminUploadRelease sha etx q a form st = (Inl e, st)"
  | (stored) f ri st1 ps where "form = Some f" "usr_IsAdmin (snd a)" "uf_Version f \<noteq> []"
      "CreateRelease (rq_new q 0) (rq_now q) (uf_Version f) (uf_Notes f) (if uf_Channel f = [] then ''stable'' else uf_Channel f) st = Inr (ri, st1)"
      "ps = [put_part sha etx q ri (case uf_Setup f of FileData b \<Rightarrow> FileData b | _ \<Rightarrow> NoFile) ''setup'' setupArtifactName no_magic,
             put_part sha etx q ri (uf_Linux f) ''linux'' linuxArtifactName gzip_magic,
             put_part sha etx q ri (uf_Cli f) ''cli'' cliArtifactName no_magic,
             put_part sha etx q ri (uf_CliLinux f) ''cli-linux'' cliLinuxArtifactName no_magic]"
      "snd (adminUploadRelease sha etx q a form st) = snd (put_parts ps st1)"
      "fst (adminUploadRelease sha etx q a form st) = (case fst (put_parts ps st1) of Some e \<Rightarrow> Inl e | None \<Rightarrow> Inr (ri, uf_Version f))"
proof (cases "\<exists>e. adminUploadRelease sha etx q a form st = (Inl e, st)")
  case True
  then show thesis using refused by blast
next
  case False
  then obtain f where f: "form = Some f" "usr_IsAdmin (snd a)" "uf_Version f \<noteq> []" "\<not> uf_Bundle f"
    unfolding adminUploadRelease_def by (auto split: option.splits if_splits)
  let ?ch = "if uf_Channel f = [] then ''stable'' else uf_Channel f"
  obtain sb where sb: "upload_setup etx f = Inr sb" "\<not> (?ch \<noteq> ''stable'' \<and> ?ch \<noteq> ''dev'')"
    using False f unfolding adminUploadRelease_def Let_def by (auto split: sum.splits if_splits)
  have part: "(case sb of None \<Rightarrow> NoFile | Some b \<Rightarrow> FileData b) = (case uf_Setup f of FileData b \<Rightarrow> FileData b | _ \<Rightarrow> NoFile)"
    using sb(1) unfolding upload_setup_def by (auto split: form_file.splits option.splits if_splits)
  let ?c = "CreateRelease (rq_new q 0) (rq_now q) (uf_Version f) (uf_Notes f) ?ch st"
  show thesis
  proof (cases "wr q ''CreateRelease'' ?c")
    case (Inl e)
    then have "\<exists>e. adminUploadRelease sha etx q a form st = (Inl e, st)"
      unfolding adminUploadRelease_def Let_def f(1) option.case if_not_P [OF sb(2)] using f(2-4) sb(1) by simp
    then show thesis using refused by blast
  next
    case (Inr x)
    then obtain ri st1 where c: "wr q ''CreateRelease'' ?c = Inr (ri, st1)" by (cases x) auto
    have "adminUploadRelease sha etx q a form st =
        (case put_parts [put_part sha etx q ri (case sb of None \<Rightarrow> NoFile | Some b \<Rightarrow> FileData b) ''setup'' setupArtifactName no_magic,
             put_part sha etx q ri (uf_Linux f) ''linux'' linuxArtifactName gzip_magic,
             put_part sha etx q ri (uf_Cli f) ''cli'' cliArtifactName no_magic,
             put_part sha etx q ri (uf_CliLinux f) ''cli-linux'' cliLinuxArtifactName no_magic] st1 of
           (Some e, st2) \<Rightarrow> (Inl e, st2) | (None, st2) \<Rightarrow> (Inr (ri, uf_Version f), st2))"
      unfolding adminUploadRelease_def Let_def f(1) option.case if_not_P [OF sb(2)] using f(2-4) sb(1) c by simp
    then show thesis
      using stored [OF f(1,2,3) wr_InrD [OF c] refl] unfolding part by (simp split: prod.splits option.splits)
  qed
qed

lemma wf_upload:
  assumes "store_wf sha st"
  shows "store_wf sha (snd (adminUploadRelease sha etx q a form st))"
proof (cases rule: upload_cases [of sha etx q a form st])
  case (refused e)
  then show ?thesis using assms by simp
next
  case (stored f ri st1 ps)
  have "store_wf sha st1" using wf_CreateRelease [OF stored(4) assms] by blast
  then have "store_wf sha (snd (put_parts ps st1))"
    by (intro wf_put_parts [THEN conjunct1]) (auto simp: stored(5) wf_put_part)
  then show ?thesis using stored(6) by simp
qed

lemma wf_delete: "store_wf sha st \<Longrightarrow> store_wf sha (snd (adminDeleteRelease etx q a rid st))"
  using wf_DeleteRelease [of sha st] unfolding adminDeleteRelease_def
  by (auto split: option.splits prod.splits) (metis snd_conv)+


subsection \<open>Node settings keep the database well-formed\<close>

lemma tget_map_values: "tget (map (\<lambda>(i, n). (i, f n)) t) k = map_option f (tget t k)"
  by (induction t) (auto simp: tget_def)

lemma tok_map_values: "tok (map (\<lambda>(i, n). (i, f n)) t) = tok t"
  by (simp add: tok_def comp_def case_prod_beta)

lemma uniq_map_values: "(\<And>n. key (f n) = key n) \<Longrightarrow> uniq key t \<Longrightarrow> uniq key (map (\<lambda>(i, n). (i, f n)) t)"
  unfolding uniq_def tget_map_values by auto

lemma wf_node_settings:
  assumes "db_wf d"
  shows "db_wf (SetNodeChannel i ch d)" "db_wf (SetNodeTargetRelease i v d)" "db_wf (clearAllPins d)"
proof -
  show "db_wf (SetNodeChannel i ch d)" "db_wf (SetNodeTargetRelease i v d)"
    by (simp_all add: SetNodeChannel_def SetNodeTargetRelease_def wf_upd_node assms)
  let ?f = "\<lambda>n :: Node. n\<lparr>nd_TargetRelease := None\<rparr>"
  let ?t = "map (\<lambda>(i, n). (i, ?f n)) (db_nodes d)"
  have d': "clearAllPins d = d\<lparr>db_nodes := ?t\<rparr>" by (simp add: clearAllPins_def)
  have u: "uniq node_name_key ?t" "uniq machine_key ?t"
    by (rule uniq_map_values; simp add: node_name_key_def machine_key_def db_wf_uniq [OF assms])+
  show "db_wf (clearAllPins d)"
  proof (rule db_wfI)
    show "db_keys (clearAllPins d)" using assms by (simp add: d' db_keys_def tok_map_values)
    show "db_unique (clearAllPins d)" using assms u by (simp add: d' db_unique_def db_wf_uniq)
    show "node_ok (clearAllPins d) n" if n: "tget (db_nodes (clearAllPins d)) i = Some n" for i n
    proof -
      obtain m where "tget (db_nodes d) i = Some m" "n = ?f m" using n by (auto simp: d' tget_map_values)
      then show ?thesis using db_wf_refs(3) [OF assms] by (simp add: node_ok_def d')
    qed
    show "audit_ok (clearAllPins d) a" if "a \<in> set (db_audit (clearAllPins d))" for a
      using db_wf_refs(5) [OF assms, of a] that by (simp add: d' audit_ok_def split: option.splits)
  qed (use db_wf_refs(1,2,4) [OF assms] in \<open>auto simp: d' member_ok_def token_ok_def\<close>)
qed

lemma adminRollout_db:
  obtains (same) "sv_db (snd (snd (adminRollout etx q a body st s))) = sv_db s"
  | (unpin) "sv_db (snd (snd (adminRollout etx q a body st s))) = clearAllPins (sv_db s)"
  | (chan) i ch where "sv_db (snd (snd (adminRollout etx q a body st s))) = SetNodeChannel i ch (sv_db s)"
  | (pin) i v where "sv_db (snd (snd (adminRollout etx q a body st s))) = SetNodeTargetRelease i v (sv_db s)"
  | (both) i ch v where "sv_db (snd (snd (adminRollout etx q a body st s))) = SetNodeTargetRelease i v (SetNodeChannel i ch (sv_db s))"
proof (cases body)
  case None
  then show thesis using same by (simp add: adminRollout_def)
next
  case (Some r)
  let ?R = "adminRollout etx q a (Some r) st s"
  show thesis
  proof (cases "usr_IsAdmin (snd a) \<and> \<not> ro_Unpin r \<and> ro_NodeID r \<noteq> []")
    case False
    then show thesis using same unpin unfolding Some by (cases "usr_IsAdmin (snd a)"; cases "ro_Unpin r"; cases "rq_fails q ''clearAllPins''")
        (simp_all add: adminRollout_def)
  next
    case g: True
    show thesis
    proof (cases "rq_parse q (ro_NodeID r)")
      case None
      then show thesis using g same unfolding Some by (simp add: adminRollout_def)
    next
      case (Some i)
      define s1 where "s1 = (if ro_Channel r \<noteq> [] then s\<lparr>sv_db := SetNodeChannel i (ro_Channel r) (sv_db s)\<rparr> else s)"
      have R: "?R = (if ro_Channel r \<noteq> [] \<and> ro_Channel r \<noteq> ''stable'' \<and> ro_Channel r \<noteq> ''dev''
           then (Inl (bad_request ''channel must be stable or dev''), [], s)
         else if ro_Channel r \<noteq> [] \<and> rq_fails q ''SetNodeChannel'' then (Inl (proto_Err 500 ''INTERNAL'' (etx ''SetNodeChannel'')), [], s)
         else if ro_Version r = [] then (case force_offer q i s1 st of (offered, sent) \<Rightarrow> (Inr (ChannelSet (ro_Channel r) (ro_NodeID r) offered), sent, s1))
         else if rd q ''GetReleaseByVersion'' (GetReleaseByVersion (ro_Version r) st) = None
         then (Inl (proto_Err 404 ''NOT_FOUND'' ''release not found''), [], s1)
         else if rq_fails q ''SetNodeTargetRelease'' then (Inl (proto_Err 500 ''INTERNAL'' (etx ''SetNodeTargetRelease'')), [], s1)
         else let s2 = s1\<lparr>sv_db := SetNodeTargetRelease i (Some (ro_Version r)) (sv_db s1)\<rparr> in
           (case force_offer q i s2 st of (offered, sent) \<Rightarrow> (Inr (Pinned (ro_Version r) (ro_NodeID r) offered), sent, s2)))"
        unfolding adminRollout_def option.case Let_def s1_def using g Some by (simp only: option.case if_True if_False simp_thms)
      have "snd (snd ?R) \<in> {s, s1, s1\<lparr>sv_db := SetNodeTargetRelease i (Some (ro_Version r)) (sv_db s1)\<rparr>}"
        unfolding R Let_def by (simp only: split_beta snd_conv insert_iff if_distrib [of snd] simp_thms split: if_splits)
      then show thesis using same chan pin both \<open>body = Some r\<close> unfolding s1_def by (cases "ro_Channel r = []") auto
    qed
  qed
qed

lemma wf_rollout: "db_wf (sv_db s) \<Longrightarrow> db_wf (sv_db (snd (snd (adminRollout etx q a body st s))))"
  by (cases rule: adminRollout_db [of etx q a body st s]) (simp_all add: wf_node_settings)

text \<open>The release requests as events of a machine over the server and the release tables.\<close>

datatype release_event =
    UploadRequest request string "uploadForm option"
  | DeleteReleaseRequest request string string
  | RolloutRequest request string "rolloutReq option"

fun release_step ::
  "(bytes \<Rightarrow> bytes) \<Rightarrow> (string \<Rightarrow> string) \<Rightarrow> release_event \<Rightarrow> server \<times> store \<Rightarrow> server \<times> store" where
  "release_step sha etx (UploadRequest q h form) (s, st) =
     (case Middleware q h (sv_db s) of None \<Rightarrow> (s, st) | Some a \<Rightarrow> (s, snd (adminUploadRelease sha etx q a form st)))"
| "release_step sha etx (DeleteReleaseRequest q h rid) (s, st) =
     (case Middleware q h (sv_db s) of None \<Rightarrow> (s, st) | Some a \<Rightarrow> (s, snd (adminDeleteRelease etx q a rid st)))"
| "release_step sha etx (RolloutRequest q h body) (s, st) =
     (case Middleware q h (sv_db s) of None \<Rightarrow> (s, st) | Some a \<Rightarrow> (snd (snd (adminRollout etx q a body st s)), st))"

definition release_inv :: "(bytes \<Rightarrow> bytes) \<Rightarrow> server \<times> store \<Rightarrow> bool" where
  "release_inv sha x \<longleftrightarrow> db_wf (sv_db (fst x)) \<and> store_wf sha (snd x)"

lemma release_step_inv: "release_inv sha x \<Longrightarrow> release_inv sha (release_step sha etx e x)"
  by (cases e; cases x) (auto simp: release_inv_def wf_upload wf_delete wf_rollout split: option.splits)

interpretation releases: inv_machine "\<lambda>_ _. True" "release_step sha etx" "release_inv sha" for sha etx
  by unfold_locales (rule release_step_inv)


subsection \<open>From the offer to the installer\<close>

lemma ToLower_hex [simp]: "ToLower (hex_EncodeToString bs) = hex_EncodeToString bs"
proof -
  have "\<forall>c \<in> set hex_chars. lower_char c = c" by code_simp
  then show ?thesis unfolding ToLower_def using hex_Encode_chars [of bs] by (intro map_idI) blast
qed

lemma hex_inj: "hex_EncodeToString a = hex_EncodeToString b \<longleftrightarrow> a = b"
  by (metis hex_roundtrip option.inject)

lemma hashEqual_hex: "hashEqual (hex_EncodeToString a) (hex_EncodeToString b) \<longleftrightarrow> a = b"
  by (simp add: hashEqual_def hex_inj)

text \<open>The agent's side of an offer: what lies between the message and \<open>applyUpdate\<close>, and the two ways the
  hash check can go.\<close>

definition ready_for :: "upd_env \<Rightarrow> Updater \<Rightarrow> string \<Rightarrow> go_time \<Rightarrow> upd_state \<Rightarrow> bool" where
  "ready_for E u v t0 s \<longleftrightarrow> LoadPending s = None \<and> v \<noteq> [] \<and> 0 < CompareVersions v (u_Version u) \<and> ue_platform E \<noteq> POther
     \<and> Blacklisted v s = None \<and> Throttled v t0 s = None
     \<and> CachedInstaller (ue_platform E) (u_Version u) s \<noteq> None \<and> (\<forall>w. ue_writes E w) \<and> ue_watchdog E"

lemma HandlePush_ready:
  assumes "ready_for E u (mf_Version m) t0 s"
  shows "HandlePush E u False m t0 t1 s = applyUpdate E u m t1 s"
proof -
  have "mf_Version m \<noteq> u_Version u"
    using assms version.refl [of "u_Version u"] by (auto simp: ready_for_def)
  then show ?thesis using assms by (simp add: HandlePush_def orchestrateTrigger_def ready_for_def)
qed

lemma download_server:
  assumes "\<forall>w. ue_writes E w" "mf_URL m = ''/'' @ path"
    "ue_get E (TrimRight CHR ''/'' (u_ServerURL u) @ mf_URL m) = Some b" "int (length b) \<le> downloadLimit"
  shows "download E u m s = (Inr (cacheInstallerName (ue_platform E) (mf_Version m) (upd_channel u)),
     s\<lparr>us_staging := tput (cacheInstallerName (ue_platform E) (mf_Version m) (upd_channel u)) b (us_staging s)\<rparr>)"
  using assms by (simp add: download_def resolveURL_def HasPrefix_def LimitReader_def Let_def)

lemma push_installs:
  assumes r: "ready_for E u (mf_Version m) t0 s" and p: "mf_URL m = ''/'' @ path"
    and g: "ue_get E (TrimRight CHR ''/'' (u_ServerURL u) @ mf_URL m) = Some b" "int (length b) \<le> downloadLimit"
    and h: "hashEqual (ue_sha256 E b) (mf_SHA256 m)"
  shows "\<exists>rest. us_fx (snd (HandlePush E u False m t0 t1 s)) =
     us_fx s @ UExec (cacheInstallerName (ue_platform E) (mf_Version m) (upd_channel u)) b # rest"
proof -
  let ?n = "cacheInstallerName (ue_platform E) (mf_Version m) (upd_channel u)"
  let ?s1 = "s\<lparr>us_staging := tput ?n b (us_staging s)\<rparr>"
  have w: "\<forall>w. ue_writes E w" and wd: "ue_watchdog E" using r by (simp_all add: ready_for_def)
  have d: "download E u m s = (Inr ?n, ?s1)" using download_server [OF w p g] .
  have e: "ensureRollbackSource E u ?s1 = (None, ?s1)"
    using r by (simp add: ensureRollbackSource_def ready_for_def CachedInstaller_def)
  have st: "tget (us_staging ?s1) ?n = Some b" by simp
  have fx: "us_fx (snd (stashRollbackSource E u ?s1)) = us_fx s" using files_only_sel [OF stash_files [of ?s1 E u]] by simp
  let ?s5 = "snd (execInstaller E ?n b ((snd (stashRollbackSource E u ?s1))
      \<lparr>us_pending := Some \<lparr>pu_From = u_Version u, pu_To = mf_Version m, pu_StartedAt = t1, pu_Deadline = t1 + pendingWindow u\<rparr>,
       us_watchdog := Some (t1 + pendingWindow u + WatchdogRestartGrace)\<rparr>))"
  have s5: "us_fx ?s5 = us_fx s @ [UExec ?n b]" by (simp add: execInstaller_def fx)
  note prep = applyUpdate_prepared [OF d st h e spec [OF w] wd, of t1]
  have "\<exists>rest. us_fx (snd (applyUpdate E u m t1 s)) = us_fx ?s5 @ rest"
  proof (cases "ue_exec E ?n b")
    case None
    then have "snd (applyUpdate E u m t1 s) = ?s5" unfolding prep Let_def by simp
    then show ?thesis by (intro exI [of _ "[]"]) (simp only: append_Nil2)
  next
    case (Some err)
    let ?p = "\<lparr>pu_From = u_Version u, pu_To = mf_Version m, pu_StartedAt = t1, pu_Deadline = t1 + pendingWindow u\<rparr>"
    have "snd (applyUpdate E u m t1 s) = snd (Rollback E ?p (''installer failed: '' @ err)
        (BlacklistVersion E (mf_Version m) (''installer failed: '' @ err) ?s5))"
      unfolding prep Let_def Some by (simp split: prod.split option.split)
    moreover obtain fx where "us_fx (snd (Rollback E ?p (''installer failed: '' @ err)
        (BlacklistVersion E (mf_Version m) (''installer failed: '' @ err) ?s5))) =
        us_fx (BlacklistVersion E (mf_Version m) (''installer failed: '' @ err) ?s5) @ fx"
      using Rollback_fx by blast
    ultimately show ?thesis by (intro exI [of _ fx]) (simp only: BlacklistVersion_sel)
  qed
  then show ?thesis unfolding HandlePush_ready [OF r] s5 by auto
qed

lemma push_refused:
  assumes r: "ready_for E u (mf_Version m) t0 s" and p: "mf_URL m = ''/'' @ path"
    and g: "ue_get E (TrimRight CHR ''/'' (u_ServerURL u) @ mf_URL m) = Some b" "int (length b) \<le> downloadLimit"
    and h: "\<not> hashEqual (ue_sha256 E b) (mf_SHA256 m)"
  shows "fst (HandlePush E u False m t0 t1 s) = Some EHash" "us_fx (snd (HandlePush E u False m t0 t1 s)) = us_fx s"
    "Blacklisted (mf_Version m) (snd (HandlePush E u False m t0 t1 s)) \<noteq> None"
proof -
  have w: "\<forall>w. ue_writes E w" using r by (simp add: ready_for_def)
  note a = HandlePush_ready [OF r] applyUpdate_def download_server [OF w p g]
  show "fst (HandlePush E u False m t0 t1 s) = Some EHash" "us_fx (snd (HandlePush E u False m t0 t1 s)) = us_fx s"
    using h by (simp_all add: a)
  show "Blacklisted (mf_Version m) (snd (HandlePush E u False m t0 t1 s)) \<noteq> None"
    using h w by (simp add: a Blacklisted_def BlacklistVersion_def saveThrottle_def)
qed

lemma blacklisted_ignored:
  "Blacklisted (mf_Version m) s \<noteq> None \<Longrightarrow> HandlePush E u busy m t0 t1 s = (None, s)"
  by (simp add: HandlePush_def orchestrateTrigger_def)

text \<open>The server's side. \<open>serves\<close>: the agent's requests for installer files get the answers of \<open>setupDownload\<close>.\<close>

definition installer_path :: "string \<Rightarrow> string \<Rightarrow> string" where
  "installer_path ch platform = (if platform = ''linux'' then ''/installer?channel='' @ ch @ ''&platform=linux''
     else ''/installer?channel='' @ ch)"

definition serves :: "upd_env \<Rightarrow> Updater \<Rightarrow> request \<Rightarrow> store \<Rightarrow> bool" where
  "serves E u q st \<longleftrightarrow> (\<forall>ch \<in> set validChannels. \<forall>platform.
     ue_get E (TrimRight CHR ''/'' (u_ServerURL u) @ installer_path ch platform) =
       (case setupDownload q ch platform st of Inl _ \<Rightarrow> None | Inr (_, _, b) \<Rightarrow> Some b))"

definition push_manifest :: "UpdateAvailable \<Rightarrow> SetupManifest" where
  "push_manifest uv = \<lparr>mf_Version = uv_Version uv, mf_URL = uv_URL uv, mf_SHA256 = uv_SHA256 uv\<rparr>"

lemma push_manifest_sel [simp]: "mf_Version (push_manifest uv) = uv_Version uv" "mf_URL (push_manifest uv) = uv_URL uv"
    "mf_SHA256 (push_manifest uv) = uv_SHA256 uv"
  by (simp_all add: push_manifest_def)

lemma offer_target:
  assumes "maybeOfferUpdate q i cur d st = Some uv"
  obtains ri r platform a where "targetReleaseFor q i d st = Some (ri, r)" "re_Version r \<noteq> cur"
    "GetArtifact ri (installerArtifactFor platform) st = Some a"
    "uv = \<lparr>uv_Version = re_Version r, uv_URL = installer_path (re_Channel r) platform, uv_SHA256 = ar_Sha256 a\<rparr>"
proof -
  obtain ri r where t: "targetReleaseFor q i d st = Some (ri, r)" "re_Version r \<noteq> cur" "cur \<noteq> []"
    using assms by (auto simp: maybeOfferUpdate_def split: option.splits if_splits)
  define p where "p = (case rd q ''GetNodeByID'' (GetNodeByID i d) of Some n \<Rightarrow> nd_Platform n | None \<Rightarrow> ''windows'')"
  have eq: "maybeOfferUpdate q i cur d st = (case rd q ''GetArtifact'' (GetArtifact ri (installerArtifactFor p) st) of
      None \<Rightarrow> None | Some a \<Rightarrow> Some \<lparr>uv_Version = re_Version r, uv_URL = installer_path (re_Channel r) p, uv_SHA256 = ar_Sha256 a\<rparr>)"
    unfolding maybeOfferUpdate_def t(1) option.case prod.case Let_def p_def [symmetric] installerArtifactFor_def installer_path_def
    using t(2,3) by (cases "p = ''linux''") simp_all
  obtain a where "rd q ''GetArtifact'' (GetArtifact ri (installerArtifactFor p) st) = Some a"
    "uv = \<lparr>uv_Version = re_Version r, uv_URL = installer_path (re_Channel r) p, uv_SHA256 = ar_Sha256 a\<rparr>"
  proof (cases "rd q ''GetArtifact'' (GetArtifact ri (installerArtifactFor p) st)")
    case None
    then show thesis using eq assms by simp
  next
    case (Some a)
    then show thesis using eq assms that by simp
  qed
  from that [OF t(1,2) rd_SomeD [OF this(1)] this(2)] show thesis .
qed

lemma setupDownload_latest:
  assumes "ch \<in> set validChannels" "GetLatestReleaseByChannel ch st = Some (ri, r)"
    "GetArtifact ri (installerArtifactFor platform) st = Some a"
    "\<not> rq_fails q ''GetLatestReleaseByChannel''" "\<not> rq_fails q ''GetArtifact''"
  shows "\<exists>name. setupDownload q ch platform st = Inr (name, ar_Sha256 a, ar_Data a)"
  using assms by (auto simp: setupDownload_def setupChannel_def validChannels_def latestInstallerArtifact_def rd_def Let_def)


lemma GetLatest_exists:
  assumes "(i, r) \<in> set (rs_releases st)" "re_Channel r = ch"
  shows "GetLatestReleaseByChannel ch st \<noteq> None"
proof -
  have "(i, r) \<in> set (by_age (filter (\<lambda>(i, r). re_Channel r = ch) (rs_releases st)))" using assms by (simp add: by_age_def)
  then show ?thesis unfolding GetLatestReleaseByChannel_def by (auto split: list.splits)
qed

text \<open>C6. An offer leads to the uploaded bytes: when a node follows its channel (no pin) and the server offers it an
  update, an agent that is ready for the version fetches the offered URL from the same release tables, the
  bytes pass its hash check, and it runs exactly those bytes under the name of the version.\<close>

theorem offer_installs:
  assumes "store_wf sha st" "maybeOfferUpdate q i (u_Version u) d st = Some uv"
    and "map_option nd_TargetRelease (tget (db_nodes d) i) = Some None"
    and "serves E u q' st" "\<not> rq_fails q' ''GetLatestReleaseByChannel''" "\<not> rq_fails q' ''GetArtifact''"
    and "ue_sha256 E = (\<lambda>b. hex_EncodeToString (sha b))" "\<forall>k a. tget (rs_artifacts st) k = Some a \<longrightarrow> ar_Size a \<le> downloadLimit"
    and "ready_for E u (uv_Version uv) t0 s"
  shows "\<exists>ri name b rest. tget (rs_artifacts st) (ri, name) = Some \<lparr>ar_Sha256 = uv_SHA256 uv, ar_Size = int (length b), ar_Data = b\<rparr>
     \<and> (\<exists>r. tget (rs_releases st) ri = Some r \<and> re_Version r = uv_Version uv)
     \<and> us_fx (snd (HandlePush E u False (push_manifest uv) t0 t1 s)) =
         us_fx s @ UExec (cacheInstallerName (ue_platform E) (uv_Version uv) (upd_channel u)) b # rest"
proof -
  obtain ri r pf a where t: "targetReleaseFor q i d st = Some (ri, r)" "re_Version r \<noteq> u_Version u"
    and a: "GetArtifact ri (installerArtifactFor pf) st = Some a"
    and uv: "uv = \<lparr>uv_Version = re_Version r, uv_URL = installer_path (re_Channel r) pf, uv_SHA256 = ar_Sha256 a\<rparr>"
    by (rule offer_target [OF assms(2)])
  obtain n where n: "tget (db_nodes d) i = Some n" "nd_TargetRelease n = None" using assms(3) by auto
  define ch where "ch = (if nd_Channel n \<noteq> [] then nd_Channel n else ''stable'')"
  have l: "GetLatestReleaseByChannel ch st = Some (ri, r)"
    using t(1) n unfolding targetReleaseFor_def GetNodeTargetRelease_def ch_def by (auto simp: rd_Some split: option.splits)
  have row: "tget (rs_releases st) ri = Some r" "re_Channel r = ch"
    using GetLatest_in [OF l] store_wfD(1) [OF assms(1)] by (simp_all add: tget_in_set)
  have v: "ch \<in> set validChannels" using store_wfD(4) [OF assms(1) row(1)] row(2) by simp
  have ok: "artifact_ok sha st (ri, installerArtifactFor pf) a"
    using store_wfD(5) [OF assms(1)] a by (simp add: GetArtifact_def)
  have get: "ue_get E (TrimRight CHR ''/'' (u_ServerURL u) @ uv_URL uv) = Some (ar_Data a)"
    using setupDownload_latest [OF v l a assms(5,6)] assms(4) v row(2) by (auto simp: serves_def uv)
  have p: "mf_URL (push_manifest uv) = ''/'' @ (''installer?channel='' @ ch @ (if pf = ''linux'' then ''&platform=linux'' else []))"
    by (simp add: uv installer_path_def row(2))
  have "ar_Size a = int (length (ar_Data a))" using ok by (simp add: artifact_ok_def)
  moreover have "ar_Size a \<le> downloadLimit" using assms(8) a by (auto simp: GetArtifact_def)
  ultimately have len: "int (length (ar_Data a)) \<le> downloadLimit" by simp
  have h: "hashEqual (ue_sha256 E (ar_Data a)) (mf_SHA256 (push_manifest uv))"
    using ok by (simp add: uv assms(7) artifact_ok_def hashEqual_hex)
  have rdy: "ready_for E u (mf_Version (push_manifest uv)) t0 s" using assms(9) by simp
  have get': "ue_get E (TrimRight CHR ''/'' (u_ServerURL u) @ mf_URL (push_manifest uv)) = Some (ar_Data a)" using get by simp
  then obtain rest where rest: "us_fx (snd (HandlePush E u False (push_manifest uv) t0 t1 s)) =
      us_fx s @ UExec (cacheInstallerName (ue_platform E) (uv_Version uv) (upd_channel u)) (ar_Data a) # rest"
    using push_installs [OF rdy p get' len h, of t1] unfolding push_manifest_sel by blast
  have "tget (rs_artifacts st) (ri, installerArtifactFor pf) =
      Some \<lparr>ar_Sha256 = uv_SHA256 uv, ar_Size = int (length (ar_Data a)), ar_Data = ar_Data a\<rparr>"
    using a ok by (cases a) (simp add: GetArtifact_def artifact_ok_def uv)
  moreover have "re_Version r = uv_Version uv" by (simp add: uv)
  ultimately show ?thesis using rest row(1) by blast
qed

definition demo_artifact :: "bytes \<Rightarrow> ReleaseArtifact" where
  "demo_artifact b = \<lparr>ar_Sha256 = hex_EncodeToString b, ar_Size = int (length b), ar_Data = b\<rparr>"

definition demo_store :: store where
  "demo_store = \<lparr>rs_releases = [(''#40'', \<lparr>re_Version = ''2.0.0'', re_Notes = [], re_CreatedAt = 10, re_Channel = ''stable''\<rparr>),
       (''#41'', \<lparr>re_Version = ''3.0.0'', re_Notes = [], re_CreatedAt = 20, re_Channel = ''stable''\<rparr>)],
     rs_artifacts = [((''#40'', ''setup.exe''), demo_artifact [77, 90, 2]), ((''#41'', ''setup.exe''), demo_artifact [77, 90, 3])]\<rparr>"

definition demo_agent :: upd_env where
  "demo_agent = demo_env\<lparr>ue_get := (\<lambda>url. if url = ''https://h/installer?channel=stable'' then Some [77, 90, 3] else None),
     ue_sha256 := hex_EncodeToString\<rparr>"

definition demo_updater :: Updater where
  "demo_updater = demo_upd ''1.0.0''"

definition demo_cached :: upd_state where
  "demo_cached = demo_files\<lparr>us_cache := [(''XNC-Installer-1.0.0.exe'', [1])]\<rparr>"

lemma demo_store_wf: "store_wf (\<lambda>b. b) demo_store"
  unfolding store_wf_def uniq_def version_key_def artifact_ok_def
  by (auto simp: demo_store_def demo_artifact_def validChannels_def split: if_splits)

lemma demo_serves: "serves demo_agent demo_updater demo_rq demo_store"
proof -
  have d: "setupDownload demo_rq ''stable'' pf demo_store = (if pf = ''linux'' then Inl (proto_Err 404 ''NOT_FOUND'' ''no xnc-linux-amd64.tar.gz artifact'')
      else Inr (''XNC-Installer-3.0.0.exe'', hex_EncodeToString [77, 90, 3], [77, 90, 3]))"
    "setupDownload demo_rq ''dev'' pf demo_store = Inl (proto_Err 404 ''NOT_FOUND'' ''no releases'')" for pf
    by (simp_all add: setupDownload_def setupChannel_def latestInstallerArtifact_def GetLatestReleaseByChannel_def by_age_def
        demo_store_def demo_artifact_def installerArtifactFor_def GetArtifact_def linuxArtifactName_def setupArtifactName_def rd_def demo_rq_def)
  have t: "TrimRight CHR ''/'' ''https://h'' = ''https://h''" by code_simp
  show ?thesis unfolding serves_def
    by (simp add: validChannels_def d t demo_agent_def demo_updater_def demo_upd_def demo_env_def installer_path_def)
qed

lemma demo_ready: "v \<in> {''2.0.0'', ''3.0.0''} \<Longrightarrow> ready_for demo_agent demo_updater v 0 demo_cached"
proof -
  have w: "\<forall>w. ue_writes demo_agent w" by (simp add: demo_agent_def demo_env_def)
  have "LoadPending demo_cached = None" "ue_platform demo_agent \<noteq> POther" "ue_watchdog demo_agent"
    "CachedInstaller (ue_platform demo_agent) (u_Version demo_updater) demo_cached \<noteq> None" by code_simp+
  moreover have "0 < CompareVersions ''2.0.0'' (u_Version demo_updater)" "0 < CompareVersions ''3.0.0'' (u_Version demo_updater)" by code_simp+
  ultimately show "v \<in> {''2.0.0'', ''3.0.0''} \<Longrightarrow> ?thesis"
    using w by (auto simp: ready_for_def Blacklisted_def Throttled_def demo_cached_def demo_files_def)
qed


lemma demo_offer: "maybeOfferUpdate demo_rq ''#21'' ''1.0.0'' demo_db demo_store =
    Some \<lparr>uv_Version = ''3.0.0'', uv_URL = ''/installer?channel=stable'', uv_SHA256 = ''4d5a03''\<rparr>"
  by code_simp

theorem offer_installs_witness:
  "\<exists>b rest. us_fx (snd (HandlePush demo_agent demo_updater False
      (push_manifest \<lparr>uv_Version = ''3.0.0'', uv_URL = ''/installer?channel=stable'', uv_SHA256 = ''4d5a03''\<rparr>) 0 0 demo_cached)) =
    UExec ''XNC-Installer-3.0.0.exe'' b # rest"
proof -
  have off: "maybeOfferUpdate demo_rq ''#21'' (u_Version demo_updater) demo_db demo_store =
      Some \<lparr>uv_Version = ''3.0.0'', uv_URL = ''/installer?channel=stable'', uv_SHA256 = ''4d5a03''\<rparr>"
    using demo_offer by (simp add: demo_updater_def demo_upd_def)
  have row: "map_option nd_TargetRelease (tget (db_nodes demo_db) ''#21'') = Some None" by (simp add: demo_rows)
  have sz: "\<forall>k a. tget (rs_artifacts demo_store) k = Some a \<longrightarrow> ar_Size a \<le> downloadLimit"
    by (auto simp: demo_store_def demo_artifact_def downloadLimit_def split: if_splits)
  have nf: "\<not> rq_fails demo_rq ''GetLatestReleaseByChannel''" "\<not> rq_fails demo_rq ''GetArtifact''" by (simp_all add: demo_rq_def)
  have sha: "ue_sha256 demo_agent = (\<lambda>b. hex_EncodeToString ((\<lambda>b. b) b))" by (simp add: demo_agent_def)
  have fx: "us_fx demo_cached = []" by (simp add: demo_cached_def demo_files_def)
  have nm: "cacheInstallerName (ue_platform demo_agent) ''3.0.0'' (upd_channel demo_updater) = ''XNC-Installer-3.0.0.exe''" by code_simp
  have rdy: "ready_for demo_agent demo_updater (uv_Version \<lparr>uv_Version = ''3.0.0'', uv_URL = ''/installer?channel=stable'', uv_SHA256 = ''4d5a03''\<rparr>) 0 demo_cached"
    using demo_ready by simp
  show ?thesis
    using offer_installs [OF demo_store_wf off row demo_serves nf sha sz rdy, of 0] by (simp add: fx nm) blast
qed

text \<open>A pin to a version that is not the latest of its channel poisons that version on the node: the offer
  names the pinned version and its hash, but its URL serves the latest one, so a ready agent finds a wrong
  hash, runs nothing, and blacklists the pinned version, after which it ignores every further offer of it.\<close>

theorem pinned_version_poisoned:
  assumes "store_wf sha st" "maybeOfferUpdate q i (u_Version u) d st = Some uv"
    and "targetReleaseFor q i d st = Some (ri, r)" "GetLatestReleaseByChannel (re_Channel r) st = Some (rl, l)"
    and "\<forall>n a. GetArtifact ri n st = Some a \<longrightarrow> (\<exists>b. GetArtifact rl n st = Some b \<and> sha (ar_Data a) \<noteq> sha (ar_Data b))"
    and "serves E u q' st" "\<not> rq_fails q' ''GetLatestReleaseByChannel''" "\<not> rq_fails q' ''GetArtifact''"
    and "ue_sha256 E = (\<lambda>b. hex_EncodeToString (sha b))" "\<forall>k a. tget (rs_artifacts st) k = Some a \<longrightarrow> ar_Size a \<le> downloadLimit"
    and "ready_for E u (uv_Version uv) t0 s"
  shows "let R = HandlePush E u False (push_manifest uv) t0 t1 s in
     uv_Version uv = re_Version r \<and> fst R = Some EHash \<and> us_fx (snd R) = us_fx s
     \<and> Blacklisted (re_Version r) (snd R) \<noteq> None
     \<and> (\<forall>E' m busy t0' t1'. mf_Version m = re_Version r \<longrightarrow> HandlePush E' u busy m t0' t1' (snd R) = (None, snd R))"
proof -
  obtain pf a where a: "GetArtifact ri (installerArtifactFor pf) st = Some a"
    and uv: "uv = \<lparr>uv_Version = re_Version r, uv_URL = installer_path (re_Channel r) pf, uv_SHA256 = ar_Sha256 a\<rparr>"
    using offer_target [OF assms(2)] assms(3) by (metis option.inject prod.inject)
  have row: "tget (rs_releases st) rl = Some l" "re_Channel l = re_Channel r"
    using GetLatest_in [OF assms(4)] store_wfD(1) [OF assms(1)] by (simp_all add: tget_in_set)
  have v: "re_Channel r \<in> set validChannels" using store_wfD(4) [OF assms(1) row(1)] row(2) by simp
  obtain b where b: "GetArtifact rl (installerArtifactFor pf) st = Some b" "sha (ar_Data a) \<noteq> sha (ar_Data b)"
    using assms(5) a by blast
  have ok: "artifact_ok sha st (ri, installerArtifactFor pf) a" "artifact_ok sha st (rl, installerArtifactFor pf) b"
    using store_wfD(5) [OF assms(1)] a b by (simp_all add: GetArtifact_def)
  have get: "ue_get E (TrimRight CHR ''/'' (u_ServerURL u) @ mf_URL (push_manifest uv)) = Some (ar_Data b)"
    using setupDownload_latest [OF v assms(4) b(1) assms(7,8)] assms(6) v by (auto simp: serves_def uv)
  have p: "mf_URL (push_manifest uv) = ''/'' @ (''installer?channel='' @ re_Channel r @ (if pf = ''linux'' then ''&platform=linux'' else []))"
    by (simp add: uv installer_path_def)
  have "ar_Size b = int (length (ar_Data b))" using ok by (simp add: artifact_ok_def)
  moreover have "ar_Size b \<le> downloadLimit" using assms(10) b(1) by (auto simp: GetArtifact_def)
  ultimately have len: "int (length (ar_Data b)) \<le> downloadLimit" by simp
  have h: "\<not> hashEqual (ue_sha256 E (ar_Data b)) (mf_SHA256 (push_manifest uv))"
    using ok(1) b(2) by (simp add: uv assms(9) artifact_ok_def hashEqual_hex)
  have rdy: "ready_for E u (mf_Version (push_manifest uv)) t0 s" using assms(11) by simp
  have v: "uv_Version uv = re_Version r" by (simp add: uv)
  show ?thesis
    using push_refused [OF rdy p get len h, of t1] blacklisted_ignored unfolding Let_def push_manifest_sel v by metis
qed

theorem pinned_version_poisoned_witness:
  "maybeOfferUpdate demo_rq ''#21'' ''1.0.0'' (SetNodeTargetRelease ''#21'' (Some ''2.0.0'') demo_db) demo_store =
     Some \<lparr>uv_Version = ''2.0.0'', uv_URL = ''/installer?channel=stable'', uv_SHA256 = ''4d5a02''\<rparr> \<and>
   fst (HandlePush demo_agent demo_updater False
      (push_manifest \<lparr>uv_Version = ''2.0.0'', uv_URL = ''/installer?channel=stable'', uv_SHA256 = ''4d5a02''\<rparr>) 0 0 demo_cached) = Some EHash"
proof -
  let ?d = "SetNodeTargetRelease ''#21'' (Some ''2.0.0'') demo_db"
  have o: "maybeOfferUpdate demo_rq ''#21'' ''1.0.0'' ?d demo_store =
      Some \<lparr>uv_Version = ''2.0.0'', uv_URL = ''/installer?channel=stable'', uv_SHA256 = ''4d5a02''\<rparr>" by code_simp
  then have off: "maybeOfferUpdate demo_rq ''#21'' (u_Version demo_updater) ?d demo_store =
      Some \<lparr>uv_Version = ''2.0.0'', uv_URL = ''/installer?channel=stable'', uv_SHA256 = ''4d5a02''\<rparr>"
    by (simp add: demo_updater_def demo_upd_def)
  have t: "targetReleaseFor demo_rq ''#21'' ?d demo_store =
      Some (''#40'', \<lparr>re_Version = ''2.0.0'', re_Notes = [], re_CreatedAt = 10, re_Channel = ''stable''\<rparr>)" by code_simp
  have l: "GetLatestReleaseByChannel (re_Channel \<lparr>re_Version = ''2.0.0'', re_Notes = [], re_CreatedAt = 10, re_Channel = ''stable''\<rparr>) demo_store =
      Some (''#41'', \<lparr>re_Version = ''3.0.0'', re_Notes = [], re_CreatedAt = 20, re_Channel = ''stable''\<rparr>)" by code_simp
  have sz: "\<forall>k a. tget (rs_artifacts demo_store) k = Some a \<longrightarrow> ar_Size a \<le> downloadLimit"
    by (auto simp: demo_store_def demo_artifact_def downloadLimit_def split: if_splits)
  have nf: "\<not> rq_fails demo_rq ''GetLatestReleaseByChannel''" "\<not> rq_fails demo_rq ''GetArtifact''" by (simp_all add: demo_rq_def)
  have sha: "ue_sha256 demo_agent = (\<lambda>b. hex_EncodeToString ((\<lambda>b. b) b))" by (simp add: demo_agent_def)
  have df: "\<forall>n a. GetArtifact ''#40'' n demo_store = Some a \<longrightarrow>
      (\<exists>b. GetArtifact ''#41'' n demo_store = Some b \<and> (\<lambda>b. b) (ar_Data a) \<noteq> (\<lambda>b. b) (ar_Data b))"
    by (auto simp: GetArtifact_def demo_store_def demo_artifact_def split: if_splits)
  have rdy: "ready_for demo_agent demo_updater (uv_Version \<lparr>uv_Version = ''2.0.0'', uv_URL = ''/installer?channel=stable'', uv_SHA256 = ''4d5a02''\<rparr>) 0 demo_cached"
    using demo_ready by simp
  show ?thesis
    using o pinned_version_poisoned [OF demo_store_wf off t l df demo_serves nf sha sz rdy, of 0] by (simp add: Let_def)
qed


subsection \<open>Runs of release requests\<close>

lemma latestInstaller_ok:
  assumes "latestInstallerArtifact q ch artifact st = Inr (r, a)" "store_wf sha st"
  shows "artifact_ok sha st (fst r, artifact) a"
  using assms store_wfD(5) [OF assms(2), of "(fst r, artifact)" a]
  by (auto simp: latestInstallerArtifact_def GetArtifact_def rd_Some split: option.splits)

lemma served_files:
  assumes "store_wf sha st"
  shows "setupDownload q ch pf st = Inr (name, h, b) \<Longrightarrow> h = hex_EncodeToString (sha b)"
    "setupDownload q ch pf st = Inr (name, h, b) \<Longrightarrow> setupManifest_handler q https host ch pf st = Inr m
      \<Longrightarrow> sm_SHA256 m = h \<and> sm_Size m = int (length b)"
    "cliDownload q ch os st = Inr (h, b) \<Longrightarrow> h = hex_EncodeToString (sha b)"
proof -
  assume d: "setupDownload q ch pf st = Inr (name, h, b)"
  then obtain c r a where c: "setupChannel ch = Some c" "latestInstallerArtifact q c (installerArtifactFor pf) st = Inr (r, a)"
      "h = ar_Sha256 a" "b = ar_Data a"
    by (auto simp: setupDownload_def Let_def split: option.splits sum.splits prod.splits)
  have ok: "artifact_ok sha st (fst r, installerArtifactFor pf) a" using latestInstaller_ok [OF c(2) assms] .
  then show "h = hex_EncodeToString (sha b)" by (simp add: artifact_ok_def c)
  show "sm_SHA256 m = h \<and> sm_Size m = int (length b)" if "setupManifest_handler q https host ch pf st = Inr m"
    using that c ok by (cases r) (auto simp: setupManifest_handler_def Let_def artifact_ok_def)
next
  assume "cliDownload q ch os st = Inr (h, b)"
  then show "h = hex_EncodeToString (sha b)"
    using store_wfD(5) [OF assms] by (auto simp: cliDownload_def Let_def GetArtifact_def artifact_ok_def rd_Some split: option.splits)
qed


text \<open>An upload of a new version by the administrator, with a Linux part that is not an archive.\<close>

definition demo_bad_upload :: uploadForm where
  "demo_bad_upload = \<lparr>uf_Version = ''4.0.0'', uf_Notes = [], uf_Channel = [], uf_Bundle = False, uf_Setup = FileData [77, 90, 4],
     uf_Linux = FileData [1, 2, 3], uf_Cli = NoFile, uf_CliLinux = NoFile\<rparr>"


text \<open>A refused upload can break a channel: when the Linux part of an upload of a new version is no archive, the
  request is answered with an error, but the release row is already there. As the newest row of the channel it
  becomes the latest release, the Linux installer of the channel is gone for every download, and no Linux
  node that follows the channel is offered anything.\<close>

theorem refused_upload_breaks_channel:
  assumes "store_wf sha st" "usr_IsAdmin (snd a)" "uf_Version f \<noteq> []" "\<not> uf_Bundle f" "ch = (if uf_Channel f = [] then ''stable'' else uf_Channel f)"
    and "ch \<in> set validChannels" "upload_setup etx f = Inr sb" "uf_Linux f = FileData b" "gzip_magic b \<noteq> None"
    and "\<forall>x. \<not> rq_fails q x" "GetReleaseByVersion (uf_Version f) st = None" "tget (rs_releases st) (rq_new q 0) = None"
    and "\<forall>i r. tget (rs_releases st) i = Some r \<longrightarrow> re_CreatedAt r < rq_now q"
  shows "\<exists>st'. adminUploadRelease sha etx q a (Some f) st = (Inl (bad_request ''linux is not a gzip archive (1f 8b)''), st')
     \<and> (\<exists>r. GetLatestReleaseByChannel ch st' = Some (rq_new q 0, r) \<and> re_Version r = uf_Version f)
     \<and> (\<forall>q'. \<exists>e. setupDownload q' ch ''linux'' st' = Inl e)
     \<and> (\<forall>q' i n cur d. tget (db_nodes d) i = Some n \<and> nd_Platform n = ''linux'' \<and> nd_Channel n = ch \<and> nd_TargetRelease n = None
          \<and> \<not> rq_fails q' ''GetNodeByID'' \<longrightarrow> maybeOfferUpdate q' i cur d st' = None)"
proof -
  let ?g = "rq_new q 0"
  let ?r = "\<lparr>re_Version = uf_Version f, re_Notes = uf_Notes f, re_CreatedAt = rq_now q, re_Channel = ch\<rparr>"
  let ?st1 = "st\<lparr>rs_releases := tput ?g ?r (rs_releases st)\<rparr>"
  have cr: "CreateRelease ?g (rq_now q) (uf_Version f) (uf_Notes f) ch st = Inr (?g, ?st1)"
    using assms(6,11,12) by (simp add: CreateRelease_def)
  have magic: "gzip_magic b = Some ''linux is not a gzip archive (1f 8b)''" using assms(9) by (auto simp: gzip_magic_def)
  define st' where "st' = snd (put_part sha etx q ?g (case sb of None \<Rightarrow> NoFile | Some b \<Rightarrow> FileData b) ''setup'' setupArtifactName no_magic ?st1)"
  have first: "put_part sha etx q ?g (case sb of None \<Rightarrow> NoFile | Some b \<Rightarrow> FileData b) ''setup'' setupArtifactName no_magic ?st1 = (None, st')"
    using assms(10) by (cases sb) (simp_all add: st'_def put_part_def no_magic_def PutArtifact_def wr_def)
  have up: "adminUploadRelease sha etx q a (Some f) st = (Inl (bad_request ''linux is not a gzip archive (1f 8b)''), st')"
  proof -
    have g: "\<not> (ch \<noteq> ''stable'' \<and> ch \<noteq> ''dev'')" using assms(6) by (auto simp: validChannels_def)
    show ?thesis
      unfolding adminUploadRelease_def Let_def option.case assms(5) [symmetric] if_not_P [OF g]
      using assms(2,3,4,7,8,10) cr first magic by (simp add: wr_def put_part_def)
  qed
  have rel: "rs_releases st' = tput ?g ?r (rs_releases st)"
    and art: "GetArtifact ?g linuxArtifactName st' = None"
  proof -
    have n: "tget (rs_artifacts st) (?g, x) = None" for x
      using store_wfD(5) [OF assms(1), of "(?g, x)"] assms(12) by (cases "tget (rs_artifacts st) (?g, x)") (auto simp: artifact_ok_def)
    have "setupArtifactName \<noteq> linuxArtifactName" by (simp add: setupArtifactName_def linuxArtifactName_def)
    then show "rs_releases st' = tput ?g ?r (rs_releases st)" "GetArtifact ?g linuxArtifactName st' = None"
      using assms(10) n by (cases sb; simp add: st'_def put_part_def no_magic_def PutArtifact_def wr_def GetArtifact_def)+
  qed
  have in': "(i, r) \<in> set (rs_releases st') \<longleftrightarrow> tget (rs_releases st') i = Some r" for i r
    using tget_in_set [of "rs_releases st'" i r] store_wfD(1) [OF assms(1)] by (simp add: rel)
  have latest: "GetLatestReleaseByChannel ch st' = Some (?g, ?r)"
  proof -
    have new: "(?g, ?r) \<in> set (rs_releases st')" using in' [of ?g ?r] by (simp add: rel)
    then obtain i r where l: "GetLatestReleaseByChannel ch st' = Some (i, r)"
      using GetLatest_exists [OF new, of ch] by auto
    have "re_CreatedAt ?r \<le> re_CreatedAt r" using GetLatest_newest [OF l new] by simp
    moreover have "tget (rs_releases st') i = Some r" using GetLatest_in(1) [OF l] unfolding in' .
    ultimately have "i = ?g \<and> r = ?r"
      using assms(13) unfolding rel by (cases "i = ?g") (simp_all, meson leD)
    then show ?thesis using l by simp
  qed
  have down: "\<exists>e. setupDownload q' ch ''linux'' st' = Inl e" for q'
    using latest art assms(6)
    by (cases "rd q' ''GetLatestReleaseByChannel'' (Some (?g, ?r))")
      (auto simp: setupDownload_def setupChannel_def validChannels_def latestInstallerArtifact_def installerArtifactFor_def rd_def Let_def)
  have none: "maybeOfferUpdate q' i cur d st' = None"
    if "tget (db_nodes d) i = Some n" "nd_Platform n = ''linux''" "nd_Channel n = ch" "nd_TargetRelease n = None" "\<not> rq_fails q' ''GetNodeByID''" for q' i n cur d
  proof -
    have "ch \<noteq> []" using assms(6) by (auto simp: validChannels_def)
    then have "targetReleaseFor q' i d st' = Some (?g, ?r) \<or> targetReleaseFor q' i d st' = None"
      using that latest by (auto simp: targetReleaseFor_def GetNodeTargetRelease_def rd_def)
    then show ?thesis using that art by (auto simp: maybeOfferUpdate_def Let_def GetNodeByID_def rd_def split: option.splits)
  qed
  show ?thesis using up latest down none by (intro exI [of _ st']) auto
qed


theorem refused_upload_breaks_channel_witness:
  "\<exists>st'. adminUploadRelease (\<lambda>b. b) (\<lambda>_. []) demo_rq (''#1'', demo_user ''a@x'' True) (Some demo_bad_upload) demo_store
       = (Inl (bad_request ''linux is not a gzip archive (1f 8b)''), st')
     \<and> (\<exists>r. GetLatestReleaseByChannel ''stable'' st' = Some (''#9'', r) \<and> re_Version r = ''4.0.0'')"
proof -
  let ?a = "(''#1'', demo_user ''a@x'' True)"
  have f: "usr_IsAdmin (snd ?a)" "uf_Version demo_bad_upload \<noteq> []" "\<not> uf_Bundle demo_bad_upload"
    "''stable'' = (if uf_Channel demo_bad_upload = [] then ''stable'' else uf_Channel demo_bad_upload)" "''stable'' \<in> set validChannels"
    "upload_setup (\<lambda>_. []) demo_bad_upload = Inr (Some [77, 90, 4])" "uf_Linux demo_bad_upload = FileData [1, 2, 3]" "gzip_magic [1, 2, 3] \<noteq> None"
    by (simp_all add: demo_bad_upload_def demo_user_def validChannels_def upload_setup_def mz_magic_def gzip_magic_def)
  have q: "\<forall>x. \<not> rq_fails demo_rq x" "GetReleaseByVersion (uf_Version demo_bad_upload) demo_store = None"
    "tget (rs_releases demo_store) (rq_new demo_rq 0) = None"
    "\<forall>i r. tget (rs_releases demo_store) i = Some r \<longrightarrow> re_CreatedAt r < rq_now demo_rq"
    by (auto simp: demo_rq_def demo_store_def demo_bad_upload_def GetReleaseByVersion_def split: if_splits)
  have g: "rq_new demo_rq 0 = ''#9''" "uf_Version demo_bad_upload = ''4.0.0''" by (simp_all add: demo_rq_def demo_bad_upload_def)
  show ?thesis
    using refused_upload_breaks_channel [OF demo_store_wf f q] unfolding g by blast
qed


end
