(* ===== verification/Agent_Connect.thy ===== *)
theory Agent_Connect
  imports Session_Life Releases
begin

text \<open>
  The agent's side of the control connection (\<open>src/agent/connect/client.go\<close>): reconnection with back-off, the
  handshake, the read loop and the deregistration of the node; and the session engine it feeds
  (\<open>src/agent/session/engine.go\<close>). What is read from the WebSocket is a list of results; a message is its type
  with the decoded payload, \<open>None\<close> when the payload does not decode. A goroutine that the read loop starts is a task
  that runs at any later time.
\<close>

subsection \<open>Messages\<close>

datatype read_err = PeerClosed int | PeerEOF | ReadTimeout | BadFrame

datatype down_msg =
    Challenge "string option"
  | HelloAck string
  | HeartbeatAck string
  | ErrorMsg string string
  | OpenMsg "SessionOpen option"
  | CloseMsg "(string \<times> string) option"
  | UpdateMsg "UpdateAvailable option"
  | SasRequestMsg "(string \<times> string) option"
  | OtherMsg string

datatype up_msg =
    UpResponse ChallengeResponse
  | UpHello Hello
  | UpHeartbeat string
  | UpNodeDelete
  | UpRefused string

text \<open>The identity key and the machine.\<close>

record agent_id =
  ai_NodeID :: string
  ai_Priv :: bytes
  ai_Hostname :: string
  ai_ShellType :: string
  ai_Version :: string
  ai_OS :: string
  ai_OSVersion :: string

datatype conn_error =
    DialFailed | ChallengeRead read_err | NotChallenge | BadChallenge | WriteFailed | AckRead read_err | NotAck | CallerGone
  | NoConfirmation read_err | Refusal string string

subsection \<open>Back-off\<close>

definition backoff_base :: duration where "backoff_base = 2 * Second"
definition backoff_max :: duration where "backoff_max = 5 * Minute"

definition backoff_delay :: "nat \<Rightarrow> duration \<Rightarrow> duration" where
  "backoff_delay n jitter =
     (let d = backoff_base * 2 ^ min n 18 in (if d > backoff_max then backoff_max else d) + jitter)"

text \<open>The loop of \<open>Run\<close>: each attempt is how long it lasted and the random value drawn after it.\<close>

fun run_backoff :: "duration \<Rightarrow> (duration \<times> duration) list \<Rightarrow> nat \<Rightarrow> duration list" where
  "run_backoff reset [] n = []"
| "run_backoff reset ((lasted, jitter) # rest) n =
     (let n0 = (if lasted > reset then 0 else n)
      in backoff_delay n0 jitter # run_backoff reset rest (n0 + 1))"

definition backoff_reset :: "duration \<Rightarrow> duration" where
  "backoff_reset r = (if r \<le> 0 then Minute else r)"

subsection \<open>Handshake\<close>

definition next_read :: "(read_err + down_msg) list \<Rightarrow> (read_err + down_msg) \<times> (read_err + down_msg) list" where
  "next_read rs = (case rs of [] \<Rightarrow> (Inl ReadTimeout, []) | r # rest \<Rightarrow> (r, rest))"

definition challenge_response :: "(bytes \<Rightarrow> string \<Rightarrow> bytes) \<Rightarrow> agent_id \<Rightarrow> string \<Rightarrow> ChallengeResponse" where
  "challenge_response sign k nonce = \<lparr>cr_NodeID = ai_NodeID k, cr_Signature = sign (ai_Priv k) nonce\<rparr>"

definition agent_greeting :: "agent_id \<Rightarrow> Hello" where
  "agent_greeting k = \<lparr>he_NodeID = ai_NodeID k, he_Hostname = ai_Hostname k, he_ShellType = ai_ShellType k,
     he_AgentVersion = ai_Version k, he_OS = ai_OS k, he_OSVersion = ai_OSVersion k\<rparr>"

text \<open>The result is the announced target version (empty: none) with the unread rest; \<open>wok i\<close> says whether the
  \<open>i\<close>-th write succeeds. The second component is what was written.\<close>

definition agent_handshake ::
  "(bytes \<Rightarrow> string \<Rightarrow> bytes) \<Rightarrow> agent_id \<Rightarrow> bool \<Rightarrow> (nat \<Rightarrow> bool) \<Rightarrow> (read_err + down_msg) list
     \<Rightarrow> (conn_error + string \<times> (read_err + down_msg) list) \<times> up_msg list" where
  "agent_handshake sign k dialed wok rs =
     (if \<not> dialed then (Inl DialFailed, [])
      else case next_read rs of
        (Inl e, _) \<Rightarrow> (Inl (ChallengeRead e), [])
      | (Inr (Challenge None), _) \<Rightarrow> (Inl BadChallenge, [])
      | (Inr (Challenge (Some nonce)), rs1) \<Rightarrow>
          if \<not> wok 0 then (Inl WriteFailed, [])
          else
            let r = UpResponse (challenge_response sign k nonce) in
            if \<not> wok 1 then (Inl WriteFailed, [r])
            else
              let ups = [r, UpHello (agent_greeting k)] in
              (case next_read rs1 of
                 (Inl e, _) \<Rightarrow> (Inl (AckRead e), ups)
               | (Inr (HelloAck target), rs2) \<Rightarrow> (Inr (target, rs2), ups)
               | (Inr _, _) \<Rightarrow> (Inl NotAck, ups))
      | (Inr _, _) \<Rightarrow> (Inl NotChallenge, []))"

definition strings_Replace1 :: "string \<Rightarrow> string \<Rightarrow> string \<Rightarrow> string" where
  "strings_Replace1 s old new =
     (case strings_Index s old of None \<Rightarrow> s | Some i \<Rightarrow> take i s @ new @ drop (i + length old) s)"

definition wsURL :: "string \<Rightarrow> string" where
  "wsURL u = strings_Replace1 (strings_Replace1 u ''https://'' ''wss://'') ''http://'' ''ws://''"

subsection \<open>The read loop\<close>

text \<open>What the loop hands to other goroutines, and the versions it reports.\<close>

datatype task =
    TaskOpen SessionOpen
  | TaskClose string string
  | TaskUpdate UpdateAvailable
  | TaskSas string string

record client =
  cl_ready :: bool
  cl_sender :: "nat option"
  cl_targets :: "string list"
  cl_tasks :: "task list"
  cl_dead :: bool

definition readDeadline :: "duration \<Rightarrow> duration" where
  "readDeadline beat = (if 3 * beat \<ge> Second then 3 * beat else Second)"

definition OnTargetVersion :: "string \<Rightarrow> client \<Rightarrow> client" where
  "OnTargetVersion t c = (if t = [] then c else c\<lparr>cl_targets := cl_targets c @ [t]\<rparr>)"

definition add_task :: "task \<Rightarrow> client \<Rightarrow> client" where
  "add_task t c = c\<lparr>cl_tasks := cl_tasks c @ [t]\<rparr>"

fun drain_step :: "read_err + down_msg \<Rightarrow> client \<Rightarrow> client" where
  "drain_step (Inl e) c = c\<lparr>cl_dead := True\<rparr>"
| "drain_step (Inr (HeartbeatAck t)) c = OnTargetVersion t c"
| "drain_step (Inr (OpenMsg (Some so))) c = add_task (TaskOpen so) c"
| "drain_step (Inr (CloseMsg (Some (sid, reason)))) c = add_task (TaskClose sid reason) c"
| "drain_step (Inr (UpdateMsg (Some u))) c = add_task (TaskUpdate u) c"
| "drain_step (Inr (SasRequestMsg (Some (i, reason)))) c = add_task (TaskSas i reason) c"
| "drain_step (Inr _) c = c"

fun drain :: "(read_err + down_msg) list \<Rightarrow> client \<Rightarrow> client" where
  "drain [] c = c"
| "drain (r # rs) c = (let c1 = drain_step r c in if cl_dead c1 then c1 else drain rs c1)"

text \<open>One connection up to the end of its read loop; \<open>p\<close> is its identity; the heartbeats of its ticker are left out. A connection that did not get
  through the handshake leaves the client as it was.\<close>

definition once ::
  "(bytes \<Rightarrow> string \<Rightarrow> bytes) \<Rightarrow> agent_id \<Rightarrow> nat \<Rightarrow> bool \<Rightarrow> (nat \<Rightarrow> bool) \<Rightarrow> (read_err + down_msg) list \<Rightarrow> client
     \<Rightarrow> (conn_error option \<times> client) \<times> up_msg list" where
  "once sign k p dialed wok rs c =
     (case agent_handshake sign k dialed wok rs of
        (Inl e, ups) \<Rightarrow> ((Some e, c), ups)
      | (Inr (target, rest), ups) \<Rightarrow>
          let c1 = (OnTargetVersion target c)\<lparr>cl_ready := True, cl_sender := Some p, cl_dead := False\<rparr>
          in ((None, (drain rest c1)\<lparr>cl_ready := False\<rparr>), ups))"

text \<open>A single handshake, for tests and load runs; and whether the connection is ready.\<close>

definition RunOnce ::
  "(bytes \<Rightarrow> string \<Rightarrow> bytes) \<Rightarrow> agent_id \<Rightarrow> bool \<Rightarrow> (nat \<Rightarrow> bool) \<Rightarrow> (read_err + down_msg) list \<Rightarrow> conn_error option \<times> up_msg list" where
  "RunOnce sign k dialed wok rs =
     (case agent_handshake sign k dialed wok rs of (Inl e, ups) \<Rightarrow> (Some e, ups) | (Inr _, ups) \<Rightarrow> (None, ups))"

definition client_Connected :: "client \<Rightarrow> bool" where
  "client_Connected c = cl_ready c"

text \<open>Deregistration: closing of the connection by the server is the confirmation.\<close>

fun await_delete :: "(read_err + down_msg) list \<Rightarrow> conn_error option" where
  "await_delete [] = Some (NoConfirmation ReadTimeout)"
| "await_delete (Inl (PeerClosed code) # rs) = None"
| "await_delete (Inl PeerEOF # rs) = None"
| "await_delete (Inl e # rs) = Some (NoConfirmation e)"
| "await_delete (Inr (ErrorMsg code msg) # rs) = Some (Refusal code msg)"
| "await_delete (Inr _ # rs) = await_delete rs"

definition client_DeleteNode ::
  "(bytes \<Rightarrow> string \<Rightarrow> bytes) \<Rightarrow> agent_id \<Rightarrow> bool \<Rightarrow> (nat \<Rightarrow> bool) \<Rightarrow> (read_err + down_msg) list
     \<Rightarrow> conn_error option \<times> up_msg list" where
  "client_DeleteNode sign k dialed wok rs =
     (case agent_handshake sign k dialed wok rs of
        (Inl e, ups) \<Rightarrow> (Some e, ups)
      | (Inr (_, rest), ups) \<Rightarrow>
          if \<not> wok 2 then (Some WriteFailed, ups) else (await_delete rest, ups @ [UpNodeDelete]))"

subsection \<open>The session engine\<close>

datatype handler_kind = WithSocket | Socketless

datatype run_phase = Dialing | Handling

record run =
  rn_sid :: string
  rn_open :: SessionOpen
  rn_kind :: handler_kind
  rn_phase :: run_phase
  rn_cancelled :: bool

record engine =
  en_handlers :: "(string, handler_kind) table"
  en_active :: "(string, nat) table"
  en_runs :: "(nat, run) table"
  en_next :: nat
  en_sent :: "up_msg list"

definition NewEngine :: "(string \<times> handler_kind) list \<Rightarrow> engine" where
  "NewEngine hs = \<lparr>en_handlers = hs, en_active = [], en_runs = [], en_next = 0, en_sent = []\<rparr>"

definition HandleSessionOpen :: "SessionOpen \<Rightarrow> engine \<Rightarrow> engine" where
  "HandleSessionOpen so e =
     (case tget (en_handlers e) (so_Kind so) of
        None \<Rightarrow> e\<lparr>en_sent := en_sent e @ [UpRefused (so_SessionID so)]\<rparr>
      | Some k \<Rightarrow>
          e\<lparr>en_active := tput (so_SessionID so) (en_next e) (en_active e),
            en_runs := tput (en_next e) \<lparr>rn_sid = so_SessionID so, rn_open = so, rn_kind = k,
               rn_phase = (case k of WithSocket \<Rightarrow> Dialing | Socketless \<Rightarrow> Handling), rn_cancelled = False\<rparr> (en_runs e),
            en_next := en_next e + 1\<rparr>)"

definition HandleSessionClose :: "string \<Rightarrow> engine \<Rightarrow> engine" where
  "HandleSessionClose sid e =
     (case tget (en_active e) sid of
        None \<Rightarrow> e
      | Some t \<Rightarrow> (case tget (en_runs e) t of
            None \<Rightarrow> e
          | Some r \<Rightarrow> e\<lparr>en_runs := tput t (r\<lparr>rn_cancelled := True\<rparr>) (en_runs e)\<rparr>))"

text \<open>The end of a session's goroutine, and the outcome of its dial.\<close>

definition run_ends :: "nat \<Rightarrow> engine \<Rightarrow> engine" where
  "run_ends t e =
     (case tget (en_runs e) t of
        None \<Rightarrow> e
      | Some r \<Rightarrow> e\<lparr>en_active := tdel (rn_sid r) (en_active e), en_runs := tdel t (en_runs e)\<rparr>)"

definition dial_done :: "nat \<Rightarrow> bool \<Rightarrow> engine \<Rightarrow> engine" where
  "dial_done t ok e =
     (case tget (en_runs e) t of
        None \<Rightarrow> e
      | Some r \<Rightarrow>
          if rn_phase r \<noteq> Dialing then e
          else if \<not> ok then run_ends t e
          else e\<lparr>en_runs := tput t (r\<lparr>rn_phase := Handling\<rparr>) (en_runs e)\<rparr>)"

datatype engine_event =
    EnOpen SessionOpen
  | EnClose string
  | EnDial nat bool
  | EnEnd nat

fun engine_step :: "engine_event \<Rightarrow> engine \<Rightarrow> engine" where
  "engine_step (EnOpen so) e = HandleSessionOpen so e"
| "engine_step (EnClose sid) e = HandleSessionClose sid e"
| "engine_step (EnDial t ok) e = dial_done t ok e"
| "engine_step (EnEnd t) e = run_ends t e"

text \<open>The tasks of the read loop that concern sessions.\<close>

fun task_event :: "task \<Rightarrow> engine_event option" where
  "task_event (TaskOpen so) = Some (EnOpen so)"
| "task_event (TaskClose sid reason) = Some (EnClose sid)"
| "task_event _ = None"

definition run_tasks :: "task list \<Rightarrow> engine \<Rightarrow> engine" where
  "run_tasks ts e = fold engine_step (List.map_filter task_event ts) e"

subsection \<open>Back-off bounds\<close>

lemma backoff_delay_bounds:
  assumes "0 \<le> jitter" "jitter < backoff_base"
  shows "backoff_base \<le> backoff_delay n jitter" "backoff_delay n jitter < backoff_max + backoff_base"
    "backoff_base * 2 ^ n \<le> backoff_max \<Longrightarrow> backoff_delay n jitter = backoff_base * 2 ^ n + jitter"
    "n \<ge> 8 \<Longrightarrow> backoff_delay n jitter \<ge> backoff_max"
proof -
  have p: "(1::int) \<le> 2 ^ min n 18" by simp
  have b: "backoff_base \<le> backoff_base * 2 ^ min n 18" using p by (simp add: backoff_base_def)
  have m: "backoff_base \<le> backoff_max" by (simp add: backoff_base_def backoff_max_def)
  show "backoff_base \<le> backoff_delay n jitter" "backoff_delay n jitter < backoff_max + backoff_base"
    unfolding backoff_delay_def Let_def using b m assms by (smt (verit))+
  show "backoff_delay n jitter = backoff_base * 2 ^ n + jitter" if "backoff_base * 2 ^ n \<le> backoff_max"
  proof -
    have "n < 18"
    proof (rule ccontr)
      assume "\<not> n < 18"
      then have "(2::int) ^ 18 \<le> 2 ^ n" by (intro power_increasing) simp_all
      then show False using that by (simp add: backoff_base_def backoff_max_def)
    qed
    then show ?thesis using that by (simp add: backoff_delay_def min_def)
  qed
  show "backoff_delay n jitter \<ge> backoff_max" if "n \<ge> 8"
  proof -
    have "(2::int) ^ 8 \<le> 2 ^ min n 18" using that by (intro power_increasing) simp_all
    then have "backoff_base * 2 ^ min n 18 \<ge> backoff_max" by (simp add: backoff_base_def backoff_max_def)
    then show ?thesis using assms(1) by (auto simp: backoff_delay_def Let_def)
  qed
qed

lemma run_backoff_nth:
  "i < length ats \<Longrightarrow> \<exists>m. run_backoff reset ats n ! i = backoff_delay m (snd (ats ! i))
     \<and> (fst (ats ! i) > reset \<longrightarrow> m = 0) \<and> ((\<forall>j \<le> i. fst (ats ! j) \<le> reset) \<longrightarrow> m = n + i)"
proof (induction ats arbitrary: i n)
  case (Cons a ats)
  obtain l j where a: "a = (l, j)" by fastforce
  let ?n0 = "if l > reset then 0 else n"
  show ?case
  proof (cases i)
    case 0
    then show ?thesis by (intro exI [of _ ?n0]) (simp add: a Let_def)
  next
    case (Suc i')
    obtain m where m: "run_backoff reset ats (?n0 + 1) ! i' = backoff_delay m (snd (ats ! i'))"
        "fst (ats ! i') > reset \<longrightarrow> m = 0" "(\<forall>j \<le> i'. fst (ats ! j) \<le> reset) \<longrightarrow> m = ?n0 + 1 + i'"
      using Cons.IH [of i' "?n0 + 1"] Cons.prems Suc by auto
    have "m = n + i" if "\<forall>j \<le> i. fst ((a # ats) ! j) \<le> reset"
    proof -
      have "l \<le> reset" using that a by (metis fst_conv le0 nth_Cons_0)
      moreover have "\<forall>j \<le> i'. fst (ats ! j) \<le> reset" using that Suc by (metis Suc_le_mono nth_Cons_Suc)
      ultimately show ?thesis using m(3) Suc by simp
    qed
    then show ?thesis using m(1,2) Suc by (intro exI [of _ m]) (simp add: a Let_def)
  qed
qed simp

text \<open>Reconnection is neither too eager nor too slow. In every run of the loop each pause is at least two
  seconds and less than five minutes and two seconds; after a connection that lasted longer than the reset time the pause
  is below four seconds; and while attempts keep failing fast the \<open>i\<close>-th pause is \<open>2^(i+1)\<close> seconds (plus
  jitter) as long as this is within five minutes, and at least five minutes from the ninth on.\<close>

theorem reconnect_pauses:
  assumes "\<forall>a \<in> set ats. 0 \<le> snd a \<and> snd a < backoff_base" "i < length ats"
  shows "let d = run_backoff reset ats 0 ! i in
     backoff_base \<le> d \<and> d < backoff_max + backoff_base
     \<and> (fst (ats ! i) > reset \<longrightarrow> d < 4 * Second)
     \<and> ((\<forall>j \<le> i. fst (ats ! j) \<le> reset) \<longrightarrow>
          (backoff_base * 2 ^ i \<le> backoff_max \<longrightarrow> d = backoff_base * 2 ^ i + snd (ats ! i)) \<and> (i \<ge> 8 \<longrightarrow> d \<ge> backoff_max))"
proof -
  obtain m where m: "run_backoff reset ats 0 ! i = backoff_delay m (snd (ats ! i))"
      "fst (ats ! i) > reset \<longrightarrow> m = 0" "(\<forall>j \<le> i. fst (ats ! j) \<le> reset) \<longrightarrow> m = i"
    using run_backoff_nth [OF assms(2), of reset 0] by auto
  have j: "0 \<le> snd (ats ! i)" "snd (ats ! i) < backoff_base" using assms nth_mem by blast+
  note b = backoff_delay_bounds [OF j]
  have "backoff_delay 0 (snd (ats ! i)) < 4 * Second"
    using b(3) [of 0] j(2) by (simp add: backoff_base_def backoff_max_def)
  then show ?thesis using m b unfolding Let_def by auto
qed

theorem backoff_bounds_witness:
  "let d = run_backoff Minute [(0, 5), (Second, 7), (2 * Minute, 3)] 0 ! 2 in backoff_base \<le> d \<and> d < 4 * Second"
  using reconnect_pauses [of "[(0, 5), (Second, 7), (2 * Minute, 3)]" 2 Minute] by (simp add: backoff_base_def Let_def)

subsection \<open>Agent and server shake hands\<close>

text \<open>C23. An enrolled agent gets online. Whatever key an agent was enrolled with, if its signature on the
  server's nonce verifies under the public key in its row, then the server accepts both messages that the
  agent writes after the challenge, its row and connection become online, and the agent takes the server's
  acknowledgement as the end of the handshake with the server's target version.\<close>

theorem agent_gets_online:
  assumes "rq_parse q (ai_NodeID k) = Some (ai_NodeID k)" "\<And>x. \<not> rq_fails q x"
    and "tget (db_nodes (sv_db s)) (ai_NodeID k) = Some n" "b64std_Decode (nd_PublicKey n) = Some pub" "length pub = 32"
    and "vfy pub nonce (sign (ai_Priv k) nonce)"
  shows "\<exists>resp hello s' c. snd (agent_handshake sign k True (\<lambda>_. True) (Inr (Challenge (Some nonce)) # rest)) = [UpResponse resp, UpHello hello]
     \<and> agent_challenge vfy q nonce (Some resp) (sv_db s) = Some (ai_NodeID k, n)
     \<and> agent_hello q (ai_NodeID k) (Some hello) p s = Some (s', c) \<and> Online (ai_NodeID k) (sv_reg s') \<and> conn_ptr c = p
     \<and> (\<exists>n'. tget (db_nodes (sv_db s')) (ai_NodeID k) = Some n' \<and> nd_Status n' = ''online'')
     \<and> (\<forall>target more. rest = Inr (HelloAck target) # more \<longrightarrow>
          fst (agent_handshake sign k True (\<lambda>_. True) (Inr (Challenge (Some nonce)) # rest)) = Inr (target, more))"
proof -
  let ?h = "agent_handshake sign k True (\<lambda>_. True) (Inr (Challenge (Some nonce)) # rest)"
  have ups: "snd ?h = [UpResponse (challenge_response sign k nonce), UpHello (agent_greeting k)]"
    by (simp add: agent_handshake_def next_read_def Let_def split: list.split sum.split down_msg.split)
  have ch: "agent_challenge vfy q nonce (Some (challenge_response sign k nonce)) (sv_db s) = Some (ai_NodeID k, n)"
    using assms by (simp add: agent_challenge_def challenge_response_def rd_def GetNodeByID_def)
  obtain s' c where he: "agent_hello q (ai_NodeID k) (Some (agent_greeting k)) p s = Some (s', c)"
    by (simp add: agent_hello_def agent_greeting_def Let_def)
  have id: "he_NodeID (agent_greeting k) = ai_NodeID k" by (simp add: agent_greeting_def)
  have on: "Online (ai_NodeID k) (sv_reg s')" "conn_ptr c = p"
    using he by (auto simp: agent_hello_def agent_greeting_def Let_def Online_def)
  have st: "\<exists>n'. tget (db_nodes (sv_db s')) (ai_NodeID k) = Some n' \<and> nd_Status n' = ''online''"
    using agent_hello_online(1) [OF assms(3) id assms(2) he] by blast
  have "fst ?h = Inr (target, more)" if "rest = Inr (HelloAck target) # more" for target more
    using that by (simp add: agent_handshake_def next_read_def Let_def)
  then show ?thesis using ups ch he on st by blast
qed

theorem agent_gets_online_witness:
  "\<exists>resp hello s' c. snd (agent_handshake (\<lambda>_ _. [1]) \<lparr>ai_NodeID = ''#20'', ai_Priv = [], ai_Hostname = ''web'', ai_ShellType = [], ai_Version = ''1.0.0'',
        ai_OS = ''linux'', ai_OSVersion = []\<rparr> True (\<lambda>_. True) [Inr (Challenge (Some ''n0'')), Inr (HelloAck ''1.1.0'')]) = [UpResponse resp, UpHello hello]
     \<and> agent_hello (demo_rq\<lparr>rq_parse := Some\<rparr>) ''#20'' (Some hello) 7 \<lparr>sv_db = demo_db, sv_reg = registry_New\<rparr> = Some (s', c)
     \<and> Online ''#20'' (sv_reg s')"
proof -
  let ?k = "\<lparr>ai_NodeID = ''#20'', ai_Priv = [], ai_Hostname = ''web'', ai_ShellType = [], ai_Version = ''1.0.0'', ai_OS = ''linux'', ai_OSVersion = []\<rparr>"
  let ?q = "demo_rq\<lparr>rq_parse := Some\<rparr>" and ?s = "\<lparr>sv_db = demo_db, sv_reg = registry_New\<rparr>"
  have r: "rq_parse ?q (ai_NodeID ?k) = Some (ai_NodeID ?k)" "\<And>x. \<not> rq_fails ?q x"
    "tget (db_nodes (sv_db ?s)) (ai_NodeID ?k) = Some (demo_node ''#10'' ''web'' ''m1'' ''disabled'')"
    by (simp_all add: demo_rq_def demo_rows)
  have "\<exists>pub. b64std_Decode (nd_PublicKey (demo_node ''#10'' ''web'' ''m1'' ''disabled'')) = Some pub \<and> length pub = 32"
    using demo_key by (auto simp: demo_node_def bad_key_def split: option.splits)
  then obtain pub where pub: "b64std_Decode (nd_PublicKey (demo_node ''#10'' ''web'' ''m1'' ''disabled'')) = Some pub" "length pub = 32" by blast
  show ?thesis
    using agent_gets_online [OF r pub, of "\<lambda>_ _ _. True" "''n0''" "\<lambda>_ _. [1]" "[Inr (HelloAck ''1.1.0'')]" 7] by auto
qed

lemma hello_registers:
  assumes "agent_hello q i (Some h) p s = Some (s', c)"
  shows "registry_Get i (sv_reg s') = Some c" "conn_ptr c = p" "he_NodeID h = i"
    "tget (conns (sv_reg s)) i = Some old \<Longrightarrow> conn_Cancel old \<Longrightarrow> conn_ptr old \<in> set (cancelled (sv_reg s'))"
    "conn_Cancel c"
proof -
  have id: "he_NodeID h = i" using assms by (auto simp: agent_hello_def split: if_splits)
  let ?c = "\<lparr>conn_ptr = p, conn_NodeID = i, conn_Cancel = True, conn_LastBeat = rq_now q, conn_Beats = 0\<rparr>"
  have "\<exists>d. agent_hello q i (Some h) p s = Some (\<lparr>sv_db = d, sv_reg = Add ?c (sv_reg s)\<rparr>, ?c)"
    by (simp add: agent_hello_def id Let_def)
  then obtain d where d: "s' = \<lparr>sv_db = d, sv_reg = Add ?c (sv_reg s)\<rparr>" "c = ?c" using assms by (metis option.inject prod.inject)
  show "registry_Get i (sv_reg s') = Some c" "conn_ptr c = p" "conn_Cancel c" using d by (simp_all add: registry_Get_def Add_def Let_def)
  show "he_NodeID h = i" by (rule id)
  show "conn_ptr old \<in> set (cancelled (sv_reg s'))" if "tget (conns (sv_reg s)) i = Some old" "conn_Cancel old"
    using d that by (simp add: Add_def Let_def)
qed

text \<open>A session start can break the agent's handshake. The server registers the connection before it writes
  HELLO_ACK. A start of any session in between is sent on the new connection; the agent, which expects HELLO_ACK,
  takes the session order for a rejection and drops the connection, and the order with it.\<close>

theorem start_breaks_handshake:
  assumes "agent_hello q0 i (Some hello) p s0 = Some (ct_sv c, cn)" "rq_parse q (hr_ID h) = Some i"
    and "startSession L f64 enc q a h fr kind params oa ca extra desk c = (Inr (res, ans), c')"
  shows "\<exists>m. ct_sent c' = ct_sent c @ [(p, SessionOpenMsg m)] \<and> so_SessionID m = fr_sid fr
     \<and> fst (once sign k p True (\<lambda>_. True) (Inr (Challenge (Some nonce)) # Inr (OpenMsg (Some m)) # rest) cl) = (Some NotAck, cl)"
proof (rule startSession_success [OF assms(3)], goal_cases)
  case (1 n nd m lg c1 kc)
  have n: "n = i" using 1(1) assms(2) by simp
  have "kc = cn" "conn_ptr cn = p"
    using 1(5) hello_registers [OF assms(1)] by (simp_all add: n)
  then have "ct_sent c' = ct_sent c @ [(p, SessionOpenMsg (open_order res kind (enc params) (lg_agent lg)))]"
    unfolding 1(8) by (simp add: ct_audit_def)
  moreover have "so_SessionID (open_order res kind (enc params) (lg_agent lg)) = fr_sid fr"
    using create_result(3) [OF 1(3)] by (simp add: open_order_def)
  moreover have "fst (once sign k p True (\<lambda>_. True) (Inr (Challenge (Some nonce)) # Inr (OpenMsg (Some x)) # rest) cl) = (Some NotAck, cl)" for x
    by (simp add: once_def agent_handshake_def next_read_def Let_def)
  ultimately show ?case by blast
qed

definition demo_hello :: "string \<Rightarrow> Hello" where
  "demo_hello i = \<lparr>he_NodeID = i, he_Hostname = ''web'', he_ShellType = [], he_AgentVersion = ''1.0.0'', he_OS = [], he_OSVersion = []\<rparr>"

theorem start_breaks_handshake_witness:
  "\<exists>m c'. snd (startSession demo_lib (\<lambda>x. x) (\<lambda>_. ''{}'') demo_rq (demo_member ''#2'') (demo_http ''curl'' ''#22'') demo_fresh KindShell
       (ShellP \<lparr>sp_Cols = 80, sp_Rows = 25, sp_Shell = [], sp_System = False\<rparr>) ''shell.open'' ''shell.close'' [] None demo_center) = c'
     \<and> ct_sent c' = [(5, SessionOpenMsg m)]
     \<and> fst (once (\<lambda>_ _. [1]) k 5 True (\<lambda>_. True) [Inr (Challenge (Some ''n0'')), Inr (OpenMsg (Some m)), Inr (HelloAck [])] cl) = (Some NotAck, cl)"
proof -
  let ?p = "ShellP \<lparr>sp_Cols = 80, sp_Rows = 25, sp_Shell = [], sp_System = False\<rparr>"
  obtain res ans c' where r: "startSession demo_lib (\<lambda>x. x) (\<lambda>_. ''{}'') demo_rq (demo_member ''#2'') (demo_http ''curl'' ''#22'') demo_fresh
      KindShell ?p ''shell.open'' ''shell.close'' [] None demo_center = (Inr (res, ans), c')"
    using startSession_succeeds [of demo_rq "demo_http ''curl'' ''#22''" "''#22''" "demo_member ''#2''" demo_center] demo_may_start
    by metis
  have h: "agent_hello (demo_rq\<lparr>rq_now := 0, rq_fails := \<lambda>_. True\<rparr>) ''#22'' (Some (demo_hello ''#22'')) 5 \<lparr>sv_db = demo_db, sv_reg = registry_New\<rparr>
      = Some (ct_sv demo_center, \<lparr>conn_ptr = 5, conn_NodeID = ''#22'', conn_Cancel = True, conn_LastBeat = 0, conn_Beats = 0\<rparr>)"
    by (simp add: agent_hello_def demo_hello_def demo_center_def Let_def best_effort_def try_status_def wr_def demo_rq_def)
  have "\<exists>m. ct_sent c' = ct_sent demo_center @ [(5, SessionOpenMsg m)] \<and> so_SessionID m = fr_sid demo_fresh
     \<and> fst (once (\<lambda>_ _. [1]) k 5 True (\<lambda>_. True) [Inr (Challenge (Some ''n0'')), Inr (OpenMsg (Some m)), Inr (HelloAck [])] cl) = (Some NotAck, cl)"
    by (rule start_breaks_handshake [OF h _ r]) (simp add: demo_may_start)
  then show ?thesis using r by (auto simp: demo_center_def)
qed

text \<open>A deregistration can be confirmed although nothing was deleted. The agent takes any closing of the
  connection for the confirmation. When the agent's service connects again after the deregistration's own
  connection was registered and before the server reads NODE_DELETE, the server cancels the connection of the
  deregistration, which the agent reports as success; the node's row is still there.\<close>

theorem delete_confirmed_by_takeover:
  assumes "agent_hello q i (Some h1) p1 s = Some (s1, c1)" "agent_hello q i (Some h2) p2 s1 = Some (s2, c2)"
    and "tget (db_nodes (sv_db s)) i = Some n" "\<not> rq_fails q ''SetNodeStatus''"
  shows "p1 \<in> set (cancelled (sv_reg s2)) \<and> (\<exists>n'. tget (db_nodes (sv_db s2)) i = Some n')
     \<and> fst (client_DeleteNode sign k True (\<lambda>_. True) [Inr (Challenge (Some nonce)), Inr (HelloAck target), Inl PeerEOF]) = None"
proof -
  note i = hello_registers(3) [OF assms(1)] hello_registers(3) [OF assms(2)]
  obtain n1 where n1: "tget (db_nodes (sv_db s1)) i = Some n1" using agent_hello_online(1) [OF assms(3) i(1) assms(4,1)] by blast
  have "\<exists>n'. tget (db_nodes (sv_db s2)) i = Some n'" using agent_hello_online(1) [OF n1 i(2) assms(4,2)] by blast
  moreover have "p1 \<in> set (cancelled (sv_reg s2))"
    using hello_registers(4) [OF assms(2), of c1] hello_registers(1,2,5) [OF assms(1)] by (simp add: registry_Get_def)
  ultimately show ?thesis
    by (simp add: client_DeleteNode_def agent_handshake_def next_read_def Let_def)
qed

theorem delete_confirmed_by_takeover_witness:
  "\<exists>s1 c1 s2 c2. agent_hello demo_rq ''#20'' (Some (demo_hello ''#20'')) 1 \<lparr>sv_db = demo_db, sv_reg = registry_New\<rparr> = Some (s1, c1)
     \<and> agent_hello demo_rq ''#20'' (Some (demo_hello ''#20'')) 2 s1 = Some (s2, c2)
     \<and> 1 \<in> set (cancelled (sv_reg s2)) \<and> (\<exists>n'. tget (db_nodes (sv_db s2)) ''#20'' = Some n')"
proof -
  let ?s = "\<lparr>sv_db = demo_db, sv_reg = registry_New\<rparr>"
  have ex: "\<exists>s' c. agent_hello demo_rq ''#20'' (Some (demo_hello ''#20'')) p s = Some (s', c)" for p s
    by (simp add: agent_hello_def demo_hello_def Let_def)
  obtain s1 c1 where h1: "agent_hello demo_rq ''#20'' (Some (demo_hello ''#20'')) 1 ?s = Some (s1, c1)" using ex by blast
  obtain s2 c2 where h2: "agent_hello demo_rq ''#20'' (Some (demo_hello ''#20'')) 2 s1 = Some (s2, c2)" using ex by blast
  have "tget (db_nodes (sv_db ?s)) ''#20'' = Some (demo_node ''#10'' ''web'' ''m1'' ''disabled'')" "\<not> rq_fails demo_rq ''SetNodeStatus''"
    by (simp_all add: demo_rq_def demo_rows)
  from delete_confirmed_by_takeover [OF h1 h2 this, of "\<lambda>_ _. [1]" undefined "''n0''" "[]"] show ?thesis using h1 h2 by blast
qed

subsection \<open>Sessions of the engine\<close>

definition engine_inv :: "engine \<Rightarrow> bool" where
  "engine_inv e \<longleftrightarrow>
     (\<forall>sid t. tget (en_active e) sid = Some t \<longleftrightarrow> (\<exists>r. tget (en_runs e) t = Some r \<and> rn_sid r = sid))
     \<and> (\<forall>t r. tget (en_runs e) t = Some r \<longrightarrow> t < en_next e)"

text \<open>The server never orders the same session twice.\<close>

definition has_run :: "string \<Rightarrow> engine \<Rightarrow> bool" where
  "has_run sid e \<longleftrightarrow> (\<exists>t r. tget (en_runs e) t = Some r \<and> rn_sid r = sid)"

fun engine_pre :: "engine_event \<Rightarrow> engine \<Rightarrow> bool" where
  "engine_pre (EnOpen so) e \<longleftrightarrow> \<not> has_run (so_SessionID so) e"
| "engine_pre _ e \<longleftrightarrow> True"

lemma engine_invD:
  assumes "engine_inv e"
  shows "tget (en_active e) sid = Some t \<longleftrightarrow> (\<exists>r. tget (en_runs e) t = Some r \<and> rn_sid r = sid)"
    "tget (en_runs e) t = Some r \<Longrightarrow> t < en_next e"
    "tget (en_runs e) t = Some r \<Longrightarrow> tget (en_runs e) u = Some r' \<Longrightarrow> rn_sid r' = rn_sid r \<Longrightarrow> u = t"
proof -
  show a: "tget (en_active e) sid = Some t \<longleftrightarrow> (\<exists>r. tget (en_runs e) t = Some r \<and> rn_sid r = sid)" for sid t
    using assms unfolding engine_inv_def by blast
  show "tget (en_runs e) t = Some r \<Longrightarrow> t < en_next e" using assms unfolding engine_inv_def by blast
  show "u = t" if "tget (en_runs e) t = Some r" "tget (en_runs e) u = Some r'" "rn_sid r' = rn_sid r"
    using a [of "rn_sid r" t] a [of "rn_sid r" u] that by auto
qed

lemma upd_run_inv:
  assumes "engine_inv e" "tget (en_runs e) t = Some r" "rn_sid r' = rn_sid r"
  shows "engine_inv (e\<lparr>en_runs := tput t r' (en_runs e)\<rparr>)"
  using assms engine_invD(1,2) [OF assms(1)] unfolding engine_inv_def by auto

lemma run_ends_inv:
  assumes "engine_inv e"
  shows "engine_inv (run_ends t e)"
proof (cases "tget (en_runs e) t")
  case None
  then show ?thesis using assms by (simp add: run_ends_def)
next
  case (Some r)
  have a: "tget (tdel (rn_sid r) (en_active e)) sid = Some u \<longleftrightarrow> (\<exists>x. tget (tdel t (en_runs e)) u = Some x \<and> rn_sid x = sid)" for sid u
  proof (cases "sid = rn_sid r")
    case True
    then show ?thesis using engine_invD(3) [OF assms Some, of u] by auto
  next
    case False
    then show ?thesis using engine_invD(1) [OF assms, of sid u] Some by (cases "u = t") auto
  qed
  have b: "u < en_next e" if "tget (tdel t (en_runs e)) u = Some x" for u x
    using that engine_invD(2) [OF assms, of u x] by (cases "u = t") simp_all
  have e: "run_ends t e = e\<lparr>en_active := tdel (rn_sid r) (en_active e), en_runs := tdel t (en_runs e)\<rparr>"
    by (simp add: run_ends_def Some)
  show ?thesis unfolding e engine_inv_def using a b by simp
qed

lemma engine_inv_step:
  assumes "engine_inv e" "engine_pre ev e"
  shows "engine_inv (engine_step ev e)"
proof (cases ev)
  case (EnOpen so)
  show ?thesis
  proof (cases "tget (en_handlers e) (so_Kind so)")
    case None
    then show ?thesis using assms(1) EnOpen by (simp add: HandleSessionOpen_def engine_inv_def)
  next
    case (Some hk)
    have new: "tget (en_runs e) (en_next e) = None" using engine_invD(2) [OF assms(1), of "en_next e"] by fastforce
    have lt: "t < Suc (en_next e)" if "tget (en_runs e) t = Some r" for t r
      using engine_invD(2) [OF assms(1) that] by simp
    let ?r = "\<lparr>rn_sid = so_SessionID so, rn_open = so, rn_kind = hk,
       rn_phase = (case hk of WithSocket \<Rightarrow> Dialing | Socketless \<Rightarrow> Handling), rn_cancelled = False\<rparr>"
    have fresh: "rn_sid r \<noteq> so_SessionID so" if "tget (en_runs e) t = Some r" for t r
      using assms(2) EnOpen that by (auto simp: has_run_def)
    have st: "en_active (engine_step ev e) = tput (so_SessionID so) (en_next e) (en_active e)"
      "en_runs (engine_step ev e) = tput (en_next e) ?r (en_runs e)" "en_next (engine_step ev e) = Suc (en_next e)"
      using EnOpen Some by (simp_all add: HandleSessionOpen_def)
    have "tget (tput (so_SessionID so) (en_next e) (en_active e)) sid = Some t
        \<longleftrightarrow> (\<exists>x. tget (tput (en_next e) ?r (en_runs e)) t = Some x \<and> rn_sid x = sid)" for sid t
      using engine_invD(1) [OF assms(1), of sid t] new fresh by (cases "sid = so_SessionID so"; cases "t = en_next e") auto
    moreover have "u < Suc (en_next e)" if "tget (tput (en_next e) ?r (en_runs e)) u = Some x" for u x
      using that lt by (auto split: if_splits)
    ultimately show ?thesis unfolding engine_inv_def st by blast
  qed
next
  case (EnClose sid)
  then show ?thesis using assms(1) upd_run_inv [OF assms(1)] by (auto simp: HandleSessionClose_def split: option.splits)
next
  case (EnDial t ok)
  then show ?thesis using assms(1) upd_run_inv [OF assms(1)] run_ends_inv [OF assms(1)] by (auto simp: dial_done_def split: option.splits)
next
  case (EnEnd t)
  then show ?thesis using run_ends_inv [OF assms(1)] by simp
qed

interpretation engine: inv_machine engine_pre engine_step engine_inv
  by unfold_locales (rule engine_inv_step)


lemma close_cancels:
  assumes "engine_inv e"
  shows "tget (en_runs (HandleSessionClose sid e)) t
    = map_option (\<lambda>r. if rn_sid r = sid then r\<lparr>rn_cancelled := True\<rparr> else r) (tget (en_runs e) t)"
proof (cases "tget (en_active e) sid")
  case None
  then have "rn_sid r \<noteq> sid" if "tget (en_runs e) u = Some r" for u r using engine_invD(1) [OF assms, of sid u] that by auto
  then show ?thesis using None by (cases "tget (en_runs e) t") (auto simp: HandleSessionClose_def)
next
  case (Some u)
  then obtain r where r: "tget (en_runs e) u = Some r" "rn_sid r = sid" using engine_invD(1) [OF assms, of sid u] by blast
  have "rn_sid x \<noteq> sid" if "tget (en_runs e) t = Some x" "t \<noteq> u" for x
    using engine_invD(3) [OF assms r(1) that(1)] r(2) that(2) by auto
  then show ?thesis using Some r by (cases "t = u"; cases "tget (en_runs e) t") (auto simp: HandleSessionClose_def)
qed

lemma close_rest [simp]:
  "en_active (HandleSessionClose sid e) = en_active e" "en_next (HandleSessionClose sid e) = en_next e"
  "en_sent (HandleSessionClose sid e) = en_sent e" "en_handlers (HandleSessionClose sid e) = en_handlers e"
  by (simp_all add: HandleSessionClose_def split: option.splits)

text \<open>C24. Closing a session reaches exactly its goroutine. In every state the engine gets to, when no session is ordered
  while it runs, its table holds exactly the sessions with a running goroutine; \<open>SESSION_CLOSE\<close> cancels
  the goroutine of its session and changes no other, for dialing and handling ones alike, and for an
  unknown session does nothing.\<close>

theorem engine_close_exact:
  assumes "run_ok engine_pre engine_step es (NewEngine hs)"
  shows "let e = fold engine_step es (NewEngine hs); e' = engine_step (EnClose sid) e in
     (\<forall>t. tget (en_runs e') t = map_option (\<lambda>r. if rn_sid r = sid then r\<lparr>rn_cancelled := True\<rparr> else r) (tget (en_runs e) t))
     \<and> en_active e' = en_active e \<and> en_sent e' = en_sent e
     \<and> (tget (en_active e) sid = None \<longleftrightarrow> \<not> has_run sid e) \<and> (\<not> has_run sid e \<longrightarrow> e' = e)"
proof -
  let ?e = "fold engine_step es (NewEngine hs)"
  have i: "engine_inv ?e"
    by (rule engine.run_inv [OF _ assms]) (simp add: engine_inv_def NewEngine_def)
  have a: "tget (en_active ?e) sid = None \<longleftrightarrow> \<not> has_run sid ?e"
    unfolding has_run_def using engine_invD(1) [OF i, of sid] by (metis not_None_eq)
  then have "\<not> has_run sid ?e \<longrightarrow> engine_step (EnClose sid) ?e = ?e" by (auto simp: HandleSessionClose_def)
  then show ?thesis using close_cancels [OF i] a by (simp add: Let_def)
qed

definition demo_order :: "string \<Rightarrow> SessionOpen" where
  "demo_order sid = \<lparr>so_SessionID = sid, so_Kind = KindShell, so_Params = ''{}'', so_AgentToken = ''ta'', so_WsURL = ''wss://x'', so_ExpiresAt = 0\<rparr>"

theorem engine_close_exact_witness:
  "let e = fold engine_step [EnOpen (demo_order ''s1''), EnOpen (demo_order ''s2'')] (NewEngine [(KindShell, Socketless)])
   in tget (en_runs (engine_step (EnClose ''s1'') e)) 0 = Some \<lparr>rn_sid = ''s1'', rn_open = demo_order ''s1'', rn_kind = Socketless, rn_phase = Handling,
        rn_cancelled = True\<rparr>
      \<and> tget (en_runs (engine_step (EnClose ''s1'') e)) 1 = tget (en_runs e) 1"
proof -
  have "run_ok engine_pre engine_step [EnOpen (demo_order ''s1''), EnOpen (demo_order ''s2'')] (NewEngine [(KindShell, Socketless)])"
    by (simp add: has_run_def demo_order_def HandleSessionOpen_def NewEngine_def)
  from engine_close_exact [OF this, of "''s1''"] show ?thesis
    by (simp add: Let_def demo_order_def HandleSessionOpen_def NewEngine_def)
qed

text \<open>A goroutine of the session that nothing has cancelled.\<close>

definition uncancelled :: "nat \<Rightarrow> string \<Rightarrow> engine \<Rightarrow> bool" where
  "uncancelled t sid e \<longleftrightarrow> engine_inv e \<and> (\<exists>r. tget (en_runs e) t = Some r \<and> rn_sid r = sid \<and> \<not> rn_cancelled r)"

fun leaves_alone :: "nat \<Rightarrow> string \<Rightarrow> engine_event \<Rightarrow> bool" where
  "leaves_alone t sid (EnClose s) \<longleftrightarrow> s \<noteq> sid"
| "leaves_alone t sid (EnDial u ok) \<longleftrightarrow> u \<noteq> t \<or> ok"
| "leaves_alone t sid (EnEnd u) \<longleftrightarrow> u \<noteq> t"
| "leaves_alone t sid (EnOpen so) \<longleftrightarrow> True"

lemma uncancelled_step:
  assumes "uncancelled t sid e" "engine_pre ev e" "leaves_alone t sid ev"
  shows "uncancelled t sid (engine_step ev e)"
proof -
  have i: "engine_inv e" "engine_inv (engine_step ev e)" using assms engine_inv_step by (auto simp: uncancelled_def)
  obtain r where r: "tget (en_runs e) t = Some r" "rn_sid r = sid" "\<not> rn_cancelled r" using assms(1) by (auto simp: uncancelled_def)
  have "\<exists>x. tget (en_runs (engine_step ev e)) t = Some x \<and> rn_sid x = sid \<and> \<not> rn_cancelled x"
  proof (cases ev)
    case (EnOpen so)
    have "t \<noteq> en_next e" using engine_invD(2) [OF i(1) r(1)] by simp
    then show ?thesis using EnOpen r by (simp add: HandleSessionOpen_def split: option.split)
  next
    case (EnClose s)
    then show ?thesis using assms(3) r close_cancels [OF i(1), of s t] by simp
  next
    case (EnDial u ok)
    then show ?thesis using assms(3) r by (cases "u = t") (auto simp: dial_done_def run_ends_def split: option.split)
  next
    case (EnEnd u)
    then show ?thesis using assms(3) r by (auto simp: run_ends_def split: option.split)
  qed
  then show ?thesis using i(2) by (simp add: uncancelled_def)
qed

interpretation alone: inv_machine "\<lambda>ev e. engine_pre ev e \<and> leaves_alone t sid ev" engine_step "uncancelled t sid" for t sid
  by unfold_locales (use uncancelled_step in blast)

text \<open>A close can overtake its open. The read loop hands an order and the closing of the same session to two
  goroutines. Run in the order of arrival, they leave a cancelled goroutine; run in the opposite order, they leave one that
  stays uncancelled whatever happens to other sessions, until it ends by itself or the server closes the
  session a second time, which it never does.\<close>

theorem close_overtakes_open:
  assumes "engine_inv e" "\<not> has_run (so_SessionID so) e" "tget (en_handlers e) (so_Kind so) = Some hk" "\<not> cl_dead c"
  shows "let sid = so_SessionID so; t = en_next e; o1 = TaskOpen so; o2 = TaskClose sid reason in
     cl_tasks (drain [Inr (OpenMsg (Some so)), Inr (CloseMsg (Some (sid, reason)))] c) = cl_tasks c @ [o1, o2]
     \<and> (\<exists>r. tget (en_runs (run_tasks [o1, o2] e)) t = Some r \<and> rn_sid r = sid \<and> rn_cancelled r)
     \<and> (\<forall>es. run_ok (\<lambda>ev e. engine_pre ev e \<and> leaves_alone t sid ev) engine_step es (run_tasks [o2, o1] e) \<longrightarrow>
          uncancelled t sid (fold engine_step es (run_tasks [o2, o1] e)))"
proof -
  let ?sid = "so_SessionID so" and ?t = "en_next e"
  have i: "engine_inv (HandleSessionOpen so e)" using engine_inv_step [OF assms(1), of "EnOpen so"] assms(2) by simp
  have o: "\<exists>r. tget (en_runs (HandleSessionOpen so e)) ?t = Some r \<and> rn_sid r = ?sid \<and> \<not> rn_cancelled r"
    using assms(3) by (simp add: HandleSessionOpen_def)
  then have "\<exists>r. tget (en_runs (HandleSessionClose ?sid (HandleSessionOpen so e))) ?t = Some r \<and> rn_sid r = ?sid \<and> rn_cancelled r"
    using close_cancels [OF i, of ?sid ?t] by auto
  moreover have "HandleSessionClose ?sid e = e"
    using assms(2) engine_invD(1) [OF assms(1), of ?sid] by (auto simp: HandleSessionClose_def has_run_def split: option.split)
  moreover have "uncancelled ?t ?sid (HandleSessionOpen so e)" using i o by (simp add: uncancelled_def)
  moreover have "cl_tasks (drain [Inr (OpenMsg (Some so)), Inr (CloseMsg (Some (?sid, reason)))] c)
      = cl_tasks c @ [TaskOpen so, TaskClose ?sid reason]"
    using assms(4) by (simp add: Let_def add_task_def)
  ultimately show ?thesis
    using alone.run_inv [of ?t ?sid] by (auto simp: Let_def run_tasks_def List.map_filter_simps)
qed

theorem close_overtakes_open_witness:
  "let e = NewEngine [(KindShell, WithSocket)]; o1 = TaskOpen (demo_order ''s1''); o2 = TaskClose ''s1'' ''killed'' in
     uncancelled 0 ''s1'' (fold engine_step [EnOpen (demo_order ''s2''), EnDial 0 True, EnClose ''s2''] (run_tasks [o2, o1] e))"
proof -
  let ?e = "NewEngine [(KindShell, WithSocket)]"
  let ?c = "\<lparr>cl_ready = True, cl_sender = None, cl_targets = [], cl_tasks = [], cl_dead = False\<rparr>"
  have e: "engine_inv ?e" "\<not> has_run (so_SessionID (demo_order ''s1'')) ?e" "tget (en_handlers ?e) (so_Kind (demo_order ''s1'')) = Some WithSocket"
    "\<not> cl_dead ?c"
    by (simp_all add: engine_inv_def NewEngine_def has_run_def demo_order_def)
  have i: "so_SessionID (demo_order ''s1'') = ''s1''" "en_next ?e = 0" by (simp_all add: demo_order_def NewEngine_def)
  have "run_ok (\<lambda>ev e. engine_pre ev e \<and> leaves_alone 0 ''s1'' ev) engine_step [EnOpen (demo_order ''s2''), EnDial 0 True, EnClose ''s2'']
      (run_tasks [TaskClose ''s1'' ''killed'', TaskOpen (demo_order ''s1'')] ?e)"
    by (simp add: demo_order_def NewEngine_def has_run_def run_tasks_def List.map_filter_simps HandleSessionOpen_def HandleSessionClose_def
        dial_done_def)
  then show ?thesis
    using close_overtakes_open [OF e, where reason = "''killed''", unfolded Let_def i, THEN conjunct2, THEN conjunct2] unfolding Let_def by blast
qed

end
