(* ===== verification/Agent_Desktop.thy ===== *)
theory Agent_Desktop
  imports Session_Start
begin

text \<open>
  Desktop sessions on the agent: the manager of the virtual display (\<open>src/agent/display/display.go\<close>) over a
  back end of the operating system, and the session handler (\<open>src/agent/desktop/handler.go\<close>) that starts and stops the
  capture host of the native core. Each locked section and each remote call of the handler is one step
  of its goroutine, so that the steps of several sessions interleave. The core is what its messages promise: a
  start leaves the host running, also when it ran before, and a stop ends it.
\<close>

subsection \<open>The virtual display\<close>

text \<open>What the back end answers during one call of the manager: the feature switch, the driver, the handle of a
  new device process, plugging and unplugging, the physical output, the lid (\<open>None\<close>: no event yet) and
  the debugging knob. A zero handle is \<open>None\<close>.\<close>

record backend =
  be_enabled :: bool
  be_installed :: bool
  be_start :: "nat option"
  be_plug :: bool
  be_unplug :: bool
  be_physical :: bool
  be_lid :: "bool option"
  be_force :: string

datatype dev_call = DevStart nat | DevStop nat | DevPlug nat bool | DevUnplug nat bool

datatype display_error = ErrDisabled | ErrNotInstalled | ErrDevice | ErrPlug

record display =
  dm_handle :: "nat option"
  dm_plugged :: bool
  dm_refs :: nat
  dm_auto :: bool
  dm_manual :: bool
  dm_absent :: nat
  dm_present :: nat
  dm_calls :: "dev_call list"

definition physicalHysteresis :: nat where "physicalHysteresis = 2"

definition dev_call :: "dev_call \<Rightarrow> display \<Rightarrow> display" where
  "dev_call c m = m\<lparr>dm_calls := dm_calls m @ [c]\<rparr>"

definition ensureDeviceLocked :: "backend \<Rightarrow> display \<Rightarrow> display" where
  "ensureDeviceLocked B m =
     (if \<not> be_enabled B then m
      else if dm_handle m \<noteq> None \<or> \<not> be_installed B then m
      else case be_start B of None \<Rightarrow> m | Some h \<Rightarrow> dev_call (DevStart h) (m\<lparr>dm_handle := Some h\<rparr>))"

definition NewManager :: "backend \<Rightarrow> display" where
  "NewManager B = ensureDeviceLocked B \<lparr>dm_handle = None, dm_plugged = False, dm_refs = 0, dm_auto = False, dm_manual = False,
     dm_absent = 0, dm_present = 0, dm_calls = []\<rparr>"

definition updatePhysicalStreaksLocked :: "bool \<Rightarrow> display \<Rightarrow> display" where
  "updatePhysicalStreaksLocked physicalActive m =
     (if physicalActive then m\<lparr>dm_absent := 0, dm_present := dm_present m + 1\<rparr>
      else m\<lparr>dm_absent := dm_absent m + 1, dm_present := 0\<rparr>)"

definition physicalTriggerFromLocked :: "bool \<Rightarrow> display \<Rightarrow> bool" where
  "physicalTriggerFromLocked physicalActive m \<longleftrightarrow> \<not> physicalActive \<and> dm_absent m \<ge> physicalHysteresis"

definition physicalReleaseFromLocked :: "bool \<Rightarrow> display \<Rightarrow> bool" where
  "physicalReleaseFromLocked physicalActive m \<longleftrightarrow> physicalActive \<and> dm_present m \<ge> physicalHysteresis"

definition triggerWithPhysicalLocked :: "backend \<Rightarrow> bool \<Rightarrow> display \<Rightarrow> bool" where
  "triggerWithPhysicalLocked B physicalActive m =
     (let trigger = physicalTriggerFromLocked physicalActive m in
      if be_force B = ''closed'' then True
      else if be_force B = ''open'' then trigger
      else case be_lid B of Some True \<Rightarrow> True | _ \<Rightarrow> trigger)"

definition releaseWithPhysicalLocked :: "backend \<Rightarrow> bool \<Rightarrow> display \<Rightarrow> bool" where
  "releaseWithPhysicalLocked B physicalActive m =
     (if be_force B = ''closed'' then False
      else if be_force B = ''open'' then physicalReleaseFromLocked physicalActive m
      else case be_lid B of Some shut \<Rightarrow> \<not> shut | None \<Rightarrow> physicalReleaseFromLocked physicalActive m)"

definition triggerLocked :: "backend \<Rightarrow> display \<Rightarrow> bool \<times> display" where
  "triggerLocked B m =
     (let m1 = updatePhysicalStreaksLocked (be_physical B) m in (triggerWithPhysicalLocked B (be_physical B) m1, m1))"

text \<open>The wait for the display to become active is left out: it ends after at most five seconds and changes nothing.\<close>

definition plugVirtualLocked :: "backend \<Rightarrow> display \<Rightarrow> display_error option \<times> display" where
  "plugVirtualLocked B m =
     (if \<not> be_enabled B then (Some ErrDisabled, m)
      else if \<not> be_installed B then (Some ErrNotInstalled, m)
      else case (case dm_handle m of
            Some h \<Rightarrow> Some (h, m)
          | None \<Rightarrow> (case be_start B of None \<Rightarrow> None | Some h \<Rightarrow> Some (h, dev_call (DevStart h) (m\<lparr>dm_handle := Some h\<rparr>)))) of
        None \<Rightarrow> (Some ErrDevice, m)
      | Some (h, m1) \<Rightarrow>
          let m2 = dev_call (DevPlug h (be_plug B)) m1 in
          if \<not> be_plug B then (Some ErrPlug, (dev_call (DevStop h) m2)\<lparr>dm_handle := None\<rparr>)
          else (None, m2\<lparr>dm_plugged := True\<rparr>))"

definition unplugLocked :: "backend \<Rightarrow> display \<Rightarrow> display" where
  "unplugLocked B m =
     (case dm_handle m of
        None \<Rightarrow> m\<lparr>dm_plugged := False\<rparr>
      | Some h \<Rightarrow> if \<not> dm_plugged m then m\<lparr>dm_plugged := False\<rparr>
          else (dev_call (DevUnplug h (be_unplug B)) m)\<lparr>dm_plugged := False\<rparr>)"

definition teardownLocked :: "backend \<Rightarrow> display \<Rightarrow> display" where
  "teardownLocked B m =
     (case dm_handle m of
        None \<Rightarrow> m\<lparr>dm_plugged := False\<rparr>
      | Some h \<Rightarrow>
          let m1 = (if dm_plugged m then (dev_call (DevUnplug h (be_unplug B)) m)\<lparr>dm_plugged := False\<rparr> else m)
          in (dev_call (DevStop h) m1)\<lparr>dm_handle := None\<rparr>)"

text \<open>Creation for a session: an error is logged only.\<close>

definition plug_for_session :: "backend \<Rightarrow> display \<Rightarrow> display" where
  "plug_for_session B m = (case plugVirtualLocked B m of (None, m1) \<Rightarrow> m1\<lparr>dm_auto := True\<rparr> | (Some e, m1) \<Rightarrow> m1)"

definition reconcile :: "backend \<Rightarrow> display \<Rightarrow> display" where
  "reconcile B m =
     (if \<not> be_enabled B then m
      else if dm_refs m = 0 then m
      else
        let p = be_physical B; m1 = updatePhysicalStreaksLocked p m in
        if \<not> dm_plugged m1 \<and> triggerWithPhysicalLocked B p m1 then plug_for_session B m1
        else if dm_plugged m1 \<and> dm_auto m1 \<and> \<not> dm_manual m1 \<and> releaseWithPhysicalLocked B p m1
        then (unplugLocked B m1)\<lparr>dm_auto := False\<rparr>
        else m1)"

definition SessionStarted :: "backend \<Rightarrow> display \<Rightarrow> display" where
  "SessionStarted B m =
     (let m1 = ensureDeviceLocked B (m\<lparr>dm_refs := dm_refs m + 1\<rparr>) in
      if dm_plugged m1 then m1
      else case triggerLocked B m1 of (trigger, m2) \<Rightarrow> if trigger then plug_for_session B m2 else m2)"

definition SessionEnded :: "backend \<Rightarrow> display \<Rightarrow> display" where
  "SessionEnded B m =
     (let m1 = m\<lparr>dm_refs := dm_refs m - 1\<rparr> in
      if dm_refs m1 = 0 \<and> dm_auto m1 \<and> \<not> dm_manual m1 then (unplugLocked B m1)\<lparr>dm_auto := False\<rparr> else m1)"

definition SetOn :: "backend \<Rightarrow> display \<Rightarrow> display_error option \<times> display" where
  "SetOn B m =
     (if \<not> be_enabled B then (Some ErrDisabled, m)
      else if dm_plugged m then (None, m\<lparr>dm_auto := False, dm_manual := True\<rparr>)
      else case plugVirtualLocked B m of
        (Some e, m1) \<Rightarrow> (Some e, m1)
      | (None, m1) \<Rightarrow> (None, m1\<lparr>dm_auto := False, dm_manual := True\<rparr>))"

definition SetOff :: "backend \<Rightarrow> display \<Rightarrow> display" where
  "SetOff B m = (unplugLocked B m)\<lparr>dm_manual := False, dm_auto := False\<rparr>"

datatype display_event = DReconcile | DSessionStarted | DSessionEnded | DSetOn | DSetOff

fun display_step :: "backend \<times> display_event \<Rightarrow> display \<Rightarrow> display" where
  "display_step (B, DReconcile) m = reconcile B m"
| "display_step (B, DSessionStarted) m = SessionStarted B m"
| "display_step (B, DSessionEnded) m = SessionEnded B m"
| "display_step (B, DSetOn) m = snd (SetOn B m)"
| "display_step (B, DSetOff) m = SetOff B m"

text \<open>Whether the device really shows a screen after these calls.\<close>

fun screen_after :: "dev_call \<Rightarrow> bool \<Rightarrow> bool" where
  "screen_after (DevPlug h ok) on = (on \<or> ok)"
| "screen_after (DevUnplug h ok) on = (on \<and> \<not> ok)"
| "screen_after (DevStop h) on = False"
| "screen_after (DevStart h) on = on"

definition screen :: "display \<Rightarrow> bool" where
  "screen m = fold screen_after (dm_calls m) False"

lemma screen_call [simp]: "screen (dev_call c m) = screen_after c (screen m)"
  by (simp add: screen_def dev_call_def)

lemma dev_call_simps [simp]:
  "dm_handle (dev_call c m) = dm_handle m" "dm_plugged (dev_call c m) = dm_plugged m" "dm_refs (dev_call c m) = dm_refs m"
  "dm_auto (dev_call c m) = dm_auto m" "dm_manual (dev_call c m) = dm_manual m"
  "dm_absent (dev_call c m) = dm_absent m" "dm_present (dev_call c m) = dm_present m"
  by (simp_all add: dev_call_def)

lemma screen_upd [simp]:
  "screen (m\<lparr>dm_handle := h\<rparr>) = screen m" "screen (m\<lparr>dm_plugged := b\<rparr>) = screen m" "screen (m\<lparr>dm_refs := n\<rparr>) = screen m"
  "screen (m\<lparr>dm_auto := b\<rparr>) = screen m" "screen (m\<lparr>dm_manual := b\<rparr>) = screen m"
  "screen (m\<lparr>dm_absent := n\<rparr>) = screen m" "screen (m\<lparr>dm_present := n\<rparr>) = screen m"
  by (simp_all add: screen_def)

subsection \<open>No screen without a reason\<close>

text \<open>The flags agree with the device.\<close>

definition dev_inv :: "display \<Rightarrow> bool" where
  "dev_inv m \<longleftrightarrow> (dm_plugged m \<longrightarrow> dm_handle m \<noteq> None \<and> screen m) \<and> (dm_handle m = None \<longrightarrow> \<not> screen m)"

definition display_inv :: "display \<Rightarrow> bool" where
  "display_inv m \<longleftrightarrow> dev_inv m \<and> (dm_plugged m \<longleftrightarrow> dm_auto m \<or> dm_manual m) \<and> \<not> (dm_auto m \<and> dm_manual m)
     \<and> (dm_auto m \<longrightarrow> dm_refs m > 0)"

definition same_flags :: "display \<Rightarrow> display \<Rightarrow> bool" where
  "same_flags m m' \<longleftrightarrow> dm_refs m' = dm_refs m \<and> dm_auto m' = dm_auto m \<and> dm_manual m' = dm_manual m"

lemma ensure_facts:
  "same_flags m (ensureDeviceLocked B m)" "dm_plugged (ensureDeviceLocked B m) = dm_plugged m"
  "screen (ensureDeviceLocked B m) = screen m" "dm_handle m \<noteq> None \<Longrightarrow> ensureDeviceLocked B m = m"
  "dev_inv m \<Longrightarrow> dev_inv (ensureDeviceLocked B m)" "\<not> be_enabled B \<Longrightarrow> ensureDeviceLocked B m = m"
  "dm_absent (ensureDeviceLocked B m) = dm_absent m" "dm_present (ensureDeviceLocked B m) = dm_present m"
  by (auto simp: ensureDeviceLocked_def same_flags_def dev_inv_def split: option.splits)

lemma streak_facts [simp]:
  "dm_refs (updatePhysicalStreaksLocked p m) = dm_refs m" "dm_auto (updatePhysicalStreaksLocked p m) = dm_auto m"
  "dm_manual (updatePhysicalStreaksLocked p m) = dm_manual m" "dm_plugged (updatePhysicalStreaksLocked p m) = dm_plugged m"
  "dm_handle (updatePhysicalStreaksLocked p m) = dm_handle m" "screen (updatePhysicalStreaksLocked p m) = screen m"
  "dm_calls (updatePhysicalStreaksLocked p m) = dm_calls m"
  by (simp_all add: updatePhysicalStreaksLocked_def)

lemma plug_facts:
  assumes "\<not> dm_plugged m" "dev_inv m" "plugVirtualLocked B m = (r, m')"
  shows "same_flags m m'" "dev_inv m'" "dm_plugged m' \<longleftrightarrow> r = None" "\<not> be_enabled B \<Longrightarrow> m' = m \<and> r \<noteq> None"
    "screen m' \<longrightarrow> screen m \<or> dm_plugged m'"
proof -
  have "same_flags m m' \<and> dev_inv m' \<and> (dm_plugged m' \<longleftrightarrow> r = None) \<and> (screen m' \<longrightarrow> screen m \<or> dm_plugged m')"
    using assms by (auto simp: plugVirtualLocked_def same_flags_def dev_inv_def Let_def split: if_splits option.splits)
  then show "same_flags m m'" "dev_inv m'" "dm_plugged m' \<longleftrightarrow> r = None" "screen m' \<longrightarrow> screen m \<or> dm_plugged m'" by blast+
  show "m' = m \<and> r \<noteq> None" if "\<not> be_enabled B" using assms(3) that by (auto simp: plugVirtualLocked_def)
qed

lemma unplug_facts:
  "same_flags m (unplugLocked B m)" "\<not> dm_plugged (unplugLocked B m)" "dm_handle (unplugLocked B m) = dm_handle m"
  "dev_inv m \<Longrightarrow> dev_inv (unplugLocked B m)" "screen (unplugLocked B m) \<longrightarrow> screen m"
  "be_unplug B \<Longrightarrow> dev_inv m \<Longrightarrow> screen m \<longrightarrow> dm_plugged m \<Longrightarrow> \<not> screen (unplugLocked B m)"
  by (auto simp: unplugLocked_def same_flags_def dev_inv_def split: option.splits)

lemma plug_for_session_inv:
  assumes "dev_inv m" "\<not> dm_plugged m" "\<not> dm_auto m" "\<not> dm_manual m" "dm_refs m > 0"
  shows "display_inv (plug_for_session B m)"
    "(screen m \<longrightarrow> dm_plugged m) \<Longrightarrow> screen (plug_for_session B m) \<longrightarrow> dm_plugged (plug_for_session B m)"
    "\<not> be_enabled B \<Longrightarrow> plug_for_session B m = m" "dm_refs (plug_for_session B m) = dm_refs m"
proof -
  obtain r m' where p: "plugVirtualLocked B m = (r, m')" by fastforce
  note f = plug_facts [OF assms(2,1) p]
  show "display_inv (plug_for_session B m)" using f(1-3) assms(3-5)
    by (cases r) (auto simp: plug_for_session_def p display_inv_def dev_inv_def same_flags_def)
  show "screen (plug_for_session B m) \<longrightarrow> dm_plugged (plug_for_session B m)" if "screen m \<longrightarrow> dm_plugged m"
    using f(5) that assms(2) by (cases r) (auto simp: plug_for_session_def p)
  show "plug_for_session B m = m" if "\<not> be_enabled B" using f(4) [OF that] by (cases r) (auto simp: plug_for_session_def p)
  show "dm_refs (plug_for_session B m) = dm_refs m" using f(1) by (cases r) (auto simp: plug_for_session_def p same_flags_def)
qed

lemma dev_inv_upd [simp]:
  "dev_inv (m\<lparr>dm_refs := n\<rparr>) = dev_inv m" "dev_inv (m\<lparr>dm_auto := b\<rparr>) = dev_inv m" "dev_inv (m\<lparr>dm_manual := b\<rparr>) = dev_inv m"
  "dev_inv (updatePhysicalStreaksLocked p m) = dev_inv m"
  by (simp_all add: dev_inv_def)

text \<open>An automatic screen that goes.\<close>

lemma unplug_auto_inv:
  assumes "dev_inv m" "\<not> dm_manual m"
  shows "display_inv ((unplugLocked B m)\<lparr>dm_auto := False\<rparr>)"
    "be_unplug B \<Longrightarrow> screen m \<longrightarrow> dm_plugged m \<Longrightarrow> \<not> screen ((unplugLocked B m)\<lparr>dm_auto := False\<rparr>)"
  using unplug_facts [where m = m and B = B] assms by (auto simp: display_inv_def same_flags_def)

text \<open>The screen is on only while it is plugged, when no unplugging fails.\<close>

definition shown_inv :: "display \<Rightarrow> bool" where
  "shown_inv m \<longleftrightarrow> display_inv m \<and> (screen m \<longrightarrow> dm_plugged m)"

lemma plug_session_shown:
  assumes "shown_inv m" "\<not> dm_plugged m" "dm_refs m > 0"
  shows "shown_inv (plug_for_session B m)"
  using plug_for_session_inv [of m B] assms unfolding shown_inv_def by (auto simp: display_inv_def)

lemma shown_streaks [simp]: "shown_inv (updatePhysicalStreaksLocked p m) = shown_inv m"
  by (simp add: shown_inv_def display_inv_def)

lemma reconcile_shown:
  assumes "shown_inv m" "be_unplug B"
  shows "shown_inv (reconcile B m)"
proof -
  let ?m1 = "updatePhysicalStreaksLocked (be_physical B) m"
  have s: "shown_inv ?m1" using assms by simp
  then have p: "shown_inv (plug_for_session B ?m1)" if "\<not> dm_plugged m" "dm_refs m > 0"
    using plug_session_shown [OF s, of B] that by simp
  have u: "shown_inv ((unplugLocked B ?m1)\<lparr>dm_auto := False\<rparr>)" if "\<not> dm_manual m"
    using unplug_auto_inv [of ?m1 B] s assms(2) that by (auto simp: shown_inv_def display_inv_def)
  show ?thesis using assms(1) s p u by (simp add: reconcile_def Let_def)
qed

lemma started_shown:
  assumes "shown_inv m"
  shows "shown_inv (SessionStarted B m)"
proof -
  let ?m1 = "ensureDeviceLocked B (m\<lparr>dm_refs := dm_refs m + 1\<rparr>)"
  let ?m2 = "updatePhysicalStreaksLocked (be_physical B) ?m1"
  have "shown_inv (m\<lparr>dm_refs := dm_refs m + 1\<rparr>)" using assms by (auto simp: shown_inv_def display_inv_def)
  then have s: "shown_inv ?m1" "dm_refs ?m1 > 0"
    using ensure_facts(1,2,3,5) [where m = "m\<lparr>dm_refs := dm_refs m + 1\<rparr>" and B = B] by (auto simp: shown_inv_def display_inv_def same_flags_def)
  then have "shown_inv (plug_for_session B ?m2)" if "\<not> dm_plugged ?m1"
    using plug_session_shown [of ?m2 B] that by simp
  then show ?thesis using s by (simp add: SessionStarted_def Let_def triggerLocked_def)
qed

lemma ended_shown:
  assumes "shown_inv m" "be_unplug B"
  shows "shown_inv (SessionEnded B m)"
proof -
  let ?m1 = "m\<lparr>dm_refs := dm_refs m - 1\<rparr>"
  have "dev_inv ?m1" "screen ?m1 \<longrightarrow> dm_plugged ?m1" using assms(1) by (auto simp: shown_inv_def display_inv_def)
  then have "shown_inv ((unplugLocked B ?m1)\<lparr>dm_auto := False\<rparr>)" if "\<not> dm_manual m"
    using unplug_auto_inv [of ?m1 B] assms(2) that by (auto simp: shown_inv_def)
  moreover have "shown_inv ?m1" if "\<not> (dm_refs ?m1 = 0 \<and> dm_auto m \<and> \<not> dm_manual m)"
    using assms(1) that by (auto simp: shown_inv_def display_inv_def)
  ultimately show ?thesis unfolding SessionEnded_def Let_def by (auto simp del: One_nat_def)
qed

lemma set_shown:
  assumes "shown_inv m"
  shows "shown_inv (snd (SetOn B m))" "be_unplug B \<Longrightarrow> shown_inv (SetOff B m)"
proof -
  obtain r m' where p: "plugVirtualLocked B m = (r, m')" by fastforce
  have i: "dev_inv m" using assms by (simp add: shown_inv_def display_inv_def)
  show "shown_inv (snd (SetOn B m))"
  proof (cases "dm_plugged m")
    case True
    then show ?thesis using assms by (auto simp: SetOn_def shown_inv_def display_inv_def)
  next
    case False
    then show ?thesis using plug_facts [OF False i p] assms
      by (cases r) (auto simp: SetOn_def p shown_inv_def display_inv_def same_flags_def)
  qed
  show "shown_inv (SetOff B m)" if "be_unplug B"
    using unplug_facts(2,4,6) [where m = m and B = B] i assms that by (auto simp: SetOff_def shown_inv_def display_inv_def)
qed

interpretation display: inv_machine "\<lambda>e _. be_unplug (fst e)" display_step shown_inv
proof (unfold_locales)
  fix m and e :: "backend \<times> display_event" assume "shown_inv m" "be_unplug (fst e)"
  then show "shown_inv (display_step e m)"
    by (cases "(e, m)" rule: display_step.cases) (simp_all add: reconcile_shown started_shown ended_shown set_shown)
qed

text \<open>With the feature switched off nothing ever happens to a device.\<close>

definition idle :: "display \<Rightarrow> bool" where
  "idle m \<longleftrightarrow> dm_handle m = None \<and> \<not> dm_plugged m \<and> \<not> dm_auto m \<and> \<not> dm_manual m \<and> dm_calls m = []"

lemma idle_step:
  assumes "idle m" "\<not> be_enabled (fst e)"
  shows "idle (display_step e m)"
proof -
  have p: "plug_for_session B x = x" if "\<not> be_enabled B" for B x using that by (simp add: plug_for_session_def plugVirtualLocked_def)
  show ?thesis
    using assms ensure_facts(6) [of "fst e"]
    by (cases "(e, m)" rule: display_step.cases)
      (auto simp: idle_def reconcile_def SessionStarted_def SessionEnded_def SetOn_def SetOff_def unplugLocked_def triggerLocked_def Let_def p)
qed

interpretation switched_off: inv_machine "\<lambda>e _. \<not> be_enabled (fst e)" display_step idle
  by unfold_locales (rule idle_step)

subsection \<open>The display follows the output without flapping\<close>

text \<open>Reference: the screen changes only when two samples of the physical output in a row agree.\<close>

fun debounce :: "bool \<Rightarrow> bool option \<Rightarrow> bool list \<Rightarrow> bool" where
  "debounce shown prev [] = shown"
| "debounce shown prev (p # ps) = debounce (if prev = Some p then \<not> p else shown) (Some p) ps"

definition last_sample :: "display \<Rightarrow> bool option" where
  "last_sample m = (if dm_absent m > 0 then Some False else if dm_present m > 0 then Some True else None)"

text \<open>A back end that works on a machine without a lid.\<close>

definition lidless :: "backend \<Rightarrow> bool" where
  "lidless B \<longleftrightarrow> be_enabled B \<and> be_installed B \<and> be_start B \<noteq> None \<and> be_plug B \<and> be_lid B = None \<and> be_force B \<noteq> ''closed''"

definition in_session :: "display \<Rightarrow> bool" where
  "in_session m \<longleftrightarrow> dm_refs m > 0 \<and> \<not> dm_manual m \<and> (dm_plugged m \<longrightarrow> dm_auto m) \<and> \<not> (dm_absent m > 0 \<and> dm_present m > 0)"

lemma plug_lidless:
  assumes "lidless B"
  shows "dm_plugged (plug_for_session B m)" "dm_auto (plug_for_session B m)" "dm_manual (plug_for_session B m) = dm_manual m"
    "dm_refs (plug_for_session B m) = dm_refs m" "dm_absent (plug_for_session B m) = dm_absent m"
    "dm_present (plug_for_session B m) = dm_present m"
  using assms by (auto simp: plug_for_session_def plugVirtualLocked_def lidless_def Let_def split: option.splits)

lemma unplug_simps [simp]:
  "dm_plugged (unplugLocked B m) = False" "dm_auto (unplugLocked B m) = dm_auto m" "dm_manual (unplugLocked B m) = dm_manual m"
  "dm_refs (unplugLocked B m) = dm_refs m" "dm_absent (unplugLocked B m) = dm_absent m" "dm_present (unplugLocked B m) = dm_present m"
  by (simp_all add: unplugLocked_def split: option.split)

lemma lidless_triggers:
  assumes "lidless B"
  shows "triggerWithPhysicalLocked B p m = physicalTriggerFromLocked p m"
    "releaseWithPhysicalLocked B p m = physicalReleaseFromLocked p m"
  using assms by (auto simp: lidless_def triggerWithPhysicalLocked_def releaseWithPhysicalLocked_def Let_def)

lemma reconcile_sample:
  assumes "lidless B" "in_session m"
  shows "in_session (reconcile B m) \<and> last_sample (reconcile B m) = Some (be_physical B)
    \<and> dm_plugged (reconcile B m) = (if last_sample m = Some (be_physical B) then \<not> be_physical B else dm_plugged m)"
proof -
  have e: "be_enabled B" "dm_refs m > 0" using assms by (simp_all add: lidless_def in_session_def)
  note t = lidless_triggers [OF assms(1)] plug_lidless [OF assms(1)]
  show ?thesis
  proof (cases "be_physical B")
    case True
    then show ?thesis using e assms(2)
      by (auto simp: reconcile_def Let_def t updatePhysicalStreaksLocked_def physicalTriggerFromLocked_def physicalReleaseFromLocked_def
          physicalHysteresis_def in_session_def last_sample_def)
  next
    case False
    then show ?thesis using e assms(2)
      by (auto simp: reconcile_def Let_def t updatePhysicalStreaksLocked_def physicalTriggerFromLocked_def physicalReleaseFromLocked_def
          physicalHysteresis_def in_session_def last_sample_def)
  qed
qed

lemma reconcile_samples:
  "list_all lidless Bs \<Longrightarrow> in_session m \<Longrightarrow>
     dm_plugged (fold reconcile Bs m) = debounce (dm_plugged m) (last_sample m) (map be_physical Bs)"
proof (induction Bs arbitrary: m)
  case (Cons B Bs)
  then show ?case using reconcile_sample [of B m] by auto
qed simp


definition demo_backend :: "bool \<Rightarrow> backend" where
  "demo_backend p = \<lparr>be_enabled = True, be_installed = True, be_start = Some 4, be_plug = True, be_unplug = True, be_physical = p,
     be_lid = None, be_force = []\<rparr>"


text \<open>No screen appears without a reason. After any calls of sessions, polls and operators, when no unplugging
  fails, the device shows a screen exactly if the manager says so; then either a session brought it up
  and some session is still counted, or an operator switched it on, never both; and while the feature is switched
  off no call reaches the device at all.\<close>

theorem display_has_reason:
  assumes "list_all (\<lambda>e. be_unplug (fst e)) es"
  shows "let m = fold display_step es (NewManager B) in
     (screen m \<longleftrightarrow> dm_plugged m) \<and> (dm_plugged m \<longleftrightarrow> dm_auto m \<or> dm_manual m) \<and> \<not> (dm_auto m \<and> dm_manual m)
     \<and> (dm_auto m \<longrightarrow> dm_refs m > 0)
     \<and> (\<not> be_enabled B \<and> list_all (\<lambda>e. \<not> be_enabled (fst e)) es \<longrightarrow> dm_calls m = [] \<and> dm_handle m = None)"
proof -
  have "shown_inv (NewManager B)"
    by (auto simp: NewManager_def ensureDeviceLocked_def shown_inv_def display_inv_def dev_inv_def screen_def dev_call_def split: option.splits)
  then have i: "shown_inv (fold display_step es (NewManager B))"
    using assms by (intro display.run_inv) (simp_all add: run_ok_list_all)
  have o: "idle (fold display_step es (NewManager B))" if "\<not> be_enabled B" "list_all (\<lambda>e. \<not> be_enabled (fst e)) es"
    by (rule switched_off.run_inv) (use that in \<open>simp_all add: run_ok_list_all idle_def NewManager_def ensureDeviceLocked_def\<close>)
  show ?thesis using i o unfolding Let_def shown_inv_def display_inv_def dev_inv_def idle_def by blast
qed

theorem display_has_reason_witness:
  "let m = fold display_step [(demo_backend False, DSessionStarted), (demo_backend False, DReconcile)] (NewManager (demo_backend False))
   in screen m \<and> dm_plugged m \<and> dm_auto m \<and> dm_refs m > 0"
proof -
  let ?es = "[(demo_backend False, DSessionStarted), (demo_backend False, DReconcile)]"
  have "list_all (\<lambda>e. be_unplug (fst e)) ?es" by (simp add: demo_backend_def)
  from display_has_reason [OF this, of "demo_backend False"]
  have "screen m \<longleftrightarrow> dm_plugged m" "dm_auto m \<longrightarrow> dm_refs m > 0" if "m = fold display_step ?es (NewManager (demo_backend False))" for m
    using that unfolding Let_def by simp_all
  moreover have "dm_plugged (fold display_step ?es (NewManager (demo_backend False)))" "dm_auto (fold display_step ?es (NewManager (demo_backend False)))"
    by code_simp+
  ultimately show ?thesis unfolding Let_def by blast
qed

subsection \<open>Desktop sessions\<close>

text \<open>Where the goroutine of a session stands: before the connection to the core, before the start of the host,
  before the entry in the table, waiting for the end, before the stop of the host. A lost answer is one
  of a request that the core has carried out.\<close>

datatype ds_pc = PcConnect | PcCapture | PcMark | PcServe | PcStop

datatype capture_result = CapStarted | CapRefused | CapLost

record desktop =
  dw_sessions :: "(string, bool) table"
  dw_client :: bool
  dw_display :: "display option"
  dw_pc :: "(string, ds_pc) table"
  dw_host :: bool

definition desktop_NewHandler :: "display option \<Rightarrow> desktop" where
  "desktop_NewHandler dsp = \<lparr>dw_sessions = [], dw_client = False, dw_display = dsp, dw_pc = [], dw_host = False\<rparr>"

definition goto :: "string \<Rightarrow> ds_pc \<Rightarrow> desktop \<Rightarrow> desktop" where
  "goto sid l w = w\<lparr>dw_pc := tput sid l (dw_pc w)\<rparr>"

definition finish :: "string \<Rightarrow> desktop \<Rightarrow> desktop" where
  "finish sid w = w\<lparr>dw_pc := tdel sid (dw_pc w)\<rparr>"

text \<open>The connection to the core: \<open>ping\<close> says whether the present one answers, \<open>dial\<close> whether a new one comes up.\<close>

definition ensureClientLocked :: "bool \<Rightarrow> bool \<Rightarrow> desktop \<Rightarrow> bool \<times> desktop" where
  "ensureClientLocked ping dial w =
     (if dw_client w \<and> ping then (True, w) else (dial, w\<lparr>dw_client := dial\<rparr>))"

definition session_enter :: "string \<Rightarrow> DesktopParams option \<Rightarrow> backend \<Rightarrow> desktop \<Rightarrow> desktop" where
  "session_enter sid params B w =
     (case params of
        None \<Rightarrow> w
      | Some p \<Rightarrow>
          if dp_StreamEndpoint p = [] \<or> dp_HostToken p = [] then w
          else goto sid PcConnect (w\<lparr>dw_display := map_option (SessionStarted B) (dw_display w)\<rparr>))"

definition session_connect :: "string \<Rightarrow> bool \<Rightarrow> bool \<Rightarrow> desktop \<Rightarrow> desktop" where
  "session_connect sid ping dial w =
     (if tget (dw_sessions w) sid = Some True then finish sid w
      else case ensureClientLocked ping dial w of (ok, w1) \<Rightarrow> if ok then goto sid PcCapture w1 else finish sid w1)"

definition session_capture :: "string \<Rightarrow> capture_result \<Rightarrow> desktop \<Rightarrow> desktop" where
  "session_capture sid r w =
     (case r of
        CapStarted \<Rightarrow> goto sid PcMark (w\<lparr>dw_host := True\<rparr>)
      | CapRefused \<Rightarrow> finish sid w
      | CapLost \<Rightarrow> finish sid (w\<lparr>dw_host := True\<rparr>))"

definition session_mark :: "string \<Rightarrow> desktop \<Rightarrow> desktop" where
  "session_mark sid w = goto sid PcServe (w\<lparr>dw_sessions := tput sid True (dw_sessions w)\<rparr>)"

text \<open>\<open>release\<close>: its locked part and what follows it.\<close>

definition release_locked :: "string \<Rightarrow> desktop \<Rightarrow> desktop" where
  "release_locked sid w =
     (if tget (dw_sessions w) sid \<noteq> Some True then finish sid w
      else
        let w1 = w\<lparr>dw_sessions := tdel sid (dw_sessions w)\<rparr> in
        if dw_sessions w1 \<noteq> [] \<or> \<not> dw_client w1 then finish sid w1 else goto sid PcStop w1)"

definition release_stop :: "string \<Rightarrow> bool \<Rightarrow> backend \<Rightarrow> desktop \<Rightarrow> desktop" where
  "release_stop sid ok B w =
     finish sid (w\<lparr>dw_host := (dw_host w \<and> \<not> ok), dw_display := map_option (SessionEnded B) (dw_display w)\<rparr>)"

datatype ds_event =
    EvEnter string "DesktopParams option" backend
  | EvConnect string bool bool
  | EvCapture string capture_result
  | EvMark string
  | EvCancel string
  | EvStop string bool backend

text \<open>A step acts when the session's goroutine has got there.\<close>

fun ds_step :: "ds_event \<Rightarrow> desktop \<Rightarrow> desktop" where
  "ds_step (EvEnter sid p B) w = (if tget (dw_pc w) sid = None then session_enter sid p B w else w)"
| "ds_step (EvConnect sid ping dial) w = (if tget (dw_pc w) sid = Some PcConnect then session_connect sid ping dial w else w)"
| "ds_step (EvCapture sid r) w = (if tget (dw_pc w) sid = Some PcCapture then session_capture sid r w else w)"
| "ds_step (EvMark sid) w = (if tget (dw_pc w) sid = Some PcMark then session_mark sid w else w)"
| "ds_step (EvCancel sid) w = (if tget (dw_pc w) sid = Some PcServe then release_locked sid w else w)"
| "ds_step (EvStop sid ok B) w = (if tget (dw_pc w) sid = Some PcStop then release_stop sid ok B w else w)"

text \<open>A whole start and a whole end.\<close>

datatype ds_call = DsOpen string "DesktopParams option" backend bool bool capture_result | DsClose string bool backend

fun ds_events :: "ds_call \<Rightarrow> ds_event list" where
  "ds_events (DsOpen sid p B ping dial r) = [EvEnter sid p B, EvConnect sid ping dial, EvCapture sid r, EvMark sid]"
| "ds_events (DsClose sid ok B) = [EvCancel sid, EvStop sid ok B]"

definition ds_call_step :: "ds_call \<Rightarrow> desktop \<Rightarrow> desktop" where
  "ds_call_step c = fold ds_step (ds_events c)"

lemmas ds_defs = session_enter_def session_connect_def session_capture_def session_mark_def release_locked_def release_stop_def
  goto_def finish_def ensureClientLocked_def

text \<open>In every interleaving the table holds exactly the sessions that wait for their end.\<close>

definition table_inv :: "desktop \<Rightarrow> bool" where
  "table_inv w \<longleftrightarrow> (\<forall>sid. tget (dw_sessions w) sid = (if tget (dw_pc w) sid = Some PcServe then Some True else None))"

lemma cancel_fields:
  assumes "tget (dw_pc w) sid = Some PcServe" "tget (dw_sessions w) sid = Some True"
  shows "dw_sessions (ds_step (EvCancel sid) w) = tdel sid (dw_sessions w)"
    "j \<noteq> sid \<Longrightarrow> tget (dw_pc (ds_step (EvCancel sid) w)) j = tget (dw_pc w) j"
    "tget (dw_pc (ds_step (EvCancel sid) w)) sid \<noteq> Some PcServe"
  using assms by (simp_all add: ds_defs Let_def)

lemma table_inv_step:
  assumes "table_inv w"
  shows "table_inv (ds_step e w)"
proof (cases e)
  case (EvCancel sid)
  show ?thesis
  proof (cases "tget (dw_pc w) sid = Some PcServe")
    case True
    then have "tget (dw_sessions w) sid = Some True" using assms by (simp add: table_inv_def)
    note f = cancel_fields [OF True this]
    have "tget (dw_sessions (ds_step e w)) j = (if tget (dw_pc (ds_step e w)) j = Some PcServe then Some True else None)" for j
      using assms f(2) [of j] f(3) unfolding EvCancel f(1) table_inv_def by (cases "j = sid") simp_all
    then show ?thesis unfolding table_inv_def by blast
  qed (use assms EvCancel in simp)
qed (use assms in \<open>auto simp: table_inv_def ds_defs split: option.split capture_result.split\<close>)

interpretation dtable: inv_machine "\<lambda>_ _. True" ds_step table_inv
  by unfold_locales (rule table_inv_step)

lemma table_nonempty: "t \<noteq> [] \<Longrightarrow> \<exists>k v. tget t k = Some v"
  by (cases t) auto

text \<open>One call after the other: nothing is under way between two calls, and the host runs while there is a session.\<close>

definition seq_inv :: "desktop \<Rightarrow> bool" where
  "seq_inv w \<longleftrightarrow> table_inv w \<and> (\<forall>sid l. tget (dw_pc w) sid = Some l \<longrightarrow> l = PcServe) \<and> (dw_sessions w \<noteq> [] \<longrightarrow> dw_host w)"

lemma table_inv_call: "table_inv w \<Longrightarrow> table_inv (ds_call_step c w)"
  unfolding ds_call_step_def by (rule dtable.run_inv) simp_all

lemma open_fields:
  assumes "tget (dw_pc w) sid = None" "tget (dw_sessions w) sid = None"
  shows "let w' = ds_call_step (DsOpen sid p B ping dial r) w in
     (dw_sessions w' = dw_sessions w \<and> (tget (dw_pc w') = tget (dw_pc w)) \<and> (dw_host w \<longrightarrow> dw_host w')) \<or>
     (dw_sessions w' = tput sid True (dw_sessions w) \<and> tget (dw_pc w') = (tget (dw_pc w))(sid \<mapsto> PcServe) \<and> dw_host w')"
proof -
  have pc: "(\<lambda>j. if j = sid then None else tget (dw_pc w) j) = tget (dw_pc w)"
      "tget (tdel sid t) = (\<lambda>j. if j = sid then None else tget t j)" "tget (tput sid l t) = (tget t)(sid \<mapsto> l)" for t :: "(string, ds_pc) table" and l
    using assms(1) by (auto simp: fun_eq_iff)
  have pc2: "(tget (dw_pc w))(sid := None) = tget (dw_pc w)" using assms(1) by (auto simp: fun_eq_iff)
  show ?thesis
  proof (cases p)
    case None
    then show ?thesis using assms by (simp add: ds_call_step_def session_enter_def Let_def)
  next
    case (Some x)
    show ?thesis
    proof (cases "dp_StreamEndpoint x = [] \<or> dp_HostToken x = []")
      case True
      then show ?thesis using assms Some by (simp add: ds_call_step_def session_enter_def Let_def)
    next
      case False
      then show ?thesis using assms Some
        by (cases "dw_client w \<and> ping"; cases dial; cases r)
          (auto simp: ds_call_step_def ds_defs Let_def fun_eq_iff)
    qed
  qed
qed

lemma open_seq:
  assumes "seq_inv w"
  shows "seq_inv (ds_call_step (DsOpen sid p B ping dial r) w)"
proof (cases "tget (dw_pc w) sid")
  case None
  then have n: "tget (dw_sessions w) sid = None" using assms by (simp add: seq_inv_def table_inv_def)
  have "table_inv (ds_call_step (DsOpen sid p B ping dial r) w)" using assms table_inv_call by (simp add: seq_inv_def)
  then show ?thesis using assms open_fields [OF None n, of p B ping dial r]
    unfolding seq_inv_def Let_def by (auto split: if_splits)
next
  case (Some l)
  then have "tget (dw_pc w) sid = Some PcServe" using assms by (simp add: seq_inv_def)
  then have "ds_call_step (DsOpen sid p B ping dial r) w = w" by (simp add: ds_call_step_def)
  then show ?thesis using assms by simp
qed

lemma close_seq:
  assumes "seq_inv w"
  shows "seq_inv (ds_call_step (DsClose sid ok B) w)"
proof -
  let ?w = "ds_call_step (DsClose sid ok B) w"
  have "table_inv ?w" using assms table_inv_call by (simp add: seq_inv_def)
  moreover have "\<forall>s l. tget (dw_pc ?w) s = Some l \<longrightarrow> l = PcServe"
    using assms by (auto simp: seq_inv_def ds_call_step_def ds_defs Let_def)
  moreover have "dw_sessions ?w \<noteq> [] \<longrightarrow> dw_host ?w"
    using assms by (auto simp: seq_inv_def ds_call_step_def ds_defs Let_def)
  ultimately show ?thesis unfolding seq_inv_def by blast
qed

interpretation dseq: inv_machine "\<lambda>_ _. True" ds_call_step seq_inv
proof (unfold_locales)
  fix w and c :: ds_call assume "seq_inv w"
  then show "seq_inv (ds_call_step c w)" by (cases c) (simp_all add: open_seq close_seq)
qed


definition demo_desktop :: DesktopParams where
  "demo_desktop = \<lparr>dp_StreamEndpoint = ''relay:443'', dp_HostToken = ''ht'', dp_WTSSession = 1, dp_TLSInsecure = False, dp_CertSHA256 = []\<rparr>"

abbreviation demo_open :: "string \<Rightarrow> ds_call" where
  "demo_open sid \<equiv> DsOpen sid (Some demo_desktop) (demo_backend True) True True CapStarted"


text \<open>A start that overlaps the end of another session loses its host. The start of the host is requested before the
  session enters the table, and the last session's end decides under the lock but stops the host after it: the new session
  ends up in the table and waits for its end while the host has been stopped.\<close>

theorem desktop_stop_overtakes_start:
  assumes "dw_sessions w = [(a, True)]" "tget (dw_pc w) a = Some PcServe" "tget (dw_pc w) b = None" "a \<noteq> b" "dw_client w"
    and "dp_StreamEndpoint p \<noteq> []" "dp_HostToken p \<noteq> []"
  shows "let w' = fold ds_step [EvEnter b (Some p) B, EvConnect b True True, EvCapture b CapStarted, EvCancel a, EvMark b, EvStop a True B'] w in
     tget (dw_sessions w') b = Some True \<and> tget (dw_pc w') b = Some PcServe \<and> \<not> dw_host w'"
  using assms by (simp add: ds_defs Let_def)

theorem desktop_stop_overtakes_start_witness:
  "let w = fold ds_step [EvEnter ''s2'' (Some demo_desktop) (demo_backend True), EvConnect ''s2'' True True, EvCapture ''s2'' CapStarted,
       EvCancel ''s1'', EvMark ''s2'', EvStop ''s1'' True (demo_backend True)] (ds_call_step (demo_open ''s1'') (desktop_NewHandler None))
   in tget (dw_sessions w) ''s2'' = Some True \<and> \<not> dw_host w"
proof -
  let ?w = "ds_call_step (demo_open ''s1'') (desktop_NewHandler None)"
  have "dw_sessions ?w = [(''s1'', True)]" "tget (dw_pc ?w) ''s1'' = Some PcServe" "tget (dw_pc ?w) ''s2'' = None" "dw_client ?w"
    by code_simp+
  then show ?thesis
    using desktop_stop_overtakes_start [of ?w "''s1''" "''s2''" demo_desktop "demo_backend True" "demo_backend True"]
    by (simp add: demo_desktop_def Let_def del: fold.simps)
qed

lemma started_raises:
  assumes "be_enabled B" "be_installed B" "be_start B \<noteq> None" "be_plug B" "be_lid B = Some True" "be_force B = []" "\<not> dm_plugged m"
  shows "dm_plugged (SessionStarted B m)" "dm_refs (SessionStarted B m) = dm_refs m + 1"
  using assms ensure_facts(1,2) [where B = B]
  by (auto simp: SessionStarted_def triggerLocked_def triggerWithPhysicalLocked_def plug_for_session_def plugVirtualLocked_def Let_def
      same_flags_def split: option.splits)

lemma started_again:
  assumes "dm_plugged m"
  shows "dm_plugged (SessionStarted B m)" "dm_refs (SessionStarted B m) = dm_refs m + 1"
  using assms ensure_facts(1,2) [where B = B] by (simp_all add: SessionStarted_def Let_def same_flags_def)

text \<open>The virtual display stays on after the last desktop session. Each session counts itself with the display
  manager, but only the end of the last one counts itself off: two sessions that overlap leave a count of one, the
  screen that was brought up for them stays, and later sessions can never take it down.\<close>

theorem virtual_display_left_on:
  assumes "dw_display w = Some m" "dw_pc w = []" "dw_sessions w = []" "a \<noteq> b" "shown_inv m" "\<not> dm_manual m" "dm_refs m = 0"
    and "dp_StreamEndpoint p \<noteq> []" "dp_HostToken p \<noteq> []"
    and "be_enabled B" "be_installed B" "be_start B \<noteq> None" "be_plug B" "be_lid B = Some True" "be_force B = []"
  shows "let w' = fold ds_call_step [DsOpen a (Some p) B True True CapStarted, DsOpen b (Some p) B True True CapStarted,
       DsClose a True B, DsClose b True B] w in
     dw_sessions w' = [] \<and> \<not> dw_host w' \<and> (\<exists>m'. dw_display w' = Some m' \<and> dm_refs m' = 1 \<and> dm_plugged m' \<and> screen m')"
proof -
  let ?m1 = "SessionStarted B m" and ?m2 = "SessionStarted B (SessionStarted B m)"
  have np: "\<not> dm_plugged m" using assms(5-7) by (auto simp: shown_inv_def display_inv_def)
  have m1: "dm_plugged ?m1" "dm_refs ?m1 = 1"
    using started_raises [OF assms(10-15) np] assms(7) by simp_all
  have m2: "dm_plugged ?m2" "dm_refs ?m2 = 2" "shown_inv ?m2"
    using started_again [of ?m1 B] m1 started_shown [OF started_shown [OF assms(5)]] by simp_all
  have s: "screen ?m2" using m2(1,3) by (simp add: shown_inv_def display_inv_def dev_inv_def)
  have e: "SessionEnded B ?m2 = ?m2\<lparr>dm_refs := 1\<rparr>" using m2(2) by (simp add: SessionEnded_def Let_def)
  obtain c h where w: "w = \<lparr>dw_sessions = [], dw_client = c, dw_display = Some m, dw_pc = [], dw_host = h\<rparr>"
    using assms(1-3) by (cases w) simp
  have "ds_call_step (DsOpen a (Some p) B True True CapStarted) w
      = \<lparr>dw_sessions = [(a, True)], dw_client = True, dw_display = Some ?m1, dw_pc = [(a, PcServe)], dw_host = True\<rparr>"
    using assms(8,9) by (simp add: w ds_call_step_def ds_defs)
  moreover have "ds_call_step (DsOpen b (Some p) B True True CapStarted)
      \<lparr>dw_sessions = [(a, True)], dw_client = True, dw_display = Some ?m1, dw_pc = [(a, PcServe)], dw_host = True\<rparr>
      = \<lparr>dw_sessions = [(a, True), (b, True)], dw_client = True, dw_display = Some ?m2, dw_pc = [(a, PcServe), (b, PcServe)], dw_host = True\<rparr>"
    using assms(4,8,9) by (simp add: ds_call_step_def ds_defs)
  moreover have "ds_call_step (DsClose a True B)
      \<lparr>dw_sessions = [(a, True), (b, True)], dw_client = True, dw_display = Some ?m2, dw_pc = [(a, PcServe), (b, PcServe)], dw_host = True\<rparr>
      = \<lparr>dw_sessions = [(b, True)], dw_client = True, dw_display = Some ?m2, dw_pc = [(b, PcServe)], dw_host = True\<rparr>"
    using assms(4) by (simp add: ds_call_step_def ds_defs Let_def)
  moreover have "ds_call_step (DsClose b True B)
      \<lparr>dw_sessions = [(b, True)], dw_client = True, dw_display = Some ?m2, dw_pc = [(b, PcServe)], dw_host = True\<rparr>
      = \<lparr>dw_sessions = [], dw_client = True, dw_display = Some (?m2\<lparr>dm_refs := 1\<rparr>), dw_pc = [], dw_host = False\<rparr>"
    by (simp add: ds_call_step_def ds_defs Let_def e)
  ultimately show ?thesis using m2(1) s by (simp add: Let_def)
qed

theorem virtual_display_left_on_witness:
  "let B = (demo_backend True)\<lparr>be_lid := Some True\<rparr>; start = (\<lambda>sid. DsOpen sid (Some demo_desktop) B True True CapStarted);
       w = fold ds_call_step [start ''s1'', start ''s2'', DsClose ''s1'' True B, DsClose ''s2'' True B] (desktop_NewHandler (Some (NewManager B)))
   in dw_sessions w = [] \<and> (\<exists>m. dw_display w = Some m \<and> dm_refs m = 1 \<and> screen m)"
proof -
  let ?B = "(demo_backend True)\<lparr>be_lid := Some True\<rparr>"
  have "shown_inv (NewManager ?B)" "\<not> dm_manual (NewManager ?B)" "dm_refs (NewManager ?B) = 0"
    by (simp_all add: NewManager_def ensureDeviceLocked_def shown_inv_def display_inv_def dev_inv_def screen_def dev_call_def demo_backend_def)
  then show ?thesis
    using virtual_display_left_on [of "desktop_NewHandler (Some (NewManager ?B))" "NewManager ?B" "''s1''" "''s2''" demo_desktop ?B]
    by (auto simp: desktop_NewHandler_def demo_desktop_def demo_backend_def Let_def simp del: fold.simps)
qed

end
