(* ===== verification/File_Transfer.thy ===== *)
theory File_Transfer
  imports Session_Start
begin

text \<open>
  Upload and download of files: the agent's file handler (\<open>src/agent/session/file.go\<close>), the commands
  \<open>upload\<close> and \<open>download\<close> of the command line (\<open>src/cli/cmd_file.go\<close>) and its exit codes (\<open>src/cli/exit.go\<close>).
  A file system is a table of names and one of file contents, so that a handle goes on writing to
  its file when the name is gone or moved; operations that the operating system may refuse take their error from
  \<open>file_env\<close>. SHA-256 is a parameter. Each \<open>ws.Read\<close> of a session is an element of a list whose end is the
  first error.
\<close>

subsection \<open>Files\<close>

datatype errno = EACCES | EPERM | ERROR_ACCESS_DENIED | ERROR_SHARING_VIOLATION | OtherErrno int

record os_error =
  os_errno :: "errno option"
  os_text :: string

record fsys =
  fs_names :: "(string, nat) table"
  fs_data :: "(nat, bytes) table"
  fs_next :: nat

record file_handle =
  hd_file :: nat
  hd_off :: nat

text \<open>What the operating system refuses: creating the directory of a path, creating, renaming, opening or
  removing a path, reading the file of a path at an offset, and writing a whole file (after how many bytes); and \<open>hex.EncodeToString\<close> of the SHA-256
  digest.\<close>

record file_env =
  fe_windows :: bool
  fe_mkdir :: "string \<Rightarrow> os_error option"
  fe_create :: "string \<Rightarrow> os_error option"
  fe_rename :: "string \<Rightarrow> os_error option"
  fe_open :: "string \<Rightarrow> bool"
  fe_remove :: "string \<Rightarrow> bool"
  fe_read :: "string \<Rightarrow> nat \<Rightarrow> bool"
  fe_write :: "string \<Rightarrow> (nat \<times> os_error) option"
  fe_sha :: "bytes \<Rightarrow> string"

definition fs_read :: "fsys \<Rightarrow> string \<Rightarrow> bytes option" where
  "fs_read fs p = (case tget (fs_names fs) p of None \<Rightarrow> None | Some i \<Rightarrow> tget (fs_data fs) i)"

definition os_Create :: "file_env \<Rightarrow> string \<Rightarrow> fsys \<Rightarrow> (os_error + file_handle) \<times> fsys" where
  "os_Create E p fs =
     (case fe_create E p of
        Some e \<Rightarrow> (Inl e, fs)
      | None \<Rightarrow> (case tget (fs_names fs) p of
            Some i \<Rightarrow> (Inr \<lparr>hd_file = i, hd_off = 0\<rparr>, fs\<lparr>fs_data := tput i [] (fs_data fs)\<rparr>)
          | None \<Rightarrow> (Inr \<lparr>hd_file = fs_next fs, hd_off = 0\<rparr>,
              fs\<lparr>fs_names := tput p (fs_next fs) (fs_names fs), fs_data := tput (fs_next fs) [] (fs_data fs),
                 fs_next := fs_next fs + 1\<rparr>)))"

text \<open>A write at the offset of the handle, over what is there.\<close>

definition overwrite :: "nat \<Rightarrow> bytes \<Rightarrow> bytes \<Rightarrow> bytes" where
  "overwrite off d old = take off old @ replicate (off - length old) 0 @ d @ drop (off + length d) old"

definition os_Write :: "file_handle \<Rightarrow> bytes \<Rightarrow> fsys \<Rightarrow> file_handle \<times> fsys" where
  "os_Write h d fs =
     (case tget (fs_data fs) (hd_file h) of
        None \<Rightarrow> (h, fs)
      | Some old \<Rightarrow> (h\<lparr>hd_off := hd_off h + length d\<rparr>,
          fs\<lparr>fs_data := tput (hd_file h) (overwrite (hd_off h) d old) (fs_data fs)\<rparr>))"

definition os_Remove :: "file_env \<Rightarrow> string \<Rightarrow> fsys \<Rightarrow> fsys" where
  "os_Remove E p fs = (if fe_remove E p then fs else fs\<lparr>fs_names := tdel p (fs_names fs)\<rparr>)"

definition enoent :: os_error where
  "enoent = \<lparr>os_errno = Some (OtherErrno 2), os_text = ''no such file or directory''\<rparr>"

definition os_Rename :: "file_env \<Rightarrow> string \<Rightarrow> string \<Rightarrow> fsys \<Rightarrow> (os_error option) \<times> fsys" where
  "os_Rename E a b fs =
     (case fe_rename E a of
        Some e \<Rightarrow> (Some e, fs)
      | None \<Rightarrow> (case tget (fs_names fs) a of
            None \<Rightarrow> (Some enoent, fs)
          | Some i \<Rightarrow> (None, fs\<lparr>fs_names := tput b i (tdel a (fs_names fs))\<rparr>)))"

subsection \<open>The agent's file handler\<close>

definition typeFileMax :: int where "typeFileMax = 256 * 1024 * 1024"
definition fileChunkSize :: nat where "fileChunkSize = 64 * 1024"

datatype ws_frame = WText bytes | WBinary bytes

text \<open>The messages of a file session.\<close>

record FileResult =
  fr_Bytes :: int
  fr_Sha256 :: string
  fr_Ok :: bool

datatype file_msg =
    FileBegin string string int string
  | FileResultMsg FileResult
  | FileError string string

datatype agent_out = OText file_msg | OBinary bytes | OClose int

definition errnoIsAccessDenied :: "bool \<Rightarrow> errno \<Rightarrow> bool" where
  "errnoIsAccessDenied windows e =
     (e = EACCES \<or> e = EPERM \<or> (windows \<and> (e = ERROR_ACCESS_DENIED \<or> e = ERROR_SHARING_VIOLATION)))"

definition fileAccessErrCode :: "file_env \<Rightarrow> os_error \<Rightarrow> string" where
  "fileAccessErrCode E e =
     (case os_errno e of
        Some n \<Rightarrow> if errnoIsAccessDenied (fe_windows E) n then ''ACCESS_DENIED'' else ''INTERNAL''
      | None \<Rightarrow> ''INTERNAL'')"

definition fileError :: "string \<Rightarrow> string \<Rightarrow> agent_out list" where
  "fileError code msg = [OText (FileError code msg), OClose 1011]"

text \<open>An upload in progress: its temporary file, the bytes counted, and what went into the hash.\<close>

record upload =
  up_handle :: file_handle
  up_total :: int
  up_hashed :: bytes

definition part_path :: "FileParams \<Rightarrow> string" where
  "part_path p = fp_Path p @ ''.xnc-part''"

definition upload_open :: "file_env \<Rightarrow> FileParams \<Rightarrow> fsys \<Rightarrow> (agent_out list + upload) \<times> fsys" where
  "upload_open E p fs =
     (case fe_mkdir E (fp_Path p) of
        Some e \<Rightarrow> (Inl (fileError (fileAccessErrCode E e) (os_text e)), fs)
      | None \<Rightarrow> (case os_Create E (part_path p) fs of
            (Inl e, fs1) \<Rightarrow> (Inl (fileError (fileAccessErrCode E e) (os_text e)), fs1)
          | (Inr h, fs1) \<Rightarrow> (Inr \<lparr>up_handle = h, up_total = 0, up_hashed = []\<rparr>, fs1)))"

text \<open>The deferred cleanup: \<open>os.Stat\<close> and \<open>os.Remove\<close> of the temporary file.\<close>

definition upload_cleanup :: "file_env \<Rightarrow> FileParams \<Rightarrow> fsys \<Rightarrow> fsys" where
  "upload_cleanup E p fs = (if tget (fs_names fs) (part_path p) \<noteq> None then os_Remove E (part_path p) fs else fs)"

text \<open>One frame; \<open>wfail\<close> says whether the write fails, after how many bytes and with what text.\<close>

definition upload_frame ::
  "file_env \<Rightarrow> FileParams \<Rightarrow> ws_frame \<Rightarrow> (nat \<times> string) option \<Rightarrow> upload \<Rightarrow> fsys \<Rightarrow> (agent_out list + upload) \<times> fsys" where
  "upload_frame E p f wfail u fs =
     (case f of
        WText _ \<Rightarrow> (Inr u, fs)
      | WBinary d \<Rightarrow>
          if up_total u + int (length d) > fp_Size p
          then (Inl (fileError ''FILE_TOO_LARGE'' []), os_Remove E (part_path p) fs)
          else case wfail of
            Some (n, e) \<Rightarrow> (Inl (fileError ''INTERNAL'' e), os_Remove E (part_path p) (snd (os_Write (up_handle u) (take n d) fs)))
          | None \<Rightarrow>
              let (h, fs1) = os_Write (up_handle u) d fs
              in (Inr \<lparr>up_handle = h, up_total = up_total u + int (length d), up_hashed = up_hashed u @ d\<rparr>, fs1))"

fun upload_loop ::
  "file_env \<Rightarrow> FileParams \<Rightarrow> (ws_frame \<times> (nat \<times> string) option) list \<Rightarrow> upload \<Rightarrow> fsys \<Rightarrow> (agent_out list + upload) \<times> fsys" where
  "upload_loop E p reads u fs =
     (if up_total u < fp_Size p then
        (case reads of
           [] \<Rightarrow> (Inr u, fs)
         | (f, wfail) # rest \<Rightarrow>
             (case upload_frame E p f wfail u fs of
                (Inl out, fs1) \<Rightarrow> (Inl out, fs1)
              | (Inr u1, fs1) \<Rightarrow> upload_loop E p rest u1 fs1))
      else (Inr u, fs))"

declare upload_loop.simps [simp del]

definition upload_finish :: "file_env \<Rightarrow> FileParams \<Rightarrow> upload \<Rightarrow> fsys \<Rightarrow> agent_out list \<times> fsys" where
  "upload_finish E p u fs =
     (let actual = fe_sha E (up_hashed u)
      in if up_total u \<noteq> fp_Size p \<or> actual \<noteq> fp_Sha256 p
         then (fileError ''HASH_MISMATCH'' [], os_Remove E (part_path p) fs)
         else case os_Rename E (part_path p) (fp_Path p) fs of
           (Some e, fs1) \<Rightarrow> (fileError (fileAccessErrCode E e) (os_text e), fs1)
         | (None, fs1) \<Rightarrow>
             ([OText (FileResultMsg \<lparr>fr_Bytes = up_total u, fr_Sha256 = actual, fr_Ok = True\<rparr>), OClose 1000], fs1))"

definition handleUpload ::
  "file_env \<Rightarrow> FileParams \<Rightarrow> (ws_frame \<times> (nat \<times> string) option) list \<Rightarrow> fsys \<Rightarrow> agent_out list \<times> fsys" where
  "handleUpload E p reads fs =
     (case upload_open E p fs of
        (Inl out, fs1) \<Rightarrow> (out, fs1)
      | (Inr u, fs1) \<Rightarrow>
          let first = OText (FileBegin (fp_Direction p) (fp_Path p) (fp_Size p) (fp_Sha256 p));
              (out, fs2) = (case upload_loop E p reads u fs1 of
                 (Inl out, fs2) \<Rightarrow> (out, fs2)
               | (Inr u1, fs2) \<Rightarrow> upload_finish E p u1 fs2)
          in (first # out, upload_cleanup E p fs2))"

text \<open>The download: \<open>wok k\<close> says whether the \<open>k\<close>-th write on the WebSocket succeeds. A read that fails ends
  the loop like the end of the file.\<close>

function chunks :: "nat \<Rightarrow> bytes \<Rightarrow> bytes list" where
  "chunks n d = (if d = [] \<or> n = 0 then [] else take n d # chunks n (drop n d))"
  by pat_completeness auto
termination by (relation "measure (\<lambda>(n, d). length d)") auto

declare chunks.simps [simp del]

fun download_loop :: "(nat \<Rightarrow> bool) \<Rightarrow> (nat \<Rightarrow> bool) \<Rightarrow> nat \<Rightarrow> bytes list \<Rightarrow> bytes \<Rightarrow> agent_out list \<times> bytes option" where
  "download_loop rfail wok k [] sent = ([], Some sent)"
| "download_loop rfail wok k (c # cs) sent =
     (if rfail (length sent) then ([], Some sent)
      else if \<not> wok k then ([], None)
      else let (out, r) = download_loop rfail wok (k + 1) cs (sent @ c) in (OBinary c # out, r))"

definition handleDownload :: "file_env \<Rightarrow> (nat \<Rightarrow> bool) \<Rightarrow> FileParams \<Rightarrow> fsys \<Rightarrow> agent_out list" where
  "handleDownload E wok p fs =
     (case (if fe_open E (fp_Path p) then None else fs_read fs (fp_Path p)) of
        None \<Rightarrow> fileError ''FILE_NOT_FOUND'' []
      | Some d \<Rightarrow>
          if int (length d) > typeFileMax then fileError ''FILE_TOO_LARGE'' []
          else
            let (out, r) = download_loop (fe_read E (fp_Path p)) wok 0 (chunks fileChunkSize d) [] in
            OText (FileBegin (fp_Direction p) (fp_Path p) (int (length d)) []) # out
            @ (case r of
                 None \<Rightarrow> []
               | Some sent \<Rightarrow>
                   [OText (FileResultMsg \<lparr>fr_Bytes = int (length sent), fr_Sha256 = fe_sha E sent, fr_Ok = True\<rparr>), OClose 1000]))"

definition file_Handle ::
  "file_env \<Rightarrow> (nat \<Rightarrow> bool) \<Rightarrow> FileParams option \<Rightarrow> (ws_frame \<times> (nat \<times> string) option) list \<Rightarrow> fsys \<Rightarrow> agent_out list \<times> fsys" where
  "file_Handle E wok params reads fs =
     (case params of
        None \<Rightarrow> (fileError ''FILE_NOT_FOUND'' [], fs)
      | Some p \<Rightarrow>
          if fp_Path p = [] then (fileError ''FILE_NOT_FOUND'' [], fs)
          else if fp_Direction p = ''upload'' then handleUpload E p reads fs
          else if fp_Direction p = ''download'' then (handleDownload E wok p fs, fs)
          else (fileError ''FILE_NOT_FOUND'' [], fs))"

subsection \<open>The commands of the command line\<close>

definition ExitCode :: "api_error option \<Rightarrow> int" where
  "ExitCode r =
     (case r of
        None \<Rightarrow> 0
      | Some e \<Rightarrow>
          let c = err_code e in
          if c \<in> {''UNAUTHORIZED'', ''ENROLLMENT_TOKEN_INVALID''} then 240
          else if c = ''FORBIDDEN'' then 241
          else if c = ''NODE_OFFLINE'' then 242
          else if c \<in> {''SESSION_LIMIT_EXCEEDED'', ''FILE_TOO_LARGE'', ''HASH_MISMATCH''} then 246
          else if c \<in> {''CLUSTER_NOT_FOUND'', ''NODE_NOT_FOUND'', ''NODE_ALREADY_ENROLLED'', ''MACHINE_ID_CONFLICT'', ''FILE_NOT_FOUND''} then 244
          else if c = ''NETWORK'' then 245
          else if c = ''USAGE'' then 2
          else 250)"

text \<open>The request body of an upload, from the file read before anything is sent; the frames it sends.\<close>

definition cli_upload_body :: "file_env \<Rightarrow> string \<Rightarrow> bytes option \<Rightarrow> api_error + fileReq" where
  "cli_upload_body E remote content =
     (case content of
        None \<Rightarrow> Inl (proto_Err 2 ''USAGE'' ''cannot read'')
      | Some d \<Rightarrow>
          if int (length d) > typeFileMax then Inl (proto_Err 2 ''USAGE'' ''file exceeds 256MB'')
          else Inr \<lparr>fq_Path = remote, fq_Size = int (length d), fq_Sha256 = fe_sha E d\<rparr>)"

definition cli_download_body :: "string \<Rightarrow> fileReq" where
  "cli_download_body remote = \<lparr>fq_Path = remote, fq_Size = 0, fq_Sha256 = []\<rparr>"

definition cli_upload_frames :: "bytes \<Rightarrow> ws_frame list" where
  "cli_upload_frames d = map WBinary (chunks (64 * 1024) d)"

text \<open>What the command reads: a text frame is the message it decodes to.\<close>

datatype cli_read = CBinary bytes | CText "file_msg option"

record cli_state =
  cs_downloaded :: bytes
  cs_result :: "FileResult option"
  cs_error :: "(string \<times> string) option"

fun cli_loop :: "bool \<Rightarrow> cli_read list \<Rightarrow> bytes \<Rightarrow> cli_state" where
  "cli_loop download [] acc = \<lparr>cs_downloaded = acc, cs_result = None, cs_error = None\<rparr>"
| "cli_loop download (CBinary d # rest) acc = cli_loop download rest (if download then acc @ d else acc)"
| "cli_loop download (CText (Some (FileResultMsg r)) # rest) acc = \<lparr>cs_downloaded = acc, cs_result = Some r, cs_error = None\<rparr>"
| "cli_loop download (CText (Some (FileError code msg)) # rest) acc = \<lparr>cs_downloaded = acc, cs_result = None, cs_error = Some (code, msg)\<rparr>"
| "cli_loop download (CText _ # rest) acc = cli_loop download rest acc"

definition fileErrExit :: "string \<Rightarrow> string \<Rightarrow> api_error" where
  "fileErrExit code msg =
     (if code = ''FILE_NOT_FOUND'' then proto_Err 244 code (if msg = [] then ''file not found'' else msg)
      else if code = ''FILE_TOO_LARGE'' \<or> code = ''HASH_MISMATCH'' then proto_Err 246 code (if msg = [] then code else msg)
      else proto_Err 250 code (if msg = [] then code else msg))"

definition os_WriteFile :: "file_env \<Rightarrow> string \<Rightarrow> bytes \<Rightarrow> fsys \<Rightarrow> os_error option \<times> fsys" where
  "os_WriteFile E p d fs =
     (case os_Create E p fs of
        (Inl e, fs1) \<Rightarrow> (Some e, fs1)
      | (Inr h, fs1) \<Rightarrow>
          (case fe_write E p of
             Some (n, e) \<Rightarrow> (Some e, snd (os_Write h (take n d) fs1))
           | None \<Rightarrow> (None, snd (os_Write h d fs1))))"

definition cli_finish :: "file_env \<Rightarrow> bool \<Rightarrow> string \<Rightarrow> cli_state \<Rightarrow> fsys \<Rightarrow> api_error option \<times> fsys" where
  "cli_finish E download local st fs =
     (case cs_error st of
        Some (code, msg) \<Rightarrow> (Some (fileErrExit code msg), fs)
      | None \<Rightarrow>
     (case cs_result st of
        None \<Rightarrow> (Some (proto_Err 0 ''NETWORK'' ''session ended without result''), fs)
      | Some r \<Rightarrow>
          if \<not> fr_Ok r then (Some (proto_Err 246 ''HASH_MISMATCH'' ''sha256 mismatch''), fs)
          else if \<not> download then (None, fs)
          else case fe_mkdir E local of
            Some e \<Rightarrow> (Some (proto_Err 250 ''INTERNAL'' (os_text e)), fs)
          | None \<Rightarrow>
          (case os_WriteFile E local (cs_downloaded st) fs of
             (Some e, fs1) \<Rightarrow> (Some (proto_Err 250 ''INTERNAL'' (os_text e)), fs1)
           | (None, fs1) \<Rightarrow>
               if fe_sha E (cs_downloaded st) \<noteq> fr_Sha256 r
               then (Some (proto_Err 246 ''HASH_MISMATCH'' ''sha256 mismatch''), os_Remove E local fs1)
               else (None, fs1))))"

text \<open>\<open>runFileTransfer\<close> once the session is open: what it reads decides.\<close>

definition runFileTransfer :: "file_env \<Rightarrow> bool \<Rightarrow> string \<Rightarrow> cli_read list \<Rightarrow> fsys \<Rightarrow> api_error option \<times> fsys" where
  "runFileTransfer E download local reads fs = cli_finish E download local (cli_loop download reads []) fs"

text \<open>What arrives at the command of what the agent writes.\<close>

fun arrives :: "agent_out \<Rightarrow> cli_read list" where
  "arrives (OText m) = [CText (Some m)]"
| "arrives (OBinary d) = [CBinary d]"
| "arrives (OClose _) = []"

definition delivered :: "agent_out list \<Rightarrow> cli_read list" where
  "delivered out = concat (map arrives out)"

subsection \<open>Laws of the file system\<close>

definition fs_wf :: "fsys \<Rightarrow> bool" where
  "fs_wf fs \<longleftrightarrow> (\<forall>p q i. tget (fs_names fs) p = Some i \<and> tget (fs_names fs) q = Some i \<longrightarrow> p = q)
     \<and> (\<forall>p i. tget (fs_names fs) p = Some i \<longrightarrow> i < fs_next fs \<and> tget (fs_data fs) i \<noteq> None)"

lemma fs_wfD:
  assumes "fs_wf fs" "tget (fs_names fs) p = Some i"
  shows "i < fs_next fs" "\<exists>d. tget (fs_data fs) i = Some d" "tget (fs_names fs) q = Some i \<Longrightarrow> q = p"
  using assms unfolding fs_wf_def by blast+

lemma overwrite_end [simp]: "overwrite (length old) d old = old @ d"
  by (simp add: overwrite_def)

text \<open>The state while one handle is open on the file called \<open>p\<close>, holding \<open>c\<close>, and everything else as in \<open>fs0\<close>.\<close>

definition writing :: "fsys \<Rightarrow> string \<Rightarrow> file_handle \<Rightarrow> bytes \<Rightarrow> fsys \<Rightarrow> bool" where
  "writing fs0 p h c fs \<longleftrightarrow> fs_wf fs \<and> tget (fs_names fs) p = Some (hd_file h) \<and> tget (fs_data fs) (hd_file h) = Some c
     \<and> hd_off h = length c \<and> (\<forall>q. q \<noteq> p \<longrightarrow> fs_read fs q = fs_read fs0 q)"

lemma create_writing:
  assumes "fs_wf fs" "fe_create E p = None"
  shows "\<exists>h fs1. os_Create E p fs = (Inr h, fs1) \<and> writing fs p h [] fs1"
proof (cases "tget (fs_names fs) p")
  case None
  let ?n = "fs_next fs"
  let ?fs = "fs\<lparr>fs_names := tput p ?n (fs_names fs), fs_data := tput ?n [] (fs_data fs), fs_next := ?n + 1\<rparr>"
  have c: "os_Create E p fs = (Inr \<lparr>hd_file = ?n, hd_off = 0\<rparr>, ?fs)"
    by (simp add: os_Create_def assms(2) None)
  have new: "i < ?n" if "tget (fs_names fs) q = Some i" for q i using fs_wfD(1) [OF assms(1) that] .
  have "fs_wf ?fs"
    using assms(1) new unfolding fs_wf_def by (auto split: if_splits; fastforce)
  moreover have "fs_read ?fs q = fs_read fs q" if "q \<noteq> p" for q
    using that new by (auto simp: fs_read_def split: option.splits)
  ultimately show ?thesis using c by (auto simp: writing_def)
next
  case (Some i)
  let ?fs = "fs\<lparr>fs_data := tput i [] (fs_data fs)\<rparr>"
  have c: "os_Create E p fs = (Inr \<lparr>hd_file = i, hd_off = 0\<rparr>, ?fs)"
    by (simp add: os_Create_def assms(2) Some)
  have "fs_wf ?fs" using assms(1) unfolding fs_wf_def by auto
  moreover have "fs_read ?fs q = fs_read fs q" if "q \<noteq> p" for q
    using that fs_wfD(3) [OF assms(1) Some] by (auto simp: fs_read_def split: option.splits)
  ultimately show ?thesis using c Some by (auto simp: writing_def)
qed

lemma write_writing:
  assumes "writing fs0 p h c fs"
  shows "\<exists>h1 fs1. os_Write h d fs = (h1, fs1) \<and> writing fs0 p h1 (c @ d) fs1"
proof -
  let ?fs = "fs\<lparr>fs_data := tput (hd_file h) (c @ d) (fs_data fs)\<rparr>"
  have wfd: "fs_wf fs" "tget (fs_names fs) p = Some (hd_file h)" using assms by (simp_all add: writing_def)
  have w: "os_Write h d fs = (h\<lparr>hd_off := hd_off h + length d\<rparr>, ?fs)"
    using assms by (simp add: os_Write_def writing_def)
  have "fs_wf ?fs" using wfd(1) unfolding fs_wf_def by auto
  moreover have "fs_read ?fs q = fs_read fs q" if "q \<noteq> p" for q
    using that fs_wfD(3) [OF wfd] by (auto simp: fs_read_def split: option.splits)
  ultimately show ?thesis using w assms by (auto simp: writing_def)
qed

lemma writing_read: "writing fs0 p h c fs \<Longrightarrow> fs_read fs p = Some c"
  by (simp add: writing_def fs_read_def)

lemma remove_writing:
  assumes "writing fs0 p h c fs" "\<not> fe_remove E p"
  shows "fs_wf (os_Remove E p fs)" "fs_read (os_Remove E p fs) q = (if q = p then None else fs_read fs0 q)"
proof -
  have wfd: "fs_wf fs" using assms(1) by (simp add: writing_def)
  show "fs_wf (os_Remove E p fs)" using wfd assms(2) unfolding fs_wf_def os_Remove_def by (auto split: if_splits)
  show "fs_read (os_Remove E p fs) q = (if q = p then None else fs_read fs0 q)"
    using assms by (auto simp: os_Remove_def fs_read_def writing_def cong: option.case_cong)
qed

lemma rename_writing:
  assumes "writing fs0 p h c fs" "fe_rename E p = None" "q \<noteq> p"
  shows "\<exists>fs1. os_Rename E p q fs = (None, fs1) \<and> fs_wf fs1
     \<and> (\<forall>r. fs_read fs1 r = (if r = q then Some c else if r = p then None else fs_read fs0 r))"
proof -
  let ?i = "hd_file h"
  let ?fs = "fs\<lparr>fs_names := tput q ?i (tdel p (fs_names fs))\<rparr>"
  have wfd: "fs_wf fs" "tget (fs_names fs) p = Some ?i" using assms by (simp_all add: writing_def)
  have r: "os_Rename E p q fs = (None, ?fs)" by (simp add: os_Rename_def assms(2) wfd(2))
  have "fs_wf ?fs" using wfd unfolding fs_wf_def by (auto split: if_splits)
  moreover have "fs_read ?fs r = (if r = q then Some c else if r = p then None else fs_read fs0 r)" for r
    using assms(1,3) by (auto simp: fs_read_def writing_def cong: option.case_cong)
  ultimately show ?thesis using r by blast
qed

subsection \<open>Uploads\<close>

definition up_inv :: "FileParams \<Rightarrow> fsys \<Rightarrow> upload \<Rightarrow> fsys \<Rightarrow> bool" where
  "up_inv p fs0 u fs \<longleftrightarrow> writing fs0 (part_path p) (up_handle u) (up_hashed u) fs \<and> up_total u = int (length (up_hashed u))"

text \<open>The temporary file is gone and nothing else changed.\<close>

definition part_gone :: "FileParams \<Rightarrow> fsys \<Rightarrow> fsys \<Rightarrow> bool" where
  "part_gone p fs0 fs \<longleftrightarrow> fs_wf fs \<and> (\<forall>q. fs_read fs q = (if q = part_path p then None else fs_read fs0 q))"

lemma remove_gone: "writing fs0 (part_path p) h c fs \<Longrightarrow> \<not> fe_remove E (part_path p) \<Longrightarrow> part_gone p fs0 (os_Remove E (part_path p) fs)"
  by (simp add: part_gone_def remove_writing)

lemma no_name: "fs_wf fs \<Longrightarrow> fs_read fs q = None \<longleftrightarrow> tget (fs_names fs) q = None"
  using fs_wfD(2) by (fastforce simp: fs_read_def split: option.splits)

lemma cleanup_gone: "part_gone p fs0 fs \<Longrightarrow> upload_cleanup E p fs = fs"
  using no_name [of fs "part_path p"] by (auto simp: part_gone_def upload_cleanup_def)

lemma cleanup_writing:
  "writing fs0 (part_path p) h c fs \<Longrightarrow> \<not> fe_remove E (part_path p) \<Longrightarrow> part_gone p fs0 (upload_cleanup E p fs)"
  using remove_gone by (simp add: upload_cleanup_def) (simp add: writing_def)

lemma open_cases:
  assumes "fs_wf fs"
  obtains (refused) code msg where "upload_open E p fs = (Inl (fileError code msg), fs)"
  | (opened) u fs1 where "upload_open E p fs = (Inr u, fs1)" "up_inv p fs u fs1" "up_hashed u = []"
proof (cases "fe_mkdir E (fp_Path p)")
  case (Some e)
  then show thesis by (intro refused) (simp add: upload_open_def)
next
  case None
  show thesis
  proof (cases "fe_create E (part_path p)")
    case (Some e)
    then show thesis using None by (intro refused) (simp add: upload_open_def os_Create_def)
  next
    case c: None
    obtain h fs1 where "os_Create E (part_path p) fs = (Inr h, fs1)" "writing fs (part_path p) h [] fs1"
      using create_writing [OF assms c] by blast
    then show thesis using None by (intro opened [of "\<lparr>up_handle = h, up_total = 0, up_hashed = []\<rparr>" fs1])
      (simp_all add: upload_open_def up_inv_def)
  qed
qed

lemma frame_result:
  assumes "up_inv p fs0 u fs" "\<not> fe_remove E (part_path p)"
  shows "case upload_frame E p f wfail u fs of
      (Inl out, fs1) \<Rightarrow> part_gone p fs0 fs1 \<and> (\<exists>code msg. out = fileError code msg)
    | (Inr u1, fs1) \<Rightarrow> up_inv p fs0 u1 fs1"
proof (cases f)
  case (WText t)
  then show ?thesis using assms(1) by (simp add: upload_frame_def)
next
  case (WBinary d)
  have w: "writing fs0 (part_path p) (up_handle u) (up_hashed u) fs" using assms(1) by (simp add: up_inv_def)
  show ?thesis
  proof (cases "up_total u + int (length d) > fp_Size p")
    case True
    then show ?thesis using WBinary remove_gone [OF w assms(2)] by (auto simp: upload_frame_def)
  next
    case False
    show ?thesis
    proof (cases wfail)
      case None
      obtain h1 fs1 where "os_Write (up_handle u) d fs = (h1, fs1)" "writing fs0 (part_path p) h1 (up_hashed u @ d) fs1"
        using write_writing [OF w] by blast
      then show ?thesis using WBinary False None assms(1) by (simp add: upload_frame_def up_inv_def)
    next
      case (Some x)
      obtain n e where x: "x = (n, e)" by fastforce
      obtain h1 fs1 where "os_Write (up_handle u) (take n d) fs = (h1, fs1)" "writing fs0 (part_path p) h1 (up_hashed u @ take n d) fs1"
        using write_writing [OF w] by blast
      then show ?thesis using WBinary False Some x remove_gone [OF _ assms(2)] by (auto simp: upload_frame_def)
    qed
  qed
qed

lemma upload_loop_Nil [simp]: "upload_loop E p [] u fs = (Inr u, fs)"
  by (simp add: upload_loop.simps)

lemma upload_loop_Cons: "upload_loop E p ((f, w) # rest) u fs =
     (if up_total u < fp_Size p then
        (case upload_frame E p f w u fs of (Inl out, fs1) \<Rightarrow> (Inl out, fs1) | (Inr u1, fs1) \<Rightarrow> upload_loop E p rest u1 fs1)
      else (Inr u, fs))"
  by (simp add: upload_loop.simps [of _ _ "(f, w) # rest"])

lemma loop_result:
  assumes "up_inv p fs0 u fs" "\<not> fe_remove E (part_path p)"
  shows "case upload_loop E p reads u fs of
      (Inl out, fs1) \<Rightarrow> part_gone p fs0 fs1 \<and> (\<exists>code msg. out = fileError code msg)
    | (Inr u1, fs1) \<Rightarrow> up_inv p fs0 u1 fs1"
  using assms(1)
proof (induction reads arbitrary: u fs)
  case Nil
  then show ?case by simp
next
  case (Cons r rest)
  obtain f w where r: "r = (f, w)" by fastforce
  obtain o1 fs1 where o: "upload_frame E p f w u fs = (o1, fs1)" by fastforce
  have "up_inv p fs0 u1 fs1" if "o1 = Inr u1" for u1 using frame_result [OF Cons.prems assms(2), of f w] o that by simp
  then show ?case
    using frame_result [OF Cons.prems assms(2), of f w] o r Cons.prems Cons.IH
    by (cases o1) (simp_all add: upload_loop_Cons)
qed

text \<open>An upload that was accepted for writing: what is in the file system in the end, and whether the result says so.\<close>

definition upload_ok :: "agent_out list \<Rightarrow> bool" where
  "upload_ok out \<longleftrightarrow> (\<exists>r. OText (FileResultMsg r) \<in> set out)"

definition replaced :: "file_env \<Rightarrow> FileParams \<Rightarrow> bytes \<Rightarrow> fsys \<Rightarrow> fsys \<Rightarrow> bool" where
  "replaced E p d fs fs' \<longleftrightarrow> fs_wf fs' \<and> int (length d) = fp_Size p \<and> fe_sha E d = fp_Sha256 p
     \<and> (\<forall>q. fs_read fs' q = (if q = fp_Path p then Some d else if q = part_path p then None else fs_read fs q))"

lemma part_path_ne [simp]: "part_path p \<noteq> fp_Path p" "fp_Path p \<noteq> part_path p"
  by (simp_all add: part_path_def)

lemma replaced_cleanup: "replaced E p d fs fs' \<Longrightarrow> upload_cleanup E p fs' = fs'"
  using no_name [of fs' "part_path p"] by (auto simp: replaced_def upload_cleanup_def)

lemma fileError_no_result [simp]: "OText (FileResultMsg r) \<notin> set (fileError code msg)"
  by (simp add: fileError_def)

lemma finish_result:
  assumes "up_inv p fs0 u fs" "\<not> fe_remove E (part_path p)"
  shows "case upload_finish E p u fs of (out, fs1) \<Rightarrow>
     (\<exists>code msg. out = fileError code msg) \<and> part_gone p fs0 (upload_cleanup E p fs1)
     \<or> out = [OText (FileResultMsg \<lparr>fr_Bytes = fp_Size p, fr_Sha256 = fp_Sha256 p, fr_Ok = True\<rparr>), OClose 1000]
        \<and> replaced E p (up_hashed u) fs0 fs1"
proof -
  have w: "writing fs0 (part_path p) (up_handle u) (up_hashed u) fs" and t: "up_total u = int (length (up_hashed u))"
    using assms(1) by (simp_all add: up_inv_def)
  show ?thesis
  proof (cases "up_total u \<noteq> fp_Size p \<or> fe_sha E (up_hashed u) \<noteq> fp_Sha256 p")
    case True
    then show ?thesis
      using remove_gone [OF w assms(2)] cleanup_gone by (auto simp: upload_finish_def Let_def)
  next
    case False
    show ?thesis
    proof (cases "fe_rename E (part_path p)")
      case (Some e)
      then have "upload_finish E p u fs = (fileError (fileAccessErrCode E e) (os_text e), fs)"
        using False by (simp add: upload_finish_def os_Rename_def)
      then show ?thesis using cleanup_writing [OF w assms(2)] by auto
    next
      case None
      obtain fs1 where "os_Rename E (part_path p) (fp_Path p) fs = (None, fs1)" "fs_wf fs1"
          "\<forall>r. fs_read fs1 r = (if r = fp_Path p then Some (up_hashed u) else if r = part_path p then None else fs_read fs0 r)"
        using rename_writing [OF w None part_path_ne(2)] by blast
      then show ?thesis using False t by (simp add: upload_finish_def replaced_def)
    qed
  qed
qed

lemma file_upload_cases:
  assumes "fs_wf fs" "\<not> fe_remove E (part_path p)" "handleUpload E p reads fs = (out, fs')"
  obtains (refused) code msg where "out = fileError code msg" "fs' = fs"
  | (failed) code msg where "out = OText (FileBegin (fp_Direction p) (fp_Path p) (fp_Size p) (fp_Sha256 p)) # fileError code msg"
      "part_gone p fs fs'"
  | (stored) d where "out = [OText (FileBegin (fp_Direction p) (fp_Path p) (fp_Size p) (fp_Sha256 p)),
        OText (FileResultMsg \<lparr>fr_Bytes = fp_Size p, fr_Sha256 = fp_Sha256 p, fr_Ok = True\<rparr>), OClose 1000]" "replaced E p d fs fs'"
proof (cases rule: open_cases [OF assms(1), of E p])
  case (1 code msg)
  then show thesis using assms(3) by (intro refused [of code msg]) (simp_all add: handleUpload_def)
next
  case (2 u fs1)
  obtain x fs2 where x: "upload_loop E p reads u fs1 = (x, fs2)" by fastforce
  note L = loop_result [OF 2(2) assms(2), of reads, unfolded x prod.case]
  show thesis
  proof (cases x)
    case (Inl o1)
    then show thesis
      using L assms(3) 2(1) x failed cleanup_gone by (auto simp: handleUpload_def)
  next
    case (Inr u1)
    obtain o1 fs3 where f: "upload_finish E p u1 fs2 = (o1, fs3)" by fastforce
    have u1: "up_inv p fs u1 fs2" using L Inr by simp
    have o: "out = OText (FileBegin (fp_Direction p) (fp_Path p) (fp_Size p) (fp_Sha256 p)) # o1" "fs' = upload_cleanup E p fs3"
      using assms(3) 2(1) x Inr f by (simp_all add: handleUpload_def)
    show thesis
      using finish_result [OF u1 assms(2)] f o replaced_cleanup failed stored by auto
  qed
qed

text \<open>C9. An upload is all or nothing. Whatever frames arrive, whenever the connection breaks and whatever the
  operating system refuses (except the removal of the temporary file): afterwards the target holds either
  what it held before, or a content of exactly the announced length and digest, and the result frame is sent
  in the second case only; every other file is as before, and once the file was opened no temporary file is
  left.\<close>

theorem upload_atomic:
  assumes "fs_wf fs" "\<not> fe_remove E (part_path p)" "handleUpload E p reads fs = (out, fs')"
  shows "fs_wf fs' \<and> (\<forall>q. q \<noteq> fp_Path p \<and> q \<noteq> part_path p \<longrightarrow> fs_read fs' q = fs_read fs q)
     \<and> (if upload_ok out then \<exists>d. fs_read fs' (fp_Path p) = Some d \<and> int (length d) = fp_Size p \<and> fe_sha E d = fp_Sha256 p
        else fs_read fs' (fp_Path p) = fs_read fs (fp_Path p))
     \<and> (fs_read fs' (part_path p) = None \<or> fs' = fs \<and> (\<exists>code msg. out = fileError code msg))"
proof (cases rule: file_upload_cases [OF assms])
  case (1 code msg)
  then show ?thesis using assms(1) by (auto simp: upload_ok_def)
next
  case (2 code msg)
  then show ?thesis by (auto simp: upload_ok_def part_gone_def)
next
  case (3 d)
  then show ?thesis by (auto simp: upload_ok_def replaced_def)
qed

subsection \<open>Whole transfers\<close>

lemma chunks_concat: "n > 0 \<Longrightarrow> concat (chunks n d) = d"
proof (induction n d rule: chunks.induct)
  case (1 n d)
  then show ?case by (subst chunks.simps) auto
qed

lemma chunks_nonempty: "c \<in> set (chunks n d) \<Longrightarrow> c \<noteq> [] \<and> length c \<le> n"
proof (induction n d rule: chunks.induct)
  case (1 n d)
  then show ?case by (subst (asm) (2) chunks.simps) (auto split: if_splits)
qed

text \<open>Frames received in full: their bytes reach the file in order; text and empty frames do not matter.\<close>

definition payload :: "ws_frame list \<Rightarrow> bytes" where
  "payload fs = concat (map (\<lambda>f. case f of WText _ \<Rightarrow> [] | WBinary d \<Rightarrow> d) fs)"

lemma payload_simps [simp]: "payload [] = []" "payload (WText t # fs) = payload fs" "payload (WBinary d # fs) = d @ payload fs"
  by (simp_all add: payload_def)

lemma loop_complete:
  assumes "up_inv p fs0 u fs" "up_total u + int (length (payload frames)) = fp_Size p"
  shows "\<exists>u1 fs1. upload_loop E p (map (\<lambda>f. (f, None)) frames) u fs = (Inr u1, fs1) \<and> up_inv p fs0 u1 fs1
     \<and> up_hashed u1 = up_hashed u @ payload frames"
  using assms
proof (induction frames arbitrary: u fs)
  case (Cons f rest)
  show ?case
  proof (cases "up_total u < fp_Size p")
    case False
    then have "length (payload (f # rest)) = 0" using Cons.prems(2) by linarith
    then have "payload (f # rest) = []" by blast
    then show ?thesis using False Cons.prems(1) by (simp add: upload_loop_Cons)
  next
    case True
    show ?thesis
    proof (cases f)
      case (WText t)
      then show ?thesis using Cons True by (simp add: upload_loop_Cons upload_frame_def)
    next
      case (WBinary d)
      obtain h1 fs1 where w: "os_Write (up_handle u) d fs = (h1, fs1)" "writing fs0 (part_path p) h1 (up_hashed u @ d) fs1"
        using write_writing Cons.prems(1) unfolding up_inv_def by blast
      let ?u = "\<lparr>up_handle = h1, up_total = up_total u + int (length d), up_hashed = up_hashed u @ d\<rparr>"
      have fit: "\<not> up_total u + int (length d) > fp_Size p" using Cons.prems(2) WBinary by simp
      have "up_inv p fs0 ?u fs1" using w(2) Cons.prems(1) by (simp add: up_inv_def)
      moreover have "up_total ?u + int (length (payload rest)) = fp_Size p" using Cons.prems(2) WBinary by simp
      ultimately show ?thesis
        using Cons.IH [of ?u fs1] True fit WBinary w(1) by (simp add: upload_loop_Cons upload_frame_def)
    qed
  qed
qed simp

text \<open>A machine on which nothing is refused for a path.\<close>

definition allows :: "file_env \<Rightarrow> string \<Rightarrow> bool" where
  "allows E p \<longleftrightarrow> fe_mkdir E p = None \<and> fe_create E p = None \<and> fe_create E (p @ ''.xnc-part'') = None
     \<and> fe_rename E (p @ ''.xnc-part'') = None \<and> \<not> fe_remove E (p @ ''.xnc-part'') \<and> \<not> fe_open E p \<and> fe_write E p = None
     \<and> (\<forall>k. \<not> fe_read E p k)"

lemma upload_complete:
  assumes "fs_wf fs" "allows E (fp_Path p)" "payload frames = d" "int (length d) = fp_Size p" "fe_sha E d = fp_Sha256 p"
  shows "\<exists>fs'. handleUpload E p (map (\<lambda>f. (f, None)) frames) fs =
      ([OText (FileBegin (fp_Direction p) (fp_Path p) (fp_Size p) (fp_Sha256 p)),
        OText (FileResultMsg \<lparr>fr_Bytes = fp_Size p, fr_Sha256 = fp_Sha256 p, fr_Ok = True\<rparr>), OClose 1000], fs')
     \<and> replaced E p d fs fs'"
proof (cases rule: open_cases [OF assms(1), of E p])
  case (1 code msg)
  then show ?thesis
    using create_writing [OF assms(1), of E "part_path p"] assms(2) by (auto simp: upload_open_def allows_def part_path_def)
next
  case (2 u fs1)
  have t: "up_total u + int (length (payload frames)) = fp_Size p" using 2(2,3) assms(3,4) by (simp add: up_inv_def)
  obtain u1 fs2 where l: "upload_loop E p (map (\<lambda>f. (f, None)) frames) u fs1 = (Inr u1, fs2)" "up_inv p fs u1 fs2" "up_hashed u1 = d"
    using loop_complete [OF 2(2) t, of E] 2(3) assms(3) by auto
  have rm: "\<not> fe_remove E (part_path p)" "fe_rename E (part_path p) = None" using assms(2) by (simp_all add: allows_def part_path_def)
  have w: "writing fs (part_path p) (up_handle u1) d fs2" and t1: "up_total u1 = fp_Size p"
    using l(2,3) assms(4) by (simp_all add: up_inv_def)
  obtain fs3 where r: "os_Rename E (part_path p) (fp_Path p) fs2 = (None, fs3)" "replaced E p d fs fs3"
    using rename_writing [OF w rm(2) part_path_ne(2)] assms(4,5) unfolding replaced_def by blast
  have "upload_finish E p u1 fs2 = ([OText (FileResultMsg \<lparr>fr_Bytes = fp_Size p, fr_Sha256 = fp_Sha256 p, fr_Ok = True\<rparr>), OClose 1000], fs3)"
    using t1 l(3) assms(5) r(1) by (simp add: upload_finish_def)
  then show ?thesis using 2(1) l(1) r(2) replaced_cleanup [OF r(2)] by (simp add: handleUpload_def)
qed

lemma download_loop_prefix:
  shows "\<exists>n \<le> length cs. download_loop rfail (\<lambda>_. True) k cs sent = (map OBinary (take n cs), Some (sent @ concat (take n cs)))
     \<and> (n = length cs \<or> rfail (length (sent @ concat (take n cs))))
     \<and> (\<forall>m<n. \<not> rfail (length (sent @ concat (take m cs))))"
proof (induction cs arbitrary: k sent)
  case (Cons c cs)
  show ?case
  proof (cases "rfail (length sent)")
    case True
    then show ?thesis by (intro exI [of _ 0]) simp
  next
    case False
    obtain n where n: "n \<le> length cs" "download_loop rfail (\<lambda>_. True) (k + 1) cs (sent @ c) = (map OBinary (take n cs), Some (sent @ c @ concat (take n cs)))"
        "n = length cs \<or> rfail (length (sent @ c @ concat (take n cs)))" "\<forall>m<n. \<not> rfail (length (sent @ c @ concat (take m cs)))"
      using Cons.IH [of "k + 1" "sent @ c"] by auto
    have "\<not> rfail (length (sent @ concat (take m (c # cs))))" if "m < Suc n" for m
      using that n(4) False by (cases m) auto
    then show ?thesis using False n by (intro exI [of _ "Suc n"]) (simp add: Let_def)
  qed
qed simp

lemma cli_receives: "cli_loop True (map CBinary cs @ CText (Some (FileResultMsg r)) # rest) acc =
    \<lparr>cs_downloaded = acc @ concat cs, cs_result = Some r, cs_error = None\<rparr>"
  by (induction cs arbitrary: acc) simp_all

lemma delivered_simps [simp]: "delivered [] = []" "delivered (x # xs) = arrives x @ delivered xs"
  "delivered (xs @ ys) = delivered xs @ delivered ys" "delivered (map OBinary cs) = map CBinary cs"
  by (simp_all add: delivered_def, induction cs, simp_all)

text \<open>What the command does with a download that the agent finished.\<close>

lemma download_received:
  assumes "fs_read fs (fp_Path p) = Some d" "int (length d) \<le> typeFileMax" "\<not> fe_open E (fp_Path p)" "wok = (\<lambda>_. True)"
    and "fs_wf lfs" "fe_mkdir C local = None" "fe_create C local = None" "fe_write C local = None" "fe_sha C = fe_sha E"
  shows "\<exists>n \<le> length (chunks fileChunkSize d). let got = concat (take n (chunks fileChunkSize d)) in
     (\<exists>lfs'. runFileTransfer C True local (delivered (handleDownload E wok p fs)) lfs = (None, lfs')
       \<and> (\<forall>q. fs_read lfs' q = (if q = local then Some got else fs_read lfs q)))
     \<and> (n = length (chunks fileChunkSize d) \<or> fe_read E (fp_Path p) (length got))
     \<and> (\<forall>m<n. \<not> fe_read E (fp_Path p) (length (concat (take m (chunks fileChunkSize d)))))"
proof -
  let ?cs = "chunks fileChunkSize d"
  obtain n where n: "n \<le> length ?cs"
      "download_loop (fe_read E (fp_Path p)) wok 0 ?cs [] = (map OBinary (take n ?cs), Some (concat (take n ?cs)))"
      "n = length ?cs \<or> fe_read E (fp_Path p) (length (concat (take n ?cs)))"
      "\<forall>m<n. \<not> fe_read E (fp_Path p) (length (concat (take m ?cs)))"
    using download_loop_prefix [of ?cs "fe_read E (fp_Path p)" 0 "[]"] by (auto simp: assms(4))
  let ?got = "concat (take n ?cs)"
  let ?r = "\<lparr>fr_Bytes = int (length ?got), fr_Sha256 = fe_sha E ?got, fr_Ok = True\<rparr>"
  have o: "delivered (handleDownload E wok p fs) =
      CText (Some (FileBegin (fp_Direction p) (fp_Path p) (int (length d)) [])) # map CBinary (take n ?cs) @ [CText (Some (FileResultMsg ?r))]"
    using assms(1-3) n(2) by (simp add: handleDownload_def)
  have st: "cli_loop True (delivered (handleDownload E wok p fs)) [] = \<lparr>cs_downloaded = ?got, cs_result = Some ?r, cs_error = None\<rparr>"
    unfolding o by (simp add: cli_receives)
  obtain h lfs1 where c: "os_Create C local lfs = (Inr h, lfs1)" "writing lfs local h [] lfs1"
    using create_writing [OF assms(5,7)] by blast
  obtain h2 lfs2 where w: "os_Write h ?got lfs1 = (h2, lfs2)" "writing lfs local h2 ?got lfs2"
    using write_writing [OF c(2), of ?got] by auto
  have "runFileTransfer C True local (delivered (handleDownload E wok p fs)) lfs = (None, lfs2)"
    unfolding runFileTransfer_def st using assms(6,8,9) c(1) w(1) by (simp add: cli_finish_def os_WriteFile_def)
  moreover have "fs_read lfs2 q = (if q = local then Some ?got else fs_read lfs q)" for q
    using w(2) writing_read [OF w(2)] by (simp add: writing_def)
  ultimately show ?thesis using n(1,3,4) unfolding Let_def by blast
qed

lemma cli_upload_ok:
  assumes "cli_upload_body C remote (Some d) = Inr rq" "upload_check (Some rq) = Inr (FileP p)"
  shows "fp_Direction p = ''upload''" "fp_Path p = remote" "fp_Size p = int (length d)" "fp_Sha256 p = fe_sha C d" "remote \<noteq> []"
proof -
  have rq: "rq = \<lparr>fq_Path = remote, fq_Size = int (length d), fq_Sha256 = fe_sha C d\<rparr>"
    using assms(1) by (simp add: cli_upload_body_def split: if_splits)
  have ab: "absPathRe remote" "FileP p = FileP \<lparr>fp_Direction = ''upload'', fp_Path = remote, fp_Size = int (length d), fp_Sha256 = fe_sha C d\<rparr>"
    using assms(2) by (simp_all add: upload_check_def rq split: if_splits)
  then show "fp_Direction p = ''upload''" "fp_Path p = remote" "fp_Size p = int (length d)" "fp_Sha256 p = fe_sha C d"
    by simp_all
  show "remote \<noteq> []" using ab(1) by (auto simp: absPathRe_def)
qed

text \<open>C32. A file survives the way to a node and back. When the command line uploads a file, the server
  accepts the request, and no operating system refuses anything, then the agent stores exactly that content
  under the remote path and touches nothing else, and the upload command succeeds; and a download of that
  path with the parameters the server builds for it, by any machine with the same digest, succeeds and leaves exactly that content in the local file.
  The upload's frames may be mixed with text frames and empty frames.\<close>

theorem transfer_roundtrip:
  assumes "cli_upload_body C remote (Some d) = Inr rq" "upload_check (Some rq) = Inr (FileP pu)"
    and "download_check (Some (cli_download_body remote)) = Inr (FileP pd)"
    and "payload frames = payload (cli_upload_frames d)"
    and "fs_wf fs" "allows E remote" "fs_wf lfs" "allows C local" "fe_sha C = fe_sha E"
  shows "\<exists>out fs' lfs'. file_Handle E (\<lambda>_. True) (Some pu) (map (\<lambda>f. (f, None)) frames) fs = (out, fs')
     \<and> runFileTransfer C False local (delivered out) lfs = (None, lfs)
     \<and> (\<forall>q. fs_read fs' q = (if q = remote then Some d else if q = remote @ ''.xnc-part'' then None else fs_read fs q))
     \<and> runFileTransfer C True local (delivered (fst (file_Handle E (\<lambda>_. True) (Some pd) [] fs'))) lfs = (None, lfs')
     \<and> (\<forall>q. fs_read lfs' q = (if q = local then Some d else fs_read lfs q))"
proof -
  note u = cli_upload_ok [OF assms(1,2)]
  have sz: "int (length d) \<le> typeFileMax" using assms(1) by (simp add: cli_upload_body_def split: if_splits)
  have pay: "payload frames = d"
    using chunks_concat [of "64 * 1024" d] unfolding assms(4) by (simp add: payload_def cli_upload_frames_def comp_def)
  have ok: "int (length d) = fp_Size pu" "fe_sha E d = fp_Sha256 pu" "allows E (fp_Path pu)" using u assms(6,9) by simp_all
  obtain fs' where up: "handleUpload E pu (map (\<lambda>f. (f, None)) frames) fs =
      ([OText (FileBegin (fp_Direction pu) (fp_Path pu) (fp_Size pu) (fp_Sha256 pu)),
        OText (FileResultMsg \<lparr>fr_Bytes = fp_Size pu, fr_Sha256 = fp_Sha256 pu, fr_Ok = True\<rparr>), OClose 1000], fs')"
      "replaced E pu d fs fs'"
    using upload_complete [OF assms(5) ok(3) pay ok(1,2)] by blast
  have fs': "\<forall>q. fs_read fs' q = (if q = remote then Some d else if q = remote @ ''.xnc-part'' then None else fs_read fs q)"
    using up(2) u(2) by (simp add: replaced_def part_path_def)
  have pd: "fp_Path pd = remote" "fp_Direction pd = ''download''"
    using assms(3) by (auto simp: download_check_def cli_download_body_def split: if_splits)
  have dl: "handleDownload E (\<lambda>_. True) pd fs' = fst (file_Handle E (\<lambda>_. True) (Some pd) [] fs')"
    using pd u(5) by (simp add: file_Handle_def)
  have a: "fs_read fs' (fp_Path pd) = Some d" "\<not> fe_open E (fp_Path pd)" "fe_mkdir C local = None" "fe_create C local = None" "fe_write C local = None"
    "\<And>k. \<not> fe_read E (fp_Path pd) k"
    using fs' pd assms(6,8) by (simp_all add: allows_def)
  obtain n lfs' where n: "runFileTransfer C True local (delivered (handleDownload E (\<lambda>_. True) pd fs')) lfs = (None, lfs')"
      "\<forall>q. fs_read lfs' q = (if q = local then Some (concat (take n (chunks fileChunkSize d))) else fs_read lfs q)"
      "n = length (chunks fileChunkSize d)"
    using download_received [OF a(1) sz a(2) refl assms(7) a(3-5) assms(9)] a(6) unfolding Let_def by blast
  have "concat (take n (chunks fileChunkSize d)) = d" using n(3) by (simp add: chunks_concat fileChunkSize_def)
  with n(2) have lfs': "\<forall>q. fs_read lfs' q = (if q = local then Some d else fs_read lfs q)" by presburger
  have h: "file_Handle E (\<lambda>_. True) (Some pu) (map (\<lambda>f. (f, None)) frames) fs = handleUpload E pu (map (\<lambda>f. (f, None)) frames) fs"
    using u by (simp add: file_Handle_def)
  have c: "runFileTransfer C False local (delivered (fst (handleUpload E pu (map (\<lambda>f. (f, None)) frames) fs))) lfs = (None, lfs)"
    by (simp add: up(1) runFileTransfer_def cli_finish_def)
  show ?thesis
    using h [unfolded up(1)] c [unfolded up(1) fst_conv] fs' n(1) [unfolded dl] lfs' by blast
qed

text \<open>A download cut short by a read error is reported as complete: when reading the remote file fails
  after some chunks, the agent ends the stream as at the end of the file, with the digest of what it
  sent, so the command line succeeds with exit code 0 and a local file that is a proper prefix.\<close>

theorem truncated_download_succeeds:
  assumes "fs_read fs (fp_Path p) = Some d" "int (length d) \<le> typeFileMax" "\<not> fe_open E (fp_Path p)"
    and "m < length (chunks fileChunkSize d)" "fe_read E (fp_Path p) (length (concat (take m (chunks fileChunkSize d))))"
    and "fs_wf lfs" "allows C local" "fe_sha C = fe_sha E"
  shows "\<exists>got rest lfs'. d = got @ rest \<and> rest \<noteq> []
     \<and> runFileTransfer C True local (delivered (handleDownload E (\<lambda>_. True) p fs)) lfs = (None, lfs') \<and> ExitCode None = 0
     \<and> fs_read lfs' local = Some got"
proof -
  let ?cs = "chunks fileChunkSize d"
  have c: "fe_mkdir C local = None" "fe_create C local = None" "fe_write C local = None" using assms(7) by (simp_all add: allows_def)
  obtain n lfs' where n: "n \<le> length ?cs" "runFileTransfer C True local (delivered (handleDownload E (\<lambda>_. True) p fs)) lfs = (None, lfs')"
      "\<forall>q. fs_read lfs' q = (if q = local then Some (concat (take n ?cs)) else fs_read lfs q)"
      "\<forall>m<n. \<not> fe_read E (fp_Path p) (length (concat (take m ?cs)))"
    using download_received [OF assms(1-3) refl assms(6) c assms(8)] unfolding Let_def by blast
  have "n \<le> m" using n(4) assms(5) by (meson not_le)
  then have "n < length ?cs" using assms(4) by simp
  have "?cs ! n \<noteq> []" using chunks_nonempty [OF nth_mem [OF \<open>n < length ?cs\<close>]] by blast
  moreover have "drop n ?cs = ?cs ! n # drop (Suc n) ?cs" by (rule Cons_nth_drop_Suc [symmetric]) (rule \<open>n < length ?cs\<close>)
  ultimately have "concat (drop n ?cs) \<noteq> []" by simp
  moreover have "d = concat (take n ?cs) @ concat (drop n ?cs)"
    using chunks_concat [of fileChunkSize d] by (simp add: fileChunkSize_def flip: concat_append)
  ultimately show ?thesis
    using n(2,3) by (intro exI [of _ "concat (take n ?cs)"] exI [of _ "concat (drop n ?cs)"] exI [of _ lfs']) (simp add: ExitCode_def)
qed

text \<open>Two uploads to the same path at the same time corrupt the file: they share the temporary file, and the
  digest is taken of the received frames and not of the file. If the second one opens the
  temporary file after the first and its bytes are written over the first one's, the first upload ends with a
  result that confirms its own digest while the target holds a mixture of both; the second upload fails, its
  temporary file being gone.\<close>

theorem concurrent_uploads_corrupt:
  assumes "fs_wf fs" "allows E (fp_Path p1)" "fp_Path p2 = fp_Path p1"
    and "int (length d1) = fp_Size p1" "fe_sha E d1 = fp_Sha256 p1" "int (length d2) = fp_Size p2" "fe_sha E d2 = fp_Sha256 p2"
    and "upload_open E p1 fs = (Inr u1, fs1)" "upload_open E p2 fs1 = (Inr u2, fs2)"
    and "upload_frame E p1 (WBinary d1) None u1 fs2 = (Inr v1, fs3)" "upload_frame E p2 (WBinary d2) None u2 fs3 = (Inr v2, fs4)"
    and "upload_finish E p1 v1 fs4 = (out1, fs5)" "upload_finish E p2 v2 fs5 = (out2, fs6)"
  shows "out1 = [OText (FileResultMsg \<lparr>fr_Bytes = int (length d1), fr_Sha256 = fe_sha E d1, fr_Ok = True\<rparr>), OClose 1000]
     \<and> fs_read fs6 (fp_Path p1) = Some (d2 @ drop (length d2) d1) \<and> (\<exists>msg. out2 = fileError ''INTERNAL'' msg)"
proof -
  let ?P = "part_path p1" and ?T = "fp_Path p1"
  have P: "part_path p2 = ?P" using assms(3) by (simp add: part_path_def)
  have al: "fe_mkdir E ?T = None" "fe_create E ?P = None" "fe_rename E ?P = None" using assms(2) by (simp_all add: allows_def part_path_def)
  obtain h1 f1 where c1: "os_Create E ?P fs = (Inr h1, f1)" "writing fs ?P h1 [] f1" using create_writing [OF assms(1) al(2)] by blast
  have u1: "u1 = \<lparr>up_handle = h1, up_total = 0, up_hashed = []\<rparr>" "fs1 = f1" using assms(8) al c1(1) by (simp_all add: upload_open_def)
  have n1: "tget (fs_names f1) ?P = Some (hd_file h1)" "tget (fs_data f1) (hd_file h1) = Some []" "hd_off h1 = 0" "fs_wf f1"
    using c1(2) by (simp_all add: writing_def)
  let ?i = "hd_file h1"
  have u2: "u2 = \<lparr>up_handle = \<lparr>hd_file = ?i, hd_off = 0\<rparr>, up_total = 0, up_hashed = []\<rparr>" "fs2 = f1\<lparr>fs_data := tput ?i [] (fs_data f1)\<rparr>"
    using assms(9) al n1 u1(2) P assms(3) by (simp_all add: upload_open_def os_Create_def)
  have v1: "v1 = \<lparr>up_handle = h1\<lparr>hd_off := length d1\<rparr>, up_total = int (length d1), up_hashed = d1\<rparr>"
      "fs3 = fs2\<lparr>fs_data := tput ?i d1 (fs_data fs2)\<rparr>"
    using assms(4,10) u1(1) n1 u2(2) by (simp_all add: upload_frame_def os_Write_def overwrite_def)
  have v2: "up_total v2 = int (length d2)" "up_hashed v2 = d2" "fs4 = fs3\<lparr>fs_data := tput ?i (d2 @ drop (length d2) d1) (fs_data fs3)\<rparr>"
    using assms(6,11) u2(1) v1(2) by (auto simp: upload_frame_def os_Write_def overwrite_def)
  let ?m = "d2 @ drop (length d2) d1"
  have n4: "tget (fs_names fs4) ?P = Some ?i" "tget (fs_data fs4) ?i = Some ?m" using n1(1) u2(2) v1(2) v2(3) by simp_all
  have f1': "out1 = [OText (FileResultMsg \<lparr>fr_Bytes = int (length d1), fr_Sha256 = fe_sha E d1, fr_Ok = True\<rparr>), OClose 1000]"
      "fs5 = fs4\<lparr>fs_names := tput ?T ?i (tdel ?P (fs_names fs4))\<rparr>"
    using assms(4,5,12) v1(1) n4(1) al(3) by (simp_all add: upload_finish_def os_Rename_def)
  have gone: "tget (fs_names fs5) ?P = None" by (simp add: f1'(2))
  have f2: "out2 = fileError (fileAccessErrCode E enoent) (os_text enoent)" "fs6 = fs5"
    using assms(6,7,13) v2(1,2) gone P al(3) by (simp_all add: upload_finish_def os_Rename_def)
  have "fs_read fs6 ?T = Some ?m" using n4(2) by (simp add: f2(2) f1'(2) fs_read_def)
  moreover have "fileAccessErrCode E enoent = ''INTERNAL''" by (simp add: fileAccessErrCode_def enoent_def errnoIsAccessDenied_def)
  ultimately show ?thesis using f1'(1) f2(1) by metis
qed

text \<open>A corrupt download destroys the local file: the command overwrites the local file before it compares
  the digest, and removes it when the comparison fails, so that a copy that was there before is lost.\<close>

theorem corrupt_download_destroys:
  assumes "cs_error (cli_loop True reads []) = None" "cs_result (cli_loop True reads []) = Some r" "fr_Ok r"
    and "fe_sha C (cs_downloaded (cli_loop True reads [])) \<noteq> fr_Sha256 r"
    and "fs_wf lfs" "allows C local" "\<not> fe_remove C local" "fs_read lfs local = Some old"
  shows "\<exists>e lfs'. runFileTransfer C True local reads lfs = (Some e, lfs') \<and> ExitCode (Some e) = 246 \<and> fs_read lfs' local = None"
proof -
  let ?d = "cs_downloaded (cli_loop True reads [])"
  have a: "fe_mkdir C local = None" "fe_create C local = None" "fe_write C local = None" using assms(6) by (simp_all add: allows_def)
  obtain h lfs1 where c: "os_Create C local lfs = (Inr h, lfs1)" "writing lfs local h [] lfs1" using create_writing [OF assms(5) a(2)] by blast
  obtain h2 lfs2 where w: "os_Write h ?d lfs1 = (h2, lfs2)" "writing lfs local h2 ?d lfs2" using write_writing [OF c(2), of ?d] by auto
  have "runFileTransfer C True local reads lfs = (Some (proto_Err 246 ''HASH_MISMATCH'' ''sha256 mismatch''), os_Remove C local lfs2)"
    using assms(1-4) a c(1) w(1) by (simp add: runFileTransfer_def cli_finish_def os_WriteFile_def)
  moreover have "fs_read (os_Remove C local lfs2) local = None" using remove_writing(2) [OF w(2) assms(7)] by simp
  ultimately show ?thesis by (simp add: ExitCode_def)
qed

subsection \<open>Instances\<close>

definition demo_fenv :: file_env where
  "demo_fenv = \<lparr>fe_windows = False, fe_mkdir = (\<lambda>_. None), fe_create = (\<lambda>_. None), fe_rename = (\<lambda>_. None), fe_open = (\<lambda>_. False),
     fe_remove = (\<lambda>_. False), fe_read = (\<lambda>_ _. False), fe_write = (\<lambda>_. None),
     fe_sha = (\<lambda>d. replicate 63 CHR ''0'' @ (if length d = 3 then ''3'' else ''a''))\<rparr>"

definition demo_fs :: fsys where
  "demo_fs = \<lparr>fs_names = [(''/t'', 0)], fs_data = [(0, [7, 7])], fs_next = 1\<rparr>"

definition demo_up :: "nat \<Rightarrow> FileParams" where
  "demo_up n = \<lparr>fp_Direction = ''upload'', fp_Path = ''/t'', fp_Size = int n,
     fp_Sha256 = replicate 63 CHR ''0'' @ (if n = 3 then ''3'' else ''a'')\<rparr>"

lemma demo_fs_ok: "fs_wf demo_fs" "allows demo_fenv p" "\<not> fe_remove demo_fenv p" "fe_sha demo_fenv d = fp_Sha256 (demo_up (length d))"
  "fs_read demo_fs ''/t'' = Some [7, 7]"
  by (simp_all add: fs_wf_def demo_fs_def allows_def demo_fenv_def fs_read_def demo_up_def)

theorem upload_atomic_witness:
  "fs_read (snd (handleUpload demo_fenv (demo_up 3) [(WBinary [1, 2], None)] demo_fs)) ''/t'' = Some [7, 7]"
proof -
  have "\<not> upload_ok (fst (handleUpload demo_fenv (demo_up 3) [(WBinary [1, 2], None)] demo_fs))"
    by (simp add: handleUpload_def upload_open_def os_Create_def demo_fenv_def demo_fs_def demo_up_def part_path_def
        upload_loop_Cons upload_frame_def os_Write_def overwrite_def upload_finish_def upload_ok_def fileError_def)
  then show ?thesis
    using upload_atomic [OF demo_fs_ok(1,3) prod.collapse [symmetric], of "demo_up 3" "[(WBinary [1, 2], None)]"] demo_fs_ok(5)
    by (simp add: demo_up_def)
qed

theorem transfer_roundtrip_witness:
  "\<exists>fs' lfs' out. file_Handle demo_fenv (\<lambda>_. True) (Some (demo_up 3)) [(WText [], None), (WBinary [1, 2], None), (WBinary [3], None)] demo_fs = (out, fs')
     \<and> fs_read fs' ''/t'' = Some [1, 2, 3]
     \<and> runFileTransfer demo_fenv True ''l'' (delivered (fst (file_Handle demo_fenv (\<lambda>_. True)
          (Some \<lparr>fp_Direction = ''download'', fp_Path = ''/t'', fp_Size = 0, fp_Sha256 = []\<rparr>) [] fs'))) demo_fs = (None, lfs')
     \<and> fs_read lfs' ''l'' = Some [1, 2, 3]"
proof -
  let ?d = "[1, 2, 3] :: bytes" and ?f = "[WText [], WBinary [1, 2], WBinary [3]]"
  let ?rq = "\<lparr>fq_Path = ''/t'', fq_Size = 3, fq_Sha256 = fp_Sha256 (demo_up 3)\<rparr>"
  have b: "cli_upload_body demo_fenv ''/t'' (Some ?d) = Inr ?rq"
    by (simp add: cli_upload_body_def typeFileMax_def demo_fenv_def demo_up_def)
  have s: "sha256Re (fp_Sha256 (demo_up 3))" by (simp add: sha256Re_def demo_up_def list_all_iff)
  have c: "upload_check (Some ?rq) = Inr (FileP (demo_up 3))"
    using s by (simp add: upload_check_def absPathRe_def fileMaxBytes_def demo_up_def)
  have g: "download_check (Some (cli_download_body ''/t'')) = Inr (FileP \<lparr>fp_Direction = ''download'', fp_Path = ''/t'', fp_Size = 0, fp_Sha256 = []\<rparr>)"
    by (simp add: download_check_def cli_download_body_def absPathRe_def)
  have p: "payload ?f = payload (cli_upload_frames ?d)"
    by (simp add: cli_upload_frames_def chunks.simps)
  show ?thesis
    using transfer_roundtrip [OF b c g p demo_fs_ok(1,2,1,2) refl, of "''l''"] by (auto; blast)
qed

theorem truncated_download_succeeds_witness:
  "\<exists>got lfs'. runFileTransfer demo_fenv True ''l'' (delivered (handleDownload (demo_fenv\<lparr>fe_read := \<lambda>_ k. k = 0\<rparr>) (\<lambda>_. True)
       \<lparr>fp_Direction = ''download'', fp_Path = ''/t'', fp_Size = 0, fp_Sha256 = []\<rparr> demo_fs)) demo_fs = (None, lfs')
     \<and> fs_read lfs' ''l'' = Some got \<and> got \<noteq> [7, 7]"
proof -
  let ?E = "demo_fenv\<lparr>fe_read := \<lambda>_ k. k = 0\<rparr>" and ?p = "\<lparr>fp_Direction = ''download'', fp_Path = ''/t'', fp_Size = 0, fp_Sha256 = []\<rparr>"
  have a: "fs_read demo_fs (fp_Path ?p) = Some [7, 7]" "int (length [7 :: byte, 7]) \<le> typeFileMax" "\<not> fe_open ?E (fp_Path ?p)"
    "0 < length (chunks fileChunkSize [7, 7])" "fe_read ?E (fp_Path ?p) (length (concat (take 0 (chunks fileChunkSize [7, 7]))))"
    "fe_sha demo_fenv = fe_sha ?E"
    using demo_fs_ok(5) by (simp_all add: typeFileMax_def demo_fenv_def chunks.simps fileChunkSize_def)
  show ?thesis
    using truncated_download_succeeds [OF a(1-5) demo_fs_ok(1,2) a(6), of "''l''"] by force
qed

lemma open_allowed: "allows E (fp_Path p) \<Longrightarrow> \<exists>u fs1. upload_open E p fs = (Inr u, fs1) \<and> up_total u = 0"
  by (cases "tget (fs_names fs) (part_path p)") (simp_all add: upload_open_def os_Create_def allows_def part_path_def)

lemma frame_allowed: "up_total u + int (length d) \<le> fp_Size p \<Longrightarrow> \<exists>v fs1. upload_frame E p (WBinary d) None u fs = (Inr v, fs1)"
  by (cases "os_Write (up_handle u) d fs") (simp add: upload_frame_def)

theorem concurrent_uploads_corrupt_witness:
  "\<exists>u1 u2 v1 v2 fs1 fs2 fs3 fs4 fs5 fs6 out1 out2.
     upload_open demo_fenv (demo_up 3) demo_fs = (Inr u1, fs1) \<and> upload_open demo_fenv (demo_up 1) fs1 = (Inr u2, fs2)
     \<and> upload_frame demo_fenv (demo_up 3) (WBinary [1, 2, 3]) None u1 fs2 = (Inr v1, fs3)
     \<and> upload_frame demo_fenv (demo_up 1) (WBinary [9]) None u2 fs3 = (Inr v2, fs4)
     \<and> upload_finish demo_fenv (demo_up 3) v1 fs4 = (out1, fs5) \<and> upload_finish demo_fenv (demo_up 1) v2 fs5 = (out2, fs6)
     \<and> fs_read fs6 ''/t'' = Some [9, 2, 3]"
proof -
  have p: "fp_Path (demo_up n) = ''/t''" "fp_Size (demo_up n) = int n" for n by (simp_all add: demo_up_def)
  obtain u1 fs1 where o1: "upload_open demo_fenv (demo_up 3) demo_fs = (Inr u1, fs1)" "up_total u1 = 0"
    using open_allowed [OF demo_fs_ok(2)] by blast
  obtain u2 fs2 where o2: "upload_open demo_fenv (demo_up 1) fs1 = (Inr u2, fs2)" "up_total u2 = 0"
    using open_allowed [OF demo_fs_ok(2)] by blast
  obtain v1 fs3 where w1: "upload_frame demo_fenv (demo_up 3) (WBinary [1, 2, 3]) None u1 fs2 = (Inr v1, fs3)"
    using frame_allowed [of u1 "[1, 2, 3]" "demo_up 3" demo_fenv fs2] o1(2) p(2) [of 3] by auto
  obtain v2 fs4 where w2: "upload_frame demo_fenv (demo_up 1) (WBinary [9]) None u2 fs3 = (Inr v2, fs4)"
    using frame_allowed [of u2 "[9]" "demo_up 1" demo_fenv fs3] o2(2) p(2) [of 1] by auto
  obtain out1 fs5 where f1: "upload_finish demo_fenv (demo_up 3) v1 fs4 = (out1, fs5)" by fastforce
  obtain out2 fs6 where f2: "upload_finish demo_fenv (demo_up 1) v2 fs5 = (out2, fs6)" by fastforce
  have al: "allows demo_fenv (fp_Path (demo_up 3))" "fp_Path (demo_up 1) = fp_Path (demo_up 3)"
    "int (length [1 :: byte, 2, 3]) = fp_Size (demo_up 3)" "fe_sha demo_fenv [1, 2, 3] = fp_Sha256 (demo_up 3)"
    "int (length [9 :: byte]) = fp_Size (demo_up 1)" "fe_sha demo_fenv [9] = fp_Sha256 (demo_up 1)"
    using demo_fs_ok(4) [of "[1, 2, 3]"] demo_fs_ok(4) [of "[9]"] by (simp_all add: p demo_fs_ok(2) numeral_3_eq_3)
  have "fs_read fs6 ''/t'' = Some [9, 2, 3]"
    using concurrent_uploads_corrupt [OF demo_fs_ok(1) al o1(1) o2(1) w1 w2 f1 f2] by (simp add: p)
  then show ?thesis using o1 o2 w1 w2 f1 f2 by blast
qed

theorem corrupt_download_destroys_witness:
  "\<exists>e lfs'. runFileTransfer demo_fenv True ''/t'' [CBinary [1], CText (Some (FileResultMsg \<lparr>fr_Bytes = 1, fr_Sha256 = ''bad'', fr_Ok = True\<rparr>))] demo_fs
       = (Some e, lfs') \<and> ExitCode (Some e) = 246 \<and> fs_read lfs' ''/t'' = None"
  by (rule corrupt_download_destroys [OF _ _ _ _ demo_fs_ok(1,2,3,5), where r = "\<lparr>fr_Bytes = 1, fr_Sha256 = ''bad'', fr_Ok = True\<rparr>"])
    (simp_all add: demo_fenv_def)

end
