(* ===== verification/Agent_Exec.thy ===== *)
theory Agent_Exec
  imports File_Transfer
begin

text \<open>
  Commands and scripts on a node, from the command line to the process and back: \<open>exec\<close> of the command line
  (\<open>src/cli/cmd_exec.go\<close>), the agent's handler (\<open>src/agent/session/exec.go\<close>), the Linux process host
  (\<open>src/agent/session/shellhost_linux.go\<close>), and the interactive shell and tunnel handlers (\<open>shell.go\<close>, \<open>tunnel.go\<close>).
  A process host is a function from the request to a rejection or to what the process will send; which branch of
  a \<open>select\<close> comes first is an argument. Scripts are kept as strings; on disk they are their bytes.
\<close>

subsection \<open>Messages\<close>

record ExecResult =
  xr_ExitCode :: "int option"
  xr_TimedOut :: bool
  xr_DurationMs :: int
  xr_Code :: string
  xr_Truncated :: bool

record shell_spec =
  ss_System :: bool
  ss_Profile :: string
  ss_Interactive :: bool
  ss_Cols :: int
  ss_Rows :: int
  ss_Cwd :: string
  ss_Env :: "string list"
  ss_Command :: string
  ss_TimeoutSec :: int

text \<open>A piece of output with its standard-error mark; the process's exit code and the bytes its host dropped.\<close>

type_synonym shell_stream = "bool \<times> bytes"

record shell_proc =
  pr_stream :: "shell_stream list"
  pr_exit :: "32 word"
  pr_dropped :: nat

text \<open>A rejection carries its stable code if it has one.\<close>

type_synonym shell_host = "shell_spec \<Rightarrow> string option + shell_proc"

datatype exec_out = XBinary bytes | XResult ExecResult | XClose int

subsection \<open>The agent's exec handler\<close>

record exec_env =
  xe_windows :: bool
  xe_TmpDir :: string
  xe_StateDir :: string
  xe_osTempDir :: string
  xe_shells :: "string list"
  xe_files :: file_env

definition stdoutPrefix :: byte where "stdoutPrefix = 1"
definition stderrPrefix :: byte where "stderrPrefix = 2"
definition execDefaultTimeout :: int where "execDefaultTimeout = 300"
definition execMaxScriptBytes :: nat where "execMaxScriptBytes = 1024 * 1024"
definition CodeCoreUnavailable :: string where "CodeCoreUnavailable = ''CORE_UNAVAILABLE''"

definition alnum_dash :: "char \<Rightarrow> bool" where
  "alnum_dash c \<longleftrightarrow> (let n = of_char c :: nat in n = 45 \<or> (48 \<le> n \<and> n \<le> 57) \<or> (65 \<le> n \<and> n \<le> 90) \<or> (97 \<le> n \<and> n \<le> 122))"

definition sessionIDRe :: "string \<Rightarrow> bool" where
  "sessionIDRe s \<longleftrightarrow> s \<noteq> [] \<and> list_all alnum_dash s"

definition scriptExtFor :: "bool \<Rightarrow> string \<Rightarrow> string" where
  "scriptExtFor windows shell =
     (if shell \<in> {''bash'', ''sh'', ''zsh''} then ''.sh''
      else if shell \<in> {''pwsh'', ''powershell''} then ''.ps1''
      else if \<not> windows then ''.sh'' else ''.ps1'')"

text \<open>\<open>filepath.Join\<close> of a clean directory and a plain name; \<open>filepath.ToSlash\<close>.\<close>

definition separator :: "bool \<Rightarrow> char" where
  "separator windows = (if windows then CHR 0x5C else CHR ''/'')"

definition path_join :: "bool \<Rightarrow> string \<Rightarrow> string \<Rightarrow> string" where
  "path_join windows dir name = dir @ separator windows # name"

definition ToSlash :: "bool \<Rightarrow> string \<Rightarrow> string" where
  "ToSlash windows p = (if windows then map (\<lambda>c. if c = CHR 0x5C then CHR ''/'' else c) p else p)"

definition script_dir :: "exec_env \<Rightarrow> string" where
  "script_dir X =
     (if xe_TmpDir X \<noteq> [] then xe_TmpDir X
      else if xe_StateDir X \<noteq> [] then path_join (xe_windows X) (xe_StateDir X) ''tmp''
      else xe_osTempDir X)"

definition scriptPath :: "exec_env \<Rightarrow> string \<Rightarrow> string \<Rightarrow> string" where
  "scriptPath X sid ext = path_join (xe_windows X) (script_dir X) (''xnc-'' @ sid @ ext)"

definition str_bytes :: "string \<Rightarrow> bytes" where
  "str_bytes s = map of_char s"

definition writeScript :: "exec_env \<Rightarrow> string \<Rightarrow> string \<Rightarrow> string \<Rightarrow> fsys \<Rightarrow> bool \<times> fsys" where
  "writeScript X sid ext script fs =
     (let path = scriptPath X sid ext in
      case fe_mkdir (xe_files X) path of
        Some e \<Rightarrow> (False, fs)
      | None \<Rightarrow> (case os_WriteFile (xe_files X) path (str_bytes script) fs of (e, fs1) \<Rightarrow> (e = None, fs1)))"

text \<open>The profile and the command, or an error.\<close>

definition buildExecCommand :: "exec_env \<Rightarrow> ExecParams \<Rightarrow> string \<Rightarrow> (string \<times> string) option" where
  "buildExecCommand X p path =
     (let shell = (if xp_Shell p = [] \<or> xp_Shell p = ''auto'' then xe_shells X ! 0 else xp_Shell p);
          built = (if shell = ''bash'' then Some (''BASH'', CHR 0x27 # ToSlash (xe_windows X) path @ [CHR 0x27])
            else if shell = ''sh'' then Some (''SH'', CHR 0x27 # ToSlash (xe_windows X) path @ [CHR 0x27])
            else if shell = ''zsh'' then Some (''ZSH'', CHR 0x27 # ToSlash (xe_windows X) path @ [CHR 0x27])
            else if shell = ''cmd'' then Some (''CMD'', path)
            else if shell = ''pwsh'' then Some (''PWSH'', ''& '' @ CHR 0x27 # path @ [CHR 0x27])
            else if shell = ''powershell'' then Some (''POWERSHELL'', ''& '' @ CHR 0x27 # path @ [CHR 0x27])
            else None) in
      case built of
        None \<Rightarrow> None
      | Some (profile, call) \<Rightarrow>
          if xp_Script p = [] \<and> xp_Command p = [] then None
          else Some (if xp_Script p \<noteq> [] then call else xp_Command p, profile))"

definition exec_refused :: "string \<Rightarrow> exec_out list" where
  "exec_refused code = [XResult \<lparr>xr_ExitCode = None, xr_TimedOut = False, xr_DurationMs = 0, xr_Code = code, xr_Truncated = False\<rparr>, XClose 1000]"

definition exec_frame :: "shell_stream \<Rightarrow> exec_out" where
  "exec_frame d = XBinary ((if fst d then stderrPrefix else stdoutPrefix) # snd d)"

text \<open>How the wait for the process ends: its exit first (with whether the timer had fired by then), the
  cancellation of the session, or the timer. \<open>sent\<close> pieces of output get out before the terminal message: all of
  them unless the connection fails or is too slow.\<close>

datatype exec_wait = ExitFirst bool | Cancelled | TimerFirst

definition exec_exit :: "exec_wait \<Rightarrow> 32 word \<Rightarrow> int option \<times> bool" where
  "exec_exit wt code =
     (case wt of
        ExitFirst fired \<Rightarrow> if fired then (None, True) else (if code < 0x80000000 then Some (uint code) else None, False)
      | Cancelled \<Rightarrow> (None, False)
      | TimerFirst \<Rightarrow> (None, True))"

definition exec_finish :: "exec_wait \<Rightarrow> nat \<Rightarrow> int \<Rightarrow> shell_proc \<Rightarrow> exec_out list" where
  "exec_finish wt sent ms pr =
     (case exec_exit wt (pr_exit pr) of (code, timed) \<Rightarrow>
        map exec_frame (take sent (pr_stream pr))
        @ (if wt = Cancelled then []
           else [XResult \<lparr>xr_ExitCode = code, xr_TimedOut = timed, xr_DurationMs = ms, xr_Code = [], xr_Truncated = (pr_dropped pr > 0)\<rparr>])
        @ [XClose 1000])"

definition exec_spec :: "ExecParams \<Rightarrow> string \<Rightarrow> string \<Rightarrow> shell_spec" where
  "exec_spec p command profile = \<lparr>ss_System = xp_System p, ss_Profile = profile, ss_Interactive = False, ss_Cols = 0, ss_Rows = 0,
     ss_Cwd = xp_Cwd p, ss_Env = xp_Env p, ss_Command = command,
     ss_TimeoutSec = (if xp_TimeoutSec p \<le> 0 then execDefaultTimeout else xp_TimeoutSec p)\<rparr>"

text \<open>The result is what goes to the session, the request that reached the host, and the files.\<close>

definition exec_Handle ::
  "exec_env \<Rightarrow> shell_host option \<Rightarrow> exec_wait \<Rightarrow> nat \<Rightarrow> int \<Rightarrow> string \<Rightarrow> ExecParams option \<Rightarrow> fsys
     \<Rightarrow> exec_out list \<times> shell_spec option \<times> fsys" where
  "exec_Handle X host wt sent ms sid params fs =
     (case params of
        None \<Rightarrow> (exec_refused [], None, fs)
      | Some p \<Rightarrow>
          if \<not> sessionIDRe sid then (exec_refused [], None, fs)
          else if length (xp_Script p) > execMaxScriptBytes then (exec_refused [], None, fs)
          else
            let ext = scriptExtFor (xe_windows X) (xp_Shell p);
                path = scriptPath X sid ext;
                wr = (if xp_Script p \<noteq> [] then writeScript X sid ext (xp_Script p) fs else (True, fs));
                cleanup = (\<lambda>fs. if xp_Script p \<noteq> [] then os_Remove (xe_files X) path fs else fs)
            in if \<not> fst wr then (exec_refused [], None, snd wr)
               else case buildExecCommand X p path of
                 None \<Rightarrow> (exec_refused ''BAD_PAYLOAD'', None, cleanup (snd wr))
               | Some (command, profile) \<Rightarrow>
                   (case host of
                      None \<Rightarrow> (exec_refused CodeCoreUnavailable, None, cleanup (snd wr))
                    | Some H \<Rightarrow>
                        (case H (exec_spec p command profile) of
                           Inl code \<Rightarrow> (exec_refused (case code of None \<Rightarrow> CodeCoreUnavailable | Some c \<Rightarrow> c), Some (exec_spec p command profile), cleanup (snd wr))
                         | Inr pr \<Rightarrow> (exec_finish wt sent ms pr, Some (exec_spec p command profile), cleanup (snd wr)))))"

subsection \<open>The command line\<close>

record exec_cmd =
  xc_args :: "string list"
  xc_timeout :: int
  xc_cwd :: string
  xc_shell :: string
  xc_env :: "string list"
  xc_file :: string
  xc_system :: bool

definition cli_execTimeoutMax :: int where "cli_execTimeoutMax = 86400"
definition cli_execScriptMax :: nat where "cli_execScriptMax = 256 * 1024"

definition checkExecTimeout :: "int \<Rightarrow> bool" where
  "checkExecTimeout t \<longleftrightarrow> \<not> (t < 1 \<or> t > cli_execTimeoutMax)"

definition strings_Join :: "string list \<Rightarrow> string \<Rightarrow> string" where
  "strings_Join ss sep = (case ss of [] \<Rightarrow> [] | s # rest \<Rightarrow> s @ concat (map (\<lambda>x. sep @ x) rest))"

text \<open>Where the input comes from: the script and the command, or a usage error. \<open>file\<close> and \<open>stdin\<close> are what
  reading them gives.\<close>

definition exec_input :: "exec_cmd \<Rightarrow> string option \<Rightarrow> string option \<Rightarrow> string + string \<times> string" where
  "exec_input c file stdin =
     (if xc_file c \<noteq> [] then (case file of None \<Rightarrow> Inl ''read'' | Some b \<Rightarrow> Inr (b, []))
      else if length (xc_args c) > 1 \<and> xc_args c ! 1 = ''-'' then (case stdin of None \<Rightarrow> Inl ''read stdin'' | Some b \<Rightarrow> Inr (b, []))
      else Inr ([], strings_Join (drop 1 (xc_args c)) '' ''))"

definition runExecUnified :: "exec_cmd \<Rightarrow> string option \<Rightarrow> string option \<Rightarrow> string + execReq" where
  "runExecUnified c file stdin =
     (if \<not> checkExecTimeout (xc_timeout c) then Inl ''timeout must be 1-86400 seconds''
      else if xc_shell c \<notin> {''auto'', ''bash'', ''sh'', ''zsh'', ''pwsh'', ''powershell'', ''cmd''}
      then Inl ''shell must be auto, bash, sh, zsh, pwsh, powershell, or cmd''
      else case exec_input c file stdin of
        Inl e \<Rightarrow> Inl e
      | Inr (script, command) \<Rightarrow>
          if script = [] \<and> command = [] then Inl ''provide a command, --file <path>, or - (stdin)''
          else if length script > cli_execScriptMax then Inl ''script exceeds 256KB; use upload + exec --file''
          else Inr \<lparr>er_Command = command, er_Script = script, er_TimeoutSec = Some (xc_timeout c), er_Cwd = xc_cwd c,
                 er_Shell = xc_shell c, er_Env = xc_env c, er_System = xc_system c\<rparr>)"

text \<open>What the command reads from the session: \<open>RText None\<close> is a text frame that is no result.\<close>

datatype exec_read = RBinary bytes | RText "ExecResult option"

record exec_outcome =
  eo_stdout :: bytes
  eo_stderr :: bytes
  eo_result :: "ExecResult option"

fun exec_loop :: "exec_read list \<Rightarrow> exec_outcome \<Rightarrow> exec_outcome" where
  "exec_loop [] s = s"
| "exec_loop (RBinary [] # rest) s = exec_loop rest s"
| "exec_loop (RBinary (b # d) # rest) s =
     exec_loop rest (if b = stdoutPrefix then s\<lparr>eo_stdout := eo_stdout s @ d\<rparr> else s\<lparr>eo_stderr := eo_stderr s @ d\<rparr>)"
| "exec_loop (RText None # rest) s = exec_loop rest s"
| "exec_loop (RText (Some r) # rest) s = exec_loop rest (s\<lparr>eo_result := Some r\<rparr>)"

definition exec_exitcode :: "exec_outcome \<Rightarrow> int" where
  "exec_exitcode s =
     (case eo_result s of
        None \<Rightarrow> 245
      | Some r \<Rightarrow> (case xr_ExitCode r of None \<Rightarrow> if xr_Code r \<noteq> [] then 247 else 243 | Some c \<Rightarrow> c))"

definition runSession :: "exec_read list \<Rightarrow> exec_outcome \<times> int" where
  "runSession rs = (let s = exec_loop rs \<lparr>eo_stdout = [], eo_stderr = [], eo_result = None\<rparr> in (s, exec_exitcode s))"

text \<open>The exit status that a POSIX caller sees of \<open>os.Exit\<close>.\<close>

definition posix_status :: "int \<Rightarrow> int" where
  "posix_status c = c mod 256"

text \<open>What the relayed session delivers of what the agent writes.\<close>

fun exec_arrives :: "exec_out \<Rightarrow> exec_read list" where
  "exec_arrives (XBinary d) = [RBinary d]"
| "exec_arrives (XResult r) = [RText (Some r)]"
| "exec_arrives (XClose _) = []"

definition exec_delivered :: "exec_out list \<Rightarrow> exec_read list" where
  "exec_delivered out = concat (map exec_arrives out)"

subsection \<open>The Linux host\<close>

definition oneshotBudgetPerStream :: nat where "oneshotBudgetPerStream = 4 * 1024 * 1024"

definition profileExe :: "string \<Rightarrow> string option" where
  "profileExe p =
     (if p = ''BASH'' then Some ''bash'' else if p = ''SH'' then Some ''sh'' else if p = ''ZSH'' then Some ''zsh''
      else if p = ''PWSH'' then Some ''pwsh'' else if p = ''POWERSHELL'' then Some ''powershell'' else None)"

text \<open>One output stream, read piece by piece: what is passed on within the budget, and the bytes dropped.\<close>

fun pump_reads :: "bool \<Rightarrow> nat \<Rightarrow> bytes list \<Rightarrow> shell_stream list \<times> nat" where
  "pump_reads err remaining [] = ([], 0)"
| "pump_reads err remaining (d # ds) =
     (let take_n = min (length d) remaining; (out, dropped) = pump_reads err (remaining - take_n) ds
      in (if take_n > 0 then (err, take take_n d) # out else out, dropped + (length d - take_n)))"

definition drop_marker :: "string \<Rightarrow> nat \<Rightarrow> bytes" where
  "drop_marker name n = str_bytes (CHR 0x0A # ''[xnc] '' @ name @ '' output over budget, '' @ nat_decimal n @ '' bytes dropped'' @ [CHR 0x0A])"

definition pumpStream :: "string \<Rightarrow> bool \<Rightarrow> bytes list \<Rightarrow> shell_stream list \<times> nat" where
  "pumpStream name err reads =
     (case pump_reads err oneshotBudgetPerStream reads of (out, dropped) \<Rightarrow>
        (out @ (if dropped > 0 then [(True, drop_marker name dropped)] else []), dropped))"

datatype wait_status = Exited int | Signaled int | WaitFailed

definition exitCodeOf :: "wait_status \<Rightarrow> 32 word" where
  "exitCodeOf st =
     (case st of Exited c \<Rightarrow> if c \<ge> 0 then word_of_int c else 1 | Signaled n \<Rightarrow> word_of_int (128 + n) | WaitFailed \<Rightarrow> 1)"

text \<open>What the host sends for a process that writes \<open>outs\<close> and \<open>errs\<close>: the two pumps in some interleaving.\<close>

definition oneshot_proc :: "bytes list \<Rightarrow> bytes list \<Rightarrow> wait_status \<Rightarrow> shell_stream list \<Rightarrow> shell_proc" where
  "oneshot_proc outs errs st mix = \<lparr>pr_stream = mix, pr_exit = exitCodeOf st,
     pr_dropped = snd (pumpStream ''stdout'' False outs) + snd (pumpStream ''stderr'' True errs)\<rparr>"

definition pumped :: "bytes list \<Rightarrow> bytes list \<Rightarrow> shell_stream list \<Rightarrow> bool" where
  "pumped outs errs mix \<longleftrightarrow> mix \<in> shuffles (fst (pumpStream ''stdout'' False outs)) (fst (pumpStream ''stderr'' True errs))"

text \<open>\<open>run\<close> is the process that a request starts, \<open>None\<close> when it does not start.\<close>

definition direct_CreateShell :: "(string \<Rightarrow> bool) \<Rightarrow> (string \<Rightarrow> shell_spec \<Rightarrow> shell_proc option) \<Rightarrow> shell_host" where
  "direct_CreateShell found run spec =
     (case profileExe (ss_Profile spec) of
        None \<Rightarrow> Inl (Some ''BAD_PAYLOAD'')
      | Some exe \<Rightarrow>
          if \<not> found exe then Inl (Some ''SPAWN_FAILED'')
          else if \<not> ss_Interactive spec \<and> ss_Command spec = [] then Inl (Some ''BAD_PAYLOAD'')
          else (case run exe spec of None \<Rightarrow> Inl (Some ''SPAWN_FAILED'') | Some pr \<Rightarrow> Inr pr))"

subsection \<open>Output from the process to the terminal\<close>

definition outs_of :: "shell_stream list \<Rightarrow> bytes" where
  "outs_of ds = concat (map snd (filter (\<lambda>d. \<not> fst d) ds))"

definition errs_of :: "shell_stream list \<Rightarrow> bytes" where
  "errs_of ds = concat (map snd (filter fst ds))"

lemma streams_simps [simp]:
  "outs_of [] = []" "errs_of [] = []"
  "outs_of (d # ds) = (if fst d then outs_of ds else snd d @ outs_of ds)"
  "errs_of (d # ds) = (if fst d then snd d @ errs_of ds else errs_of ds)"
  by (simp_all add: outs_of_def errs_of_def)

lemma exec_delivered_simps [simp]: "exec_delivered [] = []" "exec_delivered (x # xs) = exec_arrives x @ exec_delivered xs"
  by (simp_all add: exec_delivered_def)

lemma prefixes_differ [simp]: "stderrPrefix \<noteq> stdoutPrefix" "stdoutPrefix \<noteq> stderrPrefix"
  by (simp_all add: stdoutPrefix_def stderrPrefix_def)

lemma exec_loop_frames:
  "exec_loop (exec_delivered (map exec_frame ds @ out)) s
    = exec_loop (exec_delivered out) (s\<lparr>eo_stdout := eo_stdout s @ outs_of ds, eo_stderr := eo_stderr s @ errs_of ds\<rparr>)"
proof (induction ds arbitrary: s)
  case (Cons d ds)
  then show ?case by (cases d) (auto simp: exec_frame_def)
qed simp

lemma pump_reads_spec:
  assumes "pump_reads err r ds = (out, n)"
  shows "concat (map snd out) = take r (concat ds) \<and> n = length (concat ds) - r \<and> (\<forall>x \<in> set out. fst x = err \<and> snd x \<noteq> [])"
  using assms
proof (induction ds arbitrary: r out n)
  case (Cons d ds)
  let ?t = "min (length d) r"
  obtain out1 n1 where p: "pump_reads err (r - ?t) ds = (out1, n1)" by fastforce
  note i = Cons.IH [OF p]
  have "out = (if ?t > 0 then (err, take ?t d) # out1 else out1)" "n = n1 + (length d - ?t)"
    using Cons.prems p by (simp_all add: Let_def)
  then show ?case using i by (cases "length d \<le> r") (auto simp: min_def)
qed simp

lemma pumpStream_spec:
  "outs_of (fst (pumpStream name err ds)) = (if err then [] else take oneshotBudgetPerStream (concat ds))"
  "snd (pumpStream name err ds) = length (concat ds) - oneshotBudgetPerStream"
  "errs_of (fst (pumpStream name err ds)) = (if err then take oneshotBudgetPerStream (concat ds) else [])
     @ (if length (concat ds) > oneshotBudgetPerStream then drop_marker name (length (concat ds) - oneshotBudgetPerStream) else [])"
proof -
  obtain out n where p: "pump_reads err oneshotBudgetPerStream ds = (out, n)" by fastforce
  note s = pump_reads_spec [OF p]
  have o: "outs_of out = (if err then [] else concat (map snd out))" "errs_of out = (if err then concat (map snd out) else [])"
    using conjunct2 [OF conjunct2 [OF s]] by (induction out) auto
  have a: "outs_of (xs @ ys) = outs_of xs @ outs_of ys" "errs_of (xs @ ys) = errs_of xs @ errs_of ys" for xs ys
    by (simp_all add: outs_of_def errs_of_def)
  show "outs_of (fst (pumpStream name err ds)) = (if err then [] else take oneshotBudgetPerStream (concat ds))"
    "snd (pumpStream name err ds) = length (concat ds) - oneshotBudgetPerStream"
    "errs_of (fst (pumpStream name err ds)) = (if err then take oneshotBudgetPerStream (concat ds) else [])
     @ (if length (concat ds) > oneshotBudgetPerStream then drop_marker name (length (concat ds) - oneshotBudgetPerStream) else [])"
    using s by (simp_all add: pumpStream_def p a o)
qed

lemma pumped_streams:
  assumes "pumped outs errs mix"
  shows "outs_of mix = take oneshotBudgetPerStream (concat outs)"
    "length (concat outs) \<le> oneshotBudgetPerStream \<Longrightarrow> errs_of mix = errs_of (fst (pumpStream ''stderr'' True errs))"
proof -
  let ?o = "fst (pumpStream ''stdout'' False outs)" and ?e = "fst (pumpStream ''stderr'' True errs)"
  have m: "mix \<in> shuffles ?o ?e" using assms by (simp add: pumped_def)
  then have f: "filter P mix \<in> shuffles (filter P ?o) (filter P ?e)" for P using filter_shuffles [of P ?o ?e] by blast
  have "filter (\<lambda>d. \<not> fst d) ?e = []"
  proof -
    obtain out n where p: "pump_reads True oneshotBudgetPerStream errs = (out, n)" by fastforce
    show ?thesis using pump_reads_spec [OF p] by (auto simp: pumpStream_def p filter_empty_conv)
  qed
  then have "filter (\<lambda>d. \<not> fst d) mix = filter (\<lambda>d. \<not> fst d) ?o" using f [of "\<lambda>d. \<not> fst d"] by simp
  then show "outs_of mix = take oneshotBudgetPerStream (concat outs)"
    using pumpStream_spec(1) [of "''stdout''" False outs] by (simp add: outs_of_def)
  show "errs_of mix = errs_of ?e" if "length (concat outs) \<le> oneshotBudgetPerStream"
  proof -
    obtain out n where p: "pump_reads False oneshotBudgetPerStream outs = (out, n)" by fastforce
    have "filter fst ?o = []" using pump_reads_spec [OF p] that by (auto simp: pumpStream_def p filter_empty_conv)
    then have "filter fst mix = filter fst ?e" using f [of fst] by simp
    then show ?thesis by (simp add: errs_of_def)
  qed
qed

text \<open>The handler once the process has run to its end.\<close>

lemma finish_received:
  assumes "sent \<ge> length (pr_stream pr)" "wt \<noteq> Cancelled"
  shows "runSession (exec_delivered (exec_finish wt sent ms pr))
    = (\<lparr>eo_stdout = outs_of (pr_stream pr), eo_stderr = errs_of (pr_stream pr),
        eo_result = Some \<lparr>xr_ExitCode = fst (exec_exit wt (pr_exit pr)), xr_TimedOut = snd (exec_exit wt (pr_exit pr)), xr_DurationMs = ms,
           xr_Code = [], xr_Truncated = (pr_dropped pr > 0)\<rparr>\<rparr>,
       case fst (exec_exit wt (pr_exit pr)) of None \<Rightarrow> 243 | Some c \<Rightarrow> c)"
proof -
  obtain code timed where e: "exec_exit wt (pr_exit pr) = (code, timed)" by fastforce
  show ?thesis using assms
    by (simp add: exec_finish_def e runSession_def exec_loop_frames Let_def exec_exitcode_def split: option.split)
qed

text \<open>What a request of the command line becomes on its way to the agent.\<close>

lemma command_request:
  assumes "runExecUnified c file stdin = Inr req" "exec_check q a h (Some req) d = Inr (ExecP p)" "er_Script req = []"
  shows "p = \<lparr>xp_Command = strings_Join (drop 1 (xc_args c)) '' '', xp_Script = [], xp_TimeoutSec = xc_timeout c, xp_Cwd = xc_cwd c,
      xp_Shell = xc_shell c, xp_Env = xc_env c, xp_System = xc_system c\<rparr>"
    "xc_timeout c \<ge> 1" "xp_Command p \<noteq> []"
proof -
  obtain script command where i: "exec_input c file stdin = Inr (script, command)" "\<not> (script = [] \<and> command = [])"
      "checkExecTimeout (xc_timeout c)"
      "req = \<lparr>er_Command = command, er_Script = script, er_TimeoutSec = Some (xc_timeout c), er_Cwd = xc_cwd c,
                 er_Shell = xc_shell c, er_Env = xc_env c, er_System = xc_system c\<rparr>"
    using assms(1) by (auto simp: runExecUnified_def split: if_splits sum.splits)
  then have s: "script = []" "command \<noteq> []" using assms(3) by auto
  then have "command = strings_Join (drop 1 (xc_args c)) '' ''" using i(1) by (auto simp: exec_input_def split: if_splits option.splits)
  then show "p = \<lparr>xp_Command = strings_Join (drop 1 (xc_args c)) '' '', xp_Script = [], xp_TimeoutSec = xc_timeout c, xp_Cwd = xc_cwd c,
      xp_Shell = xc_shell c, xp_Env = xc_env c, xp_System = xc_system c\<rparr>"
    using assms(2) s by (auto simp: i(4) exec_check_def Let_def split: if_splits option.splits)
  then show "xp_Command p \<noteq> []" using \<open>command = _\<close> s(2) by simp
  show "xc_timeout c \<ge> 1" using i(3) by (simp add: checkExecTimeout_def)
qed

lemma build_command:
  "buildExecCommand X p path = Some (command, profile) \<Longrightarrow> xp_Script p = [] \<Longrightarrow> command = xp_Command p"
  by (auto simp: buildExecCommand_def Let_def split: option.splits if_splits)

text \<open>C12. A command on a Linux node behaves like a local one. For a request that the server accepts, on a node that has the
  shell and runs the process to its end in time: the host is asked for exactly the user's command, directory,
  environment and time limit; standard output is what the process wrote, up to the first 4 MB, whatever way
  the two streams interleave; standard error likewise when standard output stays within its budget; the
  truncation mark says exactly whether something is missing; and the command line exits with the process's exit code.\<close>

theorem exec_like_local:
  assumes "runExecUnified c file stdin = Inr req" "exec_check q a h (Some req) d = Inr (ExecP p)" "er_Script req = []"
    and "sessionIDRe sid" "buildExecCommand X p (scriptPath X sid (scriptExtFor (xe_windows X) (xp_Shell p))) = Some (command, profile)"
    and "profileExe profile = Some exe" "found exe"
    and "run exe (exec_spec p command profile) = Some (oneshot_proc outs errs (Exited code) mix)" "pumped outs errs mix"
    and "0 \<le> code" "code < 256" "sent \<ge> length mix"
  shows "let (out, spec, fs') = exec_Handle X (Some (direct_CreateShell found run)) (ExitFirst False) sent ms sid (Some p) fs;
             (s, status) = runSession (exec_delivered out) in
     spec = Some \<lparr>ss_System = xc_system c, ss_Profile = profile, ss_Interactive = False, ss_Cols = 0, ss_Rows = 0, ss_Cwd = xc_cwd c,
       ss_Env = xc_env c, ss_Command = strings_Join (drop 1 (xc_args c)) '' '', ss_TimeoutSec = xc_timeout c\<rparr>
     \<and> fs' = fs \<and> eo_stdout s = take oneshotBudgetPerStream (concat outs)
     \<and> (length (concat outs) \<le> oneshotBudgetPerStream \<longrightarrow> eo_stderr s = take oneshotBudgetPerStream (concat errs)
          @ (if length (concat errs) > oneshotBudgetPerStream then drop_marker ''stderr'' (length (concat errs) - oneshotBudgetPerStream) else []))
     \<and> (\<exists>r. eo_result s = Some r \<and> (xr_Truncated r \<longleftrightarrow> length (concat outs) > oneshotBudgetPerStream \<or> length (concat errs) > oneshotBudgetPerStream))
     \<and> status = code"
proof -
  note r = command_request [OF assms(1-3)]
  let ?pr = "oneshot_proc outs errs (Exited code) mix"
  have c: "command = strings_Join (drop 1 (xc_args c)) '' ''" "command \<noteq> []"
    using build_command [OF assms(5)] r(1,3) by auto
  have spec: "exec_spec p command profile = \<lparr>ss_System = xc_system c, ss_Profile = profile, ss_Interactive = False, ss_Cols = 0, ss_Rows = 0,
       ss_Cwd = xc_cwd c, ss_Env = xc_env c, ss_Command = strings_Join (drop 1 (xc_args c)) '' '', ss_TimeoutSec = xc_timeout c\<rparr>"
    using r(1,2) c by (simp add: exec_spec_def)
  have H: "direct_CreateShell found run (exec_spec p command profile) = Inr ?pr"
    using assms(6-8) c(2) by (simp add: direct_CreateShell_def exec_spec_def)
  have s: "xp_Script p = []" using r(1) by simp
  have out: "exec_Handle X (Some (direct_CreateShell found run)) (ExitFirst False) sent ms sid (Some p) fs
      = (exec_finish (ExitFirst False) sent ms ?pr, Some (exec_spec p command profile), fs)"
    using assms(4,5) H s by (simp add: exec_Handle_def Let_def)
  have k: "(word_of_int code :: 32 word) < 0x80000000" "uint (word_of_int code :: 32 word) = code"
    using assms(10,11) by (simp_all add: word_less_def uint_word_of_int)
  have x: "exec_exit (ExitFirst False) (pr_exit ?pr) = (Some code, False)"
    using assms(10) k by (simp add: exec_exit_def oneshot_proc_def exitCodeOf_def)
  have sent: "sent \<ge> length (pr_stream ?pr)" using assms(12) by (simp add: oneshot_proc_def)
  note f = finish_received [OF sent, of "ExitFirst False" ms, unfolded x]
  have d: "pr_dropped ?pr > 0 \<longleftrightarrow> length (concat outs) > oneshotBudgetPerStream \<or> length (concat errs) > oneshotBudgetPerStream"
    by (auto simp: oneshot_proc_def pumpStream_spec(2))
  have m: "pr_stream ?pr = mix" by (simp add: oneshot_proc_def)
  show ?thesis
    using f pumped_streams [OF assms(9)] pumpStream_spec(3) [of "''stderr''" True errs]
    unfolding out spec m by (simp add: d)
qed

definition demo_exec_env :: exec_env where
  "demo_exec_env = \<lparr>xe_windows = False, xe_TmpDir = [], xe_StateDir = ''/var/xnc'', xe_osTempDir = ''/tmp'', xe_shells = [''bash'', ''sh''],
     xe_files = demo_fenv\<rparr>"

definition demo_exec_cmd :: exec_cmd where
  "demo_exec_cmd = \<lparr>xc_args = [''n1'', ''echo'', ''hi''], xc_timeout = 60, xc_cwd = ''/srv'', xc_shell = ''auto'', xc_env = [''A=1''], xc_file = [],
     xc_system = False\<rparr>"

lemma append_shuffles: "xs @ ys \<in> shuffles xs ys"
  by (induction xs) (simp_all add: Cons_in_shuffles_leftI)

lemma pumped_in_order: "pumped outs errs (fst (pumpStream ''stdout'' False outs) @ fst (pumpStream ''stderr'' True errs))"
  unfolding pumped_def by (rule append_shuffles)

theorem exec_like_local_witness:
  "let run = (\<lambda>exe spec. Some (oneshot_proc [[104, 105]] [[101]] (Exited 3) [(False, [104, 105]), (True, [101])]));
       (out, spec, fs') = exec_Handle demo_exec_env (Some (direct_CreateShell (\<lambda>_. True) run)) (ExitFirst False) 2 10 ''s-1''
         (Some \<lparr>xp_Command = ''echo hi'', xp_Script = [], xp_TimeoutSec = 60, xp_Cwd = ''/srv'', xp_Shell = ''auto'', xp_Env = [''A=1''], xp_System = False\<rparr>) demo_fs;
       (s, status) = runSession (exec_delivered out)
   in map_option ss_Command spec = Some ''echo hi'' \<and> eo_stdout s = [104, 105] \<and> status = 3"
proof -
  let ?p = "\<lparr>xp_Command = ''echo hi'', xp_Script = [], xp_TimeoutSec = 60, xp_Cwd = ''/srv'', xp_Shell = ''auto'', xp_Env = [''A=1''], xp_System = False\<rparr>"
  let ?req = "\<lparr>er_Command = ''echo hi'', er_Script = [], er_TimeoutSec = Some 60, er_Cwd = ''/srv'', er_Shell = ''auto'', er_Env = [''A=1''], er_System = False\<rparr>"
  let ?mix = "[(False, [104, 105]), (True, [101])] :: shell_stream list"
  let ?run = "\<lambda>(exe :: string) (spec :: shell_spec). Some (oneshot_proc [[104, 105]] [[101]] (Exited 3) ?mix)"
  have 1: "runExecUnified demo_exec_cmd None None = Inr ?req"
    by (simp add: runExecUnified_def demo_exec_cmd_def exec_input_def checkExecTimeout_def cli_execTimeoutMax_def strings_Join_def)
  have 2: "exec_check demo_rq (demo_member ''#2'') (demo_http ''curl'' ''#22'') (Some ?req) demo_db = Inr (ExecP ?p)"
    by (simp add: exec_check_def execScriptMaxBytes_def execTimeoutMax_def Let_def)
  have 3: "sessionIDRe ''s-1''" by (simp add: sessionIDRe_def alnum_dash_def Let_def)
  have 4: "buildExecCommand demo_exec_env ?p path = Some (''echo hi'', ''BASH'')" for path
    by (simp add: buildExecCommand_def demo_exec_env_def Let_def)
  have 5: "profileExe ''BASH'' = Some ''bash''" by (simp add: profileExe_def)
  have 6: "pumped [[104, 105]] [[101]] ?mix"
    using pumped_in_order [of "[[104, 105]]" "[[101]]"] by (simp add: pumpStream_def oneshotBudgetPerStream_def min_def)
  show ?thesis
    using exec_like_local [OF 1 2 _ 3 4 5 _ _ 6, of "\<lambda>_. True" ?run 3 2 10 demo_fs]
    by (auto simp: Let_def demo_exec_cmd_def strings_Join_def oneshotBudgetPerStream_def split: prod.splits)
qed


subsection \<open>Scripts\<close>

lemma writefile_confined:
  assumes "fs_wf fs" "os_WriteFile E p d fs = (e, fs1)"
  shows "fs_wf fs1" "q \<noteq> p \<Longrightarrow> fs_read fs1 q = fs_read fs q" "e = None \<Longrightarrow> fs_read fs1 p = Some d"
proof -
  have "fs_wf fs1 \<and> (\<forall>q. q \<noteq> p \<longrightarrow> fs_read fs1 q = fs_read fs q) \<and> (e = None \<longrightarrow> fs_read fs1 p = Some d)"
  proof (cases "fe_create E p")
    case (Some x)
    then show ?thesis using assms by (auto simp: os_WriteFile_def os_Create_def)
  next
    case None
    obtain h fs2 where c: "os_Create E p fs = (Inr h, fs2)" "writing fs p h [] fs2" using create_writing [OF assms(1) None] by blast
    show ?thesis
    proof (cases "fe_write E p")
      case None
      obtain h1 fs3 where w: "os_Write h d fs2 = (h1, fs3)" "writing fs p h1 ([] @ d) fs3" using write_writing [OF c(2)] by blast
      then have "fs1 = fs3" "e = None" using assms(2) c(1) None by (simp_all add: os_WriteFile_def)
      then show ?thesis using w(2) writing_read [OF w(2)] by (simp add: writing_def)
    next
      case (Some x)
      obtain n err where x: "x = (n, err)" by fastforce
      obtain h1 fs3 where w: "os_Write h (take n d) fs2 = (h1, fs3)" "writing fs p h1 ([] @ take n d) fs3"
        using write_writing [OF c(2)] by blast
      then have "fs1 = fs3" "e = Some err" using assms(2) c(1) Some x by (simp_all add: os_WriteFile_def)
      then show ?thesis using w(2) by (simp add: writing_def)
    qed
  qed
  then show "fs_wf fs1" "q \<noteq> p \<Longrightarrow> fs_read fs1 q = fs_read fs q" "e = None \<Longrightarrow> fs_read fs1 p = Some d" by blast+
qed

lemma remove_confined:
  "q \<noteq> p \<Longrightarrow> fs_read (os_Remove E p fs) q = fs_read fs q" "\<not> fe_remove E p \<Longrightarrow> fs_read (os_Remove E p fs) p = None"
  by (simp_all add: os_Remove_def fs_read_def cong: option.case_cong)

lemma script_name_plain:
  assumes "sessionIDRe sid"
  shows "CHR ''/'' \<notin> set (''xnc-'' @ sid @ scriptExtFor w sh)" "CHR 0x5C \<notin> set (''xnc-'' @ sid @ scriptExtFor w sh)"
proof -
  have "CHR ''/'' \<notin> set sid" "CHR 0x5C \<notin> set sid"
    using assms by (auto simp: sessionIDRe_def list_all_iff alnum_dash_def Let_def)
  then show "CHR ''/'' \<notin> set (''xnc-'' @ sid @ scriptExtFor w sh)" "CHR 0x5C \<notin> set (''xnc-'' @ sid @ scriptExtFor w sh)"
    by (simp_all add: scriptExtFor_def)
qed

lemma exec_Handle_files:
  assumes "sessionIDRe sid" "exec_Handle X host wt sent ms sid (Some p) fs = (out, spec, fs')"
    and "path = scriptPath X sid (scriptExtFor (xe_windows X) (xp_Shell p))"
  shows "xp_Script p = [] \<Longrightarrow> fs' = fs"
    "xp_Script p \<noteq> [] \<Longrightarrow> (spec = None \<and> fs' = fs)
      \<or> (\<exists>ok fs1. writeScript X sid (scriptExtFor (xe_windows X) (xp_Shell p)) (xp_Script p) fs = (ok, fs1)
          \<and> fs' = (if ok then os_Remove (xe_files X) path fs1 else fs1) \<and> (spec \<noteq> None \<longrightarrow> ok))"
proof -
  obtain ok fs1 where w: "writeScript X sid (scriptExtFor (xe_windows X) (xp_Shell p)) (xp_Script p) fs = (ok, fs1)" by fastforce
  show "xp_Script p = [] \<Longrightarrow> fs' = fs"
    using assms(1,2) unfolding exec_Handle_def Let_def by (auto split: option.splits sum.splits if_splits)
  show "xp_Script p \<noteq> [] \<Longrightarrow> (spec = None \<and> fs' = fs)
      \<or> (\<exists>ok fs1. writeScript X sid (scriptExtFor (xe_windows X) (xp_Shell p)) (xp_Script p) fs = (ok, fs1)
          \<and> fs' = (if ok then os_Remove (xe_files X) path fs1 else fs1) \<and> (spec \<noteq> None \<longrightarrow> ok))"
    using assms w unfolding exec_Handle_def Let_def by (auto split: option.splits sum.splits if_splits)
qed

text \<open>C13. A script touches one file. Whatever the session's identifier and whatever the host does, the handler changes at
  most the file \<open>xnc-<session>\<close> with the shell's extension, directly inside the script directory: the name
  has no separator in it. An identifier of any other form changes nothing and starts nothing. When a process has been asked
  for, the file held exactly the script before, and when the session ends it is gone.\<close>

theorem script_confined:
  assumes "fs_wf fs" "path = scriptPath X sid (scriptExtFor (xe_windows X) (xp_Shell p))" "\<not> fe_remove (xe_files X) path"
    and "exec_Handle X host wt sent ms sid (Some p) fs = (out, spec, fs')"
  shows "(\<not> sessionIDRe sid \<longrightarrow> fs' = fs \<and> spec = None)
     \<and> (\<forall>q. q \<noteq> path \<longrightarrow> fs_read fs' q = fs_read fs q)
     \<and> (sessionIDRe sid \<longrightarrow> (\<exists>name. path = path_join (xe_windows X) (script_dir X) name \<and> CHR ''/'' \<notin> set name \<and> CHR 0x5C \<notin> set name))
     \<and> (spec \<noteq> None \<and> xp_Script p \<noteq> [] \<longrightarrow> fs_read fs' path = None
          \<and> (\<exists>fs1. writeScript X sid (scriptExtFor (xe_windows X) (xp_Shell p)) (xp_Script p) fs = (True, fs1)
               \<and> fs_read fs1 path = Some (str_bytes (xp_Script p))))"
proof (cases "sessionIDRe sid")
  case False
  then have "out = exec_refused [] \<and> spec = None \<and> fs' = fs" using assms(4) by (simp add: exec_Handle_def)
  then show ?thesis using False by simp
next
  case True
  have n: "\<exists>name. path = path_join (xe_windows X) (script_dir X) name \<and> CHR ''/'' \<notin> set name \<and> CHR 0x5C \<notin> set name"
    using script_name_plain [OF True] assms(2) by (metis scriptPath_def)
  note f = exec_Handle_files [OF True assms(4,2)]
  have ws: "(\<forall>q. q \<noteq> path \<longrightarrow> fs_read fs1 q = fs_read fs q) \<and> (ok \<longrightarrow> fs_read fs1 path = Some (str_bytes (xp_Script p)))"
    if "writeScript X sid (scriptExtFor (xe_windows X) (xp_Shell p)) (xp_Script p) fs = (ok, fs1)" for ok fs1
    using that writefile_confined [OF assms(1), of "xe_files X" path "str_bytes (xp_Script p)"] assms(2)
    by (auto simp: writeScript_def Let_def split: option.splits prod.splits)
  show ?thesis
  proof (cases "xp_Script p = []")
    case True
    then show ?thesis using f(1) n \<open>sessionIDRe sid\<close> by simp
  next
    case False
    from f(2) [OF False] show ?thesis
    proof (elim disjE exE conjE)
      assume "spec = None" "fs' = fs"
      then show ?thesis using n \<open>sessionIDRe sid\<close> by simp
    next
      fix ok fs1
      assume w: "writeScript X sid (scriptExtFor (xe_windows X) (xp_Shell p)) (xp_Script p) fs = (ok, fs1)"
        and fs': "fs' = (if ok then os_Remove (xe_files X) path fs1 else fs1)" and ok: "spec \<noteq> None \<longrightarrow> ok"
      have r: "\<forall>q. q \<noteq> path \<longrightarrow> fs_read fs' q = fs_read fs q" using ws [OF w] remove_confined(1) [where p = path] by (simp add: fs')
      have g: "fs_read fs' path = None" if ok using remove_confined(2) [OF assms(3)] that by (simp add: fs')
      have s: "fs_read fs' path = None \<and> (\<exists>fs1. writeScript X sid (scriptExtFor (xe_windows X) (xp_Shell p)) (xp_Script p) fs = (True, fs1)
           \<and> fs_read fs1 path = Some (str_bytes (xp_Script p)))" if "spec \<noteq> None"
      proof -
        have "ok = True" using ok that by simp
        then show ?thesis using g w ws [OF w] by simp
      qed
      show ?thesis using \<open>sessionIDRe sid\<close> by (intro conjI impI r n) (use s in simp_all)
    qed
  qed
qed

lemma host_asked:
  assumes "sessionIDRe sid" "length (xp_Script p) \<le> execMaxScriptBytes" "xp_Script p \<noteq> []"
    and "fst (writeScript X sid (scriptExtFor (xe_windows X) (xp_Shell p)) (xp_Script p) fs)"
    and "buildExecCommand X p (scriptPath X sid (scriptExtFor (xe_windows X) (xp_Shell p))) = Some (command, profile)"
  shows "fst (snd (exec_Handle X (Some H) wt sent ms sid (Some p) fs)) = Some (exec_spec p command profile)"
  using assms by (simp add: exec_Handle_def Let_def split: sum.split)

theorem script_confined_witness:
  "let p = \<lparr>xp_Command = [], xp_Script = ''ls'', xp_TimeoutSec = 60, xp_Cwd = [], xp_Shell = ''bash'', xp_Env = [], xp_System = False\<rparr>;
       (out, spec, fs') = exec_Handle demo_exec_env (Some (\<lambda>_. Inl None)) (ExitFirst False) 0 10 ''s-1'' (Some p) demo_fs
   in spec \<noteq> None \<and> fs_read fs' ''/var/xnc/tmp/xnc-s-1.sh'' = None"
proof -
  let ?p = "\<lparr>xp_Command = [], xp_Script = ''ls'', xp_TimeoutSec = 60, xp_Cwd = [], xp_Shell = ''bash'', xp_Env = [], xp_System = False\<rparr>"
  obtain out spec fs' where e: "exec_Handle demo_exec_env (Some (\<lambda>_. Inl None)) (ExitFirst False) 0 10 ''s-1'' (Some ?p) demo_fs = (out, spec, fs')"
    by (metis prod_cases3)
  have path: "scriptPath demo_exec_env ''s-1'' (scriptExtFor (xe_windows demo_exec_env) (xp_Shell ?p)) = ''/var/xnc/tmp/xnc-s-1.sh''"
    by (simp add: scriptPath_def script_dir_def path_join_def separator_def scriptExtFor_def demo_exec_env_def)
  have id: "sessionIDRe ''s-1''" by (simp add: sessionIDRe_def alnum_dash_def Let_def)
  have files: "xe_files demo_exec_env = demo_fenv" by (simp add: demo_exec_env_def)
  have b: "buildExecCommand demo_exec_env ?p x = Some (CHR 0x27 # x @ [CHR 0x27], ''BASH'')" for x
    by (simp add: buildExecCommand_def demo_exec_env_def ToSlash_def Let_def)
  have w: "fst (writeScript demo_exec_env ''s-1'' e ''ls'' demo_fs)" for e
    by (simp add: writeScript_def files Let_def os_WriteFile_def os_Create_def demo_fenv_def split: option.split prod.split)
  have "fst (snd (exec_Handle demo_exec_env (Some (\<lambda>_. Inl None)) (ExitFirst False) 0 10 ''s-1'' (Some ?p) demo_fs)) \<noteq> None"
    using host_asked [where H = "\<lambda>_. Inl None" and wt = "ExitFirst False" and sent = 0 and ms = 10, OF id _ _ _ b] w
    by (simp add: execMaxScriptBytes_def)
  then have s: "spec \<noteq> None" using e by simp
  then show ?thesis
    using script_confined [OF demo_fs_ok(1) path [symmetric] _ e] demo_fs_ok(3) e by (auto simp: files)
qed

subsection \<open>What an exit code can hide\<close>



text \<open>Scripts for \<open>cmd\<close> on Windows are written with the extension of PowerShell.\<close>

lemma cmd_script_is_ps1:
  assumes "xe_windows X" "xp_Shell p = ''cmd''" "xp_Script p \<noteq> []"
  shows "buildExecCommand X p (scriptPath X sid (scriptExtFor (xe_windows X) (xp_Shell p)))
    = Some (path_join True (script_dir X) (''xnc-'' @ sid @ ''.ps1''), ''CMD'')"
  using assms by (simp add: buildExecCommand_def scriptPath_def scriptExtFor_def Let_def)

subsection \<open>The interactive shell\<close>

definition shellDefault :: "int \<times> int" where "shellDefault = (120, 30)"
definition shellMaxDim :: int where "shellMaxDim = 1000"

definition shell_dims :: "ShellParams \<Rightarrow> int \<times> int" where
  "shell_dims p =
     ((if sp_Cols p < 1 \<or> sp_Cols p > shellMaxDim then fst shellDefault else sp_Cols p),
      (if sp_Rows p < 1 \<or> sp_Rows p > shellMaxDim then snd shellDefault else sp_Rows p))"

definition shellProfile :: "bool \<Rightarrow> (string \<Rightarrow> bool) \<Rightarrow> string \<Rightarrow> string" where
  "shellProfile windows found sh =
     (if sh = ''pwsh'' then ''PWSH'' else if sh = ''powershell'' then ''POWERSHELL'' else if sh = ''cmd'' then ''CMD''
      else if sh = ''bash'' then ''BASH'' else if sh = ''sh'' then ''SH'' else if sh = ''zsh'' then ''ZSH''
      else if windows then (if found ''pwsh'' then ''PWSH'' else ''POWERSHELL'')
      else if found ''bash'' then ''BASH'' else ''SH'')"

datatype shell_out = SError string string | SBegin string | SBinary bytes | SClose int

definition failStart :: "string \<Rightarrow> shell_out list" where
  "failStart code = [SError ''SHELL_START_FAILED'' code, SClose 1011]"

text \<open>Parameters that do not decode are zero values. \<open>profile\<close> is the shell the process reports, \<open>sent\<close> the pieces of
  output that get out before the session ends.\<close>

definition shell_Handle ::
  "bool \<Rightarrow> (string \<Rightarrow> bool) \<Rightarrow> shell_host option \<Rightarrow> string \<Rightarrow> nat \<Rightarrow> ShellParams option \<Rightarrow> shell_out list \<times> shell_spec option" where
  "shell_Handle windows found host profile sent params =
     (let p = (case params of None \<Rightarrow> \<lparr>sp_Cols = 0, sp_Rows = 0, sp_Shell = [], sp_System = False\<rparr> | Some p \<Rightarrow> p);
          spec = \<lparr>ss_System = sp_System p, ss_Profile = shellProfile windows found (sp_Shell p), ss_Interactive = True,
            ss_Cols = fst (shell_dims p), ss_Rows = snd (shell_dims p), ss_Cwd = [], ss_Env = [], ss_Command = [], ss_TimeoutSec = 0\<rparr>
      in case host of
           None \<Rightarrow> (failStart CodeCoreUnavailable, None)
         | Some H \<Rightarrow> (case H spec of
               Inl code \<Rightarrow> (failStart (case code of None \<Rightarrow> CodeCoreUnavailable | Some c \<Rightarrow> c), Some spec)
             | Inr pr \<Rightarrow> (SBegin profile # map (\<lambda>d. SBinary (snd d)) (take sent (pr_stream pr)) @ [SClose 1000], Some spec)))"

text \<open>What the client sends: keys with whether the terminal takes them, or a text that may be a resize request.\<close>

datatype shell_in = KeysIn bytes bool | TextIn "(int \<times> int) option"

datatype pty_call = PtyWrite bytes | PtyResize int int

fun shell_input :: "shell_in list \<Rightarrow> pty_call list" where
  "shell_input [] = []"
| "shell_input (KeysIn d ok # rest) = PtyWrite d # (if ok then shell_input rest else [])"
| "shell_input (TextIn None # rest) = shell_input rest"
| "shell_input (TextIn (Some (cols, rows)) # rest) =
     (if cols > 0 \<and> cols \<le> shellMaxDim \<and> rows > 0 \<and> rows \<le> shellMaxDim then PtyResize cols rows # shell_input rest else shell_input rest)"

definition clampDim :: "int \<Rightarrow> int" where
  "clampDim v = (if v < 1 then 1 else if v > shellMaxDim then shellMaxDim else v)"

text \<open>The terminal size that the kernel gets, 16 bits wide.\<close>

definition pty_size :: "int \<times> int \<Rightarrow> 16 word \<times> 16 word" where
  "pty_size d = (word_of_int (clampDim (fst d)), word_of_int (clampDim (snd d)))"

text \<open>Terminal sizes survive. The size of a shell session that the server accepts reaches the terminal as it was
  asked for, and so does every later size within the limits; no size that reaches the terminal is zero or cut to 16 bits.\<close>

theorem terminal_size_exact:
  assumes "shell_check q a h (Some r) d = Inr (ShellP p)" "hq_Cols r \<noteq> 0" "hq_Rows r \<noteq> 0"
  shows "shell_dims p = (hq_Cols r, hq_Rows r)
     \<and> uint (fst (pty_size (shell_dims p))) = hq_Cols r \<and> uint (snd (pty_size (shell_dims p))) = hq_Rows r
     \<and> (\<forall>cols rows. PtyResize cols rows \<in> set (shell_input ins) \<longrightarrow>
          TextIn (Some (cols, rows)) \<in> set ins \<and> uint (fst (pty_size (cols, rows))) = cols \<and> uint (snd (pty_size (cols, rows))) = rows \<and> cols > 0 \<and> rows > 0)"
proof -
  have p: "sp_Cols p = hq_Cols r" "sp_Rows p = hq_Rows r" "1 \<le> hq_Cols r" "hq_Cols r \<le> 1000" "1 \<le> hq_Rows r" "hq_Rows r \<le> 1000"
    using assms by (auto simp: shell_check_def Let_def shellDimMax_def split: option.splits if_splits)
  have u: "uint (word_of_int (clampDim v) :: 16 word) = v" if "1 \<le> v" "v \<le> 1000" for v
    using that by (simp add: clampDim_def shellMaxDim_def uint_word_of_int)
  have i: "TextIn (Some (cols, rows)) \<in> set ins \<and> 1 \<le> cols \<and> cols \<le> 1000 \<and> 1 \<le> rows \<and> rows \<le> 1000"
    if "PtyResize cols rows \<in> set (shell_input ins)" for cols rows
    using that by (induction ins rule: shell_input.induct) (auto simp: shellMaxDim_def split: if_splits)
  have d: "shell_dims p = (hq_Cols r, hq_Rows r)" using p by (simp add: shell_dims_def shellMaxDim_def)
  have z: "uint (fst (pty_size (c, w))) = c" "uint (snd (pty_size (w, c))) = c" if "1 \<le> c" "c \<le> 1000" for c w
    using u [OF that] by (simp_all add: pty_size_def)
  have s: "TextIn (Some (cols, rows)) \<in> set ins \<and> uint (fst (pty_size (cols, rows))) = cols \<and> uint (snd (pty_size (cols, rows))) = rows
      \<and> cols > 0 \<and> rows > 0" if "PtyResize cols rows \<in> set (shell_input ins)" for cols rows
    using i [OF that] z by simp
  show ?thesis unfolding d using z p(3-6) by (intro conjI allI impI s) simp_all
qed

theorem terminal_size_exact_witness:
  "uint (fst (pty_size (shell_dims \<lparr>sp_Cols = 200, sp_Rows = 50, sp_Shell = [], sp_System = False\<rparr>))) = 200"
    (is "uint (fst (pty_size (shell_dims ?p))) = 200")
proof -
  have "shell_check demo_rq (demo_member ''#2'') (demo_http ''curl'' ''#22'') (Some \<lparr>hq_Cols = 200, hq_Rows = 50, hq_Shell = [], hq_System = False\<rparr>) demo_db
      = Inr (ShellP \<lparr>sp_Cols = 200, sp_Rows = 50, sp_Shell = [], sp_System = False\<rparr>)"
    by (simp add: shell_check_def shellDimMax_def Let_def)
  then have "uint (fst (pty_size (shell_dims ?p))) = hq_Cols \<lparr>hq_Cols = 200, hq_Rows = 50, hq_Shell = [], hq_System = False\<rparr>"
    by (rule terminal_size_exact [of _ _ _ _ _ _ "[]", THEN conjunct2, THEN conjunct1]) simp_all
  then show ?thesis by simp
qed

subsection \<open>The tunnel\<close>

text \<open>The address to dial, none when the parameters are refused; and the bytes that reach it: text frames are
  skipped, the first failing write ends the direction.\<close>

definition tunnel_dial :: "(string \<times> string \<times> int) option \<Rightarrow> string option" where
  "tunnel_dial params =
     (case params of None \<Rightarrow> None
      | Some (target, host, port) \<Rightarrow> if host = [] \<or> port \<le> 0 then None else Some (JoinHostPort host (Itoa port)))"

fun tunnel_up :: "(ws_frame \<times> bool) list \<Rightarrow> bytes list" where
  "tunnel_up [] = []"
| "tunnel_up ((WText t, ok) # rest) = tunnel_up rest"
| "tunnel_up ((WBinary d, ok) # rest) = (if ok then d # tunnel_up rest else [])"

datatype tunnel_out = TError string string | TBinary bytes | TClose int

definition tunnelError :: "tunnel_out list" where
  "tunnelError = [TError ''RDP_NOT_AVAILABLE'' ''tunnel target unreachable'', TClose 1014]"

text \<open>\<open>reads\<close> are the reads of the target's connection up to its end, \<open>gone\<close> the write that fails, if one does.\<close>

definition tunnel_Handle :: "(string \<Rightarrow> bool) \<Rightarrow> bytes list \<Rightarrow> nat option \<Rightarrow> (string \<times> string \<times> int) option \<Rightarrow> tunnel_out list" where
  "tunnel_Handle reachable reads gone params =
     (case tunnel_dial params of
        None \<Rightarrow> tunnelError
      | Some addr \<Rightarrow>
          if \<not> reachable addr then tunnelError
          else (case gone of
              None \<Rightarrow> map TBinary (filter (\<lambda>d. d \<noteq> []) reads) @ [TClose 1000]
            | Some n \<Rightarrow> map TBinary (take n (filter (\<lambda>d. d \<noteq> []) reads))))"

text \<open>A tunnel leads to a listed port of the node only. Whatever the client asks for, what the server passes to the
  agent makes it dial its own address at port 3389 or 22.\<close>

theorem tunnel_stays_local:
  assumes "tunnel_check body = Inr (TunnelP t h p)"
  shows "tunnel_dial (Some (t, h, p)) \<in> {Some ''127.0.0.1:3389'', Some ''127.0.0.1:22''}"
proof -
  have hp: "(h, p) = (''127.0.0.1'', 3389) \<or> (h, p) = (''127.0.0.1'', 22)"
    using assms by (auto simp: tunnel_check_def tunnelTargets_def split: option.splits if_splits)
  have "digit_char 2 = CHR ''2''" "digit_char 3 = CHR ''3''" "digit_char 8 = CHR ''8''" "digit_char 9 = CHR ''9''" by code_simp+
  then have "Itoa 3389 = ''3389''" "Itoa 22 = ''22''"
    by (simp_all add: Itoa_def nat_decimal.simps [of 3389] nat_decimal.simps [of 338] nat_decimal.simps [of 33] nat_decimal.simps [of 3]
        nat_decimal.simps [of 22] nat_decimal.simps [of 2])
  then show ?thesis using hp by (auto simp: tunnel_dial_def JoinHostPort_def)
qed

theorem tunnel_stays_local_witness: "tunnel_dial (Some (''ssh'', ''127.0.0.1'', 22)) \<in> {Some ''127.0.0.1:3389'', Some ''127.0.0.1:22''}"
  using tunnel_stays_local [of "Some ''ssh''" "''ssh''" "''127.0.0.1''" 22] by (simp add: tunnel_check_def tunnelTargets_def)

subsection \<open>Closing a process under its pump\<close>

text \<open>The pump of an interactive terminal and \<open>Close\<close> run in two goroutines over channels. A \<open>select\<close> that finds
  no ready case blocks and is woken by the first that becomes ready; one that finds several takes any of them, and
  a send on a closed channel panics, which ends the whole agent. \<open>Close\<close> closes \<open>done\<close>, the terminal and the stream
  in this order.\<close>

datatype pump_pc = PumpRead | PumpSelect bytes | PumpBlocked bytes | PumpDone | PumpPanic

datatype close_pc = Open | ClosedDone | ClosedPty | ClosedAll

record direct_proc =
  dp_pump :: pump_pc
  dp_close :: close_pc
  dp_buffer :: "bytes list"

definition streams_cap :: nat where "streams_cap = 64"

inductive proc_step :: "direct_proc \<Rightarrow> direct_proc \<Rightarrow> bool" where
  read: "dp_pump s = PumpRead \<Longrightarrow> dp_close s = Open \<or> dp_close s = ClosedDone \<Longrightarrow> d \<noteq> [] \<Longrightarrow> proc_step s (s\<lparr>dp_pump := PumpSelect d\<rparr>)"
| read_end: "dp_pump s = PumpRead \<Longrightarrow> proc_step s (s\<lparr>dp_pump := PumpDone\<rparr>)"
| send: "dp_pump s = PumpSelect d \<Longrightarrow> dp_close s \<noteq> ClosedAll \<Longrightarrow> length (dp_buffer s) < streams_cap
     \<Longrightarrow> proc_step s (s\<lparr>dp_pump := PumpRead, dp_buffer := dp_buffer s @ [d]\<rparr>)"
| send_closed: "dp_pump s = PumpSelect d \<Longrightarrow> dp_close s = ClosedAll \<Longrightarrow> proc_step s (s\<lparr>dp_pump := PumpPanic\<rparr>)"
| stop: "dp_pump s = PumpSelect d \<Longrightarrow> dp_close s \<noteq> Open \<Longrightarrow> proc_step s (s\<lparr>dp_pump := PumpDone\<rparr>)"
| block: "dp_pump s = PumpSelect d \<Longrightarrow> dp_close s = Open \<Longrightarrow> length (dp_buffer s) \<ge> streams_cap
     \<Longrightarrow> proc_step s (s\<lparr>dp_pump := PumpBlocked d\<rparr>)"
| drain: "dp_buffer s = b # bs \<Longrightarrow> dp_pump s \<noteq> PumpBlocked d \<Longrightarrow> proc_step s (s\<lparr>dp_buffer := bs\<rparr>)"
| drain_wakes: "dp_buffer s = b # bs \<Longrightarrow> dp_pump s = PumpBlocked d \<Longrightarrow> proc_step s (s\<lparr>dp_buffer := bs @ [d], dp_pump := PumpRead\<rparr>)"
| close_done: "dp_close s = Open
     \<Longrightarrow> proc_step s (s\<lparr>dp_close := ClosedDone, dp_pump := (case dp_pump s of PumpBlocked d \<Rightarrow> PumpDone | l \<Rightarrow> l)\<rparr>)"
| close_pty: "dp_close s = ClosedDone \<Longrightarrow> proc_step s (s\<lparr>dp_close := ClosedPty\<rparr>)"
| close_streams: "dp_close s = ClosedPty \<Longrightarrow> proc_step s (s\<lparr>dp_close := ClosedAll\<rparr>)"

inductive_cases proc_stepE: "proc_step s t"

definition proc_start :: direct_proc where
  "proc_start = \<lparr>dp_pump = PumpRead, dp_close = Open, dp_buffer = []\<rparr>"

text \<open>Runs of the process, and those whose \<open>Close\<close> starts only when the pump is done.\<close>

inductive proc_run :: "direct_proc \<Rightarrow> bool" where
  start: "proc_run proc_start"
| step: "proc_run s \<Longrightarrow> proc_step s t \<Longrightarrow> proc_run t"

inductive waited_run :: "direct_proc \<Rightarrow> bool" where
  wstart: "waited_run proc_start"
| wstep: "waited_run s \<Longrightarrow> proc_step s t \<Longrightarrow> (dp_close s = Open \<and> dp_close t \<noteq> Open \<longrightarrow> dp_pump s = PumpDone) \<Longrightarrow> waited_run t"

lemma waited_inv: "waited_run s \<Longrightarrow> dp_pump s \<noteq> PumpPanic \<and> (dp_close s \<noteq> Open \<longrightarrow> dp_pump s = PumpDone)"
proof (induction rule: waited_run.induct)
  case wstart
  then show ?case by (simp add: proc_start_def)
next
  case (wstep s t)
  from wstep.hyps(2) show ?case using wstep.IH wstep.hyps(3) by (cases rule: proc_stepE) auto
qed



subsection \<open>When a command's session returns\<close>

text \<open>The goroutines of a command: an output pump of the host, its supervisor, the handler's writer and the handler. The
  process has \<open>es_left\<close> pieces of output left to read; the handler waits for the exit code, or, after a cancellation or
  the timer, has killed the process and waits for its exit code; then it closes the process, which releases the pump.\<close>

datatype es_pump = PIdle | PHold | PDone

datatype es_pc = HWait | HWaitExit | HClosed

record exec_sys =
  es_left :: nat
  es_pump :: es_pump
  es_buf :: nat
  es_reading :: bool
  es_exit :: bool
  es_pc :: es_pc

inductive es_step :: "exec_sys \<Rightarrow> exec_sys \<Rightarrow> bool" where
  es_read: "es_pump s = PIdle \<Longrightarrow> es_left s = Suc n \<Longrightarrow> es_step s (s\<lparr>es_left := n, es_pump := PHold\<rparr>)"
| es_send: "es_pump s = PHold \<Longrightarrow> es_buf s < streams_cap \<Longrightarrow> es_step s (s\<lparr>es_pump := PIdle, es_buf := es_buf s + 1\<rparr>)"
| es_eof: "es_pump s = PIdle \<Longrightarrow> es_left s = 0 \<Longrightarrow> es_step s (s\<lparr>es_pump := PDone\<rparr>)"
| es_supervise: "es_pump s = PDone \<Longrightarrow> \<not> es_exit s \<Longrightarrow> es_step s (s\<lparr>es_exit := True\<rparr>)"
| es_write: "es_reading s \<Longrightarrow> es_buf s = Suc n \<Longrightarrow> es_step s (s\<lparr>es_buf := n\<rparr>)"
| es_exits: "es_pc s = HWait \<Longrightarrow> es_exit s \<Longrightarrow> es_step s (s\<lparr>es_pc := HClosed\<rparr>)"
| es_kill: "es_pc s = HWait \<Longrightarrow> n \<le> es_left s \<Longrightarrow> es_step s (s\<lparr>es_pc := HWaitExit, es_left := n\<rparr>)"
| es_killed: "es_pc s = HWaitExit \<Longrightarrow> es_exit s \<Longrightarrow> es_step s (s\<lparr>es_pc := HClosed\<rparr>)"
| es_release: "es_pc s = HClosed \<Longrightarrow> es_pump s = PHold \<Longrightarrow> es_step s (s\<lparr>es_pump := PDone\<rparr>)"

inductive_cases es_stepE: "es_step s t"

text \<open>A failed write ends the writer, which reads no more.\<close>

definition es_write_fails :: "exec_sys \<Rightarrow> exec_sys" where
  "es_write_fails s = s\<lparr>es_reading := False\<rparr>"

definition es_start :: "nat \<Rightarrow> exec_sys" where
  "es_start n = \<lparr>es_left = n, es_pump = PIdle, es_buf = 0, es_reading = True, es_exit = False, es_pc = HWait\<rparr>"

inductive es_run :: "nat \<Rightarrow> exec_sys \<Rightarrow> bool" for n where
  "es_run n (es_start n)"
| "es_run n s \<Longrightarrow> es_step s t \<Longrightarrow> es_run n t"
| "es_run n s \<Longrightarrow> es_run n (es_write_fails s)"

definition es_measure :: "exec_sys \<Rightarrow> nat" where
  "es_measure s = 3 * es_left s + (case es_pump s of PHold \<Rightarrow> 3 | PIdle \<Rightarrow> 1 | PDone \<Rightarrow> 0) + es_buf s + (if es_exit s then 0 else 1)
     + (case es_pc s of HWait \<Rightarrow> 2 | HWaitExit \<Rightarrow> 1 | HClosed \<Rightarrow> 0)"

lemma es_step_decreases: "es_step s t \<Longrightarrow> es_measure t < es_measure s"
  by (erule es_stepE) (auto simp: es_measure_def)

lemma es_progress:
  assumes "es_reading s" "es_pc s \<noteq> HClosed"
  shows "\<exists>t. es_step s t"
proof (cases "es_pump s")
  case PIdle
  then show ?thesis by (cases "es_left s") (blast intro: es_read es_eof)+
next
  case PHold
  show ?thesis
  proof (cases "es_buf s < streams_cap")
    case True
    then show ?thesis using es_send [OF PHold] by blast
  next
    case False
    then obtain k where "es_buf s = Suc k" by (cases "es_buf s") (simp_all add: streams_cap_def)
    then show ?thesis using es_write [OF assms(1)] by blast
  qed
next
  case PDone
  then show ?thesis using assms(2) by (cases "es_exit s"; cases "es_pc s") (blast intro: es_supervise es_exits es_killed)+
qed

text \<open>The pump fills the channel.\<close>

lemma es_fill:
  "es_run n s \<Longrightarrow> es_pump s = PIdle \<Longrightarrow> es_left s = k + m \<Longrightarrow> es_buf s + k \<le> streams_cap \<Longrightarrow>
     es_run n (s\<lparr>es_left := m, es_buf := es_buf s + k\<rparr>)"
proof (induction k arbitrary: s)
  case (Suc k)
  let ?s1 = "s\<lparr>es_left := k + m, es_pump := PHold\<rparr>"
  let ?s2 = "s\<lparr>es_left := k + m, es_buf := es_buf s + 1\<rparr>"
  have "es_run n ?s1" using Suc.prems by (intro es_run.intros(2) [OF Suc.prems(1)] es_read) simp_all
  moreover have "es_step ?s1 (?s1\<lparr>es_pump := PIdle, es_buf := es_buf ?s1 + 1\<rparr>)" using Suc.prems by (intro es_send) simp_all
  ultimately have r: "es_run n (?s1\<lparr>es_pump := PIdle, es_buf := es_buf ?s1 + 1\<rparr>)" by (rule es_run.intros(2))
  have "?s1\<lparr>es_pump := PIdle, es_buf := es_buf ?s1 + 1\<rparr> = ?s2" using Suc.prems(2) by (cases s) simp
  then have "es_run n ?s2" using r by simp
  from Suc.IH [OF this] show ?case using Suc.prems by simp
next
  case 0
  then have e: "s\<lparr>es_left := m\<rparr> = s" by (cases s) simp
  have "es_run n (s\<lparr>es_left := m\<rparr>)" unfolding e by (rule 0(1))
  then show ?case by simp
qed

text \<open>C26. A command's session returns only while its client listens. Every run of its goroutines is finite. As long as the
  client takes the output, a run that can go no further has closed the process and returned. But if the
  connection fails while the process still has more than 64 pieces of output, there is a run in which the handler kills
  the process and then waits for an exit code that can never come: the supervisor waits for the pump, the pump for room in
  the channel or for \<open>Close\<close>, and \<open>Close\<close> comes after the wait. The session's goroutines, its entry in the engine and its
  script stay for ever.\<close>

theorem exec_returns_while_read:
  "(\<forall>s t. es_step s t \<longrightarrow> es_measure t < es_measure s)
   \<and> (\<forall>s. es_run n s \<and> es_reading s \<and> (\<nexists>t. es_step s t) \<longrightarrow> es_pc s = HClosed)
   \<and> (n > streams_cap \<longrightarrow> (\<exists>s. es_run n s \<and> es_pc s = HWaitExit \<and> \<not> es_exit s \<and> (\<forall>t. es_step\<^sup>*\<^sup>* s t \<longrightarrow> t = s)))"
proof (intro conjI impI allI)
  show "es_measure t < es_measure s" if "es_step s t" for s t using es_step_decreases [OF that] .
  show "es_pc s = HClosed" if "es_run n s \<and> es_reading s \<and> (\<nexists>t. es_step s t)" for s using that es_progress by blast
  assume "n > streams_cap"
  then obtain m where m: "n = streams_cap + Suc m" by (metis add_Suc_right less_imp_Suc_add)
  let ?w = "\<lambda>l p c. \<lparr>es_left = l, es_pump = p, es_buf = streams_cap, es_reading = False, es_exit = False, es_pc = c\<rparr>"
  have "es_run n ((es_start n)\<lparr>es_left := Suc m, es_buf := es_buf (es_start n) + streams_cap\<rparr>)"
    by (rule es_fill [OF es_run.intros(1)]) (simp_all add: es_start_def m)
  then have "es_run n (es_write_fails ((es_start n)\<lparr>es_left := Suc m, es_buf := es_buf (es_start n) + streams_cap\<rparr>))"
    by (rule es_run.intros(3))
  then have "es_run n (?w (Suc m) PIdle HWait)" by (simp add: es_start_def es_write_fails_def)
  moreover have "es_step (?w (Suc m) PIdle HWait) (?w m PHold HWait)" using es_read [of "?w (Suc m) PIdle HWait" m] by simp
  moreover have "es_step (?w m PHold HWait) (?w m PHold HWaitExit)" using es_kill [of "?w m PHold HWait" m] by simp
  ultimately have r: "es_run n (?w m PHold HWaitExit)" by (blast intro: es_run.intros(2))
  have "\<not> es_step (?w m PHold HWaitExit) t" for t by (auto elim: es_stepE)
  then have "t = ?w m PHold HWaitExit" if "es_step\<^sup>*\<^sup>* (?w m PHold HWaitExit) t" for t
    using that by (metis converse_rtranclpE)
  then show "\<exists>s. es_run n s \<and> es_pc s = HWaitExit \<and> \<not> es_exit s \<and> (\<forall>t. es_step\<^sup>*\<^sup>* s t \<longrightarrow> t = s)"
    using r by (intro exI [of _ "?w m PHold HWaitExit"]) auto
qed

theorem exec_returns_while_read_witness: "\<exists>s. es_run 100 s \<and> es_pc s = HWaitExit \<and> \<not> es_exit s \<and> (\<nexists>t. es_step s t)"
proof -
  have "streams_cap < 100" by (simp add: streams_cap_def)
  then obtain s where s: "es_run 100 s" "es_pc s = HWaitExit" "\<not> es_exit s" "\<And>t. es_step\<^sup>*\<^sup>* s t \<Longrightarrow> t = s"
    using exec_returns_while_read [of 100] by blast
  have "\<not> es_step s t" for t
  proof
    assume a: "es_step s t"
    then have "t = s" by (intro s(4)) blast
    then show False using a es_step_decreases by fastforce
  qed
  then show ?thesis using s(1-3) by blast
qed

end
