(* ===== verification/Installer_Sync.thy ===== *)
theory Installer_Sync
  imports Releases
begin

text \<open>
  The server's installer synchronisation (\<open>src/server/internal/installersync/syncer.go\<close>): it polls the list of
  releases of a repository with a conditional request and stores the newest installer of each channel, checked
  against its digest, in the release tables of \<open>Releases\<close>. What the network answers during one round is a
  \<open>gh_net\<close>; \<open>sha\<close> is \<open>sha256.Sum256\<close>.
\<close>

subsection \<open>The repository\<close>

record ghAsset =
  ga_Name :: string
  ga_URL :: string
  ga_Size :: int

record ghRelease =
  gr_TagName :: string
  gr_Body :: string
  gr_Draft :: bool
  gr_Assets :: "ghAsset list"

text \<open>One round: whether the list can be had at all, its tag and releases (\<open>None\<close>: does not decode), and for each
  address the status-200 body, if any.\<close>

record gh_net =
  gn_up :: bool
  gn_etag :: string
  gn_releases :: "ghRelease list option"
  gn_get :: "string \<Rightarrow> bytes option"

definition maxInstallerByte :: int where "maxInstallerByte = 128 * 1024 * 1024"
definition sidecarMax :: int where "sidecarMax = 4 * 1024"

text \<open>\<open>installerTag\<close>: the version without suffix and whether it has the suffix \<open>-dev\<close>.\<close>

definition digits14 :: "string \<Rightarrow> bool" where
  "digits14 s \<longleftrightarrow> 1 \<le> length s \<and> length s \<le> 4 \<and> list_all (\<lambda>c. char_digit c \<noteq> None) s"

fun split_at :: "char \<Rightarrow> string \<Rightarrow> string list" where
  "split_at d [] = [[]]"
| "split_at d (c # s) = (if c = d then [] # split_at d s else (case split_at d s of [] \<Rightarrow> [[c]] | x # xs \<Rightarrow> (c # x) # xs))"

definition is_version :: "string \<Rightarrow> bool" where
  "is_version s \<longleftrightarrow> (case split_at CHR ''.'' s of [a, b, c] \<Rightarrow> digits14 a \<and> digits14 b \<and> digits14 c | _ \<Rightarrow> False)"

definition installerTag :: "string \<Rightarrow> (string \<times> bool) option" where
  "installerTag tag =
     (case tag of [] \<Rightarrow> None
      | c # s \<Rightarrow>
          if c \<noteq> CHR ''v'' then None
          else if HasSuffix s ''-dev'' \<and> is_version (take (length s - 4) s) then Some (take (length s - 4) s, True)
          else if is_version s then Some (s, False)
          else None)"

definition findInstallerAsset :: "ghAsset list \<Rightarrow> string \<Rightarrow> ghAsset option" where
  "findInstallerAsset assets version =
     find (\<lambda>a. HasPrefix (ga_Name a) ''XNC-Installer'' \<and> HasSuffix (ga_Name a) (''-'' @ version @ ''.exe'')) assets"

definition findAsset :: "ghAsset list \<Rightarrow> string \<Rightarrow> ghAsset option" where
  "findAsset assets name = find (\<lambda>a. ga_Name a = name) assets"

definition gh_fetch :: "gh_net \<Rightarrow> string \<Rightarrow> int \<Rightarrow> bytes option" where
  "gh_fetch net url limit =
     (case gn_get net url of None \<Rightarrow> None | Some b \<Rightarrow> if int (length b) > limit then None else Some b)"

text \<open>The first field of \<open>strings.Fields\<close>.\<close>

definition space_at :: "string \<Rightarrow> bool" where
  "space_at s \<longleftrightarrow> find (\<lambda>w. take (length w) s = w) go_spaces \<noteq> None"

fun until_space :: "string \<Rightarrow> string" where
  "until_space [] = []"
| "until_space (c # s) = (if space_at (c # s) then [] else c # until_space s)"

definition first_field :: "string \<Rightarrow> string option" where
  "first_field s = (let f = until_space (trim_left go_spaces (length s) s) in if f = [] then None else Some f)"

definition bytes_str :: "bytes \<Rightarrow> string" where
  "bytes_str b = map (\<lambda>w. char_of (unat w)) b"

definition fetchSum :: "gh_net \<Rightarrow> string \<Rightarrow> string option" where
  "fetchSum net url =
     (case gh_fetch net url sidecarMax of None \<Rightarrow> None
      | Some body \<Rightarrow>
          (case first_field (bytes_str body) of None \<Rightarrow> None
           | Some f \<Rightarrow> if length f \<noteq> 64 then None else if hex_DecodeString f = None then None else Some (ToLower f)))"

definition fetchInstaller :: "gh_net \<Rightarrow> ghAsset \<Rightarrow> bytes option" where
  "fetchInstaller net a = (if ga_Size a > maxInstallerByte then None else gh_fetch net (ga_URL a) maxInstallerByte)"

subsection \<open>The rounds\<close>

record Syncer =
  sc_etag :: string

text \<open>The list, whether it changed, and the remembered tag. With a tag the request is conditional: an unchanged
  list is answered with status 304.\<close>

definition listReleases :: "gh_net \<Rightarrow> Syncer \<Rightarrow> (string + ghRelease list option) \<times> Syncer" where
  "listReleases net s =
     (if \<not> gn_up net then (Inl ''list releases'', s)
      else if sc_etag s \<noteq> [] \<and> sc_etag s = gn_etag net then (Inr None, s)
      else case gn_releases net of
        None \<Rightarrow> (Inl ''decode releases'', s)
      | Some rels \<Rightarrow> (Inr (Some rels), s\<lparr>sc_etag := gn_etag net\<rparr>))"

definition release_channel :: "ghRelease \<Rightarrow> string option" where
  "release_channel r =
     (if gr_Draft r then None
      else map_option (\<lambda>(v, dev). if dev then ''dev'' else ''stable'') (installerTag (gr_TagName r)))"

definition latest_of :: "string \<Rightarrow> ghRelease list \<Rightarrow> ghRelease option" where
  "latest_of ch rels = find (\<lambda>r. release_channel r = Some ch) rels"

definition tag_version :: "string \<Rightarrow> string" where
  "tag_version tag = (if HasPrefix tag ''v'' then drop 1 tag else tag)"

text \<open>The checked installer of a release: its digest and its bytes.\<close>

definition sync_download :: "(bytes \<Rightarrow> bytes) \<Rightarrow> gh_net \<Rightarrow> ghRelease \<Rightarrow> string \<Rightarrow> (string \<times> bytes) option" where
  "sync_download sha net r version =
     (case findInstallerAsset (gr_Assets r) version of
        None \<Rightarrow> None
      | Some exe \<Rightarrow>
     (case findAsset (gr_Assets r) (ga_Name exe @ ''.sha256'') of
        None \<Rightarrow> None
      | Some sidecar \<Rightarrow>
     (case fetchSum net (ga_URL sidecar) of
        None \<Rightarrow> None
      | Some want \<Rightarrow>
     (case fetchInstaller net exe of
        None \<Rightarrow> None
      | Some data \<Rightarrow>
          if length data < 2 \<or> data ! 0 \<noteq> 77 \<or> data ! 1 \<noteq> 90 then None
          else if hex_EncodeToString (sha data) \<noteq> want then None
          else Some (want, data)))))"

text \<open>The transaction: both inserts, or \<open>None\<close>.\<close>

definition sync_tx :: "request \<Rightarrow> string \<Rightarrow> ghRelease \<Rightarrow> string \<Rightarrow> bytes \<Rightarrow> store \<Rightarrow> store option" where
  "sync_tx q ch r want data st =
     (if rq_fails q ''Begin'' then None
      else case wr q ''CreateRelease'' (CreateRelease (rq_new q (if ch = ''dev'' then 1 else 0)) (rq_now q) (tag_version (gr_TagName r)) (gr_Body r) ch st) of
        Inl e \<Rightarrow> None
      | Inr (i, st1) \<Rightarrow>
          (case wr q ''PutArtifact'' (PutArtifact i setupArtifactName \<lparr>ar_Sha256 = want, ar_Size = int (length data), ar_Data = data\<rparr> st1) of
             Inl e \<Rightarrow> None
           | Inr st2 \<Rightarrow> if rq_fails q ''Commit'' then None else Some st2))"

text \<open>A lookup of the release that fails, rather than finding nothing, ends the synchronisation of the channel; a failed
  lookup of the artifact counts as a missing artifact. The first component says whether the channel succeeded.\<close>

definition syncRelease :: "(bytes \<Rightarrow> bytes) \<Rightarrow> request \<Rightarrow> gh_net \<Rightarrow> string \<Rightarrow> ghRelease \<Rightarrow> store \<Rightarrow> bool \<times> store" where
  "syncRelease sha q net ch r st =
     (let version = tag_version (gr_TagName r) in
      if rq_fails q ''GetReleaseByVersion'' then (False, st)
      else if (case GetReleaseByVersion version st of None \<Rightarrow> False
               | Some (i, x) \<Rightarrow> rd q ''GetArtifact'' (GetArtifact i setupArtifactName st) \<noteq> None) then (True, st)
      else case sync_download sha net r version of
        None \<Rightarrow> (False, st)
      | Some (want, data) \<Rightarrow>
          (case sync_tx q ch r want data st of None \<Rightarrow> (False, st) | Some st2 \<Rightarrow> (True, st2)))"

definition sync_channel :: "(bytes \<Rightarrow> bytes) \<Rightarrow> request \<Rightarrow> gh_net \<Rightarrow> ghRelease list \<Rightarrow> string \<Rightarrow> store \<Rightarrow> store" where
  "sync_channel sha q net rels ch st =
     (case latest_of ch rels of None \<Rightarrow> st | Some r \<Rightarrow> snd (syncRelease sha q net ch r st))"

definition syncOnce :: "(bytes \<Rightarrow> bytes) \<Rightarrow> request \<Rightarrow> gh_net \<Rightarrow> Syncer \<times> store \<Rightarrow> Syncer \<times> store" where
  "syncOnce sha q net x =
     (case listReleases net (fst x) of
        (Inr (Some rels), s1) \<Rightarrow> (s1, sync_channel sha q net rels ''dev'' (sync_channel sha q net rels ''stable'' (snd x)))
      | (_, s1) \<Rightarrow> (s1, snd x))"

definition syncer_New :: Syncer where "syncer_New = \<lparr>sc_etag = []\<rparr>"

fun sync_step :: "(bytes \<Rightarrow> bytes) \<Rightarrow> request \<times> gh_net \<Rightarrow> Syncer \<times> store \<Rightarrow> Syncer \<times> store" where
  "sync_step sha (q, net) x = syncOnce sha q net x"

subsection \<open>What a release brings\<close>

text \<open>The artifact \<open>a\<close> is the checked installer of the listed release \<open>r\<close>.\<close>

definition verified_by :: "(bytes \<Rightarrow> bytes) \<Rightarrow> gh_net \<Rightarrow> ghRelease \<Rightarrow> ReleaseArtifact \<Rightarrow> bool" where
  "verified_by sha net r a \<longleftrightarrow>
     (\<exists>rels. gn_releases net = Some rels \<and> r \<in> set rels) \<and> \<not> gr_Draft r \<and> installerTag (gr_TagName r) \<noteq> None
     \<and> (\<exists>exe sidecar. findInstallerAsset (gr_Assets r) (tag_version (gr_TagName r)) = Some exe
          \<and> findAsset (gr_Assets r) (ga_Name exe @ ''.sha256'') = Some sidecar
          \<and> fetchSum net (ga_URL sidecar) = Some (ar_Sha256 a) \<and> gn_get net (ga_URL exe) = Some (ar_Data a))
     \<and> ar_Sha256 a = hex_EncodeToString (sha (ar_Data a)) \<and> ar_Size a = int (length (ar_Data a))
     \<and> 2 \<le> ar_Size a \<and> ar_Size a \<le> maxInstallerByte \<and> take 2 (ar_Data a) = [77, 90]"

lemma sync_download_verified:
  assumes "sync_download sha net r (tag_version (gr_TagName r)) = Some (want, data)"
    and "gn_releases net = Some rels" "r \<in> set rels" "release_channel r \<noteq> None"
  shows "verified_by sha net r \<lparr>ar_Sha256 = want, ar_Size = int (length data), ar_Data = data\<rparr>"
proof -
  obtain exe sidecar where a: "findInstallerAsset (gr_Assets r) (tag_version (gr_TagName r)) = Some exe"
      "findAsset (gr_Assets r) (ga_Name exe @ ''.sha256'') = Some sidecar" "fetchSum net (ga_URL sidecar) = Some want"
      "fetchInstaller net exe = Some data"
    and d: "\<not> (length data < 2 \<or> data ! 0 \<noteq> 77 \<or> data ! 1 \<noteq> 90)" "hex_EncodeToString (sha data) = want"
    using assms(1) unfolding sync_download_def by (auto split: option.splits if_splits)
  have get: "gn_get net (ga_URL exe) = Some data" "int (length data) \<le> maxInstallerByte"
    using a(4) by (auto simp: fetchInstaller_def gh_fetch_def split: if_splits option.splits)
  obtain x y zs where "data = x # y # zs" using d(1) by (cases data; cases "tl data") auto
  then have "take 2 data = [77, 90]" using d(1) by simp
  moreover have "\<not> gr_Draft r" "installerTag (gr_TagName r) \<noteq> None"
    using assms(4) by (auto simp: release_channel_def split: if_splits)
  ultimately show ?thesis unfolding verified_by_def using a d get assms(2,3) by auto
qed

lemma CreateRelease_row:
  assumes "CreateRelease gen now v notes ch st = Inr (i, st')" "store_wf sha st"
  shows "\<exists>y. tget (rs_releases st') i = Some y \<and> re_Version y = v \<and> re_Channel y = ch
      \<and> re_CreatedAt y = (case GetReleaseByVersion v st of None \<Rightarrow> now | Some (_, x) \<Rightarrow> re_CreatedAt x)"
    and "tget (rs_releases st) j = Some x \<Longrightarrow> \<exists>y. tget (rs_releases st') j = Some y \<and> re_Version y = re_Version x \<and> re_CreatedAt y = re_CreatedAt x"
    and "j \<noteq> i \<Longrightarrow> tget (rs_releases st') j = tget (rs_releases st) j"
  using assms(1) GetReleaseByVersion_iff [OF assms(2), of v]
  by (cases "GetReleaseByVersion v st"; auto simp: CreateRelease_def split: if_splits)+

lemma sync_tx_Some:
  "sync_tx q ch r want data st = Some st2 \<Longrightarrow>
   \<exists>i st1. CreateRelease (rq_new q (if ch = ''dev'' then 1 else 0)) (rq_now q) (tag_version (gr_TagName r)) (gr_Body r) ch st = Inr (i, st1)
     \<and> PutArtifact i setupArtifactName \<lparr>ar_Sha256 = want, ar_Size = int (length data), ar_Data = data\<rparr> st1 = Inr st2"
  unfolding sync_tx_def by (auto split: if_splits sum.splits dest!: wr_InrD)

lemma syncRelease_cases:
  obtains (kept) "snd (syncRelease sha q net ch r st) = st"
  | (stored) want data i st1 where
      "sync_download sha net r (tag_version (gr_TagName r)) = Some (want, data)"
      "CreateRelease (rq_new q (if ch = ''dev'' then 1 else 0)) (rq_now q) (tag_version (gr_TagName r)) (gr_Body r) ch st = Inr (i, st1)"
      "PutArtifact i setupArtifactName \<lparr>ar_Sha256 = want, ar_Size = int (length data), ar_Data = data\<rparr> st1 = Inr (snd (syncRelease sha q net ch r st))"
proof -
  have "snd (syncRelease sha q net ch r st) = st \<or> (\<exists>want data. sync_download sha net r (tag_version (gr_TagName r)) = Some (want, data)
      \<and> sync_tx q ch r want data st = Some (snd (syncRelease sha q net ch r st)))"
    unfolding syncRelease_def Let_def by (auto split: option.splits)
  then show thesis using kept stored sync_tx_Some by blast
qed

text \<open>What a run of rounds \<open>E\<close> that began with the tables \<open>st0\<close> keeps.\<close>

definition sync_inv :: "(bytes \<Rightarrow> bytes) \<Rightarrow> (request \<times> gh_net) set \<Rightarrow> store \<Rightarrow> store \<Rightarrow> bool" where
  "sync_inv sha E st0 st \<longleftrightarrow> store_wf sha st
     \<and> (\<forall>k a. tget (rs_artifacts st) k = Some a \<longrightarrow> tget (rs_artifacts st0) k = Some a
          \<or> snd k = setupArtifactName \<and> (\<exists>q net r x. (q, net) \<in> E \<and> verified_by sha net r a
              \<and> tget (rs_releases st) (fst k) = Some x \<and> re_Version x = tag_version (gr_TagName r)))
     \<and> (\<forall>k. tget (rs_artifacts st0) k \<noteq> None \<longrightarrow> tget (rs_artifacts st) k \<noteq> None)
     \<and> (\<forall>i x. tget (rs_releases st0) i = Some x \<longrightarrow>
          (\<exists>y. tget (rs_releases st) i = Some y \<and> re_Version y = re_Version x \<and> re_CreatedAt y = re_CreatedAt x))"

lemma sync_invD:
  assumes "sync_inv sha E st0 st"
  shows "store_wf sha st"
    and "tget (rs_artifacts st) k = Some a \<Longrightarrow> tget (rs_artifacts st0) k = Some a
          \<or> snd k = setupArtifactName \<and> (\<exists>q net r x. (q, net) \<in> E \<and> verified_by sha net r a
              \<and> tget (rs_releases st) (fst k) = Some x \<and> re_Version x = tag_version (gr_TagName r))"
    and "tget (rs_artifacts st0) k \<noteq> None \<Longrightarrow> tget (rs_artifacts st) k \<noteq> None"
    and "tget (rs_releases st0) i = Some x \<Longrightarrow>
          \<exists>y. tget (rs_releases st) i = Some y \<and> re_Version y = re_Version x \<and> re_CreatedAt y = re_CreatedAt x"
  using assms unfolding sync_inv_def by blast+

lemma PutArtifact_artifacts: "PutArtifact i n a st = Inr st' \<Longrightarrow> rs_artifacts st' = tput (i, n) a (rs_artifacts st)"
  by (auto simp: PutArtifact_def split: if_splits)

lemma sync_inv_release:
  assumes inv: "sync_inv sha E st0 st" and e: "(q, net) \<in> E" "gn_releases net = Some rels" "r \<in> set rels" "release_channel r \<noteq> None"
  shows "sync_inv sha E st0 (snd (syncRelease sha q net ch r st))"
proof (cases rule: syncRelease_cases [of sha q net ch r st])
  case kept
  then show ?thesis using inv by simp
next
  case (stored want data i st1)
  let ?st2 = "snd (syncRelease sha q net ch r st)" and ?a = "\<lparr>ar_Sha256 = want, ar_Size = int (length data), ar_Data = data\<rparr>"
  have v: "verified_by sha net r ?a" using sync_download_verified [OF stored(1) e(2,3,4)] .
  note wf = sync_invD(1) [OF inv]
  have wf1: "store_wf sha st1" "rs_artifacts st1 = rs_artifacts st" using wf_CreateRelease [OF stored(2) wf] by blast+
  have wf2: "store_wf sha ?st2" "rs_releases ?st2 = rs_releases st1"
    using wf_PutArtifact [OF stored(3) _ _ wf1(1)] v by (simp_all add: verified_by_def)
  have art: "rs_artifacts ?st2 = tput (i, setupArtifactName) ?a (rs_artifacts st)"
    using PutArtifact_artifacts [OF stored(3)] wf1(2) by simp
  note row = CreateRelease_row(1) [OF stored(2) wf] and rows = CreateRelease_row(2) [OF stored(2) wf]
  have "tget (rs_artifacts st0) k = Some a
      \<or> snd k = setupArtifactName \<and> (\<exists>q net r x. (q, net) \<in> E \<and> verified_by sha net r a
          \<and> tget (rs_releases ?st2) (fst k) = Some x \<and> re_Version x = tag_version (gr_TagName r))"
    if k: "tget (rs_artifacts ?st2) k = Some a" for k a
  proof (cases "k = (i, setupArtifactName)")
    case True
    then have "a = ?a" using k by (simp add: art)
    then show ?thesis using True v e(1) row wf2(2) by auto
  next
    case False
    then have "tget (rs_artifacts st) k = Some a" using k by (simp add: art)
    then consider "tget (rs_artifacts st0) k = Some a"
      | q net r x where "snd k = setupArtifactName" "(q, net) \<in> E" "verified_by sha net r a"
          "tget (rs_releases st) (fst k) = Some x" "re_Version x = tag_version (gr_TagName r)"
      using sync_invD(2) [OF inv] by blast
    then show ?thesis
    proof cases
      case 2
      then show ?thesis using rows [OF 2(4)] wf2(2) by auto
    qed simp
  qed
  moreover have "tget (rs_artifacts st0) k \<noteq> None \<longrightarrow> tget (rs_artifacts ?st2) k \<noteq> None" for k
    using sync_invD(3) [OF inv] by (simp add: art)
  moreover have "\<exists>y. tget (rs_releases ?st2) j = Some y \<and> re_Version y = re_Version x \<and> re_CreatedAt y = re_CreatedAt x"
    if x: "tget (rs_releases st0) j = Some x" for j x
    using sync_invD(4) [OF inv x] rows [of j] wf2(2) by fastforce
  ultimately show ?thesis unfolding sync_inv_def using wf2(1) by blast
qed

lemma latest_of_Some: "latest_of ch rels = Some r \<Longrightarrow> r \<in> set rels \<and> release_channel r = Some ch"
  unfolding latest_of_def find_Some_iff by (auto dest: nth_mem)

lemma sync_inv_channel:
  "sync_inv sha E st0 st \<Longrightarrow> (q, net) \<in> E \<Longrightarrow> gn_releases net = Some rels \<Longrightarrow> sync_inv sha E st0 (sync_channel sha q net rels ch st)"
  unfolding sync_channel_def by (auto dest: latest_of_Some intro!: sync_inv_release split: option.splits)

lemma listReleases_changed: "listReleases net s = (Inr (Some rels), s') \<Longrightarrow> gn_releases net = Some rels"
  unfolding listReleases_def by (auto split: if_splits option.splits)

lemma sync_step_inv:
  assumes "sync_inv sha E st0 (snd x)" "e \<in> E"
  shows "sync_inv sha E st0 (snd (sync_step sha e x))"
proof -
  obtain q net where e: "e = (q, net)" by (cases e)
  obtain l s1 where l: "listReleases net (fst x) = (l, s1)" by (cases "listReleases net (fst x)")
  show ?thesis
  proof (cases "\<exists>rels. l = Inr (Some rels)")
    case True
    then obtain rels where r: "l = Inr (Some rels)" by blast
    then have rels: "gn_releases net = Some rels" using l by (simp add: listReleases_changed)
    have "(q, net) \<in> E" using assms(2) e by simp
    then show ?thesis
      using sync_inv_channel [OF sync_inv_channel [OF assms(1) _ rels] _ rels] by (simp add: e syncOnce_def l r)
  next
    case False
    then have "snd (sync_step sha e x) = snd x" by (cases l) (auto simp: e syncOnce_def l split: option.splits)
    then show ?thesis using assms(1) by simp
  qed
qed

interpretation syncs: inv_machine "\<lambda>e _. e \<in> E" "sync_step sha" "\<lambda>x. sync_inv sha E st0 (snd x)" for sha E st0
  by unfold_locales (rule sync_step_inv)

lemma sync_inv_start: "store_wf sha st \<Longrightarrow> sync_inv sha E st st"
  unfolding sync_inv_def by blast

subsection \<open>The properties\<close>

text \<open>C11. Whatever the network answers and whatever fails, the rounds keep the release tables sound: every setup
  installer they bring in is the listed asset of a published release with the version of its row, starts with
  \<open>MZ\<close>, is at most 128 MiB and has the digest of its sidecar, no artifact disappears, and no release changes its
  version or age.\<close>

theorem sync_stores_verified:
  assumes "store_wf sha st"
  shows "let st' = snd (fold (sync_step sha) rs (s, st)) in store_wf sha st'
     \<and> (\<forall>k a. tget (rs_artifacts st') k = Some a \<and> tget (rs_artifacts st) k \<noteq> Some a \<longrightarrow> snd k = setupArtifactName
          \<and> (\<exists>q net r x. (q, net) \<in> set rs \<and> verified_by sha net r a
              \<and> tget (rs_releases st') (fst k) = Some x \<and> re_Version x = tag_version (gr_TagName r)))
     \<and> (\<forall>k. tget (rs_artifacts st) k \<noteq> None \<longrightarrow> tget (rs_artifacts st') k \<noteq> None)
     \<and> (\<forall>i x. tget (rs_releases st) i = Some x \<longrightarrow>
          (\<exists>y. tget (rs_releases st') i = Some y \<and> re_Version y = re_Version x \<and> re_CreatedAt y = re_CreatedAt x))"
proof -
  have i: "sync_inv sha (set rs) st (snd (fold (sync_step sha) rs (s, st)))"
    by (rule syncs.run_inv) (simp_all add: sync_inv_start assms run_okI)
  show ?thesis unfolding Let_def using sync_invD [OF i] by blast
qed

text \<open>A new version of a channel whose installer is checked and whose statements succeed is published: the row is
  inserted under the channel with its installer, and the server hands out exactly the downloaded bytes under
  \<open>/installer\<close>.\<close>

theorem sync_publishes:
  assumes "store_wf sha st" "ch \<in> set validChannels" "release_channel r = Some ch"
    and "sync_download sha net r (tag_version (gr_TagName r)) = Some (want, data)"
    and "\<forall>n. \<not> rq_fails q n" "GetReleaseByVersion (tag_version (gr_TagName r)) st = None"
    and "tget (rs_releases st) (rq_new q (if ch = ''dev'' then 1 else 0)) = None"
    and "\<forall>i x. tget (rs_releases st) i = Some x \<longrightarrow> re_CreatedAt x < rq_now q"
    and "\<not> rq_fails q' ''GetLatestReleaseByChannel''" "\<not> rq_fails q' ''GetArtifact''" "platform \<noteq> ''linux''"
  shows "fst (syncRelease sha q net ch r st)
     \<and> (\<exists>name. setupDownload q' ch platform (snd (syncRelease sha q net ch r st)) = Inr (name, hex_EncodeToString (sha data), data))"
proof -
  let ?v = "tag_version (gr_TagName r)" and ?i = "rq_new q (if ch = ''dev'' then 1 else 0)"
  let ?x = "\<lparr>re_Version = ?v, re_Notes = gr_Body r, re_CreatedAt = rq_now q, re_Channel = ch\<rparr>"
  let ?a = "\<lparr>ar_Sha256 = want, ar_Size = int (length data), ar_Data = data\<rparr>"
  let ?st = "st\<lparr>rs_releases := tput ?i ?x (rs_releases st), rs_artifacts := tput (?i, setupArtifactName) ?a (rs_artifacts st)\<rparr>"
  have c: "CreateRelease ?i (rq_now q) ?v (gr_Body r) ch st = Inr (?i, st\<lparr>rs_releases := tput ?i ?x (rs_releases st)\<rparr>)"
    using assms(2,6,7) by (simp add: CreateRelease_def)
  have tx: "sync_tx q ch r want data st = Some ?st"
    unfolding sync_tx_def using assms(5) by (simp add: wr_def c PutArtifact_def)
  have s: "syncRelease sha q net ch r st = (True, ?st)"
    unfolding syncRelease_def Let_def using assms(4,5,6) by (simp add: tx)
  have tk: "tok (rs_releases ?st)" using store_wfD(1) [OF assms(1)] by simp
  have new: "(?i, ?x) \<in> set (rs_releases ?st)" using tget_SomeD [of "rs_releases ?st" ?i ?x] by simp
  obtain j y where l: "GetLatestReleaseByChannel ch ?st = Some (j, y)" using GetLatest_exists [OF new] by fastforce
  have "rq_now q \<le> re_CreatedAt y" using GetLatest_newest [OF l new] by simp
  moreover have "tget (rs_releases ?st) j = Some y" using GetLatest_in(1) [OF l] by (simp only: tget_in_set [OF tk])
  ultimately have j: "j = ?i" using assms(8) by (cases "j = ?i") fastforce+
  have "GetArtifact ?i (installerArtifactFor platform) ?st = Some ?a"
    using assms(11) by (simp add: GetArtifact_def installerArtifactFor_def)
  then have "\<exists>name. setupDownload q' ch platform ?st = Inr (name, ar_Sha256 ?a, ar_Data ?a)"
    using setupDownload_latest [OF assms(2) l [unfolded j] _ assms(9,10)] by blast
  moreover have "want = hex_EncodeToString (sha data)"
    using assms(4) by (auto simp: sync_download_def split: option.splits if_splits)
  ultimately show ?thesis unfolding s by simp
qed

text \<open>C38. A failed download is not retried: the tag of the list is remembered before the installers are fetched, so after
  a round that got the list but no installer, every round answers ``not modified'' and changes nothing, however
  well the downloads then work, until the list itself changes.\<close>

theorem sync_never_retries:
  assumes "gn_up net" "gn_releases net = Some rels" "gn_etag net \<noteq> []" "gn_etag net \<noteq> sc_etag s" "\<forall>url. gn_get net url = None"
    and "\<forall>(q', net') \<in> set rs. gn_up net' \<longrightarrow> gn_etag net' = gn_etag net"
  shows "fold (sync_step sha) ((q, net) # rs) (s, st) = (\<lparr>sc_etag = gn_etag net\<rparr>, st)"
proof -
  have nd: "sync_download sha net r v = None" for r v
    using assms(5) by (auto simp: sync_download_def fetchSum_def gh_fetch_def split: option.splits)
  have "snd (syncRelease sha q net ch r st) = st" for ch r st
    by (rule syncRelease_cases [of sha q net ch r st]) (simp_all add: nd)
  then have first: "sync_step sha (q, net) (s, st) = (\<lparr>sc_etag = gn_etag net\<rparr>, st)"
    using assms(1-4) by (cases s) (auto simp: syncOnce_def listReleases_def sync_channel_def split: option.splits)
  have "fold (sync_step sha) rs (\<lparr>sc_etag = gn_etag net\<rparr>, st) = (\<lparr>sc_etag = gn_etag net\<rparr>, st)"
    using assms(6)
  proof (induction rs)
    case (Cons e rs)
    obtain q' net' where e: "e = (q', net')" by (cases e)
    then have "sync_step sha e (\<lparr>sc_etag = gn_etag net\<rparr>, st) = (\<lparr>sc_etag = gn_etag net\<rparr>, st)"
      using Cons.prems assms(3) by (auto simp: syncOnce_def listReleases_def)
    then show ?case using Cons by simp
  qed simp
  then show ?thesis by (simp add: first del: sync_step.simps)
qed

subsection \<open>Witnesses\<close>

definition demo_gh :: gh_net where
  "demo_gh = \<lparr>gn_up = True, gn_etag = ''W/1'',
     gn_releases = Some [\<lparr>gr_TagName = ''v4.0.0'', gr_Body = [], gr_Draft = True, gr_Assets = []\<rparr>,
       \<lparr>gr_TagName = ''v3.1.0'', gr_Body = ''notes'', gr_Draft = False,
         gr_Assets = [\<lparr>ga_Name = ''XNC-Installer-3.1.0.exe'', ga_URL = ''u/exe'', ga_Size = 3\<rparr>,
           \<lparr>ga_Name = ''XNC-Installer-3.1.0.exe.sha256'', ga_URL = ''u/sum'', ga_Size = 66\<rparr>]\<rparr>],
     gn_get = (\<lambda>u. if u = ''u/exe'' then Some [77, 90, 9]
       else if u = ''u/sum'' then Some (concat (replicate 32 [48, 55]) @ [32, 32, 88]) else None)\<rparr>"

definition demo_sha :: "bytes \<Rightarrow> bytes" where "demo_sha b = replicate 32 7"

definition demo_sync_store :: store where
  "demo_sync_store = \<lparr>rs_releases = [(''#40'', \<lparr>re_Version = ''3.0.0'', re_Notes = [], re_CreatedAt = 10, re_Channel = ''stable''\<rparr>)],
     rs_artifacts = []\<rparr>"

lemma demo_sync_wf: "store_wf demo_sha demo_sync_store"
  unfolding store_wf_def uniq_def by (auto simp: demo_sync_store_def validChannels_def split: if_splits)

definition demo_sync_rq :: request where "demo_sync_rq = demo_rq\<lparr>rq_now := 100, rq_new := (\<lambda>n. ''#50'')\<rparr>"

lemma space_at_hex: "c \<in> set hex_chars \<Longrightarrow> \<not> space_at (c # s)"
proof -
  assume c: "c \<in> set hex_chars"
  let ?code = "\<lambda>c. of_char c \<in> {48 :: nat..57} \<union> {97..102}"
  have "?code c" using c unfolding hex_chars_eq by auto
  moreover have "\<forall>w \<in> set go_spaces. w \<noteq> [] \<and> \<not> ?code (hd w)" by (simp add: go_spaces_def)
  ultimately have "\<forall>w \<in> set go_spaces. take (length w) (c # s) \<noteq> w"
    by (metis hd_Cons_tl list.sel(1) list.size(3) take_Cons' )
  then show ?thesis by (simp add: space_at_def find_None_iff)
qed

lemma first_field_hex:
  assumes "set s \<subseteq> set hex_chars" "s \<noteq> []" "space_at t"
  shows "first_field (s @ t) = Some s"
proof -
  obtain c u where s: "s = c # u" using assms(2) by (cases s) auto
  have "find (\<lambda>w. take (length w) (c # u @ t) = w) go_spaces = None"
    using space_at_hex [of c "u @ t"] assms(1) s by (simp add: space_at_def)
  then have l: "trim_left go_spaces (length (s @ t)) (s @ t) = s @ t" by (simp add: s)
  have "until_space (s @ t) = s" using assms(1)
  proof (induction s)
    case Nil
    then show ?case using assms(3) by (cases t) simp_all
  next
    case (Cons c s)
    then show ?case by (simp add: space_at_hex)
  qed
  then show ?thesis using assms(2) unfolding first_field_def l by simp
qed

text \<open>A sidecar as the build writes it, the digest and the file name, is accepted.\<close>

lemma fetchSum_sidecar:
  assumes "gn_get net url = Some b" "int (length b) \<le> sidecarMax" "bytes_str b = hex_EncodeToString d @ t"
    and "space_at t" "length d = 32"
  shows "fetchSum net url = Some (hex_EncodeToString d)"
proof -
  have n: "length (hex_EncodeToString d) = 64" using assms(5) by (simp add: hex_EncodeToString_def length_concat comp_def sum_list_triv)
  then have "first_field (bytes_str b) = Some (hex_EncodeToString d)"
    unfolding assms(3) using first_field_hex [OF hex_Encode_chars _ assms(4), of d] by fastforce
  then show ?thesis using assms(1,2) n by (simp add: fetchSum_def gh_fetch_def hex_roundtrip)
qed

definition demo_gh_release :: ghRelease where
  "demo_gh_release = \<lparr>gr_TagName = ''v3.1.0'', gr_Body = ''notes'', gr_Draft = False,
     gr_Assets = [\<lparr>ga_Name = ''XNC-Installer-3.1.0.exe'', ga_URL = ''u/exe'', ga_Size = 3\<rparr>,
       \<lparr>ga_Name = ''XNC-Installer-3.1.0.exe.sha256'', ga_URL = ''u/sum'', ga_Size = 66\<rparr>]\<rparr>"

lemma demo_download:
  "sync_download demo_sha demo_gh demo_gh_release ''3.1.0'' = Some (hex_EncodeToString (replicate 32 7), [77, 90, 9])"
proof -
  have "fetchSum demo_gh ''u/sum'' = Some (hex_EncodeToString (replicate 32 7))"
  proof (rule fetchSum_sidecar [where t = "''  X''"])
    show "gn_get demo_gh ''u/sum'' = Some (concat (replicate 32 [48, 55]) @ [32, 32, 88])"
      unfolding demo_gh_def gh_net.simps by (simp only: list.inject char.inject simp_thms if_True if_False)
    show "int (length (concat (replicate 32 [48, 55]) @ [32, 32, 88 :: byte])) \<le> sidecarMax" by code_simp
    show "bytes_str (concat (replicate 32 [48, 55]) @ [32, 32, 88]) = hex_EncodeToString (replicate 32 7) @ ''  X''"
    proof -
      have "[char_of (unat (48 :: byte)), char_of (unat (55 :: byte))] = [hex_char (unat (7 :: byte) div 16), hex_char (unat (7 :: byte) mod 16)]"
        "map (\<lambda>w. char_of (unat w)) [32, 32, 88 :: byte] = ''  X''" by code_simp+
      then show ?thesis by (simp add: bytes_str_def hex_EncodeToString_def map_concat)
    qed
    have "CHR '' '' = char_of (32 :: nat)" by code_simp
    then have "'' '' \<in> set go_spaces" by (simp add: go_spaces_def)
    then show "space_at ''  X''" unfolding space_at_def find_None_iff by force
  qed simp
  moreover have "findInstallerAsset (gr_Assets demo_gh_release) ''3.1.0'' =
      Some \<lparr>ga_Name = ''XNC-Installer-3.1.0.exe'', ga_URL = ''u/exe'', ga_Size = 3\<rparr>" by code_simp
  moreover have "findAsset (gr_Assets demo_gh_release) (''XNC-Installer-3.1.0.exe'' @ ''.sha256'') =
      Some \<lparr>ga_Name = ''XNC-Installer-3.1.0.exe.sha256'', ga_URL = ''u/sum'', ga_Size = 66\<rparr>" by code_simp
  moreover have "fetchInstaller demo_gh \<lparr>ga_Name = ''XNC-Installer-3.1.0.exe'', ga_URL = ''u/exe'', ga_Size = 3\<rparr> = Some [77, 90, 9]" by code_simp
  ultimately show ?thesis by (simp add: sync_download_def demo_sha_def)
qed

lemma demo_channels:
  "release_channel demo_gh_release = Some ''stable''" "tag_version (gr_TagName demo_gh_release) = ''3.1.0''"
  "tag_version ''v3.1.0'' = ''3.1.0''"
  by code_simp+

lemma demo_latest: "latest_of ''stable'' (the (gn_releases demo_gh)) = Some demo_gh_release" "latest_of ''dev'' (the (gn_releases demo_gh)) = None"
  by code_simp+

lemma demo_publish:
  "syncRelease demo_sha demo_sync_rq demo_gh ''stable'' demo_gh_release demo_sync_store =
     (True, \<lparr>rs_releases = rs_releases demo_sync_store @
         [(''#50'', \<lparr>re_Version = ''3.1.0'', re_Notes = ''notes'', re_CreatedAt = 100, re_Channel = ''stable''\<rparr>)],
       rs_artifacts = [((''#50'', ''setup.exe''), \<lparr>ar_Sha256 = hex_EncodeToString (replicate 32 7), ar_Size = 3, ar_Data = [77, 90, 9]\<rparr>)]\<rparr>)"
  unfolding syncRelease_def Let_def demo_channels(2) demo_download
  by (simp add: sync_tx_def demo_channels demo_sync_rq_def demo_rq_def demo_sync_store_def wr_def CreateRelease_def PutArtifact_def
      GetReleaseByVersion_def validChannels_def setupArtifactName_def demo_gh_release_def)

lemma demo_synced:
  "syncOnce demo_sha demo_sync_rq demo_gh (syncer_New, demo_sync_store) =
     (\<lparr>sc_etag = ''W/1''\<rparr>, snd (syncRelease demo_sha demo_sync_rq demo_gh ''stable'' demo_gh_release demo_sync_store))"
proof -
  have "listReleases demo_gh syncer_New = (Inr (Some (the (gn_releases demo_gh))), \<lparr>sc_etag = ''W/1''\<rparr>)"
    by (simp add: listReleases_def demo_gh_def syncer_New_def)
  then show ?thesis by (simp add: syncOnce_def sync_channel_def demo_latest)
qed

theorem sync_stores_verified_witness:
  "store_wf demo_sha (snd (fold (sync_step demo_sha) [(demo_sync_rq, demo_gh)] (syncer_New, demo_sync_store)))
     \<and> tget (rs_artifacts (snd (fold (sync_step demo_sha) [(demo_sync_rq, demo_gh)] (syncer_New, demo_sync_store)))) (''#50'', ''setup.exe'')
       = Some \<lparr>ar_Sha256 = hex_EncodeToString (replicate 32 7), ar_Size = 3, ar_Data = [77, 90, 9]\<rparr>"
proof -
  have "tget (rs_artifacts (snd (fold (sync_step demo_sha) [(demo_sync_rq, demo_gh)] (syncer_New, demo_sync_store)))) (''#50'', ''setup.exe'')
       = Some \<lparr>ar_Sha256 = hex_EncodeToString (replicate 32 7), ar_Size = 3, ar_Data = [77, 90, 9]\<rparr>"
    by (simp add: demo_synced demo_publish)
  then show ?thesis
    using sync_stores_verified [OF demo_sync_wf, of "[(demo_sync_rq, demo_gh)]" syncer_New] unfolding Let_def by blast
qed

theorem sync_publishes_witness:
  "\<exists>name. setupDownload demo_rq ''stable'' ''windows'' (snd (syncRelease demo_sha demo_sync_rq demo_gh ''stable'' demo_gh_release demo_sync_store))
     = Inr (name, hex_EncodeToString (demo_sha [77, 90, 9]), [77, 90, 9])"
proof -
  have d: "sync_download demo_sha demo_gh demo_gh_release (tag_version (gr_TagName demo_gh_release)) =
      Some (hex_EncodeToString (replicate 32 7), [77, 90, 9])"
    by (simp add: demo_channels demo_download)
  have q: "\<forall>n. \<not> rq_fails demo_sync_rq n" "\<not> rq_fails demo_rq ''GetLatestReleaseByChannel''" "\<not> rq_fails demo_rq ''GetArtifact''"
    by (simp_all add: demo_sync_rq_def demo_rq_def)
  have n: "GetReleaseByVersion (tag_version (gr_TagName demo_gh_release)) demo_sync_store = None"
      "tget (rs_releases demo_sync_store) (rq_new demo_sync_rq (if ''stable'' = ''dev'' then 1 else 0)) = None"
      "\<forall>i x. tget (rs_releases demo_sync_store) i = Some x \<longrightarrow> re_CreatedAt x < rq_now demo_sync_rq"
    by (auto simp: demo_channels GetReleaseByVersion_def demo_sync_store_def demo_sync_rq_def split: if_splits)
  have v: "''stable'' \<in> set validChannels" by (simp add: validChannels_def)
  show ?thesis
    using sync_publishes [OF demo_sync_wf v demo_channels(1) d q(1) n q(2,3), of "''windows''"] by simp
qed

text \<open>One failed download: the round that follows finds the network in order and changes nothing, while a syncer that
  starts then would have stored the installer.\<close>

theorem sync_never_retries_witness:
  "snd (fold (sync_step demo_sha) [(demo_sync_rq, demo_gh\<lparr>gn_get := (\<lambda>_. None)\<rparr>), (demo_sync_rq, demo_gh)] (syncer_New, demo_sync_store))
       = demo_sync_store
   \<and> snd (fold (sync_step demo_sha) [(demo_sync_rq, demo_gh)] (syncer_New, demo_sync_store)) \<noteq> demo_sync_store"
proof -
  let ?bad = "demo_gh\<lparr>gn_get := (\<lambda>_. None)\<rparr>"
  have n: "gn_up ?bad" "gn_releases ?bad = Some (the (gn_releases demo_gh))" "gn_etag ?bad \<noteq> []" "gn_etag ?bad \<noteq> sc_etag syncer_New"
      "\<forall>url. gn_get ?bad url = None" "\<forall>(q', net') \<in> set [(demo_sync_rq, demo_gh)]. gn_up net' \<longrightarrow> gn_etag net' = gn_etag ?bad"
    by (simp_all add: demo_gh_def syncer_New_def)
  have "snd (fold (sync_step demo_sha) [(demo_sync_rq, demo_gh)] (syncer_New, demo_sync_store)) \<noteq> demo_sync_store"
    by (simp add: demo_synced demo_publish) (simp add: demo_sync_store_def)
  then show ?thesis using sync_never_retries [OF n, of demo_sha demo_sync_rq demo_sync_store] by (simp del: sync_step.simps)
qed

end
