(* ===== verification/Bootstrap.thy ===== *)
theory Bootstrap
  imports Api Session_Start Installer_Sync "HOL-Library.List_Lexorder"
begin

text \<open>
  The server before its first request: the environment (\<open>src/server/internal/config/config.go\<close>) with the parts of
  \<open>strconv\<close> and \<open>time\<close> that read it, the schema migrations (\<open>db/migrate.go\<close>), the first account
  (\<open>bootstrap/bootstrap.go\<close>) and what \<open>main.go\<close> and \<open>api/router.go\<close> make of the configuration. \<open>f64\<close> is the
  rounding of a rational number to a 64-bit float, as in \<open>Relay_Pool\<close>.
\<close>

subsection \<open>\<open>time.ParseDuration\<close> and \<open>strconv.ParseBool\<close>\<close>

text \<open>\<open>leadingInt\<close>: the digits at the front and the rest; \<open>None\<close> when the number exceeds \<open>2^63\<close>.\<close>

fun leadingInt :: "nat \<Rightarrow> string \<Rightarrow> (nat \<times> string) option" where
  "leadingInt x [] = Some (x, [])"
| "leadingInt x (c # s) =
     (case char_digit c of
        None \<Rightarrow> Some (x, c # s)
      | Some d \<Rightarrow> if x > 2 ^ 63 div 10 \<or> x * 10 + d > 2 ^ 63 then None else leadingInt (x * 10 + d) s)"

text \<open>\<open>leadingFraction\<close>: digits that no longer fit are skipped. The second component is the scale.\<close>

fun leadingFraction :: "bool \<Rightarrow> nat \<Rightarrow> nat \<Rightarrow> string \<Rightarrow> nat \<times> nat \<times> string" where
  "leadingFraction over x scale [] = (x, scale, [])"
| "leadingFraction over x scale (c # s) =
     (case char_digit c of
        None \<Rightarrow> (x, scale, c # s)
      | Some d \<Rightarrow> if over \<or> x > (2 ^ 63 - 1) div 10 \<or> x * 10 + d > 2 ^ 63 then leadingFraction True x scale s
                  else leadingFraction False (x * 10 + d) (scale * 10) s)"

text \<open>\<open>unitMap\<close>, with both spellings of the micro sign in UTF-8.\<close>

definition unit_ns :: "string \<Rightarrow> nat option" where
  "unit_ns u =
     (if u = ''ns'' then Some 1
      else if u = ''us'' \<or> u = [char_of (194 :: nat), char_of (181 :: nat), CHR ''s''] \<or> u = [char_of (206 :: nat), char_of (188 :: nat), CHR ''s'']
        then Some 1000
      else if u = ''ms'' then Some 1000000
      else if u = ''s'' then Some 1000000000
      else if u = ''m'' then Some 60000000000
      else if u = ''h'' then Some 3600000000000
      else None)"

definition unit_char :: "char \<Rightarrow> bool" where
  "unit_char c \<longleftrightarrow> c \<noteq> CHR ''.'' \<and> char_digit c = None"

text \<open>One number with its unit: its nanoseconds and the rest of the string.\<close>

definition dur_item :: "(rat \<Rightarrow> rat) \<Rightarrow> string \<Rightarrow> (nat \<times> string) option" where
  "dur_item f64 s =
     (if s = [] \<or> unit_char (hd s) then None
      else case leadingInt 0 s of None \<Rightarrow> None
      | Some (v, s1) \<Rightarrow>
          (let dot = (s1 \<noteq> [] \<and> hd s1 = CHR ''.'');
               (f, scale, s2) = (if dot then leadingFraction False 0 1 (tl s1) else (0, 1, s1));
               pre = (s1 \<noteq> s); post = (dot \<and> s2 \<noteq> tl s1);
               u = takeWhile unit_char s2; s3 = dropWhile unit_char s2
           in if \<not> pre \<and> \<not> post \<or> u = [] then None
              else case unit_ns u of None \<Rightarrow> None
              | Some ns \<Rightarrow>
                  if v > 2 ^ 63 div ns then None
                  else let w = v * ns + (if f > 0 then nat \<lfloor>f64 (f64 (of_nat f) * f64 (of_nat ns / of_nat scale))\<rfloor> else 0)
                       in if f > 0 \<and> w > 2 ^ 63 then None else Some (w, s3)))"

lemma leadingInt_length: "leadingInt x s = Some (v, r) \<Longrightarrow> length r \<le> length s"
  by (induction x s rule: leadingInt.induct) (auto split: option.splits if_splits)

lemma leadingFraction_length: "leadingFraction ov x sc s = (f, sc', r) \<Longrightarrow> length r \<le> length s"
  by (induction ov x sc s rule: leadingFraction.induct) (auto split: option.splits if_splits)

lemma dropWhile_shorter: "takeWhile P s \<noteq> [] \<Longrightarrow> length (dropWhile P s) < length s"
proof -
  have "length (takeWhile P s @ dropWhile P s) = length s" by (simp only: takeWhile_dropWhile_id)
  then show "takeWhile P s \<noteq> [] \<Longrightarrow> ?thesis" by (cases "takeWhile P s") auto
qed

lemma dur_item_shorter: "dur_item f64 s = Some (w, r) \<Longrightarrow> length r < length s"
proof -
  assume d: "dur_item f64 s = Some (w, r)"
  then obtain v s1 where l: "leadingInt 0 s = Some (v, s1)" unfolding dur_item_def by (auto split: option.splits if_splits)
  let ?dot = "s1 \<noteq> [] \<and> hd s1 = CHR ''.''"
  obtain f sc s2 where f: "(if ?dot then leadingFraction False 0 1 (tl s1) else (0, 1, s1)) = (f, sc, s2)" by (metis prod_cases3)
  have "length s2 \<le> length s1"
  proof (cases ?dot)
    case True
    then show ?thesis using f leadingFraction_length [of False 0 1 "tl s1" f sc s2] by (cases s1) auto
  next
    case False
    then show ?thesis using f by (auto split: if_splits)
  qed
  moreover have "takeWhile unit_char s2 \<noteq> [] \<and> r = dropWhile unit_char s2"
    using d unfolding dur_item_def l option.case prod.case Let_def f by (auto split: option.splits if_splits)
  ultimately show ?thesis using leadingInt_length [OF l] dropWhile_shorter [of unit_char s2] by auto
qed

text \<open>The sum is an unsigned 64-bit word.\<close>

function dur_loop :: "(rat \<Rightarrow> rat) \<Rightarrow> nat \<Rightarrow> string \<Rightarrow> nat option" where
  "dur_loop f64 d s =
     (if s = [] then Some d
      else case dur_item f64 s of None \<Rightarrow> None
      | Some (w, r) \<Rightarrow> if (d + w) mod 2 ^ 64 > 2 ^ 63 then None else dur_loop f64 ((d + w) mod 2 ^ 64) r)"
  by pat_completeness auto
termination
  by (relation "measure (\<lambda>(f64, d, s). length s)") (auto dest: dur_item_shorter)

declare dur_loop.simps [simp del]

definition ParseDuration :: "(rat \<Rightarrow> rat) \<Rightarrow> string \<Rightarrow> duration option" where
  "ParseDuration f64 s =
     (let neg = (s \<noteq> [] \<and> hd s = CHR ''-'');
          b = (if s \<noteq> [] \<and> (hd s = CHR ''-'' \<or> hd s = CHR ''+'') then tl s else s)
      in if b = ''0'' then Some 0
         else if b = [] then None
         else case dur_loop f64 0 b of None \<Rightarrow> None
         | Some d \<Rightarrow> if neg then Some (- int d) else if d > 2 ^ 63 - 1 then None else Some (int d))"

definition ParseBool :: "string \<Rightarrow> bool option" where
  "ParseBool s =
     (if s \<in> {''1'', ''t'', ''T'', ''true'', ''TRUE'', ''True''} then Some True
      else if s \<in> {''0'', ''f'', ''F'', ''false'', ''FALSE'', ''False''} then Some False
      else None)"

subsection \<open>The configuration\<close>

text \<open>\<open>os.Getenv\<close> gives the empty string for a variable that is not set.\<close>

type_synonym environment = "string \<Rightarrow> string"

definition env :: "environment \<Rightarrow> string \<Rightarrow> string \<Rightarrow> string" where
  "env E k d = (if E k \<noteq> [] then E k else d)"

definition envDur :: "(rat \<Rightarrow> rat) \<Rightarrow> environment \<Rightarrow> string \<Rightarrow> duration \<Rightarrow> duration" where
  "envDur f64 E k d = (if E k \<noteq> [] then (case ParseDuration f64 (E k) of Some p \<Rightarrow> p | None \<Rightarrow> d) else d)"

definition envInt :: "environment \<Rightarrow> string \<Rightarrow> int \<Rightarrow> int" where
  "envInt E k d = (if E k \<noteq> [] \<and> snd (Atoi (E k)) then fst (Atoi (E k)) else d)"

definition envList :: "environment \<Rightarrow> string \<Rightarrow> string list" where
  "envList E k = (if E k = [] then [] else filter (\<lambda>s. s \<noteq> []) (map TrimSpace (split_at CHR '','' (E k))))"

definition envBool :: "environment \<Rightarrow> string \<Rightarrow> bool \<Rightarrow> bool" where
  "envBool E k d = (if E k \<noteq> [] then (case ParseBool (E k) of Some b \<Rightarrow> b | None \<Rightarrow> d) else d)"

record embedded_config =
  RTVEmbedded :: bool
  RTVStreamEndpoint :: string
  RTVHostAddr :: string
  RTVWTAddr :: string
  RTVWTPublicPort :: string
  RTVACMEDomain :: string
  RTVACMEEmail :: string
  RTVACMEDir :: string
  RTVACMEStaging :: bool
  AlidnsKey :: string
  AlidnsSecret :: string
  RTVCertFile :: string
  RTVKeyFile :: string
  RTVInsecureTLS :: bool
  RTVWSOrigins :: "string list"
  RTVSigningKey :: string
  RTVRelayAllowlist :: "string list"

record Config = embedded_config +
  ListenAddr :: string
  DatabaseURL :: string
  JWTSecret :: string
  AdminEmail :: string
  AdminPassword :: string
  HeartbeatTimeout :: duration
  EnrollTokenTTL :: duration
  MaxClustersPerUser :: int
  cfg_ShellPerNode :: int
  cfg_ShellIdleTimeout :: duration
  cfg_ShellMaxLifetime :: duration
  cfg_DesktopPerNode :: int
  cfg_DesktopIdleTimeout :: duration
  InstallerSyncRepo :: string
  InstallerSyncInterval :: duration
  GitHubToken :: string

text \<open>The fields that no environment variable fills keep their zero value.\<close>

definition Load_fields :: "(rat \<Rightarrow> rat) \<Rightarrow> environment \<Rightarrow> Config" where
  "Load_fields f64 E = \<lparr>
     RTVEmbedded = envBool E ''XNC_RTV_EMBEDDED'' False,
     RTVStreamEndpoint = env E ''XNC_RTV_ENDPOINT'' [],
     RTVHostAddr = env E ''XNC_RTV_HOST_ADDR'' '':4433'',
     RTVWTAddr = env E ''XNC_RTV_WT_ADDR'' '':443'',
     RTVWTPublicPort = E ''XNC_RTV_WT_PORT'',
     RTVACMEDomain = [], RTVACMEEmail = [], RTVACMEDir = [], RTVACMEStaging = False, AlidnsKey = [], AlidnsSecret = [],
     RTVCertFile = E ''XNC_RTV_CERT_FILE'',
     RTVKeyFile = E ''XNC_RTV_KEY_FILE'',
     RTVInsecureTLS = envBool E ''XNC_RTV_INSECURE_TLS'' False,
     RTVWSOrigins = envList E ''XNC_RTV_WS_ORIGINS'',
     RTVSigningKey = E ''XNC_RTV_SIGNING_KEY'',
     RTVRelayAllowlist = envList E ''XNC_RTV_RELAY_ALLOWLIST'',
     ListenAddr = env E ''XNC_LISTEN'' '':8080'',
     DatabaseURL = E ''XNC_DATABASE_URL'',
     JWTSecret = E ''XNC_JWT_SECRET'',
     AdminEmail = E ''XNC_ADMIN_EMAIL'',
     AdminPassword = E ''XNC_ADMIN_PASSWORD'',
     HeartbeatTimeout = envDur f64 E ''XNC_HEARTBEAT_TIMEOUT'' (90 * Second),
     EnrollTokenTTL = envDur f64 E ''XNC_ENROLL_TOKEN_TTL'' (30 * Minute),
     MaxClustersPerUser = envInt E ''XNC_MAX_CLUSTERS_PER_USER'' 20,
     cfg_ShellPerNode = envInt E ''XNC_SHELL_PER_NODE'' 10,
     cfg_ShellIdleTimeout = envDur f64 E ''XNC_SHELL_IDLE'' (30 * Minute),
     cfg_ShellMaxLifetime = envDur f64 E ''XNC_SHELL_MAX'' (8 * Hour),
     cfg_DesktopPerNode = envInt E ''XNC_DESKTOP_PER_NODE'' 8,
     cfg_DesktopIdleTimeout = envDur f64 E ''XNC_DESKTOP_IDLE'' (5 * Minute),
     InstallerSyncRepo = env E ''XNC_INSTALLER_SYNC_REPO'' ''xworks-studio/xnc'',
     InstallerSyncInterval = envDur f64 E ''XNC_INSTALLER_SYNC_INTERVAL'' (5 * Minute),
     GitHubToken = E ''XNC_GITHUB_TOKEN''\<rparr>"

definition Load :: "(rat \<Rightarrow> rat) \<Rightarrow> environment \<Rightarrow> string + Config" where
  "Load f64 E =
     (let c = Load_fields f64 E in
      if DatabaseURL c = [] then Inl ''XNC_DATABASE_URL is required''
      else if length (JWTSecret c) < 32 then Inl ''XNC_JWT_SECRET must be at least 32 bytes''
      else Inr (if InstallerSyncInterval c < Minute then c\<lparr>InstallerSyncInterval := Minute\<rparr> else c))"

subsection \<open>What the server makes of it\<close>

text \<open>\<open>newRouterWithSession\<close>: the limits of the session manager, the signer (the environment's key, or a generated
  one), and the certificate of the embedded relay. \<open>rtv.Start\<close> opens the legs that have an address.\<close>

definition router_manager :: "Config \<Rightarrow> Manager" where
  "router_manager c = manager_New\<lparr>ShellPerNode := cfg_ShellPerNode c, ShellIdleTimeout := cfg_ShellIdleTimeout c,
     ShellMaxLifetime := cfg_ShellMaxLifetime c, DesktopPerNode := cfg_DesktopPerNode c, DesktopIdleTimeout := cfg_DesktopIdleTimeout c\<rparr>"

definition router_signer :: "Config \<Rightarrow> bytes option \<Rightarrow> Signer option" where
  "router_signer c generated =
     (case (if RTVSigningKey c = [] then None else case NewSignerFromHex (RTVSigningKey c) of Inl _ \<Rightarrow> None | Inr s \<Rightarrow> Some s) of
        Some s \<Rightarrow> Some s
      | None \<Rightarrow> map_option NewSignerFromKey generated)"

datatype tls_source = AcmeCert string string | CertPair string string | DevSelfSigned

definition router_tls :: "Config \<Rightarrow> (string \<times> string) option \<Rightarrow> tls_source option" where
  "router_tls c acme =
     (if \<not> RTVEmbedded c then None
      else if RTVACMEDomain c \<noteq> [] then (case acme of None \<Rightarrow> Some DevSelfSigned | Some (cert, key) \<Rightarrow> Some (AcmeCert cert key))
      else if RTVCertFile c \<noteq> [] \<and> RTVKeyFile c \<noteq> [] then Some (CertPair (RTVCertFile c) (RTVKeyFile c))
      else Some DevSelfSigned)"

datatype rtv_leg = HostLeg string | WTLeg string

definition rtv_legs :: "Config \<Rightarrow> rtv_leg list" where
  "rtv_legs c = (if \<not> RTVEmbedded c then []
     else (if RTVHostAddr c \<noteq> [] then [HostLeg (RTVHostAddr c)] else []) @ (if RTVWTAddr c \<noteq> [] then [WTLeg (RTVWTAddr c)] else []))"

definition router_api_cfg :: "(string \<Rightarrow> string) \<Rightarrow> Config \<Rightarrow> api_cfg" where
  "router_api_cfg quote c = \<lparr>cf_MaxClusters = MaxClustersPerUser c, cf_EnrollTTL = EnrollTokenTTL c, cf_Quote = quote\<rparr>"

text \<open>\<open>main\<close> starts the installer synchronisation when a repository is configured.\<close>

definition main_syncer :: "Config \<Rightarrow> (string \<times> duration) option" where
  "main_syncer c = (if InstallerSyncRepo c \<noteq> [] then Some (InstallerSyncRepo c, InstallerSyncInterval c) else None)"

definition probe_addr :: "string \<Rightarrow> string" where
  "probe_addr a = ''http://'' @ (if a = '':8080'' then ''127.0.0.1:8080'' else a) @ ''/api/health''"

subsection \<open>The first account\<close>

text \<open>\<open>INSERT INTO cluster_members SELECT ... WHERE name='default'\<close>: one row for each such cluster.\<close>

fun add_owners :: "uuid \<Rightarrow> uuid list \<Rightarrow> db \<Rightarrow> db_error + db" where
  "add_owners u [] d = Inr d"
| "add_owners u (c # cs) d = (case AddMember c u ''owner'' d of Inl e \<Rightarrow> Inl e | Inr d' \<Rightarrow> add_owners u cs d')"

definition default_clusters :: "db \<Rightarrow> uuid list" where
  "default_clusters d = map fst (filter (\<lambda>(i, c). Cluster.cl_Name c = ''default'') (db_clusters d))"

text \<open>The three inserts are one transaction: an error leaves the database as it was.\<close>

definition EnsureAdmin :: "request \<Rightarrow> Config \<Rightarrow> db \<Rightarrow> string + db" where
  "EnsureAdmin q c d =
     (if rq_fails q ''CountUsers'' then Inl ''database''
      else if CountUsers d > 0 then Inr d
      else if AdminEmail c = [] \<or> AdminPassword c = [] then Inl ''XNC_ADMIN_EMAIL/XNC_ADMIN_PASSWORD required for first boot''
      else case rq_bcrypt q (AdminPassword c) of None \<Rightarrow> Inl ''bcrypt''
      | Some h \<Rightarrow>
          if rq_fails q ''Begin'' then Inl ''database''
          else (case wr q ''CreateUser'' (CreateUser (rq_new q 0) (AdminEmail c) ''Admin'' h True d) of Inl e \<Rightarrow> Inl ''database''
          | Inr d1 \<Rightarrow>
              (case wr q ''CreateCluster'' (CreateCluster (rq_new q 1) ''default'' (rq_new q 0) True d1) of Inl e \<Rightarrow> Inl ''database''
              | Inr d2 \<Rightarrow>
                  (case wr q ''AddMember'' (add_owners (rq_new q 0) (default_clusters d2) d2) of Inl e \<Rightarrow> Inl ''database''
                  | Inr d3 \<Rightarrow> if rq_fails q ''Commit'' then Inl ''database'' else Inr d3))))"

subsection \<open>Migrations\<close>

text \<open>A migration file: its name and what its statements do to the schema (\<open>None\<close>: they fail). The database
  remembers the versions that are in it. The test \<open>fails\<close> says which of the other statements fail for a file.\<close>

record 's migration =
  mi_name :: string
  mi_sql :: "'s \<Rightarrow> 's option"

record 's schema_db =
  sd_versions :: "nat list"
  sd_schema :: 's

definition mig_version :: "string \<Rightarrow> nat option" where
  "mig_version name =
     (let b = drop 11 name; ds = takeWhile (\<lambda>c. char_digit c \<noteq> None) b; r = dropWhile (\<lambda>c. char_digit c \<noteq> None) b
      in if \<not> HasPrefix name ''migrations/'' \<or> ds = [] \<or> r = [] \<or> hd r \<noteq> CHR ''_'' then None else decimal_val ds)"

definition name_order :: "string \<Rightarrow> nat list" where
  "name_order s = map of_char s"

fun migrate_files :: "(string \<Rightarrow> string \<Rightarrow> bool) \<Rightarrow> 's migration list \<Rightarrow> 's schema_db \<Rightarrow> bool \<times> 's schema_db" where
  "migrate_files fails [] d = (True, d)"
| "migrate_files fails (m # ms) d =
     (case mig_version (mi_name m) of
        None \<Rightarrow> (False, d)
      | Some v \<Rightarrow>
          if fails ''SELECT'' (mi_name m) then (False, d)
          else if v \<in> set (sd_versions d) then migrate_files fails ms d
          else if fails ''Begin'' (mi_name m) then (False, d)
          else (case mi_sql m (sd_schema d) of
              None \<Rightarrow> (False, d)
            | Some s \<Rightarrow>
                if fails ''INSERT'' (mi_name m) \<or> fails ''Commit'' (mi_name m) then (False, d)
                else migrate_files fails ms \<lparr>sd_versions = sd_versions d @ [v], sd_schema = s\<rparr>))"

text \<open>\<open>sort.Strings\<close> orders the file names bytewise.\<close>

definition Migrate :: "(string \<Rightarrow> string \<Rightarrow> bool) \<Rightarrow> 's migration list \<Rightarrow> 's schema_db \<Rightarrow> bool \<times> 's schema_db" where
  "Migrate fails files d =
     (if fails ''CREATE TABLE'' [] then (False, d) else migrate_files fails (sort_key (\<lambda>m. name_order (mi_name m)) files) d)"

subsection \<open>Durations and the environment\<close>

lemma dur_loop_range: "dur_loop f64 d s = Some r \<Longrightarrow> d \<le> 2 ^ 63 \<Longrightarrow> r \<le> 2 ^ 63"
proof (induction f64 d s rule: dur_loop.induct)
  case (1 f64 d s)
  show ?case using 1(2,3) 1(1) unfolding dur_loop.simps [of f64 d s]
    by (auto split: if_splits option.splits)
qed

definition int64 :: "int \<Rightarrow> bool" where
  "int64 n \<longleftrightarrow> - (2 ^ 63) \<le> n \<and> n < 2 ^ 63"

lemma ParseDuration_range: "ParseDuration f64 s = Some d \<Longrightarrow> int64 d"
  using dur_loop_range [of f64 0] unfolding int64_def by (fastforce simp: ParseDuration_def Let_def split: if_splits option.splits)

lemma envDur_range: "int64 d \<Longrightarrow> int64 (envDur f64 E k d)"
  unfolding envDur_def by (auto split: option.splits dest: ParseDuration_range)

lemma Atoi_int64: "int64 (fst (Atoi s))"
  by (auto simp: Atoi_def Let_def int64_def split: option.splits)

lemma envInt_range: "int64 d \<Longrightarrow> int64 (envInt E k d)"
  by (simp add: envInt_def Atoi_int64)

lemma Load_Inr:
  assumes "Load f64 E = Inr c"
  shows "c = (Load_fields f64 E)\<lparr>InstallerSyncInterval := max Minute (InstallerSyncInterval (Load_fields f64 E))\<rparr>"
    "DatabaseURL c \<noteq> []" "32 \<le> length (JWTSecret c)"
  using assms by (auto simp: Load_def Let_def max_def split: if_splits)

text \<open>A configuration that loads is usable: it names a database, the signing secret has at least 32 bytes, the
  installer is polled at most once a minute, and every number fits its Go type.\<close>

theorem config_loaded:
  assumes "Load f64 E = Inr c"
  shows "DatabaseURL c = E ''XNC_DATABASE_URL'' \<and> DatabaseURL c \<noteq> [] \<and> 32 \<le> length (JWTSecret c) \<and> Minute \<le> InstallerSyncInterval c
     \<and> (\<forall>n \<in> {HeartbeatTimeout c, EnrollTokenTTL c, cfg_ShellIdleTimeout c, cfg_ShellMaxLifetime c, cfg_DesktopIdleTimeout c,
          InstallerSyncInterval c, MaxClustersPerUser c, cfg_ShellPerNode c, cfg_DesktopPerNode c}. int64 n)
     \<and> (\<forall>s \<in> set (RTVWSOrigins c) \<union> set (RTVRelayAllowlist c). s \<noteq> [])"
proof -
  note l = Load_Inr [OF assms]
  have e: "s \<noteq> []" if "s \<in> set (envList E k)" for s k
    using that by (auto simp: envList_def split: if_splits)
  have f: "DatabaseURL c = E ''XNC_DATABASE_URL''" "Minute \<le> InstallerSyncInterval c"
    unfolding l(1) by (simp_all add: Load_fields_def)
  have k: "int64 (90 * Second)" "int64 (30 * Minute)" "int64 (8 * Hour)" "int64 (5 * Minute)" "int64 Minute" "int64 20" "int64 10" "int64 8"
    by (simp_all add: int64_def)
  have n: "\<forall>n \<in> {HeartbeatTimeout c, EnrollTokenTTL c, cfg_ShellIdleTimeout c, cfg_ShellMaxLifetime c, cfg_DesktopIdleTimeout c,
          InstallerSyncInterval c, MaxClustersPerUser c, cfg_ShellPerNode c, cfg_DesktopPerNode c}. int64 n"
    unfolding l(1) by (simp add: Load_fields_def envInt_range envDur_range k [simplified] max_def)
  have o: "\<forall>s \<in> set (RTVWSOrigins c) \<union> set (RTVRelayAllowlist c). s \<noteq> []"
    unfolding l(1) by (auto simp: Load_fields_def dest: e)
  show ?thesis using f l(2,3) n o by blast
qed


subsection \<open>The first start\<close>

lemma table_empty: "(\<And>k. tget t k = None) \<Longrightarrow> t = []"
proof (cases t)
  case (Cons x xs)
  assume "\<And>k. tget t k = None"
  then have "tget t (fst x) = None" .
  then show "t = []" by (simp add: Cons tget_def)
qed simp

lemma no_users:
  assumes "db_wf d" "CountUsers d = 0"
  shows "db_users d = []" "db_clusters d = []" "db_members d = []"
proof -
  show u: "db_users d = []" using assms(2) by (simp add: CountUsers_def)
  show c: "db_clusters d = []"
  proof (rule table_empty)
    show "tget (db_clusters d) k = None" for k
      using db_wf_refs(2) [OF assms(1), of k] u by (cases "tget (db_clusters d) k") auto
  qed
  show "db_members d = []"
  proof (rule table_empty)
    show "tget (db_members d) k = None" for k
      using db_wf_refs(1) [OF assms(1), of k] u by (cases "tget (db_members d) k") (auto simp: member_ok_def)
  qed
qed

definition first_user :: "Config \<Rightarrow> string \<Rightarrow> User" where
  "first_user c h = \<lparr>usr_Email = AdminEmail c, usr_DisplayName = ''Admin'', usr_PasswordHash = h, usr_IsAdmin = True, usr_LastLoginAt = None\<rparr>"

lemma EnsureAdmin_first:
  assumes "db_wf d" "CountUsers d = 0" "EnsureAdmin q c d = Inr d'"
  obtains h where "rq_bcrypt q (AdminPassword c) = Some h" "db_wf d'"
    "db_users d' = [(rq_new q 0, first_user c h)]"
    "db_clusters d' = [(rq_new q 1, \<lparr>Cluster.cl_Name = ''default'', cl_OwnerID = rq_new q 0, cl_DeletedAt = None, cl_Personal = True\<rparr>)]"
    "db_members d' = [((rq_new q 1, rq_new q 0), ''owner'')]"
proof -
  note e = no_users [OF assms(1,2)]
  obtain h d1 d2 where h: "rq_bcrypt q (AdminPassword c) = Some h"
    and s: "CreateUser (rq_new q 0) (AdminEmail c) ''Admin'' h True d = Inr d1"
      "CreateCluster (rq_new q 1) ''default'' (rq_new q 0) True d1 = Inr d2"
      "add_owners (rq_new q 0) (default_clusters d2) d2 = Inr d'"
    using assms(2,3) unfolding EnsureAdmin_def by (auto split: if_splits option.splits sum.splits dest!: wr_InrD)
  have wf2: "db_wf d2" using wf_CreateCluster [OF s(2) wf_CreateUser [OF s(1) assms(1)]] .
  have d1: "d1 = d\<lparr>db_users := [(rq_new q 0, first_user c h)]\<rparr>"
    using s(1) e by (auto simp: CreateUser_def Let_def first_user_def split: if_splits)
  have d2: "d2 = d1\<lparr>db_clusters := [(rq_new q 1, \<lparr>Cluster.cl_Name = ''default'', cl_OwnerID = rq_new q 0, cl_DeletedAt = None, cl_Personal = True\<rparr>)]\<rparr>"
    using s(2) e by (auto simp: CreateCluster_def Let_def d1 split: if_splits)
  have dc: "default_clusters d2 = [rq_new q 1]" by (simp add: default_clusters_def d2)
  have a: "AddMember (rq_new q 1) (rq_new q 0) ''owner'' d2 = Inr d'" using s(3) by (simp add: dc split: sum.splits)
  then have d3: "d' = d2\<lparr>db_members := [((rq_new q 1, rq_new q 0), ''owner'')]\<rparr>"
    using e by (auto simp: AddMember_def d2 d1 split: if_splits)
  show thesis using that [OF h wf_AddMember [OF a wf2]] by (simp add: d3 d2 d1)
qed

lemma EnsureAdmin_again:
  assumes "has_admin d" "\<not> rq_fails q ''CountUsers''"
  shows "EnsureAdmin q c d = Inr d"
proof -
  have "db_users d \<noteq> []" using assms(1) by (auto simp: has_admin_def is_admin_def)
  then show ?thesis using assms(2) by (simp add: EnsureAdmin_def CountUsers_def)
qed


subsection \<open>Migrations over many starts\<close>

abbreviation mig_v :: "'s migration \<Rightarrow> nat" where
  "mig_v m \<equiv> the (mig_version (mi_name m))"

text \<open>The reference: all statements in order, once.\<close>

fun run_sql :: "'s migration list \<Rightarrow> 's \<Rightarrow> 's option" where
  "run_sql [] s = Some s"
| "run_sql (m # ms) s = Option.bind (mi_sql m s) (run_sql ms)"

lemma run_sql_append: "run_sql (ms @ ns) s = Option.bind (run_sql ms s) (run_sql ns)"
  by (induction ms arbitrary: s) (auto split: Option.bind_splits)

lemma migrate_skip:
  "list_all (\<lambda>m. mig_version (mi_name m) \<noteq> None \<and> mig_v m \<in> set (sd_versions d)) ms \<Longrightarrow>
   migrate_files fails (ms @ ns) d = (if \<exists>m \<in> set ms. fails ''SELECT'' (mi_name m) then (False, d) else migrate_files fails ns d)"
  by (induction ms) auto

lemma migrate_apply:
  assumes "list_all (\<lambda>m. mig_version (mi_name m) \<noteq> None) ms" "distinct (map mig_v ms)" "set (map mig_v ms) \<inter> set (sd_versions d) = {}"
  shows "\<exists>k s. k \<le> length ms \<and> run_sql (take k ms) (sd_schema d) = Some s
      \<and> snd (migrate_files fails ms d) = \<lparr>sd_versions = sd_versions d @ map mig_v (take k ms), sd_schema = s\<rparr>"
  using assms
proof (induction ms arbitrary: d)
  case Nil
  then show ?case by simp
next
  case (Cons m ms)
  obtain v where v: "mig_version (mi_name m) = Some v" using Cons.prems(1) by auto
  have stay: "?case" if "snd (migrate_files fails (m # ms) d) = d"
    using that by (intro exI [of _ 0] exI [of _ "sd_schema d"]) simp
  show ?case
  proof (cases "fails ''SELECT'' (mi_name m) \<or> fails ''Begin'' (mi_name m) \<or> mi_sql m (sd_schema d) = None
      \<or> fails ''INSERT'' (mi_name m) \<or> fails ''Commit'' (mi_name m)")
    case True
    then show ?thesis using Cons.prems(3) v by (intro stay) (auto split: option.splits)
  next
    case False
    then obtain s where s: "mi_sql m (sd_schema d) = Some s" by (cases "mi_sql m (sd_schema d)") simp_all
    let ?d = "\<lparr>sd_versions = sd_versions d @ [v], sd_schema = s\<rparr>"
    have step: "migrate_files fails (m # ms) d = migrate_files fails ms ?d"
      using False Cons.prems(3) v s by auto
    obtain k s' where "k \<le> length ms" "run_sql (take k ms) s = Some s'"
        "snd (migrate_files fails ms ?d) = \<lparr>sd_versions = sd_versions ?d @ map mig_v (take k ms), sd_schema = s'\<rparr>"
      using Cons.IH [of ?d] Cons.prems v by auto
    then show ?thesis using step s v by (intro exI [of _ "Suc k"] exI [of _ s']) simp
  qed
qed

lemma migrate_all:
  assumes "list_all (\<lambda>m. mig_version (mi_name m) \<noteq> None) ms" "distinct (map mig_v ms)" "set (map mig_v ms) \<inter> set (sd_versions d) = {}"
    "run_sql ms (sd_schema d) = Some s"
  shows "migrate_files (\<lambda>_ _. False) ms d = (True, \<lparr>sd_versions = sd_versions d @ map mig_v ms, sd_schema = s\<rparr>)"
  using assms by (induction ms arbitrary: d) (auto split: Option.bind_splits option.splits)

definition mig_sorted :: "'s migration list \<Rightarrow> 's migration list" where
  "mig_sorted files = sort_key (\<lambda>m. name_order (mi_name m)) files"

text \<open>The database holds a prefix of the migrations.\<close>

definition mig_inv :: "'s migration list \<Rightarrow> 's \<Rightarrow> 's schema_db \<Rightarrow> bool" where
  "mig_inv ms s0 d \<longleftrightarrow> (\<exists>k \<le> length ms. sd_versions d = map mig_v (take k ms) \<and> run_sql (take k ms) s0 = Some (sd_schema d))"

definition mig_numbered :: "'s migration list \<Rightarrow> bool" where
  "mig_numbered files \<longleftrightarrow> list_all (\<lambda>m. mig_version (mi_name m) \<noteq> None) files \<and> distinct (map mig_v files)"

lemma mig_numbered_split:
  assumes "mig_numbered ms" "sd_versions d = map mig_v (take k ms)"
  shows "list_all (\<lambda>m. mig_version (mi_name m) \<noteq> None \<and> mig_v m \<in> set (sd_versions d)) (take k ms)"
    "list_all (\<lambda>m. mig_version (mi_name m) \<noteq> None) (drop k ms)" "distinct (map mig_v (drop k ms))"
    "set (map mig_v (drop k ms)) \<inter> set (sd_versions d) = {}"
proof -
  have all: "list_all (\<lambda>m. mig_version (mi_name m) \<noteq> None) (take k ms @ drop k ms)" "distinct (map mig_v (take k ms @ drop k ms))"
    using assms(1) unfolding mig_numbered_def by simp_all
  show "list_all (\<lambda>m. mig_version (mi_name m) \<noteq> None \<and> mig_v m \<in> set (sd_versions d)) (take k ms)"
    using all(1) unfolding list_all_append by (simp add: list_all_iff assms(2))
  show "list_all (\<lambda>m. mig_version (mi_name m) \<noteq> None) (drop k ms)" using all(1) unfolding list_all_append by blast
  show "distinct (map mig_v (drop k ms))" "set (map mig_v (drop k ms)) \<inter> set (sd_versions d) = {}"
    using all(2) unfolding map_append distinct_append assms(2) by blast+
qed

lemma Migrate_inv:
  assumes "mig_numbered (mig_sorted files)" "mig_inv (mig_sorted files) s0 d"
  shows "mig_inv (mig_sorted files) s0 (snd (Migrate fails files d))"
proof -
  let ?ms = "mig_sorted files"
  obtain k where k: "k \<le> length ?ms" "sd_versions d = map mig_v (take k ?ms)" "run_sql (take k ?ms) s0 = Some (sd_schema d)"
    using assms(2) unfolding mig_inv_def by blast
  note n = mig_numbered_split [OF assms(1) k(2)]
  obtain j s where j: "j \<le> length (drop k ?ms)" "run_sql (take j (drop k ?ms)) (sd_schema d) = Some s"
      "snd (migrate_files fails (drop k ?ms) d) = \<lparr>sd_versions = sd_versions d @ map mig_v (take j (drop k ?ms)), sd_schema = s\<rparr>"
    using migrate_apply [OF n(2,3,4)] by blast
  have t: "take (k + j) ?ms = take k ?ms @ take j (drop k ?ms)" by (simp add: take_add)
  have "mig_inv ?ms s0 (snd (migrate_files fails (drop k ?ms) d))"
    unfolding mig_inv_def using k j by (intro exI [of _ "k + j"]) (simp add: t run_sql_append)
  moreover have "migrate_files fails ?ms d = (if \<exists>m \<in> set (take k ?ms). fails ''SELECT'' (mi_name m) then (False, d) else migrate_files fails (drop k ?ms) d)"
    using migrate_skip [OF n(1), of fails "drop k ?ms"] by simp
  ultimately show ?thesis using assms(2) by (simp add: Migrate_def mig_sorted_def [symmetric])
qed

interpretation starts: inv_machine "\<lambda>_ _. True" "\<lambda>fails d. snd (Migrate fails files d)"
  "\<lambda>d. mig_numbered (mig_sorted files) \<and> mig_inv (mig_sorted files) s0 d" for files :: "'s migration list" and s0
  by unfold_locales (blast intro: Migrate_inv)

text \<open>C29. Every migration runs exactly once, in the order of the file names, however often the server is started and
  whatever fails in between; a start in which nothing fails then brings the schema to the end.\<close>

theorem migrations_once:
  assumes "mig_numbered (mig_sorted files)"
  shows "let d = fold (\<lambda>fails d. snd (Migrate fails files d)) runs \<lparr>sd_versions = [], sd_schema = s0\<rparr> in
     (\<exists>k \<le> length files. sd_versions d = map mig_v (take k (mig_sorted files)) \<and> run_sql (take k (mig_sorted files)) s0 = Some (sd_schema d))
     \<and> (\<forall>s. run_sql (mig_sorted files) s0 = Some s \<longrightarrow>
          Migrate (\<lambda>_ _. False) files d = (True, \<lparr>sd_versions = map mig_v (mig_sorted files), sd_schema = s\<rparr>))"
proof -
  let ?ms = "mig_sorted files"
  define d where "d = fold (\<lambda>fails d. snd (Migrate fails files d)) runs \<lparr>sd_versions = [], sd_schema = s0\<rparr>"
  have "mig_inv ?ms s0 \<lparr>sd_versions = [], sd_schema = s0\<rparr>" unfolding mig_inv_def by (intro exI [of _ 0]) simp
  then have i: "mig_inv ?ms s0 d" unfolding d_def using starts.run_inv [of files s0 _ runs] assms by simp
  then obtain k where k: "k \<le> length ?ms" "sd_versions d = map mig_v (take k ?ms)" "run_sql (take k ?ms) s0 = Some (sd_schema d)"
    unfolding mig_inv_def by blast
  note n = mig_numbered_split [OF assms k(2)]
  have "Migrate (\<lambda>_ _. False) files d = (True, \<lparr>sd_versions = map mig_v ?ms, sd_schema = s\<rparr>)" if s: "run_sql ?ms s0 = Some s" for s
  proof -
    have "run_sql (drop k ?ms) (sd_schema d) = Some s"
      using run_sql_append [of "take k ?ms" "drop k ?ms" s0] s k(3) by simp
    then have "migrate_files (\<lambda>_ _. False) (drop k ?ms) d = (True, \<lparr>sd_versions = sd_versions d @ map mig_v (drop k ?ms), sd_schema = s\<rparr>)"
      by (rule migrate_all [OF n(2,3,4)])
    moreover have "map mig_v (take k ?ms) @ map mig_v (drop k ?ms) = map mig_v ?ms" by (metis append_take_drop_id map_append)
    ultimately show ?thesis
      using migrate_skip [OF n(1), of "\<lambda>_ _. False" "drop k ?ms"] by (simp add: Migrate_def mig_sorted_def [symmetric] k(2))
  qed
  moreover have "length ?ms = length files" by (simp add: mig_sorted_def)
  ultimately show ?thesis unfolding Let_def d_def [symmetric] using k by metis
qed

subsection \<open>Witnesses\<close>

definition demo_environ :: environment where
  "demo_environ k =
     (if k = ''XNC_DATABASE_URL'' then ''postgres:''
      else if k = ''XNC_JWT_SECRET'' then replicate 32 (CHR ''k'')
      else if k = ''XNC_ADMIN_EMAIL'' then ''root@x''
      else if k = ''XNC_ADMIN_PASSWORD'' then ''secret''
      else if k = ''XNC_RTV_EMBEDDED'' then ''true''
      else if k = ''XNC_ACME_DOMAIN'' then ''xnc.app''
      else if k = ''XNC_INSTALLER_SYNC_INTERVAL'' then ''10s''
      else [])"

definition demo_config :: Config where
  "demo_config = (Load_fields (\<lambda>x. x) demo_environ)\<lparr>InstallerSyncInterval := Minute\<rparr>"

lemma demo_ten_seconds: "ParseDuration f64 ''10s'' = Some (10 * Second)"
proof -
  have c: "char_digit (CHR ''1'') = Some 1" "char_digit (CHR ''0'') = Some 0" "char_digit (CHR ''s'') = None" by code_simp+
  have "leadingInt 0 ''10s'' = Some (10, ''s'')" by (simp add: c)
  then have "dur_item f64 ''10s'' = Some (10000000000, [])"
    using c by (simp add: dur_item_def unit_char_def unit_ns_def)
  then show ?thesis
    unfolding ParseDuration_def Let_def by (simp add: dur_loop.simps [of f64 0 "''10s''"] dur_loop.simps [of f64 _ "[]"])
qed

lemma demo_environ_sel:
  "demo_environ ''XNC_DATABASE_URL'' = ''postgres:''" "demo_environ ''XNC_JWT_SECRET'' = replicate 32 (CHR ''k'')"
  "demo_environ ''XNC_INSTALLER_SYNC_INTERVAL'' = ''10s''" "demo_environ ''XNC_INSTALLER_SYNC_REPO'' = []"
  "demo_environ ''XNC_RTV_HOST_ADDR'' = []" "demo_environ ''XNC_ACME_DOMAIN'' = ''xnc.app''" "demo_environ ''XNC_RTV_EMBEDDED'' = ''true''"
  "demo_environ ''XNC_ADMIN_EMAIL'' = ''root@x''" "demo_environ ''XNC_ADMIN_PASSWORD'' = ''secret''"
  by (simp_all add: demo_environ_def)

lemma demo_load: "Load (\<lambda>x. x) demo_environ = Inr demo_config"
proof -
  have "DatabaseURL (Load_fields (\<lambda>x. x) demo_environ) \<noteq> []" "length (JWTSecret (Load_fields (\<lambda>x. x) demo_environ)) = 32"
      "InstallerSyncInterval (Load_fields (\<lambda>x. x) demo_environ) = 10 * Second"
    by (simp_all add: Load_fields_def demo_environ_sel envDur_def demo_ten_seconds)
  then show ?thesis by (simp add: Load_def Let_def demo_config_def)
qed

theorem config_loaded_witness: "Minute \<le> InstallerSyncInterval demo_config \<and> 32 \<le> length (JWTSecret demo_config)"
  using config_loaded [OF demo_load] by blast


lemma demo_boot: "\<exists>d. EnsureAdmin demo_rq demo_config db_empty = Inr d"
  by (simp add: EnsureAdmin_def demo_rq_def CountUsers_def db_empty_def demo_config_def Load_fields_def demo_environ_sel wr_def CreateUser_def
      CreateCluster_def default_clusters_def AddMember_def validRoles_def clash_def Let_def)


text \<open>Two migrations given in the wrong order; the first start fails at the commit of the second one.\<close>

definition demo_migrations :: "nat migration list" where
  "demo_migrations = [\<lparr>mi_name = ''migrations/0002_b.sql'', mi_sql = (\<lambda>s. Some (s * 10))\<rparr>,
     \<lparr>mi_name = ''migrations/0001_a.sql'', mi_sql = (\<lambda>s. Some (s + 1))\<rparr>]"

theorem migrations_once_witness:
  "Migrate (\<lambda>_ _. False) demo_migrations
     (snd (Migrate (\<lambda>st f. st = ''Commit'' \<and> f = ''migrations/0002_b.sql'') demo_migrations \<lparr>sd_versions = [], sd_schema = 0\<rparr>))
   = (True, \<lparr>sd_versions = [1, 2], sd_schema = 10\<rparr>)"
proof -
  have s: "mig_sorted demo_migrations = rev demo_migrations"
    unfolding mig_sorted_def demo_migrations_def by (simp add: name_order_def)
  have v: "mig_version ''migrations/0001_a.sql'' = Some 1" "mig_version ''migrations/0002_b.sql'' = Some 2" by code_simp+
  have n: "mig_numbered (mig_sorted demo_migrations)" unfolding mig_numbered_def s by (simp add: demo_migrations_def v)
  have r: "run_sql (mig_sorted demo_migrations) 0 = Some 10" unfolding s by (simp add: demo_migrations_def)
  have m: "map mig_v (mig_sorted demo_migrations) = [1, 2]" unfolding s by (simp add: demo_migrations_def v)
  show ?thesis
    using migrations_once [OF n, of "[\<lambda>st f. st = ''Commit'' \<and> f = ''migrations/0002_b.sql'']" 0] r unfolding Let_def m by simp
qed

end
