(* ===== verification/Admin_Api.thy ===== *)
theory Admin_Api
  imports Bootstrap "HOL-Library.Multiset"
begin

text \<open>
  The administrator's end points and the secure attention sequence (\<open>src/server/internal/api\<close>): the audit query
  (\<open>audit_handlers.go\<close>, \<open>db/sqlc/audit_query.sql.go\<close>), relay administration (\<open>relay_admin_handlers.go\<close>) on the
  pool of \<open>Relay_Pool\<close>, and the calls that wait for an agent's answer (\<open>sas_handlers.go\<close>) as interleaved steps of
  the HTTP handlers and the agents' read loops. \<open>rfc\<close> is \<open>time.Parse\<close> for RFC 3339, \<open>arrange\<close> the order in which the
  database returns rows (newest first; it is free to choose between rows of the same instant).
\<close>

subsection \<open>The audit query\<close>

record audit_query =
  aq_NodeID :: "uuid option"
  aq_UserID :: "uuid option"
  aq_Action :: "string option"
  aq_Since :: "go_time option"
  aq_Offset :: int
  aq_Limit :: int

record audit_row =
  ad_Log :: AuditLog
  ad_UserEmail :: "string option"
  ad_NodeName :: "string option"

definition audit_match :: "audit_query \<Rightarrow> AuditLog \<Rightarrow> bool" where
  "audit_match p a \<longleftrightarrow> (aq_NodeID p = None \<or> au_NodeID a = aq_NodeID p) \<and> (aq_UserID p = None \<or> au_UserID a = aq_UserID p)
     \<and> (aq_Action p = None \<or> aq_Action p = Some (au_Action a)) \<and> (case aq_Since p of None \<Rightarrow> True | Some t \<Rightarrow> t \<le> au_CreatedAt a)"

definition join_names :: "db \<Rightarrow> AuditLog \<Rightarrow> audit_row" where
  "join_names d a = \<lparr>ad_Log = a,
     ad_UserEmail = Option.bind (au_UserID a) (\<lambda>u. map_option usr_Email (tget (db_users d) u)),
     ad_NodeName = Option.bind (au_NodeID a) (\<lambda>n. map_option nd_Name (tget (db_nodes d) n))\<rparr>"

text \<open>A negative \<open>OFFSET\<close> or \<open>LIMIT\<close> is an error of the database.\<close>

definition QueryAuditLog :: "(AuditLog list \<Rightarrow> AuditLog list) \<Rightarrow> audit_query \<Rightarrow> db \<Rightarrow> audit_row list option" where
  "QueryAuditLog arrange p d =
     (if aq_Offset p < 0 \<or> aq_Limit p < 0 then None
      else Some (map (join_names d) (take (nat (aq_Limit p)) (drop (nat (aq_Offset p)) (arrange (filter (audit_match p) (db_audit d)))))))"

definition auditDefaultLimit :: int where "auditDefaultLimit = 50"
definition auditMaxLimit :: int where "auditMaxLimit = 200"

text \<open>\<open>time.Duration\<close> arithmetic wraps around at 64 bits.\<close>

definition to_int64 :: "int \<Rightarrow> int" where
  "to_int64 n = sint (word_of_int n :: 64 word)"

definition days_back :: "string \<Rightarrow> int option" where
  "days_back s =
     (if HasSuffix s ''d'' \<and> snd (Atoi (take (length s - 1) s)) \<and> fst (Atoi (take (length s - 1) s)) > 0
      then Some (to_int64 (- fst (Atoi (take (length s - 1) s)) * (24 * Hour))) else None)"

definition parseAuditSince :: "(rat \<Rightarrow> rat) \<Rightarrow> (string \<Rightarrow> go_time option) \<Rightarrow> go_time \<Rightarrow> string \<Rightarrow> go_time option" where
  "parseAuditSince f64 rfc now s =
     (case days_back s of
        Some dt \<Rightarrow> Some (now + dt)
      | None \<Rightarrow> (case ParseDuration f64 s of
          Some dt \<Rightarrow> if dt \<le> 0 then None else Some (now - dt)
        | None \<Rightarrow> rfc s))"

definition bad_param :: "string \<Rightarrow> api_error" where
  "bad_param s = proto_Err 400 ''INTERNAL'' s"

text \<open>A parameter that is not given is the empty string; \<open>opt_param\<close> is one of the blocks that read a parameter.\<close>

definition opt_param :: "string \<Rightarrow> (string \<Rightarrow> 'a option) \<Rightarrow> api_error \<Rightarrow> 'b \<Rightarrow> ('a \<Rightarrow> 'b) \<Rightarrow> api_error + 'b" where
  "opt_param s read e unset use = (if s = [] then Inr unset else case read s of None \<Rightarrow> Inl e | Some x \<Rightarrow> Inr (use x))"

definition read_limit :: "string \<Rightarrow> int option" where
  "read_limit s = (if snd (Atoi s) \<and> fst (Atoi s) \<ge> 1 then Some (to_int32 (min auditMaxLimit (fst (Atoi s)))) else None)"

definition read_offset :: "string \<Rightarrow> int option" where
  "read_offset s = (if snd (Atoi s) \<and> fst (Atoi s) \<ge> 0 then Some (to_int32 (fst (Atoi s))) else None)"

definition audit_params ::
  "(rat \<Rightarrow> rat) \<Rightarrow> (string \<Rightarrow> go_time option) \<Rightarrow> request \<Rightarrow> (string \<Rightarrow> string) \<Rightarrow> api_error + audit_query" where
  "audit_params f64 rfc q g =
     (case opt_param (g ''nodeId'') (rq_parse q) (bad_param ''invalid nodeId'') None Some of Inl e \<Rightarrow> Inl e
      | Inr n \<Rightarrow>
     (case opt_param (g ''userId'') (rq_parse q) (bad_param ''invalid userId'') None Some of Inl e \<Rightarrow> Inl e
      | Inr u \<Rightarrow>
     (case opt_param (g ''since'') (parseAuditSince f64 rfc (rq_now q))
        (bad_param ''since must be a duration (24h, 7d) or RFC3339 timestamp'') None Some of Inl e \<Rightarrow> Inl e
      | Inr t \<Rightarrow>
     (case opt_param (g ''limit'') read_limit (bad_param ''invalid limit'') auditDefaultLimit (\<lambda>x. x) of Inl e \<Rightarrow> Inl e
      | Inr l \<Rightarrow>
     (case opt_param (g ''offset'') read_offset (bad_param ''invalid offset'') 0 (\<lambda>x. x) of Inl e \<Rightarrow> Inl e
      | Inr off \<Rightarrow> Inr \<lparr>aq_NodeID = n, aq_UserID = u, aq_Action = (if g ''action'' = [] then None else Some (g ''action'')),
          aq_Since = t, aq_Offset = off, aq_Limit = l\<rparr>)))))"

definition listAudit ::
  "(rat \<Rightarrow> rat) \<Rightarrow> (string \<Rightarrow> go_time option) \<Rightarrow> (AuditLog list \<Rightarrow> AuditLog list) \<Rightarrow> request \<Rightarrow> actor \<Rightarrow> (string \<Rightarrow> string) \<Rightarrow> db
     \<Rightarrow> api_error + audit_row list" where
  "listAudit f64 rfc arrange q a g d =
     (if \<not> usr_IsAdmin (snd a) then Inl (proto_Err 403 ''FORBIDDEN'' ''admin required'')
      else case audit_params f64 rfc q g of Inl e \<Rightarrow> Inl e
      | Inr p \<Rightarrow>
          (case rd q ''QueryAuditLog'' (QueryAuditLog arrange p d) of
             None \<Rightarrow> Inl (proto_Err 500 ''INTERNAL'' ''query audit'')
           | Some rows \<Rightarrow> Inr rows))"

subsection \<open>Relay administration\<close>

definition relayStatusLegal :: "string \<Rightarrow> string \<Rightarrow> bool" where
  "relayStatusLegal from to \<longleftrightarrow>
     (if to \<noteq> ''active'' \<and> to \<noteq> ''draining'' \<and> to \<noteq> ''retired'' then False
      else if from = ''pending'' then to = ''active'' \<or> to = ''retired''
      else from = ''active'' \<or> from = ''draining'' \<or> from = ''retired'')"

definition adminListRelays :: "request \<Rightarrow> actor \<Rightarrow> Pool \<Rightarrow> api_error + relay_row list" where
  "adminListRelays q a m =
     (if \<not> usr_IsAdmin (snd a) then Inl (proto_Err 403 ''FORBIDDEN'' ''admin only'')
      else if rq_fails q ''ListRelays'' then Inl (proto_Err 500 ''INTERNAL'' ''list relays'')
      else Inr (p_rows m))"

text \<open>The answer is the row with its new status; the body is \<open>None\<close> when it does not decode.\<close>

definition adminSetRelayStatus ::
  "request \<Rightarrow> actor \<Rightarrow> string \<Rightarrow> string option \<Rightarrow> db \<times> Pool \<Rightarrow> (api_error + relay_row) \<times> db \<times> Pool" where
  "adminSetRelayStatus q a rid body x =
     (if \<not> usr_IsAdmin (snd a) then (Inl (proto_Err 403 ''FORBIDDEN'' ''admin only''), x)
      else if rid = [] \<or> length rid > 32 then (Inl (proto_Err 404 ''NODE_NOT_FOUND'' ''relay not found''), x)
      else case body of None \<Rightarrow> (Inl (proto_Err 400 ''INTERNAL'' ''bad request''), x)
      | Some to \<Rightarrow>
          (case rd q ''GetRelay'' (GetRelay rid (snd x)) of None \<Rightarrow> (Inl (proto_Err 404 ''NODE_NOT_FOUND'' ''relay not found''), x)
           | Some row \<Rightarrow>
               if \<not> relayStatusLegal (rr_Status row) to
                 then (Inl (proto_Err 409 ''INTERNAL'' (''illegal relay status transition '' @ rr_Status row @ '' -> '' @ to)), x)
               else if rq_fails q ''SetRelayStatus'' then (Inl (proto_Err 500 ''INTERNAL'' ''update relay''), x)
               else (Inr (row\<lparr>rr_Status := to\<rparr>),
                 audit q None None None ''relay.status'' [(''relayId'', rid), (''from'', rr_Status row), (''to'', to)] (fst x),
                 RelayStatusChanged rid to (SetRelayStatus rid to (snd x)))))"

subsection \<open>Numbers in the audit query\<close>

lemma decimal_val_digit: "decimal_val (c # s) = Some v \<Longrightarrow> char_digit c \<noteq> None"
proof
  assume d: "decimal_val (c # s) = Some v" "char_digit c = None"
  have "foldl (\<lambda>acc c. case acc of None \<Rightarrow> None | Some v \<Rightarrow> map_option (\<lambda>d. v * 10 + d) (char_digit c)) None s = (None :: nat option)" for s
    by (induction s) simp_all
  then show False using d by (simp add: decimal_val_def)
qed

lemma Atoi_decimal: "n < 2 ^ 63 \<Longrightarrow> Atoi (nat_decimal n) = (int n, True)"
proof -
  assume n: "n < 2 ^ 63"
  obtain c s where s: "nat_decimal n = c # s" by (cases "nat_decimal n") auto
  have "char_digit c \<noteq> None" using decimal_val_digit [of c s n] nat_decimal_val [of n] s by simp
  then have "c \<noteq> CHR ''-''" "c \<noteq> CHR ''+''" by (auto simp: char_digit_def)
  then show ?thesis using n nat_decimal_val [of n] by (simp add: Atoi_def Let_def s)
qed

lemma audit_params_offset:
  "audit_params f64 rfc q (g(''offset'' := s)) =
     (case audit_params f64 rfc q (g(''offset'' := [])) of Inl e \<Rightarrow> Inl e
      | Inr p \<Rightarrow> (case opt_param s read_offset (bad_param ''invalid offset'') 0 (\<lambda>x. x) of Inl e \<Rightarrow> Inl e
          | Inr off \<Rightarrow> Inr (p\<lparr>aq_Offset := off\<rparr>)))"
  unfolding audit_params_def by (simp add: opt_param_def [of "[]"] split: sum.split)

lemma read_offset_decimal: "n < 2 ^ 63 \<Longrightarrow> read_offset (nat_decimal n) = Some (to_int32 (int n))"
  by (simp add: read_offset_def Atoi_decimal)

lemma to_int32_wrap:
  "0 \<le> k \<Longrightarrow> k < 2 ^ 31 \<Longrightarrow> to_int32 (j * 2 ^ 32 + k) = k"
  "2 ^ 31 \<le> k \<Longrightarrow> k < 2 ^ 32 \<Longrightarrow> to_int32 k < 0"
proof -
  have t: "to_int32 n = (n + 2 ^ 31) mod 2 ^ 32 - 2 ^ 31" for n
    by (simp add: to_int32_def sint_sbintrunc' signed_take_bit_eq_take_bit_shift take_bit_eq_mod)
  show "to_int32 (j * 2 ^ 32 + k) = k" if "0 \<le> k" "k < 2 ^ 31"
  proof -
    have "(j * 2 ^ 32 + k + 2 ^ 31) mod 2 ^ 32 = (k + 2 ^ 31) mod 2 ^ 32"
      using mod_mult_self1 [of "k + 2 ^ 31" j "2 ^ 32"] by (simp add: ac_simps)
    then show ?thesis using that unfolding t by simp
  qed
  show "to_int32 k < 0" if "2 ^ 31 \<le> k" "k < 2 ^ 32"
  proof -
    have "(k + 2 ^ 31) mod 2 ^ 32 = (k - 2 ^ 31) mod 2 ^ 32"
      using mod_add_self2 [of "k - 2 ^ 31" "2 ^ 32 :: int"] by (simp add: add.commute)
    then show ?thesis using that unfolding t by simp
  qed
qed

lemma read_limit_range: "read_limit s = Some l \<Longrightarrow> 1 \<le> l \<and> l \<le> auditMaxLimit"
proof -
  assume l: "read_limit s = Some l"
  then have "1 \<le> min auditMaxLimit (fst (Atoi s))" "l = to_int32 (min auditMaxLimit (fst (Atoi s)))"
    by (auto simp: read_limit_def auditMaxLimit_def split: if_splits)
  moreover have "min auditMaxLimit (fst (Atoi s)) \<le> auditMaxLimit" by simp
  ultimately show ?thesis using to_int32_wrap(1) [of "min auditMaxLimit (fst (Atoi s))" 0] by (simp add: auditMaxLimit_def)
qed

lemma audit_params_limit: "audit_params f64 rfc q g = Inr p \<Longrightarrow> 1 \<le> aq_Limit p \<and> aq_Limit p \<le> auditMaxLimit"
proof -
  assume "audit_params f64 rfc q g = Inr p"
  then have "opt_param (g ''limit'') read_limit (bad_param ''invalid limit'') auditDefaultLimit (\<lambda>x. x) = Inr (aq_Limit p)"
    unfolding audit_params_def by (auto split: sum.splits)
  then show ?thesis
    using read_limit_range [of "g ''limit''"]
    by (auto simp: opt_param_def auditDefaultLimit_def auditMaxLimit_def split: option.splits if_splits)
qed

definition newest_first :: "(AuditLog list \<Rightarrow> AuditLog list) \<Rightarrow> bool" where
  "newest_first arrange \<longleftrightarrow> (\<forall>xs. mset (arrange xs) = mset xs \<and> sorted_wrt (\<lambda>a b. au_CreatedAt b \<le> au_CreatedAt a) (arrange xs))"

lemma listAudit_offset:
  assumes "usr_IsAdmin (snd a)" "\<not> rq_fails q ''QueryAuditLog''" "audit_params f64 rfc q (g(''offset'' := [])) = Inr p" "n < 2 ^ 63"
  shows "listAudit f64 rfc arrange q a (g(''offset'' := nat_decimal n)) d =
     (if to_int32 (int n) < 0 then Inl (proto_Err 500 ''INTERNAL'' ''query audit'')
      else Inr (map (join_names d) (take (nat (aq_Limit p)) (drop (nat (to_int32 (int n))) (arrange (filter (audit_match p) (db_audit d)))))))"
proof -
  have m: "audit_match (p\<lparr>aq_Offset := x\<rparr>) = audit_match p" for x by (simp add: audit_match_def fun_eq_iff)
  have "audit_params f64 rfc q (g(''offset'' := nat_decimal n)) = Inr (p\<lparr>aq_Offset := to_int32 (int n)\<rparr>)"
    unfolding audit_params_offset [of _ _ _ _ "nat_decimal n"] assms(3) by (simp add: opt_param_def read_offset_decimal [OF assms(4)])
  then show ?thesis
    using audit_params_limit [OF assms(3)] assms(1,2) by (simp add: listAudit_def rd_def QueryAuditLog_def m)
qed

lemma pages_tile: "0 < L \<Longrightarrow> length xs \<le> m * L \<Longrightarrow> concat (map (\<lambda>k. take L (drop (k * L) xs)) [0..<m]) = xs"
proof -
  have "concat (map (\<lambda>k. take L (drop (k * L) xs)) [0..<m]) = take (m * L) xs" for m
  proof (induction m)
    case (Suc m)
    have "take (Suc m * L) xs = take (m * L) xs @ take L (drop (m * L) xs)"
      using take_add [of "m * L" L xs] by (simp add: add.commute)
    then show ?case by (simp add: Suc)
  qed simp
  then show "0 < L \<Longrightarrow> length xs \<le> m * L \<Longrightarrow> ?thesis" by simp
qed

text \<open>Paging through the audit log: whatever filters an administrator combines, the pages at offsets that are
  multiples of the limit give, put together, every matching row exactly once, newest first, while the log and the
  database's order of rows of the same instant do not change.\<close>

theorem audit_pages_tile:
  assumes "newest_first arrange" "usr_IsAdmin (snd a)" "\<not> rq_fails q ''QueryAuditLog''"
    and "audit_params f64 rfc q (g(''offset'' := [])) = Inr p" "length (db_audit d) \<le> m * nat (aq_Limit p)" "m * nat (aq_Limit p) \<le> 2 ^ 31"
  shows "\<exists>pages. length pages = m
     \<and> (\<forall>k < m. listAudit f64 rfc arrange q a (g(''offset'' := nat_decimal (k * nat (aq_Limit p)))) d = Inr (pages ! k)
          \<and> length (pages ! k) \<le> 200)
     \<and> mset (concat pages) = image_mset (join_names d) (filter_mset (audit_match p) (mset (db_audit d)))
     \<and> sorted_wrt (\<lambda>x y. au_CreatedAt (ad_Log y) \<le> au_CreatedAt (ad_Log x)) (concat pages)"
proof -
  let ?L = "nat (aq_Limit p)" and ?xs = "arrange (filter (audit_match p) (db_audit d))"
  define pages where "pages = map (\<lambda>k. map (join_names d) (take ?L (drop (k * ?L) ?xs))) [0..<m]"
  have L: "0 < ?L" "?L \<le> 200" using audit_params_limit [OF assms(4)] by (auto simp: auditMaxLimit_def)
  have xs: "mset ?xs = filter_mset (audit_match p) (mset (db_audit d))" "sorted_wrt (\<lambda>a b. au_CreatedAt b \<le> au_CreatedAt a) ?xs"
    using assms(1) by (simp_all add: newest_first_def)
  have len: "length ?xs \<le> m * ?L"
    using assms(5) arg_cong [OF xs(1), of size] order_trans [OF length_filter_le [of "audit_match p" "db_audit d"] assms(5)] by (simp flip: mset_filter)
  have page: "listAudit f64 rfc arrange q a (g(''offset'' := nat_decimal (k * ?L))) d = Inr (pages ! k)" if k: "k < m" for k
  proof -
    have "k * ?L < m * ?L" using k L(1) by simp
    then have n: "k * ?L < 2 ^ 31" using assms(6) by linarith
    then have "to_int32 (int (k * ?L)) = int (k * ?L)"
      using to_int32_wrap(1) [of "int (k * ?L)" 0] by (simp del: of_nat_mult)
    then show ?thesis
      using listAudit_offset [OF assms(2-4), of "k * ?L" arrange d] n k by (simp add: pages_def del: of_nat_mult)
  qed
  have all: "concat pages = map (join_names d) ?xs"
  proof -
    have "concat pages = map (join_names d) (concat (map (\<lambda>k. take ?L (drop (k * ?L) ?xs)) [0..<m]))"
      by (simp add: pages_def map_concat comp_def)
    then show ?thesis by (simp only: pages_tile [OF L(1) len])
  qed
  have j: "ad_Log (join_names d x) = x" for x by (simp add: join_names_def)
  have "mset (concat pages) = image_mset (join_names d) (filter_mset (audit_match p) (mset (db_audit d)))"
    unfolding all mset_map xs(1) ..
  moreover have "sorted_wrt (\<lambda>x y. au_CreatedAt (ad_Log y) \<le> au_CreatedAt (ad_Log x)) (concat pages)"
    unfolding all sorted_wrt_map j by (rule xs(2))
  moreover have "length pages = m" "\<forall>k < m. length (pages ! k) \<le> 200" using L(2) by (auto simp: pages_def min_def)
  ultimately show ?thesis using page by blast
qed

lemma to_int64_eq: "to_int64 n = (n + 2 ^ 63) mod 2 ^ 64 - 2 ^ 63"
  by (simp add: to_int64_def sint_sbintrunc' signed_take_bit_eq_take_bit_shift take_bit_eq_mod)

lemma days_back_decimal:
  assumes "0 < n" "n < 2 ^ 63"
  shows "days_back (nat_decimal n @ ''d'') = Some (to_int64 (- int n * (24 * Hour)))"
proof -
  have "HasSuffix (nat_decimal n @ ''d'') ''d''" by (simp add: HasSuffix_def)
  then show ?thesis using assms by (simp add: days_back_def Atoi_decimal)
qed

lemma audit_params_since:
  assumes "g ''since'' = s" "s \<noteq> []" "parseAuditSince f64 rfc (rq_now q) s = Some t" "audit_params f64 rfc q (g(''since'' := [])) = Inr p"
  shows "audit_params f64 rfc q g = Inr (p\<lparr>aq_Since := Some t\<rparr>)"
proof -
  have "opt_param (g ''since'') (parseAuditSince f64 rfc (rq_now q))
      (bad_param ''since must be a duration (24h, 7d) or RFC3339 timestamp'') None Some = Inr (Some t)"
    using assms(1-3) by (simp add: opt_param_def)
  moreover have "opt_param [] r e u f = Inr u" for r :: "string \<Rightarrow> 'c option" and e and u :: 'd and f by (simp add: opt_param_def)
  ultimately show ?thesis using assms(4) unfolding audit_params_def by (auto split: sum.splits)
qed

text \<open>C40. Numbers outside their range are not refused, as the handler promises, but wrap around: an offset of
  \<open>2^32\<close> and more shows a page from the beginning of the log again, one of at least \<open>2^31\<close> is a server error, and
  a period of 106752 days (292 years) or a little more lies in the future, so that the log seems to be empty.\<close>

theorem audit_numbers_wrap:
  assumes "newest_first arrange" "usr_IsAdmin (snd a)" "\<not> rq_fails q ''QueryAuditLog''"
    and "audit_params f64 rfc q (g(''offset'' := [], ''since'' := [])) = Inr p" "\<forall>x \<in> set (db_audit d). au_CreatedAt x \<le> rq_now q"
  shows "(\<forall>j k. k < 2 ^ 31 \<and> j * 2 ^ 32 + k < 2 ^ 63 \<longrightarrow>
       listAudit f64 rfc arrange q a (g(''since'' := [], ''offset'' := nat_decimal (j * 2 ^ 32 + k))) d
         = listAudit f64 rfc arrange q a (g(''since'' := [], ''offset'' := nat_decimal k)) d)
     \<and> (\<forall>k. 2 ^ 31 \<le> k \<and> k < 2 ^ 32 \<longrightarrow>
       listAudit f64 rfc arrange q a (g(''since'' := [], ''offset'' := nat_decimal k)) d = Inl (proto_Err 500 ''INTERNAL'' ''query audit''))
     \<and> listAudit f64 rfc arrange q a (g(''offset'' := [], ''since'' := nat_decimal 106752 @ ''d'')) d = Inr []"
proof (intro conjI allI impI)
  let ?g = "g(''since'' := [])"
  have g: "audit_params f64 rfc q (?g(''offset'' := [])) = Inr p" using assms(4) by (simp add: fun_upd_twist)
  note off = listAudit_offset [OF assms(2,3) g, of _ arrange d]
  show "listAudit f64 rfc arrange q a (?g(''offset'' := nat_decimal (j * 2 ^ 32 + k))) d
      = listAudit f64 rfc arrange q a (?g(''offset'' := nat_decimal k)) d" if "k < 2 ^ 31 \<and> j * 2 ^ 32 + k < 2 ^ 63" for j k
  proof -
    have "to_int32 (int (j * 2 ^ 32 + k)) = int k" "to_int32 (int k) = int k"
      using that to_int32_wrap(1) [of "int k" "int j"] to_int32_wrap(1) [of "int k" 0] by simp_all
    moreover have "k < 2 ^ 63" using that by simp
    ultimately show ?thesis using that off by simp
  qed
  show "listAudit f64 rfc arrange q a (?g(''offset'' := nat_decimal k)) d = Inl (proto_Err 500 ''INTERNAL'' ''query audit'')"
    if "2 ^ 31 \<le> k \<and> k < 2 ^ 32" for k
    using that to_int32_wrap(2) [of "int k"] off [of k] by simp
  let ?h = "g(''offset'' := [], ''since'' := nat_decimal 106752 @ ''d'')"
  let ?t = "rq_now q + to_int64 (- int 106752 * (24 * Hour))"
  have "parseAuditSince f64 rfc (rq_now q) (nat_decimal 106752 @ ''d'') = Some ?t"
    by (simp add: parseAuditSince_def days_back_decimal)
  moreover have "audit_params f64 rfc q (?h(''since'' := [])) = Inr p" using assms(4) by simp
  ultimately have h: "audit_params f64 rfc q ?h = Inr (p\<lparr>aq_Since := Some ?t\<rparr>)" by (intro audit_params_since) simp_all
  have future: "rq_now q < ?t" by (simp add: to_int64_eq)
  have none: "filter (audit_match (p\<lparr>aq_Since := Some ?t\<rparr>)) (db_audit d) = []"
  proof (rule filter_False, rule ballI)
    fix x assume "x \<in> set (db_audit d)"
    then have "au_CreatedAt x < ?t" using assms(5) future by fastforce
    then show "\<not> audit_match (p\<lparr>aq_Since := Some ?t\<rparr>) x" by (simp add: audit_match_def)
  qed
  have "mset (arrange []) = mset []" using assms(1) unfolding newest_first_def by blast
  then have e: "arrange [] = []" by simp
  have "0 \<le> aq_Limit p" "0 \<le> aq_Offset p"
  proof -
    show "0 \<le> aq_Limit p" using audit_params_limit [OF assms(4)] by simp
    have "opt_param ((g(''offset'' := [], ''since'' := [])) ''offset'') read_offset (bad_param ''invalid offset'') 0 (\<lambda>x. x) = Inr (aq_Offset p)"
      using assms(4) unfolding audit_params_def by (auto split: sum.splits)
    then show "0 \<le> aq_Offset p" by (simp add: opt_param_def)
  qed
  then have "QueryAuditLog arrange (p\<lparr>aq_Since := Some ?t\<rparr>) d = Some []"
    unfolding QueryAuditLog_def none e by simp
  then show "listAudit f64 rfc arrange q a ?h d = Inr []"
    using assms(2,3) unfolding listAudit_def h by (simp add: rd_def)
qed

subsection \<open>Relay status changes\<close>

text \<open>What an administrator's request to change a relay does, whatever it says and whatever fails: either nothing
  at all, with an error, or exactly the administrator's step of the pool for an existing relay, from a status to
  one the life cycle allows, at most one audit row, and the new status in the answer. A relay that was never
  admitted is not drained. The audit row does not say which administrator it was.\<close>

theorem relay_status_change:
  assumes "adminSetRelayStatus q a rid body (d, m) = (ans, d', m')"
  shows "case ans of Inl e \<Rightarrow> (d', m') = (d, m)
     | Inr row \<Rightarrow> usr_IsAdmin (snd a) \<and> body = Some (rr_Status row)
        \<and> (\<exists>old. GetRelay rid m = Some old \<and> row = old\<lparr>rr_Status := rr_Status row\<rparr>
             \<and> rr_Status row \<in> {''active'', ''draining'', ''retired''} \<and> (rr_Status old = ''pending'' \<longrightarrow> rr_Status row \<noteq> ''draining''))
        \<and> (\<forall>verify f64 s. sy_pool s = m \<longrightarrow> m' = sy_pool (pool_step verify f64 (PoolAdmin rid (rr_Status row)) s))
        \<and> (d' = d \<or> (\<exists>x. d' = d\<lparr>db_audit := db_audit d @ [x]\<rparr> \<and> au_Action x = ''relay.status'' \<and> au_UserID x = None))"
proof -
  have aud: "audit q None None None act meta d = d \<or> (\<exists>x. audit q None None None act meta d = d\<lparr>db_audit := db_audit d @ [x]\<rparr> \<and> au_Action x = act \<and> au_UserID x = None)"
    for act meta
    by (auto simp: audit_def InsertAuditLog_def wr_def)
  show ?thesis
  proof (cases ans)
    case (Inl e)
    then show ?thesis using assms unfolding adminSetRelayStatus_def by (auto split: if_splits option.splits)
  next
    case (Inr row)
    then obtain old to where o: "usr_IsAdmin (snd a)" "body = Some to" "GetRelay rid m = Some old" "relayStatusLegal (rr_Status old) to"
        "row = old\<lparr>rr_Status := to\<rparr>" "m' = RelayStatusChanged rid to (SetRelayStatus rid to m)"
        "d' = audit q None None None ''relay.status'' [(''relayId'', rid), (''from'', rr_Status old), (''to'', to)] d"
      using assms unfolding adminSetRelayStatus_def by (auto simp: rd_Some split: if_splits option.splits)
    have "to \<in> {''active'', ''draining'', ''retired''} \<and> (rr_Status old = ''pending'' \<longrightarrow> to \<noteq> ''draining'')"
      using o(4) by (auto simp: relayStatusLegal_def split: if_splits)
    moreover have "m' = sy_pool (pool_step verify f64 (PoolAdmin rid to) s)" if "sy_pool s = m" for verify f64 s
      using that o(6) by (simp add: pool_step_def)
    ultimately show ?thesis using Inr o(1-3,5) aud [of "''relay.status''"] unfolding o(7) by simp
  qed
qed

subsection \<open>The secure attention sequence\<close>

text \<open>One call of \<open>nodeSas\<close> is a small machine of its own; the calls share the table of waiters, the audit log and the
  agents' connections. A call is numbered, and so is its channel (capacity 1). \<open>sas_taken\<close> are the answers whose
  waiter a read loop has removed from the table under the lock and not yet put into the channel.\<close>

record SasResult =
  sr_ReqID :: string
  sr_OK :: bool
  sr_HR :: int
  sr_Code :: string
  sr_Err :: string

datatype sas_pc = SasRegistered | SasWaiting | SasDone "api_error + SasResult"

record sas_call =
  sc_req :: string
  sc_user :: uuid
  sc_node :: uuid
  sc_cluster :: uuid
  sc_pc :: sas_pc

record sas_sys =
  sas_waiters :: "(string, nat) table"
  sas_chans :: "nat \<Rightarrow> SasResult option"
  sas_taken :: "(nat \<times> SasResult) list"
  sas_calls :: "nat \<Rightarrow> sas_call option"
  sas_db :: db
  sas_sent :: "(uuid \<times> string \<times> string) list"

text \<open>The checks before the call registers: the node with operator rights, and its connection.\<close>

definition nodeSas_check :: "request \<Rightarrow> actor \<Rightarrow> string \<Rightarrow> server \<Rightarrow> api_error + uuid \<times> Node" where
  "nodeSas_check q a s sv =
     (case rq_parse q s of None \<Rightarrow> Inl (proto_Err 404 ''NODE_NOT_FOUND'' ''node not found'')
      | Some i \<Rightarrow>
          (case requireMinRole q a i ''operator'' (sv_db sv) of Inl e \<Rightarrow> Inl e
           | Inr n \<Rightarrow> if registry_Get i (sv_reg sv) = None then Inl (proto_Err 409 ''NODE_OFFLINE'' ''node is offline'') else Inr (i, n)))"

definition sasRegister :: "nat \<Rightarrow> sas_call \<Rightarrow> sas_sys \<Rightarrow> sas_sys" where
  "sasRegister h c s = s\<lparr>sas_waiters := tput (sc_req c) h (sas_waiters s), sas_chans := (sas_chans s)(h := None), sas_calls := (sas_calls s)(h := Some c)\<rparr>"

definition sasUnregister :: "string \<Rightarrow> sas_sys \<Rightarrow> sas_sys" where
  "sasUnregister r s = s\<lparr>sas_waiters := tdel r (sas_waiters s)\<rparr>"

definition sasAudit :: "request \<Rightarrow> sas_call \<Rightarrow> string \<Rightarrow> db \<Rightarrow> db" where
  "sasAudit q c status d = audit q (Some (sc_user c)) (Some (sc_cluster c)) (Some (sc_node c)) ''desktop.sas''
     [(''reqId'', sc_req c), (''status'', status)] d"

definition set_pc :: "nat \<Rightarrow> sas_call \<Rightarrow> sas_pc \<Rightarrow> sas_sys \<Rightarrow> sas_sys" where
  "set_pc h c pc s = s\<lparr>sas_calls := (sas_calls s)(h := Some (c\<lparr>sc_pc := pc\<rparr>))\<rparr>"

definition sas_timeout_err :: api_error where
  "sas_timeout_err = proto_Err 504 ''INTERNAL'' ''node did not answer sas request in time''"

definition sas_dispatch_err :: api_error where
  "sas_dispatch_err = proto_Err 502 ''INTERNAL'' ''dispatch sas request failed''"

datatype sas_event =
    SasBegin nat request actor string string server
  | SasSend nat bool
  | SasTake SasResult
  | SasPut nat
  | SasReceive nat request
  | SasTimeout nat request

text \<open>\<open>sasDeliver\<close> in two steps: removing the waiter under the lock, and the send into its channel, which blocks
  (nothing happens) while the channel is full.\<close>

definition sasDeliver_take :: "SasResult \<Rightarrow> sas_sys \<Rightarrow> sas_sys" where
  "sasDeliver_take res s =
     (case tget (sas_waiters s) (sr_ReqID res) of None \<Rightarrow> s
      | Some h \<Rightarrow> s\<lparr>sas_waiters := tdel (sr_ReqID res) (sas_waiters s), sas_taken := sas_taken s @ [(h, res)]\<rparr>)"

definition sasDeliver_put :: "nat \<Rightarrow> sas_sys \<Rightarrow> sas_sys" where
  "sasDeliver_put h s =
     (case map_of (sas_taken s) h of None \<Rightarrow> s
      | Some res \<Rightarrow> if sas_chans s h \<noteq> None then s
          else s\<lparr>sas_chans := (sas_chans s)(h := Some res), sas_taken := filter (\<lambda>x. fst x \<noteq> h) (sas_taken s)\<rparr>)"

declare sasDeliver_take_def [simp] sasDeliver_put_def [simp]

fun sas_step :: "sas_event \<Rightarrow> sas_sys \<Rightarrow> sas_sys" where
  "sas_step (SasBegin h q a nid r sv) s =
     (case nodeSas_check q a nid sv of Inl _ \<Rightarrow> s
      | Inr (i, n) \<Rightarrow> sasRegister h \<lparr>sc_req = r, sc_user = fst a, sc_node = i, sc_cluster = nd_ClusterID n, sc_pc = SasRegistered\<rparr> s)"
| "sas_step (SasSend h ok) s =
     (case sas_calls s h of None \<Rightarrow> s
      | Some c \<Rightarrow>
          if sc_pc c \<noteq> SasRegistered then s
          else if ok then (set_pc h c SasWaiting s)\<lparr>sas_sent := sas_sent s @ [(sc_node c, sc_req c, sc_user c)]\<rparr>
          else set_pc h c (SasDone (Inl sas_dispatch_err)) (sasUnregister (sc_req c) s))"
| "sas_step (SasTake res) s = sasDeliver_take res s"
| "sas_step (SasPut h) s = sasDeliver_put h s"
| "sas_step (SasReceive h q) s =
     (case sas_calls s h of None \<Rightarrow> s
      | Some c \<Rightarrow>
          (case sas_chans s h of None \<Rightarrow> s
           | Some res \<Rightarrow> if sc_pc c \<noteq> SasWaiting then s
               else (set_pc h c (SasDone (Inr res)) s)\<lparr>sas_chans := (sas_chans s)(h := None),
                      sas_db := sasAudit q c (if sr_OK res then ''ok'' else ''rejected'') (sas_db s)\<rparr>))"
| "sas_step (SasTimeout h q) s =
     (case sas_calls s h of None \<Rightarrow> s
      | Some c \<Rightarrow> if sc_pc c \<noteq> SasWaiting then s
          else (set_pc h c (SasDone (Inl sas_timeout_err)) (sasUnregister (sc_req c) s))\<lparr>sas_db := sasAudit q c ''timeout'' (sas_db s)\<rparr>)"

definition sas_idle :: "db \<Rightarrow> sas_sys" where
  "sas_idle d = \<lparr>sas_waiters = [], sas_chans = (\<lambda>_. None), sas_taken = [], sas_calls = (\<lambda>_. None), sas_db = d, sas_sent = []\<rparr>"

definition sas_rows :: "string \<Rightarrow> db \<Rightarrow> AuditLog list" where
  "sas_rows r d = filter (\<lambda>x. au_Action x = ''desktop.sas'' \<and> map_of (au_Metadata x) ''reqId'' = Some r) (db_audit d)"

text \<open>\<open>uuid.NewString\<close>: a call takes a new number and an identifier that no call has had.\<close>

definition sas_fresh :: "sas_event \<Rightarrow> sas_sys \<Rightarrow> bool" where
  "sas_fresh e s \<longleftrightarrow> (case e of SasBegin h q a nid r sv \<Rightarrow> sas_calls s h = None \<and> (\<forall>k c. sas_calls s k = Some c \<longrightarrow> sc_req c \<noteq> r)
       \<and> sas_rows r (sas_db s) = [] | _ \<Rightarrow> True)"

definition answer_status :: "api_error + SasResult \<Rightarrow> string" where
  "answer_status ans = (case ans of Inl _ \<Rightarrow> ''timeout'' | Inr res \<Rightarrow> if sr_OK res then ''ok'' else ''rejected'')"

definition sas_call_ok :: "sas_sys \<Rightarrow> nat \<Rightarrow> sas_call \<Rightarrow> bool" where
  "sas_call_ok s h c \<longleftrightarrow>
     (\<forall>res. sas_chans s h = Some res \<longrightarrow> sr_ReqID res = sc_req c)
     \<and> (\<forall>res. (h, res) \<in> set (sas_taken s) \<longrightarrow> sr_ReqID res = sc_req c \<and> sas_chans s h = None)
     \<and> (\<forall>r. tget (sas_waiters s) r = Some h \<longrightarrow> r = sc_req c \<and> sas_chans s h = None \<and> (\<forall>res. (h, res) \<notin> set (sas_taken s))
           \<and> (\<forall>ans. sc_pc c \<noteq> SasDone ans))
     \<and> (case sc_pc c of
          SasDone (Inr res) \<Rightarrow> sr_ReqID res = sc_req c \<and> sas_chans s h = None \<and> (\<forall>res. (h, res) \<notin> set (sas_taken s))
        | SasDone (Inl e) \<Rightarrow> e = sas_timeout_err \<or> e = sas_dispatch_err
        | _ \<Rightarrow> sas_rows (sc_req c) (sas_db s) = [])
     \<and> (\<forall>x \<in> set (sas_rows (sc_req c) (sas_db s)). \<exists>ans. sc_pc c = SasDone ans \<and> ans \<noteq> Inl sas_dispatch_err
           \<and> map_of (au_Metadata x) ''status'' = Some (answer_status ans) \<and> au_UserID x = Some (sc_user c) \<and> au_NodeID x = Some (sc_node c))
     \<and> length (sas_rows (sc_req c) (sas_db s)) \<le> 1"

definition sas_inv :: "sas_sys \<Rightarrow> bool" where
  "sas_inv s \<longleftrightarrow> tok (sas_waiters s) \<and> distinct (map fst (sas_taken s))
     \<and> (\<forall>h. sas_calls s h = None \<longrightarrow> (\<forall>r. tget (sas_waiters s) r \<noteq> Some h) \<and> (\<forall>res. (h, res) \<notin> set (sas_taken s)))
     \<and> (\<forall>h c. sas_calls s h = Some c \<longrightarrow> sas_call_ok s h c)
     \<and> (\<forall>h k c e. sas_calls s h = Some c \<and> sas_calls s k = Some e \<and> sc_req c = sc_req e \<longrightarrow> h = k)"

lemma sas_invD:
  assumes "sas_inv s"
  shows "tok (sas_waiters s)" "distinct (map fst (sas_taken s))"
    "tget (sas_waiters s) r = Some h \<Longrightarrow> sas_calls s h \<noteq> None"
    "(h, res) \<in> set (sas_taken s) \<Longrightarrow> sas_calls s h \<noteq> None"
    "sas_calls s h = Some c \<Longrightarrow> sas_call_ok s h c"
    "sas_calls s h = Some c \<Longrightarrow> sas_calls s k = Some e \<Longrightarrow> sc_req c = sc_req e \<Longrightarrow> h = k"
  using assms unfolding sas_inv_def by blast+

lemma sas_call_okD:
  assumes "sas_call_ok s h c"
  shows "sas_chans s h = Some res \<Longrightarrow> sr_ReqID res = sc_req c"
    "(h, res) \<in> set (sas_taken s) \<Longrightarrow> sr_ReqID res = sc_req c \<and> sas_chans s h = None"
    "tget (sas_waiters s) r = Some h \<Longrightarrow> r = sc_req c \<and> sas_chans s h = None \<and> (\<forall>res. (h, res) \<notin> set (sas_taken s)) \<and> (\<forall>ans. sc_pc c \<noteq> SasDone ans)"
    "sc_pc c = SasDone (Inr res) \<Longrightarrow> sr_ReqID res = sc_req c \<and> sas_chans s h = None \<and> (\<forall>res. (h, res) \<notin> set (sas_taken s))"
    "sc_pc c = SasDone (Inl e) \<Longrightarrow> e = sas_timeout_err \<or> e = sas_dispatch_err"
    "sc_pc c = SasRegistered \<or> sc_pc c = SasWaiting \<Longrightarrow> sas_rows (sc_req c) (sas_db s) = []"
  using assms unfolding sas_call_ok_def by (auto split: sas_pc.splits)

lemma sas_call_ok_frame:
  "sas_call_ok s h c \<Longrightarrow> sas_chans s' h = sas_chans s h \<Longrightarrow> (\<And>res. (h, res) \<in> set (sas_taken s') \<Longrightarrow> (h, res) \<in> set (sas_taken s))
   \<Longrightarrow> (\<And>r. tget (sas_waiters s') r = Some h \<Longrightarrow> tget (sas_waiters s) r = Some h)
   \<Longrightarrow> sas_rows (sc_req c) (sas_db s') = sas_rows (sc_req c) (sas_db s) \<Longrightarrow> sas_call_ok s' h c"
proof -
  assume ok: "sas_call_ok s h c" and ch: "sas_chans s' h = sas_chans s h"
    and t: "\<And>res. (h, res) \<in> set (sas_taken s') \<Longrightarrow> (h, res) \<in> set (sas_taken s)"
    and w: "\<And>r. tget (sas_waiters s') r = Some h \<Longrightarrow> tget (sas_waiters s) r = Some h"
    and r: "sas_rows (sc_req c) (sas_db s') = sas_rows (sc_req c) (sas_db s)"
  have 1: "\<forall>res. sas_chans s' h = Some res \<longrightarrow> sr_ReqID res = sc_req c" using sas_call_okD(1) [OF ok] ch by simp
  have 2: "\<forall>res. (h, res) \<in> set (sas_taken s') \<longrightarrow> sr_ReqID res = sc_req c \<and> sas_chans s' h = None"
    using sas_call_okD(2) [OF ok t] unfolding ch by blast
  have 3: "\<forall>r. tget (sas_waiters s') r = Some h \<longrightarrow> r = sc_req c \<and> sas_chans s' h = None \<and> (\<forall>res. (h, res) \<notin> set (sas_taken s'))
      \<and> (\<forall>ans. sc_pc c \<noteq> SasDone ans)"
    using sas_call_okD(3) [OF ok w] t ch by auto
  have 4: "case sc_pc c of
      SasDone (Inr res) \<Rightarrow> sr_ReqID res = sc_req c \<and> sas_chans s' h = None \<and> (\<forall>res. (h, res) \<notin> set (sas_taken s'))
    | SasDone (Inl e) \<Rightarrow> e = sas_timeout_err \<or> e = sas_dispatch_err
    | _ \<Rightarrow> sas_rows (sc_req c) (sas_db s') = []"
    using sas_call_okD(4,5,6) [OF ok] t ch r by (auto split: sas_pc.splits sum.splits)
  have 5: "\<forall>x \<in> set (sas_rows (sc_req c) (sas_db s')). \<exists>ans. sc_pc c = SasDone ans \<and> ans \<noteq> Inl sas_dispatch_err
           \<and> map_of (au_Metadata x) ''status'' = Some (answer_status ans) \<and> au_UserID x = Some (sc_user c) \<and> au_NodeID x = Some (sc_node c)"
    and 6: "length (sas_rows (sc_req c) (sas_db s')) \<le> 1"
    using ok unfolding r sas_call_ok_def by blast+
  show ?thesis unfolding sas_call_ok_def by (intro conjI 1 2 3 4 5 6)
qed

text \<open>Only the call \<open>h\<close> changes.\<close>

lemma sas_inv_upd:
  assumes inv: "sas_inv s" and c: "sas_calls s h = Some c" "sas_calls s' = (sas_calls s)(h := Some c')" "sc_req c' = sc_req c"
    and t: "tok (sas_waiters s')" "distinct (map fst (sas_taken s'))"
    and w: "\<And>k r. k \<noteq> h \<Longrightarrow> tget (sas_waiters s') r = Some k \<Longrightarrow> tget (sas_waiters s) r = Some k"
    and p: "\<And>k res. k \<noteq> h \<Longrightarrow> (k, res) \<in> set (sas_taken s') \<Longrightarrow> (k, res) \<in> set (sas_taken s)"
    and ch: "\<And>k. k \<noteq> h \<Longrightarrow> sas_chans s' k = sas_chans s k"
    and db: "\<And>r. r \<noteq> sc_req c \<Longrightarrow> sas_rows r (sas_db s') = sas_rows r (sas_db s)"
    and ok: "sas_call_ok s' h c'"
  shows "sas_inv s'"
proof -
  have "sas_call_ok s' k e" if e: "sas_calls s' k = Some e" for k e
  proof (cases "k = h")
    case True
    then show ?thesis using e c(2) ok by simp
  next
    case False
    then have k: "sas_calls s k = Some e" using e c(2) by simp
    then have "sc_req e \<noteq> sc_req c" using sas_invD(6) [OF inv k c(1)] False by blast
    show ?thesis by (rule sas_call_ok_frame [OF sas_invD(5) [OF inv k] ch [OF False] p [OF False] w [OF False] db [OF \<open>sc_req e \<noteq> sc_req c\<close>]])
  qed
  moreover have "i = k" if ik: "sas_calls s' i = Some e" "sas_calls s' k = Some f" "sc_req e = sc_req f" for i k e f
  proof -
    have old: "\<exists>g'. sas_calls s j = Some g' \<and> sc_req g' = sc_req g" if "sas_calls s' j = Some g" for j g
    proof (cases "j = h")
      case True
      then have "g = c'" using that c(2) by simp
      then show ?thesis using True c(1,3) by simp
    next
      case False
      then show ?thesis using that c(2) by simp
    qed
    obtain e' f' where "sas_calls s i = Some e'" "sas_calls s k = Some f'" "sc_req e' = sc_req f'"
      using old [OF ik(1)] old [OF ik(2)] ik(3) by metis
    then show ?thesis using sas_invD(6) [OF inv] by blast
  qed
  moreover have "(\<forall>r. tget (sas_waiters s') r \<noteq> Some k) \<and> (\<forall>res. (k, res) \<notin> set (sas_taken s'))" if "sas_calls s' k = None" for k
  proof -
    have "k \<noteq> h" "sas_calls s k = None" using that c by (auto split: if_splits)
    then show ?thesis using w [of k] p [of k] sas_invD(3,4) [OF inv] by metis
  qed
  ultimately show ?thesis using t unfolding sas_inv_def by blast
qed

lemma sas_rows_audit:
  "sas_rows r (sasAudit q c st d) = sas_rows r d \<or> (sc_req c = r \<and> (\<exists>x. sas_rows r (sasAudit q c st d) = sas_rows r d @ [x]
     \<and> map_of (au_Metadata x) ''status'' = Some st \<and> au_UserID x = Some (sc_user c) \<and> au_NodeID x = Some (sc_node c)))"
  by (auto simp: sasAudit_def audit_def InsertAuditLog_def wr_def sas_rows_def split: option.splits sum.splits if_splits)

lemma sas_rows_other: "r \<noteq> sc_req c \<Longrightarrow> sas_rows r (sasAudit q c st d) = sas_rows r d"
  using sas_rows_audit [of r q c st d] by blast

lemma sas_begin_inv:
  assumes inv: "sas_inv s" and f: "sas_calls s h = None" "\<forall>k c. sas_calls s k = Some c \<longrightarrow> sc_req c \<noteq> sc_req c0" "sas_rows (sc_req c0) (sas_db s) = []"
    and pc: "sc_pc c0 = SasRegistered"
  shows "sas_inv (sasRegister h c0 s)"
proof -
  have new: "tget (sas_waiters s) r \<noteq> Some h" "(h, res) \<notin> set (sas_taken s)" for r res using sas_invD(3,4) [OF inv] f(1) by blast+
  have ok: "sas_call_ok (sasRegister h c0 s) k c" if "sas_calls (sasRegister h c0 s) k = Some c" for k c
  proof (cases "k = h")
    case True
    then show ?thesis using that new f(3) pc by (auto simp: sasRegister_def sas_call_ok_def split: if_splits)
  next
    case False
    then have "sas_calls s k = Some c" using that by (simp add: sasRegister_def)
    then show ?thesis using False
      by (intro sas_call_ok_frame [OF sas_invD(5) [OF inv]]) (auto simp: sasRegister_def split: if_splits)
  qed
  have u: "i = k" if "sas_calls (sasRegister h c0 s) i = Some e" "sas_calls (sasRegister h c0 s) k = Some g" "sc_req e = sc_req g" for i k e g
    using that f(2) sas_invD(6) [OF inv, of i e k g] by (cases "i = h"; cases "k = h") (auto simp: sasRegister_def)
  have n: "(\<forall>r. tget (sas_waiters (sasRegister h c0 s)) r \<noteq> Some k) \<and> (\<forall>res. (k, res) \<notin> set (sas_taken (sasRegister h c0 s)))"
    if "sas_calls (sasRegister h c0 s) k = None" for k
  proof -
    have "k \<noteq> h" "sas_calls s k = None" using that by (auto simp: sasRegister_def split: if_splits)
    then have "tget (sas_waiters s) r \<noteq> Some k" "(k, res) \<notin> set (sas_taken s)" for r res
      using sas_invD(3) [OF inv, of r k] sas_invD(4) [OF inv, of k res] by blast+
    then show ?thesis using \<open>k \<noteq> h\<close> by (simp add: sasRegister_def)
  qed
  have t: "tok (sas_waiters (sasRegister h c0 s))" "distinct (map fst (sas_taken (sasRegister h c0 s)))"
    using sas_invD(1,2) [OF inv] by (simp_all add: sasRegister_def)
  show ?thesis unfolding sas_inv_def using ok u n t by blast
qed

lemmas sas_updates = set_pc_def sasUnregister_def

lemma sas_send_inv:
  assumes inv: "sas_inv s" and c: "sas_calls s h = Some c" "sc_pc c = SasRegistered"
  shows "sas_inv (sas_step (SasSend h ok) s)"
proof -
  note k = sas_invD(5) [OF inv c(1)]
  have r: "sas_rows (sc_req c) (sas_db s) = []" using sas_call_okD(6) [OF k] c(2) by simp
  show ?thesis
  proof (cases ok)
    case True
    show ?thesis
    proof (rule sas_inv_upd [OF inv c(1), where c' = "c\<lparr>sc_pc := SasWaiting\<rparr>"])
      show "sas_call_ok (sas_step (SasSend h ok) s) h (c\<lparr>sc_pc := SasWaiting\<rparr>)"
        using k r c True unfolding sas_call_ok_def by (simp add: sas_updates)
    qed (use c True sas_invD(1,2) [OF inv] in \<open>simp_all add: sas_updates\<close>)
  next
    case False
    have w: "tget (tdel (sc_req c) (sas_waiters s)) r \<noteq> Some h" for r
      using sas_call_okD(3) [OF k, of r] sas_invD(1) [OF inv] by (auto split: if_splits)
    show ?thesis
    proof (rule sas_inv_upd [OF inv c(1), where c' = "c\<lparr>sc_pc := SasDone (Inl sas_dispatch_err)\<rparr>"])
      show "sas_call_ok (sas_step (SasSend h ok) s) h (c\<lparr>sc_pc := SasDone (Inl sas_dispatch_err)\<rparr>)"
        using k r c False w unfolding sas_call_ok_def by (simp add: sas_updates)
      show "tget (sas_waiters (sas_step (SasSend h ok) s)) r = Some i \<Longrightarrow> tget (sas_waiters s) r = Some i" for i r
        using c False sas_invD(1) [OF inv] by (simp add: sas_updates split: if_splits)
    qed (use c False sas_invD(1,2) [OF inv] in \<open>simp_all add: sas_updates\<close>)
  qed
qed

lemma sas_take_inv:
  assumes inv: "sas_inv s" and w: "tget (sas_waiters s) (sr_ReqID res) = Some h"
  shows "sas_inv (sas_step (SasTake res) s)"
proof -
  obtain c where c: "sas_calls s h = Some c" using sas_invD(3) [OF inv w] by auto
  note k = sas_invD(5) [OF inv c]
  note d = sas_call_okD(3) [OF k w]
  have other: "tget (tdel (sr_ReqID res) (sas_waiters s)) r \<noteq> Some h" for r
    using sas_call_okD(3) [OF k, of r] d sas_invD(1) [OF inv] by (auto split: if_splits)
  have new: "h \<notin> fst ` set (sas_taken s)" using d by force
  show ?thesis
  proof (rule sas_inv_upd [OF inv c, where c' = c])
    show "sas_call_ok (sas_step (SasTake res) s) h c"
      using k d other unfolding sas_call_ok_def by (auto simp: w split: sas_pc.splits)
    show "tget (sas_waiters (sas_step (SasTake res) s)) r = Some i \<Longrightarrow> tget (sas_waiters s) r = Some i" for i r
      using sas_invD(1) [OF inv] by (simp add: w split: if_splits)
    show "distinct (map fst (sas_taken (sas_step (SasTake res) s)))" using sas_invD(2) [OF inv] new by (simp add: w)
    show "sas_calls (sas_step (SasTake res) s) = (sas_calls s)(h := Some c)" using c by (simp add: w fun_upd_idem)
  qed (use w sas_invD(1) [OF inv] in simp_all)
qed

lemma sas_put_inv:
  assumes inv: "sas_inv s" and t: "(h, res) \<in> set (sas_taken s)"
  shows "sas_chans s h = None \<and> sas_inv (sas_step (SasPut h) s)"
proof -
  obtain c where c: "sas_calls s h = Some c" using sas_invD(4) [OF inv t] by auto
  note k = sas_invD(5) [OF inv c]
  have m: "map_of (sas_taken s) h = Some res" using map_of_is_SomeI [OF sas_invD(2) [OF inv] t] .
  have n: "sas_chans s h = None" "sr_ReqID res = sc_req c" using sas_call_okD(2) [OF k t] by simp_all
  have w: "tget (sas_waiters s) r \<noteq> Some h" for r using sas_call_okD(3) [OF k, of r] t by blast
  have d: "sc_pc c \<noteq> SasDone (Inr x)" for x using sas_call_okD(4) [OF k, of x] t by blast
  have "sas_inv (sas_step (SasPut h) s)"
  proof (rule sas_inv_upd [OF inv c, where c' = c])
    show "sas_call_ok (sas_step (SasPut h) s) h c"
      using k n w d unfolding sas_call_ok_def by (simp add: m split: sas_pc.splits sum.splits)
    show "sas_calls (sas_step (SasPut h) s) = (sas_calls s)(h := Some c)" using c by (simp add: m n fun_upd_idem)
    show "distinct (map fst (sas_taken (sas_step (SasPut h) s)))"
      using sas_invD(2) [OF inv] by (simp add: m n distinct_map_filter)
  qed (use sas_invD(1) [OF inv] in \<open>simp_all add: m n split: if_splits\<close>)
  then show ?thesis using n by simp
qed

lemma sas_receive_inv:
  assumes inv: "sas_inv s" and c: "sas_calls s h = Some c" "sc_pc c = SasWaiting" "sas_chans s h = Some res"
  shows "sas_inv (sas_step (SasReceive h q) s)"
proof -
  note k = sas_invD(5) [OF inv c(1)]
  have r: "sas_rows (sc_req c) (sas_db s) = []" using sas_call_okD(6) [OF k] c(2) by simp
  have id: "sr_ReqID res = sc_req c" using sas_call_okD(1) [OF k c(3)] .
  have t: "(h, x) \<notin> set (sas_taken s)" for x using sas_call_okD(2) [OF k] c(3) by fastforce
  have w: "tget (sas_waiters s) x \<noteq> Some h" for x using sas_call_okD(3) [OF k] c(3) by fastforce
  let ?st = "if sr_OK res then ''ok'' else ''rejected''"
  let ?c = "c\<lparr>sc_pc := SasDone (Inr res)\<rparr>"
  have rows: "sas_rows (sc_req c) (sasAudit q c ?st (sas_db s)) = [] \<or> (\<exists>x. sas_rows (sc_req c) (sasAudit q c ?st (sas_db s)) = [x]
     \<and> map_of (au_Metadata x) ''status'' = Some ?st \<and> au_UserID x = Some (sc_user c) \<and> au_NodeID x = Some (sc_node c))"
    using sas_rows_audit [of "sc_req c" q c ?st "sas_db s"] r by simp
  show ?thesis
  proof (rule sas_inv_upd [OF inv c(1), where c' = ?c])
    show "sas_call_ok (sas_step (SasReceive h q) s) h ?c"
      using rows t w id c unfolding sas_call_ok_def by (auto simp: sas_updates answer_status_def)
  qed (use c sas_invD(1,2) [OF inv] in \<open>simp_all add: sas_updates sas_rows_other\<close>)
qed

lemma sas_timeout_inv:
  assumes inv: "sas_inv s" and c: "sas_calls s h = Some c" "sc_pc c = SasWaiting"
  shows "sas_inv (sas_step (SasTimeout h q) s)"
proof -
  note k = sas_invD(5) [OF inv c(1)]
  have r: "sas_rows (sc_req c) (sas_db s) = []" using sas_call_okD(6) [OF k] c(2) by simp
  have w: "tget (tdel (sc_req c) (sas_waiters s)) x \<noteq> Some h" for x
    using sas_call_okD(3) [OF k, of x] sas_invD(1) [OF inv] by (auto split: if_splits)
  let ?c = "c\<lparr>sc_pc := SasDone (Inl sas_timeout_err)\<rparr>"
  have rows: "sas_rows (sc_req c) (sasAudit q c ''timeout'' (sas_db s)) = [] \<or> (\<exists>x. sas_rows (sc_req c) (sasAudit q c ''timeout'' (sas_db s)) = [x]
     \<and> map_of (au_Metadata x) ''status'' = Some ''timeout'' \<and> au_UserID x = Some (sc_user c) \<and> au_NodeID x = Some (sc_node c))"
    using sas_rows_audit [of "sc_req c" q c "''timeout''" "sas_db s"] r by simp
  have ne: "sas_timeout_err \<noteq> sas_dispatch_err" by (simp add: sas_timeout_err_def sas_dispatch_err_def)
  show ?thesis
  proof (rule sas_inv_upd [OF inv c(1), where c' = ?c])
    show "sas_call_ok (sas_step (SasTimeout h q) s) h ?c"
      using k rows w c ne unfolding sas_call_ok_def by (auto simp: sas_updates answer_status_def)
    show "tget (sas_waiters (sas_step (SasTimeout h q) s)) x = Some i \<Longrightarrow> tget (sas_waiters s) x = Some i" for i x
      using c sas_invD(1) [OF inv] by (simp add: sas_updates split: if_splits)
  qed (use c sas_invD(1,2) [OF inv] in \<open>simp_all add: sas_updates sas_rows_other\<close>)
qed

lemma sas_begin_step:
  assumes "sas_inv s" "sas_fresh (SasBegin h q a nid r sv) s"
  shows "sas_inv (sas_step (SasBegin h q a nid r sv) s)"
proof (cases "nodeSas_check q a nid sv")
  case (Inr x)
  then show ?thesis
    using assms by (cases x) (auto simp: sas_fresh_def intro!: sas_begin_inv)
qed (use assms in simp)

lemma sas_step_inv:
  assumes inv: "sas_inv s" and f: "sas_fresh e s"
  shows "sas_inv (sas_step e s)"
proof (cases e)
  case (SasBegin h q a nid r sv)
  then show ?thesis using sas_begin_step inv f by simp
next
  case (SasSend h ok)
  show ?thesis
  proof (cases "\<exists>c. sas_calls s h = Some c \<and> sc_pc c = SasRegistered")
    case True
    then show ?thesis using sas_send_inv [OF inv] SasSend by blast
  next
    case False
    then have "sas_step e s = s" using SasSend by (cases "sas_calls s h") auto
    then show ?thesis using inv by simp
  qed
next
  case (SasTake res)
  then show ?thesis using sas_take_inv [OF inv, of res] inv by (cases "tget (sas_waiters s) (sr_ReqID res)") auto
next
  case (SasPut h)
  then show ?thesis
    using sas_put_inv [OF inv, of h] inv by (cases "map_of (sas_taken s) h") (auto dest: map_of_SomeD)
next
  case (SasReceive h q)
  show ?thesis
  proof (cases "\<exists>c res. sas_calls s h = Some c \<and> sc_pc c = SasWaiting \<and> sas_chans s h = Some res")
    case True
    then show ?thesis using sas_receive_inv [OF inv] SasReceive by blast
  next
    case False
    then have "sas_step e s = s" using SasReceive by (cases "sas_calls s h"; cases "sas_chans s h") auto
    then show ?thesis using inv by simp
  qed
next
  case (SasTimeout h q)
  show ?thesis
  proof (cases "\<exists>c. sas_calls s h = Some c \<and> sc_pc c = SasWaiting")
    case True
    then show ?thesis using sas_timeout_inv [OF inv] SasTimeout by blast
  next
    case False
    then have "sas_step e s = s" using SasTimeout by (cases "sas_calls s h") auto
    then show ?thesis using inv by simp
  qed
qed

interpretation sas: inv_machine sas_fresh sas_step sas_inv
  by unfold_locales (rule sas_step_inv)

lemma sas_inv_idle: "sas_inv (sas_idle d)"
  by (simp add: sas_inv_def sas_idle_def)

text \<open>C15. However HTTP handlers, agents and their repeated, late or invented answers interleave: an agent's read loop is
  never blocked by the send into a channel, a call is answered with the result that carries its own identifier, no
  finished call leaves an entry in the table of waiters, and the audit log has at most one row for a call, with
  its user and node and the status the caller was told.\<close>

theorem sas_calls_answered:
  assumes "run_ok sas_fresh sas_step es (sas_idle d)"
  shows "let s = fold sas_step es (sas_idle d) in
     (\<forall>h res. (h, res) \<in> set (sas_taken s) \<longrightarrow> sas_chans s h = None \<and> sas_chans (sas_step (SasPut h) s) h = Some res)
     \<and> (\<forall>h c. sas_calls s h = Some c \<longrightarrow>
          (\<forall>res. sc_pc c = SasDone (Inr res) \<longrightarrow> sr_ReqID res = sc_req c)
        \<and> (\<forall>ans r. sc_pc c = SasDone ans \<longrightarrow> tget (sas_waiters s) r \<noteq> Some h)
        \<and> length (sas_rows (sc_req c) (sas_db s)) \<le> 1
        \<and> (\<forall>x \<in> set (sas_rows (sc_req c) (sas_db s)). \<exists>ans. sc_pc c = SasDone ans
             \<and> map_of (au_Metadata x) ''status'' = Some (answer_status ans) \<and> au_UserID x = Some (sc_user c) \<and> au_NodeID x = Some (sc_node c)))"
proof -
  define s where "s = fold sas_step es (sas_idle d)"
  have inv: "sas_inv s" unfolding s_def by (rule sas.run_inv [OF sas_inv_idle assms])
  have put: "sas_chans s h = None \<and> sas_chans (sas_step (SasPut h) s) h = Some res" if t: "(h, res) \<in> set (sas_taken s)" for h res
    using sas_put_inv [OF inv t] map_of_is_SomeI [OF sas_invD(2) [OF inv] t] by simp
  have calls: "(\<forall>res. sc_pc c = SasDone (Inr res) \<longrightarrow> sr_ReqID res = sc_req c)
      \<and> (\<forall>ans r. sc_pc c = SasDone ans \<longrightarrow> tget (sas_waiters s) r \<noteq> Some h)
      \<and> length (sas_rows (sc_req c) (sas_db s)) \<le> 1
      \<and> (\<forall>x \<in> set (sas_rows (sc_req c) (sas_db s)). \<exists>ans. sc_pc c = SasDone ans
           \<and> map_of (au_Metadata x) ''status'' = Some (answer_status ans) \<and> au_UserID x = Some (sc_user c) \<and> au_NodeID x = Some (sc_node c))"
    if c: "sas_calls s h = Some c" for h c
  proof -
    note k = sas_invD(5) [OF inv c]
    have "\<forall>ans r. sc_pc c = SasDone ans \<longrightarrow> tget (sas_waiters s) r \<noteq> Some h" using sas_call_okD(3) [OF k] by blast
    then show ?thesis using sas_call_okD(4) [OF k] k unfolding sas_call_ok_def by blast
  qed
  show ?thesis unfolding Let_def s_def [symmetric] using put calls by blast
qed

subsection \<open>Witnesses\<close>

definition demo_root :: actor where "demo_root = (''#1'', demo_user ''a@x'' True)"

definition demo_log :: "string \<Rightarrow> go_time \<Rightarrow> AuditLog" where
  "demo_log ac t = \<lparr>au_UserID = Some ''#1'', au_ClusterID = None, au_NodeID = None, au_Action = ac, au_Metadata = [], au_CreatedAt = t\<rparr>"

definition demo_audited :: db where
  "demo_audited = demo_db\<lparr>db_audit := [demo_log ''a'' 10, demo_log ''b'' 20, demo_log ''a'' 30]\<rparr>"

definition by_time :: "AuditLog list \<Rightarrow> AuditLog list" where
  "by_time xs = sort_key (\<lambda>x. - au_CreatedAt x) xs"

lemma by_time_newest: "newest_first by_time"
proof -
  have "sorted_wrt (\<lambda>a b. au_CreatedAt b \<le> au_CreatedAt a) (by_time xs)" for xs
    using sorted_sort_key [of "\<lambda>x. - au_CreatedAt x" xs] unfolding by_time_def by (simp add: sorted_map)
  then show ?thesis by (simp add: newest_first_def by_time_def)
qed

text \<open>The action filter \<open>a\<close> with a limit of 2.\<close>

definition demo_get :: "string \<Rightarrow> string" where
  "demo_get k = (if k = ''action'' then ''a'' else if k = ''limit'' then ''2'' else [])"

lemma demo_params: "audit_params (\<lambda>x. x) (\<lambda>_. None) demo_rq (demo_get(''offset'' := [])) =
    Inr \<lparr>aq_NodeID = None, aq_UserID = None, aq_Action = Some ''a'', aq_Since = None, aq_Offset = 0, aq_Limit = 2\<rparr>"
proof -
  have "Atoi ''2'' = (2, True)" by code_simp
  then have "read_limit ''2'' = Some 2"
    using to_int32_wrap(1) [of 2 0] by (simp add: read_limit_def auditMaxLimit_def)
  then show ?thesis by (simp add: audit_params_def opt_param_def demo_get_def)
qed

theorem audit_pages_tile_witness:
  "\<exists>pages. length pages = 2
     \<and> listAudit (\<lambda>x. x) (\<lambda>_. None) by_time demo_rq demo_root (demo_get(''offset'' := nat_decimal (0 * 2))) demo_audited = Inr (pages ! 0)
     \<and> mset (concat pages) = {#join_names demo_audited (demo_log ''a'' 10), join_names demo_audited (demo_log ''a'' 30)#}"
proof -
  have a: "usr_IsAdmin (snd demo_root)" "\<not> rq_fails demo_rq ''QueryAuditLog''" by (simp_all add: demo_root_def demo_user_def demo_rq_def)
  let ?p = "\<lparr>aq_NodeID = None, aq_UserID = None, aq_Action = Some ''a'', aq_Since = None, aq_Offset = 0, aq_Limit = 2\<rparr>"
  have l: "length (db_audit demo_audited) \<le> 2 * nat (aq_Limit ?p)" "2 * nat (aq_Limit ?p) \<le> 2 ^ 31" by (simp_all add: demo_audited_def)
  have m: "filter_mset (audit_match ?p) (mset (db_audit demo_audited)) = {#demo_log ''a'' 10, demo_log ''a'' 30#}"
    by (simp add: demo_audited_def audit_match_def demo_log_def)
  obtain pages where p: "length pages = 2"
      "\<forall>k < 2. listAudit (\<lambda>x. x) (\<lambda>_. None) by_time demo_rq demo_root (demo_get(''offset'' := nat_decimal (k * nat (aq_Limit ?p)))) demo_audited = Inr (pages ! k)
          \<and> length (pages ! k) \<le> 200"
      "mset (concat pages) = image_mset (join_names demo_audited) (filter_mset (audit_match ?p) (mset (db_audit demo_audited)))"
    using audit_pages_tile [OF by_time_newest a demo_params l] by blast
  have "listAudit (\<lambda>x. x) (\<lambda>_. None) by_time demo_rq demo_root (demo_get(''offset'' := nat_decimal (0 * 2))) demo_audited = Inr (pages ! 0)"
    using p(2) [rule_format, of 0] by simp
  then show ?thesis using p(1,3) unfolding m by (intro exI [of _ pages]) simp
qed

theorem audit_numbers_wrap_witness:
  "listAudit (\<lambda>x. x) (\<lambda>_. None) by_time demo_rq demo_root (demo_get(''offset'' := [], ''since'' := nat_decimal 106752 @ ''d'')) demo_audited = Inr []
   \<and> listAudit (\<lambda>x. x) (\<lambda>_. None) by_time demo_rq demo_root (demo_get(''since'' := [], ''offset'' := nat_decimal (1 * 2 ^ 32 + 0))) demo_audited
     = listAudit (\<lambda>x. x) (\<lambda>_. None) by_time demo_rq demo_root (demo_get(''since'' := [], ''offset'' := nat_decimal 0)) demo_audited"
proof -
  have a: "usr_IsAdmin (snd demo_root)" "\<not> rq_fails demo_rq ''QueryAuditLog''" by (simp_all add: demo_root_def demo_user_def demo_rq_def)
  have g: "demo_get(''offset'' := [], ''since'' := []) = demo_get(''offset'' := [])" by (simp add: demo_get_def fun_eq_iff)
  have t: "\<forall>x \<in> set (db_audit demo_audited). au_CreatedAt x \<le> rq_now demo_rq" by (simp add: demo_audited_def demo_log_def demo_rq_def)
  note w = audit_numbers_wrap [where g = demo_get and ?f64.0 = "\<lambda>x. x" and rfc = "\<lambda>_. None", unfolded g, OF by_time_newest a demo_params t]
  have "(0 :: nat) < 2 ^ 31 \<and> 1 * 2 ^ 32 + 0 < (2 ^ 63 :: nat)" by simp
  then show ?thesis using w by blast
qed

theorem relay_status_change_witness:
  "\<exists>row d m. adminSetRelayStatus demo_rq demo_root ''rl-1'' (Some ''active'') (demo_db, pool_New [] [] [demo_row ''pending'']) = (Inr row, d, m)
     \<and> rr_Status row = ''active'' \<and> GetRelay ''rl-1'' m \<noteq> None"
proof -
  let ?m = "pool_New [] [] [demo_row ''pending'']"
  obtain ans d m where r: "adminSetRelayStatus demo_rq demo_root ''rl-1'' (Some ''active'') (demo_db, ?m) = (ans, d, m)" by (metis prod_cases3)
  then obtain row where row: "ans = Inr row" and m: "GetRelay ''rl-1'' m \<noteq> None"
    by (auto simp: adminSetRelayStatus_def demo_root_def demo_user_def demo_rq_def rd_def GetRelay_def pool_New_def demo_row_def relayStatusLegal_def
        SetRelayStatus_def RelayStatusChanged_def)
  have "Some ''active'' = Some (rr_Status row)" using relay_status_change [OF r] unfolding row by simp
  then show ?thesis using r row m by simp
qed

definition demo_sas_server :: server where
  "demo_sas_server = \<lparr>sv_db = demo_db, sv_reg = Add \<lparr>conn_ptr = 1, conn_NodeID = ''#22'', conn_Cancel = False, conn_LastBeat = 0, conn_Beats = 0\<rparr> registry_New\<rparr>"

definition demo_sas_run :: "sas_event list" where
  "demo_sas_run =
     [SasBegin 0 demo_rq demo_root ''#22'' ''r0'' demo_sas_server, SasBegin 1 demo_rq demo_root ''#22'' ''r1'' demo_sas_server,
      SasSend 0 True, SasSend 1 True,
      SasTake \<lparr>sr_ReqID = ''r1'', sr_OK = True, sr_HR = 0, sr_Code = [], sr_Err = []\<rparr>,
      SasTake \<lparr>sr_ReqID = ''r1'', sr_OK = False, sr_HR = 0, sr_Code = [], sr_Err = []\<rparr>,
      SasTimeout 0 demo_rq, SasPut 1, SasReceive 1 demo_rq]"

lemma demo_sas_check: "\<exists>n. nodeSas_check demo_rq demo_root ''#22'' demo_sas_server = Inr (''#22'', n)"
  by (simp add: nodeSas_check_def demo_rq_def requireMinRole_def authorizeNodeRole_def demo_sas_server_def demo_root_def demo_rows rd_def
      GetNodeByID_def GetMemberRole_def roleRank_def registry_Get_def Add_def registry_New_def)

theorem sas_calls_answered_witness:
  "(let s = fold sas_step demo_sas_run (sas_idle demo_db) in
      (\<exists>c res. sas_calls s 1 = Some c \<and> sc_pc c = SasDone (Inr res) \<and> sr_OK res \<and> sr_ReqID res = sc_req c)
      \<and> (\<exists>c. sas_calls s 0 = Some c \<and> sc_pc c = SasDone (Inl sas_timeout_err)) \<and> sas_waiters s = [])"
proof -
  obtain n where n: "nodeSas_check demo_rq demo_root ''#22'' demo_sas_server = Inr (''#22'', n)" using demo_sas_check by blast
  let ?b = "[SasBegin 0 demo_rq demo_root ''#22'' ''r0'' demo_sas_server, SasBegin 1 demo_rq demo_root ''#22'' ''r1'' demo_sas_server]"
  have "sas_rows r demo_db = []" for r by (simp add: sas_rows_def demo_db_def)
  then have "run_ok sas_fresh sas_step ?b (sas_idle demo_db)"
    by (simp add: n sas_fresh_def sas_idle_def sasRegister_def)
  moreover have "run_ok sas_fresh sas_step (drop 2 demo_sas_run) s" for s
    by (rule run_okI) (auto simp: demo_sas_run_def sas_fresh_def)
  moreover have "demo_sas_run = ?b @ drop 2 demo_sas_run" by (simp add: demo_sas_run_def)
  ultimately have ok: "run_ok sas_fresh sas_step demo_sas_run (sas_idle demo_db)"
    using run_ok_append [of sas_fresh sas_step ?b "drop 2 demo_sas_run" "sas_idle demo_db"] by metis
  let ?s = "fold sas_step demo_sas_run (sas_idle demo_db)"
  obtain c res where c: "sas_calls ?s 1 = Some c" "sc_pc c = SasDone (Inr res)" "sr_OK res"
    by (simp add: demo_sas_run_def n sas_idle_def sasRegister_def sas_updates)
  have "sr_ReqID res = sc_req c" using sas_calls_answered [OF ok] c(1,2) unfolding Let_def by blast
  moreover have "(\<exists>c. sas_calls ?s 0 = Some c \<and> sc_pc c = SasDone (Inl sas_timeout_err)) \<and> sas_waiters ?s = []"
    by (simp add: demo_sas_run_def n sas_idle_def sasRegister_def sas_updates)
  ultimately show ?thesis unfolding Let_def using c by blast
qed

end
