(* ===== verification/Spec2Isabelle.thy ===== *)
theory Spec2Isabelle
  imports Ipc_Frame Registry Arbiter Session_Manager Session_Life Api Releases Agent_Connect Agent_Desktop Agent_Exec Installer_Sync Bootstrap Admin_Api
begin

text \<open>
  A verification of XNC, a remote-administration platform: a server (\<open>src/server\<close>) manages clusters of
  nodes, an agent on each node (\<open>src/agent\<close>) keeps a control connection to it, remote desktop media
  and session data run over relays (\<open>src/rtv\<close>, \<open>src/relay\<close>), and a helper process hosts shells
  (\<open>src/shellhost\<close>). The Go code is modelled by shallow embedding: a struct is a record, a Go map
  a table (association list with distinct keys), an error a value, a mutex-protected method one
  function from state to state, a goroutine or timer an event of a run, \<open>time.Now()\<close> and random
  values arguments, and what a component does to the outside (messages, closed sockets, callbacks,
  processes) a log in its state.

  \<^bold>\<open>Theories and the code they model\<close>

  \<^item> \<open>XNC_Prelude\<close>: instants and durations, the API error, Go maps (locale \<open>go_map\<close>, interpreted on the
    tables every component uses), runs of operations with preconditions and the locale \<open>inv_machine\<close>
    (an invariant kept by every operation holds along every run), little-endian integers.
    \<open>Go_Strings\<close>: the parts of \<open>strings\<close>, \<open>strconv\<close>, \<open>hex\<close> and \<open>base64\<close> that are used.
  \<^item> \<open>Ipc_Frame\<close>: the XNIP frame codec (\<open>proto/ipc/frame.go\<close>), the mutual handshake
    (\<open>proto/ipc/handshake.go\<close>, \<open>clientHandshake\<close> of \<open>agent/shellpipe/client.go\<close>, \<open>serverHandshake\<close> of
    \<open>shellhost/server.go\<close>) and the shell messages (\<open>shellhost/message.go\<close>). Decoders accept exactly what
    encoders produce, streams of frames are read back, the handshake completes and authenticates.
  \<^item> \<open>Registry\<close>: online agent connections (\<open>server/internal/registry\<close>) and their take-over.
  \<^item> \<open>Control_Lease\<close>, \<open>Arbiter\<close>: the contract of a control lease with cool-down as a locale, and the
    relay's arbiter (\<open>rtv/arbiter.go\<close>) as one provider of it.
  \<^item> \<open>Session_Manager\<close>: the server's sessions (\<open>server/internal/session\<close>): creation under limits,
    single-use tokens, attachment, expiry, close, janitor, and the second provider of \<open>control_lease\<close>.
  \<^item> \<open>Ticket\<close>: relay tickets (\<open>rtv/ticket.go\<close>), host and viewer admission (\<open>rtv/rtv.go\<close>), host-leg
    addresses (\<open>rtv/probe.go\<close>). \<open>Hub\<close>: the media hub of a relay (\<open>rtv/relay.go\<close>, \<open>rtv/legws.go\<close>).
  \<^item> \<open>Relay_Pool\<close>: the server's pool of relays (\<open>server/internal/rtvpool\<close>) with the relays table.
    \<open>Session_Router\<close>: the relay process (\<open>relay/cmd/xnc-relay\<close>): data sessions, control messages,
    statistics, endpoints, certificates.
  \<^item> \<open>Database\<close>: the server's tables with one definition per SQL statement (\<open>server/internal/db/sqlc\<close>) and the
    invariant \<open>db_wf\<close> of the schema's constraints, kept by every statement. A request carries its clock, its
    random values and which of its statements fail.
  \<^item> \<open>Access\<close>: login, accounts, clusters and members (\<open>server/internal/api\<close>, \<open>auth\<close>, \<open>bootstrap\<close>) with the step
    relation \<open>act\<close> of what a user may do; \<open>Nodes\<close>: enrollment, listing, move, status and the agent's control
    connection, with the relation \<open>nact\<close>; \<open>Api\<close>: all state-changing routes as one step function. Every
    handler refines the relations; from them follow the schema, the last administrator, an owner for
    every live cluster, and that only owners and members change a cluster.
  \<^item> \<open>Releases\<close>: upload, deletion and roll-out of agent releases and the download end points
    (\<open>update.go\<close>, \<open>update_handlers.go\<close>, \<open>setup_handlers.go\<close>), what a release holds along every run, and the
    way from an upload to the installer the agent's \<open>Updater\<close> runs. \<open>Installer_Sync\<close>: the rounds that mirror
    published installers into the same tables (\<open>installersync/syncer.go\<close>), against any network.
    \<open>Bootstrap\<close>: the environment (\<open>config.go\<close>), migrations (\<open>migrate.go\<close>) and the first account (\<open>bootstrap.go\<close>), which
    establishes the invariants that \<open>Api\<close> keeps. \<open>Admin_Api\<close>: the audit query, relay administration and the secure
    attention calls (\<open>audit_handlers.go\<close>, \<open>relay_admin_handlers.go\<close>, \<open>sas_handlers.go\<close>).
  \<^item> \<open>Session_Start\<close>: the end points that start exec, shell, file, tunnel and desktop sessions
    (\<open>exec_handlers.go\<close> and its siblings): checks of the request, the role, the session in the manager, the choice
    between main site and relay legs, tickets, callbacks, the order to the agent and the answer.
    \<open>Session_Life\<close>: starts, manager events and relay messages as one step function of the server
    (\<open>center_step\<close>); its invariant (every session has its callbacks) gives that no session ends silently, and
    the tickets of a start are put together with the relay that checks them.
  \<^item> \<open>Agent_Connect\<close>: the agent's control connection (\<open>agent/connect/client.go\<close>: back-off, handshake, read
    loop, deregistration) against the server's end in \<open>Nodes\<close>, and the session engine
    (\<open>agent/session/engine.go\<close>) as a machine whose table is exactly its running goroutines.
    \<open>File_Transfer\<close>: the agent's file handler (\<open>agent/session/file.go\<close>) on an explicit file system, and
    the upload and download commands (\<open>cli/cmd_file.go\<close>) up to the exit code.
    \<open>Agent_Desktop\<close>: the virtual display (\<open>agent/display/display.go\<close>), debounced against the physical output,
    and desktop sessions (\<open>agent/desktop/handler.go\<close>) as interleaved steps of their goroutines.
    \<open>Agent_Exec\<close>: commands and scripts from \<open>cli/cmd_exec.go\<close> over the agent's handler
    (\<open>agent/session/exec.go\<close>) to the Linux process host (\<open>shellhost_linux.go\<close>) and back, the goroutines of a command
    as a step relation, the shell and tunnel handlers (\<open>shell.go\<close>, \<open>tunnel.go\<close>).
  \<^item> \<open>Version_Order\<close>, \<open>Updater\<close>: version comparison (locale \<open>comparison\<close>) and self-update of the agent
    (\<open>agent/updater\<close>).

  \<^bold>\<open>How parts interact\<close>

  The server signs tickets that relays check offline; \<open>Ticket\<close> holds both ends, and \<open>Hub\<close> and
  \<open>Session_Router\<close> use its verifier, so that what a kill order means is proved from the message to the
  last viewer. The pool decides which relay gets a session and forwards what relays report. The
  session manager and the arbiter share the lease contract. A start registers callbacks with the manager;
  what they do at the end of a session (audit row, kill orders) is run by every event that closes it.

  \<^bold>\<open>Bounds and fuel\<close>

  No definition uses fuel except the white-space trimming of \<open>Go_Strings\<close>, where the length of the
  string bounds the number of rounds. Integers are unbounded where the code cannot overflow them;
  wire integers and byte counters are words.

  \<^bold>\<open>Not modelled\<close>

  Sockets, TLS, QUIC, HTTP and process start are outside; Ed25519, HMAC, SHA-256 and JSON coding are
  parameters with their documented laws as named hypotheses. The browser client, the C++ core, the Rust
  host, the installer scripts and third-party code are not Go. Of the Go code the entry points, the Windows
  backends, the client of the C++ core (\<open>agent/coreclient\<close>), the command line apart from exec, upload and download,
  the relay statistics end point and the diagnostic tools are left out: they are system calls, printing, or
  wiring of the parts modelled here. Requests of the
  interface run one after the other in \<open>Api\<close>; the one race that this hides (\<open>deleteUser\<close>) is stated on its two halves.
\<close>

end
